(* ===== verification/Prelude.thy ===== *)
theory Prelude
  imports Main "HOL-Library.Word"
begin

unbundle bit_operations_syntax

text \<open>
  Shared vocabulary of the development: bytes, Python enumerations and the facts about
  bit fields of unbounded integers that every wire format of the program relies on.

  Python's integers are unbounded, so they are \<open>int\<close>, and their operators \<open><<\<close>, \<open>>>\<close>,
  \<open>&\<close> and \<open>|\<close> are \<open>push_bit\<close>, \<open>drop_bit\<close>, \<open>AND\<close> and \<open>OR\<close> on \<open>int\<close>. Positions in a byte
  string (offsets, lengths) are \<open>nat\<close>: the program only ever computes non-negative ones.
\<close>

named_theorems bit_field \<comment> \<open>facts that read a field back out of an OR of shifted fields\<close>
named_theorems layout \<comment> \<open>the format strings of the program, as lists of items\<close>

type_synonym byte = "8 word"
type_synonym bytes = "byte list"

subsection \<open>Slices of byte strings\<close>

text \<open>\<open>data[a:b]\<close> and \<open>data[a:]\<close> for \<open>0 <= a\<close>: Python clips both ends, as \<open>take\<close> and \<open>drop\<close> do.\<close>

abbreviation slice :: "nat \<Rightarrow> nat \<Rightarrow> 'a list \<Rightarrow> 'a list" where
  "slice a b xs \<equiv> take (b - a) (drop a xs)"

lemma take_drop_append [simp]:
  "length pre = n \<Longrightarrow> take m (drop n (pre @ xs)) = take m xs"
  by simp

lemma take_append_exact: "length xs = n \<Longrightarrow> take n (xs @ ys) = xs"
  by simp

subsection \<open>Bit fields of integers\<close>

lemma bit_bounded:
  fixes v :: int
  assumes "0 \<le> v" and "v < 2 ^ w" and "bit v n"
  shows "n < w"
proof -
  have "take_bit w v = v" using assms(1,2) by (simp add: take_bit_int_eq_self)
  then have "bit (take_bit w v) n" using assms(3) by simp
  then show ?thesis by (simp add: bit_take_bit_iff)
qed

lemma take_bit_field [bit_field]:
  fixes v :: int
  shows "0 \<le> v \<Longrightarrow> v < 2 ^ w \<Longrightarrow> take_bit w v = v"
  by (simp add: take_bit_int_eq_self)

lemma drop_bit_field: "0 \<le> v \<Longrightarrow> v < 2 ^ w \<Longrightarrow> drop_bit w (v :: int) = 0"
  by (simp add: drop_bit_eq_div)

text \<open>The high and the low part of an OR whose low part fits below the shift.\<close>

lemma drop_bit_push_or:
  fixes a b :: int
  assumes "0 \<le> b" and "b < 2 ^ n"
  shows "drop_bit n (push_bit n a OR b) = a"
  using drop_bit_field [OF assms] by (simp add: drop_bit_push_bit)

lemma take_bit_push_or:
  fixes a b :: int
  assumes "0 \<le> b" and "b < 2 ^ n"
  shows "take_bit n (push_bit n a OR b) = b"
  using take_bit_field [OF assms] by (simp add: take_bit_push_bit)

lemma push_or_range:
  fixes a b :: int
  assumes "0 \<le> a" and "a < 2 ^ m" and "0 \<le> b" and "b < 2 ^ n"
  shows "0 \<le> push_bit n a OR b" and "push_bit n a OR b < 2 ^ (m + n)"
proof -
  show "0 \<le> push_bit n a OR b" using assms by simp
  have "take_bit (m + n) (push_bit n a OR b) = push_bit n (take_bit m a) OR take_bit (m + n) b"
    by (simp add: take_bit_push_bit)
  moreover have "take_bit (m + n) b = b"
  proof -
    have "(2::int) ^ n \<le> 2 ^ (m + n)" by (simp add: power_increasing)
    with assms(4) have "b < 2 ^ (m + n)" by linarith
    with assms(3) show ?thesis by (simp add: take_bit_int_eq_self)
  qed
  moreover have "take_bit m a = a" using assms by (simp add: take_bit_int_eq_self)
  ultimately have "take_bit (m + n) (push_bit n a OR b) = push_bit n a OR b" by simp
  then show "push_bit n a OR b < 2 ^ (m + n)" by (metis take_bit_int_less_exp)
qed

text \<open>The masks the program writes as literals.\<close>

lemma and_masks [bit_field]:
  "x AND (1 :: int) = take_bit 1 x"
  "x AND (3 :: int) = take_bit 2 x"
  "x AND (7 :: int) = take_bit 3 x"
  "x AND (15 :: int) = take_bit 4 x"
  "x AND (31 :: int) = take_bit 5 x"
  "x AND (255 :: int) = take_bit 8 x"
  "x AND (0x7FF :: int) = take_bit 11 x"
  "x AND (0x3FFF :: int) = take_bit 14 x"
  "x AND (0xFFFFFFFF :: int) = take_bit 32 x"
  by (simp_all add: take_bit_eq_mask mask_eq_exp_minus_1)

lemma take_bit_int_range:
  "0 \<le> take_bit n (x :: int)" "take_bit n (x :: int) < 2 ^ n"
  by simp_all

lemma push_drop_or_take: "push_bit n (drop_bit n v) OR take_bit n v = (v :: int)"
  by (rule bit_eqI) (auto simp: bit_push_bit_iff bit_drop_bit_eq bit_take_bit_iff bit_or_iff)

text \<open>How the simplifier reads fields: through \<open>OR\<close>, shifts and truncations.\<close>

lemmas field_simps_bits =
  drop_bit_take_bit drop_bit_push_bit take_bit_push_bit

text \<open>A set bit tested with a one-bit mask, as the program writes \<open>w & (1 << n) != 0\<close>.\<close>

lemma and_bit_nonzero: "(w AND push_bit n (1 :: int) \<noteq> 0) = bit w n"
  by (simp add: bit_iff_and_push_bit_not_eq_0)

subsection \<open>Python enumerations\<close>

text \<open>
  A Python \<open>Enum\<close> class is a datatype with the list of its members (in declaration order)
  and their values; \<open>Cls(v)\<close> looks a member up by value and raises \<open>ValueError\<close> when there is none.
\<close>

definition enum_lookup :: "'a list \<Rightarrow> ('a \<Rightarrow> int) \<Rightarrow> int \<Rightarrow> 'a option" where
  "enum_lookup members val v = find (\<lambda>m. val m = v) members"

locale py_enum =
  fixes members :: "'a list"
    and val :: "'a \<Rightarrow> int"
  assumes all_members: "x \<in> set members"
    and val_inj: "distinct (map val members)"
begin

lemma val_eq: "val x = val y \<longleftrightarrow> x = y"
  using val_inj all_members by (auto simp: distinct_map dest: inj_onD)

lemma val_antisym: "val x \<le> val y \<Longrightarrow> val y \<le> val x \<Longrightarrow> x = y"
  by (simp add: val_eq [symmetric])

lemma lookup_val [simp]: "enum_lookup members val (val x) = Some x"
proof -
  have "\<exists>y \<in> set members. val y = val x" using all_members by blast
  then obtain y where "find (\<lambda>m. val m = val x) members = Some y"
    by (cases "find (\<lambda>m. val m = val x) members") (auto simp: find_None_iff)
  moreover from this have "val y = val x" by (auto simp: find_Some_iff)
  ultimately show ?thesis by (simp add: enum_lookup_def val_eq)
qed

lemma lookup_Some: "enum_lookup members val v = Some x \<longleftrightarrow> v = val x"
proof
  assume "enum_lookup members val v = Some x"
  then show "v = val x" by (auto simp: enum_lookup_def find_Some_iff)
next
  assume "v = val x"
  then show "enum_lookup members val v = Some x" by simp
qed

lemma lookup_None: "enum_lookup members val v = None \<longleftrightarrow> v \<notin> val ` set members"
  by (auto simp: enum_lookup_def find_None_iff)

end

end
