(* ===== verification/Exceptions.thy ===== *)
theory Exceptions
  imports Prelude
begin

text \<open>
  The exceptions of the program (\<open>spinnman/exceptions.py\<close> and the Python built-ins it meets) as
  values, the SCP result codes they carry (\<open>messages/scp/enums/scp_result.py\<close>), and the result
  type \<open>exc + 'a\<close> that every fallible operation of the development returns.
\<close>

subsection \<open>SCP result codes\<close>

datatype scp_result =
    RC_OK | RC_LEN | RC_SUM | RC_CMD | RC_ARG | RC_PORT | RC_TIMEOUT | RC_ROUTE
  | RC_CPU | RC_DEAD | RC_BUF | RC_P2P_NOREPLY | RC_P2P_REJECT | RC_P2P_BUSY
  | RC_P2P_TIMEOUT | RC_PKT_TX

fun scp_result_value :: "scp_result \<Rightarrow> int" where
  "scp_result_value RC_OK = 0x80"
| "scp_result_value RC_LEN = 0x81"
| "scp_result_value RC_SUM = 0x82"
| "scp_result_value RC_CMD = 0x83"
| "scp_result_value RC_ARG = 0x84"
| "scp_result_value RC_PORT = 0x85"
| "scp_result_value RC_TIMEOUT = 0x86"
| "scp_result_value RC_ROUTE = 0x87"
| "scp_result_value RC_CPU = 0x88"
| "scp_result_value RC_DEAD = 0x89"
| "scp_result_value RC_BUF = 0x8a"
| "scp_result_value RC_P2P_NOREPLY = 0x8b"
| "scp_result_value RC_P2P_REJECT = 0x8c"
| "scp_result_value RC_P2P_BUSY = 0x8d"
| "scp_result_value RC_P2P_TIMEOUT = 0x8e"
| "scp_result_value RC_PKT_TX = 0x8f"

definition scp_result_members :: "scp_result list" where
  "scp_result_members =
     [RC_OK, RC_LEN, RC_SUM, RC_CMD, RC_ARG, RC_PORT, RC_TIMEOUT, RC_ROUTE, RC_CPU, RC_DEAD,
      RC_BUF, RC_P2P_NOREPLY, RC_P2P_REJECT, RC_P2P_BUSY, RC_P2P_TIMEOUT, RC_PKT_TX]"

interpretation scp_result: py_enum scp_result_members scp_result_value
proof
  fix x show "x \<in> set scp_result_members" by (cases x) (simp_all add: scp_result_members_def)
qed (simp add: scp_result_members_def)

subsection \<open>Exceptions\<close>

text \<open>
  The strings are the arguments that identify the problem (packet type, parameter name,
  operation and command); the free-text explanations are left out.
\<close>

datatype exc =
    StructError
  | PyValueError
  | PyKeyError
  | PyIndexError
  | PyTypeError
  | PyAttributeError
  | PyAssertionError
  | PyNotImplementedError
  | PyStopIteration
  | PyOSError
  | InvalidPacket string
  | InvalidParameter string
  | InvalidParameterType string
  | SpinnmanIO
  | SpinnmanEOF
  | SpinnmanTimeout
  | UnexpectedResponseCode string string scp_result
  | GenericProcess exc
  | GroupedProcess "exc list"
  | UnsupportedOperation
  | SpallocError
  | SpinnmanError
  | CoresNotInState
  | PyException

text \<open>
  The hierarchy, as \<open>except\<close> clauses see it: \<open>SpinnmanError\<close> is \<open>SpinnmanException\<close> itself,
  \<open>SpinnmanEOFException\<close> is an I/O exception and \<open>SpiNNManCoresNotInStateException\<close> a timeout.
\<close>

fun is_spinnman :: "exc \<Rightarrow> bool" where
  "is_spinnman StructError = False"
| "is_spinnman PyValueError = False"
| "is_spinnman PyKeyError = False"
| "is_spinnman PyIndexError = False"
| "is_spinnman PyTypeError = False"
| "is_spinnman PyAttributeError = False"
| "is_spinnman PyAssertionError = False"
| "is_spinnman PyNotImplementedError = False"
| "is_spinnman PyStopIteration = False"
| "is_spinnman PyOSError = False"
| "is_spinnman PyException = False"
| "is_spinnman _ = True"

definition is_io :: "exc \<Rightarrow> bool" where
  "is_io e \<longleftrightarrow> e = SpinnmanIO \<or> e = SpinnmanEOF"

definition is_timeout :: "exc \<Rightarrow> bool" where
  "is_timeout e \<longleftrightarrow> e = SpinnmanTimeout \<or> e = CoresNotInState"

type_synonym 'a res = "exc + 'a"

definition bind_res :: "'a res \<Rightarrow> ('a \<Rightarrow> 'b res) \<Rightarrow> 'b res" where
  "bind_res r f = (case r of Inl e \<Rightarrow> Inl e | Inr x \<Rightarrow> f x)"

definition require :: "exc \<Rightarrow> 'a option \<Rightarrow> 'a res" where
  "require e r = (case r of None \<Rightarrow> Inl e | Some x \<Rightarrow> Inr x)"

definition check :: "bool \<Rightarrow> exc \<Rightarrow> 'a res \<Rightarrow> 'a res" where
  "check ok e r = (if ok then r else Inl e)"

lemma bind_res_simps [simp]:
  "bind_res (Inl e) f = Inl e"
  "bind_res (Inr x) f = f x"
  by (simp_all add: bind_res_def)

lemma bind_res_eq_Inr [simp]: "bind_res r f = Inr y \<longleftrightarrow> (\<exists>x. r = Inr x \<and> f x = Inr y)"
  by (cases r) auto

lemma bind_res_eq_Inl:
  "bind_res r f = Inl e \<longleftrightarrow> r = Inl e \<or> (\<exists>x. r = Inr x \<and> f x = Inl e)"
  by (cases r) auto

lemma require_simps [simp]:
  "require e None = Inl e"
  "require e (Some x) = Inr x"
  "require e r = Inr x \<longleftrightarrow> r = Some x"
  "require e r = Inl e' \<longleftrightarrow> r = None \<and> e' = e"
  by (auto simp: require_def split: option.splits)

lemma check_eq_Inr [simp]: "check b e r = Inr x \<longleftrightarrow> b \<and> r = Inr x"
  by (simp add: check_def)

definition enum_of :: "'a list \<Rightarrow> ('a \<Rightarrow> int) \<Rightarrow> int \<Rightarrow> 'a res" where
  "enum_of members val v = require PyValueError (enum_lookup members val v)"

end
