(* ===== verification/PyStruct.thy ===== *)
theory PyStruct
  imports Exceptions
begin

text \<open>
  Python's \<open>struct\<close> module, as far as the program uses it: a format is a list of items,
  \<open>pack\<close> turns a list of values into bytes and \<open>unpack_from\<close> reads them back at an offset.
  Both raise \<open>struct.error\<close> (here \<open>None\<close>): \<open>pack\<close> on a value out of the item's range, on a value
  of the wrong kind or on a wrong number of values, \<open>unpack_from\<close> when the buffer is too short.
  The two laws \<open>unpack_pack\<close> and \<open>pack_unpack\<close> carry every round trip of the development.
\<close>

subsection \<open>Integers as bytes\<close>

fun le_bytes :: "nat \<Rightarrow> int \<Rightarrow> bytes" where
  "le_bytes 0 x = []"
| "le_bytes (Suc n) x = word_of_int x # le_bytes n (x div 256)"

fun le_val :: "bytes \<Rightarrow> int" where
  "le_val [] = 0"
| "le_val (b # bs) = uint b + 256 * le_val bs"

lemma length_le_bytes [simp]: "length (le_bytes n x) = n"
  by (induction n arbitrary: x) auto

lemma uint_byte_lt: "uint (b :: byte) < 256"
  using uint_lt2p [of b] by simp

lemma uint_byte_mod [simp]: "uint (b :: byte) mod 256 = uint b"
  using uint_byte_lt [of b] by simp

lemma le_val_nonneg [simp]: "0 \<le> le_val bs"
  by (induction bs) auto

lemma le_val_lt: "le_val bs < 256 ^ length bs"
proof (induction bs)
  case (Cons b bs)
  then show ?case using uint_byte_lt [of b] by simp
qed simp

lemma le_val_le_bytes: "le_val (le_bytes n x) = x mod 256 ^ n"
proof (induction n arbitrary: x)
  case (Suc n)
  then show ?case
    by (simp add: uint_word_of_int take_bit_eq_mod zmod_zmult2_eq)
qed simp

lemma le_bytes_le_val: "length bs = n \<Longrightarrow> le_bytes n (le_val bs) = bs"
proof (induction bs arbitrary: n)
  case (Cons b bs)
  have "(uint b + 256 * le_val bs) div 256 = le_val bs"
    using uint_byte_lt [of b] by (simp add: div_add1_eq)
  moreover have "word_of_int (uint b + 256 * le_val bs) = b"
  proof (rule word_uint_eqI)
    have "take_bit 8 (uint b + 256 * le_val bs) = uint b"
      by (simp add: take_bit_eq_mod)
    then show "uint (word_of_int (uint b + 256 * le_val bs) :: byte) = uint b"
      by (subst uint_word_of_int) simp
  qed
  ultimately show ?case using Cons by auto
qed simp

subsection \<open>Formats and values\<close>

text \<open>
  \<open>B\<close>, \<open>H\<close>, \<open>I\<close>, \<open>Q\<close> are unsigned integers of 1, 2, 4 and 8 bytes, \<open>h\<close> a signed one of 2 bytes,
  \<open>x\<close> a pad byte that carries no value and \<open>ns\<close> a run of \<open>n\<close> bytes.
\<close>

datatype fitem = FB | FH | FI | FQ | Fh | Fx | FS nat

datatype sval = VI int | VS bytes

datatype endian = Little | Big

fun item_size :: "fitem \<Rightarrow> nat" where
  "item_size FB = 1"
| "item_size FH = 2"
| "item_size FI = 4"
| "item_size FQ = 8"
| "item_size Fh = 2"
| "item_size Fx = 1"
| "item_size (FS n) = n"

fun calcsize :: "fitem list \<Rightarrow> nat" where
  "calcsize [] = 0"
| "calcsize (f # fs) = item_size f + calcsize fs"

definition order_bytes :: "endian \<Rightarrow> bytes \<Rightarrow> bytes" where
  "order_bytes e bs = (case e of Little \<Rightarrow> bs | Big \<Rightarrow> rev bs)"

lemma order_bytes_twice [simp]: "order_bytes e (order_bytes e bs) = bs"
  by (cases e) (simp_all add: order_bytes_def)

lemma length_order_bytes [simp]: "length (order_bytes e bs) = length bs"
  by (cases e) (simp_all add: order_bytes_def)

text \<open>Python's \<open>s\<close> item truncates a longer byte string and pads a shorter one with zeros.\<close>

definition fit_bytes :: "nat \<Rightarrow> bytes \<Rightarrow> bytes" where
  "fit_bytes n bs = take n bs @ replicate (n - length bs) 0"

lemma length_fit_bytes [simp]: "length (fit_bytes n bs) = n"
  by (simp add: fit_bytes_def)

fun pack_item :: "endian \<Rightarrow> fitem \<Rightarrow> sval \<Rightarrow> bytes option" where
  "pack_item e (FS n) (VS bs) = Some (fit_bytes n bs)"
| "pack_item e (FS n) (VI v) = None"
| "pack_item e Fx v = None"
| "pack_item e Fh (VI v) =
     (if - 32768 \<le> v \<and> v < 32768 then Some (order_bytes e (le_bytes 2 v)) else None)"
| "pack_item e f (VI v) =
     (if 0 \<le> v \<and> v < 256 ^ item_size f
      then Some (order_bytes e (le_bytes (item_size f) v)) else None)"
| "pack_item e f (VS bs) = None"

fun unpack_item :: "endian \<Rightarrow> fitem \<Rightarrow> bytes \<Rightarrow> sval" where
  "unpack_item e (FS n) bs = VS bs"
| "unpack_item e Fh bs =
     VI (let v = le_val (order_bytes e bs) in if v < 32768 then v else v - 65536)"
| "unpack_item e f bs = VI (le_val (order_bytes e bs))"

fun pack :: "endian \<Rightarrow> fitem list \<Rightarrow> sval list \<Rightarrow> bytes option" where
  "pack e [] [] = Some []"
| "pack e [] (v # vs) = None"
| "pack e (Fx # fs) vs = map_option ((#) 0) (pack e fs vs)"
| "pack e (f # fs) [] = None"
| "pack e (f # fs) (v # vs) =
     (case pack_item e f v of None \<Rightarrow> None
      | Some bs \<Rightarrow> map_option ((@) bs) (pack e fs vs))"

fun unpack :: "endian \<Rightarrow> fitem list \<Rightarrow> bytes \<Rightarrow> sval list" where
  "unpack e [] bs = []"
| "unpack e (Fx # fs) bs = unpack e fs (drop 1 bs)"
| "unpack e (f # fs) bs =
     unpack_item e f (take (item_size f) bs) # unpack e fs (drop (item_size f) bs)"

definition unpack_from :: "endian \<Rightarrow> fitem list \<Rightarrow> bytes \<Rightarrow> nat \<Rightarrow> sval list option" where
  "unpack_from e fs data offset =
     (if offset + calcsize fs \<le> length data
      then Some (unpack e fs (take (calcsize fs) (drop offset data))) else None)"

text \<open>The calls the program makes pack and unpack integers only: lists of \<open>int\<close>, and \<open>StructError\<close>.\<close>

definition struct_pack :: "endian \<Rightarrow> fitem list \<Rightarrow> int list \<Rightarrow> bytes res" where
  "struct_pack e fs xs = require StructError (pack e fs (map VI xs))"

definition as_int :: "sval \<Rightarrow> int option" where
  "as_int v = (case v of VI x \<Rightarrow> Some x | VS _ \<Rightarrow> None)"

definition struct_unpack_from :: "endian \<Rightarrow> fitem list \<Rightarrow> bytes \<Rightarrow> nat \<Rightarrow> int list res" where
  "struct_unpack_from e fs data offset =
     bind_res (require StructError (unpack_from e fs data offset))
       (\<lambda>vs. require PyTypeError (those (map as_int vs)))"

subsection \<open>Lengths\<close>

lemma length_pack_item: "pack_item e f v = Some bs \<Longrightarrow> length bs = item_size f"
  by (induction e f v rule: pack_item.induct) (auto split: if_splits)

lemma length_pack: "pack e fs vs = Some bs \<Longrightarrow> length bs = calcsize fs"
  by (induction e fs vs arbitrary: bs rule: pack.induct)
    (auto split: option.splits dest!: length_pack_item)

lemma length_struct_pack: "struct_pack e fs xs = Inr bs \<Longrightarrow> length bs = calcsize fs"
  by (auto simp: struct_pack_def dest: length_pack)

text \<open>Packing two formats one after the other.\<close>

lemma pack_append:
  "list_all (\<lambda>f. f \<noteq> Fx) fs \<Longrightarrow> length vs = length fs \<Longrightarrow>
     pack e (fs @ gs) (vs @ ws) =
       (case pack e fs vs of None \<Rightarrow> None | Some a \<Rightarrow> map_option ((@) a) (pack e gs ws))"
proof (induction fs arbitrary: vs)
  case (Cons f fs)
  then obtain v vs' where vs: "vs = v # vs'" "length vs' = length fs" by (cases vs) auto
  have f: "f \<noteq> Fx" and fs: "list_all (\<lambda>f. f \<noteq> Fx) fs" using Cons.prems by auto
  have c: "pack e (f # gs') (v # us) = (case pack_item e f v of None \<Rightarrow> None
      | Some bs \<Rightarrow> map_option ((@) bs) (pack e gs' us))" for gs' us
    using f by (cases f) auto
  show ?case using Cons.IH [OF fs vs(2)] vs(1)
    by (cases "pack e gs ws") (auto simp: c split: option.splits)
qed (cases "pack e gs ws"; simp)

lemma struct_pack_append:
  "list_all (\<lambda>f. f \<noteq> Fx) fs \<Longrightarrow> length xs = length fs \<Longrightarrow>
     struct_pack e (fs @ gs) (xs @ ys) =
       bind_res (struct_pack e fs xs) (\<lambda>a. bind_res (struct_pack e gs ys) (\<lambda>b. Inr (a @ b)))"
  by (auto simp: struct_pack_def pack_append require_def split: option.splits)

lemma struct_pack_Nil [simp]: "struct_pack e [] [] = Inr []"
  by (simp add: struct_pack_def)

text \<open>Items with neither padding, byte runs nor signs, and when packing them succeeds.\<close>

fun plain_item :: "fitem \<Rightarrow> bool" where
  "plain_item Fx = False"
| "plain_item (FS n) = False"
| "plain_item Fh = False"
| "plain_item f = True"

lemma struct_pack_total:
  "list_all plain_item fs \<Longrightarrow> list_all2 (\<lambda>f x. 0 \<le> x \<and> x < 256 ^ item_size f) fs xs \<Longrightarrow>
     \<exists>bs. struct_pack e fs xs = Inr bs"
proof (induction fs arbitrary: xs)
  case Nil
  then show ?case by simp
next
  case (Cons f fs)
  then obtain x ys where xs: "xs = x # ys" "0 \<le> x" "x < 256 ^ item_size f"
    "list_all2 (\<lambda>f x. 0 \<le> x \<and> x < 256 ^ item_size f) fs ys"
    by (cases xs) auto
  with Cons obtain bs where "pack e fs (map VI ys) = Some bs" by (auto simp: struct_pack_def)
  with xs Cons.prems(1) show ?case
    by (cases f) (auto simp: struct_pack_def)
qed

subsection \<open>The round-trip laws\<close>

lemma le_val_order_le_bytes:
  "0 \<le> v \<Longrightarrow> v < 256 ^ n \<Longrightarrow> le_val (order_bytes e (order_bytes e (le_bytes n v))) = v"
  by (simp add: le_val_le_bytes)

lemma unpack_pack_item:
  assumes "pack_item e f (VI x) = Some bs"
  shows "unpack_item e f bs = VI x"
proof (cases f)
  case Fh
  with assms have r: "- 32768 \<le> x" "x < 32768" and bs: "bs = order_bytes e (le_bytes 2 x)"
    by (auto split: if_splits)
  have "x mod 65536 = (if x < 0 then x + 65536 else x)"
    using r mod_pos_pos_trivial [of "x + 65536" 65536] by (simp add: mod_pos_pos_trivial)
  then have "le_val (le_bytes 2 x) = (if x < 0 then x + 65536 else x)"
    by (simp add: le_val_le_bytes)
  then show ?thesis using Fh bs r by simp
qed (use assms in \<open>auto simp: le_val_le_bytes uint_word_of_int take_bit_int_eq_self split: if_splits\<close>)

lemma pack_item_no_pad: "pack_item e f v = Some bs \<Longrightarrow> f \<noteq> Fx"
  by auto

lemma pack_Cons:
  "f \<noteq> Fx \<Longrightarrow> pack e (f # fs) (v # vs) =
     (case pack_item e f v of None \<Rightarrow> None | Some bs \<Rightarrow> map_option ((@) bs) (pack e fs vs))"
  by (cases f) auto

lemma unpack_Cons:
  "f \<noteq> Fx \<Longrightarrow> unpack e (f # fs) bs =
     unpack_item e f (take (item_size f) bs) # unpack e fs (drop (item_size f) bs)"
  by (cases f) auto

lemma unpack_pack: "pack e fs (map VI xs) = Some bs \<Longrightarrow> unpack e fs bs = map VI xs"
proof (induction fs arbitrary: xs bs)
  case Nil
  then show ?case by (cases xs) auto
next
  case (Cons f fs)
  show ?case
  proof (cases "f = Fx")
    case True
    with Cons show ?thesis by auto
  next
    case False
    with Cons.prems obtain x ys where xs: "xs = x # ys" by (cases xs; cases f) auto
    with Cons.prems False obtain b1 b2 where p: "pack_item e f (VI x) = Some b1"
        "pack e fs (map VI ys) = Some b2" "bs = b1 @ b2"
      by (auto simp: pack_Cons split: option.splits)
    from length_pack_item [OF p(1)] Cons.IH [OF p(2)] unpack_pack_item [OF p(1)] False xs p(3)
    show ?thesis by (simp add: unpack_Cons)
  qed
qed

lemma those_as_int [simp]: "those (map (as_int \<circ> VI) xs) = Some xs"
  by (induction xs) (simp_all add: as_int_def)

theorem struct_unpack_pack:
  assumes "struct_pack e fs xs = Inr bs"
  shows "struct_unpack_from e fs (pre @ bs @ post) (length pre) = Inr xs"
proof -
  from assms have p: "pack e fs (map VI xs) = Some bs" by (auto simp: struct_pack_def)
  from unpack_pack [OF p] length_pack [OF p] show ?thesis
    by (simp add: struct_unpack_from_def unpack_from_def)
qed

text \<open>
  The other direction, for formats with neither pad bytes nor byte runs: what was read packs back
  to the bytes it was read from.
\<close>

lemma pack_unpack_item:
  assumes "plain_item f" and "length bs = item_size f"
  shows "\<exists>x. unpack_item e f bs = VI x \<and> pack_item e f (VI x) = Some bs"
proof -
  let ?x = "le_val (order_bytes e bs)"
  have "unpack_item e f bs = VI ?x" using assms(1) by (cases f) auto
  moreover have "0 \<le> ?x" and "?x < 256 ^ item_size f"
    using assms(2) le_val_lt [of "order_bytes e bs"] by auto
  moreover have "order_bytes e (le_bytes (item_size f) ?x) = bs"
    using assms(2) by (simp add: le_bytes_le_val)
  ultimately show ?thesis using assms(1) by (cases f) auto
qed

lemma pack_unpack:
  assumes "list_all plain_item fs" and "length bs = calcsize fs"
  shows "\<exists>xs. unpack e fs bs = map VI xs \<and> length xs = length fs \<and> pack e fs (map VI xs) = Some bs"
  using assms
proof (induction fs arbitrary: bs)
  case Nil
  then show ?case by simp
next
  case (Cons f fs)
  then have f: "f \<noteq> Fx" "plain_item f" by auto
  from Cons.prems have "length (take (item_size f) bs) = item_size f" by simp
  from pack_unpack_item [OF f(2) this] obtain x where
    x: "unpack_item e f (take (item_size f) bs) = VI x"
       "pack_item e f (VI x) = Some (take (item_size f) bs)" by blast
  from Cons.prems have "list_all plain_item fs" "length (drop (item_size f) bs) = calcsize fs"
    by auto
  from Cons.IH [OF this] obtain xs where "unpack e fs (drop (item_size f) bs) = map VI xs"
    "length xs = length fs" "pack e fs (map VI xs) = Some (drop (item_size f) bs)" by blast
  with f x show ?case
    by (intro exI [of _ "x # xs"]) (simp add: pack_Cons unpack_Cons)
qed

theorem struct_pack_unpack:
  assumes "list_all plain_item fs" and "struct_unpack_from e fs data off = Inr xs"
  shows "struct_pack e fs xs = Inr (take (calcsize fs) (drop off data))"
    and "off + calcsize fs \<le> length data" and "length xs = length fs"
proof -
  let ?bs = "take (calcsize fs) (drop off data)"
  from assms(2) show off: "off + calcsize fs \<le> length data"
    by (auto simp: struct_unpack_from_def unpack_from_def split: if_splits)
  then have "length ?bs = calcsize fs" by simp
  from pack_unpack [OF assms(1) this] obtain ys where
    "unpack e fs ?bs = map VI ys" "length ys = length fs" "pack e fs (map VI ys) = Some ?bs" by blast
  with assms(2) off show "struct_pack e fs xs = Inr ?bs" and "length xs = length fs"
    by (auto simp: struct_unpack_from_def unpack_from_def struct_pack_def)
qed

lemma struct_unpack_from_short:
  "length data < off + calcsize fs \<Longrightarrow> struct_unpack_from e fs data off = Inl StructError"
  by (simp add: struct_unpack_from_def unpack_from_def)

lemma struct_unpack_from_total:
  assumes "list_all plain_item fs" and "off + calcsize fs \<le> length data"
  shows "\<exists>xs. struct_unpack_from e fs data off = Inr xs \<and> length xs = length fs"
proof -
  have "length (take (calcsize fs) (drop off data)) = calcsize fs" using assms(2) by simp
  from pack_unpack [OF assms(1) this, of e] obtain xs where
    "unpack e fs (take (calcsize fs) (drop off data)) = map VI xs" "length xs = length fs" by blast
  then show ?thesis using assms(2)
    by (simp add: struct_unpack_from_def unpack_from_def)
qed

text \<open>Values read by an unsigned item fit the item.\<close>

lemma pack_ranges:
  "pack e fs (map VI xs) = Some bs \<Longrightarrow> list_all plain_item fs \<Longrightarrow>
     list_all2 (\<lambda>f x. 0 \<le> x \<and> x < 256 ^ item_size f) fs xs"
proof (induction fs arbitrary: xs bs)
  case Nil
  then show ?case by (cases xs) auto
next
  case (Cons f fs)
  then have f: "f \<noteq> Fx" "plain_item f" by auto
  with Cons.prems obtain x ys where xs: "xs = x # ys" by (cases xs; cases f) auto
  with Cons f show ?case by (cases f) (auto simp: pack_Cons split: option.splits if_splits)
qed

lemma struct_unpack_ranges:
  assumes "list_all plain_item fs" and "struct_unpack_from e fs data off = Inr xs"
  shows "list_all2 (\<lambda>f x. 0 \<le> x \<and> x < 256 ^ item_size f) fs xs"
  using struct_pack_unpack(1) [OF assms] pack_ranges assms(1)
  by (fastforce simp: struct_pack_def)

end
