(* ===== verification/Codec.thy ===== *)
theory Codec
  imports PyStruct
begin

text \<open>
  The contract between a class that serialises itself (\<open>bytestring\<close>) and its parser
  (\<open>from_bytestring(data, offset)\<close>), stated once as a locale: a well-formed object serialises and
  is read back from its bytes at any offset of any buffer. Every message class of the program whose
  parser and printer agree is an interpretation; those that disagree are the findings.
\<close>

locale codec =
  fixes enc :: "'a \<Rightarrow> bytes res"
    and dec :: "bytes \<Rightarrow> nat \<Rightarrow> 'a res"
    and wf :: "'a \<Rightarrow> bool"
  assumes enc_total: "wf x \<Longrightarrow> \<exists>bs. enc x = Inr bs"
    and dec_enc: "wf x \<Longrightarrow> enc x = Inr bs \<Longrightarrow> dec (pre @ bs @ post) (length pre) = Inr x"
begin

lemma dec_enc_0: "wf x \<Longrightarrow> enc x = Inr bs \<Longrightarrow> dec bs 0 = Inr x"
  using dec_enc [of x bs "[]" "[]"] by simp

lemma dec_enc_prefix: "wf x \<Longrightarrow> enc x = Inr bs \<Longrightarrow> dec (bs @ post) 0 = Inr x"
  using dec_enc [of x bs "[]" post] by simp

lemma dec_enc_at:
  "wf x \<Longrightarrow> enc x = Inr bs \<Longrightarrow> length pre = n \<Longrightarrow> dec (pre @ bs @ post) n = Inr x"
  using dec_enc by blast

lemma enc_inj: "wf x \<Longrightarrow> wf y \<Longrightarrow> enc x = enc y \<Longrightarrow> x = y"
  using enc_total [of x] dec_enc_0 [of x] dec_enc_0 [of y] by (metis sum.inject(2))

text \<open>No well-formed object's bytes are a proper prefix of another's: a stream is unambiguous.\<close>

lemma enc_prefix_free:
  assumes "wf x" and "wf y" and "enc x = Inr bs" and "enc y = Inr (bs @ cs)"
  shows "x = y \<and> cs = []"
proof -
  from assms have "dec (bs @ cs) 0 = Inr x" and "dec (bs @ cs) 0 = Inr y"
    by (auto intro: dec_enc_prefix dec_enc_0)
  then show ?thesis using assms by auto
qed

end

text \<open>A header of fixed size: it composes with what follows it.\<close>

locale fixed_codec = codec enc dec wf
  for enc :: "'a \<Rightarrow> bytes res" and dec :: "bytes \<Rightarrow> nat \<Rightarrow> 'a res" and wf :: "'a \<Rightarrow> bool" +
  fixes width :: nat
  assumes enc_width: "enc x = Inr bs \<Longrightarrow> length bs = width"
begin

lemma enc_same_length: "enc x = Inr bs \<Longrightarrow> enc y = Inr cs \<Longrightarrow> length bs = length cs"
  by (simp add: enc_width)

text \<open>What follows the header is read at \<open>offset + width\<close>.\<close>

lemma drop_header: "enc x = Inr bs \<Longrightarrow> drop (length pre + width) (pre @ bs @ post) = post"
  by (simp add: enc_width)

end

text \<open>Two consecutive parts, the first of fixed size, as the headers of the program are nested.\<close>

definition enc_pair :: "('a \<Rightarrow> bytes res) \<Rightarrow> ('b \<Rightarrow> bytes res) \<Rightarrow> 'a \<times> 'b \<Rightarrow> bytes res" where
  "enc_pair ea eb p = bind_res (ea (fst p)) (\<lambda>bs. bind_res (eb (snd p)) (\<lambda>cs. Inr (bs @ cs)))"

definition dec_pair ::
  "(bytes \<Rightarrow> nat \<Rightarrow> 'a res) \<Rightarrow> nat \<Rightarrow> (bytes \<Rightarrow> nat \<Rightarrow> 'b res) \<Rightarrow> bytes \<Rightarrow> nat \<Rightarrow> ('a \<times> 'b) res" where
  "dec_pair da n db data off =
     bind_res (da data off) (\<lambda>a. bind_res (db data (off + n)) (\<lambda>b. Inr (a, b)))"

definition wf_pair :: "('a \<Rightarrow> bool) \<Rightarrow> ('b \<Rightarrow> bool) \<Rightarrow> 'a \<times> 'b \<Rightarrow> bool" where
  "wf_pair wa wb p \<longleftrightarrow> wa (fst p) \<and> wb (snd p)"

locale codec_pair =
  fst_part: fixed_codec enc_a dec_a wf_a width_a + snd_part: codec enc_b dec_b wf_b
  for enc_a :: "'a \<Rightarrow> bytes res" and dec_a wf_a width_a
    and enc_b :: "'b \<Rightarrow> bytes res" and dec_b wf_b

sublocale codec_pair \<subseteq> pair: codec "enc_pair enc_a enc_b" "dec_pair dec_a width_a dec_b" "wf_pair wf_a wf_b"
proof
  fix x :: "'a \<times> 'b"
  assume "wf_pair wf_a wf_b x"
  then show "\<exists>bs. enc_pair enc_a enc_b x = Inr bs"
    using fst_part.enc_total [of "fst x"] snd_part.enc_total [of "snd x"]
    by (auto simp: wf_pair_def enc_pair_def)
next
  fix x :: "'a \<times> 'b" and bs pre post
  assume wf: "wf_pair wf_a wf_b x" and enc: "enc_pair enc_a enc_b x = Inr bs"
  then obtain b1 b2 where b: "enc_a (fst x) = Inr b1" "enc_b (snd x) = Inr b2" "bs = b1 @ b2"
    by (auto simp: enc_pair_def)
  from wf have "dec_a (pre @ b1 @ b2 @ post) (length pre) = Inr (fst x)"
    by (intro fst_part.dec_enc b) (simp add: wf_pair_def)
  moreover have "dec_b ((pre @ b1) @ b2 @ post) (length (pre @ b1)) = Inr (snd x)"
    using wf by (intro snd_part.dec_enc b) (simp add: wf_pair_def)
  ultimately show "dec_pair dec_a width_a dec_b (pre @ bs @ post) (length pre) = Inr x"
    using b by (simp add: dec_pair_def fst_part.enc_width [OF b(1)])
qed

end
