(* ===== verification/SDP.thy ===== *)
theory SDP
  imports Codec
begin

text \<open>
  SpiNNaker Datagram Protocol: \<open>messages/sdp/sdp_flag.py\<close>, \<open>sdp_header.py\<close>, \<open>sdp_message.py\<close>.
  A header has four fields that are unset (\<open>None\<close>) until it is prepared for sending; reading an
  unset one is an \<open>AssertionError\<close>. The header is a fixed codec of eight bytes.
\<close>

subsection \<open>Flags\<close>

datatype sdp_flag =
    REPLY_NOT_EXPECTED | REPLY_EXPECTED | REPLY_NOT_EXPECTED_NO_P2P | REPLY_EXPECTED_NO_P2P

fun sdp_flag_value :: "sdp_flag \<Rightarrow> int" where
  "sdp_flag_value REPLY_NOT_EXPECTED = 0x07"
| "sdp_flag_value REPLY_EXPECTED = 0x87"
| "sdp_flag_value REPLY_NOT_EXPECTED_NO_P2P = 0x07 OR 0x20"
| "sdp_flag_value REPLY_EXPECTED_NO_P2P = 0x87 OR 0x20"

definition sdp_flag_members :: "sdp_flag list" where
  "sdp_flag_members =
     [REPLY_NOT_EXPECTED, REPLY_EXPECTED, REPLY_NOT_EXPECTED_NO_P2P, REPLY_EXPECTED_NO_P2P]"

interpretation sdp_flag: py_enum sdp_flag_members sdp_flag_value
proof
  fix x show "x \<in> set sdp_flag_members" by (cases x) (simp_all add: sdp_flag_members_def)
qed (simp add: sdp_flag_members_def)

lemma sdp_flag_value_range [simp]: "0 \<le> sdp_flag_value f" "sdp_flag_value f < 256"
  by (cases f; simp)+

subsection \<open>Header\<close>

record sdp_header =
  sdp_flags :: sdp_flag
  sdp_tag :: "int option"
  sdp_destination_port :: int
  sdp_destination_cpu :: int
  sdp_destination_chip_x :: int
  sdp_destination_chip_y :: int
  sdp_source_port :: "int option"
  sdp_source_cpu :: "int option"
  sdp_source_chip_x :: "int option"
  sdp_source_chip_y :: "int option"

text \<open>The getters of the fields that may still be unset.\<close>

definition get_tag :: "sdp_header \<Rightarrow> int res" where
  "get_tag h = require PyAssertionError (sdp_tag h)"

definition get_source_port :: "sdp_header \<Rightarrow> int res" where
  "get_source_port h = require PyAssertionError (sdp_source_port h)"

definition get_source_cpu :: "sdp_header \<Rightarrow> int res" where
  "get_source_cpu h = require PyAssertionError (sdp_source_cpu h)"

definition get_source_chip_x :: "sdp_header \<Rightarrow> int res" where
  "get_source_chip_x h = require PyAssertionError (sdp_source_chip_x h)"

definition get_source_chip_y :: "sdp_header \<Rightarrow> int res" where
  "get_source_chip_y h = require PyAssertionError (sdp_source_chip_y h)"

lemmas getters =
  get_tag_def get_source_port_def get_source_cpu_def get_source_chip_x_def get_source_chip_y_def

definition EIGHT_BYTES :: "fitem list" where
  [layout]: "EIGHT_BYTES = [FB, FB, FB, FB, FB, FB, FB, FB]"

text \<open>\<open>((port & 0x7) << 5) | (cpu & 0x1F)\<close>, written once here and twice in the method.\<close>

definition port_cpu :: "int \<Rightarrow> int \<Rightarrow> int" where
  "port_cpu port cpu = push_bit 5 (port AND 0x7) OR (cpu AND 0x1F)"

definition sdp_header_bytestring :: "sdp_header \<Rightarrow> bytes res" where
  "sdp_header_bytestring h =
     (let dest_port_cpu = port_cpu (sdp_destination_port h) (sdp_destination_cpu h)
      in bind_res (get_source_port h) (\<lambda>source_port.
         bind_res (get_source_cpu h) (\<lambda>source_cpu.
         let source_port_cpu = port_cpu source_port source_cpu
         in bind_res (get_tag h) (\<lambda>tag.
            bind_res (get_source_chip_y h) (\<lambda>source_chip_y.
            bind_res (get_source_chip_x h) (\<lambda>source_chip_x.
              struct_pack Little EIGHT_BYTES
                [sdp_flag_value (sdp_flags h), tag, dest_port_cpu, source_port_cpu,
                 sdp_destination_chip_y h, sdp_destination_chip_x h,
                 source_chip_y, source_chip_x]))))))"

definition sdp_header_from_bytestring :: "bytes \<Rightarrow> nat \<Rightarrow> sdp_header res" where
  "sdp_header_from_bytestring data offset =
     bind_res (struct_unpack_from Little EIGHT_BYTES data offset) (\<lambda>vs. case vs of
       [flags, tag, dest_port_cpu, source_port_cpu, destination_chip_y, destination_chip_x,
        source_chip_y, source_chip_x] \<Rightarrow>
         let destination_port = drop_bit 5 dest_port_cpu;
             destination_cpu = dest_port_cpu AND 0x1F;
             source_port = drop_bit 5 source_port_cpu;
             source_cpu = source_port_cpu AND 0x1F
         in bind_res (enum_of sdp_flag_members sdp_flag_value flags) (\<lambda>f.
              Inr \<lparr>sdp_flags = f, sdp_tag = Some tag,
                   sdp_destination_port = destination_port,
                   sdp_destination_cpu = destination_cpu,
                   sdp_destination_chip_x = destination_chip_x,
                   sdp_destination_chip_y = destination_chip_y,
                   sdp_source_port = Some source_port, sdp_source_cpu = Some source_cpu,
                   sdp_source_chip_x = Some source_chip_x,
                   sdp_source_chip_y = Some source_chip_y\<rparr>)
     | _ \<Rightarrow> Inl PyValueError)"

definition SDP_SOURCE_PORT :: int where "SDP_SOURCE_PORT = 7"
definition SDP_SOURCE_CPU :: int where "SDP_SOURCE_CPU = 31"
definition SDP_TAG :: int where "SDP_TAG = 0xFF"

definition update_for_send :: "int \<Rightarrow> int \<Rightarrow> sdp_header \<Rightarrow> sdp_header" where
  "update_for_send source_x source_y h =
     h\<lparr>sdp_tag := Some SDP_TAG, sdp_source_port := Some SDP_SOURCE_PORT,
       sdp_source_cpu := Some SDP_SOURCE_CPU,
       sdp_source_chip_x := Some source_x, sdp_source_chip_y := Some source_y\<rparr>"

subsection \<open>Message\<close>

record sdp_message =
  sdpm_header :: sdp_header
  sdpm_data :: "bytes option"
  sdpm_offset :: nat

definition sdp_message_bytestring :: "sdp_message \<Rightarrow> bytes res" where
  "sdp_message_bytestring m =
     (case sdpm_data m of
        Some data \<Rightarrow> bind_res (sdp_header_bytestring (sdpm_header m)) (\<lambda>h.
                       Inr (h @ drop (sdpm_offset m) data))
      | None \<Rightarrow> sdp_header_bytestring (sdpm_header m))"

definition sdp_message_from_bytestring :: "bytes \<Rightarrow> nat \<Rightarrow> sdp_message res" where
  "sdp_message_from_bytestring data offset =
     bind_res (sdp_header_from_bytestring data offset) (\<lambda>h.
       Inr \<lparr>sdpm_header = h, sdpm_data = Some data, sdpm_offset = offset + 8\<rparr>)"

subsection \<open>Well-formed headers\<close>

definition opt_in :: "int \<Rightarrow> int \<Rightarrow> int option \<Rightarrow> bool" where
  "opt_in lo hi v = (case v of None \<Rightarrow> False | Some x \<Rightarrow> lo \<le> x \<and> x \<le> hi)"

text \<open>The ranges that the class documents, with every field set.\<close>

definition sdp_header_wf :: "sdp_header \<Rightarrow> bool" where
  "sdp_header_wf h \<longleftrightarrow>
     opt_in 0 255 (sdp_tag h) \<and>
     0 \<le> sdp_destination_port h \<and> sdp_destination_port h \<le> 7 \<and>
     0 \<le> sdp_destination_cpu h \<and> sdp_destination_cpu h \<le> 31 \<and>
     0 \<le> sdp_destination_chip_x h \<and> sdp_destination_chip_x h \<le> 255 \<and>
     0 \<le> sdp_destination_chip_y h \<and> sdp_destination_chip_y h \<le> 255 \<and>
     opt_in 0 7 (sdp_source_port h) \<and> opt_in 0 31 (sdp_source_cpu h) \<and>
     opt_in 0 255 (sdp_source_chip_x h) \<and> opt_in 0 255 (sdp_source_chip_y h)"

text \<open>What can be set before \<open>update_for_send\<close> fills in the rest.\<close>

definition sdp_destination_wf :: "sdp_header \<Rightarrow> bool" where
  "sdp_destination_wf h \<longleftrightarrow>
     0 \<le> sdp_destination_port h \<and> sdp_destination_port h \<le> 7 \<and>
     0 \<le> sdp_destination_cpu h \<and> sdp_destination_cpu h \<le> 31 \<and>
     0 \<le> sdp_destination_chip_x h \<and> sdp_destination_chip_x h \<le> 255 \<and>
     0 \<le> sdp_destination_chip_y h \<and> sdp_destination_chip_y h \<le> 255"

lemma opt_in_Some [simp]: "opt_in lo hi (Some x) \<longleftrightarrow> lo \<le> x \<and> x \<le> hi"
  by (simp add: opt_in_def)

lemma opt_in_D: "opt_in lo hi v \<Longrightarrow> \<exists>x. v = Some x \<and> lo \<le> x \<and> x \<le> hi"
  by (cases v) (auto simp: opt_in_def)

lemma update_for_send_wf [intro]:
  "sdp_destination_wf h \<Longrightarrow> 0 \<le> x \<Longrightarrow> x \<le> 255 \<Longrightarrow> 0 \<le> y \<Longrightarrow> y \<le> 255 \<Longrightarrow>
     sdp_header_wf (update_for_send x y h)"
  by (simp add: sdp_header_wf_def sdp_destination_wf_def update_for_send_def
      SDP_TAG_def SDP_SOURCE_PORT_def SDP_SOURCE_CPU_def)

lemma update_for_send_keeps [simp]:
  "sdp_destination_port (update_for_send x y h) = sdp_destination_port h"
  "sdp_destination_cpu (update_for_send x y h) = sdp_destination_cpu h"
  "sdp_destination_chip_x (update_for_send x y h) = sdp_destination_chip_x h"
  "sdp_destination_chip_y (update_for_send x y h) = sdp_destination_chip_y h"
  "sdp_flags (update_for_send x y h) = sdp_flags h"
  by (simp_all add: update_for_send_def)

subsection \<open>The port and processor byte\<close>

lemma port_cpu_fields [simp]:
  "drop_bit 5 (port_cpu p c) = take_bit 3 p"
  "port_cpu p c AND 31 = take_bit 5 c"
  by (simp_all only: port_cpu_def bit_field drop_bit_push_or [OF take_bit_int_range]
      take_bit_push_or [OF take_bit_int_range])

lemma port_cpu_range [simp]: "0 \<le> port_cpu p c" "port_cpu p c < 256"
  using push_or_range [OF take_bit_int_range take_bit_int_range, where n = 5 and m = 3, of p c]
  by (simp_all only: port_cpu_def bit_field) simp_all

text \<open>Splitting a byte into its port and processor fields loses nothing.\<close>

lemma port_cpu_join [simp]:
  assumes "0 \<le> v" and "v < (256 :: int)"
  shows "port_cpu (drop_bit 5 v) (v AND 31) = v"
proof -
  have "drop_bit 5 v < 8" "0 \<le> drop_bit 5 v"
    using assms by (auto simp: drop_bit_eq_div)
  then have "take_bit 3 (drop_bit 5 v) = drop_bit 5 v" by (simp add: take_bit_int_eq_self)
  then show ?thesis
    by (simp only: port_cpu_def bit_field) (simp add: push_drop_or_take)
qed

lemma port_cpu_value: "port_cpu p c = 32 * (p mod 8) + c mod 32"
proof -
  have "port_cpu p c = 32 * (port_cpu p c div 32) + port_cpu p c mod 32" by simp
  moreover have "port_cpu p c div 32 = p mod 8"
    using port_cpu_fields(1) [of p c] by (simp add: drop_bit_eq_div take_bit_eq_mod)
  moreover have "port_cpu p c mod 32 = c mod 32"
    using port_cpu_fields(2) [of p c] by (simp add: bit_field take_bit_eq_mod)
  ultimately show ?thesis by simp
qed

lemma port_cpu_exact:
  assumes "0 \<le> p" and "p \<le> 7" and "0 \<le> c" and "c \<le> 31"
  shows "take_bit 3 p = (p :: int)" and "take_bit 5 c = (c :: int)"
  using assms by (simp_all add: take_bit_int_eq_self)

subsection \<open>When a header serialises\<close>

lemma sdp_header_bytestring_Inr:
  "sdp_header_bytestring h = Inr bs \<longleftrightarrow>
     (\<exists>t sp sc sx sy. sdp_tag h = Some t \<and> sdp_source_port h = Some sp \<and>
        sdp_source_cpu h = Some sc \<and> sdp_source_chip_x h = Some sx \<and> sdp_source_chip_y h = Some sy \<and>
        struct_pack Little EIGHT_BYTES
          [sdp_flag_value (sdp_flags h), t,
           port_cpu (sdp_destination_port h) (sdp_destination_cpu h),
           port_cpu sp sc,
           sdp_destination_chip_y h, sdp_destination_chip_x h, sy, sx] = Inr bs)"
  by (auto simp: sdp_header_bytestring_def Let_def getters)

lemma pack_eight_bytes:
  "(\<exists>bs. struct_pack Little EIGHT_BYTES [a, b, c, d, e, f, g, h] = Inr bs) \<longleftrightarrow>
     (\<forall>v \<in> {a, b, c, d, e, f, g, h}. 0 \<le> v \<and> v < 256)"
  by (auto simp: struct_pack_def layout split: if_splits)

lemma pack_eight_bytes_value:
  "struct_pack Little EIGHT_BYTES [a, b, c, d, e, f, g, h] =
     (if list_all (\<lambda>v. 0 \<le> v \<and> v < 256) [a, b, c, d, e, f, g, h]
      then Inr (map word_of_int [a, b, c, d, e, f, g, h]) else Inl StructError)"
  by (simp add: struct_pack_def layout order_bytes_def)

lemma length_sdp_header_bytestring: "sdp_header_bytestring h = Inr bs \<Longrightarrow> length bs = 8"
  by (auto simp: sdp_header_bytestring_Inr layout dest!: length_struct_pack)


lemma EIGHT_BYTES_plain [simp]: "list_all plain_item EIGHT_BYTES"
  by (simp add: layout)

lemma calcsize_EIGHT_BYTES [simp]: "calcsize EIGHT_BYTES = 8"
  by (simp add: layout)

interpretation sdp_hdr: fixed_codec
  sdp_header_bytestring sdp_header_from_bytestring sdp_header_wf 8
proof
  fix h :: sdp_header
  assume "sdp_header_wf h"
  then show "\<exists>bs. sdp_header_bytestring h = Inr bs"
    by (auto simp: sdp_header_wf_def sdp_header_bytestring_Inr pack_eight_bytes dest!: opt_in_D)
next
  fix h :: sdp_header and bs pre post
  assume wf: "sdp_header_wf h" and enc: "sdp_header_bytestring h = Inr bs"
  from enc obtain t sp sc sx sy where s: "sdp_tag h = Some t" "sdp_source_port h = Some sp"
    "sdp_source_cpu h = Some sc" "sdp_source_chip_x h = Some sx" "sdp_source_chip_y h = Some sy"
    and p: "struct_pack Little EIGHT_BYTES
          [sdp_flag_value (sdp_flags h), t,
           port_cpu (sdp_destination_port h) (sdp_destination_cpu h),
           port_cpu sp sc,
           sdp_destination_chip_y h, sdp_destination_chip_x h, sy, sx] = Inr bs"
    by (auto simp: sdp_header_bytestring_Inr)
  from wf s have r: "0 \<le> sdp_destination_port h" "sdp_destination_port h \<le> 7"
    "0 \<le> sdp_destination_cpu h" "sdp_destination_cpu h \<le> 31" "0 \<le> sp" "sp \<le> 7" "0 \<le> sc" "sc \<le> 31"
    by (auto simp: sdp_header_wf_def)
  show "sdp_header_from_bytestring (pre @ bs @ post) (length pre) = Inr h"
    using s port_cpu_exact [OF r(1-4)] port_cpu_exact [OF r(5-8)]
    by (simp add: sdp_header_from_bytestring_def struct_unpack_pack [OF p] enum_of_def Let_def)
qed (rule length_sdp_header_bytestring)


subsection \<open>Properties\<close>

lemma list_all2_eight:
  assumes "list_all2 P EIGHT_BYTES vs"
  obtains a b c d e f g h where "vs = [a, b, c, d, e, f, g, h]"
    "P FB a" "P FB b" "P FB c" "P FB d" "P FB e" "P FB f" "P FB g" "P FB h"
  using assms by (auto simp: layout list_all2_Cons1)

lemma drop5_byte: "0 \<le> v \<Longrightarrow> v < 256 \<Longrightarrow> 0 \<le> drop_bit 5 v \<and> drop_bit 5 v \<le> (7 :: int)"
  by (auto simp: drop_bit_eq_div)

lemma and31_range: "0 \<le> v AND 31 \<and> v AND 31 \<le> (31 :: int)"
  using take_bit_int_range [of 5 v] by (simp add: bit_field)

text \<open>What reading a header gives, in one place.\<close>

lemma sdp_header_from_bytestring_Inr:
  assumes "sdp_header_from_bytestring data off = Inr h"
  obtains fl t dp sp dy dx sy sx where
    "struct_unpack_from Little EIGHT_BYTES data off = Inr [fl, t, dp, sp, dy, dx, sy, sx]"
    "\<forall>v \<in> {fl, t, dp, sp, dy, dx, sy, sx}. 0 \<le> v \<and> v < 256"
    "fl = sdp_flag_value (sdp_flags h)"
    "h = \<lparr>sdp_flags = sdp_flags h, sdp_tag = Some t, sdp_destination_port = drop_bit 5 dp,
          sdp_destination_cpu = dp AND 31, sdp_destination_chip_x = dx,
          sdp_destination_chip_y = dy, sdp_source_port = Some (drop_bit 5 sp),
          sdp_source_cpu = Some (sp AND 31), sdp_source_chip_x = Some sx,
          sdp_source_chip_y = Some sy\<rparr>"
proof -
  from assms obtain vs where vs: "struct_unpack_from Little EIGHT_BYTES data off = Inr vs"
    by (auto simp: sdp_header_from_bytestring_def)
  have r: "list_all2 (\<lambda>f x. 0 \<le> x \<and> x < 256 ^ item_size f) EIGHT_BYTES vs"
    by (rule struct_unpack_ranges [OF EIGHT_BYTES_plain vs])
  then obtain fl t dp sp dy dx sy sx where v: "vs = [fl, t, dp, sp, dy, dx, sy, sx]"
    by (rule list_all2_eight)
  with r have "\<forall>v \<in> {fl, t, dp, sp, dy, dx, sy, sx}. 0 \<le> v \<and> v < 256"
    by (auto simp: layout)
  with assms vs v show thesis
    by (intro that [of fl t dp sp dy dx sy sx])
      (auto simp: sdp_header_from_bytestring_def Let_def enum_of_def sdp_flag.lookup_Some)
qed

lemma from_bytestring_wf:
  assumes "sdp_header_from_bytestring data off = Inr h"
  shows "sdp_header_wf h"
  using assms
proof (rule sdp_header_from_bytestring_Inr)
  fix fl t dp sp dy dx sy sx
  assume r: "\<forall>v \<in> {fl, t, dp, sp, dy, dx, sy, sx}. 0 \<le> v \<and> v < 256"
    and h: "h = \<lparr>sdp_flags = sdp_flags h, sdp_tag = Some t, sdp_destination_port = drop_bit 5 dp,
          sdp_destination_cpu = dp AND 31, sdp_destination_chip_x = dx,
          sdp_destination_chip_y = dy, sdp_source_port = Some (drop_bit 5 sp),
          sdp_source_cpu = Some (sp AND 31), sdp_source_chip_x = Some sx,
          sdp_source_chip_y = Some sy\<rparr>"
  from r drop5_byte [of dp] drop5_byte [of sp] and31_range [of dp] and31_range [of sp]
  show ?thesis by (subst h) (simp add: sdp_header_wf_def)
qed

lemma parse_print:
  assumes "sdp_header_from_bytestring data off = Inr h"
  shows "sdp_header_wf h \<and> off + 8 \<le> length data \<and>
     sdp_header_bytestring h = Inr (slice off (off + 8) data)"
  using assms
proof (rule sdp_header_from_bytestring_Inr)
  fix fl t dp sp dy dx sy sx
  assume u: "struct_unpack_from Little EIGHT_BYTES data off = Inr [fl, t, dp, sp, dy, dx, sy, sx]"
    and r: "\<forall>v \<in> {fl, t, dp, sp, dy, dx, sy, sx}. 0 \<le> v \<and> v < 256"
    and fl: "fl = sdp_flag_value (sdp_flags h)"
    and h: "h = \<lparr>sdp_flags = sdp_flags h, sdp_tag = Some t, sdp_destination_port = drop_bit 5 dp,
          sdp_destination_cpu = dp AND 31, sdp_destination_chip_x = dx,
          sdp_destination_chip_y = dy, sdp_source_port = Some (drop_bit 5 sp),
          sdp_source_cpu = Some (sp AND 31), sdp_source_chip_x = Some sx,
          sdp_source_chip_y = Some sy\<rparr>"
  note p = struct_pack_unpack [OF EIGHT_BYTES_plain u]
  from r have "port_cpu (drop_bit 5 dp) (dp AND 31) = dp" "port_cpu (drop_bit 5 sp) (sp AND 31) = sp"
    by (blast intro: port_cpu_join)+
  with p(1) fl have "sdp_header_bytestring h = Inr (slice off (off + 8) data)"
    by (subst h) (simp add: sdp_header_bytestring_def Let_def getters)
  with p(2) from_bytestring_wf [OF assms] show ?thesis by simp
qed

text \<open>
  C10: the SDP header round trip. A header whose every field is set and in its documented range
  serialises to exactly eight bytes, and \<open>from_bytestring\<close> reads the same header back from them
  at any offset of any buffer.
\<close>
theorem sdp_header_roundtrip:
  assumes "sdp_header_wf h"
  shows "\<exists>bs. sdp_header_bytestring h = Inr bs \<and> length bs = 8 \<and>
     (\<forall>pre post. sdp_header_from_bytestring (pre @ bs @ post) (length pre) = Inr h)"
  using sdp_hdr.enc_total [OF assms] sdp_hdr.dec_enc [OF assms] sdp_hdr.enc_width by blast

text \<open>
  No information is lost in reading. Whenever \<open>from_bytestring\<close> accepts eight bytes of a buffer,
  the header it returns is in range and serialises to exactly those bytes.
\<close>
theorem sdp_header_parse_print:
  assumes "sdp_header_from_bytestring data off = Inr h"
  shows "sdp_header_wf h \<and> off + 8 \<le> length data \<and>
     sdp_header_bytestring h = Inr (slice off (off + 8) data)"
  by (rule parse_print [OF assms])

text \<open>A concrete header, and its bytes, used to exercise the properties.\<close>

definition sample_header :: sdp_header where
  "sample_header = \<lparr>sdp_flags = REPLY_EXPECTED, sdp_tag = Some 255, sdp_destination_port = 1,
     sdp_destination_cpu = 3, sdp_destination_chip_x = 2, sdp_destination_chip_y = 5,
     sdp_source_port = Some 7, sdp_source_cpu = Some 31, sdp_source_chip_x = Some 0,
     sdp_source_chip_y = Some 0\<rparr>"

definition sample_header_bytes :: bytes where
  "sample_header_bytes = [0x87, 255, 0x23, 255, 5, 2, 0, 0]"

lemma sample_header_wf: "sdp_header_wf sample_header"
  by (simp add: sdp_header_wf_def sample_header_def)

lemma sample_header_read: "sdp_header_from_bytestring (sample_header_bytes @ [1, 2]) 0 = Inr sample_header"
  by code_simp

theorem sdp_header_roundtrip_witness:
  "\<exists>bs. sdp_header_bytestring sample_header = Inr bs \<and> length bs = 8 \<and>
     sdp_header_from_bytestring ([0, 0] @ bs @ []) 2 = Inr sample_header"
  using sdp_header_roundtrip [OF sample_header_wf] by (metis length_Cons list.size(3) numeral_2_eq_2)

theorem sdp_header_parse_print_witness:
  "sdp_header_wf sample_header \<and>
     sdp_header_bytestring sample_header = Inr (slice 0 (0 + 8) (sample_header_bytes @ [1, 2]))"
  using sdp_header_parse_print [OF sample_header_read] by blast

text \<open>
  Every outcome of serialising a header. An unset field is an \<open>AssertionError\<close>; a tag or a
  chip coordinate outside a byte is a \<open>struct.error\<close>; otherwise the eight bytes are the flags, the
  tag, the two port and processor bytes, and the coordinates with \<open>y\<close> before \<open>x\<close>. Ports and
  processors never fail: they are truncated to three and five bits.
\<close>
theorem sdp_header_bytestring_outcome:
  "sdp_header_bytestring h =
     (case (sdp_tag h, sdp_source_port h, sdp_source_cpu h, sdp_source_chip_x h, sdp_source_chip_y h) of
        (Some t, Some sp, Some sc, Some sx, Some sy) \<Rightarrow>
          if list_all (\<lambda>v. 0 \<le> v \<and> v < 256)
               [t, sdp_destination_chip_x h, sdp_destination_chip_y h, sx, sy]
          then Inr (map word_of_int
                 [sdp_flag_value (sdp_flags h), t,
                  32 * (sdp_destination_port h mod 8) + sdp_destination_cpu h mod 32,
                  32 * (sp mod 8) + sc mod 32,
                  sdp_destination_chip_y h, sdp_destination_chip_x h, sy, sx])
          else Inl StructError
      | _ \<Rightarrow> Inl PyAssertionError)"
proof (cases "None \<in> {sdp_tag h, sdp_source_port h, sdp_source_cpu h, sdp_source_chip_x h, sdp_source_chip_y h}")
  case True
  then show ?thesis
    by (cases "sdp_source_port h"; cases "sdp_source_cpu h"; cases "sdp_tag h";
        cases "sdp_source_chip_y h"; cases "sdp_source_chip_x h")
      (simp_all add: sdp_header_bytestring_def Let_def getters)
next
  case False
  then obtain t sp sc sx sy where
    "sdp_tag h = Some t" "sdp_source_port h = Some sp" "sdp_source_cpu h = Some sc"
    "sdp_source_chip_x h = Some sx" "sdp_source_chip_y h = Some sy"
    by (cases "sdp_tag h"; cases "sdp_source_port h"; cases "sdp_source_cpu h";
        cases "sdp_source_chip_x h"; cases "sdp_source_chip_y h") simp_all
  then show ?thesis
    using port_cpu_range [unfolded port_cpu_value]
    by (simp add: sdp_header_bytestring_def Let_def getters pack_eight_bytes_value port_cpu_value
        conj_ac del: of_int_add of_int_mult)
qed

text \<open>
  A message read from a buffer is written back as the rest of that buffer. Reading parses the
  header in place and keeps the whole buffer as its data with the offset of the payload, so
  serialising gives back exactly the bytes from the offset on.
\<close>
theorem sdp_message_parse_print:
  assumes "sdp_message_from_bytestring data off = Inr m"
  shows "sdp_message_bytestring m = Inr (drop off data)"
proof -
  from assms obtain h where h: "sdp_header_from_bytestring data off = Inr h"
    and m: "m = \<lparr>sdpm_header = h, sdpm_data = Some data, sdpm_offset = off + 8\<rparr>"
    by (auto simp: sdp_message_from_bytestring_def)
  from h obtain b where b: "sdp_header_bytestring h = Inr b" "b = slice off (off + 8) data"
    using parse_print by blast
  then show ?thesis
    using append_take_drop_id [of 8 "drop off data"]
    by (simp add: sdp_message_bytestring_def m add.commute)
qed

theorem sdp_message_parse_print_witness:
  "sdp_message_bytestring \<lparr>sdpm_header = sample_header,
       sdpm_data = Some (sample_header_bytes @ [1, 2]), sdpm_offset = 8\<rparr>
     = Inr (sample_header_bytes @ [1, 2])"
  using sdp_message_parse_print [of "sample_header_bytes @ [1, 2]" 0] sample_header_read
  by (simp add: sdp_message_from_bytestring_def)

end
