(* ===== verification/Enums.thy ===== *)
theory Enums
  imports SDP
begin

text \<open>
  The enumerations of the program: \<open>messages/scp/enums\<close>, \<open>model/enums\<close>, \<open>constants.py\<close> and the
  EIEIO and boot ones. Each class is a datatype with its members and their values, and an
  interpretation of \<open>py_enum\<close>: the values are distinct, so \<open>Cls(member.value)\<close> is the member.
  Members whose names are used by several classes carry a prefix.
\<close>

subsection \<open>\<open>EIEIO_COMMAND_IDS\<close>\<close>

datatype eieio_command_ids =
    EIEIO_DATABASE | EIEIO_EVENT_PADDING | EIEIO_EVENT_STOP | EIEIO_STOP_SENDING_REQUESTS |
    EIEIO_START_SENDING_REQUESTS | EIEIO_SPINNAKER_REQUEST_BUFFERS |
    EIEIO_HOST_SEND_SEQUENCED_DATA | EIEIO_SPINNAKER_REQUEST_READ_DATA | EIEIO_HOST_DATA_READ |
    EIEIO_STOP_PAUSE_NOTIFICATION | EIEIO_START_RESUME_NOTIFICATION | EIEIO_HOST_DATA_READ_ACK

fun eieio_command_ids_value :: "eieio_command_ids \<Rightarrow> int" where
  "eieio_command_ids_value EIEIO_DATABASE = 1"
| "eieio_command_ids_value EIEIO_EVENT_PADDING = 2"
| "eieio_command_ids_value EIEIO_EVENT_STOP = 3"
| "eieio_command_ids_value EIEIO_STOP_SENDING_REQUESTS = 4"
| "eieio_command_ids_value EIEIO_START_SENDING_REQUESTS = 5"
| "eieio_command_ids_value EIEIO_SPINNAKER_REQUEST_BUFFERS = 6"
| "eieio_command_ids_value EIEIO_HOST_SEND_SEQUENCED_DATA = 7"
| "eieio_command_ids_value EIEIO_SPINNAKER_REQUEST_READ_DATA = 8"
| "eieio_command_ids_value EIEIO_HOST_DATA_READ = 9"
| "eieio_command_ids_value EIEIO_STOP_PAUSE_NOTIFICATION = 10"
| "eieio_command_ids_value EIEIO_START_RESUME_NOTIFICATION = 11"
| "eieio_command_ids_value EIEIO_HOST_DATA_READ_ACK = 12"

definition eieio_command_ids_members :: "eieio_command_ids list" where
  "eieio_command_ids_members =
     [EIEIO_DATABASE, EIEIO_EVENT_PADDING, EIEIO_EVENT_STOP, EIEIO_STOP_SENDING_REQUESTS,
      EIEIO_START_SENDING_REQUESTS, EIEIO_SPINNAKER_REQUEST_BUFFERS,
      EIEIO_HOST_SEND_SEQUENCED_DATA, EIEIO_SPINNAKER_REQUEST_READ_DATA, EIEIO_HOST_DATA_READ,
      EIEIO_STOP_PAUSE_NOTIFICATION, EIEIO_START_RESUME_NOTIFICATION, EIEIO_HOST_DATA_READ_ACK]"

interpretation eieio_command_ids: py_enum eieio_command_ids_members eieio_command_ids_value
proof
  fix x show "x \<in> set eieio_command_ids_members" by (cases x) (simp_all add: eieio_command_ids_members_def)
qed (simp add: eieio_command_ids_members_def)

subsection \<open>\<open>IPTAG_TIME_OUT_WAIT_TIMES\<close>\<close>

datatype iptag_time_out_wait_times =
    TIMEOUT_10_ms | TIMEOUT_20_ms | TIMEOUT_40_ms | TIMEOUT_80_ms | TIMEOUT_160_ms |
    TIMEOUT_320_ms | TIMEOUT_640_ms | TIMEOUT_1280_ms | TIMEOUT_2560_ms

fun iptag_time_out_wait_times_value :: "iptag_time_out_wait_times \<Rightarrow> int" where
  "iptag_time_out_wait_times_value TIMEOUT_10_ms = 1"
| "iptag_time_out_wait_times_value TIMEOUT_20_ms = 2"
| "iptag_time_out_wait_times_value TIMEOUT_40_ms = 3"
| "iptag_time_out_wait_times_value TIMEOUT_80_ms = 4"
| "iptag_time_out_wait_times_value TIMEOUT_160_ms = 5"
| "iptag_time_out_wait_times_value TIMEOUT_320_ms = 6"
| "iptag_time_out_wait_times_value TIMEOUT_640_ms = 7"
| "iptag_time_out_wait_times_value TIMEOUT_1280_ms = 8"
| "iptag_time_out_wait_times_value TIMEOUT_2560_ms = 9"

definition iptag_time_out_wait_times_members :: "iptag_time_out_wait_times list" where
  "iptag_time_out_wait_times_members =
     [TIMEOUT_10_ms, TIMEOUT_20_ms, TIMEOUT_40_ms, TIMEOUT_80_ms, TIMEOUT_160_ms,
      TIMEOUT_320_ms, TIMEOUT_640_ms, TIMEOUT_1280_ms, TIMEOUT_2560_ms]"

interpretation iptag_time_out_wait_times: py_enum iptag_time_out_wait_times_members iptag_time_out_wait_times_value
proof
  fix x show "x \<in> set iptag_time_out_wait_times_members" by (cases x) (simp_all add: iptag_time_out_wait_times_members_def)
qed (simp add: iptag_time_out_wait_times_members_def)

subsection \<open>\<open>ROUTER_REGISTER_REGISTERS\<close>\<close>

datatype router_register_registers =
    REG_LOC_MC | REG_EXT_MC | REG_LOC_PP | REG_EXT_PP | REG_LOC_NN | REG_EXT_NN | REG_LOC_FR |
    REG_EXT_FR | REG_DUMP_MC | REG_DUMP_PP | REG_DUMP_NN | REG_DUMP_FR | REG_USER_0 |
    REG_USER_1 | REG_USER_2 | REG_USER_3

fun router_register_registers_value :: "router_register_registers \<Rightarrow> int" where
  "router_register_registers_value REG_LOC_MC = 0"
| "router_register_registers_value REG_EXT_MC = 1"
| "router_register_registers_value REG_LOC_PP = 2"
| "router_register_registers_value REG_EXT_PP = 3"
| "router_register_registers_value REG_LOC_NN = 4"
| "router_register_registers_value REG_EXT_NN = 5"
| "router_register_registers_value REG_LOC_FR = 6"
| "router_register_registers_value REG_EXT_FR = 7"
| "router_register_registers_value REG_DUMP_MC = 8"
| "router_register_registers_value REG_DUMP_PP = 9"
| "router_register_registers_value REG_DUMP_NN = 10"
| "router_register_registers_value REG_DUMP_FR = 11"
| "router_register_registers_value REG_USER_0 = 12"
| "router_register_registers_value REG_USER_1 = 13"
| "router_register_registers_value REG_USER_2 = 14"
| "router_register_registers_value REG_USER_3 = 15"

definition router_register_registers_members :: "router_register_registers list" where
  "router_register_registers_members =
     [REG_LOC_MC, REG_EXT_MC, REG_LOC_PP, REG_EXT_PP, REG_LOC_NN, REG_EXT_NN, REG_LOC_FR,
      REG_EXT_FR, REG_DUMP_MC, REG_DUMP_PP, REG_DUMP_NN, REG_DUMP_FR, REG_USER_0, REG_USER_1,
      REG_USER_2, REG_USER_3]"

interpretation router_register_registers: py_enum router_register_registers_members router_register_registers_value
proof
  fix x show "x \<in> set router_register_registers_members" by (cases x) (simp_all add: router_register_registers_members_def)
qed (simp add: router_register_registers_members_def)

subsection \<open>\<open>READ_TYPES\<close>\<close>

datatype read_types =
    READ_BYTE | READ_HALF_WORD | READ_WORD

fun read_types_value :: "read_types \<Rightarrow> int" where
  "read_types_value READ_BYTE = 0"
| "read_types_value READ_HALF_WORD = 1"
| "read_types_value READ_WORD = 2"

definition read_types_members :: "read_types list" where
  "read_types_members =
     [READ_BYTE, READ_HALF_WORD, READ_WORD]"

interpretation read_types: py_enum read_types_members read_types_value
proof
  fix x show "x \<in> set read_types_members" by (cases x) (simp_all add: read_types_members_def)
qed (simp add: read_types_members_def)

subsection \<open>\<open>EIEIOPrefix\<close>\<close>

datatype eieio_prefix =
    LOWER_HALF_WORD | UPPER_HALF_WORD

fun eieio_prefix_value :: "eieio_prefix \<Rightarrow> int" where
  "eieio_prefix_value LOWER_HALF_WORD = 0"
| "eieio_prefix_value UPPER_HALF_WORD = 1"

definition eieio_prefix_members :: "eieio_prefix list" where
  "eieio_prefix_members =
     [LOWER_HALF_WORD, UPPER_HALF_WORD]"

interpretation eieio_prefix: py_enum eieio_prefix_members eieio_prefix_value
proof
  fix x show "x \<in> set eieio_prefix_members" by (cases x) (simp_all add: eieio_prefix_members_def)
qed (simp add: eieio_prefix_members_def)

subsection \<open>\<open>AllocFree\<close>\<close>

datatype alloc_free =
    ALLOC_SDRAM | FREE_SDRAM_BY_POINTER | FREE_SDRAM_BY_APP_ID | ALLOC_ROUTING |
    FREE_ROUTING_BY_POINTER | FREE_ROUTING_BY_APP_ID

fun alloc_free_value :: "alloc_free \<Rightarrow> int" where
  "alloc_free_value ALLOC_SDRAM = 0"
| "alloc_free_value FREE_SDRAM_BY_POINTER = 1"
| "alloc_free_value FREE_SDRAM_BY_APP_ID = 2"
| "alloc_free_value ALLOC_ROUTING = 3"
| "alloc_free_value FREE_ROUTING_BY_POINTER = 4"
| "alloc_free_value FREE_ROUTING_BY_APP_ID = 5"

definition alloc_free_members :: "alloc_free list" where
  "alloc_free_members =
     [ALLOC_SDRAM, FREE_SDRAM_BY_POINTER, FREE_SDRAM_BY_APP_ID, ALLOC_ROUTING,
      FREE_ROUTING_BY_POINTER, FREE_ROUTING_BY_APP_ID]"

interpretation alloc_free: py_enum alloc_free_members alloc_free_value
proof
  fix x show "x \<in> set alloc_free_members" by (cases x) (simp_all add: alloc_free_members_def)
qed (simp add: alloc_free_members_def)

subsection \<open>\<open>BMPInfo\<close>\<close>

datatype bmp_info =
    BMP_SERIAL | BMP_CAN_STATUS | BMP_ADC | BMP_IP_ADDR

fun bmp_info_value :: "bmp_info \<Rightarrow> int" where
  "bmp_info_value BMP_SERIAL = 0"
| "bmp_info_value BMP_CAN_STATUS = 2"
| "bmp_info_value BMP_ADC = 3"
| "bmp_info_value BMP_IP_ADDR = 4"

definition bmp_info_members :: "bmp_info list" where
  "bmp_info_members =
     [BMP_SERIAL, BMP_CAN_STATUS, BMP_ADC, BMP_IP_ADDR]"

interpretation bmp_info: py_enum bmp_info_members bmp_info_value
proof
  fix x show "x \<in> set bmp_info_members" by (cases x) (simp_all add: bmp_info_members_def)
qed (simp add: bmp_info_members_def)

subsection \<open>\<open>IPTagCommand\<close>\<close>

datatype iptag_command =
    IPTAG_NEW | IPTAG_SET | IPTAG_GET | IPTAG_CLR | IPTAG_TTO

fun iptag_command_value :: "iptag_command \<Rightarrow> int" where
  "iptag_command_value IPTAG_NEW = 0"
| "iptag_command_value IPTAG_SET = 1"
| "iptag_command_value IPTAG_GET = 2"
| "iptag_command_value IPTAG_CLR = 3"
| "iptag_command_value IPTAG_TTO = 4"

definition iptag_command_members :: "iptag_command list" where
  "iptag_command_members =
     [IPTAG_NEW, IPTAG_SET, IPTAG_GET, IPTAG_CLR, IPTAG_TTO]"

interpretation iptag_command: py_enum iptag_command_members iptag_command_value
proof
  fix x show "x \<in> set iptag_command_members" by (cases x) (simp_all add: iptag_command_members_def)
qed (simp add: iptag_command_members_def)

subsection \<open>\<open>LEDAction\<close>\<close>

datatype led_action =
    LED_TOGGLE | LED_OFF | LED_ON

fun led_action_value :: "led_action \<Rightarrow> int" where
  "led_action_value LED_TOGGLE = 1"
| "led_action_value LED_OFF = 2"
| "led_action_value LED_ON = 3"

definition led_action_members :: "led_action list" where
  "led_action_members =
     [LED_TOGGLE, LED_OFF, LED_ON]"

interpretation led_action: py_enum led_action_members led_action_value
proof
  fix x show "x \<in> set led_action_members" by (cases x) (simp_all add: led_action_members_def)
qed (simp add: led_action_members_def)

subsection \<open>\<open>PowerCommand\<close>\<close>

datatype power_command =
    POWER_OFF | POWER_ON

fun power_command_value :: "power_command \<Rightarrow> int" where
  "power_command_value POWER_OFF = 0"
| "power_command_value POWER_ON = 1"

definition power_command_members :: "power_command list" where
  "power_command_members =
     [POWER_OFF, POWER_ON]"

interpretation power_command: py_enum power_command_members power_command_value
proof
  fix x show "x \<in> set power_command_members" by (cases x) (simp_all add: power_command_members_def)
qed (simp add: power_command_members_def)

subsection \<open>\<open>SCPCommand\<close>\<close>

datatype scp_command =
    CMD_VER | CMD_RUN | CMD_READ | CMD_WRITE | CMD_APLX | CMD_FILL | CMD_COUNT | CMD_REMAP |
    CMD_LINK_READ | CMD_LINK_WRITE | CMD_AR | CMD_NNP | CMD_APP_COPY_RUN | CMD_SIG | CMD_FFD |
    CMD_AS | CMD_LED | CMD_IPTAG | CMD_SROM | CMD_ALLOC | CMD_RTR | CMD_DPRI | CMD_INFO |
    CMD_SYNC | CMD_BMP_INFO | CMD_FLASH_COPY | CMD_FLASH_ERASE | CMD_FLASH_WRITE | CMD_RESET |
    CMD_BMP_POWER | CMD_TUBE

fun scp_command_value :: "scp_command \<Rightarrow> int" where
  "scp_command_value CMD_VER = 0"
| "scp_command_value CMD_RUN = 1"
| "scp_command_value CMD_READ = 2"
| "scp_command_value CMD_WRITE = 3"
| "scp_command_value CMD_APLX = 4"
| "scp_command_value CMD_FILL = 5"
| "scp_command_value CMD_COUNT = 15"
| "scp_command_value CMD_REMAP = 16"
| "scp_command_value CMD_LINK_READ = 17"
| "scp_command_value CMD_LINK_WRITE = 18"
| "scp_command_value CMD_AR = 19"
| "scp_command_value CMD_NNP = 20"
| "scp_command_value CMD_APP_COPY_RUN = 21"
| "scp_command_value CMD_SIG = 22"
| "scp_command_value CMD_FFD = 23"
| "scp_command_value CMD_AS = 24"
| "scp_command_value CMD_LED = 25"
| "scp_command_value CMD_IPTAG = 26"
| "scp_command_value CMD_SROM = 27"
| "scp_command_value CMD_ALLOC = 28"
| "scp_command_value CMD_RTR = 29"
| "scp_command_value CMD_DPRI = 30"
| "scp_command_value CMD_INFO = 31"
| "scp_command_value CMD_SYNC = 32"
| "scp_command_value CMD_BMP_INFO = 48"
| "scp_command_value CMD_FLASH_COPY = 49"
| "scp_command_value CMD_FLASH_ERASE = 50"
| "scp_command_value CMD_FLASH_WRITE = 51"
| "scp_command_value CMD_RESET = 55"
| "scp_command_value CMD_BMP_POWER = 57"
| "scp_command_value CMD_TUBE = 64"

definition scp_command_members :: "scp_command list" where
  "scp_command_members =
     [CMD_VER, CMD_RUN, CMD_READ, CMD_WRITE, CMD_APLX, CMD_FILL, CMD_COUNT, CMD_REMAP,
      CMD_LINK_READ, CMD_LINK_WRITE, CMD_AR, CMD_NNP, CMD_APP_COPY_RUN, CMD_SIG, CMD_FFD,
      CMD_AS, CMD_LED, CMD_IPTAG, CMD_SROM, CMD_ALLOC, CMD_RTR, CMD_DPRI, CMD_INFO, CMD_SYNC,
      CMD_BMP_INFO, CMD_FLASH_COPY, CMD_FLASH_ERASE, CMD_FLASH_WRITE, CMD_RESET, CMD_BMP_POWER,
      CMD_TUBE]"

interpretation scp_command: py_enum scp_command_members scp_command_value
proof
  fix x show "x \<in> set scp_command_members" by (cases x) (simp_all add: scp_command_members_def)
qed (simp add: scp_command_members_def)

subsection \<open>\<open>SignalType\<close>\<close>

datatype signal_type =
    ST_MULTICAST | ST_POINT_TO_POINT | ST_NEAREST_NEIGHBOUR

fun signal_type_value :: "signal_type \<Rightarrow> int" where
  "signal_type_value ST_MULTICAST = 0"
| "signal_type_value ST_POINT_TO_POINT = 1"
| "signal_type_value ST_NEAREST_NEIGHBOUR = 2"

definition signal_type_members :: "signal_type list" where
  "signal_type_members =
     [ST_MULTICAST, ST_POINT_TO_POINT, ST_NEAREST_NEIGHBOUR]"

interpretation signal_type: py_enum signal_type_members signal_type_value
proof
  fix x show "x \<in> set signal_type_members" by (cases x) (simp_all add: signal_type_members_def)
qed (simp add: signal_type_members_def)

subsection \<open>\<open>Signal\<close>\<close>

datatype signal =
    SIG_INITIALISE | SIG_POWER_DOWN | SIG_STOP | SIG_START | SIG_SYNC0 | SIG_SYNC1 |
    SIG_PAUSE | SIG_CONTINUE | SIG_EXIT | SIG_TIMER | SIG_USER_0 | SIG_USER_1 | SIG_USER_2 |
    SIG_USER_3

fun signal_value :: "signal \<Rightarrow> int" where
  "signal_value SIG_INITIALISE = 0"
| "signal_value SIG_POWER_DOWN = 1"
| "signal_value SIG_STOP = 2"
| "signal_value SIG_START = 3"
| "signal_value SIG_SYNC0 = 4"
| "signal_value SIG_SYNC1 = 5"
| "signal_value SIG_PAUSE = 6"
| "signal_value SIG_CONTINUE = 7"
| "signal_value SIG_EXIT = 8"
| "signal_value SIG_TIMER = 9"
| "signal_value SIG_USER_0 = 10"
| "signal_value SIG_USER_1 = 11"
| "signal_value SIG_USER_2 = 12"
| "signal_value SIG_USER_3 = 13"

definition signal_members :: "signal list" where
  "signal_members =
     [SIG_INITIALISE, SIG_POWER_DOWN, SIG_STOP, SIG_START, SIG_SYNC0, SIG_SYNC1, SIG_PAUSE,
      SIG_CONTINUE, SIG_EXIT, SIG_TIMER, SIG_USER_0, SIG_USER_1, SIG_USER_2, SIG_USER_3]"

interpretation signal: py_enum signal_members signal_value
proof
  fix x show "x \<in> set signal_members" by (cases x) (simp_all add: signal_members_def)
qed (simp add: signal_members_def)

text \<open>The second component of a signal: how it is transmitted.\<close>

fun signal_type_of :: "signal \<Rightarrow> signal_type" where
  "signal_type_of SIG_INITIALISE = ST_NEAREST_NEIGHBOUR"
| "signal_type_of SIG_POWER_DOWN = ST_NEAREST_NEIGHBOUR"
| "signal_type_of SIG_STOP = ST_NEAREST_NEIGHBOUR"
| "signal_type_of SIG_START = ST_MULTICAST"
| "signal_type_of SIG_SYNC0 = ST_MULTICAST"
| "signal_type_of SIG_SYNC1 = ST_MULTICAST"
| "signal_type_of SIG_PAUSE = ST_MULTICAST"
| "signal_type_of SIG_CONTINUE = ST_MULTICAST"
| "signal_type_of SIG_EXIT = ST_MULTICAST"
| "signal_type_of SIG_TIMER = ST_MULTICAST"
| "signal_type_of SIG_USER_0 = ST_MULTICAST"
| "signal_type_of SIG_USER_1 = ST_MULTICAST"
| "signal_type_of SIG_USER_2 = ST_MULTICAST"
| "signal_type_of SIG_USER_3 = ST_MULTICAST"

subsection \<open>\<open>SpinnakerBootOpCode\<close>\<close>

datatype spinnaker_boot_op_code =
    BOOT_HELLO | BOOT_FLOOD_FILL_START | BOOT_FLOOD_FILL_BLOCK | BOOT_FLOOD_FILL_CONTROL

fun spinnaker_boot_op_code_value :: "spinnaker_boot_op_code \<Rightarrow> int" where
  "spinnaker_boot_op_code_value BOOT_HELLO = 65"
| "spinnaker_boot_op_code_value BOOT_FLOOD_FILL_START = 1"
| "spinnaker_boot_op_code_value BOOT_FLOOD_FILL_BLOCK = 3"
| "spinnaker_boot_op_code_value BOOT_FLOOD_FILL_CONTROL = 5"

definition spinnaker_boot_op_code_members :: "spinnaker_boot_op_code list" where
  "spinnaker_boot_op_code_members =
     [BOOT_HELLO, BOOT_FLOOD_FILL_START, BOOT_FLOOD_FILL_BLOCK, BOOT_FLOOD_FILL_CONTROL]"

interpretation spinnaker_boot_op_code: py_enum spinnaker_boot_op_code_members spinnaker_boot_op_code_value
proof
  fix x show "x \<in> set spinnaker_boot_op_code_members" by (cases x) (simp_all add: spinnaker_boot_op_code_members_def)
qed (simp add: spinnaker_boot_op_code_members_def)

subsection \<open>\<open>CPUState\<close>\<close>

datatype cpu_state =
    CPU_DEAD | CPU_POWERED_DOWN | CPU_RUN_TIME_EXCEPTION | CPU_WATCHDOG | CPU_INITIALISING |
    CPU_READY | CPU_C_MAIN | CPU_RUNNING | CPU_SYNC0 | CPU_SYNC1 | CPU_PAUSED | CPU_FINISHED |
    CPU_CPU_STATE_12 | CPU_CPU_STATE_13 | CPU_CPU_STATE_14 | CPU_IDLE

fun cpu_state_value :: "cpu_state \<Rightarrow> int" where
  "cpu_state_value CPU_DEAD = 0"
| "cpu_state_value CPU_POWERED_DOWN = 1"
| "cpu_state_value CPU_RUN_TIME_EXCEPTION = 2"
| "cpu_state_value CPU_WATCHDOG = 3"
| "cpu_state_value CPU_INITIALISING = 4"
| "cpu_state_value CPU_READY = 5"
| "cpu_state_value CPU_C_MAIN = 6"
| "cpu_state_value CPU_RUNNING = 7"
| "cpu_state_value CPU_SYNC0 = 8"
| "cpu_state_value CPU_SYNC1 = 9"
| "cpu_state_value CPU_PAUSED = 10"
| "cpu_state_value CPU_FINISHED = 11"
| "cpu_state_value CPU_CPU_STATE_12 = 12"
| "cpu_state_value CPU_CPU_STATE_13 = 13"
| "cpu_state_value CPU_CPU_STATE_14 = 14"
| "cpu_state_value CPU_IDLE = 15"

definition cpu_state_members :: "cpu_state list" where
  "cpu_state_members =
     [CPU_DEAD, CPU_POWERED_DOWN, CPU_RUN_TIME_EXCEPTION, CPU_WATCHDOG, CPU_INITIALISING,
      CPU_READY, CPU_C_MAIN, CPU_RUNNING, CPU_SYNC0, CPU_SYNC1, CPU_PAUSED, CPU_FINISHED,
      CPU_CPU_STATE_12, CPU_CPU_STATE_13, CPU_CPU_STATE_14, CPU_IDLE]"

interpretation cpu_state: py_enum cpu_state_members cpu_state_value
proof
  fix x show "x \<in> set cpu_state_members" by (cases x) (simp_all add: cpu_state_members_def)
qed (simp add: cpu_state_members_def)

subsection \<open>\<open>DiagnosticFilterDefaultRoutingStatus\<close>\<close>

datatype df_default_status =
    DEFAULT_ROUTED | NON_DEFAULT_ROUTED

fun df_default_status_value :: "df_default_status \<Rightarrow> int" where
  "df_default_status_value DEFAULT_ROUTED = 0"
| "df_default_status_value NON_DEFAULT_ROUTED = 1"

definition df_default_status_members :: "df_default_status list" where
  "df_default_status_members =
     [DEFAULT_ROUTED, NON_DEFAULT_ROUTED]"

interpretation df_default_status: py_enum df_default_status_members df_default_status_value
proof
  fix x show "x \<in> set df_default_status_members" by (cases x) (simp_all add: df_default_status_members_def)
qed (simp add: df_default_status_members_def)

subsection \<open>\<open>DiagnosticFilterDestination\<close>\<close>

datatype df_destination =
    DEST_DUMP | DEST_LOCAL | DEST_LOCAL_MONITOR | DEST_LINK_0 | DEST_LINK_1 | DEST_LINK_2 |
    DEST_LINK_3 | DEST_LINK_4 | DEST_LINK_5

fun df_destination_value :: "df_destination \<Rightarrow> int" where
  "df_destination_value DEST_DUMP = 0"
| "df_destination_value DEST_LOCAL = 1"
| "df_destination_value DEST_LOCAL_MONITOR = 2"
| "df_destination_value DEST_LINK_0 = 3"
| "df_destination_value DEST_LINK_1 = 4"
| "df_destination_value DEST_LINK_2 = 5"
| "df_destination_value DEST_LINK_3 = 6"
| "df_destination_value DEST_LINK_4 = 7"
| "df_destination_value DEST_LINK_5 = 8"

definition df_destination_members :: "df_destination list" where
  "df_destination_members =
     [DEST_DUMP, DEST_LOCAL, DEST_LOCAL_MONITOR, DEST_LINK_0, DEST_LINK_1, DEST_LINK_2,
      DEST_LINK_3, DEST_LINK_4, DEST_LINK_5]"

interpretation df_destination: py_enum df_destination_members df_destination_value
proof
  fix x show "x \<in> set df_destination_members" by (cases x) (simp_all add: df_destination_members_def)
qed (simp add: df_destination_members_def)

subsection \<open>\<open>DiagnosticFilterEmergencyRoutingStatus\<close>\<close>

datatype df_emergency_status =
    EMERG_NORMAL | EMERG_FIRST_STAGE_COMBINED | EMERG_FIRST_STAGE | EMERG_SECOND_STAGE

fun df_emergency_status_value :: "df_emergency_status \<Rightarrow> int" where
  "df_emergency_status_value EMERG_NORMAL = 0"
| "df_emergency_status_value EMERG_FIRST_STAGE_COMBINED = 1"
| "df_emergency_status_value EMERG_FIRST_STAGE = 2"
| "df_emergency_status_value EMERG_SECOND_STAGE = 3"

definition df_emergency_status_members :: "df_emergency_status list" where
  "df_emergency_status_members =
     [EMERG_NORMAL, EMERG_FIRST_STAGE_COMBINED, EMERG_FIRST_STAGE, EMERG_SECOND_STAGE]"

interpretation df_emergency_status: py_enum df_emergency_status_members df_emergency_status_value
proof
  fix x show "x \<in> set df_emergency_status_members" by (cases x) (simp_all add: df_emergency_status_members_def)
qed (simp add: df_emergency_status_members_def)

subsection \<open>\<open>DiagnosticFilterPacketType\<close>\<close>

datatype df_packet_type =
    PKT_MULTICAST | PKT_POINT_TO_POINT | PKT_NEAREST_NEIGHBOUR | PKT_FIXED_ROUTE

fun df_packet_type_value :: "df_packet_type \<Rightarrow> int" where
  "df_packet_type_value PKT_MULTICAST = 0"
| "df_packet_type_value PKT_POINT_TO_POINT = 1"
| "df_packet_type_value PKT_NEAREST_NEIGHBOUR = 2"
| "df_packet_type_value PKT_FIXED_ROUTE = 3"

definition df_packet_type_members :: "df_packet_type list" where
  "df_packet_type_members =
     [PKT_MULTICAST, PKT_POINT_TO_POINT, PKT_NEAREST_NEIGHBOUR, PKT_FIXED_ROUTE]"

interpretation df_packet_type: py_enum df_packet_type_members df_packet_type_value
proof
  fix x show "x \<in> set df_packet_type_members" by (cases x) (simp_all add: df_packet_type_members_def)
qed (simp add: df_packet_type_members_def)

subsection \<open>\<open>DiagnosticFilterPayloadStatus\<close>\<close>

datatype df_payload_status =
    WITH_PAYLOAD | WITHOUT_PAYLOAD

fun df_payload_status_value :: "df_payload_status \<Rightarrow> int" where
  "df_payload_status_value WITH_PAYLOAD = 0"
| "df_payload_status_value WITHOUT_PAYLOAD = 1"

definition df_payload_status_members :: "df_payload_status list" where
  "df_payload_status_members =
     [WITH_PAYLOAD, WITHOUT_PAYLOAD]"

interpretation df_payload_status: py_enum df_payload_status_members df_payload_status_value
proof
  fix x show "x \<in> set df_payload_status_members" by (cases x) (simp_all add: df_payload_status_members_def)
qed (simp add: df_payload_status_members_def)

subsection \<open>\<open>DiagnosticFilterSource\<close>\<close>

datatype df_source =
    SRC_LOCAL | SRC_NON_LOCAL

fun df_source_value :: "df_source \<Rightarrow> int" where
  "df_source_value SRC_LOCAL = 0"
| "df_source_value SRC_NON_LOCAL = 1"

definition df_source_members :: "df_source list" where
  "df_source_members =
     [SRC_LOCAL, SRC_NON_LOCAL]"

interpretation df_source: py_enum df_source_members df_source_value
proof
  fix x show "x \<in> set df_source_members" by (cases x) (simp_all add: df_source_members_def)
qed (simp add: df_source_members_def)

subsection \<open>\<open>MailboxCommand\<close>\<close>

datatype mailbox_command =
    SHM_IDLE | SHM_MSG | SHM_NOP | SHM_SIGNAL | SHM_CMD

fun mailbox_command_value :: "mailbox_command \<Rightarrow> int" where
  "mailbox_command_value SHM_IDLE = 0"
| "mailbox_command_value SHM_MSG = 1"
| "mailbox_command_value SHM_NOP = 2"
| "mailbox_command_value SHM_SIGNAL = 3"
| "mailbox_command_value SHM_CMD = 4"

definition mailbox_command_members :: "mailbox_command list" where
  "mailbox_command_members =
     [SHM_IDLE, SHM_MSG, SHM_NOP, SHM_SIGNAL, SHM_CMD]"

interpretation mailbox_command: py_enum mailbox_command_members mailbox_command_value
proof
  fix x show "x \<in> set mailbox_command_members" by (cases x) (simp_all add: mailbox_command_members_def)
qed (simp add: mailbox_command_members_def)

subsection \<open>\<open>P2PTableRoute\<close>\<close>

datatype p2p_table_route =
    P2P_EAST | P2P_NORTH_EAST | P2P_NORTH | P2P_WEST | P2P_SOUTH_WEST | P2P_SOUTH | P2P_NONE |
    P2P_MONITOR

fun p2p_table_route_value :: "p2p_table_route \<Rightarrow> int" where
  "p2p_table_route_value P2P_EAST = 0"
| "p2p_table_route_value P2P_NORTH_EAST = 1"
| "p2p_table_route_value P2P_NORTH = 2"
| "p2p_table_route_value P2P_WEST = 3"
| "p2p_table_route_value P2P_SOUTH_WEST = 4"
| "p2p_table_route_value P2P_SOUTH = 5"
| "p2p_table_route_value P2P_NONE = 6"
| "p2p_table_route_value P2P_MONITOR = 7"

definition p2p_table_route_members :: "p2p_table_route list" where
  "p2p_table_route_members =
     [P2P_EAST, P2P_NORTH_EAST, P2P_NORTH, P2P_WEST, P2P_SOUTH_WEST, P2P_SOUTH, P2P_NONE,
      P2P_MONITOR]"

interpretation p2p_table_route: py_enum p2p_table_route_members p2p_table_route_value
proof
  fix x show "x \<in> set p2p_table_route_members" by (cases x) (simp_all add: p2p_table_route_members_def)
qed (simp add: p2p_table_route_members_def)

subsection \<open>\<open>RunTimeError\<close>\<close>

datatype run_time_error =
    RTE_NONE | RTE_RESET | RTE_UNDEF | RTE_SVC | RTE_PABT | RTE_DABT | RTE_IRQ | RTE_FIQ |
    RTE_VIC | RTE_ABORT | RTE_MALLOC | RTE_DIVBY0 | RTE_EVENT | RTE_SWERR | RTE_IOBUF |
    RTE_ENABLE | RTE_NULL | RTE_PKT | RTE_TIMER | RTE_API | RTE_SARK_VERSRION_INCORRECT

fun run_time_error_value :: "run_time_error \<Rightarrow> int" where
  "run_time_error_value RTE_NONE = 0"
| "run_time_error_value RTE_RESET = 1"
| "run_time_error_value RTE_UNDEF = 2"
| "run_time_error_value RTE_SVC = 3"
| "run_time_error_value RTE_PABT = 4"
| "run_time_error_value RTE_DABT = 5"
| "run_time_error_value RTE_IRQ = 6"
| "run_time_error_value RTE_FIQ = 7"
| "run_time_error_value RTE_VIC = 8"
| "run_time_error_value RTE_ABORT = 9"
| "run_time_error_value RTE_MALLOC = 10"
| "run_time_error_value RTE_DIVBY0 = 11"
| "run_time_error_value RTE_EVENT = 12"
| "run_time_error_value RTE_SWERR = 13"
| "run_time_error_value RTE_IOBUF = 14"
| "run_time_error_value RTE_ENABLE = 15"
| "run_time_error_value RTE_NULL = 16"
| "run_time_error_value RTE_PKT = 17"
| "run_time_error_value RTE_TIMER = 18"
| "run_time_error_value RTE_API = 19"
| "run_time_error_value RTE_SARK_VERSRION_INCORRECT = 20"

definition run_time_error_members :: "run_time_error list" where
  "run_time_error_members =
     [RTE_NONE, RTE_RESET, RTE_UNDEF, RTE_SVC, RTE_PABT, RTE_DABT, RTE_IRQ, RTE_FIQ, RTE_VIC,
      RTE_ABORT, RTE_MALLOC, RTE_DIVBY0, RTE_EVENT, RTE_SWERR, RTE_IOBUF, RTE_ENABLE, RTE_NULL,
      RTE_PKT, RTE_TIMER, RTE_API, RTE_SARK_VERSRION_INCORRECT]"

interpretation run_time_error: py_enum run_time_error_members run_time_error_value
proof
  fix x show "x \<in> set run_time_error_members" by (cases x) (simp_all add: run_time_error_members_def)
qed (simp add: run_time_error_members_def)

subsection \<open>\<open>RouterError\<close>\<close>

datatype router_error =
    ERR_ERROR | ERR_OVERFLOW | ERR_PARITY | ERR_FRAMING | ERR_TIMESTAMP

fun router_error_value :: "router_error \<Rightarrow> int" where
  "router_error_value ERR_ERROR = 2147483648"
| "router_error_value ERR_OVERFLOW = 1073741824"
| "router_error_value ERR_PARITY = 536870912"
| "router_error_value ERR_FRAMING = 268435456"
| "router_error_value ERR_TIMESTAMP = 134217728"

definition router_error_members :: "router_error list" where
  "router_error_members =
     [ERR_ERROR, ERR_OVERFLOW, ERR_PARITY, ERR_FRAMING, ERR_TIMESTAMP]"

interpretation router_error: py_enum router_error_members router_error_value
proof
  fix x show "x \<in> set router_error_members" by (cases x) (simp_all add: router_error_members_def)
qed (simp add: router_error_members_def)

subsection \<open>\<open>SDP_PORTS\<close>\<close>

datatype sdp_ports =
    INPUT_BUFFERING_SDP_PORT | OUTPUT_BUFFERING_SDP_PORT | RUNNING_COMMAND_SDP_PORT |
    EXTRA_MONITOR_CORE_REINJECTION | EXTRA_MONITOR_CORE_DATA_SPEED_UP |
    EXTRA_MONITOR_CORE_DATA_IN_SPEED_UP

fun sdp_ports_value :: "sdp_ports \<Rightarrow> int" where
  "sdp_ports_value INPUT_BUFFERING_SDP_PORT = 1"
| "sdp_ports_value OUTPUT_BUFFERING_SDP_PORT = 2"
| "sdp_ports_value RUNNING_COMMAND_SDP_PORT = 3"
| "sdp_ports_value EXTRA_MONITOR_CORE_REINJECTION = 4"
| "sdp_ports_value EXTRA_MONITOR_CORE_DATA_SPEED_UP = 5"
| "sdp_ports_value EXTRA_MONITOR_CORE_DATA_IN_SPEED_UP = 6"

definition sdp_ports_members :: "sdp_ports list" where
  "sdp_ports_members =
     [INPUT_BUFFERING_SDP_PORT, OUTPUT_BUFFERING_SDP_PORT, RUNNING_COMMAND_SDP_PORT,
      EXTRA_MONITOR_CORE_REINJECTION, EXTRA_MONITOR_CORE_DATA_SPEED_UP,
      EXTRA_MONITOR_CORE_DATA_IN_SPEED_UP]"

interpretation sdp_ports: py_enum sdp_ports_members sdp_ports_value
proof
  fix x show "x \<in> set sdp_ports_members" by (cases x) (simp_all add: sdp_ports_members_def)
qed (simp add: sdp_ports_members_def)

subsection \<open>\<open>SDP_RUNNING_MESSAGE_CODES\<close>\<close>

datatype sdp_running_message_codes =
    SDP_STOP_ID_CODE | SDP_NEW_RUNTIME_ID_CODE | SDP_UPDATE_PROVENCE_REGION_AND_EXIT |
    SDP_CLEAR_IOBUF_CODE

fun sdp_running_message_codes_value :: "sdp_running_message_codes \<Rightarrow> int" where
  "sdp_running_message_codes_value SDP_STOP_ID_CODE = 6"
| "sdp_running_message_codes_value SDP_NEW_RUNTIME_ID_CODE = 7"
| "sdp_running_message_codes_value SDP_UPDATE_PROVENCE_REGION_AND_EXIT = 8"
| "sdp_running_message_codes_value SDP_CLEAR_IOBUF_CODE = 9"

definition sdp_running_message_codes_members :: "sdp_running_message_codes list" where
  "sdp_running_message_codes_members =
     [SDP_STOP_ID_CODE, SDP_NEW_RUNTIME_ID_CODE, SDP_UPDATE_PROVENCE_REGION_AND_EXIT,
      SDP_CLEAR_IOBUF_CODE]"

interpretation sdp_running_message_codes: py_enum sdp_running_message_codes_members sdp_running_message_codes_value
proof
  fix x show "x \<in> set sdp_running_message_codes_members" by (cases x) (simp_all add: sdp_running_message_codes_members_def)
qed (simp add: sdp_running_message_codes_members_def)

subsection \<open>\<open>UserRegister\<close>\<close>

datatype user_register =
    UREG_USER_0 | UREG_USER_1 | UREG_USER_2 | UREG_USER_3

fun user_register_value :: "user_register \<Rightarrow> int" where
  "user_register_value UREG_USER_0 = 0"
| "user_register_value UREG_USER_1 = 1"
| "user_register_value UREG_USER_2 = 2"
| "user_register_value UREG_USER_3 = 3"

definition user_register_members :: "user_register list" where
  "user_register_members =
     [UREG_USER_0, UREG_USER_1, UREG_USER_2, UREG_USER_3]"

interpretation user_register: py_enum user_register_members user_register_value
proof
  fix x show "x \<in> set user_register_members" by (cases x) (simp_all add: user_register_members_def)
qed (simp add: user_register_members_def)

text \<open>Members of an \<open>IntEnum\<close> are integers: they compare by value.\<close>

instantiation user_register :: linorder
begin

definition less_eq_user_register :: "user_register \<Rightarrow> user_register \<Rightarrow> bool" where
  "x \<le> y \<longleftrightarrow> user_register_value x \<le> user_register_value y"

definition less_user_register :: "user_register \<Rightarrow> user_register \<Rightarrow> bool" where
  "x < y \<longleftrightarrow> user_register_value x < user_register_value y"

instance
  by standard (auto simp: less_eq_user_register_def less_user_register_def user_register.val_antisym)

end

subsection \<open>Sizes\<close>

text \<open>\<open>constants.py\<close>: the largest payload of a UDP message to a machine.\<close>

definition UDP_MESSAGE_MAX_SIZE :: int where "UDP_MESSAGE_MAX_SIZE = 256"

end
