(* ===== verification/SCP.thy ===== *)
theory SCP
  imports Enums
begin

text \<open>
  SpiNNaker Command Protocol requests: the abstract request and its serialisation
  (\<open>messages/scp/scp_request_header.py\<close>, \<open>messages/scp/abstract_messages\<close>) and every concrete
  request of \<open>messages/scp/impl\<close> as a function from its constructor's arguments to the request it
  builds, or to the exception it raises. \<open>req_response\<close> is the response object that
  \<open>get_scp_response\<close> creates, before any packet is read into it.
\<close>

subsection \<open>Requests\<close>

text \<open>The response classes, with what their constructors store.\<close>

datatype response_kind =
    CheckOKResponse string string
  | CountStateResponse
  | FixedRouteResponse
  | GetChipInfoResponse
  | GetVersionResponse
  | IPTagGetResponse
  | IPTagGetInfoResponse
  | RouterAllocResponse
  | AllocResponse int
  | DeAllocResponse bool
  | ReadResponse string string
  | BMPVersionResponse
  | BMPOKResponse string string
  | ReadFPGARegisterResponse
  | ReadADCResponse

record scp_request_header =
  scp_command :: scp_command
  scp_sequence :: int

definition TWO_SHORTS :: "fitem list" where [layout]: "TWO_SHORTS = [FH, FH]"
definition THREE_WORDS :: "fitem list" where [layout]: "THREE_WORDS = [FI, FI, FI]"
definition ONE_WORD :: "fitem list" where [layout]: "ONE_WORD = [FI]"

definition scp_request_header_bytestring :: "scp_request_header \<Rightarrow> bytes res" where
  "scp_request_header_bytestring h =
     struct_pack Little TWO_SHORTS [scp_command_value (scp_command h), scp_sequence h]"

text \<open>
  \<open>req_extra\<close> is what the classes that override \<open>bytestring\<close> append to it: \<open>WriteMemory\<close> and
  \<open>WriteLink\<close> the data to write, \<open>FloodFillData\<close> its slice of the data.
\<close>

record scp_request =
  req_sdp :: sdp_header
  req_scp :: scp_request_header
  req_argument_1 :: "int option"
  req_argument_2 :: "int option"
  req_argument_3 :: "int option"
  req_data :: "bytes option"
  req_extra :: bytes
  req_response :: response_kind

definition or_zero :: "int option \<Rightarrow> int" where
  "or_zero a = (case a of None \<Rightarrow> 0 | Some v \<Rightarrow> v)"

definition scp_request_bytestring :: "scp_request \<Rightarrow> bytes res" where
  "scp_request_bytestring r =
     bind_res (sdp_header_bytestring (req_sdp r)) (\<lambda>sdp.
     bind_res (scp_request_header_bytestring (req_scp r)) (\<lambda>scp.
     bind_res (struct_pack Little THREE_WORDS
        [or_zero (req_argument_1 r), or_zero (req_argument_2 r), or_zero (req_argument_3 r)]) (\<lambda>args.
       Inr (sdp @ scp @ args @ (case req_data r of None \<Rightarrow> [] | Some d \<Rightarrow> d) @ req_extra r))))"

text \<open>\<open>SDPHeader(flags=REPLY_EXPECTED, destination_port=0, ...)\<close>, the header of every request.\<close>

definition scamp_header :: "int \<Rightarrow> int \<Rightarrow> int \<Rightarrow> sdp_header" where
  "scamp_header x y cpu = \<lparr>sdp_flags = REPLY_EXPECTED, sdp_tag = None, sdp_destination_port = 0,
     sdp_destination_cpu = cpu, sdp_destination_chip_x = x, sdp_destination_chip_y = y,
     sdp_source_port = None, sdp_source_cpu = None, sdp_source_chip_x = None, sdp_source_chip_y = None\<rparr>"

definition abstract_scp_request ::
  "sdp_header \<Rightarrow> scp_command \<Rightarrow> int option \<Rightarrow> int option \<Rightarrow> int option \<Rightarrow> bytes option \<Rightarrow>
     response_kind \<Rightarrow> scp_request" where
  "abstract_scp_request sdp cmd a1 a2 a3 data k =
     \<lparr>req_sdp = sdp, req_scp = \<lparr>scp_command = cmd, scp_sequence = 0\<rparr>, req_argument_1 = a1,
      req_argument_2 = a2, req_argument_3 = a3, req_data = data, req_extra = [], req_response = k\<rparr>"

definition DEFAULT_DEST_X_COORD :: int where "DEFAULT_DEST_X_COORD = 255"
definition DEFAULT_DEST_Y_COORD :: int where "DEFAULT_DEST_Y_COORD = 255"

definition default_header :: sdp_header where
  "default_header = scamp_header DEFAULT_DEST_X_COORD DEFAULT_DEST_Y_COORD 0"

text \<open>\<open>a << n\<close>: a negative count is a \<open>ValueError\<close>.\<close>

definition shl :: "int \<Rightarrow> int \<Rightarrow> int res" where
  "shl a n = (if n < 0 then Inl PyValueError else Inr (push_bit (nat n) a))"

text \<open>\<open>for processor in processors: processor_mask |= (1 << processor)\<close>\<close>

fun processor_mask :: "int \<Rightarrow> int list \<Rightarrow> int res" where
  "processor_mask m [] = Inr m"
| "processor_mask m (p # ps) = bind_res (shl 1 p) (\<lambda>b. processor_mask (m OR b) ps)"

definition processors_mask :: "int list option \<Rightarrow> int res" where
  "processors_mask ps = (case ps of None \<Rightarrow> Inr 0 | Some ps \<Rightarrow> processor_mask 0 ps)"

definition WAIT_FLAG :: int where "WAIT_FLAG = push_bit 18 1"

text \<open>\<open>str(n)\<close>, for the f-strings that name a link or an address.\<close>

fun show_nat :: "nat \<Rightarrow> string" where
  "show_nat n = (if n < 10 then [char_of (48 + n)] else show_nat (n div 10) @ [char_of (48 + n mod 10)])"

definition show_int :: "int \<Rightarrow> string" where
  "show_int i = (if i < 0 then CHR ''-'' # show_nat (nat (- i)) else show_nat (nat i))"

declare show_nat.simps [simp del]

subsection \<open>BMP requests\<close>

datatype boards = Board int | Boards "int list"

fun get_first_board :: "boards \<Rightarrow> int res" where
  "get_first_board (Board b) = Inr b"
| "get_first_board (Boards []) = Inl PyValueError"
| "get_first_board (Boards (b # bs)) = Inr (foldl min b bs)"

fun sum_boards :: "int \<Rightarrow> int list \<Rightarrow> int res" where
  "sum_boards acc [] = Inr acc"
| "sum_boards acc (b # bs) = bind_res (shl 1 b) (\<lambda>m. sum_boards (acc + m) bs)"

fun get_board_mask :: "boards \<Rightarrow> int res" where
  "get_board_mask (Board b) = shl 1 b"
| "get_board_mask (Boards bs) = sum_boards 0 bs"

definition bmp_request ::
  "boards \<Rightarrow> scp_command \<Rightarrow> int option \<Rightarrow> int option \<Rightarrow> int option \<Rightarrow> bytes option \<Rightarrow>
     response_kind \<Rightarrow> scp_request res" where
  "bmp_request bs cmd a1 a2 a3 data k =
     bind_res (get_first_board bs) (\<lambda>cpu.
       Inr (abstract_scp_request (scamp_header 0 0 cpu) cmd a1 a2 a3 data k))"

end
