(* ===== verification/Requests.thy ===== *)
theory Requests
  imports SCP
begin

text \<open>
  The requests of \<open>messages/scp/impl\<close>: one constructor function per class, with the exceptions
  its \<open>__init__\<close> raises. Arguments are packed with Python's unbounded integers, so a field that is
  too large spills into the next one; the properties below say when it does not.
\<close>

subsection \<open>Applications and signals\<close>

definition app_copy_run ::
  "int \<Rightarrow> int \<Rightarrow> int \<Rightarrow> int \<Rightarrow> int \<Rightarrow> int list option \<Rightarrow> int \<Rightarrow> bool \<Rightarrow> scp_request res" where
  "app_copy_run x y link n_bytes app_id processors checksum wait =
     (if n_bytes mod 4 \<noteq> 0 then Inl (InvalidParameter ''size'')
      else bind_res (processors_mask processors) (\<lambda>m0.
        let m1 = m0 OR push_bit 24 app_id;
            m2 = if wait then m1 OR WAIT_FLAG else m1;
            arg1 = push_bit 3 (checksum AND 0x1FFFFFFF) OR link
        in Inr (abstract_scp_request (scamp_header x y 0) CMD_APP_COPY_RUN (Some arg1) (Some n_bytes)
                  (Some m2) None
                  (CheckOKResponse (''Application Copy Run (Link '' @ show_int link @ '')'')
                     ''SCPCommand.CMD_APP_COPY_RUN''))))"

definition APP_MASK :: int where "APP_MASK = 0xFF"
definition ALL_CORE_MASK :: int where "ALL_CORE_MASK = 0xFFFF"

definition get_signal_data :: "int \<Rightarrow> signal \<Rightarrow> int" where
  "get_signal_data app_id sig = (push_bit 8 APP_MASK OR app_id) + push_bit 16 (signal_value sig)"

definition app_stop :: "int \<Rightarrow> scp_request" where
  "app_stop app_id =
     abstract_scp_request default_header CMD_NNP (Some (push_bit 16 0x3f))
       (Some (push_bit 28 5 OR get_signal_data app_id SIG_STOP))
       (Some (push_bit 31 1 + push_bit 8 0x3f)) None (CheckOKResponse ''Send Stop'' ''CMD_NNP'')"

definition send_signal :: "int \<Rightarrow> signal \<Rightarrow> scp_request res" where
  "send_signal app_id sig =
     (if app_id < 0 \<or> app_id > 255 then Inl (InvalidParameter ''app_id'')
      else Inr (abstract_scp_request default_header CMD_SIG
                 (Some (signal_type_value (signal_type_of sig)))
                 (Some (get_signal_data app_id sig)) (Some ALL_CORE_MASK) None
                 (CheckOKResponse ''Send Signal'' ''CMD_SIG'')))"

definition application_run ::
  "int \<Rightarrow> int \<Rightarrow> int \<Rightarrow> int list option \<Rightarrow> bool \<Rightarrow> scp_request res" where
  "application_run app_id x y processors wait =
     bind_res (processors_mask processors) (\<lambda>m0.
       let m1 = m0 OR push_bit 24 app_id;
           m2 = if wait then m1 OR WAIT_FLAG else m1
       in Inr (abstract_scp_request (scamp_header x y 0) CMD_AR (Some m2) None None None
                 (CheckOKResponse ''Run Application'' ''CMD_AR'')))"

definition count_state :: "int \<Rightarrow> int \<Rightarrow> int \<Rightarrow> cpu_state \<Rightarrow> scp_request" where
  "count_state x y app_id state =
     abstract_scp_request (scamp_header x y 0) CMD_COUNT (Some app_id)
       (Some (cpu_state_value state)) None None CountStateResponse"

definition do_sync :: "bool \<Rightarrow> scp_request" where
  "do_sync b =
     abstract_scp_request default_header CMD_SYNC (Some (of_bool b)) None None None
       (CheckOKResponse ''Control Synchronization'' ''CMD_SYNC'')"

subsection \<open>Memory\<close>

text \<open>The table \<open>address_length_dtype\<close> of \<open>constants.py\<close>.\<close>

definition address_length_dtype :: "((int \<times> int) \<times> read_types) list" where
  "address_length_dtype =
     [((0, 0), READ_WORD), ((0, 1), READ_BYTE), ((0, 2), READ_HALF_WORD), ((0, 3), READ_BYTE),
      ((1, 0), READ_BYTE), ((1, 1), READ_BYTE), ((1, 2), READ_BYTE), ((1, 3), READ_BYTE),
      ((2, 0), READ_HALF_WORD), ((2, 1), READ_BYTE), ((2, 2), READ_HALF_WORD), ((2, 3), READ_BYTE),
      ((3, 0), READ_BYTE), ((3, 1), READ_BYTE), ((3, 2), READ_BYTE), ((3, 3), READ_BYTE)]"

definition dtype_of :: "int \<Rightarrow> int \<Rightarrow> int res" where
  "dtype_of base_address n_bytes =
     bind_res (require PyKeyError (map_of address_length_dtype (base_address mod 4, n_bytes mod 4)))
       (\<lambda>t. Inr (read_types_value t))"

type_synonym xyp = "int \<times> int \<times> int"

fun read_memory :: "xyp \<Rightarrow> int \<Rightarrow> int \<Rightarrow> scp_request res" where
  "read_memory (x, y, cpu) base_address n_bytes =
     bind_res (dtype_of base_address n_bytes) (\<lambda>t.
       Inr (abstract_scp_request (scamp_header x y cpu) CMD_READ (Some base_address) (Some n_bytes)
              (Some t) None (ReadResponse ''read memory'' ''CMD_READ'')))"

fun read_link :: "xyp \<Rightarrow> int \<Rightarrow> int \<Rightarrow> int \<Rightarrow> scp_request" where
  "read_link (x, y, cpu) link base_address n_bytes =
     abstract_scp_request (scamp_header x y cpu) CMD_LINK_READ (Some base_address) (Some n_bytes)
       (Some link) None (ReadResponse ''read neighbour memory'' ''CMD_LINK_READ'')"

fun write_memory :: "xyp \<Rightarrow> int \<Rightarrow> bytes \<Rightarrow> scp_request res" where
  "write_memory (x, y, cpu) base_address data =
     bind_res (dtype_of base_address (int (length data))) (\<lambda>t.
       Inr ((abstract_scp_request (scamp_header x y cpu) CMD_WRITE (Some base_address)
              (Some (int (length data))) (Some t) None
              (CheckOKResponse ''write to memory'' ''CMD_WRITE''))\<lparr>req_extra := data\<rparr>))"

fun write_link :: "xyp \<Rightarrow> int \<Rightarrow> int \<Rightarrow> bytes \<Rightarrow> scp_request" where
  "write_link (x, y, cpu) link base_address data =
     (abstract_scp_request (scamp_header x y cpu) CMD_LINK_WRITE (Some base_address)
        (Some (int (length data))) (Some link) None
        (CheckOKResponse ''write neighbour memory'' ''CMD_LINK_WRITE''))\<lparr>req_extra := data\<rparr>"

definition fill_request :: "int \<Rightarrow> int \<Rightarrow> int \<Rightarrow> int \<Rightarrow> int \<Rightarrow> scp_request" where
  "fill_request x y base_address data n_bytes =
     abstract_scp_request (scamp_header x y 0) CMD_FILL (Some base_address) (Some data) (Some n_bytes)
       None (CheckOKResponse ''Fill'' ''SCPCommand.CMD_FILL'')"

definition FLAG_RETRY_TAG :: int where "FLAG_RETRY_TAG = 4"

definition sdram_alloc :: "int \<Rightarrow> int \<Rightarrow> int \<Rightarrow> int \<Rightarrow> int option \<Rightarrow> bool \<Rightarrow> scp_request res" where
  "sdram_alloc x y app_id n_bytes tag retry_tag =
     (let extra_flag = if retry_tag \<and> tag \<noteq> None then FLAG_RETRY_TAG else 0
      in bind_res (case tag of None \<Rightarrow> Inr 0
                   | Some t \<Rightarrow> check (0 \<le> t \<and> t < 256) (InvalidParameter ''tag'') (Inr t)) (\<lambda>tag.
           Inr (abstract_scp_request (scamp_header x y 0) CMD_ALLOC
                  (Some (push_bit 16 extra_flag OR push_bit 8 app_id OR alloc_free_value ALLOC_SDRAM))
                  (Some n_bytes) (Some tag) None (AllocResponse n_bytes))))"

definition sdram_de_alloc :: "int \<Rightarrow> int \<Rightarrow> int option \<Rightarrow> int option \<Rightarrow> scp_request res" where
  "sdram_de_alloc x y app_id base_address =
     (case base_address of
        Some a \<Rightarrow>
          if app_id \<noteq> None then Inl PyAssertionError
          else Inr (abstract_scp_request (scamp_header x y 0) CMD_ALLOC
                      (Some (alloc_free_value FREE_SDRAM_BY_POINTER)) (Some a) None None
                      (DeAllocResponse False))
      | None \<Rightarrow>
          bind_res (require PyAssertionError app_id) (\<lambda>i.
            Inr (abstract_scp_request (scamp_header x y 0) CMD_ALLOC
                   (Some (push_bit 8 i OR alloc_free_value FREE_SDRAM_BY_APP_ID)) None None None
                   (DeAllocResponse True))))"

subsection \<open>Routers\<close>

definition fixed_route_init :: "int \<Rightarrow> int \<Rightarrow> int \<Rightarrow> int \<Rightarrow> scp_request" where
  "fixed_route_init x y entry app_id =
     abstract_scp_request (scamp_header x y 0) CMD_RTR (Some (push_bit 8 app_id OR 3)) (Some entry)
       None None (CheckOKResponse ''RouterInit'' ''CMD_RTR'')"

definition fixed_route_read :: "int \<Rightarrow> int \<Rightarrow> int \<Rightarrow> scp_request" where
  "fixed_route_read x y app_id =
     abstract_scp_request (scamp_header x y 0) CMD_RTR (Some (push_bit 8 app_id OR 3))
       (Some (push_bit 31 1)) None None FixedRouteResponse"

definition router_alloc :: "int \<Rightarrow> int \<Rightarrow> int \<Rightarrow> int \<Rightarrow> scp_request" where
  "router_alloc x y app_id n_entries =
     abstract_scp_request (scamp_header x y 0) CMD_ALLOC
       (Some (push_bit 8 app_id OR alloc_free_value ALLOC_ROUTING)) (Some n_entries) None None
       RouterAllocResponse"

definition router_clear :: "int \<Rightarrow> int \<Rightarrow> scp_request" where
  "router_clear x y =
     abstract_scp_request (scamp_header x y 0) CMD_RTR None None None None
       (CheckOKResponse ''RouterClear'' ''CMD_RTR'')"

definition router_init :: "int \<Rightarrow> int \<Rightarrow> int \<Rightarrow> int \<Rightarrow> int \<Rightarrow> int \<Rightarrow> scp_request res" where
  "router_init x y n_entries table_address base_address app_id =
     (if n_entries < 1 then Inl (InvalidParameter ''n_entries'')
      else if base_address < 0 then Inl (InvalidParameter ''base_address'')
      else if table_address < 0 then Inl (InvalidParameter ''table_address'')
      else Inr (abstract_scp_request (scamp_header x y 0) CMD_RTR
                  (Some (push_bit 16 n_entries OR push_bit 8 app_id OR 2)) (Some table_address)
                  (Some base_address) None (CheckOKResponse ''RouterInit'' ''CMD_RTR'')))"

subsection \<open>Flood fill\<close>

definition FFD_FORWARD_RETRY :: int where "FFD_FORWARD_RETRY = push_bit 24 0x3f OR push_bit 16 0x1E"
definition FFE_FORWARD_RETRY :: int where "FFE_FORWARD_RETRY = push_bit 8 0x3f OR 0x1A"
definition FFS_FORWARD_RETRY :: int where
  "FFS_FORWARD_RETRY = push_bit 31 1 OR push_bit 8 0x3f OR 0x1A"
definition NNP_FLOOD_FILL_START :: int where "NNP_FLOOD_FILL_START = 6"
definition NNP_FLOOD_FILL_END :: int where "NNP_FLOOD_FILL_END = 15"

definition flood_fill_data ::
  "int \<Rightarrow> int \<Rightarrow> int \<Rightarrow> bytes \<Rightarrow> nat \<Rightarrow> nat option \<Rightarrow> scp_request" where
  "flood_fill_data nearest_neighbour_id block_no base_address data offset len =
     (let n_bytes = (case len of None \<Rightarrow> length data | Some l \<Rightarrow> l);
          argument_1 = FFD_FORWARD_RETRY OR nearest_neighbour_id;
          argument_2 = push_bit 16 block_no OR push_bit 8 (int n_bytes div 4 - 1)
      in (abstract_scp_request default_header CMD_FFD (Some argument_1) (Some argument_2)
            (Some base_address) None (CheckOKResponse ''Flood Fill'' ''CMD_NNP:NNP_FFS''))
         \<lparr>req_extra := slice offset (offset + n_bytes) data\<rparr>)"

definition flood_fill_end :: "int \<Rightarrow> int \<Rightarrow> int list option \<Rightarrow> bool \<Rightarrow> scp_request res" where
  "flood_fill_end nearest_neighbour_id app_id processors wait =
     bind_res (processors_mask processors) (\<lambda>mask.
       let key = push_bit 24 NNP_FLOOD_FILL_END OR nearest_neighbour_id;
           d0 = push_bit 24 app_id OR mask;
           d1 = if wait then d0 OR WAIT_FLAG else d0
       in Inr (abstract_scp_request default_header CMD_NNP (Some key) (Some d1)
                 (Some FFE_FORWARD_RETRY) None (CheckOKResponse ''Flood Fill'' ''CMD_NNP:NNP_FFS'')))"

definition flood_fill_start :: "int \<Rightarrow> int \<Rightarrow> int option \<Rightarrow> int option \<Rightarrow> scp_request" where
  "flood_fill_start nearest_neighbour_id n_blocks x y =
     (let key = push_bit 24 NNP_FLOOD_FILL_START OR push_bit 16 nearest_neighbour_id
                OR push_bit 8 n_blocks;
          data = (case (x, y) of
              (Some x, Some y) \<Rightarrow>
                let m = (y AND 3) * 4 + (x AND 3)
                in push_bit 24 (x AND 0xfc) + push_bit 16 (y AND 0xfc) + push_bit 16 3
                   + push_bit (nat m) 1
            | _ \<Rightarrow> 0xFFFF)
      in abstract_scp_request default_header CMD_NNP (Some key) (Some data)
           (Some FFS_FORWARD_RETRY) None (CheckOKResponse ''Flood Fill'' ''CMD_NNP:NNP_FFS''))"

subsection \<open>Information\<close>

definition get_chip_info :: "int \<Rightarrow> int \<Rightarrow> bool \<Rightarrow> scp_request" where
  "get_chip_info x y with_size =
     abstract_scp_request (scamp_header x y 0) CMD_INFO
       (Some (if with_size then 0x7F else 0x5F)) None None None GetChipInfoResponse"

definition get_version :: "int \<Rightarrow> int \<Rightarrow> int \<Rightarrow> scp_request" where
  "get_version x y p =
     abstract_scp_request (scamp_header x y p) CMD_VER None None None None GetVersionResponse"

definition bmp_get_version :: "int \<Rightarrow> scp_request res" where
  "bmp_get_version board = bmp_request (Board board) CMD_VER None None None None BMPVersionResponse"

subsection \<open>IP tags\<close>

definition IPTAG_INFO :: int where "IPTAG_INFO = 4"
definition IPTAG_MAX :: int where "IPTAG_MAX = 255"

definition iptag_clear :: "int \<Rightarrow> int \<Rightarrow> int \<Rightarrow> scp_request" where
  "iptag_clear x y tag =
     abstract_scp_request (scamp_header x y 0) CMD_IPTAG (Some (push_bit 16 3 OR tag)) None None None
       (CheckOKResponse ''Clear IP Tag'' ''CMD_IPTAG'')"

definition iptag_get :: "int \<Rightarrow> int \<Rightarrow> int \<Rightarrow> scp_request" where
  "iptag_get x y tag =
     abstract_scp_request (scamp_header x y 0) CMD_IPTAG (Some (push_bit 16 2 OR tag)) (Some 1)
       None None IPTagGetResponse"

definition iptag_get_info :: "int \<Rightarrow> int \<Rightarrow> scp_request" where
  "iptag_get_info x y =
     abstract_scp_request (scamp_header x y 0) CMD_IPTAG (Some (push_bit 16 IPTAG_INFO))
       (Some IPTAG_MAX) None None IPTagGetInfoResponse"

text \<open>\<open>host\<close> is the address as bytes; reading a missing one is an \<open>IndexError\<close>.\<close>

definition iptag_set ::
  "int \<Rightarrow> int \<Rightarrow> bytes \<Rightarrow> int \<Rightarrow> int \<Rightarrow> bool \<Rightarrow> bool \<Rightarrow> scp_request res" where
  "iptag_set x y host port tag strip use_sender =
     (case host of
        h0 # h1 # h2 # h3 # _ \<Rightarrow>
          Inr (abstract_scp_request (scamp_header x y 0) CMD_IPTAG
             (Some (push_bit 28 (of_bool strip) OR push_bit 30 (of_bool use_sender)
                    OR push_bit 16 1 OR tag))
             (Some port)
             (Some (push_bit 24 (uint h3) OR push_bit 16 (uint h2) OR push_bit 8 (uint h1) OR uint h0))
             None (CheckOKResponse ''Set IP Tag'' ''CMD_IPTAG''))
      | _ \<Rightarrow> Inl PyIndexError)"

definition iptag_set_tto :: "int \<Rightarrow> int \<Rightarrow> iptag_time_out_wait_times \<Rightarrow> scp_request" where
  "iptag_set_tto x y tag_timeout =
     abstract_scp_request (scamp_header x y 0) CMD_IPTAG (Some (push_bit 16 4))
       (Some (iptag_time_out_wait_times_value tag_timeout)) None None IPTagGetInfoResponse"

definition reverse_iptag_set ::
  "int \<Rightarrow> int \<Rightarrow> int \<Rightarrow> int \<Rightarrow> int \<Rightarrow> int \<Rightarrow> int \<Rightarrow> int \<Rightarrow> scp_request" where
  "reverse_iptag_set x y destination_x destination_y destination_p port tag sdp_port =
     (let arg1 = push_bit 29 1 OR push_bit 28 1 OR push_bit 16 1 OR push_bit 13 sdp_port
                 OR push_bit 8 destination_p OR tag;
          arg2 = push_bit 24 destination_x OR push_bit 16 destination_y OR port
      in abstract_scp_request (scamp_header x y 0) CMD_IPTAG (Some arg1) (Some arg2) (Some 0) None
           (CheckOKResponse ''Set Reverse IP Tag'' ''CMD_IPTAG''))"

subsection \<open>BMP\<close>

definition read_fpga_register :: "int \<Rightarrow> int \<Rightarrow> int \<Rightarrow> scp_request res" where
  "read_fpga_register fpga_num register board =
     bmp_request (Board board) CMD_LINK_READ (Some (register AND NOT 3)) (Some 4) (Some fpga_num) None
       ReadFPGARegisterResponse"

definition write_fpga_register :: "int \<Rightarrow> int \<Rightarrow> int \<Rightarrow> int \<Rightarrow> scp_request res" where
  "write_fpga_register fpga_num address value board =
     bind_res (struct_pack Little ONE_WORD [value]) (\<lambda>d.
       bmp_request (Board board) CMD_LINK_WRITE (Some (address AND NOT 3)) (Some 4) (Some fpga_num)
         (Some d) (BMPOKResponse ''Send FPGA register write'' ''CMD_LINK_WRITE''))"

text \<open>\<open>delay_ms\<close> is \<open>int(delay * 1000)\<close>; the warning about \<open>board_to_send_to\<close> is only logged.\<close>

definition set_power :: "power_command \<Rightarrow> boards \<Rightarrow> int \<Rightarrow> int \<Rightarrow> scp_request res" where
  "set_power power_command boards delay_ms board_to_send_to =
     bind_res (get_board_mask boards) (\<lambda>arg2.
       bmp_request (Board board_to_send_to) CMD_BMP_POWER
         (Some (push_bit 16 delay_ms OR power_command_value power_command)) (Some arg2) None None
         (BMPOKResponse ''powering request'' ''CMD_BMP_POWER''))"

end
