(* ===== verification/ChipInfo.thy ===== *)
theory ChipInfo
  imports Enums
begin

text \<open>
  What SCAMP reports about itself and its chip: \<open>model/version_info.py\<close> and
  \<open>model/chip_summary_info.py\<close>. Both parse the payload of a response in their constructor.
  A Python \<open>str\<close> is the list of its code points.
\<close>

type_synonym ustr = "int list"

subsection \<open>Text\<close>

definition continuation :: "byte \<Rightarrow> bool" where
  "continuation b \<longleftrightarrow> 0x80 \<le> uint b \<and> uint b < 0xC0"

definition cont_bits :: "byte \<Rightarrow> int" where
  "cont_bits b = uint b AND 0x3F"

text \<open>\<open>bytes.decode("utf-8")\<close>, strict: \<open>None\<close> is the \<open>UnicodeDecodeError\<close>.\<close>

fun utf8_decode :: "bytes \<Rightarrow> ustr option" where
  "utf8_decode [] = Some []"
| "utf8_decode (a # r0) =
     (if uint a < 0x80 then map_option (Cons (uint a)) (utf8_decode r0)
      else (case r0 of [] \<Rightarrow> None | b # r1 \<Rightarrow>
        if \<not> continuation b then None
        else if 0xC2 \<le> uint a \<and> uint a < 0xE0 then
          map_option (Cons (push_bit 6 (uint a AND 0x1F) OR cont_bits b)) (utf8_decode r1)
        else (case r1 of [] \<Rightarrow> None | c # r2 \<Rightarrow>
          if \<not> continuation c then None
          else if 0xE0 \<le> uint a \<and> uint a < 0xF0 then
            let v = push_bit 12 (uint a AND 0x0F) OR push_bit 6 (cont_bits b) OR cont_bits c
            in if v < 0x800 \<or> (0xD800 \<le> v \<and> v < 0xE000) then None
               else map_option (Cons v) (utf8_decode r2)
          else (case r2 of [] \<Rightarrow> None | d # r3 \<Rightarrow>
            if \<not> continuation d then None
            else if 0xF0 \<le> uint a \<and> uint a < 0xF5 then
              let v = push_bit 18 (uint a AND 0x07) OR push_bit 12 (cont_bits b)
                      OR push_bit 6 (cont_bits c) OR cont_bits d
              in if v < 0x10000 \<or> 0x10FFFF < v then None
                 else map_option (Cons v) (utf8_decode r3)
            else None))))"

text \<open>\<open>s.split(c)\<close> for a one-character separator, and \<open>s.partition(c)\<close> without its middle.\<close>

fun split_on :: "int \<Rightarrow> ustr \<Rightarrow> ustr list" where
  "split_on c [] = [[]]"
| "split_on c (x # xs) =
     (if x = c then [] # split_on c xs
      else (case split_on c xs of [] \<Rightarrow> [[x]] | s # ss \<Rightarrow> (x # s) # ss))"

definition partition_on :: "int \<Rightarrow> ustr \<Rightarrow> ustr \<times> ustr" where
  "partition_on c s = (takeWhile (\<lambda>x. x \<noteq> c) s, drop 1 (dropWhile (\<lambda>x. x \<noteq> c) s))"

definition SLASH :: int where "SLASH = 47"
definition DOT :: int where "DOT = 46"
definition NUL :: int where "NUL = 0"

definition is_digit :: "int \<Rightarrow> bool" where
  "is_digit c \<longleftrightarrow> 48 \<le> c \<and> c \<le> 57"

definition digits_value :: "ustr \<Rightarrow> int" where
  "digits_value ds = foldl (\<lambda>acc d. 10 * acc + (d - 48)) 0 ds"

text \<open>
  \<open>re.match(r"(\d+)\.(\d+)\.(\d+)", s)\<close> with the three groups as integers. The digits of the
  model are the ASCII ones; the groups are maximal, so no backtracking can help the match.
\<close>

definition match_number :: "ustr \<Rightarrow> (int \<times> ustr) option" where
  "match_number s =
     (let ds = takeWhile is_digit s
      in if ds = [] then None else Some (digits_value ds, dropWhile is_digit s))"

definition match_dot :: "ustr \<Rightarrow> ustr option" where
  "match_dot s = (case s of c # r \<Rightarrow> if c = DOT then Some r else None | [] \<Rightarrow> None)"

definition match_version :: "ustr \<Rightarrow> (int \<times> int \<times> int) option" where
  "match_version s =
     Option.bind (match_number s) (\<lambda>(a, s1). Option.bind (match_dot s1) (\<lambda>s2.
     Option.bind (match_number s2) (\<lambda>(b, s3). Option.bind (match_dot s3) (\<lambda>s4.
     Option.bind (match_number s4) (\<lambda>(c, _). Some (a, b, c))))))"

subsection \<open>\<open>VersionInfo\<close>\<close>

record version_info =
  vi_p :: int
  vi_physical_cpu_id :: int
  vi_y :: int
  vi_x :: int
  vi_build_date :: int
  vi_version_number :: "int \<times> int \<times> int"
  vi_name :: ustr
  vi_hardware :: ustr
  vi_version_string :: ustr

definition VERSION_PATTERN :: "fitem list" where
  [layout]: "VERSION_PATTERN = [FB, FB, FB, FB, FH, FH, FI]"

text \<open>Unpacking \<open>name, hardware = s.split("/")\<close> fails unless there are exactly two parts.\<close>

definition name_hardware :: "exc \<Rightarrow> ustr \<Rightarrow> (ustr \<times> ustr) res" where
  "name_hardware e s = (case split_on SLASH s of [n, h] \<Rightarrow> Inr (n, h) | _ \<Rightarrow> Inl e)"

definition parse_version_info :: "bytes \<Rightarrow> nat \<Rightarrow> version_info res" where
  "parse_version_info data offset =
     bind_res (struct_unpack_from Little VERSION_PATTERN data offset) (\<lambda>vs. case vs of
       [p, physical_cpu_id, y, x, _, version_no, build_date] \<Rightarrow>
         bind_res (require PyValueError (utf8_decode (slice (offset + 12) (length data - 1) data))) (\<lambda>s.
         if version_no < 0xFFFF then
           bind_res (name_hardware (InvalidParameter ''version_data'') s) (\<lambda>(n, h).
             Inr \<lparr>vi_p = p, vi_physical_cpu_id = physical_cpu_id, vi_y = y, vi_x = x,
                  vi_build_date = build_date,
                  vi_version_number = (version_no div 100, version_no mod 100, 0),
                  vi_name = n, vi_hardware = h, vi_version_string = s\<rparr>)
         else
           let (nh, version) = partition_on NUL s
           in bind_res (require (InvalidParameter ''version'') (match_version version)) (\<lambda>v.
              bind_res (name_hardware PyValueError nh) (\<lambda>(n, h).
              Inr \<lparr>vi_p = p, vi_physical_cpu_id = physical_cpu_id, vi_y = y, vi_x = x,
                   vi_build_date = build_date, vi_version_number = v,
                   vi_name = n, vi_hardware = h, vi_version_string = version\<rparr>)))
     | _ \<Rightarrow> Inl PyValueError)"

subsection \<open>\<open>ChipSummaryInfo\<close>\<close>

record chip_summary_info =
  csi_x :: int
  csi_y :: int
  csi_n_cores :: int
  csi_core_states :: "cpu_state list"
  csi_working_links :: "int list"
  csi_is_ethernet_available :: bool
  csi_n_free_multicast_routing_entries :: int
  csi_largest_free_sdram_block :: int
  csi_largest_free_sram_block :: int
  csi_nearest_ethernet_x :: int
  csi_nearest_ethernet_y :: int
  csi_ethernet_ip_address :: "(int \<times> int \<times> int \<times> int) option"
  csi_parent_link :: "int option"

text \<open>A list of conversions that stops at the first exception, as a comprehension does.\<close>

fun map_res :: "('a \<Rightarrow> 'b res) \<Rightarrow> 'a list \<Rightarrow> 'b list res" where
  "map_res f [] = Inr []"
| "map_res f (x # xs) = bind_res (f x) (\<lambda>y. bind_res (map_res f xs) (\<lambda>ys. Inr (y # ys)))"

definition CSI_THREE_WORDS :: "fitem list" where [layout]: "CSI_THREE_WORDS = [FI, FI, FI]"
definition EIGHTEEN_BYTES :: "fitem list" where [layout]: "EIGHTEEN_BYTES = replicate 18 FB"
definition TWO_BYTES :: "fitem list" where [layout]: "TWO_BYTES = [FB, FB]"
definition FOUR_BYTES :: "fitem list" where [layout]: "FOUR_BYTES = [FB, FB, FB, FB]"
definition ONE_SHORT :: "fitem list" where [layout]: "ONE_SHORT = [FH]"

text \<open>
  \<open>n_links\<close> is \<open>len(Machine.LINK_ADD_TABLE)\<close> of the \<open>spinn_machine\<close> package. The address is kept as
  its four numbers instead of their dotted text.
\<close>

definition parse_chip_summary_info ::
  "int \<Rightarrow> bytes \<Rightarrow> nat \<Rightarrow> int \<Rightarrow> int \<Rightarrow> chip_summary_info res" where
  "parse_chip_summary_info n_links data offset x y =
     bind_res (struct_unpack_from Little CSI_THREE_WORDS data offset) (\<lambda>ws. case ws of
       [flags, sdram, sram] \<Rightarrow>
         bind_res (struct_unpack_from Little EIGHTEEN_BYTES data (offset + 12)) (\<lambda>states.
         bind_res (map_res (enum_of cpu_state_members cpu_state_value) states) (\<lambda>core_states.
         bind_res (struct_unpack_from Little TWO_BYTES data (offset + 30)) (\<lambda>eth. case eth of
           [eth_y, eth_x] \<Rightarrow>
             bind_res (struct_unpack_from Little FOUR_BYTES data (offset + 32)) (\<lambda>ip. case ip of
               [ip0, ip1, ip2, ip3] \<Rightarrow>
                 bind_res (if length data > offset + 36
                           then bind_res (struct_unpack_from Little ONE_SHORT data (offset + 36)) (\<lambda>ps.
                                Inr (if hd ps > n_links then None else Some (hd ps)))
                           else Inr None) (\<lambda>parent.
                 Inr \<lparr>csi_x = x, csi_y = y, csi_n_cores = flags AND 0x1F,
                      csi_core_states = core_states,
                      csi_working_links =
                        filter (\<lambda>link. drop_bit (nat (8 + link)) flags AND 1 \<noteq> 0) [0, 1, 2, 3, 4, 5],
                      csi_is_ethernet_available = (flags AND push_bit 25 1 \<noteq> 0),
                      csi_n_free_multicast_routing_entries = drop_bit 14 flags AND 0x7FF,
                      csi_largest_free_sdram_block = sdram, csi_largest_free_sram_block = sram,
                      csi_nearest_ethernet_x = eth_x, csi_nearest_ethernet_y = eth_y,
                      csi_ethernet_ip_address =
                        (if (ip0, ip1, ip2, ip3) = (0, 0, 0, 0) then None else Some (ip0, ip1, ip2, ip3)),
                      csi_parent_link = parent\<rparr>)
             | _ \<Rightarrow> Inl PyValueError)
         | _ \<Rightarrow> Inl PyValueError)))
     | _ \<Rightarrow> Inl PyValueError)"

definition clear_ethernet_ip_address :: "chip_summary_info \<Rightarrow> chip_summary_info" where
  "clear_ethernet_ip_address c = c\<lparr>csi_ethernet_ip_address := None\<rparr>"

end
