(* ===== verification/Responses.thy ===== *)
theory Responses
  imports Requests ChipInfo
begin

text \<open>
  SCP responses: \<open>messages/scp/scp_response_header.py\<close>, \<open>abstract_messages/scp_response.py\<close>,
  \<open>bmp_response.py\<close> and the response classes of \<open>messages/scp/impl\<close>. \<open>read_bytestring\<close> reads the
  SDP header, the SCP header eight bytes later and then the class's own data, twelve bytes in.
\<close>

subsection \<open>Headers\<close>

record scp_response_header =
  rsp_result :: scp_result
  rsp_sequence :: int

definition SCP_HEADER_OFFSET :: nat where "SCP_HEADER_OFFSET = 8"
definition SCP_DATA_OFFSET :: nat where "SCP_DATA_OFFSET = 12"

definition scp_response_header_from_bytestring :: "bytes \<Rightarrow> nat \<Rightarrow> scp_response_header res" where
  "scp_response_header_from_bytestring data offset =
     bind_res (struct_unpack_from Little TWO_SHORTS data offset) (\<lambda>vs. case vs of
       [result, sequence] \<Rightarrow>
         bind_res (enum_of scp_result_members scp_result_value result) (\<lambda>r.
           Inr \<lparr>rsp_result = r, rsp_sequence = sequence\<rparr>)
     | _ \<Rightarrow> Inl PyValueError)"

subsection \<open>Response contents\<close>

record iptag_response =
  ipt_ip_address :: bytes
  ipt_mac_address :: bytes
  ipt_port :: int
  ipt_timeout :: int
  ipt_flags :: int
  ipt_count :: int
  ipt_rx_port :: int
  ipt_spin_chip_y :: int
  ipt_spin_chip_x :: int
  ipt_spin_port :: int
  ipt_spin_cpu :: int

definition ipt_in_use :: "iptag_response \<Rightarrow> bool" where
  "ipt_in_use t \<longleftrightarrow> ipt_flags t AND 0x8000 > 0"

definition ipt_is_temporary :: "iptag_response \<Rightarrow> bool" where
  "ipt_is_temporary t \<longleftrightarrow> ipt_flags t AND 0x4000 > 0"

definition ipt_is_arp :: "iptag_response \<Rightarrow> bool" where
  "ipt_is_arp t \<longleftrightarrow> ipt_flags t AND 0x2000 > 0"

definition ipt_is_reverse :: "iptag_response \<Rightarrow> bool" where
  "ipt_is_reverse t \<longleftrightarrow> ipt_flags t AND 0x0200 > 0"

definition ipt_strip_sdp :: "iptag_response \<Rightarrow> bool" where
  "ipt_strip_sdp t \<longleftrightarrow> ipt_flags t AND 0x0100 > 0"

text \<open>What each class holds once a packet has been read into it.\<close>

datatype response =
    RspOK
  | RspCount int
  | RspFixedRoute "int list" "int list"
  | RspChipInfo chip_summary_info
  | RspVersion version_info
  | RspIPTag sdp_header iptag_response
  | RspIPTagInfo int int int
  | RspRouterAlloc int
  | RspAlloc int
  | RspDeAlloc int
  | RspData bytes nat nat
  | RspFPGARegister int
  | RspADC "int list"

text \<open>\<open>_FixedRouteResponse.route\<close>: the processors and links of the entry.\<close>

definition fixed_route_of :: "int \<Rightarrow> int list \<times> int list" where
  "fixed_route_of route =
     (filter (\<lambda>p. route AND push_bit (nat (6 + p)) 1 \<noteq> 0) [0 .. 25],
      filter (\<lambda>l. route AND push_bit (nat l) 1 \<noteq> 0) [0 .. 5])"

definition IPTAG_FORMAT :: "fitem list" where
  [layout]: "IPTAG_FORMAT = [FS 4, FS 6, FH, FH, FH, FI, FH, FB, FB, FB]"

definition IPTAG_INFO_FORMAT :: "fitem list" where
  [layout]: "IPTAG_INFO_FORMAT = [FB, Fx, FB, FB]"

definition unpack_word :: "bytes \<Rightarrow> nat \<Rightarrow> int res" where
  "unpack_word data offset = bind_res (struct_unpack_from Little ONE_WORD data offset) (\<lambda>vs. Inr (hd vs))"

definition read_iptag :: "bytes \<Rightarrow> nat \<Rightarrow> iptag_response res" where
  "read_iptag data offset =
     bind_res (require StructError (unpack_from Little IPTAG_FORMAT data offset)) (\<lambda>vs. case vs of
       [VS ip, VS mac, VI port, VI timeout, VI flags, VI count, VI rx_port, VI chip_y, VI chip_x,
        VI processor_and_port] \<Rightarrow>
         Inr \<lparr>ipt_ip_address = ip, ipt_mac_address = mac, ipt_port = port, ipt_timeout = timeout,
              ipt_flags = flags, ipt_count = count, ipt_rx_port = rx_port,
              ipt_spin_chip_y = chip_y, ipt_spin_chip_x = chip_x,
              ipt_spin_port = drop_bit 5 processor_and_port AND 0x7,
              ipt_spin_cpu = processor_and_port AND 0x1F\<rparr>
     | _ \<Rightarrow> Inl PyValueError)"

definition unexpected :: "string \<Rightarrow> string \<Rightarrow> scp_result \<Rightarrow> scp_result set \<Rightarrow> 'a res \<Rightarrow> 'a res" where
  "unexpected op_name cmd result expected r =
     (if result \<in> expected then r else Inl (UnexpectedResponseCode op_name cmd result))"

text \<open>
  \<open>read_data_bytestring\<close> of each class, given what its constructor stored, the result code of the
  SCP header already read, and for chip information the SDP header: the result code is checked
  first, then the payload is unpacked.
\<close>

definition read_check_ok :: "string \<Rightarrow> string \<Rightarrow> scp_result \<Rightarrow> response res" where
  "read_check_ok op_name cmd result = unexpected op_name cmd result {RC_OK} (Inr RspOK)"

definition read_count_state :: "scp_result \<Rightarrow> bytes \<Rightarrow> nat \<Rightarrow> response res" where
  "read_count_state result data offset =
     unexpected ''CountState'' ''CMD_COUNT'' result {RC_OK, RC_P2P_NOREPLY}
       (bind_res (unpack_word data offset) (\<lambda>n. Inr (RspCount n)))"

definition read_fixed_route :: "scp_result \<Rightarrow> bytes \<Rightarrow> nat \<Rightarrow> response res" where
  "read_fixed_route result data offset =
     unexpected ''Read Fixed Route entry'' ''CMD_RTR'' result {RC_OK}
       (bind_res (unpack_word data offset) (\<lambda>r.
          let (ps, ls) = fixed_route_of r in Inr (RspFixedRoute ps ls)))"

definition read_chip_info :: "int \<Rightarrow> sdp_header \<Rightarrow> scp_result \<Rightarrow> bytes \<Rightarrow> nat \<Rightarrow> response res" where
  "read_chip_info n_links sdp result data offset =
     unexpected ''Version'' ''CMD_CHIP_INFO'' result {RC_OK}
       (bind_res (get_source_chip_x sdp) (\<lambda>x. bind_res (get_source_chip_y sdp) (\<lambda>y.
        bind_res (parse_chip_summary_info n_links data offset x y) (\<lambda>c. Inr (RspChipInfo c)))))"

definition read_version :: "scp_result \<Rightarrow> bytes \<Rightarrow> nat \<Rightarrow> response res" where
  "read_version result data offset =
     unexpected ''Version'' ''CMD_VER'' result {RC_OK}
       (bind_res (parse_version_info data offset) (\<lambda>v. Inr (RspVersion v)))"

definition read_iptag_get :: "sdp_header \<Rightarrow> scp_result \<Rightarrow> bytes \<Rightarrow> nat \<Rightarrow> response res" where
  "read_iptag_get sdp result data offset =
     unexpected ''Get IP Tag Info'' ''CMD_IPTAG'' result {RC_OK}
       (bind_res (read_iptag data offset) (\<lambda>t. Inr (RspIPTag sdp t)))"

definition read_iptag_get_info :: "scp_result \<Rightarrow> bytes \<Rightarrow> nat \<Rightarrow> response res" where
  "read_iptag_get_info result data offset =
     unexpected ''Get IP Tag Info'' ''CMD_IPTAG'' result {RC_OK}
       (bind_res (struct_unpack_from Little IPTAG_INFO_FORMAT data offset) (\<lambda>vs. case vs of
          [tto, pool, fixed] \<Rightarrow> Inr (RspIPTagInfo tto pool fixed) | _ \<Rightarrow> Inl PyValueError))"

definition read_router_alloc :: "scp_result \<Rightarrow> bytes \<Rightarrow> nat \<Rightarrow> response res" where
  "read_router_alloc result data offset =
     unexpected ''Router Allocation'' ''CMD_ALLOC'' result {RC_OK}
       (bind_res (unpack_word data offset) (\<lambda>a. Inr (RspRouterAlloc a)))"

definition read_alloc :: "scp_result \<Rightarrow> bytes \<Rightarrow> nat \<Rightarrow> response res" where
  "read_alloc result data offset =
     unexpected ''SDRAM Allocation'' ''CMD_ALLOC'' result {RC_OK}
       (bind_res (unpack_word data offset) (\<lambda>a.
          if a = 0 then Inl (InvalidParameter ''SDRAM Allocation response base address'')
          else Inr (RspAlloc a)))"

definition read_de_alloc :: "bool \<Rightarrow> scp_result \<Rightarrow> bytes \<Rightarrow> nat \<Rightarrow> response res" where
  "read_de_alloc read_n_blocks_freed result data offset =
     unexpected ''SDRAM deallocation'' ''CMD_DEALLOC'' result {RC_OK}
       (if \<not> read_n_blocks_freed then Inr (RspDeAlloc 0)
        else bind_res (unpack_word data offset) (\<lambda>n.
          if n = 0
          then Inl (UnexpectedResponseCode ''SDRAM deallocation response base address'' ''CMD_DEALLOC'' result)
          else Inr (RspDeAlloc n)))"

definition read_data :: "string \<Rightarrow> string \<Rightarrow> scp_result \<Rightarrow> bytes \<Rightarrow> nat \<Rightarrow> response res" where
  "read_data op_name cmd result data offset =
     unexpected op_name cmd result {RC_OK} (Inr (RspData data offset (length data - offset)))"

text \<open>\<open>BMPResponse\<close>: the result is checked, then the subclass parses the payload.\<close>

definition bmp_read :: "string \<Rightarrow> string \<Rightarrow> scp_result \<Rightarrow> response res \<Rightarrow> response res" where
  "bmp_read op_name cmd result payload = unexpected op_name cmd result {RC_OK} payload"

definition parse_bmp_version :: "bytes \<Rightarrow> nat \<Rightarrow> response res" where
  "parse_bmp_version data offset = bind_res (parse_version_info data offset) (\<lambda>v. Inr (RspVersion v))"

definition parse_fpga_register :: "bytes \<Rightarrow> nat \<Rightarrow> response res" where
  "parse_fpga_register data offset = bind_res (unpack_word data offset) (\<lambda>v. Inr (RspFPGARegister v))"

definition ADC_PATTERN :: "fitem list" where
  [layout]: "ADC_PATTERN = replicate 8 FH @ replicate 12 Fh @ [FI, FI]"

text \<open>The fields of the ADC data; \<open>ADCInfo\<close> scales them.\<close>

definition parse_adc :: "bytes \<Rightarrow> nat \<Rightarrow> response res" where
  "parse_adc data offset = bind_res (struct_unpack_from Little ADC_PATTERN data offset) (\<lambda>vs. Inr (RspADC vs))"

text \<open>The dynamic dispatch of \<open>response.read_data_bytestring\<close>.\<close>

fun read_data_bytestring ::
  "int \<Rightarrow> response_kind \<Rightarrow> sdp_header \<Rightarrow> scp_result \<Rightarrow> bytes \<Rightarrow> nat \<Rightarrow> response res" where
  "read_data_bytestring n_links (CheckOKResponse op_name cmd) sdp result data offset =
     read_check_ok op_name cmd result"
| "read_data_bytestring n_links CountStateResponse sdp result data offset =
     read_count_state result data offset"
| "read_data_bytestring n_links FixedRouteResponse sdp result data offset =
     read_fixed_route result data offset"
| "read_data_bytestring n_links GetChipInfoResponse sdp result data offset =
     read_chip_info n_links sdp result data offset"
| "read_data_bytestring n_links GetVersionResponse sdp result data offset =
     read_version result data offset"
| "read_data_bytestring n_links IPTagGetResponse sdp result data offset =
     read_iptag_get sdp result data offset"
| "read_data_bytestring n_links IPTagGetInfoResponse sdp result data offset =
     read_iptag_get_info result data offset"
| "read_data_bytestring n_links RouterAllocResponse sdp result data offset =
     read_router_alloc result data offset"
| "read_data_bytestring n_links (AllocResponse n_bytes) sdp result data offset =
     read_alloc result data offset"
| "read_data_bytestring n_links (DeAllocResponse read_n_blocks) sdp result data offset =
     read_de_alloc read_n_blocks result data offset"
| "read_data_bytestring n_links (ReadResponse op_name cmd) sdp result data offset =
     read_data op_name cmd result data offset"
| "read_data_bytestring n_links BMPVersionResponse sdp result data offset =
     bmp_read ''Read BMP version'' ''CMD_VER'' result (parse_bmp_version data offset)"
| "read_data_bytestring n_links (BMPOKResponse op_name cmd) sdp result data offset =
     bmp_read op_name cmd result (Inr RspOK)"
| "read_data_bytestring n_links ReadFPGARegisterResponse sdp result data offset =
     bmp_read ''Read FPGA register'' ''CMD_LINK_READ'' result (parse_fpga_register data offset)"
| "read_data_bytestring n_links ReadADCResponse sdp result data offset =
     bmp_read ''Read ADC'' ''CMD_BMP_INFO'' result (parse_adc data offset)"

definition read_bytestring :: "int \<Rightarrow> response_kind \<Rightarrow> bytes \<Rightarrow> nat \<Rightarrow> response res" where
  "read_bytestring n_links k data offset =
     bind_res (sdp_header_from_bytestring data offset) (\<lambda>sdp.
     bind_res (scp_response_header_from_bytestring data (SCP_HEADER_OFFSET + offset)) (\<lambda>scp.
       read_data_bytestring n_links k sdp (rsp_result scp) data (SCP_DATA_OFFSET + offset)))"

end
