(* ===== verification/Connection.thy ===== *)
theory Connection
  imports Responses
begin

text \<open>
  Connections (\<open>connections/udp_packet_connections\<close>): what \<open>SCAMPConnection\<close>, \<open>BMPConnection\<close> and
  \<open>SDPConnection\<close> put on the wire and read from it. The socket below them is outside the program:
  a datagram that arrives, a timeout or a failure is a \<open>recv\<close> value, and whether the n-th send
  succeeds is the oracle \<open>conn_faults\<close> of the connection. Every attempted send is logged.
\<close>

datatype recv =
    Datagram bytes
  | RecvTimeout
  | RecvFail exc

record scp_connection =
  conn_chip_x :: int
  conn_chip_y :: int
  conn_faults :: "nat \<Rightarrow> exc option"
  conn_attempts :: "bytes list"

text \<open>\<open>UDPConnection.send\<close>: the data goes out, or the oracle names the exception raised.\<close>

definition conn_send :: "scp_connection \<Rightarrow> bytes \<Rightarrow> scp_connection \<times> exc option" where
  "conn_send c data =
     (c\<lparr>conn_attempts := conn_attempts c @ [data]\<rparr>, conn_faults c (length (conn_attempts c)))"

definition TWO_SKIP :: bytes where "TWO_SKIP = [0, 0]"

text \<open>
  \<open>SCAMPConnection.get_scp_data(request)\<close> stamps the request's SDP header (in place) and serialises;
  for a \<open>BMPConnection\<close> the coordinates are zero.
\<close>

definition stamp_request :: "int \<Rightarrow> int \<Rightarrow> scp_request \<Rightarrow> scp_request" where
  "stamp_request x y r = r\<lparr>req_sdp := update_for_send x y (req_sdp r)\<rparr>"

definition get_scp_data :: "scp_connection \<Rightarrow> scp_request \<Rightarrow> scp_request \<times> bytes res" where
  "get_scp_data c r =
     (let r' = stamp_request (conn_chip_x c) (conn_chip_y c) r
      in (r', bind_res (scp_request_bytestring r') (\<lambda>bs. Inr (TWO_SKIP @ bs))))"

definition bmp_get_scp_data :: "scp_request \<Rightarrow> scp_request \<times> bytes res" where
  "bmp_get_scp_data r =
     (let r' = stamp_request 0 0 r
      in (r', bind_res (scp_request_bytestring r') (\<lambda>bs. Inr (TWO_SKIP @ bs))))"

definition udp_receive :: "recv \<Rightarrow> bytes res" where
  "udp_receive ev = (case ev of
      Datagram data \<Rightarrow> Inr data
    | RecvTimeout \<Rightarrow> Inl SpinnmanTimeout
    | RecvFail e \<Rightarrow> Inl e)"

text \<open>\<open>receive_scp_response\<close>: the result, the sequence number, the datagram and the offset 2.\<close>

definition receive_scp_response :: "recv \<Rightarrow> (scp_result \<times> int \<times> bytes \<times> nat) res" where
  "receive_scp_response ev =
     bind_res (udp_receive ev) (\<lambda>data.
     bind_res (struct_unpack_from Little TWO_SHORTS data 10) (\<lambda>vs. case vs of
       [result, sequence] \<Rightarrow>
         bind_res (enum_of scp_result_members scp_result_value result) (\<lambda>r.
           Inr (r, sequence, data, 2))
     | _ \<Rightarrow> Inl PyValueError))"

text \<open>\<open>SDPConnection\<close>: sending stamps the header with the chip only when a reply is expected.\<close>

record sdp_connection =
  sdpc_chip_x :: "int option"
  sdpc_chip_y :: "int option"

definition send_sdp_message :: "sdp_connection \<Rightarrow> sdp_message \<Rightarrow> (sdp_message \<times> bytes) res" where
  "send_sdp_message c m =
     (case (sdpc_chip_x c, sdpc_chip_y c) of
        (Some x, Some y) \<Rightarrow>
          let h = (if sdp_flags (sdpm_header m) = REPLY_EXPECTED
                   then update_for_send x y (sdpm_header m)
                   else update_for_send 0 0 (sdpm_header m));
              m' = m\<lparr>sdpm_header := h\<rparr>
          in bind_res (sdp_message_bytestring m') (\<lambda>bs. Inr (m', TWO_SKIP @ bs))
      | _ \<Rightarrow> Inl UnsupportedOperation)"

definition receive_sdp_message :: "recv \<Rightarrow> sdp_message res" where
  "receive_sdp_message ev = bind_res (udp_receive ev) (\<lambda>data. sdp_message_from_bytestring data 2)"

subsection \<open>The layout of a request\<close>

lemma TWO_SHORTS_pack:
  "struct_pack Little TWO_SHORTS [a, b] =
     (if 0 \<le> a \<and> a < 65536 \<and> 0 \<le> b \<and> b < 65536
      then Inr (le_bytes 2 a @ le_bytes 2 b) else Inl StructError)"
  by (simp add: struct_pack_def layout order_bytes_def)

lemma THREE_WORDS_pack:
  "struct_pack Little THREE_WORDS [a, b, c] =
     (if list_all (\<lambda>v. 0 \<le> v \<and> v < 2 ^ 32) [a, b, c]
      then Inr (le_bytes 4 a @ le_bytes 4 b @ le_bytes 4 c) else Inl StructError)"
  by (simp add: struct_pack_def layout order_bytes_def)

lemma scp_command_value_range [simp]: "0 \<le> scp_command_value c" "scp_command_value c < 65536"
  by (cases c; simp)+

definition word_range :: "int \<Rightarrow> bool" where
  "word_range v \<longleftrightarrow> 0 \<le> v \<and> v < 2 ^ 32"

definition request_payload :: "scp_request \<Rightarrow> bytes" where
  "request_payload r = (case req_data r of None \<Rightarrow> [] | Some d \<Rightarrow> d) @ req_extra r"

text \<open>When a request serialises: its header does, the sequence is a short and the arguments are words.\<close>

definition request_fields_ok :: "scp_request \<Rightarrow> bool" where
  "request_fields_ok r \<longleftrightarrow>
     0 \<le> scp_sequence (req_scp r) \<and> scp_sequence (req_scp r) < 65536 \<and>
     word_range (or_zero (req_argument_1 r)) \<and> word_range (or_zero (req_argument_2 r)) \<and>
     word_range (or_zero (req_argument_3 r))"

lemma scp_request_bytestring_split:
  "scp_request_bytestring r = Inr bs \<longleftrightarrow>
     (\<exists>h. sdp_header_bytestring (req_sdp r) = Inr h \<and> request_fields_ok r \<and>
        bs = h @ (le_bytes 2 (scp_command_value (scp_command (req_scp r)))
                  @ le_bytes 2 (scp_sequence (req_scp r)))
               @ (le_bytes 4 (or_zero (req_argument_1 r)) @ le_bytes 4 (or_zero (req_argument_2 r))
                  @ le_bytes 4 (or_zero (req_argument_3 r)))
               @ request_payload r)"
  by (auto simp: scp_request_bytestring_def scp_request_header_bytestring_def TWO_SHORTS_pack
      THREE_WORDS_pack request_fields_ok_def word_range_def request_payload_def split: if_splits)

lemma le_val_2 [simp]: "0 \<le> v \<Longrightarrow> v < 65536 \<Longrightarrow> le_val (le_bytes 2 v) = v"
  by (simp add: le_val_le_bytes)

lemma TWO_SHORTS_at:
  assumes "0 \<le> a" "a < 65536" "0 \<le> b" "b < 65536" "length pre = n"
  shows "struct_unpack_from Little TWO_SHORTS (pre @ le_bytes 2 a @ le_bytes 2 b @ post) n = Inr [a, b]"
  using struct_unpack_pack [of Little TWO_SHORTS "[a, b]" "le_bytes 2 a @ le_bytes 2 b" pre post] assms
  by (simp add: TWO_SHORTS_pack)

lemma THREE_WORDS_at:
  assumes "word_range a" "word_range b" "word_range c" "length pre = n"
  shows "struct_unpack_from Little THREE_WORDS
           (pre @ le_bytes 4 a @ le_bytes 4 b @ le_bytes 4 c @ post) n = Inr [a, b, c]"
  using struct_unpack_pack [of Little THREE_WORDS "[a, b, c]"
      "le_bytes 4 a @ le_bytes 4 b @ le_bytes 4 c" pre post] assms
  by (simp add: THREE_WORDS_pack word_range_def)

lemma scp_request_bytestring_total:
  "sdp_header_wf (req_sdp r) \<Longrightarrow> request_fields_ok r \<Longrightarrow> \<exists>bs. scp_request_bytestring r = Inr bs"
  using sdp_hdr.enc_total [of "req_sdp r"] by (auto simp: scp_request_bytestring_split)

lemma request_layout:
  assumes "scp_request_bytestring r = Inr bs" and "sdp_header_wf (req_sdp r)" and "length pre = n"
  shows "sdp_header_from_bytestring (pre @ bs) n = Inr (req_sdp r)"
    and "struct_unpack_from Little TWO_SHORTS (pre @ bs) (n + 8)
           = Inr [scp_command_value (scp_command (req_scp r)), scp_sequence (req_scp r)]"
    and "struct_unpack_from Little THREE_WORDS (pre @ bs) (n + 12)
           = Inr [or_zero (req_argument_1 r), or_zero (req_argument_2 r), or_zero (req_argument_3 r)]"
    and "drop (n + 24) (pre @ bs) = request_payload r"
proof -
  obtain h where h: "sdp_header_bytestring (req_sdp r) = Inr h" and f: "request_fields_ok r"
    and bs: "bs = h @ (le_bytes 2 (scp_command_value (scp_command (req_scp r)))
                  @ le_bytes 2 (scp_sequence (req_scp r)))
               @ (le_bytes 4 (or_zero (req_argument_1 r)) @ le_bytes 4 (or_zero (req_argument_2 r))
                  @ le_bytes 4 (or_zero (req_argument_3 r)))
               @ request_payload r"
    using assms(1) by (auto simp: scp_request_bytestring_split)
  have l: "length h = 8" by (rule length_sdp_header_bytestring [OF h])
  show "sdp_header_from_bytestring (pre @ bs) n = Inr (req_sdp r)"
    using sdp_hdr.dec_enc_at [OF assms(2) h assms(3)] by (simp add: bs)
  show "struct_unpack_from Little TWO_SHORTS (pre @ bs) (n + 8)
           = Inr [scp_command_value (scp_command (req_scp r)), scp_sequence (req_scp r)]"
    using TWO_SHORTS_at [of _ _ "pre @ h" "n + 8"] f l assms(3) by (simp add: bs request_fields_ok_def)
  show "struct_unpack_from Little THREE_WORDS (pre @ bs) (n + 12)
           = Inr [or_zero (req_argument_1 r), or_zero (req_argument_2 r), or_zero (req_argument_3 r)]"
    using THREE_WORDS_at [of _ _ _ "pre @ h @ le_bytes 2 (scp_command_value (scp_command (req_scp r)))
                  @ le_bytes 2 (scp_sequence (req_scp r))" "n + 12"] f l assms(3)
    by (simp add: bs request_fields_ok_def)
  show "drop (n + 24) (pre @ bs) = request_payload r"
    using l assms(3) by (simp add: bs)
qed

lemma get_scp_data_ok:
  assumes "sdp_destination_wf (req_sdp r)" and "request_fields_ok r"
    and "opt_in 0 255 (Some (conn_chip_x c))" and "opt_in 0 255 (Some (conn_chip_y c))"
  shows "\<exists>r' data. get_scp_data c r = (r', Inr data) \<and>
     req_sdp r' = update_for_send (conn_chip_x c) (conn_chip_y c) (req_sdp r) \<and>
     take 2 data = [0, 0] \<and>
     sdp_header_from_bytestring data 2 = Inr (req_sdp r') \<and>
     struct_unpack_from Little TWO_SHORTS data 10
       = Inr [scp_command_value (scp_command (req_scp r)), scp_sequence (req_scp r)] \<and>
     struct_unpack_from Little THREE_WORDS data 14
       = Inr [or_zero (req_argument_1 r), or_zero (req_argument_2 r), or_zero (req_argument_3 r)] \<and>
     drop 26 data = request_payload r"
proof -
  let ?r = "stamp_request (conn_chip_x c) (conn_chip_y c) r"
  have wf: "sdp_header_wf (req_sdp ?r)"
    using assms by (auto simp: stamp_request_def)
  have same: "req_scp ?r = req_scp r" "req_argument_1 ?r = req_argument_1 r"
    "req_argument_2 ?r = req_argument_2 r" "req_argument_3 ?r = req_argument_3 r"
    "request_payload ?r = request_payload r"
    by (simp_all add: stamp_request_def request_payload_def)
  then have "request_fields_ok ?r" using assms(2) by (simp add: request_fields_ok_def)
  with wf obtain bs where bs: "scp_request_bytestring ?r = Inr bs"
    using scp_request_bytestring_total by blast
  have "length TWO_SKIP = 2" by (simp add: TWO_SKIP_def)
  note l = request_layout [OF bs wf this, unfolded same]
  show ?thesis
  proof (intro exI conjI)
    show "get_scp_data c r = (?r, Inr (TWO_SKIP @ bs))"
      using bs by (simp add: get_scp_data_def Let_def)
    show "req_sdp ?r = update_for_send (conn_chip_x c) (conn_chip_y c) (req_sdp r)"
      by (simp add: stamp_request_def)
    show "take 2 (TWO_SKIP @ bs) = [0, 0]" by (simp add: TWO_SKIP_def)
  qed (use l in simp_all)
qed

text \<open>
  C8: what a SCAMP request looks like on the wire. For a request whose destination, sequence number
  and arguments are in range, \<open>get_scp_data\<close> gives two zero bytes, then an SDP header that reads back
  as the request's header stamped with the connection's chip, then the command and the sequence
  number (the two shorts at offset 10, where \<open>receive_scp_response\<close> looks for the result and the
  sequence of the reply), the three arguments with 0 for a missing one, and the payload at 26.
\<close>
theorem get_scp_data_layout:
  assumes "sdp_destination_wf (req_sdp r)" and "request_fields_ok r"
    and "opt_in 0 255 (Some (conn_chip_x c))" and "opt_in 0 255 (Some (conn_chip_y c))"
  shows "\<exists>r' data. get_scp_data c r = (r', Inr data) \<and>
     req_sdp r' = update_for_send (conn_chip_x c) (conn_chip_y c) (req_sdp r) \<and>
     take 2 data = [0, 0] \<and>
     sdp_header_from_bytestring data 2 = Inr (req_sdp r') \<and>
     struct_unpack_from Little TWO_SHORTS data 10
       = Inr [scp_command_value (scp_command (req_scp r)), scp_sequence (req_scp r)] \<and>
     struct_unpack_from Little THREE_WORDS data 14
       = Inr [or_zero (req_argument_1 r), or_zero (req_argument_2 r), or_zero (req_argument_3 r)] \<and>
     drop 26 data = request_payload r"
  by (rule get_scp_data_ok [OF assms])

text \<open>A concrete request: reading sixteen bytes of memory on chip (2, 5), over a connection to chip (0, 0).\<close>

definition sample_connection :: scp_connection where
  "sample_connection = \<lparr>conn_chip_x = 0, conn_chip_y = 0, conn_faults = (\<lambda>_. None), conn_attempts = []\<rparr>"

definition sample_request :: scp_request where
  "sample_request = abstract_scp_request (scamp_header 2 5 3) CMD_READ (Some 0x60000000) (Some 16)
     (Some 2) None (ReadResponse ''read memory'' ''CMD_READ'')"

lemma sample_request_ok:
  "sdp_destination_wf (req_sdp sample_request)" "request_fields_ok sample_request"
  by (simp_all add: sample_request_def abstract_scp_request_def scamp_header_def
      sdp_destination_wf_def request_fields_ok_def word_range_def or_zero_def)

theorem get_scp_data_layout_witness:
  "\<exists>r' data. get_scp_data sample_connection sample_request = (r', Inr data) \<and>
     struct_unpack_from Little TWO_SHORTS data 10 = Inr [2, 0] \<and>
     struct_unpack_from Little THREE_WORDS data 14 = Inr [0x60000000, 16, 2]"
  using get_scp_data_layout [OF sample_request_ok, of sample_connection]
  by (auto simp: sample_connection_def sample_request_def abstract_scp_request_def or_zero_def)

subsection \<open>Replies\<close>

text \<open>The datagram of a reply: two bytes of padding, the headers, the result's payload.\<close>

definition reply_datagram :: "sdp_header \<Rightarrow> scp_result \<Rightarrow> int \<Rightarrow> bytes \<Rightarrow> bytes res" where
  "reply_datagram h result sequence payload =
     bind_res (sdp_header_bytestring h) (\<lambda>hb.
     bind_res (struct_pack Little TWO_SHORTS [scp_result_value result, sequence]) (\<lambda>sb.
       Inr (TWO_SKIP @ hb @ sb @ payload)))"

lemma scp_result_value_range [simp]: "0 \<le> scp_result_value r" "scp_result_value r < 65536"
  by (cases r; simp)+

text \<open>\<open>receive_scp_response\<close> and the response header parsed at offset 2 look at the same bytes.\<close>

lemma receive_scp_response_agrees:
  "receive_scp_response (Datagram data) = Inr (r, s, raw, off) \<longleftrightarrow>
     scp_response_header_from_bytestring data (SCP_HEADER_OFFSET + 2)
       = Inr \<lparr>rsp_result = r, rsp_sequence = s\<rparr> \<and> raw = data \<and> off = 2"
proof (cases "struct_unpack_from Little TWO_SHORTS data 10")
  case (Inr vs)
  then show ?thesis
    by (auto simp: receive_scp_response_def scp_response_header_from_bytestring_def udp_receive_def
        SCP_HEADER_OFFSET_def split: list.split)
qed (simp add: receive_scp_response_def scp_response_header_from_bytestring_def udp_receive_def
    SCP_HEADER_OFFSET_def)

text \<open>
  C9: a reply is understood the way it was sent. For any well-formed SDP header, result code,
  16-bit sequence number and payload, the datagram is received as that result and sequence with
  offset 2, and a response of any class reads from it exactly the header, the result and (from
  offset 14) the payload.
\<close>
theorem reply_understood:
  assumes "sdp_header_wf h" and "0 \<le> sequence" and "sequence < 65536"
  shows "\<exists>data. reply_datagram h result sequence payload = Inr data \<and>
     receive_scp_response (Datagram data) = Inr (result, sequence, data, 2) \<and>
     drop 14 data = payload \<and> length data = 14 + length payload \<and>
     read_bytestring n_links k data 2 = read_data_bytestring n_links k h result data 14"
proof -
  obtain hb where hb: "sdp_header_bytestring h = Inr hb" using sdp_hdr.enc_total [OF assms(1)] by blast
  have l: "length hb = 8" by (rule length_sdp_header_bytestring [OF hb])
  let ?sb = "le_bytes 2 (scp_result_value result) @ le_bytes 2 sequence"
  let ?data = "TWO_SKIP @ hb @ ?sb @ payload"
  have "reply_datagram h result sequence payload = Inr ?data"
    using assms hb by (simp add: reply_datagram_def TWO_SHORTS_pack)
  moreover have u: "struct_unpack_from Little TWO_SHORTS ?data 10 = Inr [scp_result_value result, sequence]"
    using TWO_SHORTS_at [of "scp_result_value result" sequence "TWO_SKIP @ hb" 10 payload] assms l
    by (simp add: TWO_SKIP_def)
  moreover have "sdp_header_from_bytestring ?data 2 = Inr h"
    using sdp_hdr.dec_enc_at [OF assms(1) hb, of TWO_SKIP 2 "?sb @ payload"]
    by (simp add: TWO_SKIP_def)
  ultimately show ?thesis
    using l by (intro exI [of _ ?data])
      (simp add: receive_scp_response_def udp_receive_def read_bytestring_def enum_of_def
        scp_response_header_from_bytestring_def SCP_HEADER_OFFSET_def SCP_DATA_OFFSET_def TWO_SKIP_def)
qed

theorem reply_understood_witness:
  "\<exists>data. reply_datagram sample_header RC_OK 7 [1, 2, 3, 4] = Inr data \<and>
     receive_scp_response (Datagram data) = Inr (RC_OK, 7, data, 2) \<and>
     read_bytestring 6 (ReadResponse ''read memory'' ''CMD_READ'') data 2 = Inr (RspData data 14 4)"
  using reply_understood [OF sample_header_wf, of 7 RC_OK "[1, 2, 3, 4]" 6
      "ReadResponse ''read memory'' ''CMD_READ''"]
  by (auto simp: read_data_def unexpected_def)

end
