(* ===== verification/Pipeline.thy ===== *)
theory Pipeline
  imports Connection "HOL-Library.AList" "HOL-Library.Multiset"
begin

text \<open>
  \<open>connections/scp_request_pipeline.py\<close>: a window of SCP requests over one connection, with retries,
  timeouts and callbacks. The six dictionaries of the class are six fields, \<open>_requests\<close> in insertion
  order because the timeout handler iterates over it. The network is a list of \<open>recv\<close> events still to
  come, consumed one per receive; an operation that would block once the list is used up is
  \<open>Waiting\<close>. Callbacks act on a client state \<open>'w\<close>; \<open>rd\<close> is how the response object of a request
  reads a datagram (\<open>read_bytestring\<close> of \<open>Responses\<close> in the program).
\<close>

subsection \<open>State\<close>

type_synonym 'w callback = "response \<Rightarrow> 'w \<Rightarrow> 'w \<times> exc option"
type_synonym 'w error_callback = "scp_request \<Rightarrow> exc \<Rightarrow> 'w \<Rightarrow> 'w"
type_synonym reader = "response_kind \<Rightarrow> bytes \<Rightarrow> nat \<Rightarrow> response res"

record 'w pipeline =
  pl_connection :: scp_connection
  pl_n_channels :: "int option"
  pl_intermediate_channel_waits :: "int option"
  pl_n_retries :: int
  pl_non_fail_retry_codes :: "scp_result list"
  pl_requests :: "(int \<times> scp_request) list"
  pl_request_data :: "int \<rightharpoonup> bytes"
  pl_retries :: "int \<rightharpoonup> int"
  pl_callbacks :: "int \<rightharpoonup> 'w callback option"
  pl_error_callbacks :: "int \<rightharpoonup> 'w error_callback"
  pl_retry_reason :: "int \<rightharpoonup> string list"
  pl_in_progress :: int
  pl_n_timeouts :: int
  pl_n_resent :: int
  pl_n_retry_code_resent :: int
  pl_client :: 'w

definition MAX_SEQUENCE :: int where "MAX_SEQUENCE = 65536"

definition RETRY_CODES :: "scp_result list" where
  "RETRY_CODES = [RC_TIMEOUT, RC_P2P_TIMEOUT, RC_LEN, RC_P2P_NOREPLY, RC_P2P_BUSY]"

text \<open>\<open>str(result)\<close>, the reason recorded for a retry.\<close>

fun str_result :: "scp_result \<Rightarrow> string" where
  "str_result RC_OK = ''SCPResult.RC_OK''"
| "str_result RC_LEN = ''SCPResult.RC_LEN''"
| "str_result RC_SUM = ''SCPResult.RC_SUM''"
| "str_result RC_CMD = ''SCPResult.RC_CMD''"
| "str_result RC_ARG = ''SCPResult.RC_ARG''"
| "str_result RC_PORT = ''SCPResult.RC_PORT''"
| "str_result RC_TIMEOUT = ''SCPResult.RC_TIMEOUT''"
| "str_result RC_ROUTE = ''SCPResult.RC_ROUTE''"
| "str_result RC_CPU = ''SCPResult.RC_CPU''"
| "str_result RC_DEAD = ''SCPResult.RC_DEAD''"
| "str_result RC_BUF = ''SCPResult.RC_BUF''"
| "str_result RC_P2P_NOREPLY = ''SCPResult.RC_P2P_NOREPLY''"
| "str_result RC_P2P_REJECT = ''SCPResult.RC_P2P_REJECT''"
| "str_result RC_P2P_BUSY = ''SCPResult.RC_P2P_BUSY''"
| "str_result RC_P2P_TIMEOUT = ''SCPResult.RC_P2P_TIMEOUT''"
| "str_result RC_PKT_TX = ''SCPResult.RC_PKT_TX''"

definition pipeline_init ::
  "scp_connection \<Rightarrow> int option \<Rightarrow> int option \<Rightarrow> int \<Rightarrow> scp_result list option \<Rightarrow> 'w \<Rightarrow> 'w pipeline" where
  "pipeline_init conn n_channels waits n_retries non_fail w =
     \<lparr>pl_connection = conn, pl_n_channels = n_channels,
      pl_intermediate_channel_waits =
        (case (n_channels, waits) of
           (Some n, None) \<Rightarrow> Some (if n - 8 < 0 then 0 else n - 8)
         | _ \<Rightarrow> waits),
      pl_n_retries = n_retries,
      pl_non_fail_retry_codes = (case non_fail of None \<Rightarrow> [] | Some cs \<Rightarrow> cs),
      pl_requests = [], pl_request_data = Map.empty, pl_retries = Map.empty,
      pl_callbacks = Map.empty, pl_error_callbacks = Map.empty, pl_retry_reason = Map.empty,
      pl_in_progress = 0, pl_n_timeouts = 0, pl_n_resent = 0, pl_n_retry_code_resent = 0,
      pl_client = w\<rparr>"

definition get_next_sequence_number :: "int \<Rightarrow> int \<times> int" where
  "get_next_sequence_number next_seq = (next_seq, (next_seq + 1) mod MAX_SEQUENCE)"

subsection \<open>Statements that may raise\<close>

type_synonym 'w stmt = "'w pipeline \<Rightarrow> 'w pipeline \<times> exc option"

definition then_do :: "'w stmt \<Rightarrow> 'w stmt \<Rightarrow> 'w stmt" where
  "then_do f g p = (case f p of (p', None) \<Rightarrow> g p' | (p', Some e) \<Rightarrow> (p', Some e))"

text \<open>\<open>del d[seq]\<close>\<close>

definition del_key ::
  "('w pipeline \<Rightarrow> int \<rightharpoonup> 'b) \<Rightarrow> (((int \<rightharpoonup> 'b) \<Rightarrow> int \<rightharpoonup> 'b) \<Rightarrow> 'w pipeline \<Rightarrow> 'w pipeline) \<Rightarrow>
     int \<Rightarrow> 'w stmt" where
  "del_key get upd seq p =
     (case get p seq of None \<Rightarrow> (p, Some PyKeyError) | Some _ \<Rightarrow> (upd (\<lambda>m. m(seq := None)) p, None))"

definition remove_record :: "int \<Rightarrow> 'w stmt" where
  "remove_record seq =
     then_do (\<lambda>p. (p\<lparr>pl_requests := AList.delete seq (pl_requests p)\<rparr>, None))
     (then_do (del_key pl_request_data pl_request_data_update seq)
     (then_do (del_key pl_retries pl_retries_update seq)
     (then_do (del_key pl_callbacks pl_callbacks_update seq)
     (then_do (del_key pl_error_callbacks pl_error_callbacks_update seq)
              (del_key pl_retry_reason pl_retry_reason_update seq)))))"

text \<open>\<open>self._error_callbacks[seq](request_sent, e, ...)\<close>\<close>

definition call_error_callback :: "int \<Rightarrow> scp_request \<Rightarrow> exc \<Rightarrow> 'w stmt" where
  "call_error_callback seq req e p =
     (case pl_error_callbacks p seq of
        None \<Rightarrow> (p, Some PyKeyError)
      | Some ecb \<Rightarrow> (p\<lparr>pl_client := ecb req e (pl_client p)\<rparr>, None))"

definition wire_send :: "bytes \<Rightarrow> 'w stmt" where
  "wire_send data p =
     (let (c, err) = conn_send (pl_connection p) data in (p\<lparr>pl_connection := c\<rparr>, err))"

subsection \<open>Resending\<close>

definition add_reason :: "int \<Rightarrow> string \<Rightarrow> 'w stmt" where
  "add_reason seq reason p =
     (case pl_retry_reason p seq of
        None \<Rightarrow> (p, Some PyKeyError)
      | Some rs \<Rightarrow> (p\<lparr>pl_retry_reason := (pl_retry_reason p)(seq \<mapsto> rs @ [reason])\<rparr>, None))"

definition out_of_retries :: "int \<Rightarrow> 'w stmt" where
  "out_of_retries seq p =
     (p, Some (if list_all (\<lambda>r. r = ''timeout'') (the (pl_retry_reason p seq))
               then SpinnmanTimeout else SpinnmanIO))"

definition send_stored :: "int \<Rightarrow> 'w stmt" where
  "send_stored seq p =
     (case pl_request_data p seq of None \<Rightarrow> (p, Some PyKeyError) | Some d \<Rightarrow> wire_send d p)"

definition resend :: "int \<Rightarrow> scp_request \<Rightarrow> string \<Rightarrow> 'w stmt" where
  "resend seq request_sent reason p =
     (case pl_retries p seq of
        None \<Rightarrow> (p, Some PyKeyError)
      | Some n \<Rightarrow>
          if n \<le> 0 then then_do (add_reason seq reason) (out_of_retries seq) p
          else then_do (add_reason seq reason)
                 (then_do (send_stored seq) (\<lambda>p. (p\<lparr>pl_n_resent := pl_n_resent p + 1\<rparr>, None)))
                 (p\<lparr>pl_retries := (pl_retries p)(seq \<mapsto> n - 1),
                    pl_in_progress := pl_in_progress p + 1,
                    pl_requests := AList.update seq request_sent (pl_requests p)\<rparr>))"

subsection \<open>Receiving\<close>

definition fail_record :: "int \<Rightarrow> scp_request \<Rightarrow> exc \<Rightarrow> 'w stmt" where
  "fail_record seq req e = then_do (call_error_callback seq req e) (remove_record seq)"

text \<open>Reading the response and handing it to the callback, with everything that raises reported.\<close>

definition process_response :: "reader \<Rightarrow> int \<Rightarrow> scp_request \<Rightarrow> bytes \<Rightarrow> nat \<Rightarrow> 'w stmt" where
  "process_response rd seq req raw_data offset p =
     (case rd (req_response req) raw_data offset of
        Inl e \<Rightarrow> fail_record seq req e p
      | Inr response \<Rightarrow>
          (case pl_callbacks p seq of
             None \<Rightarrow> fail_record seq req PyKeyError p
           | Some None \<Rightarrow> remove_record seq p
           | Some (Some cb) \<Rightarrow>
               (case cb response (pl_client p) of
                  (w, None) \<Rightarrow> remove_record seq (p\<lparr>pl_client := w\<rparr>)
                | (w, Some e) \<Rightarrow> fail_record seq req e (p\<lparr>pl_client := w\<rparr>))))"

definition single_retrieve :: "reader \<Rightarrow> recv \<Rightarrow> 'w stmt" where
  "single_retrieve rd ev p =
     (case receive_scp_response ev of
        Inl e \<Rightarrow> (p, Some e)
      | Inr (result, seq, raw_data, offset) \<Rightarrow>
          (case map_of (pl_requests p) seq of
             None \<Rightarrow> (p, None)
           | Some request_sent \<Rightarrow>
               let p1 = p\<lparr>pl_in_progress := pl_in_progress p - 1\<rparr>
               in if result \<in> set RETRY_CODES then
                    (case resend seq request_sent (str_result result) p1 of
                       (p2, None) \<Rightarrow> (p2\<lparr>pl_n_retry_code_resent := pl_n_retry_code_resent p2 + 1\<rparr>, None)
                     | (p2, Some e) \<Rightarrow>
                         if result \<notin> set (pl_non_fail_retry_codes p2)
                         then fail_record seq request_sent e p2
                         else process_response rd seq request_sent raw_data offset p2)
                  else process_response rd seq request_sent raw_data offset p1))"

text \<open>
  The timeout handler: every request in the dictionary is resent, those that cannot be are reported
  and removed after the loop. The loop iterates over the items as they were when it started:
  resending only stores a request under its own, existing key.
\<close>

fun timeout_loop :: "(int \<times> scp_request) list \<Rightarrow> int list \<Rightarrow> 'w pipeline \<Rightarrow> 'w pipeline \<times> int list \<times> exc option" where
  "timeout_loop [] to_remove p = (p, to_remove, None)"
| "timeout_loop ((seq, request_sent) # items) to_remove p =
     (case resend seq request_sent ''timeout'' (p\<lparr>pl_in_progress := pl_in_progress p - 1\<rparr>) of
        (p1, None) \<Rightarrow> timeout_loop items to_remove p1
      | (p1, Some e) \<Rightarrow>
          (case call_error_callback seq request_sent e p1 of
             (p2, None) \<Rightarrow> timeout_loop items (to_remove @ [seq]) p2
           | (p2, Some e') \<Rightarrow> (p2, to_remove, Some e')))"

fun remove_all_records :: "int list \<Rightarrow> 'w stmt" where
  "remove_all_records [] p = (p, None)"
| "remove_all_records (seq # seqs) p = then_do (remove_record seq) (remove_all_records seqs) p"

definition handle_receive_timeout :: "'w stmt" where
  "handle_receive_timeout p =
     (let p0 = p\<lparr>pl_n_timeouts := pl_n_timeouts p + 1\<rparr>
      in case timeout_loop (pl_requests p0) [] p0 of
           (p1, to_remove, None) \<Rightarrow> remove_all_records to_remove p1
         | (p1, to_remove, Some e) \<Rightarrow> (p1, Some e))"

datatype ('a, 'e) outcome =
    Returned 'a "'e list"
  | Raised exc 'a "'e list"
  | Waiting 'a

text \<open>One turn of the loop of \<open>_do_retrieve\<close>: only a timeout is handled, other exceptions escape.\<close>

definition retrieve_step :: "reader \<Rightarrow> recv \<Rightarrow> 'w stmt" where
  "retrieve_step rd ev p =
     (case single_retrieve rd ev p of
        (p', Some SpinnmanTimeout) \<Rightarrow> handle_receive_timeout p'
      | r \<Rightarrow> r)"

fun do_retrieve :: "reader \<Rightarrow> int \<Rightarrow> 'w pipeline \<Rightarrow> recv list \<Rightarrow> ('w pipeline, recv) outcome" where
  "do_retrieve rd n_packets p [] =
     (if pl_in_progress p > n_packets then Waiting p else Returned p [])"
| "do_retrieve rd n_packets p (ev # evs) =
     (if pl_in_progress p > n_packets then
        (case retrieve_step rd ev p of
           (p', None) \<Rightarrow> do_retrieve rd n_packets p' evs
         | (p', Some e) \<Rightarrow> Raised e p' evs)
      else Returned p (ev # evs))"

subsection \<open>Sending\<close>

text \<open>The window is measured on the first send after a reply is ready, if it was not given.\<close>

definition measure_channels :: "bool \<Rightarrow> 'w pipeline \<Rightarrow> 'w pipeline" where
  "measure_channels ready p =
     (case pl_n_channels p of
        Some _ \<Rightarrow> p
      | None \<Rightarrow>
          if ready then
            let n = max 12 (pl_in_progress p + 8)
            in p\<lparr>pl_n_channels := Some n, pl_intermediate_channel_waits := Some (n - 8)\<rparr>
          else p)"

text \<open>
  \<open>while n_channels is not None and in_progress >= n_channels: _do_retrieve(waits)\<close>. Retrieving down
  to \<open>waits\<close> does nothing when \<open>waits\<close> is not below the window, and then the loop never ends: \<open>None\<close>.
\<close>

partial_function (option) drain ::
  "reader \<Rightarrow> 'w pipeline \<Rightarrow> recv list \<Rightarrow> ('w pipeline, recv) outcome option" where
  "drain rd p evs =
     (case pl_n_channels p of
        None \<Rightarrow> Some (Returned p evs)
      | Some n \<Rightarrow>
          if pl_in_progress p \<ge> n then
            (case pl_intermediate_channel_waits p of
               None \<Rightarrow> Some (Raised PyTypeError p evs)
             | Some waits \<Rightarrow>
                 (case do_retrieve rd waits p evs of
                    Returned p' evs' \<Rightarrow> drain rd p' evs'
                  | Raised e p' evs' \<Rightarrow> Some (Raised e p' evs')
                  | Waiting p' \<Rightarrow> Some (Waiting p')))
          else Some (Returned p evs))"

declare drain.simps [code]

definition set_sequence :: "int \<Rightarrow> scp_request \<Rightarrow> scp_request" where
  "set_sequence n r = r\<lparr>req_scp := (req_scp r)\<lparr>scp_sequence := n\<rparr>\<rparr>"

text \<open>Storing a request under its sequence number and sending it.\<close>

definition store_and_send ::
  "int \<Rightarrow> scp_request \<Rightarrow> 'w callback option \<Rightarrow> 'w error_callback \<Rightarrow> 'w stmt" where
  "store_and_send seq request callback error_callback p =
     (case get_scp_data (pl_connection p) (set_sequence seq request) of
        (request', Inl e) \<Rightarrow> (p, Some e)
      | (request', Inr request_data) \<Rightarrow>
          then_do (wire_send request_data) (\<lambda>p. (p\<lparr>pl_in_progress := pl_in_progress p + 1\<rparr>, None))
            (p\<lparr>pl_requests := AList.update seq request' (pl_requests p),
               pl_request_data := (pl_request_data p)(seq \<mapsto> request_data),
               pl_retries := (pl_retries p)(seq \<mapsto> pl_n_retries p),
               pl_callbacks := (pl_callbacks p)(seq \<mapsto> callback),
               pl_error_callbacks := (pl_error_callbacks p)(seq \<mapsto> error_callback),
               pl_retry_reason := (pl_retry_reason p)(seq \<mapsto> [])\<rparr>))"

text \<open>
  \<open>send_request\<close>; \<open>ready\<close> is what \<open>is_ready_to_receive\<close> answers and the global next sequence number
  is threaded through.
\<close>

definition send_request ::
  "reader \<Rightarrow> bool \<Rightarrow> scp_request \<Rightarrow> 'w callback option \<Rightarrow> 'w error_callback \<Rightarrow> 'w pipeline \<Rightarrow> int \<Rightarrow>
     recv list \<Rightarrow> ('w pipeline \<times> int, recv) outcome option" where
  "send_request rd ready request callback error_callback p next_seq evs =
     (case drain rd (measure_channels ready p) evs of
        None \<Rightarrow> None
      | Some (Raised e p' evs') \<Rightarrow> Some (Raised e (p', next_seq) evs')
      | Some (Waiting p') \<Rightarrow> Some (Waiting (p', next_seq))
      | Some (Returned p' evs') \<Rightarrow>
          (let (seq, next_seq') = get_next_sequence_number next_seq
           in case store_and_send seq request callback error_callback p' of
                (p'', None) \<Rightarrow> Some (Returned (p'', next_seq') evs')
              | (p'', Some e) \<Rightarrow> Some (Raised e (p'', next_seq') evs')))"

text \<open>\<open>finish\<close>: \<open>while in_progress > 0: _do_retrieve(0)\<close>.\<close>

partial_function (option) finish ::
  "reader \<Rightarrow> 'w pipeline \<Rightarrow> recv list \<Rightarrow> ('w pipeline, recv) outcome option" where
  "finish rd p evs =
     (if pl_in_progress p > 0 then
        (case do_retrieve rd 0 p evs of
           Returned p' evs' \<Rightarrow> finish rd p' evs'
         | Raised e p' evs' \<Rightarrow> Some (Raised e p' evs')
         | Waiting p' \<Rightarrow> Some (Waiting p'))
      else Some (Returned p evs))"

declare finish.simps [code]

end
