(* ===== verification/PipelineInv.thy ===== *)
theory PipelineInv
  imports Pipeline
begin

text \<open>
  How the pipeline evolves: the six dictionaries always have the same keys, records only disappear,
  what stays is unchanged apart from its retry count, and the only bytes ever sent again are the
  stored ones. \<open>evolves\<close> collects these facts once, as a transitive relation that every operation
  on a well-formed pipeline respects.
\<close>

subsection \<open>Well-formedness\<close>

definition seqs :: "'w pipeline \<Rightarrow> int list" where
  "seqs p = map fst (pl_requests p)"

definition pl_inv :: "'w pipeline \<Rightarrow> bool" where
  "pl_inv p \<longleftrightarrow> distinct (seqs p) \<and>
     dom (pl_request_data p) = set (seqs p) \<and> dom (pl_retries p) = set (seqs p) \<and>
     dom (pl_callbacks p) = set (seqs p) \<and> dom (pl_error_callbacks p) = set (seqs p) \<and>
     dom (pl_retry_reason p) = set (seqs p)"

text \<open>Responses outstanding without a request in the dictionary.\<close>

definition leak :: "'w pipeline \<Rightarrow> int" where
  "leak p = pl_in_progress p - int (length (seqs p))"

definition no_faults :: "'w pipeline \<Rightarrow> bool" where
  "no_faults p \<longleftrightarrow> (\<forall>i. conn_faults (pl_connection p) i = None)"

definition budget :: "'w pipeline \<Rightarrow> nat" where
  "budget p = (\<Sum>s \<in> set (seqs p). nat (the (pl_retries p s)))"

abbreviation attempts :: "'w pipeline \<Rightarrow> bytes list" where
  "attempts p \<equiv> conn_attempts (pl_connection p)"

definition static :: "'w pipeline \<Rightarrow> 'w pipeline \<Rightarrow> bool" where
  "static p p' \<longleftrightarrow>
     pl_n_channels p' = pl_n_channels p \<and>
     pl_intermediate_channel_waits p' = pl_intermediate_channel_waits p \<and>
     pl_n_retries p' = pl_n_retries p \<and> pl_non_fail_retry_codes p' = pl_non_fail_retry_codes p \<and>
     conn_faults (pl_connection p') = conn_faults (pl_connection p) \<and>
     conn_chip_x (pl_connection p') = conn_chip_x (pl_connection p) \<and>
     conn_chip_y (pl_connection p') = conn_chip_y (pl_connection p)"

definition evolves :: "'w pipeline \<Rightarrow> 'w pipeline \<Rightarrow> bool" where
  "evolves p p' \<longleftrightarrow> static p p' \<and> pl_inv p' \<and>
     set (seqs p') \<subseteq> set (seqs p) \<and>
     pl_requests p' = filter (\<lambda>r. fst r \<in> set (seqs p')) (pl_requests p) \<and>
     pl_callbacks p' = pl_callbacks p |` set (seqs p') \<and>
     pl_error_callbacks p' = pl_error_callbacks p |` set (seqs p') \<and>
     pl_request_data p' = pl_request_data p |` set (seqs p') \<and>
     (\<forall>s n'. pl_retries p' s = Some n' \<longrightarrow>
        (\<exists>n \<ge> n'. pl_retries p s = Some n \<and> (0 \<le> n \<longrightarrow> 0 \<le> n'))) \<and>
     (\<exists>sent. attempts p' = attempts p @ sent \<and> set sent \<subseteq> ran (pl_request_data p)) \<and>
     length (attempts p') + budget p' \<le> length (attempts p) + budget p"

lemma static_refl [simp]: "static p p"
  by (simp add: static_def)

lemma static_trans: "static p q \<Longrightarrow> static q r \<Longrightarrow> static p r"
  by (simp add: static_def)

lemma filter_fst_seqs [simp]: "filter (\<lambda>r. fst r \<in> set (seqs p)) (pl_requests p) = pl_requests p"
  by (rule filter_True) (auto simp: seqs_def)

lemma restrict_dom_eq [simp]: "dom m = A \<Longrightarrow> m |` A = m"
  by (auto simp: restrict_map_def domIff)

lemma evolves_refl [simp]: "pl_inv p \<Longrightarrow> evolves p p"
  by (auto simp: evolves_def pl_inv_def)

lemma evolvesD:
  assumes "evolves p q"
  shows "static p q" and "pl_inv q" and "set (seqs q) \<subseteq> set (seqs p)"
    and "pl_requests q = filter (\<lambda>r. fst r \<in> set (seqs q)) (pl_requests p)"
    and "pl_callbacks q = pl_callbacks p |` set (seqs q)"
    and "pl_error_callbacks q = pl_error_callbacks p |` set (seqs q)"
    and "pl_request_data q = pl_request_data p |` set (seqs q)"
    and "length (attempts q) + budget q \<le> length (attempts p) + budget p"
  using assms by (simp_all add: evolves_def)

lemma evolves_retries:
  "evolves p q \<Longrightarrow> pl_retries q s = Some n' \<Longrightarrow>
     \<exists>n \<ge> n'. pl_retries p s = Some n \<and> (0 \<le> n \<longrightarrow> 0 \<le> n')"
  by (simp add: evolves_def)

lemma evolves_sent:
  "evolves p q \<Longrightarrow> \<exists>sent. attempts q = attempts p @ sent \<and> set sent \<subseteq> ran (pl_request_data p)"
  by (simp add: evolves_def)

lemma restrict_twice: "B \<subseteq> A \<Longrightarrow> m |` A |` B = m |` B"
  by (auto simp: restrict_map_def fun_eq_iff)

lemma ran_restrict_subset: "ran (m |` A) \<subseteq> ran m"
  by (auto simp: ran_def restrict_map_def split: if_splits)

lemma evolves_trans [trans]:
  assumes "evolves p q" and "evolves q r"
  shows "evolves p r"
proof -
  note q = evolvesD [OF assms(1)] and r = evolvesD [OF assms(2)]
  from evolves_sent [OF assms(1)] evolves_sent [OF assms(2)] obtain s1 s2 where
    s: "attempts q = attempts p @ s1" "set s1 \<subseteq> ran (pl_request_data p)"
    "attempts r = attempts q @ s2" "set s2 \<subseteq> ran (pl_request_data q)" by blast
  have "ran (pl_request_data q) \<subseteq> ran (pl_request_data p)"
    by (subst q(7)) (rule ran_restrict_subset)
  with s have "attempts r = attempts p @ (s1 @ s2)" "set (s1 @ s2) \<subseteq> ran (pl_request_data p)"
    by auto
  then have sent: "\<exists>sent. attempts r = attempts p @ sent \<and> set sent \<subseteq> ran (pl_request_data p)"
    by blast
  have "pl_requests r = filter (\<lambda>x. fst x \<in> set (seqs r))
      (filter (\<lambda>x. fst x \<in> set (seqs q)) (pl_requests p))"
    using r(4) q(4) by simp
  also have "\<dots> = filter (\<lambda>x. fst x \<in> set (seqs r)) (pl_requests p)"
    using r(3) by (auto simp: filter_filter intro!: filter_cong)
  finally have req: "pl_requests r = filter (\<lambda>x. fst x \<in> set (seqs r)) (pl_requests p)" .
  have ret: "\<exists>n \<ge> n'. pl_retries p s = Some n \<and> (0 \<le> n \<longrightarrow> 0 \<le> n')"
    if n': "pl_retries r s = Some n'" for s n'
  proof -
    from evolves_retries [OF assms(2) n'] obtain k where
      "n' \<le> k" "pl_retries q s = Some k" "0 \<le> k \<longrightarrow> 0 \<le> n'" by blast
    with evolves_retries [OF assms(1), of s k] show ?thesis by (meson order_trans)
  qed
  have len: "length (attempts r) + budget r \<le> length (attempts p) + budget p"
    using q(8) r(8) by linarith
  show ?thesis
    unfolding evolves_def
    using static_trans [OF q(1) r(1)] r(2) order_trans [OF r(3) q(3)] req sent len
      r(5) [unfolded q(5) restrict_twice [OF r(3)]] r(6) [unfolded q(6) restrict_twice [OF r(3)]]
      r(7) [unfolded q(7) restrict_twice [OF r(3)]] ret
    by blast
qed

subsection \<open>Observing completions\<close>

text \<open>
  An observation \<open>obs\<close> of the client records, as a multiset of sequence numbers, which requests
  have completed: a callback adds its own number when it succeeds and nothing when it raises, an
  error callback always adds it.
\<close>

definition logs :: "('w \<Rightarrow> int multiset) \<Rightarrow> 'w pipeline \<Rightarrow> bool" where
  "logs obs p \<longleftrightarrow>
     (\<forall>s cb. pl_callbacks p s = Some cb \<longrightarrow> (\<exists>f. cb = Some f \<and>
        (\<forall>r w. obs (fst (f r w)) = (if snd (f r w) = None then {#s#} else {#}) + obs w))) \<and>
     (\<forall>s ecb. pl_error_callbacks p s = Some ecb \<longrightarrow>
        (\<forall>req e w. obs (ecb req e w) = {#s#} + obs w))"

definition completions :: "('w \<Rightarrow> int multiset) \<Rightarrow> 'w pipeline \<Rightarrow> int multiset" where
  "completions obs p = obs (pl_client p) + mset (seqs p)"

text \<open>What an operation does to the records, the completions and the count of outstanding responses.\<close>

definition conserves :: "'w pipeline \<Rightarrow> 'w pipeline \<Rightarrow> bool" where
  "conserves p p' \<longleftrightarrow> (\<forall>obs. logs obs p \<longrightarrow> completions obs p' = completions obs p)"

definition leaks :: "int \<Rightarrow> 'w pipeline \<Rightarrow> 'w pipeline \<Rightarrow> bool" where
  "leaks d p p' \<longleftrightarrow> leak p + d \<le> leak p' \<and> (no_faults p \<longrightarrow> leak p' = leak p + d)"

lemma logs_callback:
  assumes "logs obs p" and "pl_callbacks p s = Some (Some f)" and "f r w = (w', err)"
  shows "obs w' = (if err = None then {#s#} else {#}) + obs w"
proof -
  from assms(1,2) have "obs (fst (f r w)) = (if snd (f r w) = None then {#s#} else {#}) + obs w"
    unfolding logs_def by blast
  then show ?thesis by (simp add: assms(3))
qed

lemma logs_error_callback:
  "logs obs p \<Longrightarrow> pl_error_callbacks p s = Some ecb \<Longrightarrow> obs (ecb req e w) = {#s#} + obs w"
  unfolding logs_def by blast

lemma evolves_logs: "evolves p q \<Longrightarrow> logs obs p \<Longrightarrow> logs obs q"
  using evolvesD(5,6) [of p q] by (simp add: logs_def restrict_map_def split: if_splits)

lemma evolves_no_faults: "evolves p q \<Longrightarrow> no_faults q = no_faults p"
  by (simp add: evolves_def static_def no_faults_def)

lemma conserves_refl [simp]: "conserves p p"
  by (simp add: conserves_def)

lemma conserves_trans: "conserves p q \<Longrightarrow> evolves p q \<Longrightarrow> conserves q r \<Longrightarrow> conserves p r"
  using evolves_logs by (fastforce simp: conserves_def)

lemma leaks_refl [simp]: "leaks 0 p p"
  by (simp add: leaks_def)

lemma leaks_trans:
  "leaks d p q \<Longrightarrow> evolves p q \<Longrightarrow> leaks d' q r \<Longrightarrow> leaks (d + d') p r"
  using evolves_no_faults [of p q] by (auto simp: leaks_def)

subsection \<open>Removing a record\<close>

definition removed :: "int \<Rightarrow> 'w pipeline \<Rightarrow> 'w pipeline" where
  "removed s p = p\<lparr>pl_requests := AList.delete s (pl_requests p),
     pl_request_data := (pl_request_data p)(s := None), pl_retries := (pl_retries p)(s := None),
     pl_callbacks := (pl_callbacks p)(s := None),
     pl_error_callbacks := (pl_error_callbacks p)(s := None),
     pl_retry_reason := (pl_retry_reason p)(s := None)\<rparr>"

lemma pl_inv_records:
  assumes "pl_inv p" and "s \<in> set (seqs p)"
  obtains req d n cb ecb rs where
    "map_of (pl_requests p) s = Some req" "pl_request_data p s = Some d" "pl_retries p s = Some n"
    "pl_callbacks p s = Some cb" "pl_error_callbacks p s = Some ecb" "pl_retry_reason p s = Some rs"
proof -
  have "map_of (pl_requests p) s \<noteq> None" using assms(2) by (simp add: seqs_def map_of_eq_None_iff)
  moreover have "s \<in> dom (pl_request_data p)" "s \<in> dom (pl_retries p)" "s \<in> dom (pl_callbacks p)"
    "s \<in> dom (pl_error_callbacks p)" "s \<in> dom (pl_retry_reason p)"
    using assms by (simp_all only: pl_inv_def)
  ultimately show thesis using that by (auto simp: dom_def)
qed

lemma remove_record_eq:
  assumes "pl_inv p" and "s \<in> set (seqs p)"
  shows "remove_record s p = (removed s p, None)"
  using assms
  by (rule pl_inv_records)
    (simp add: remove_record_def then_do_def del_key_def removed_def)

lemma removed_fields [simp]:
  "pl_request_data (removed s p) = (pl_request_data p)(s := None)"
  "pl_retries (removed s p) = (pl_retries p)(s := None)"
  "pl_callbacks (removed s p) = (pl_callbacks p)(s := None)"
  "pl_error_callbacks (removed s p) = (pl_error_callbacks p)(s := None)"
  "pl_retry_reason (removed s p) = (pl_retry_reason p)(s := None)"
  "pl_connection (removed s p) = pl_connection p"
  "pl_in_progress (removed s p) = pl_in_progress p"
  "pl_client (removed s p) = pl_client p"
  "pl_requests (removed s p) = filter (\<lambda>r. fst r \<noteq> s) (pl_requests p)"
  by (auto simp: removed_def AList.delete_eq intro!: filter_cong)

lemma seqs_removed [simp]: "seqs (removed s p) = removeAll s (seqs p)"
  by (simp add: seqs_def removeAll_filter_not_eq filter_map o_def eq_commute)

lemma removed_static [simp]: "static p (removed s p)"
  by (simp add: removed_def static_def)

lemma removed_inv: "pl_inv p \<Longrightarrow> pl_inv (removed s p)"
  by (auto simp: pl_inv_def distinct_removeAll)

lemma removed_budget: "budget (removed s p) \<le> budget p"
proof -
  have "budget (removed s p) = (\<Sum>x \<in> set (seqs p) - {s}. nat (the (pl_retries p x)))"
    unfolding budget_def by (rule sum.cong) auto
  also have "\<dots> \<le> budget p"
    unfolding budget_def by (rule sum_mono2) auto
  finally show ?thesis .
qed

lemma drop_key: "dom m = A \<Longrightarrow> m(s := None) = m |` (A - {s})"
  by (auto simp: fun_eq_iff restrict_map_def domIff)

lemma removed_evolves:
  assumes "pl_inv p"
  shows "evolves p (removed s p)"
proof -
  have d: "dom (pl_callbacks p) = set (seqs p)" "dom (pl_error_callbacks p) = set (seqs p)"
    "dom (pl_request_data p) = set (seqs p)" using assms by (simp_all add: pl_inv_def)
  have "pl_requests (removed s p) = filter (\<lambda>r. fst r \<in> set (seqs (removed s p))) (pl_requests p)"
    by (auto simp: seqs_def intro!: filter_cong)
  then show ?thesis
    unfolding evolves_def
    using removed_inv [OF assms] removed_budget [of s p]
      drop_key [OF d(1)] drop_key [OF d(2)] drop_key [OF d(3)]
    by auto
qed

lemma removeAll_distinct: "distinct xs \<Longrightarrow> removeAll s xs = remove1 s xs"
  by (simp add: distinct_remove1_removeAll)

lemma removed_leaks: "pl_inv p \<Longrightarrow> s \<in> set (seqs p) \<Longrightarrow> leaks 1 p (removed s p)"
proof -
  assume "pl_inv p" and s: "s \<in> set (seqs p)"
  then have "length (seqs (removed s p)) = length (seqs p) - 1"
    by (simp add: pl_inv_def removeAll_distinct length_remove1)
  moreover have "0 < length (seqs p)" using s by (cases "seqs p") auto
  ultimately have "int (length (seqs (removed s p))) = int (length (seqs p)) - 1" by arith
  then show ?thesis by (simp add: leaks_def leak_def del: seqs_removed)
qed

lemma mset_removed:
  "pl_inv p \<Longrightarrow> s \<in> set (seqs p) \<Longrightarrow> mset (seqs p) = {#s#} + mset (seqs (removed s p))"
  by (simp add: pl_inv_def removeAll_distinct)

subsection \<open>Failing, completing and resending one request\<close>

text \<open>The two shapes of an operation on one outstanding record: it is completed, or kept.\<close>

definition completes :: "int \<Rightarrow> 'w pipeline \<Rightarrow> 'w pipeline \<Rightarrow> bool" where
  "completes s p p' \<longleftrightarrow> evolves p p' \<and> leaks 1 p p' \<and> conserves p p' \<and>
     seqs p' = removeAll s (seqs p) \<and> pl_retries p' = (pl_retries p)(s := None)"

lemma set_client_evolves:
  "pl_inv p \<Longrightarrow> evolves p (p\<lparr>pl_client := w\<rparr>)"
  by (auto simp: evolves_def static_def pl_inv_def seqs_def budget_def intro!: filter_True[symmetric])

lemma completesI:
  assumes inv: "pl_inv p" and s: "s \<in> set (seqs p)"
    and obs: "\<And>obs. logs obs p \<Longrightarrow> obs w = {#s#} + obs (pl_client p)"
  shows "completes s p (removed s (p\<lparr>pl_client := w\<rparr>))"
proof -
  let ?q = "p\<lparr>pl_client := w\<rparr>"
  have q: "pl_inv ?q" "seqs ?q = seqs p" "s \<in> set (seqs ?q)" "leak ?q = leak p" "no_faults ?q = no_faults p"
    using inv s by (auto simp: pl_inv_def seqs_def leak_def no_faults_def)
  have "evolves p (removed s ?q)"
    by (rule evolves_trans [OF set_client_evolves [OF inv] removed_evolves [OF q(1)]])
  moreover have "leaks 1 p (removed s ?q)"
    using removed_leaks [OF q(1,3)] q by (simp add: leaks_def)
  moreover have "conserves p (removed s ?q)"
    unfolding conserves_def completions_def
    using mset_removed [OF inv s] obs q(2) by auto
  ultimately show ?thesis using q(2) by (simp add: completes_def)
qed

lemma fail_record_eq:
  assumes "pl_inv p" and "s \<in> set (seqs p)" and "pl_error_callbacks p s = Some ecb"
  shows "fail_record s req e p = (removed s (p\<lparr>pl_client := ecb req e (pl_client p)\<rparr>), None)"
proof -
  let ?q = "p\<lparr>pl_client := ecb req e (pl_client p)\<rparr>"
  have "pl_inv ?q" "s \<in> set (seqs ?q)" using assms by (auto simp: pl_inv_def seqs_def)
  then show ?thesis
    using assms by (simp add: fail_record_def then_do_def call_error_callback_def remove_record_eq)
qed

lemma set_client_facts [simp]:
  "pl_inv (p\<lparr>pl_client := w\<rparr>) = pl_inv p" "seqs (p\<lparr>pl_client := w\<rparr>) = seqs p"
  by (auto simp: pl_inv_def seqs_def)

lemma fail_record_completes:
  assumes "pl_inv p" and "s \<in> set (seqs p)"
  shows "\<exists>p'. fail_record s req e p = (p', None) \<and> completes s p p'"
proof -
  from assms obtain ecb where ecb: "pl_error_callbacks p s = Some ecb" by (rule pl_inv_records)
  have "completes s p (removed s (p\<lparr>pl_client := ecb req e (pl_client p)\<rparr>))"
    using assms by (intro completesI) (simp_all add: logs_error_callback [OF _ ecb])
  with fail_record_eq [OF assms ecb] show ?thesis by blast
qed

text \<open>Reading the response: whatever the reader and the callback do, the record is completed.\<close>

lemma process_response_completes:
  assumes inv: "pl_inv p" and s: "s \<in> set (seqs p)"
  shows "\<exists>p'. process_response rd s req raw off p = (p', None) \<and> completes s p p'"
proof (cases "rd (req_response req) raw off")
  case (Inl e)
  with fail_record_completes [OF assms, of req e] show ?thesis by (auto simp: process_response_def)
next
  case (Inr r)
  from assms obtain cb ecb where cb: "pl_callbacks p s = Some cb"
    and ecb: "pl_error_callbacks p s = Some ecb" by (rule pl_inv_records)
  show ?thesis
  proof (cases cb)
    case None
    have "completes s p (removed s (p\<lparr>pl_client := pl_client p\<rparr>))"
      using assms cb None by (intro completesI) (auto simp: logs_def)
    then show ?thesis using Inr cb None remove_record_eq [OF assms] by (simp add: process_response_def)
  next
    case (Some f)
    obtain w err where f: "f r (pl_client p) = (w, err)" by fastforce
    show ?thesis
    proof (cases err)
      case None
      have "obs w = {#s#} + obs (pl_client p)" if "logs obs p" for obs
        using logs_callback [OF that, of s f r] cb Some f None by simp
      then have "completes s p (removed s (p\<lparr>pl_client := w\<rparr>))"
        using assms by (intro completesI) auto
      then show ?thesis using Inr cb Some f None assms
        by (simp add: process_response_def remove_record_eq)
    next
      case err: (Some e)
      have "obs w = obs (pl_client p)" if "logs obs p" for obs
        using logs_callback [OF that, of s f r] cb Some f err by simp
      then have "completes s p (removed s (p\<lparr>pl_client := ecb req e w\<rparr>))"
        using assms by (intro completesI) (simp_all add: logs_error_callback [OF _ ecb])
      moreover have "process_response rd s req raw off p = fail_record s req e (p\<lparr>pl_client := w\<rparr>)"
        using Inr cb Some f err by (simp add: process_response_def)
      ultimately show ?thesis
        using fail_record_eq [of "p\<lparr>pl_client := w\<rparr>" s ecb req e] assms ecb by auto
    qed
  qed
qed

text \<open>Operations that keep every record: only counters, retry counts, reasons and the wire change.\<close>

definition keeps :: "'w pipeline \<Rightarrow> 'w pipeline \<Rightarrow> bool" where
  "keeps p q \<longleftrightarrow> evolves p q \<and> conserves p q \<and> seqs q = seqs p \<and> pl_client q = pl_client p \<and>
     pl_requests q = pl_requests p \<and> pl_callbacks q = pl_callbacks p \<and>
     pl_error_callbacks q = pl_error_callbacks p"

lemma keeps_refl: "pl_inv p \<Longrightarrow> keeps p p"
  by (simp add: keeps_def)

lemma keeps_trans: "keeps p q \<Longrightarrow> keeps q r \<Longrightarrow> keeps p r"
  unfolding keeps_def using evolves_trans conserves_trans by metis

lemma keepsI:
  assumes inv: "pl_inv p" and st: "static p q"
    and same: "pl_requests q = pl_requests p" "pl_request_data q = pl_request_data p"
      "pl_callbacks q = pl_callbacks p" "pl_error_callbacks q = pl_error_callbacks p"
      "pl_client q = pl_client p"
    and dom: "dom (pl_retries q) = dom (pl_retries p)" "dom (pl_retry_reason q) = dom (pl_retry_reason p)"
    and ret: "\<And>s n'. pl_retries q s = Some n' \<Longrightarrow>
        \<exists>n \<ge> n'. pl_retries p s = Some n \<and> (0 \<le> n \<longrightarrow> 0 \<le> n')"
    and sent: "\<exists>sent. attempts q = attempts p @ sent \<and> set sent \<subseteq> ran (pl_request_data p)"
    and len: "length (attempts q) + budget q \<le> length (attempts p) + budget p"
  shows "keeps p q"
proof -
  have sq: "seqs q = seqs p" using same by (simp add: seqs_def)
  have "pl_inv q" using inv same dom sq by (simp add: pl_inv_def)
  moreover have "m |` set (seqs p) = m" if "dom m = set (seqs p)" for m :: "int \<rightharpoonup> 'x"
    using that by simp
  ultimately have "evolves p q"
    using inv st same sent len ret unfolding evolves_def sq by (auto simp: pl_inv_def)
  moreover have "conserves p q" using same sq by (simp add: conserves_def completions_def)
  ultimately show ?thesis using same sq by (simp add: keeps_def)
qed

lemma keeps_admin:
  assumes inv: "pl_inv p"
  shows "keeps p (p\<lparr>pl_in_progress := a\<rparr>)" and "keeps p (p\<lparr>pl_n_timeouts := a\<rparr>)"
    and "keeps p (p\<lparr>pl_n_resent := a\<rparr>)" and "keeps p (p\<lparr>pl_n_retry_code_resent := a\<rparr>)"
  by (rule keepsI [OF inv]; auto simp: static_def budget_def seqs_def)+

lemma keepsD:
  assumes "keeps p q"
  shows "evolves p q" and "conserves p q" and "seqs q = seqs p" and "pl_client q = pl_client p"
    and "pl_requests q = pl_requests p" and "pl_inv q"
    and "pl_callbacks q = pl_callbacks p" and "pl_error_callbacks q = pl_error_callbacks p"
  using assms evolvesD(2) by (auto simp: keeps_def)

lemma update_same: "map_of xs k = Some v \<Longrightarrow> AList.update k v xs = xs"
  by (induction xs) auto

lemma budget_spend:
  assumes "s \<in> set (seqs p)" and "pl_retries p s = Some n" and "0 < n" and "seqs q = seqs p"
    and "pl_retries q = (pl_retries p)(s \<mapsto> n - 1)"
  shows "Suc (budget q) = budget p"
proof -
  have "budget q = nat (n - 1) + (\<Sum>x \<in> set (seqs p) - {s}. nat (the (pl_retries p x)))"
    unfolding budget_def assms(4) using assms(1,5) by (subst sum.remove [of _ s]) (auto intro!: sum.cong)
  moreover have "budget p = nat n + (\<Sum>x \<in> set (seqs p) - {s}. nat (the (pl_retries p x)))"
    unfolding budget_def using assms(1,2) by (subst sum.remove [of _ s]) auto
  ultimately show ?thesis using assms(3) by simp
qed

subsection \<open>Resending\<close>

text \<open>When no retries are left: an error, a timeout exactly when every reason was a timeout.\<close>

lemma resend_exhausted:
  assumes "pl_inv p" and "s \<in> set (seqs p)" and "pl_retries p s = Some n" and "n \<le> 0"
    and "pl_retry_reason p s = Some rs"
  shows "resend s req reason p =
     (p\<lparr>pl_retry_reason := (pl_retry_reason p)(s \<mapsto> rs @ [reason])\<rparr>,
      Some (if list_all (\<lambda>r. r = ''timeout'') (rs @ [reason]) then SpinnmanTimeout else SpinnmanIO))"
  using assms by (simp add: resend_def then_do_def add_reason_def out_of_retries_def)

definition resent :: "int \<Rightarrow> int \<Rightarrow> string list \<Rightarrow> bytes \<Rightarrow> 'w pipeline \<Rightarrow> 'w pipeline" where
  "resent s n rs d p = p\<lparr>pl_retries := (pl_retries p)(s \<mapsto> n - 1),
     pl_in_progress := pl_in_progress p + 1,
     pl_retry_reason := (pl_retry_reason p)(s \<mapsto> rs),
     pl_connection := (pl_connection p)\<lparr>conn_attempts := attempts p @ [d]\<rparr>\<rparr>"

lemma resend_again:
  assumes "map_of (pl_requests p) s = Some req" and "pl_retries p s = Some n" and "0 < n"
    and "pl_retry_reason p s = Some rs" and "pl_request_data p s = Some d"
  shows "resend s req reason p =
     (case conn_faults (pl_connection p) (length (attempts p)) of
        Some e \<Rightarrow> (resent s n (rs @ [reason]) d p, Some e)
      | None \<Rightarrow> ((resent s n (rs @ [reason]) d p)\<lparr>pl_n_resent := pl_n_resent p + 1\<rparr>, None))"
  using assms
  by (simp add: resend_def then_do_def add_reason_def send_stored_def wire_send_def conn_send_def
      update_same resent_def split: option.split)

lemma resent_keeps:
  assumes "pl_inv p" and "s \<in> set (seqs p)" and n: "pl_retries p s = Some n" and "0 < n"
    and "pl_retry_reason p s = Some rs" and d: "pl_request_data p s = Some d"
  shows "keeps p (resent s n rs' d p)"
proof (rule keepsI)
  have "Suc (budget (resent s n rs' d p)) = budget p"
    by (rule budget_spend [OF assms(2) n assms(4)]) (simp_all add: resent_def seqs_def)
  then show "length (attempts (resent s n rs' d p)) + budget (resent s n rs' d p)
      \<le> length (attempts p) + budget p"
    by (simp add: resent_def)
  show "\<exists>sent. attempts (resent s n rs' d p) = attempts p @ sent \<and> set sent \<subseteq> ran (pl_request_data p)"
    using d by (intro exI [of _ "[d]"]) (auto simp: resent_def ran_def)
qed (use assms in \<open>auto simp: resent_def static_def split: if_splits\<close>)

lemma leak_progress [simp]:
  "leak (p\<lparr>pl_in_progress := a\<rparr>) = a - int (length (seqs p))"
  "leak (p\<lparr>pl_n_resent := b\<rparr>) = leak p"
  "leak (p\<lparr>pl_n_retry_code_resent := b\<rparr>) = leak p"
  "leak (p\<lparr>pl_n_timeouts := b\<rparr>) = leak p"
  by (simp_all add: leak_def seqs_def)

text \<open>
  Resending an outstanding request. Without an error the response is outstanding again and one
  retry is spent. With an error nothing is lost but, when it was the send that failed, the
  response stays counted as outstanding.
\<close>

lemma resend_effect:
  assumes inv: "pl_inv p" and s: "s \<in> set (seqs p)" and req: "map_of (pl_requests p) s = Some req"
  shows "\<exists>q err. resend s req reason p = (q, err) \<and> keeps p q \<and>
     (\<forall>x. x \<noteq> s \<longrightarrow> pl_retries q x = pl_retries p x) \<and>
     (case err of
        None \<Rightarrow> leak q = leak p + 1 \<and> 0 < the (pl_retries p s) \<and>
                pl_retries q s = Some (the (pl_retries p s) - 1)
      | Some e \<Rightarrow> leaks 0 p q \<and> (no_faults p \<longrightarrow> the (pl_retries p s) \<le> 0))"
proof -
  from inv s obtain d n rs where r: "pl_request_data p s = Some d" "pl_retries p s = Some n"
    "pl_retry_reason p s = Some rs" by (rule pl_inv_records)
  show ?thesis
  proof (cases "n \<le> 0")
    case True
    have k: "keeps p (p\<lparr>pl_retry_reason := (pl_retry_reason p)(s \<mapsto> rs @ [reason])\<rparr>)"
      using r by (intro keepsI [OF inv]) (auto simp: static_def budget_def seqs_def)
    show ?thesis
      using k True r(2) by (simp add: resend_exhausted [OF inv s r(2) True r(3)] leaks_def leak_def seqs_def)
  next
    case False
    then have n: "0 < n" by simp
    let ?q = "resent s n (rs @ [reason]) d p"
    have k: "keeps p ?q" by (rule resent_keeps [OF inv s r(2) n r(3,1)])
    have l: "leak ?q = leak p + 1" by (simp add: resent_def leak_def seqs_def)
    have ret: "pl_retries ?q = (pl_retries p)(s \<mapsto> n - 1)" by (simp add: resent_def)
    note again = resend_again [OF req r(2) n r(3,1), of reason]
    show ?thesis
    proof (cases "conn_faults (pl_connection p) (length (attempts p))")
      case None
      have "keeps p (?q\<lparr>pl_n_resent := pl_n_resent p + 1\<rparr>)"
        using keeps_trans [OF k keeps_admin(3)] keepsD(6) [OF k] by blast
      with None l ret r n show ?thesis by (simp add: again)
    next
      case (Some e)
      then have "\<not> no_faults p" by (auto simp: no_faults_def)
      with Some k l ret show ?thesis by (simp add: again leaks_def)
    qed
  qed
qed

subsection \<open>One received response\<close>

lemma completes_after_keeps:
  assumes "keeps p q" and "leaks d p q" and "completes s q r" and "\<forall>x. x \<noteq> s \<longrightarrow> pl_retries q x = pl_retries p x"
  shows "evolves p r \<and> conserves p r \<and> leaks (d + 1) p r \<and> seqs r = removeAll s (seqs p) \<and>
     pl_retries r = (pl_retries p)(s := None)"
  using assms evolves_trans conserves_trans leaks_trans
  unfolding keeps_def completes_def by (auto simp: fun_eq_iff)

text \<open>
  A response with a matching request either completes it or resends it, using one retry; in both
  cases no completion is lost or invented. Any other datagram changes nothing.
\<close>

definition settled :: "int \<Rightarrow> 'w pipeline \<Rightarrow> 'w pipeline \<Rightarrow> bool" where
  "settled s p p' \<longleftrightarrow> evolves p p' \<and> conserves p p' \<and> leaks 0 p p' \<and>
     (seqs p' = removeAll s (seqs p) \<and> pl_retries p' = (pl_retries p)(s := None) \<or>
      seqs p' = seqs p \<and> 0 < the (pl_retries p s) \<and>
        pl_retries p' = (pl_retries p)(s \<mapsto> the (pl_retries p s) - 1))"

lemma single_retrieve_match:
  assumes inv: "pl_inv p" and ev: "receive_scp_response ev = Inr (result, s, raw, off)"
    and req: "map_of (pl_requests p) s = Some req"
  shows "\<exists>p'. single_retrieve rd ev p = (p', None) \<and> settled s p p'"
proof -
  have s: "s \<in> set (seqs p)" using map_of_SomeD [OF req] by (force simp: seqs_def)
  let ?p1 = "p\<lparr>pl_in_progress := pl_in_progress p - 1\<rparr>"
  have k1: "keeps p ?p1" by (rule keeps_admin(1) [OF inv])
  have l1: "leaks (- 1) p ?p1" by (simp add: leaks_def) (simp add: leak_def)
  have p1: "pl_inv ?p1" "s \<in> set (seqs ?p1)" "map_of (pl_requests ?p1) s = Some req"
    "pl_retries ?p1 = pl_retries p"
    using keepsD(3,6) [OF k1] s req by auto
  have fin: "\<exists>p'. c = (p', None) \<and> settled s p p'"
    if "keeps ?p1 q" "leaks 0 ?p1 q" "\<forall>x. x \<noteq> s \<longrightarrow> pl_retries q x = pl_retries ?p1 x"
      "\<exists>p'. c = (p', None) \<and> completes s q p'" for c q
  proof -
    from that(4) obtain p' where c: "c = (p', None)" "completes s q p'" by blast
    have "leaks (- 1 + 0) p q" by (rule leaks_trans [OF l1 keepsD(1) [OF k1] that(2)])
    then have "leaks (- 1) p q" by simp
    from completes_after_keeps [OF keeps_trans [OF k1 that(1)] this c(2)] that(3) p1(4)
    show ?thesis using c(1) by (simp add: settled_def)
  qed
  have process: "\<exists>p'. process_response rd s req raw off q = (p', None) \<and> completes s q p'"
    if "keeps ?p1 q" for q
    using process_response_completes [of q s rd req raw off] keepsD(3,6) [OF that] p1(2) by simp
  have start: "single_retrieve rd ev p =
     (if result \<in> set RETRY_CODES then
        (case resend s req (str_result result) ?p1 of
           (p2, None) \<Rightarrow> (p2\<lparr>pl_n_retry_code_resent := pl_n_retry_code_resent p2 + 1\<rparr>, None)
         | (p2, Some e) \<Rightarrow>
             if result \<notin> set (pl_non_fail_retry_codes p2)
             then fail_record s req e p2
             else process_response rd s req raw off p2)
      else process_response rd s req raw off ?p1)"
    using req by (simp add: single_retrieve_def ev Let_def)
  show ?thesis
  proof (cases "result \<in> set RETRY_CODES")
    case False
    then show ?thesis
      using fin [OF keeps_refl [OF p1(1)] leaks_refl _ process [OF keeps_refl [OF p1(1)]]]
      by (simp add: start)
  next
    case True
    obtain q err where q: "resend s req (str_result result) ?p1 = (q, err)" "keeps ?p1 q"
      "\<forall>x. x \<noteq> s \<longrightarrow> pl_retries q x = pl_retries ?p1 x"
      and e: "case err of
        None \<Rightarrow> leak q = leak ?p1 + 1 \<and> 0 < the (pl_retries ?p1 s) \<and>
                pl_retries q s = Some (the (pl_retries ?p1 s) - 1)
      | Some e \<Rightarrow> leaks 0 ?p1 q \<and> (no_faults ?p1 \<longrightarrow> the (pl_retries ?p1 s) \<le> 0)"
      using resend_effect [OF p1(1-3), of "str_result result"] by auto
    show ?thesis
    proof (cases err)
      case (Some x)
      have "\<exists>p'. fail_record s req x q = (p', None) \<and> completes s q p'"
        using fail_record_completes [of q s req x] keepsD(3,6) [OF q(2)] p1(2) by simp
      with fin [OF q(2) _ q(3) this] fin [OF q(2) _ q(3) process [OF q(2)]] True q(1) Some e
      show ?thesis by (simp add: start)
    next
      case None
      let ?r = "q\<lparr>pl_n_retry_code_resent := pl_n_retry_code_resent q + 1\<rparr>"
      have k: "keeps p ?r"
        using keeps_trans [OF keeps_trans [OF k1 q(2)] keeps_admin(4)] keepsD(6) [OF q(2)] by blast
      have "leak ?r = leak p" using None e by simp (simp add: leak_def)
      moreover have "pl_retries ?r = (pl_retries p)(s \<mapsto> the (pl_retries p s) - 1)"
        using None e q(3) p1(4) by (auto simp: fun_eq_iff)
      ultimately have "settled s p ?r"
        using keepsD(1-3) [OF k] None e by (simp add: settled_def leaks_def)
      with True q(1) None show ?thesis by (simp add: start)
    qed
  qed
qed

subsection \<open>A timeout\<close>

text \<open>The requests that the loop gives up on, with everything else it does.\<close>

definition looped :: "int list \<Rightarrow> int list \<Rightarrow> 'w pipeline \<Rightarrow> 'w pipeline \<Rightarrow> bool" where
  "looped keys given_up p q \<longleftrightarrow>
     evolves p q \<and> seqs q = seqs p \<and> pl_requests q = pl_requests p \<and>
     distinct given_up \<and> set given_up \<subseteq> set keys \<and> leaks (- int (length given_up)) p q \<and>
     (\<forall>obs. logs obs p \<longrightarrow> obs (pl_client q) = mset given_up + obs (pl_client p)) \<and>
     (\<forall>x. x \<notin> set keys \<longrightarrow> pl_retries q x = pl_retries p x) \<and>
     (\<forall>x \<in> set keys - set given_up. 0 < the (pl_retries p x) \<and>
        pl_retries q x = Some (the (pl_retries p x) - 1))"

lemma looped_keep:
  assumes q: "evolves p q" "seqs q = seqs p" "pl_requests q = pl_requests p" "leaks 0 p q"
      "pl_client q = pl_client p" "\<forall>x. x \<noteq> s \<longrightarrow> pl_retries q x = pl_retries p x"
      "0 < the (pl_retries p s)" "pl_retries q s = Some (the (pl_retries p s) - 1)"
    and l: "looped keys given_up q r" and s: "s \<notin> set keys"
  shows "looped (s # keys) given_up p r"
proof -
  have "leaks (- int (length given_up)) p r"
    using leaks_trans [OF q(4,1)] l by (fastforce simp: looped_def)
  moreover have "pl_retries q x = pl_retries p x" if "x \<in> set keys" for x
    using that s q(6) by metis
  ultimately show ?thesis
    using q l s evolves_trans [OF q(1)] evolves_logs [OF q(1)]
    by (auto simp: looped_def)
qed

lemma looped_give_up:
  assumes q: "evolves p q" "seqs q = seqs p" "pl_requests q = pl_requests p" "leaks (- 1) p q"
      "\<And>obs. logs obs p \<Longrightarrow> obs (pl_client q) = {#s#} + obs (pl_client p)"
      "\<forall>x. x \<noteq> s \<longrightarrow> pl_retries q x = pl_retries p x"
    and l: "looped keys given_up q r" and s: "s \<notin> set keys"
  shows "looped (s # keys) (s # given_up) p r"
proof -
  have "leaks (- int (length (s # given_up))) p r"
    using leaks_trans [OF q(4,1)] l by (fastforce simp: looped_def)
  moreover have "pl_retries q x = pl_retries p x" if "x \<in> set keys" for x
    using that s q(6) by metis
  moreover have "obs (pl_client r) = mset (s # given_up) + obs (pl_client p)" if "logs obs p" for obs
  proof -
    have "obs (pl_client r) = mset given_up + obs (pl_client q)"
      using l evolves_logs [OF q(1) that] unfolding looped_def by blast
    then show ?thesis using q(5) [OF that] by simp
  qed
  ultimately show ?thesis
    using q(1-4,6) l s evolves_trans [OF q(1)]
    by (auto simp: looped_def)
qed

lemma timeout_loop_looped:
  assumes "pl_inv p" and "set items \<subseteq> set (pl_requests p)" and "distinct (map fst items)"
  shows "\<exists>q given_up. timeout_loop items rem p = (q, rem @ given_up, None) \<and>
     looped (map fst items) given_up p q"
  using assms
proof (induction items arbitrary: rem p)
  case Nil
  then show ?case by (intro exI [of _ p] exI [of _ "[]"]) (simp add: looped_def)
next
  case (Cons item items)
  obtain s req where item: "item = (s, req)" by (cases item)
  have inv: "pl_inv p" by (rule Cons.prems(1))
  have d: "distinct (map fst (pl_requests p))" using inv by (simp add: pl_inv_def seqs_def)
  have mem: "(s, req) \<in> set (pl_requests p)" using Cons.prems(2) item by simp
  then have req: "map_of (pl_requests p) s = Some req" using d by simp
  have s: "s \<in> set (seqs p)" using mem by (force simp: seqs_def)
  have new: "s \<notin> set (map fst items)" "distinct (map fst items)" "set items \<subseteq> set (pl_requests p)"
    using Cons.prems(2,3) item by simp_all
  let ?p1 = "p\<lparr>pl_in_progress := pl_in_progress p - 1\<rparr>"
  have k1: "keeps p ?p1" by (rule keeps_admin(1) [OF inv])
  have l1: "leaks (- 1) p ?p1" by (simp add: leaks_def) (simp add: leak_def)
  obtain q err where q: "resend s req ''timeout'' ?p1 = (q, err)" "keeps ?p1 q"
    "\<forall>x. x \<noteq> s \<longrightarrow> pl_retries q x = pl_retries ?p1 x"
    and e: "case err of
      None \<Rightarrow> leak q = leak ?p1 + 1 \<and> 0 < the (pl_retries ?p1 s) \<and>
              pl_retries q s = Some (the (pl_retries ?p1 s) - 1)
    | Some e \<Rightarrow> leaks 0 ?p1 q \<and> (no_faults ?p1 \<longrightarrow> the (pl_retries ?p1 s) \<le> 0)"
    using resend_effect [of ?p1 s req "''timeout''"] keepsD(3,5,6) [OF k1] s req by auto
  have k: "keeps p q" by (rule keeps_trans [OF k1 q(2)])
  note kd = keepsD [OF k]
  show ?case
  proof (cases err)
    case None
    have "leaks 0 p q" using e None by (simp add: leaks_def) (simp add: leak_def)
    moreover obtain r given_up where "timeout_loop items rem q = (r, rem @ given_up, None)"
      "looped (map fst items) given_up q r"
      using Cons.IH [OF kd(6), of rem] new kd(5) by auto
    ultimately show ?thesis
      using looped_keep [of p q s "map fst items" given_up r] kd q None e new(1) item by auto
  next
    case (Some x)
    obtain ecb where ecb: "pl_error_callbacks p s = Some ecb" using inv s by (rule pl_inv_records)
    let ?q = "q\<lparr>pl_client := ecb req x (pl_client q)\<rparr>"
    have call: "call_error_callback s req x q = (?q, None)"
      using ecb kd(8) by (simp add: call_error_callback_def)
    have "leaks (- 1 + 0) p q" using leaks_trans [OF l1 keepsD(1) [OF k1]] e Some by fastforce
    then have "leaks (- 1) p ?q" by (simp add: leaks_def leak_def no_faults_def seqs_def)
    moreover have "evolves p ?q" by (rule evolves_trans [OF kd(1) set_client_evolves [OF kd(6)]])
    moreover obtain r given_up where "timeout_loop items (rem @ [s]) ?q = (r, (rem @ [s]) @ given_up, None)"
      "looped (map fst items) given_up ?q r"
      using Cons.IH [of ?q "rem @ [s]"] new kd(5,6) by auto
    moreover have "obs (pl_client ?q) = {#s#} + obs (pl_client p)" if "logs obs p" for obs
      using logs_error_callback [OF that ecb] kd(4) by simp
    ultimately show ?thesis
      using looped_give_up [of p ?q s "map fst items" given_up r] kd q Some call new(1) item
      by auto
  qed
qed

lemma remove_all_records_eq:
  assumes "pl_inv p" and "distinct ss" and "set ss \<subseteq> set (seqs p)"
  shows "\<exists>r. remove_all_records ss p = (r, None) \<and> evolves p r \<and> leaks (int (length ss)) p r \<and>
     pl_client r = pl_client p \<and> mset ss + mset (seqs r) = mset (seqs p) \<and>
     (\<forall>x. pl_retries r x = (if x \<in> set ss then None else pl_retries p x))"
  using assms
proof (induction ss arbitrary: p)
  case (Cons s ss)
  have s: "s \<in> set (seqs p)" using Cons.prems(3) by simp
  let ?q = "removed s p"
  obtain r where r: "remove_all_records ss ?q = (r, None)" "evolves ?q r" "leaks (int (length ss)) ?q r"
    "pl_client r = pl_client ?q" "mset ss + mset (seqs r) = mset (seqs ?q)"
    "\<forall>x. pl_retries r x = (if x \<in> set ss then None else pl_retries ?q x)"
    using Cons.IH [of ?q] removed_inv [OF Cons.prems(1)] Cons.prems(2,3) by auto
  have e: "evolves p ?q" by (rule removed_evolves [OF Cons.prems(1)])
  have "leaks (1 + int (length ss)) p r"
    by (rule leaks_trans [OF removed_leaks [OF Cons.prems(1) s] e r(3)])
  moreover have "evolves p r" by (rule evolves_trans [OF e r(2)])
  ultimately show ?case
    using r(1,4-6) mset_removed [OF Cons.prems(1) s] remove_record_eq [OF Cons.prems(1) s]
    by (intro exI [of _ r]) (auto simp: then_do_def simp del: seqs_removed)
qed simp

text \<open>
  A timeout spends one retry of every request that survives it, and neither loses nor invents a
  completion.
\<close>

definition timed_out :: "'w pipeline \<Rightarrow> 'w pipeline \<Rightarrow> bool" where
  "timed_out p p' \<longleftrightarrow> evolves p p' \<and> conserves p p' \<and> leaks 0 p p' \<and>
     (\<forall>x n. pl_retries p' x = Some n \<longrightarrow> 0 \<le> n \<and> pl_retries p x = Some (n + 1))"

lemma handle_receive_timeout_timed_out:
  assumes inv: "pl_inv p"
  shows "\<exists>p'. handle_receive_timeout p = (p', None) \<and> timed_out p p'"
proof -
  let ?p0 = "p\<lparr>pl_n_timeouts := pl_n_timeouts p + 1\<rparr>"
  have k0: "keeps p ?p0" by (rule keeps_admin(2) [OF inv])
  note kd = keepsD [OF k0]
  have l0: "leaks 0 p ?p0" by (simp add: leaks_def)
  have "distinct (map fst (pl_requests ?p0))" using kd(5) inv by (simp add: pl_inv_def seqs_def)
  moreover have "map fst (pl_requests ?p0) = seqs p" by (simp add: seqs_def)
  ultimately obtain q ss where q: "timeout_loop (pl_requests ?p0) [] ?p0 = (q, ss, None)"
    and l: "looped (seqs p) ss ?p0 q"
    using timeout_loop_looped [OF kd(6), of "pl_requests ?p0" "[]"] by auto
  have sq: "seqs q = seqs p" "distinct ss" "set ss \<subseteq> set (seqs p)" "evolves ?p0 q"
    using l kd(3) by (simp_all add: looped_def)
  from remove_all_records_eq [of q ss] obtain r where
    r: "remove_all_records ss q = (r, None)" "evolves q r" "leaks (int (length ss)) q r"
      "pl_client r = pl_client q" "mset ss + mset (seqs r) = mset (seqs q)"
      "\<forall>x. pl_retries r x = (if x \<in> set ss then None else pl_retries q x)"
    using sq evolvesD(2) [OF sq(4)] by auto
  have e: "evolves p q" by (rule evolves_trans [OF kd(1) sq(4)])
  have "leaks (- int (length ss)) ?p0 q" using l by (simp add: looped_def)
  from leaks_trans [OF leaks_trans [OF l0 kd(1) this] e r(3)] have "leaks 0 p r" by simp
  moreover have "conserves p r"
    unfolding conserves_def completions_def
  proof (intro allI impI)
    fix obs assume "logs obs p"
    then have "logs obs ?p0" by (rule evolves_logs [OF kd(1)])
    then have "obs (pl_client q) = mset ss + obs (pl_client ?p0)"
      using l unfolding looped_def by blast
    then show "obs (pl_client r) + mset (seqs r) = obs (pl_client p) + mset (seqs p)"
      using r(4,5) sq(1) kd(4) by (simp add: ac_simps)
  qed
  moreover have "0 \<le> n \<and> pl_retries p x = Some (n + 1)" if x: "pl_retries r x = Some n" for x n
  proof -
    from x r(6) have x': "x \<notin> set ss" "pl_retries q x = Some n" by (auto split: if_splits)
    have iq: "pl_inv q" by (rule evolvesD(2) [OF e])
    have "x \<in> dom (pl_retries q)" using x'(2) by blast
    then have "x \<in> set (seqs p)" using iq sq(1) by (simp add: pl_inv_def)
    then have "0 < the (pl_retries p x)" "pl_retries q x = Some (the (pl_retries p x) - 1)"
      and "x \<in> dom (pl_retries p)"
      using l x'(1) inv by (auto simp: looped_def pl_inv_def)
    then show ?thesis using x'(2) by auto
  qed
  moreover have "evolves p r" by (rule evolves_trans [OF e r(2)])
  moreover have "handle_receive_timeout p = (r, None)"
    using q r(1) by (simp add: handle_receive_timeout_def Let_def)
  ultimately show ?thesis by (auto simp: timed_out_def)
qed

subsection \<open>Retrieving\<close>

text \<open>Every step, whatever the network delivers.\<close>

definition steps_to :: "'w pipeline \<Rightarrow> 'w pipeline \<Rightarrow> bool" where
  "steps_to p p' \<longleftrightarrow> evolves p p' \<and> conserves p p' \<and> leaks 0 p p'"

lemma steps_to_refl: "pl_inv p \<Longrightarrow> steps_to p p"
  by (simp add: steps_to_def)

lemma steps_to_trans: "steps_to p q \<Longrightarrow> steps_to q r \<Longrightarrow> steps_to p r"
  unfolding steps_to_def using evolves_trans conserves_trans leaks_trans [of 0 p q 0 r] by auto

lemma retrieve_step_steps:
  assumes inv: "pl_inv p"
  shows "\<exists>p' err. retrieve_step rd ev p = (p', err) \<and> steps_to p p' \<and>
     (err \<noteq> None \<longrightarrow> p' = p \<and> (\<exists>e. err = Some e \<and> e \<noteq> SpinnmanTimeout \<and> receive_scp_response ev = Inl e)) \<and>
     (receive_scp_response ev = Inl SpinnmanTimeout \<longrightarrow> timed_out p p')"
proof (cases "receive_scp_response ev")
  case (Inl e)
  show ?thesis
  proof (cases "e = SpinnmanTimeout")
    case True
    obtain p' where p': "handle_receive_timeout p = (p', None)" "timed_out p p'"
      using handle_receive_timeout_timed_out [OF inv] by blast
    with Inl True show ?thesis
      by (auto simp: retrieve_step_def single_retrieve_def steps_to_def timed_out_def)
  next
    case False
    then have "retrieve_step rd ev p = (p, Some e)"
      using Inl by (cases e) (simp_all add: retrieve_step_def single_retrieve_def)
    with False Inl steps_to_refl [OF inv] show ?thesis by auto
  qed
next
  case (Inr x)
  obtain result s raw off where x: "x = (result, s, raw, off)" by (cases x)
  show ?thesis
  proof (cases "map_of (pl_requests p) s")
    case None
    then show ?thesis using Inr x steps_to_refl [OF inv]
      by (simp add: retrieve_step_def single_retrieve_def)
  next
    case (Some req)
    with single_retrieve_match [OF inv] Inr x obtain p' where
      "single_retrieve rd ev p = (p', None)" "settled s p p'" by blast
    then show ?thesis using Inr by (auto simp: retrieve_step_def settled_def steps_to_def)
  qed
qed

end
