(* ===== verification/PipelineProps.thy ===== *)
theory PipelineProps
  imports PipelineInv
begin

text \<open>
  The properties of the pipeline: the loops of \<open>_do_retrieve\<close>, \<open>send_request\<close> and \<open>finish\<close>, over every
  sequence of network events.
\<close>

subsection \<open>The retrieval loop\<close>

fun outcome_state :: "('a, 'e) outcome \<Rightarrow> 'a" where
  "outcome_state (Returned p evs) = p"
| "outcome_state (Raised e p evs) = p"
| "outcome_state (Waiting p) = p"

lemma do_retrieve_steps:
  "pl_inv p \<Longrightarrow> steps_to p (outcome_state (do_retrieve rd n p evs))"
proof (induction evs arbitrary: p)
  case (Cons ev evs)
  obtain p' err where s: "retrieve_step rd ev p = (p', err)" "steps_to p p'"
    using retrieve_step_steps [OF Cons.prems, of rd ev] by blast
  have "pl_inv p'" using s(2) evolvesD(2) by (auto simp: steps_to_def)
  then show ?case
    using s steps_to_trans [OF s(2) Cons.IH] steps_to_refl [OF Cons.prems] by (cases err) auto
qed (simp add: steps_to_refl)

lemma do_retrieve_returned:
  "do_retrieve rd n p evs = Returned p' evs' \<Longrightarrow> pl_in_progress p' \<le> n"
  by (induction evs arbitrary: p) (auto split: if_splits prod.splits option.splits)

lemma do_retrieve_suffix:
  "do_retrieve rd n p evs = Returned p' evs' \<Longrightarrow> \<exists>used. evs = used @ evs'"
proof (induction evs arbitrary: p)
  case (Cons ev evs)
  then show ?case
    by (auto split: if_splits prod.splits option.splits) (metis append_Cons)
qed (auto split: if_splits)

lemma finish_eq:
  "finish rd p evs =
     (if pl_in_progress p > 0 then Some (do_retrieve rd 0 p evs) else Some (Returned p evs))"
proof (cases "pl_in_progress p > 0")
  case True
  have "finish rd q evs' = Some (Returned q evs')" if "do_retrieve rd 0 p evs = Returned q evs'" for q evs'
    using do_retrieve_returned [OF that] by (subst finish.simps) simp
  with True show ?thesis
    by (subst finish.simps) (auto split: outcome.split)
next
  case False
  then show ?thesis by (subst finish.simps) simp
qed

subsection \<open>Events\<close>

definition times_out :: "recv \<Rightarrow> bool" where
  "times_out ev \<longleftrightarrow> (case receive_scp_response ev of Inl e \<Rightarrow> e = SpinnmanTimeout | Inr _ \<Rightarrow> False)"

text \<open>An event that the pipeline handles: a timeout, or a datagram with an SCP header.\<close>

definition benign :: "recv \<Rightarrow> bool" where
  "benign ev \<longleftrightarrow> (case receive_scp_response ev of Inl e \<Rightarrow> e = SpinnmanTimeout | Inr _ \<Rightarrow> True)"

definition timeouts :: "recv list \<Rightarrow> nat" where
  "timeouts evs = length (filter times_out evs)"

text \<open>A pipeline whose count is exact, whose sends succeed and whose requests have fewer than m retries left.\<close>

definition pl_ready :: "nat \<Rightarrow> 'w pipeline \<Rightarrow> bool" where
  "pl_ready m p \<longleftrightarrow> pl_inv p \<and> leak p = 0 \<and> no_faults p \<and>
     list_all (\<lambda>s. 0 \<le> the (pl_retries p s) \<and> the (pl_retries p s) < int m) (seqs p)"

lemma pl_ready_retries:
  "pl_ready m p \<Longrightarrow> pl_retries p s = Some n \<Longrightarrow> 0 \<le> n \<and> n < int m"
proof -
  assume r: "pl_ready m p" and n: "pl_retries p s = Some n"
  from r have "dom (pl_retries p) = set (seqs p)" by (simp add: pl_ready_def pl_inv_def)
  with n have "s \<in> set (seqs p)" by blast
  with r n show ?thesis by (auto simp: pl_ready_def list_all_iff)
qed

lemma pl_readyI:
  assumes "pl_inv p" and "leak p = 0" and "no_faults p"
    and "\<And>s n. pl_retries p s = Some n \<Longrightarrow> 0 \<le> n \<and> n < int m"
  shows "pl_ready m p"
  unfolding pl_ready_def list_all_iff
proof (intro conjI ballI assms(1-3))
  fix s assume "s \<in> set (seqs p)"
  then have "s \<in> dom (pl_retries p)" using assms(1) by (simp add: pl_inv_def)
  then show "0 \<le> the (pl_retries p s)" "the (pl_retries p s) < int m" using assms(4) by auto
qed

lemma pl_ready_step:
  assumes r: "pl_ready m p" and b: "benign ev"
  shows "\<exists>p'. retrieve_step rd ev p = (p', None) \<and> steps_to p p' \<and> pl_ready m p' \<and>
     (times_out ev \<longrightarrow> pl_ready (m - 1) p')"
proof -
  have inv: "pl_inv p" using r by (simp add: pl_ready_def)
  obtain p' err where s: "retrieve_step rd ev p = (p', err)" "steps_to p p'"
    "err \<noteq> None \<longrightarrow> p' = p \<and> (\<exists>e. err = Some e \<and> e \<noteq> SpinnmanTimeout \<and> receive_scp_response ev = Inl e)"
    "receive_scp_response ev = Inl SpinnmanTimeout \<longrightarrow> timed_out p p'"
    using retrieve_step_steps [OF inv, of rd ev] by blast
  have none: "err = None" using s(3) b by (auto simp: benign_def)
  have ev: "evolves p p'" using s(2) by (simp add: steps_to_def)
  have base: "pl_inv p'" "no_faults p'" "leak p' = 0"
    using evolvesD(2) [OF ev] evolves_no_faults [OF ev] s(2) r
    by (auto simp: steps_to_def leaks_def pl_ready_def)
  have "pl_ready m p'"
  proof (rule pl_readyI [OF base(1,3,2)])
    fix x n' assume "pl_retries p' x = Some n'"
    from evolves_retries [OF ev this] obtain n where
      "n' \<le> n" "pl_retries p x = Some n" "0 \<le> n \<longrightarrow> 0 \<le> n'" by blast
    with pl_ready_retries [OF r] show "0 \<le> n' \<and> n' < int m" by fastforce
  qed
  moreover have "pl_ready (m - 1) p'" if t: "times_out ev"
  proof (rule pl_readyI [OF base(1,3,2)])
    fix x n assume x: "pl_retries p' x = Some n"
    have "receive_scp_response ev = Inl SpinnmanTimeout"
      using t by (auto simp: times_out_def split: sum.splits)
    then have "timed_out p p'" using s(4) by simp
    with x have "0 \<le> n \<and> pl_retries p x = Some (n + 1)" by (simp add: timed_out_def)
    with pl_ready_retries [OF r] show "0 \<le> n \<and> n < int (m - 1)" by fastforce
  qed
  ultimately show ?thesis using s none by blast
qed

lemma pl_ready_zero: "pl_ready 0 p \<Longrightarrow> seqs p = [] \<and> pl_in_progress p = 0"
proof -
  assume r: "pl_ready 0 p"
  then have "seqs p = []" by (cases "seqs p") (auto simp: pl_ready_def)
  with r show ?thesis by (simp add: pl_ready_def leak_def)
qed

lemma do_retrieve_terminates:
  assumes "pl_ready m p" and "list_all benign evs" and "m \<le> timeouts evs" and "0 \<le> n"
  shows "\<exists>p' evs'. do_retrieve rd n p evs = Returned p' evs' \<and> pl_ready m p'"
  using assms
proof (induction evs arbitrary: m p)
  case Nil
  then have "m = 0" by (simp add: timeouts_def)
  with Nil pl_ready_zero [of p] show ?case by auto
next
  case (Cons ev evs)
  show ?case
  proof (cases "pl_in_progress p > n")
    case False
    then show ?thesis using Cons.prems(1) by simp
  next
    case True
    obtain p' where s: "retrieve_step rd ev p = (p', None)" "pl_ready m p'"
      "times_out ev \<longrightarrow> pl_ready (m - 1) p'"
      using pl_ready_step [OF Cons.prems(1), of ev rd] Cons.prems(2) by auto
    show ?thesis
    proof (cases "times_out ev")
      case t: True
      then have "m - 1 \<le> timeouts evs" using Cons.prems(3) by (simp add: timeouts_def)
      then obtain q evs' where q: "do_retrieve rd n p' evs = Returned q evs'" "pl_ready (m - 1) q"
        using Cons.IH [of "m - 1" p'] s(3) t Cons.prems(2,4) by auto
      have "pl_ready m q" using q(2) by (auto simp: pl_ready_def list_all_iff)
      with q True s(1) show ?thesis by auto
    next
      case f: False
      then have "m \<le> timeouts evs" using Cons.prems(3) by (simp add: timeouts_def)
      then show ?thesis using Cons.IH [OF s(2)] Cons.prems(2,4) True s(1) by auto
    qed
  qed
qed

subsection \<open>Completion\<close>

lemma empty_when_done:
  "pl_inv p \<Longrightarrow> leak p = 0 \<Longrightarrow> pl_in_progress p \<le> 0 \<Longrightarrow> pl_requests p = [] \<and> pl_in_progress p = 0"
  by (simp add: leak_def seqs_def)

text \<open>
  C2: the pipeline finishes, and every request completes exactly once. Take a pipeline whose records
  are consistent, whose sends succeed and whose requests all have fewer than \<open>m\<close> retries left. If the
  events to come are timeouts and SCP datagrams of any kind (late, duplicated, unknown, any result
  code) and at least \<open>m\<close> of them are timeouts, then \<open>finish\<close> returns with nothing outstanding, and
  for every observation of the callbacks the completions are exactly the requests that were
  outstanding, once each: by their callback, or by their error callback.
\<close>
theorem finish_completes_each_once:
  assumes "pl_ready m p" and "list_all benign evs" and "m \<le> timeouts evs" and "logs obs p"
  shows "\<exists>p' evs'. finish rd p evs = Some (Returned p' evs') \<and>
     pl_requests p' = [] \<and> pl_in_progress p' = 0 \<and>
     obs (pl_client p') = obs (pl_client p) + mset (map fst (pl_requests p))"
proof -
  have inv: "pl_inv p" and l: "leak p = 0" and nf: "no_faults p"
    using assms(1) by (simp_all add: pl_ready_def)
  obtain p' evs' where d: "do_retrieve rd 0 p evs = Returned p' evs'"
    using do_retrieve_terminates [OF assms(1-3), of 0 rd] by auto
  have st: "steps_to p p'" using do_retrieve_steps [OF inv, of rd 0 evs] d by simp
  have "finish rd p evs = Some (Returned p' evs')"
  proof (cases "pl_in_progress p > 0")
    case False
    then have "do_retrieve rd 0 p evs = Returned p evs" by (cases evs) simp_all
    with d False show ?thesis by (simp add: finish_eq)
  qed (use d in \<open>simp add: finish_eq\<close>)
  moreover have e: "pl_requests p' = [] \<and> pl_in_progress p' = 0"
    using empty_when_done [of p'] do_retrieve_returned [OF d] st evolvesD(2) [of p p'] l nf
    by (auto simp: steps_to_def leaks_def)
  moreover have "completions obs p' = completions obs p"
    using st assms(4) unfolding steps_to_def conserves_def by blast
  ultimately show ?thesis by (auto simp: completions_def seqs_def)
qed

text \<open>
  C3: what holds whatever the network does. From consistent records, for every list of events and
  every outcome of the retrieval loop (returned, still waiting, or an exception that escapes): the
  six dictionaries still have the same distinct keys, no request has appeared, the outstanding
  count is at least the number of requests, everything sent again is the stored data of an
  outstanding request, and the number of sends is bounded by the retries that were left.
\<close>
theorem do_retrieve_safe:
  assumes "pl_inv p" and "0 \<le> leak p"
  shows "(let p' = outcome_state (do_retrieve rd n p evs) in
     pl_inv p' \<and> set (seqs p') \<subseteq> set (seqs p) \<and>
     int (length (pl_requests p')) \<le> pl_in_progress p' \<and>
     (\<exists>sent. attempts p' = attempts p @ sent \<and> set sent \<subseteq> ran (pl_request_data p) \<and>
        length sent + budget p' \<le> budget p))"
proof -
  let ?p' = "outcome_state (do_retrieve rd n p evs)"
  have st: "evolves p ?p'" "leaks 0 p ?p'"
    using do_retrieve_steps [OF assms(1), of rd n evs] by (simp_all add: steps_to_def)
  from evolves_sent [OF st(1)] obtain sent where
    sent: "attempts ?p' = attempts p @ sent" "set sent \<subseteq> ran (pl_request_data p)" by blast
  have "length (attempts ?p') + budget ?p' \<le> length (attempts p) + budget p"
    by (rule evolvesD(8) [OF st(1)])
  with sent(1) have "length sent + budget ?p' \<le> budget p" by simp
  moreover have "int (length (pl_requests ?p')) \<le> pl_in_progress ?p'"
    using st(2) assms(2) by (simp add: leaks_def leak_def seqs_def)
  ultimately show ?thesis
    using sent evolvesD(2,3) [OF st(1)] by (auto simp: Let_def)
qed

subsection \<open>The send window\<close>

lemma drain_eq:
  assumes inv: "pl_inv p" and n: "pl_n_channels p = Some n"
    and w: "pl_intermediate_channel_waits p = Some w" "w < n"
  shows "drain rd p evs =
     (if pl_in_progress p \<ge> n then Some (do_retrieve rd w p evs) else Some (Returned p evs))"
proof (cases "pl_in_progress p \<ge> n")
  case True
  have "drain rd q evs' = Some (Returned q evs')" if d: "do_retrieve rd w p evs = Returned q evs'" for q evs'
  proof -
    have "evolves p q" using do_retrieve_steps [OF inv, of rd w evs] d by (simp add: steps_to_def)
    then have "pl_n_channels q = Some n" using n by (simp add: evolves_def static_def)
    then show ?thesis using do_retrieve_returned [OF d] w(2) by (subst drain.simps) simp
  qed
  with True show ?thesis
    using n w by (subst drain.simps) (auto split: outcome.split)
next
  case False
  then show ?thesis using n by (subst drain.simps) simp
qed

lemma seqs_append_new:
  "s \<notin> set (map fst xs) \<Longrightarrow> AList.update s v xs = xs @ [(s, v)]"
  by (induction xs) auto

text \<open>Storing a new request and sending it.\<close>

lemma store_and_send_new:
  assumes inv: "pl_inv p" and s: "s \<notin> set (seqs p)"
    and st: "store_and_send s req cb ecb p = (p', None)"
  shows "pl_inv p'" and "seqs p' = seqs p @ [s]" and "leak p' = leak p"
    and "pl_in_progress p' = pl_in_progress p + 1" and "pl_n_channels p' = pl_n_channels p"
    and "pl_client p' = pl_client p" and "no_faults p' = no_faults p"
    and "\<exists>d. pl_request_data p' s = Some d \<and> attempts p' = attempts p @ [d]"
    and "pl_retries p' = (pl_retries p)(s \<mapsto> pl_n_retries p)"
    and "pl_callbacks p' = (pl_callbacks p)(s \<mapsto> cb)"
    and "pl_error_callbacks p' = (pl_error_callbacks p)(s \<mapsto> ecb)"
proof -
  obtain r d where d: "get_scp_data (pl_connection p) (set_sequence s req) = (r, Inr d)"
    using st by (auto simp: store_and_send_def split: prod.splits sum.splits)
  then have p': "p' = p\<lparr>pl_requests := pl_requests p @ [(s, r)],
      pl_request_data := (pl_request_data p)(s \<mapsto> d), pl_retries := (pl_retries p)(s \<mapsto> pl_n_retries p),
      pl_callbacks := (pl_callbacks p)(s \<mapsto> cb), pl_error_callbacks := (pl_error_callbacks p)(s \<mapsto> ecb),
      pl_retry_reason := (pl_retry_reason p)(s \<mapsto> []),
      pl_connection := (pl_connection p)\<lparr>conn_attempts := attempts p @ [d]\<rparr>,
      pl_in_progress := pl_in_progress p + 1\<rparr>"
    using st s by (auto simp: store_and_send_def then_do_def wire_send_def conn_send_def
        seqs_append_new seqs_def split: option.splits)
  show "seqs p' = seqs p @ [s]" by (simp add: p' seqs_def)
  with inv s show "pl_inv p'" by (auto simp: pl_inv_def p')
  show "leak p' = leak p" "pl_in_progress p' = pl_in_progress p + 1"
    "pl_n_channels p' = pl_n_channels p" "pl_client p' = pl_client p" "no_faults p' = no_faults p"
    "\<exists>d. pl_request_data p' s = Some d \<and> attempts p' = attempts p @ [d]"
    "pl_retries p' = (pl_retries p)(s \<mapsto> pl_n_retries p)"
    "pl_callbacks p' = (pl_callbacks p)(s \<mapsto> cb)"
    "pl_error_callbacks p' = (pl_error_callbacks p)(s \<mapsto> ecb)"
    by (simp_all add: p' leak_def seqs_def no_faults_def)
qed

text \<open>
  C4: the send window. With a window of \<open>n\<close> channels and a wait level below it, sending a request
  under a sequence number that is not outstanding keeps the records consistent and leaves at most
  \<open>n\<close> responses outstanding. The new request has the next number of the 16-bit sequence, the
  retries of the pipeline, its own callbacks and its stored data, which is what was sent last; and
  the completions of the others are accounted for.
\<close>
theorem send_request_window:
  assumes inv: "pl_inv p" and lk: "0 \<le> leak p" and fresh: "sq \<notin> set (seqs p)"
    and n: "pl_n_channels p = Some n" and w: "pl_intermediate_channel_waits p = Some w" "w < n"
    and ret: "send_request rd ready req cb ecb p sq evs = Some (Returned (p', sq') evs')"
  shows "pl_inv p' \<and> pl_in_progress p' \<le> n \<and> int (length (pl_requests p')) \<le> n \<and>
     last (seqs p') = sq \<and> set (seqs p') \<subseteq> insert sq (set (seqs p)) \<and> sq' = (sq + 1) mod 65536 \<and>
     pl_retries p' sq = Some (pl_n_retries p) \<and> pl_callbacks p' sq = Some cb \<and>
     pl_error_callbacks p' sq = Some ecb \<and> pl_request_data p' sq = Some (last (attempts p')) \<and>
     (logs obs p \<longrightarrow> obs (pl_client p') + mset (seqs p') = obs (pl_client p) + mset (seqs p) + {#sq#})"
proof -
  have m: "measure_channels ready p = p" using n by (simp add: measure_channels_def)
  obtain q where dr: "drain rd p evs = Some (Returned q evs')"
    and st: "store_and_send sq req cb ecb q = (p', None)" and sq': "sq' = (sq + 1) mod 65536"
    using ret by (auto simp: send_request_def m get_next_sequence_number_def MAX_SEQUENCE_def
        split: option.splits outcome.splits prod.splits)
  have q: "steps_to p q \<and> pl_in_progress q < n"
  proof (cases "pl_in_progress p \<ge> n")
    case True
    then have "do_retrieve rd w p evs = Returned q evs'"
      using dr by (simp add: drain_eq [OF inv n w])
    with do_retrieve_returned [OF this] do_retrieve_steps [OF inv, of rd w evs] w(2)
    show ?thesis by simp
  next
    case False
    then show ?thesis using dr steps_to_refl [OF inv] by (simp add: drain_eq [OF inv n w])
  qed
  then have ev: "evolves p q" and cons: "conserves p q" and lq: "0 \<le> leak q"
    using lk by (auto simp: steps_to_def leaks_def)
  have fq: "sq \<notin> set (seqs q)" using evolvesD(3) [OF ev] fresh by blast
  note s = store_and_send_new [OF evolvesD(2) [OF ev] fq st]
  have nr: "pl_n_retries q = pl_n_retries p" using ev by (simp add: evolves_def static_def)
  have "int (length (pl_requests p')) \<le> pl_in_progress p'"
    using s(3) lq by (simp add: leak_def seqs_def)
  moreover have "obs (pl_client p') + mset (seqs p') = obs (pl_client p) + mset (seqs p) + {#sq#}"
    if "logs obs p"
    using that cons s(2,6) unfolding conserves_def completions_def by auto
  ultimately show ?thesis
    using s q sq' nr evolvesD(3) [OF ev] by auto
qed

subsection \<open>Running out of retries\<close>

text \<open>One outstanding request, and the events that make the pipeline try it again.\<close>

definition lone ::
  "int \<Rightarrow> int \<Rightarrow> scp_request \<Rightarrow> nat \<Rightarrow> string list \<Rightarrow> bytes \<Rightarrow> 'w error_callback \<Rightarrow> 'w pipeline \<Rightarrow> bool" where
  "lone i s req k rs d ecb p \<longleftrightarrow> pl_inv p \<and> no_faults p \<and> pl_requests p = [(s, req)] \<and>
     pl_in_progress p = i \<and> pl_non_fail_retry_codes p = [] \<and>
     pl_retries p s = Some (int k) \<and> pl_retry_reason p s = Some rs \<and>
     pl_request_data p s = Some d \<and> pl_error_callbacks p s = Some ecb"

definition retry_event :: "int \<Rightarrow> recv \<Rightarrow> bool" where
  "retry_event s ev \<longleftrightarrow> (case receive_scp_response ev of
      Inl e \<Rightarrow> e = SpinnmanTimeout
    | Inr (result, s', _) \<Rightarrow> s' = s \<and> result \<in> set RETRY_CODES)"

definition event_reason :: "recv \<Rightarrow> string" where
  "event_reason ev = (case receive_scp_response ev of
      Inl _ \<Rightarrow> ''timeout'' | Inr (result, _) \<Rightarrow> str_result result)"

lemma str_result_not_timeout [simp]: "str_result r \<noteq> ''timeout''"
  by (cases r) simp_all

lemma event_reason_timeout:
  "retry_event s ev \<Longrightarrow> event_reason ev = ''timeout'' \<longleftrightarrow> times_out ev"
  by (auto simp: retry_event_def event_reason_def times_out_def split: sum.splits)

lemma retry_event_cases:
  assumes "retry_event s ev"
  obtains "receive_scp_response ev = Inl SpinnmanTimeout" "event_reason ev = ''timeout''"
  | result raw off where "receive_scp_response ev = Inr (result, s, raw, off)"
      "result \<in> set RETRY_CODES" "event_reason ev = str_result result"
  using assms that
  by (cases "receive_scp_response ev") (auto simp: retry_event_def event_reason_def)

lemma lone_seqs: "lone i s req k rs d ecb p \<Longrightarrow> pl_inv p \<and> seqs p = [s]"
  by (simp add: lone_def seqs_def)

lemma lone_admin:
  "lone i s req k rs d ecb p \<Longrightarrow> lone a s req k rs d ecb (p\<lparr>pl_in_progress := a\<rparr>)"
  "lone i s req k rs d ecb p \<Longrightarrow> lone i s req k rs d ecb (p\<lparr>pl_n_timeouts := b\<rparr>)"
  "lone i s req k rs d ecb p \<Longrightarrow> lone i s req k rs d ecb (p\<lparr>pl_n_retry_code_resent := b\<rparr>)"
  by (simp_all add: lone_def pl_inv_def seqs_def no_faults_def)

lemma lone_resend:
  assumes l: "lone i s req (Suc k) rs d ecb p"
  shows "\<exists>q. resend s req r p = (q, None) \<and> lone (i + 1) s req k (rs @ [r]) d ecb q \<and>
     pl_client q = pl_client p \<and> attempts q = attempts p @ [d]"
proof -
  note f = l [unfolded lone_def]
  have "resend s req r p =
    ((resent s (int (Suc k)) (rs @ [r]) d p)\<lparr>pl_n_resent := pl_n_resent p + 1\<rparr>, None)"
    using f resend_again [of p s req "int (Suc k)" rs d r] by (simp add: no_faults_def)
  moreover have "lone (i + 1) s req k (rs @ [r]) d ecb
      ((resent s (int (Suc k)) (rs @ [r]) d p)\<lparr>pl_n_resent := pl_n_resent p + 1\<rparr>)"
    using f by (auto simp: lone_def resent_def pl_inv_def seqs_def no_faults_def)
  ultimately show ?thesis by (simp add: resent_def)
qed

lemma lone_again:
  assumes l: "lone 1 s req (Suc k) rs d ecb p" and ev: "retry_event s ev"
  shows "\<exists>p'. retrieve_step rd ev p = (p', None) \<and> lone 1 s req k (rs @ [event_reason ev]) d ecb p' \<and>
     pl_client p' = pl_client p \<and> attempts p' = attempts p @ [d]"
  using ev
proof (cases rule: retry_event_cases)
  case 1
  have "lone 0 s req (Suc k) rs d ecb (p\<lparr>pl_n_timeouts := pl_n_timeouts p + 1, pl_in_progress := 0\<rparr>)"
    using l by (intro lone_admin)
  from lone_resend [OF this, of "''timeout''"] 1 l show ?thesis
    by (auto simp: retrieve_step_def single_retrieve_def handle_receive_timeout_def lone_def Let_def)
next
  case (2 result raw off)
  have "lone 0 s req (Suc k) rs d ecb (p\<lparr>pl_in_progress := 0\<rparr>)" by (rule lone_admin(1) [OF l])
  from lone_resend [OF this, of "str_result result"] obtain q where
    q: "resend s req (str_result result) (p\<lparr>pl_in_progress := 0\<rparr>) = (q, None)"
      "lone 1 s req k (rs @ [str_result result]) d ecb q"
      "pl_client q = pl_client p" "attempts q = attempts p @ [d]" by auto
  then have "retrieve_step rd ev p = (q\<lparr>pl_n_retry_code_resent := pl_n_retry_code_resent q + 1\<rparr>, None)"
    using 2 l by (simp add: retrieve_step_def single_retrieve_def lone_def Let_def)
  with lone_admin(3) [OF q(2)] q(3,4) 2 show ?thesis by auto
qed

lemma lone_give_up:
  fixes r :: string
  assumes l: "lone i s req 0 rs d ecb p"
  defines "e \<equiv> (if list_all (\<lambda>r. r = ''timeout'') (rs @ [r]) then SpinnmanTimeout else SpinnmanIO)"
  shows "\<exists>q q'. resend s req r p = (q, Some e) \<and> pl_non_fail_retry_codes q = [] \<and>
     call_error_callback s req e q = (q', None) \<and> remove_record s q' = (removed s q', None) \<and>
     pl_requests q' = [(s, req)] \<and> pl_in_progress q' = i \<and>
     pl_client q' = ecb req e (pl_client p) \<and> attempts q' = attempts p"
proof -
  note f = l [unfolded lone_def]
  let ?q = "p\<lparr>pl_retry_reason := (pl_retry_reason p)(s \<mapsto> rs @ [r])\<rparr>"
  let ?q' = "?q\<lparr>pl_client := ecb req e (pl_client p)\<rparr>"
  have "resend s req r p = (?q, Some e)"
    unfolding e_def using f lone_seqs [OF l] by (intro resend_exhausted) auto
  moreover have "call_error_callback s req e ?q = (?q', None)"
    using f by (simp add: call_error_callback_def)
  moreover have "remove_record s ?q' = (removed s ?q', None)"
    using f by (intro remove_record_eq) (auto simp: pl_inv_def seqs_def)
  ultimately show ?thesis using f by (intro exI [of _ ?q] exI [of _ ?q']) simp
qed

lemma lone_exhausted:
  fixes ev :: recv
  assumes l: "lone 1 s req 0 rs d ecb p" and ev: "retry_event s ev"
  defines "e \<equiv> (if list_all (\<lambda>r. r = ''timeout'') (rs @ [event_reason ev])
                then SpinnmanTimeout else SpinnmanIO)"
  shows "\<exists>p'. retrieve_step rd ev p = (p', None) \<and> pl_requests p' = [] \<and> pl_in_progress p' = 0 \<and>
     pl_client p' = ecb req e (pl_client p) \<and> attempts p' = attempts p"
  using ev
proof (cases rule: retry_event_cases)
  case 1
  let ?p = "p\<lparr>pl_n_timeouts := pl_n_timeouts p + 1, pl_in_progress := 0\<rparr>"
  have "lone 0 s req 0 rs d ecb ?p" using l by (intro lone_admin)
  from lone_give_up [OF this, of "''timeout''"] obtain q q' where q:
    "resend s req ''timeout'' ?p = (q, Some e)" "call_error_callback s req e q = (q', None)"
    "remove_record s q' = (removed s q', None)" "pl_requests q' = [(s, req)]"
    "pl_in_progress q' = 0" "pl_client q' = ecb req e (pl_client p)" "attempts q' = attempts p"
    using 1 by (auto simp: e_def)
  have "retrieve_step rd ev p = (removed s q', None)"
    using 1 l q(1-3)
    by (simp add: retrieve_step_def single_retrieve_def handle_receive_timeout_def lone_def Let_def then_do_def)
  with q show ?thesis by simp
next
  case (2 result raw off)
  have "lone 0 s req 0 rs d ecb (p\<lparr>pl_in_progress := 0\<rparr>)" by (rule lone_admin(1) [OF l])
  from lone_give_up [OF this, of "str_result result"] obtain q q' where q:
    "resend s req (str_result result) (p\<lparr>pl_in_progress := 0\<rparr>) = (q, Some e)"
    "pl_non_fail_retry_codes q = []" "call_error_callback s req e q = (q', None)"
    "remove_record s q' = (removed s q', None)" "pl_requests q' = [(s, req)]"
    "pl_in_progress q' = 0" "pl_client q' = ecb req e (pl_client p)" "attempts q' = attempts p"
    using 2 by (auto simp: e_def)
  have "retrieve_step rd ev p = (removed s q', None)"
    using 2 l q(1-4)
    by (simp add: retrieve_step_def single_retrieve_def lone_def Let_def fail_record_def then_do_def)
  with q show ?thesis by simp
qed

lemma do_retrieve_nothing: "pl_in_progress p \<le> n \<Longrightarrow> do_retrieve rd n p evs = Returned p evs"
  by (cases evs) simp_all

lemma retry_exhaustion_from:
  fixes evs :: "recv list"
  assumes "lone 1 s req k rs d ecb p" and "length evs = Suc k" and "list_all (retry_event s) evs"
  defines "e \<equiv> (if list_all (\<lambda>r. r = ''timeout'') (rs @ map event_reason evs)
                then SpinnmanTimeout else SpinnmanIO)"
  shows "\<exists>p'. do_retrieve rd 0 p (evs @ rest) = Returned p' rest \<and> pl_requests p' = [] \<and>
     pl_in_progress p' = 0 \<and> pl_client p' = ecb req e (pl_client p) \<and>
     attempts p' = attempts p @ replicate k d"
  using assms(1-3) unfolding e_def
proof (induction k arbitrary: rs p evs)
  case 0
  then obtain ev where evs: "evs = [ev]" "retry_event s ev" by (cases evs) auto
  have ip: "pl_in_progress p = 1" using 0(1) by (simp add: lone_def)
  obtain p' where p': "retrieve_step rd ev p = (p', None)" "pl_requests p' = []" "pl_in_progress p' = 0"
    "pl_client p' = ecb req (if list_all (\<lambda>r. r = ''timeout'') (rs @ [event_reason ev])
        then SpinnmanTimeout else SpinnmanIO) (pl_client p)" "attempts p' = attempts p"
    using lone_exhausted [OF 0(1) evs(2), of rd] by blast
  have "do_retrieve rd 0 p (evs @ rest) = Returned p' rest"
    using evs ip p'(1,3) by (simp add: do_retrieve_nothing)
  with p' evs show ?case by simp
next
  case (Suc k)
  then obtain ev evs' where evs: "evs = ev # evs'" "retry_event s ev" "length evs' = Suc k"
    "list_all (retry_event s) evs'" by (cases evs) auto
  have ip: "pl_in_progress p = 1" using Suc.prems(1) by (simp add: lone_def)
  obtain q where q: "retrieve_step rd ev p = (q, None)" "lone 1 s req k (rs @ [event_reason ev]) d ecb q"
    "pl_client q = pl_client p" "attempts q = attempts p @ [d]"
    using lone_again [OF Suc.prems(1) evs(2), of rd] by blast
  have "do_retrieve rd 0 p (evs @ rest) = do_retrieve rd 0 q (evs' @ rest)"
    using evs ip q(1) by simp
  with Suc.IH [OF q(2) evs(3,4)] q(3,4) evs(1) show ?case by simp
qed

text \<open>
  C5: how a request fails. A single outstanding request with \<open>k\<close> retries left, no earlier reasons and
  no excused codes meets \<open>k + 1\<close> events that are each a timeout or a reply to it with a retry code.
  Then its stored data has been sent again exactly \<open>k\<close> times, its error callback runs once, with a
  \<open>SpinnmanTimeoutException\<close> when every event was a timeout and a \<open>SpinnmanIOException\<close> otherwise,
  and \<open>finish\<close> returns without looking at further events.
\<close>
theorem retry_exhaustion:
  assumes "lone 1 s req k [] d ecb p" and "length evs = Suc k" and "list_all (retry_event s) evs"
  shows "\<exists>p'. finish rd p (evs @ rest) = Some (Returned p' rest) \<and> pl_requests p' = [] \<and>
     pl_client p' = ecb req (if list_all times_out evs then SpinnmanTimeout else SpinnmanIO) (pl_client p) \<and>
     attempts p' = attempts p @ replicate k d"
proof -
  have "pl_in_progress p = 1" using assms(1) by (simp add: lone_def)
  moreover have "list_all (\<lambda>r. r = ''timeout'') (map event_reason evs) = list_all times_out evs"
    using assms(3) by (auto simp: list_all_iff dest: event_reason_timeout)
  ultimately show ?thesis
    using retry_exhaustion_from [OF assms, of rd rest] by (auto simp: finish_eq)
qed

subsection \<open>Loops that never end\<close>

text \<open>A response counted as outstanding without a request: nothing can ever take it away.\<close>

lemma do_retrieve_stuck:
  assumes "pl_inv p" and "pl_requests p = []" and "n < pl_in_progress p" and "list_all benign evs"
  shows "\<exists>p'. do_retrieve rd n p evs = Waiting p'"
  using assms
proof (induction evs arbitrary: p)
  case (Cons ev evs)
  obtain p' err where s: "retrieve_step rd ev p = (p', err)" "steps_to p p'"
    "err \<noteq> None \<longrightarrow> p' = p \<and> (\<exists>e. err = Some e \<and> e \<noteq> SpinnmanTimeout \<and> receive_scp_response ev = Inl e)"
    using retrieve_step_steps [OF Cons.prems(1), of rd ev] by blast
  have "err = None" using s(3) Cons.prems(4) by (auto simp: benign_def)
  moreover have ev: "evolves p p'" "leak p \<le> leak p'" using s(2) by (auto simp: steps_to_def leaks_def)
  have "pl_requests p' = []" using evolvesD(4) [OF ev(1)] Cons.prems(2) by simp
  moreover have "n < pl_in_progress p'"
    using ev(2) Cons.prems(2,3) calculation(2) by (simp add: leak_def seqs_def)
  ultimately show ?case
    using Cons.IH [of p'] evolvesD(2) [OF ev(1)] Cons.prems(3,4) s(1) by simp
qed simp

lemma finish_stuck:
  assumes "pl_inv p" and "pl_requests p = []" and "0 < pl_in_progress p" and "list_all benign evs"
  shows "\<exists>p'. finish rd p evs = Some (Waiting p')"
  using do_retrieve_stuck [OF assms(1-3), of evs rd] assms(3,4) by (simp add: finish_eq)

lemma resend_fault:
  assumes inv: "pl_inv p" and one: "pl_requests p = [(s, req)]" and ip: "pl_in_progress p = 1"
    and ret: "pl_retries p s = Some n" "0 < n"
    and fault: "conn_faults (pl_connection p) (length (attempts p)) = Some e"
  shows "\<exists>q. handle_receive_timeout p = (q, None) \<and> pl_inv q \<and> pl_requests q = [] \<and>
     pl_in_progress q = 1 \<and> pl_client q = the (pl_error_callbacks p s) req e (pl_client p)"
proof -
  have s: "s \<in> set (seqs p)" using one by (simp add: seqs_def)
  from inv s obtain d ecb rs where r: "pl_request_data p s = Some d"
    "pl_error_callbacks p s = Some ecb" "pl_retry_reason p s = Some rs" by (rule pl_inv_records)
  let ?p1 = "p\<lparr>pl_n_timeouts := pl_n_timeouts p + 1, pl_in_progress := 0\<rparr>"
  let ?q = "resent s n (rs @ [''timeout'']) d ?p1"
  let ?q' = "?q\<lparr>pl_client := ecb req e (pl_client p)\<rparr>"
  have "resend s req ''timeout'' ?p1 = (?q, Some e)"
    using resend_again [of ?p1 s req n rs d "''timeout''"] one ret r fault by simp
  moreover have "call_error_callback s req e ?q = (?q', None)"
    using r by (simp add: call_error_callback_def resent_def)
  moreover have inv': "pl_inv ?q'" "s \<in> set (seqs ?q')"
    using inv s ret r by (auto simp: pl_inv_def resent_def seqs_def)
  then have "remove_record s ?q' = (removed s ?q', None)" by (rule remove_record_eq)
  ultimately have "handle_receive_timeout p = (removed s ?q', None)"
    using one ip by (simp add: handle_receive_timeout_def Let_def then_do_def)
  moreover have "pl_requests (removed s ?q') = []" "pl_in_progress (removed s ?q') = 1"
    "pl_client (removed s ?q') = the (pl_error_callbacks p s) req e (pl_client p)"
    using one r by (simp_all add: resent_def)
  ultimately show ?thesis using removed_inv [OF inv'(1)] by blast
qed

text \<open>
  C6: a send that fails while resending is reported and yet hangs the pipeline. With one request
  outstanding and retries left, let the next send raise: on a timeout the request is given up through
  its error callback with that exception and its record is removed, but the response it counted stays
  counted, and no further sequence of timeouts and SCP datagrams lets \<open>finish\<close> return.
\<close>
theorem failed_resend_hangs_finish:
  assumes "pl_inv p" and "pl_requests p = [(s, req)]" and "pl_in_progress p = 1"
    and "pl_retries p s = Some n" and "0 < n"
    and "conn_faults (pl_connection p) (length (attempts p)) = Some e"
    and "list_all benign evs"
  shows "\<exists>q p'. retrieve_step rd RecvTimeout p = (q, None) \<and> pl_requests q = [] \<and>
     pl_client q = the (pl_error_callbacks p s) req e (pl_client p) \<and> pl_in_progress q = 1 \<and>
     finish rd p (RecvTimeout # evs) = Some (Waiting p')"
proof -
  obtain q where h: "handle_receive_timeout p = (q, None)" and q: "pl_inv q" "pl_requests q = []"
    "pl_in_progress q = 1" "pl_client q = the (pl_error_callbacks p s) req e (pl_client p)"
    using resend_fault [OF assms(1-6)] by blast
  have st: "retrieve_step rd RecvTimeout p = (q, None)"
    using h by (simp add: retrieve_step_def single_retrieve_def receive_scp_response_def udp_receive_def)
  have "0 < pl_in_progress q" using q(3) by simp
  then obtain p' where "do_retrieve rd 0 q evs = Waiting p'"
    using do_retrieve_stuck [OF q(1,2) _ assms(7)] by blast
  then have "finish rd p (RecvTimeout # evs) = Some (Waiting p')"
    using assms(3) st by (simp add: finish_eq)
  with st q show ?thesis by blast
qed

text \<open>
  C7: a wait level that is not below the window makes \<open>send_request\<close> loop for ever: with the window
  full, retrieving down to the wait level is already done and the window never empties.
\<close>
theorem send_request_diverges:
  fixes p :: "'w pipeline"
  assumes "pl_n_channels p = Some n" and "pl_intermediate_channel_waits p = Some w"
    and "n \<le> pl_in_progress p" and "pl_in_progress p \<le> w"
  shows "send_request rd ready req cb ecb p sq evs = None"
proof -
  have "\<not> (pl_n_channels q = Some n \<and> pl_intermediate_channel_waits q = Some w \<and>
      n \<le> pl_in_progress q \<and> pl_in_progress q \<le> w)"
    if d: "drain rd q evs' = Some y" for q :: "'w pipeline" and evs' y
  proof (rule drain.raw_induct [of "\<lambda>rd q evs y. \<not> (pl_n_channels q = Some n \<and>
        pl_intermediate_channel_waits q = Some w \<and> n \<le> pl_in_progress q \<and> pl_in_progress q \<le> w)", OF _ d],
      rule notI)
    fix drain' and rd :: reader and q :: "'w pipeline" and evs y
    assume IH: "\<And>rd q evs y. drain' rd q evs = Some y \<Longrightarrow> \<not> (pl_n_channels q = Some n \<and>
        pl_intermediate_channel_waits q = Some w \<and> n \<le> pl_in_progress q \<and> pl_in_progress q \<le> w)"
      and body: "(case pl_n_channels q of None \<Rightarrow> Some (Returned q evs)
        | Some n \<Rightarrow>
          if n \<le> pl_in_progress q then
            (case pl_intermediate_channel_waits q of None \<Rightarrow> Some (Raised PyTypeError q evs)
             | Some waits \<Rightarrow>
                 (case do_retrieve rd waits q evs of Returned p' evs' \<Rightarrow> drain' rd p' evs'
                  | Raised e p' evs' \<Rightarrow> Some (Raised e p' evs') | Waiting p' \<Rightarrow> Some (Waiting p')))
          else Some (Returned q evs)) = Some y"
      and q: "pl_n_channels q = Some n \<and> pl_intermediate_channel_waits q = Some w \<and>
        n \<le> pl_in_progress q \<and> pl_in_progress q \<le> w"
    then have "drain' rd q evs = Some y" by (simp add: do_retrieve_nothing)
    with IH q show False by blast
  qed
  from this [of p evs] have "drain rd p evs = None" using assms by (cases "drain rd p evs") auto
  then show ?thesis using assms by (simp add: send_request_def measure_channels_def)
qed

subsection \<open>The properties at work\<close>

text \<open>
  A pipeline with a window of one channel and three retries, whose client is the list of completions,
  and the same pipeline after \<open>sample_request\<close> was sent under sequence number 0.
\<close>

type_synonym log = "(int \<times> exc option) list"

definition log_ok :: "int \<Rightarrow> log callback" where
  "log_ok s r w = (w @ [(s, None)], None)"

definition log_error :: "int \<Rightarrow> log error_callback" where
  "log_error s req e w = w @ [(s, Some e)]"

definition log_obs :: "log \<Rightarrow> int multiset" where
  "log_obs w = mset (map fst w)"

definition sample_start :: "exc option \<Rightarrow> log pipeline" where
  "sample_start fault = pipeline_init
     (sample_connection\<lparr>conn_faults := (\<lambda>i. if i = 0 then None else fault)\<rparr>) (Some 1) None 3 None []"

definition sample_pipeline :: "exc option \<Rightarrow> log pipeline" where
  "sample_pipeline fault =
     fst (store_and_send 0 sample_request (Some (log_ok 0)) (log_error 0) (sample_start fault))"

lemma sample_data: "\<exists>r d. get_scp_data (pl_connection (sample_start fault)) (set_sequence 0 sample_request) = (r, Inr d)"
proof -
  have "set_sequence 0 sample_request = sample_request"
    by (simp add: set_sequence_def sample_request_def abstract_scp_request_def)
  then show ?thesis
    using get_scp_data_ok [OF sample_request_ok, of "pl_connection (sample_start fault)"]
    by (auto simp: sample_start_def pipeline_init_def sample_connection_def)
qed

lemma sample_start_ok:
  "pl_inv (sample_start fault)" "leak (sample_start fault) = 0" "seqs (sample_start fault) = []"
  by (simp_all add: sample_start_def pipeline_init_def pl_inv_def leak_def seqs_def)

lemma sample_sent:
  "store_and_send 0 sample_request (Some (log_ok 0)) (log_error 0) (sample_start fault)
     = (sample_pipeline fault, None)"
proof -
  obtain r d where "get_scp_data (pl_connection (sample_start fault)) (set_sequence 0 sample_request) = (r, Inr d)"
    using sample_data by blast
  then show ?thesis
    by (simp add: sample_pipeline_def store_and_send_def then_do_def wire_send_def conn_send_def)
      (simp add: sample_start_def pipeline_init_def sample_connection_def)
qed

lemma sample_pipeline_lone:
  "\<exists>req d. pl_requests (sample_pipeline fault) = [(0, req)] \<and> pl_inv (sample_pipeline fault) \<and>
     leak (sample_pipeline fault) = 0 \<and> pl_in_progress (sample_pipeline fault) = 1 \<and>
     pl_retries (sample_pipeline fault) 0 = Some 3 \<and> pl_retry_reason (sample_pipeline fault) 0 = Some [] \<and>
     pl_error_callbacks (sample_pipeline fault) = [0 \<mapsto> log_error 0] \<and>
     pl_callbacks (sample_pipeline fault) = [0 \<mapsto> Some (log_ok 0)] \<and>
     pl_request_data (sample_pipeline fault) 0 = Some d \<and>
     pl_non_fail_retry_codes (sample_pipeline fault) = [] \<and> pl_client (sample_pipeline fault) = [] \<and>
     attempts (sample_pipeline fault) = [d] \<and>
     conn_faults (pl_connection (sample_pipeline fault)) = (\<lambda>i. if i = 0 then None else fault)"
proof -
  obtain r d where d: "get_scp_data (pl_connection (sample_start fault)) (set_sequence 0 sample_request) = (r, Inr d)"
    using sample_data by blast
  note new = store_and_send_new [OF sample_start_ok(1) _ sample_sent, unfolded sample_start_ok]
  have "pl_inv (sample_pipeline fault)" "leak (sample_pipeline fault) = 0"
    using new(1,3) by simp_all
  then show ?thesis
    using d
    by (simp add: sample_pipeline_def store_and_send_def then_do_def wire_send_def conn_send_def)
      (simp add: sample_start_def pipeline_init_def sample_connection_def)
qed

lemma sample_logs: "logs log_obs (sample_pipeline fault)"
  using sample_pipeline_lone [of fault]
  by (auto simp: logs_def log_obs_def log_ok_def log_error_def split: if_splits)

lemma timeout_event [simp]: "benign RecvTimeout" "times_out RecvTimeout" "retry_event s RecvTimeout"
  by (simp_all add: benign_def times_out_def retry_event_def receive_scp_response_def udp_receive_def)

lemma sample_ready: "pl_ready 4 (sample_pipeline None)"
  using sample_pipeline_lone [of None] by (auto simp: pl_ready_def no_faults_def seqs_def)

theorem finish_completes_each_once_witness:
  "\<exists>p' evs'. finish (read_bytestring 6) (sample_pipeline None) (replicate 4 RecvTimeout)
       = Some (Returned p' evs') \<and> pl_requests p' = [] \<and> log_obs (pl_client p') = {#0#}"
  using finish_completes_each_once [OF sample_ready, of "replicate 4 RecvTimeout" log_obs "read_bytestring 6"]
    sample_logs [of None] sample_pipeline_lone [of None]
  by (auto simp: timeouts_def log_obs_def list_all_iff)

theorem do_retrieve_safe_witness:
  "(let p' = outcome_state (do_retrieve (read_bytestring 6) 0 (sample_pipeline None) [RecvTimeout]) in
     pl_inv p' \<and> int (length (pl_requests p')) \<le> pl_in_progress p')"
  using do_retrieve_safe [of "sample_pipeline None" "read_bytestring 6" 0 "[RecvTimeout]"]
    sample_pipeline_lone [of None]
  by (auto simp: Let_def)

theorem send_request_window_witness:
  "pl_inv (sample_pipeline None) \<and> pl_in_progress (sample_pipeline None) \<le> 1 \<and>
     log_obs (pl_client (sample_pipeline None)) + mset (seqs (sample_pipeline None)) = {#0#}"
proof -
  have start: "pl_n_channels (sample_start None) = Some 1" "pl_in_progress (sample_start None) = 0"
    "pl_intermediate_channel_waits (sample_start None) = Some 0" "pl_client (sample_start None) = []"
    by (simp_all add: sample_start_def pipeline_init_def)
  have "drain (read_bytestring 6) (sample_start None) [] = Some (Returned (sample_start None) [])"
    using start by (subst drain.simps) simp
  then have sent: "send_request (read_bytestring 6) False sample_request (Some (log_ok 0)) (log_error 0)
      (sample_start None) 0 [] = Some (Returned (sample_pipeline None, 1) [])"
    using start sample_sent [of None]
    by (simp add: send_request_def measure_channels_def get_next_sequence_number_def MAX_SEQUENCE_def)
  have l: "logs log_obs (sample_start None)"
    by (simp add: sample_start_def pipeline_init_def logs_def)
  from send_request_window [OF _ _ _ start(1,3) _ sent, of log_obs] show ?thesis
    using sample_start_ok [of None] start l by (simp add: log_obs_def)
qed

theorem retry_exhaustion_witness:
  "\<exists>p'. finish (read_bytestring 6) (sample_pipeline None) (replicate 4 RecvTimeout @ [])
       = Some (Returned p' []) \<and> pl_client p' = [(0, Some SpinnmanTimeout)] \<and>
     length (attempts p') = 4"
proof -
  obtain req d where "lone 1 0 req 3 [] d (log_error 0) (sample_pipeline None)"
    "pl_client (sample_pipeline None) = []" "attempts (sample_pipeline None) = [d]"
    using sample_pipeline_lone [of None] by (auto simp: lone_def no_faults_def)
  then show ?thesis
    using retry_exhaustion [of 0 req 3 d "log_error 0" "sample_pipeline None" "replicate 4 RecvTimeout"
        "read_bytestring 6" "[]"]
    by (auto simp: log_error_def list_all_iff)
qed

theorem failed_resend_hangs_finish_witness:
  "\<exists>q p'. retrieve_step (read_bytestring 6) RecvTimeout (sample_pipeline (Some SpinnmanIO)) = (q, None) \<and>
     pl_client q = [(0, Some SpinnmanIO)] \<and> pl_in_progress q = 1 \<and>
     finish (read_bytestring 6) (sample_pipeline (Some SpinnmanIO)) [RecvTimeout, RecvTimeout]
       = Some (Waiting p')"
proof -
  obtain req d where s: "pl_requests (sample_pipeline (Some SpinnmanIO)) = [(0, req)]"
    "pl_inv (sample_pipeline (Some SpinnmanIO))" "pl_in_progress (sample_pipeline (Some SpinnmanIO)) = 1"
    "pl_retries (sample_pipeline (Some SpinnmanIO)) 0 = Some 3"
    "pl_error_callbacks (sample_pipeline (Some SpinnmanIO)) = [0 \<mapsto> log_error 0]"
    "pl_client (sample_pipeline (Some SpinnmanIO)) = []"
    "attempts (sample_pipeline (Some SpinnmanIO)) = [d]"
    "conn_faults (pl_connection (sample_pipeline (Some SpinnmanIO))) = (\<lambda>i. if i = 0 then None else Some SpinnmanIO)"
    using sample_pipeline_lone [of "Some SpinnmanIO"] by blast
  from s show ?thesis
    using failed_resend_hangs_finish [OF s(2,1,3,4), of SpinnmanIO "[RecvTimeout]" "read_bytestring 6"]
    by (auto simp: log_error_def)
qed

theorem send_request_diverges_witness:
  "send_request (read_bytestring 6) False sample_request None (log_error 1)
     ((sample_pipeline None)\<lparr>pl_intermediate_channel_waits := Some 1, pl_n_channels := Some 1\<rparr>) 1 [] = None"
  using send_request_diverges
    [of "(sample_pipeline None)\<lparr>pl_intermediate_channel_waits := Some 1, pl_n_channels := Some 1\<rparr>" 1 1]
    sample_pipeline_lone [of None]
  by auto

end
