(* ===== verification/PipelineClient.thy ===== *)
theory PipelineClient
  imports PipelineProps
begin

text \<open>
  The contract between the pipeline and what its callbacks do, as a locale: an invariant \<open>J S w\<close> of
  the client state \<open>w\<close> while the requests numbered \<open>S\<close> are outstanding, which every callback and
  error callback keeps as it takes its own number out of \<open>S\<close>, provided the responses are the right
  ones. The pipeline then keeps the invariant over every sequence of events whose replies are right.
\<close>

text \<open>A pipeline with a proper window, whose count covers its records.\<close>

definition windowed :: "'w pipeline \<Rightarrow> bool" where
  "windowed p \<longleftrightarrow> 0 \<le> leak p \<and>
     (\<exists>n w. pl_n_channels p = Some n \<and> pl_intermediate_channel_waits p = Some w \<and> w < n)"

lemma steps_windowed: "steps_to p q \<Longrightarrow> windowed p \<Longrightarrow> windowed q"
  by (auto simp: windowed_def steps_to_def leaks_def evolves_def static_def)

locale pipeline_client =
  fixes rd :: reader
    and J :: "int set \<Rightarrow> 'w \<Rightarrow> bool"
    and right :: "int \<Rightarrow> response \<Rightarrow> bool"
    and kind :: "int \<Rightarrow> response_kind"
    and cb :: "int \<Rightarrow> 'w callback option"
    and ecb :: "int \<Rightarrow> 'w error_callback"
  assumes ecb_keeps: "s \<in> S \<Longrightarrow> J S w \<Longrightarrow> J (S - {s}) (ecb s req e w)"
    and cb_keeps: "s \<in> S \<Longrightarrow> J S w \<Longrightarrow> right s r \<Longrightarrow> cb s = Some f \<Longrightarrow> f r w = (w', None) \<Longrightarrow> J (S - {s}) w'"
    and cb_raises: "s \<in> S \<Longrightarrow> J S w \<Longrightarrow> right s r \<Longrightarrow> cb s = Some f \<Longrightarrow> f r w = (w', Some e) \<Longrightarrow> J S w'"
    and no_cb: "s \<in> S \<Longrightarrow> J S w \<Longrightarrow> right s r \<Longrightarrow> cb s = None \<Longrightarrow> J (S - {s}) w"
begin

text \<open>The records of the pipeline are the client's.\<close>

definition bound :: "'w pipeline \<Rightarrow> bool" where
  "bound p \<longleftrightarrow> pl_inv p \<and>
     (\<forall>s \<in> set (seqs p). pl_callbacks p s = Some (cb s) \<and> pl_error_callbacks p s = Some (ecb s)) \<and>
     (\<forall>(s, req) \<in> set (pl_requests p). req_response req = kind s)"

text \<open>\<open>T\<close> are outstanding requests of other pipelines over the same client, \<open>G\<close> those given up here.\<close>

definition served :: "int set \<Rightarrow> int set \<Rightarrow> 'w pipeline \<Rightarrow> bool" where
  "served G T p \<longleftrightarrow> bound p \<and> set (seqs p) \<inter> T = {} \<and> J ((set (seqs p) - G) \<union> T) (pl_client p)"

definition honest :: "recv \<Rightarrow> bool" where
  "honest ev \<longleftrightarrow> (\<forall>result s raw off r.
     receive_scp_response ev = Inr (result, s, raw, off) \<longrightarrow> rd (kind s) raw off = Inr r \<longrightarrow> right s r)"

lemma evolves_bound:
  assumes e: "evolves p q" and b: "bound p"
  shows "bound q"
proof -
  note d = evolvesD [OF e]
  have "set (pl_requests q) \<subseteq> set (pl_requests p)" by (subst d(4)) auto
  moreover have "pl_callbacks q s = Some (cb s)" "pl_error_callbacks q s = Some (ecb s)"
    if "s \<in> set (seqs q)" for s
    using that b d(3) by (auto simp: d(5) d(6) bound_def)
  ultimately show ?thesis using b d(2) by (auto simp: bound_def)
qed

lemma keeps_served:
  assumes k: "keeps p q" and sv: "served G T p"
  shows "served G T q"
  using evolves_bound [OF keepsD(1) [OF k]] keepsD(3,4) [OF k] sv by (simp add: served_def)

lemma served_removed:
  assumes "served {} T p" and "s \<in> set (seqs p)" and "J ((set (seqs p) \<union> T) - {s}) w"
  shows "served {} T (removed s (p\<lparr>pl_client := w\<rparr>))"
proof -
  have inv: "pl_inv p" using assms(1) by (simp add: served_def bound_def)
  have "evolves p (removed s (p\<lparr>pl_client := w\<rparr>))"
    using evolves_trans [OF set_client_evolves [OF inv] removed_evolves] inv by simp
  then have "bound (removed s (p\<lparr>pl_client := w\<rparr>))"
    using evolves_bound assms(1) by (simp add: served_def)
  moreover have "(set (seqs p) \<union> T) - {s} = (set (seqs p) - {s}) \<union> T"
    using assms(1,2) by (auto simp: served_def)
  ultimately show ?thesis using assms(1,3) by (auto simp: served_def)
qed

lemma fail_record_served:
  assumes sv: "served {} T p" and s: "s \<in> set (seqs p)"
  shows "\<exists>p'. fail_record s req e p = (p', None) \<and> served {} T p'"
proof -
  have b: "pl_inv p" "pl_error_callbacks p s = Some (ecb s)" "J (set (seqs p) \<union> T) (pl_client p)"
    using sv s by (auto simp: served_def bound_def)
  have "J ((set (seqs p) \<union> T) - {s}) (ecb s req e (pl_client p))"
    using s by (intro ecb_keeps b(3)) simp
  from served_removed [OF sv s this] fail_record_eq [OF b(1) s b(2)] show ?thesis by blast
qed

lemma process_response_served:
  assumes sv: "served {} T p" and s: "s \<in> set (seqs p)" and k: "req_response req = kind s"
    and right: "\<And>r. rd (kind s) raw off = Inr r \<Longrightarrow> right s r"
  shows "\<exists>p'. process_response rd s req raw off p = (p', None) \<and> served {} T p'"
proof (cases "rd (kind s) raw off")
  case (Inl e)
  with fail_record_served [OF sv s, of req e] k show ?thesis by (simp add: process_response_def)
next
  case (Inr r)
  have b: "pl_inv p" "pl_callbacks p s = Some (cb s)" "J (set (seqs p) \<union> T) (pl_client p)"
    using sv s by (auto simp: served_def bound_def)
  have s': "s \<in> set (seqs p) \<union> T" using s by simp
  note r = right [OF Inr]
  show ?thesis
  proof (cases "cb s")
    case None
    from served_removed [OF sv s no_cb [OF s' b(3) r None]] show ?thesis
      using Inr k None b remove_record_eq [OF b(1) s] by (simp add: process_response_def)
  next
    case (Some f)
    obtain w err where f: "f r (pl_client p) = (w, err)" by fastforce
    show ?thesis
    proof (cases err)
      case None
      from f None have "f r (pl_client p) = (w, None)" by simp
      from served_removed [OF sv s cb_keeps [OF s' b(3) r Some this]] show ?thesis
        using Inr k Some b f None s by (simp add: process_response_def remove_record_eq)
    next
      case err: (Some e)
      from f err have "f r (pl_client p) = (w, Some e)" by simp
      from cb_raises [OF s' b(3) r Some this] have "J (set (seqs p) \<union> T) w" .
      then have "served {} T (p\<lparr>pl_client := w\<rparr>)"
        using sv evolves_bound [OF set_client_evolves [OF b(1)]] by (auto simp: served_def)
      from fail_record_served [OF this, of s req e] show ?thesis
        using s Inr k Some b f err by (simp add: process_response_def)
    qed
  qed
qed

lemma single_retrieve_served:
  assumes sv: "served {} T p" and h: "honest ev"
    and ev: "receive_scp_response ev = Inr (result, s, raw, off)"
  shows "\<exists>p'. single_retrieve rd ev p = (p', None) \<and> served {} T p'"
proof (cases "map_of (pl_requests p) s")
  case None
  then show ?thesis using sv ev by (simp add: single_retrieve_def)
next
  case (Some req)
  have inv: "pl_inv p" using sv by (simp add: served_def bound_def)
  have s: "s \<in> set (seqs p)" using map_of_SomeD [OF Some] by (force simp: seqs_def)
  have k: "req_response req = kind s" using sv map_of_SomeD [OF Some] by (auto simp: served_def bound_def)
  have r: "rd (kind s) raw off = Inr r \<Longrightarrow> right s r" for r
    using h ev by (auto simp: honest_def)
  let ?p1 = "p\<lparr>pl_in_progress := pl_in_progress p - 1\<rparr>"
  have k1: "keeps p ?p1" by (rule keeps_admin(1) [OF inv])
  note sv1 = keeps_served [OF k1 sv]
  have process: "\<exists>p'. process_response rd s req raw off q = (p', None) \<and> served {} T p'"
    and fails: "\<exists>p'. fail_record s req e q = (p', None) \<and> served {} T p'" if "keeps ?p1 q" for q e
    using process_response_served [OF keeps_served [OF that sv1] _ k r]
      fail_record_served [OF keeps_served [OF that sv1], of s req e] keepsD(3) [OF that] keepsD(3) [OF k1] s
    by auto
  obtain q err where q: "resend s req (str_result result) ?p1 = (q, err)" "keeps ?p1 q"
    using resend_effect [of ?p1 s req "str_result result"] keepsD(3,6) [OF k1] s Some by auto
  have "served {} T (q\<lparr>pl_n_retry_code_resent := pl_n_retry_code_resent q + 1\<rparr>)"
    using keeps_served [OF keeps_admin(4) keeps_served [OF q(2) sv1]] keepsD(6) [OF q(2)] by blast
  then show ?thesis
    using process [OF q(2)] process [OF keeps_refl [OF keepsD(6) [OF k1]]] fails [OF q(2)] q(1) Some ev
    by (cases err) (auto simp: single_retrieve_def Let_def)
qed

lemma give_up_served:
  assumes sv: "served G T p" and s: "s \<in> set (seqs p)" "s \<notin> G"
  shows "\<exists>q. call_error_callback s req e p = (q, None) \<and> served (insert s G) T q \<and> keeps p (q\<lparr>pl_client := pl_client p\<rparr>)
     \<and> seqs q = seqs p \<and> pl_requests q = pl_requests p"
proof -
  have b: "pl_inv p" "pl_error_callbacks p s = Some (ecb s)" "J ((set (seqs p) - G) \<union> T) (pl_client p)"
    using sv s by (auto simp: served_def bound_def)
  let ?q = "p\<lparr>pl_client := ecb s req e (pl_client p)\<rparr>"
  have "J (((set (seqs p) - G) \<union> T) - {s}) (ecb s req e (pl_client p))"
    using s by (intro ecb_keeps b(3)) simp
  moreover have "((set (seqs p) - G) \<union> T) - {s} = (set (seqs p) - insert s G) \<union> T"
    using sv s by (auto simp: served_def)
  ultimately have "served (insert s G) T ?q"
    using sv evolves_bound [OF set_client_evolves [OF b(1)]] by (simp add: served_def)
  then show ?thesis
    using b keeps_refl [OF b(1)] by (simp add: call_error_callback_def seqs_def)
qed

lemma timeout_loop_served:
  assumes "served G T p" and "set items \<subseteq> set (pl_requests p)" and "distinct (map fst items)"
    and "set (map fst items) \<inter> G = {}"
  shows "\<exists>q ss. timeout_loop items rem p = (q, rem @ ss, None) \<and> served (G \<union> set ss) T q \<and>
     seqs q = seqs p \<and> distinct ss \<and> set ss \<subseteq> set (map fst items)"
  using assms
proof (induction items arbitrary: rem p G)
  case Nil
  then show ?case by (intro exI [of _ p] exI [of _ "[]"]) simp
next
  case (Cons item items)
  obtain s req where item: "item = (s, req)" by (cases item)
  have inv: "pl_inv p" using Cons.prems(1) by (simp add: served_def bound_def)
  have mem: "(s, req) \<in> set (pl_requests p)" using Cons.prems(2) item by simp
  then have req: "map_of (pl_requests p) s = Some req" using inv by (simp add: pl_inv_def seqs_def)
  have s: "s \<in> set (seqs p)" using mem by (force simp: seqs_def)
  have rest: "s \<notin> set (map fst items)" "distinct (map fst items)" "set items \<subseteq> set (pl_requests p)"
    "s \<notin> G" "set (map fst items) \<inter> G = {}"
    using Cons.prems(2-4) item by auto
  let ?p1 = "p\<lparr>pl_in_progress := pl_in_progress p - 1\<rparr>"
  have k1: "keeps p ?p1" by (rule keeps_admin(1) [OF inv])
  obtain q err where q: "resend s req ''timeout'' ?p1 = (q, err)" "keeps ?p1 q"
    using resend_effect [of ?p1 s req "''timeout''"] keepsD(3,5,6) [OF k1] s req by auto
  have k: "keeps p q" by (rule keeps_trans [OF k1 q(2)])
  note kd = keepsD [OF k] and svq = keeps_served [OF k Cons.prems(1)]
  show ?case
  proof (cases err)
    case None
    obtain r ss where "timeout_loop items rem q = (r, rem @ ss, None)" "served (G \<union> set ss) T r"
      "seqs r = seqs q" "distinct ss" "set ss \<subseteq> set (map fst items)"
      using Cons.IH [OF svq, of rem] rest kd(5) by auto
    then show ?thesis using q None kd(3) item by auto
  next
    case (Some x)
    obtain q' where q': "call_error_callback s req x q = (q', None)" "served (insert s G) T q'"
      "seqs q' = seqs q" "pl_requests q' = pl_requests q"
      using give_up_served [OF svq, of s req x] s rest(4) kd(3) by auto
    obtain r ss where r: "timeout_loop items (rem @ [s]) q' = (r, (rem @ [s]) @ ss, None)"
      "served (insert s G \<union> set ss) T r" "seqs r = seqs q'" "distinct ss" "set ss \<subseteq> set (map fst items)"
      using Cons.IH [OF q'(2), of "rem @ [s]"] rest kd(5) q'(4) by auto
    have "timeout_loop (item # items) rem p = (r, rem @ (s # ss), None)"
      using item q(1) Some q'(1) r(1) by simp
    moreover have "distinct (s # ss)" "set (s # ss) \<subseteq> set (map fst (item # items))"
      using r(4,5) rest(1) item by auto
    moreover have "seqs r = seqs p" using r(3) q'(3) kd(3) by simp
    moreover have "served (G \<union> set (s # ss)) T r" using r(2) by simp
    ultimately show ?thesis by blast
  qed
qed

lemma handle_receive_timeout_served:
  assumes sv: "served {} T p"
  shows "\<exists>p'. handle_receive_timeout p = (p', None) \<and> served {} T p'"
proof -
  have inv: "pl_inv p" using sv by (simp add: served_def bound_def)
  let ?p0 = "p\<lparr>pl_n_timeouts := pl_n_timeouts p + 1\<rparr>"
  have k0: "keeps p ?p0" by (rule keeps_admin(2) [OF inv])
  have "distinct (map fst (pl_requests ?p0))" using inv by (simp add: pl_inv_def seqs_def)
  moreover have keys: "map fst (pl_requests ?p0) = seqs p" by (simp add: seqs_def)
  ultimately obtain q ss where q: "timeout_loop (pl_requests ?p0) [] ?p0 = (q, ss, None)"
    "served (set ss) T q" "seqs q = seqs p" "distinct ss" "set ss \<subseteq> set (seqs p)"
    using timeout_loop_served [OF keeps_served [OF k0 sv], of "pl_requests ?p0" "[]"] keepsD(3) [OF k0]
    by auto
  have invq: "pl_inv q" using q(2) by (simp add: served_def bound_def)
  obtain r where r: "remove_all_records ss q = (r, None)" "evolves q r" "pl_client r = pl_client q"
    "mset ss + mset (seqs r) = mset (seqs q)"
    using remove_all_records_eq [OF invq q(4)] q(3,5) by auto
  have "distinct (seqs q)" using invq by (simp add: pl_inv_def)
  moreover have "mset (ss @ seqs r) = mset (seqs q)" using r(4) by simp
  ultimately have "distinct (ss @ seqs r)" "set (ss @ seqs r) = set (seqs q)"
    by (metis mset_eq_imp_distinct_iff, metis mset_eq_setD)
  then have "set (seqs r) = set (seqs q) - set ss" by auto
  then have "served {} T r"
    using q(2) r(3) evolves_bound [OF r(2)] by (auto simp: served_def)
  then show ?thesis using q(1) r(1) by (simp add: handle_receive_timeout_def Let_def)
qed

lemma retrieve_step_served:
  assumes sv: "served {} T p" and h: "honest ev"
  shows "\<exists>p' err. retrieve_step rd ev p = (p', err) \<and> served {} T p'"
proof (cases "receive_scp_response ev")
  case (Inl e)
  with sv handle_receive_timeout_served [OF sv] show ?thesis
    by (cases e) (auto simp: retrieve_step_def single_retrieve_def)
next
  case (Inr x)
  obtain result s raw off where "x = (result, s, raw, off)" by (cases x)
  with single_retrieve_served [OF sv h] Inr show ?thesis by (auto simp: retrieve_step_def)
qed

lemma do_retrieve_served:
  "served {} T p \<Longrightarrow> list_all honest evs \<Longrightarrow> served {} T (outcome_state (do_retrieve rd n p evs))"
proof (induction evs arbitrary: p)
  case (Cons ev evs)
  obtain p' err where s: "retrieve_step rd ev p = (p', err)" "served {} T p'"
    using retrieve_step_served [OF Cons.prems(1), of ev] Cons.prems(2) by auto
  then show ?case using Cons by (cases err) auto
qed simp

lemma finish_served:
  assumes "served {} T p" and "list_all honest evs" and "finish rd p evs = Some out"
  shows "served {} T (outcome_state out)"
  using do_retrieve_served [OF assms(1,2), of 0] assms(1,3) by (auto simp: finish_eq split: if_splits)

lemma store_and_send_served:
  assumes sv: "served {} T p" and t: "sq \<in> T" and k: "req_response req = kind sq"
    and st: "store_and_send sq req (cb sq) (ecb sq) p = (p', None)"
  shows "served {} (T - {sq}) p'"
proof -
  have inv: "pl_inv p" and new: "sq \<notin> set (seqs p)"
    using sv t by (auto simp: served_def bound_def)
  note s = store_and_send_new [OF inv new st]
  obtain r where r: "pl_requests p' = pl_requests p @ [(sq, r)]" "req_response r = kind sq"
    using st k new [unfolded seqs_def]
    by (auto simp: store_and_send_def then_do_def wire_send_def conn_send_def get_scp_data_def
        stamp_request_def set_sequence_def Let_def seqs_append_new split: sum.splits option.splits)
  have "bound p'"
    using s(1,2,10,11) r sv new by (auto simp: bound_def served_def)
  moreover have "set (seqs p') \<union> (T - {sq}) = set (seqs p) \<union> T" using s(2) t by auto
  ultimately show ?thesis using sv s(2,6) by (auto simp: served_def)
qed

lemma send_request_served:
  assumes sv: "served {} T p" and t: "sq \<in> T" and k: "req_response req = kind sq"
    and h: "list_all honest evs" and w: "windowed p"
    and out: "send_request rd ready req (cb sq) (ecb sq) p sq evs = Some (Returned (p', sq') evs')"
  shows "served {} (T - {sq}) p' \<and> windowed p' \<and> sq' = (sq + 1) mod MAX_SEQUENCE \<and> list_all honest evs'"
proof -
  have inv: "pl_inv p" using sv by (simp add: served_def bound_def)
  obtain n wt where n: "pl_n_channels p = Some n" "pl_intermediate_channel_waits p = Some wt" "wt < n"
    using w by (auto simp: windowed_def)
  have m: "measure_channels ready p = p" using n by (simp add: measure_channels_def)
  obtain q where dr: "drain rd p evs = Some (Returned q evs')"
    and st: "store_and_send sq req (cb sq) (ecb sq) q = (p', None)" and sq': "sq' = (sq + 1) mod MAX_SEQUENCE"
    using out by (auto simp: send_request_def m get_next_sequence_number_def
        split: option.splits outcome.splits prod.splits)
  have q: "served {} T q \<and> steps_to p q \<and> list_all honest evs'"
  proof (cases "pl_in_progress p \<ge> n")
    case True
    then have d: "do_retrieve rd wt p evs = Returned q evs'"
      using dr by (simp add: drain_eq [OF inv n(1,2,3)])
    from do_retrieve_served [OF sv h, of wt] do_retrieve_steps [OF inv, of rd wt evs]
      do_retrieve_suffix [OF d] h show ?thesis by (auto simp: d)
  next
    case False
    then show ?thesis using dr sv h steps_to_refl [OF inv] by (simp add: drain_eq [OF inv n(1,2,3)])
  qed
  have "windowed p'"
  proof -
    have "windowed q" using steps_windowed q w by blast
    moreover have "sq \<notin> set (seqs q)" "pl_inv q" using q t by (auto simp: served_def bound_def)
    moreover have "pl_intermediate_channel_waits p' = pl_intermediate_channel_waits q"
      using st by (auto simp: store_and_send_def then_do_def wire_send_def Let_def
          split: prod.splits sum.splits option.splits)
    ultimately show ?thesis using store_and_send_new(3,5) [OF _ _ st] by (auto simp: windowed_def)
  qed
  with store_and_send_served [OF _ t k st] q sq' show ?thesis by blast
qed

lemma finish_returned:
  assumes sv: "served {} T p" and h: "list_all honest evs" and w: "windowed p"
    and f: "finish rd p evs = Some (Returned q evs')"
  shows "served {} T q \<and> windowed q \<and> seqs q = [] \<and> list_all honest evs'"
proof -
  have inv: "pl_inv p" using sv by (simp add: served_def bound_def)
  have d: "do_retrieve rd 0 p evs = Returned q evs'"
    using f do_retrieve_nothing [of p 0 rd evs] by (auto simp: finish_eq split: if_splits)
  have st: "steps_to p q" using do_retrieve_steps [OF inv, of rd 0 evs] by (simp add: d)
  have "windowed q" by (rule steps_windowed [OF st w])
  moreover have "pl_in_progress q \<le> 0" by (rule do_retrieve_returned [OF d])
  ultimately have "length (seqs q) \<le> 0" unfolding windowed_def leak_def by linarith
  then have "seqs q = []" by simp
  then show ?thesis
    using finish_served [OF sv h f] do_retrieve_suffix [OF d] h \<open>windowed q\<close> by auto
qed

end

end
