(* ===== verification/Process.thy ===== *)
theory Process
  imports PipelineProps
begin

text \<open>
  Processes (\<open>processes/abstract_multi_connection_process.py\<close>): a group of requests spread over several
  connections by a connection selector, with one pipeline per connection, and the exceptions of
  failed requests collected and raised at the end. The connections are numbered; the events still to
  come are one list per connection. All pipelines act on the one client state of the process.
\<close>

subsection \<open>Connection selectors\<close>

type_synonym xy = "int \<times> int"

datatype selector =
    FixedSelector nat
  | RoundRobinSelector nat nat
  | MostDirectSelector "(xy \<times> nat) list" nat "(xy \<Rightarrow> xy) option"

text \<open>
  \<open>MostDirectConnectionSelector.__init__\<close>: connections by chip, the last one of a chip wins, and the
  lead connection is the (last) one to chip (0, 0) or else the first. \<open>nearest\<close> is the machine's
  map from chips to their nearest Ethernet chip, absent when there is no machine.
\<close>

fun most_direct_scan ::
  "scp_connection list \<Rightarrow> nat \<Rightarrow> (xy \<times> nat) list \<Rightarrow> nat option \<Rightarrow> (xy \<times> nat) list \<times> nat option" where
  "most_direct_scan [] i m lead = (m, lead)"
| "most_direct_scan (c # cs) i m lead =
     most_direct_scan cs (Suc i) (AList.update (conn_chip_x c, conn_chip_y c) i m)
       (if conn_chip_x c = 0 \<and> conn_chip_y c = 0 then Some i else lead)"

definition most_direct_init :: "(xy \<Rightarrow> xy) option \<Rightarrow> scp_connection list \<Rightarrow> selector res" where
  "most_direct_init nearest cs =
     (case most_direct_scan cs 0 [] None of
        (m, Some lead) \<Rightarrow> Inr (MostDirectSelector m lead nearest)
      | (m, None) \<Rightarrow> if cs = [] then Inl PyStopIteration else Inr (MostDirectSelector m 0 nearest))"

definition most_direct_next :: "(xy \<times> nat) list \<Rightarrow> nat \<Rightarrow> (xy \<Rightarrow> xy) option \<Rightarrow> scp_request \<Rightarrow> nat" where
  "most_direct_next m lead nearest req =
     (let key = (sdp_destination_chip_x (req_sdp req), sdp_destination_chip_y (req_sdp req))
      in case map_of m key of
           Some i \<Rightarrow> i
         | None \<Rightarrow>
             (case nearest of
                None \<Rightarrow> lead
              | Some f \<Rightarrow>
                  if length m = 1 then lead
                  else (case map_of m (f key) of Some i \<Rightarrow> i | None \<Rightarrow> lead)))"

fun get_next_connection :: "selector \<Rightarrow> scp_request \<Rightarrow> nat \<times> selector" where
  "get_next_connection (FixedSelector i) req = (i, FixedSelector i)"
| "get_next_connection (RoundRobinSelector n index) req =
     (index, RoundRobinSelector n ((index + 1) mod n))"
| "get_next_connection (MostDirectSelector m lead nearest) req =
     (most_direct_next m lead nearest req, MostDirectSelector m lead nearest)"

text \<open>What a process relies on: the connection chosen is one of its connections, now and later.\<close>

locale connection_selector =
  fixes next_conn :: "'s \<Rightarrow> scp_request \<Rightarrow> nat \<times> 's"
    and usable :: "nat \<Rightarrow> 's \<Rightarrow> bool"
  assumes next_in_range: "usable n s \<Longrightarrow> fst (next_conn s req) < n"
    and next_usable: "usable n s \<Longrightarrow> usable n (snd (next_conn s req))"
begin

fun picks :: "'s \<Rightarrow> scp_request list \<Rightarrow> nat list" where
  "picks s [] = []"
| "picks s (r # rs) = fst (next_conn s r) # picks (snd (next_conn s r)) rs"

lemma picks_in_range: "usable n s \<Longrightarrow> i \<in> set (picks s rs) \<Longrightarrow> i < n"
  by (induction rs arbitrary: s) (auto intro: next_in_range next_usable)

end

fun selector_usable :: "nat \<Rightarrow> selector \<Rightarrow> bool" where
  "selector_usable n (FixedSelector i) \<longleftrightarrow> i < n"
| "selector_usable n (RoundRobinSelector k index) \<longleftrightarrow> index < k \<and> k \<le> n"
| "selector_usable n (MostDirectSelector m lead nearest) \<longleftrightarrow>
     lead < n \<and> list_all (\<lambda>e. snd e < n) m"

lemma most_direct_next_range:
  assumes "lead < n" and "list_all (\<lambda>e. snd e < n) m"
  shows "most_direct_next m lead nearest req < n"
proof -
  have "i < n" if "map_of m k = Some i" for k i
    using assms(2) map_of_SomeD [OF that] by (auto simp: list_all_iff)
  then show ?thesis using assms(1)
    by (auto simp: most_direct_next_def Let_def split: option.split)
qed

interpretation selectors: connection_selector get_next_connection selector_usable
proof
  fix n s req
  assume "selector_usable n s"
  then show "fst (get_next_connection s req) < n"
    by (cases s) (auto simp: most_direct_next_range)
next
  fix n s req
  assume "selector_usable n s"
  then show "selector_usable n (snd (get_next_connection s req))"
    by (cases s) auto
qed

subsection \<open>State\<close>

text \<open>What callbacks act on: the errors collected so far and what the process itself keeps.\<close>

record 'v client =
  cl_errors :: "(scp_request \<times> exc) list"
  cl_user :: 'v

record 'v process =
  pr_connections :: "scp_connection list"
  pr_selector :: selector
  pr_n_retries :: int
  pr_n_channels :: int
  pr_intermediate_channel_waits :: int
  pr_non_fail_retry_codes :: "scp_result list option"
  pr_pipelines :: "(nat \<times> 'v client pipeline) list"
  pr_client :: "'v client"

definition process_init ::
  "scp_connection list \<Rightarrow> selector \<Rightarrow> int \<Rightarrow> int \<Rightarrow> int \<Rightarrow> scp_result list option \<Rightarrow> 'v \<Rightarrow> 'v process" where
  "process_init conns sel n_retries n_channels waits non_fail user =
     \<lparr>pr_connections = conns, pr_selector = sel, pr_n_retries = n_retries, pr_n_channels = n_channels,
      pr_intermediate_channel_waits = waits, pr_non_fail_retry_codes = non_fail, pr_pipelines = [],
      pr_client = \<lparr>cl_errors = [], cl_user = user\<rparr>\<rparr>"

definition N_RETRIES :: int where "N_RETRIES = 10"

definition receive_error :: "scp_request \<Rightarrow> exc \<Rightarrow> 'v client \<Rightarrow> 'v client" where
  "receive_error req e c = c\<lparr>cl_errors := cl_errors c @ [(req, e)]\<rparr>"

text \<open>The events of every connection, and the global next sequence number.\<close>

record net =
  net_events :: "nat \<Rightarrow> recv list"
  net_next_sequence :: int

datatype ('a, 'b) presult =
    Done 'a 'b
  | Fails exc 'a 'b
  | Blocks 'a

subsection \<open>Operations\<close>

text \<open>The pipeline of a connection, created on first use, acting on the client of the process.\<close>

definition pipeline_for :: "nat \<Rightarrow> 'v process \<Rightarrow> 'v client pipeline" where
  "pipeline_for i pr =
     (case map_of (pr_pipelines pr) i of
        Some p \<Rightarrow> p\<lparr>pl_client := pr_client pr\<rparr>
      | None \<Rightarrow> pipeline_init (pr_connections pr ! i) (Some (pr_n_channels pr))
                 (Some (pr_intermediate_channel_waits pr)) (pr_n_retries pr)
                 (pr_non_fail_retry_codes pr) (pr_client pr))"

definition store_pipeline :: "nat \<Rightarrow> 'v client pipeline \<Rightarrow> 'v process \<Rightarrow> 'v process" where
  "store_pipeline i p pr =
     pr\<lparr>pr_pipelines := AList.update i p (pr_pipelines pr), pr_client := pl_client p\<rparr>"

definition proc_send_request ::
  "reader \<Rightarrow> scp_request \<Rightarrow> 'v client callback option \<Rightarrow> 'v process \<Rightarrow> net \<Rightarrow>
     ('v process, net) presult option" where
  "proc_send_request rd req callback pr nt =
     (let (i, sel) = get_next_connection (pr_selector pr) req;
          pr1 = pr\<lparr>pr_selector := sel\<rparr>
      in case send_request rd False req callback receive_error (pipeline_for i pr1)
                (net_next_sequence nt) (net_events nt i) of
           None \<Rightarrow> None
         | Some (Returned (p, sq) evs) \<Rightarrow>
             Some (Done (store_pipeline i p pr1)
                        \<lparr>net_events = (net_events nt)(i := evs), net_next_sequence = sq\<rparr>)
         | Some (Raised e (p, sq) evs) \<Rightarrow>
             Some (Fails e (store_pipeline i p pr1)
                        \<lparr>net_events = (net_events nt)(i := evs), net_next_sequence = sq\<rparr>)
         | Some (Waiting (p, sq)) \<Rightarrow> Some (Blocks (store_pipeline i p pr1)))"

text \<open>\<open>_finish\<close>: the pipelines one after the other, in the order of their creation.\<close>

fun finish_all :: "reader \<Rightarrow> nat list \<Rightarrow> 'v process \<Rightarrow> net \<Rightarrow> ('v process, net) presult option" where
  "finish_all rd [] pr nt = Some (Done pr nt)"
| "finish_all rd (i # is) pr nt =
     (case finish rd (pipeline_for i pr) (net_events nt i) of
        None \<Rightarrow> None
      | Some (Returned p evs) \<Rightarrow>
          finish_all rd is (store_pipeline i p pr) (nt\<lparr>net_events := (net_events nt)(i := evs)\<rparr>)
      | Some (Raised e p evs) \<Rightarrow>
          Some (Fails e (store_pipeline i p pr) (nt\<lparr>net_events := (net_events nt)(i := evs)\<rparr>))
      | Some (Waiting p) \<Rightarrow> Some (Blocks (store_pipeline i p pr)))"

definition proc_finish :: "reader \<Rightarrow> 'v process \<Rightarrow> net \<Rightarrow> ('v process, net) presult option" where
  "proc_finish rd pr nt = finish_all rd (map fst (pr_pipelines pr)) pr nt"

text \<open>\<open>check_for_error\<close>: one exception is wrapped, several are grouped, none is no error.\<close>

definition check_for_error :: "'v process \<Rightarrow> exc option" where
  "check_for_error pr =
     (case map snd (cl_errors (pr_client pr)) of
        [] \<Rightarrow> None
      | [e] \<Rightarrow> Some (GenericProcess e)
      | es \<Rightarrow> Some (GroupedProcess es))"

definition is_error :: "'v process \<Rightarrow> bool" where
  "is_error pr \<longleftrightarrow> cl_errors (pr_client pr) \<noteq> []"

text \<open>
  \<open>with self._collect_responses(): body\<close>. An exception of the body leaves at once; otherwise every
  pipeline is finished and the collected errors are raised.
\<close>

definition collect_responses ::
  "reader \<Rightarrow> ('v process, net) presult option \<Rightarrow> ('v process, net) presult option" where
  "collect_responses rd body =
     (case body of
        Some (Done pr nt) \<Rightarrow>
          (case proc_finish rd pr nt of
             Some (Done pr' nt') \<Rightarrow>
               (case check_for_error pr' of
                  None \<Rightarrow> Some (Done pr' nt')
                | Some e \<Rightarrow> Some (Fails e pr' nt'))
           | r \<Rightarrow> r)
      | r \<Rightarrow> r)"

text \<open>Two phases of a process, one after the other.\<close>

definition and_then ::
  "('a, 'b) presult option \<Rightarrow> ('a \<Rightarrow> 'b \<Rightarrow> ('a, 'b) presult option) \<Rightarrow> ('a, 'b) presult option" where
  "and_then r k = (case r of Some (Done a b) \<Rightarrow> k a b | _ \<Rightarrow> r)"

end
