(* ===== verification/ProcessClient.thy ===== *)
theory ProcessClient
  imports PipelineClient Process
begin

text \<open>
  The client contract of the pipeline lifted to a process with several pipelines: the client
  invariant is kept while the requests of all pipelines, and the sequence numbers still to be used,
  are outstanding; after a phase has been collected nothing is.
\<close>

lemma set_update_distinct:
  "distinct (map fst xs) \<Longrightarrow> set (AList.update k v xs) = insert (k, v) {x \<in> set xs. fst x \<noteq> k}"
proof (induction xs)
  case (Cons x xs)
  obtain a b where x: "x = (a, b)" by (cases x)
  show ?case
  proof (cases "a = k")
    case True
    then have "fst y \<noteq> k" if "y \<in> set xs" for y using that Cons.prems x by force
    then show ?thesis using x True by auto
  next
    case False
    then show ?thesis using Cons x by auto
  qed
qed simp

text \<open>A process between two phases: nothing is outstanding on any of its pipelines.\<close>

definition idle :: "'v process \<Rightarrow> bool" where
  "idle pr \<longleftrightarrow> distinct (map fst (pr_pipelines pr)) \<and>
     pr_intermediate_channel_waits pr < pr_n_channels pr \<and>
     list_all (\<lambda>x. pl_inv (snd x) \<and> windowed (snd x) \<and> seqs (snd x) = []) (pr_pipelines pr)"

locale process_client =
  pipeline_client rd J right kind cb "\<lambda>s. receive_error"
  for rd :: reader and J :: "int set \<Rightarrow> 'v client \<Rightarrow> bool" and right kind
    and cb :: "int \<Rightarrow> 'v client callback option"
begin

definition others :: "nat \<Rightarrow> 'v process \<Rightarrow> int set" where
  "others i pr = (\<Union>x \<in> {x \<in> set (pr_pipelines pr). fst x \<noteq> i}. set (seqs (snd x)))"

definition outstanding :: "'v process \<Rightarrow> int set" where
  "outstanding pr = (\<Union>x \<in> set (pr_pipelines pr). set (seqs (snd x)))"

definition pipelines_ok :: "int set \<Rightarrow> 'v process \<Rightarrow> bool" where
  "pipelines_ok U pr \<longleftrightarrow> distinct (map fst (pr_pipelines pr)) \<and>
     pr_intermediate_channel_waits pr < pr_n_channels pr \<and>
     (\<forall>x \<in> set (pr_pipelines pr). bound (snd x) \<and> windowed (snd x) \<and>
        set (seqs (snd x)) \<inter> (others (fst x) pr \<union> U) = {})"

definition proc_ok :: "int set \<Rightarrow> 'v process \<Rightarrow> net \<Rightarrow> bool" where
  "proc_ok U pr nt \<longleftrightarrow> pipelines_ok U pr \<and> J (outstanding pr \<union> U) (pr_client pr) \<and>
     (\<forall>i. list_all honest (net_events nt i))"

lemma bound_client [simp]: "bound (p\<lparr>pl_client := w\<rparr>) = bound p"
  by (simp add: bound_def)

lemma windowed_client [simp]: "windowed (p\<lparr>pl_client := w\<rparr>) = windowed p"
  by (simp add: windowed_def leak_def)

lemma pipelines_okD:
  "pipelines_ok U pr \<Longrightarrow> x \<in> set (pr_pipelines pr) \<Longrightarrow>
     bound (snd x) \<and> windowed (snd x) \<and> set (seqs (snd x)) \<inter> (others (fst x) pr \<union> U) = {}"
  by (simp add: pipelines_ok_def)

lemma map_of_pipelines:
  "pipelines_ok U pr \<Longrightarrow> map_of (pr_pipelines pr) i = Some p \<longleftrightarrow> (i, p) \<in> set (pr_pipelines pr)"
  by (simp add: pipelines_ok_def)

lemma pipeline_for_served:
  assumes ok: "proc_ok U pr nt"
  shows "served {} (others i pr \<union> U) (pipeline_for i pr) \<and> windowed (pipeline_for i pr)"
proof (cases "map_of (pr_pipelines pr) i")
  case None
  then have "outstanding pr = others i pr"
    by (force simp: outstanding_def others_def map_of_eq_None_iff)
  with None ok show ?thesis
    by (simp add: pipeline_for_def served_def bound_def pipeline_init_def pl_inv_def seqs_def
        windowed_def leak_def proc_ok_def pipelines_ok_def)
next
  case (Some p)
  have po: "pipelines_ok U pr" using ok by (simp add: proc_ok_def)
  have mem: "(i, p) \<in> set (pr_pipelines pr)" using Some map_of_pipelines [OF po] by simp
  have "x = (i, p)" if "x \<in> set (pr_pipelines pr)" "fst x = i" for x
    using that Some map_of_pipelines [OF po, of i "snd x"] by (cases x) auto
  with mem have split: "set (pr_pipelines pr) = insert (i, p) {x \<in> set (pr_pipelines pr). fst x \<noteq> i}"
    by blast
  have "outstanding pr = set (seqs p) \<union> others i pr"
    unfolding outstanding_def others_def by (subst split) simp
  moreover have "bound p \<and> windowed p \<and> set (seqs p) \<inter> (others i pr \<union> U) = {}"
    using pipelines_okD [OF po mem] by simp
  ultimately show ?thesis
    using Some ok by (simp add: pipeline_for_def served_def proc_ok_def Un_assoc)
qed

lemma store_pipeline_ok:
  assumes ok: "proc_ok U pr nt" and sv: "served {} (others i pr \<union> U') p'" and w: "windowed p'"
    and U: "U' \<subseteq> U" and h: "list_all honest evs"
  shows "proc_ok U' (store_pipeline i p' pr) \<lparr>net_events = (net_events nt)(i := evs), net_next_sequence = sq\<rparr>"
proof -
  have po: "pipelines_ok U pr" using ok by (simp add: proc_ok_def)
  have d: "distinct (map fst (pr_pipelines pr))" using po by (simp add: pipelines_ok_def)
  have st: "set (pr_pipelines (store_pipeline i p' pr))
      = insert (i, p') {x \<in> set (pr_pipelines pr). fst x \<noteq> i}"
    using set_update_distinct [OF d] by (simp add: store_pipeline_def)
  have o1: "others i (store_pipeline i p' pr) = others i pr"
    unfolding others_def st by auto
  have o2: "others j (store_pipeline i p' pr) \<subseteq> set (seqs p') \<union> others j pr" if "j \<noteq> i" for j
    unfolding others_def st by auto
  have out: "outstanding (store_pipeline i p' pr) = set (seqs p') \<union> others i pr"
    unfolding outstanding_def others_def st by auto
  have "bound (snd x) \<and> windowed (snd x) \<and>
      set (seqs (snd x)) \<inter> (others (fst x) (store_pipeline i p' pr) \<union> U') = {}"
    if x: "x \<in> set (pr_pipelines (store_pipeline i p' pr))" for x
  proof (cases "x = (i, p')")
    case True
    then show ?thesis using sv w o1 by (simp add: served_def)
  next
    case False
    with x st have m: "x \<in> set (pr_pipelines pr)" "fst x \<noteq> i" by auto
    then have "set (seqs (snd x)) \<subseteq> others i pr" by (auto simp: others_def)
    then have "set (seqs (snd x)) \<inter> set (seqs p') = {}" using sv by (auto simp: served_def)
    then show ?thesis using pipelines_okD [OF po m(1)] o2 [OF m(2)] U by blast
  qed
  then have "pipelines_ok U' (store_pipeline i p' pr)"
    using d po by (simp add: pipelines_ok_def store_pipeline_def distinct_update)
  moreover have "J (outstanding (store_pipeline i p' pr) \<union> U') (pr_client (store_pipeline i p' pr))"
    using sv out by (simp add: served_def store_pipeline_def Un_assoc)
  ultimately show ?thesis using ok h by (simp add: proc_ok_def)
qed

lemma selector_irrelevant [simp]:
  "proc_ok U (pr\<lparr>pr_selector := s\<rparr>) nt = proc_ok U pr nt"
  by (simp add: proc_ok_def pipelines_ok_def others_def outstanding_def)

lemma proc_send_request_ok:
  assumes ok: "proc_ok U pr nt" and sq: "net_next_sequence nt \<in> U"
    and k: "req_response req = kind (net_next_sequence nt)"
    and cbk: "callback = cb (net_next_sequence nt)"
    and res: "proc_send_request rd req callback pr nt = Some (Done pr' nt')"
  shows "proc_ok (U - {net_next_sequence nt}) pr' nt' \<and>
     net_next_sequence nt' = (net_next_sequence nt + 1) mod MAX_SEQUENCE"
proof -
  obtain i sel where i: "get_next_connection (pr_selector pr) req = (i, sel)" by fastforce
  let ?pr1 = "pr\<lparr>pr_selector := sel\<rparr>"
  have ok1: "proc_ok U ?pr1 nt" using ok by simp
  note pf = pipeline_for_served [OF ok1, of i]
  obtain p sq' evs where s: "send_request rd False req (cb (net_next_sequence nt)) receive_error
      (pipeline_for i ?pr1) (net_next_sequence nt) (net_events nt i) = Some (Returned (p, sq') evs)"
    and pr': "pr' = store_pipeline i p ?pr1"
    and nt': "nt' = \<lparr>net_events = (net_events nt)(i := evs), net_next_sequence = sq'\<rparr>"
    using res i cbk by (auto simp: proc_send_request_def Let_def split: option.splits outcome.splits)
  have "served {} ((others i ?pr1 \<union> U) - {net_next_sequence nt}) p \<and> windowed p \<and>
      sq' = (net_next_sequence nt + 1) mod MAX_SEQUENCE \<and> list_all honest evs"
    using pf sq k ok s by (intro send_request_served) (auto simp: proc_ok_def)
  moreover have "(others i ?pr1 \<union> U) - {net_next_sequence nt} = others i ?pr1 \<union> (U - {net_next_sequence nt})"
  proof -
    have "net_next_sequence nt \<notin> others i ?pr1"
      using ok1 sq unfolding proc_ok_def pipelines_ok_def others_def by blast
    then show ?thesis by blast
  qed
  ultimately show ?thesis
    using store_pipeline_ok [OF ok1, of i "U - {net_next_sequence nt}" p evs sq'] pr' nt' by auto
qed

lemma finish_all_ok:
  assumes "proc_ok U pr nt" and "finish_all rd is pr nt = Some (Done pr' nt')"
    and "\<forall>x \<in> set (pr_pipelines pr). fst x \<in> set is \<or> seqs (snd x) = []"
  shows "proc_ok U pr' nt' \<and> outstanding pr' = {}"
  using assms
proof (induction "is" arbitrary: pr nt)
  case Nil
  then show ?case by (auto simp: outstanding_def)
next
  case (Cons i "is")
  obtain p evs where f: "finish rd (pipeline_for i pr) (net_events nt i) = Some (Returned p evs)"
    and r: "finish_all rd is (store_pipeline i p pr) (nt\<lparr>net_events := (net_events nt)(i := evs)\<rparr>)
      = Some (Done pr' nt')"
    using Cons.prems(2) by (auto split: option.splits outcome.splits)
  have h: "list_all honest (net_events nt i)" using Cons.prems(1) by (simp add: proc_ok_def)
  note fr = finish_returned [OF _ h _ f]
  have sv: "served {} (others i pr \<union> U) p" "windowed p" "seqs p = []" "list_all honest evs"
    using fr pipeline_for_served [OF Cons.prems(1), of i] by blast+
  have "nt\<lparr>net_events := (net_events nt)(i := evs)\<rparr>
      = \<lparr>net_events = (net_events nt)(i := evs), net_next_sequence = net_next_sequence nt\<rparr>" by simp
  then have ok: "proc_ok U (store_pipeline i p pr) (nt\<lparr>net_events := (net_events nt)(i := evs)\<rparr>)"
    using store_pipeline_ok [OF Cons.prems(1) sv(1,2) subset_refl sv(4)] by metis
  have "distinct (map fst (pr_pipelines pr))"
    using Cons.prems(1) by (simp add: proc_ok_def pipelines_ok_def)
  then have "fst x \<in> set is \<or> seqs (snd x) = []"
    if "x \<in> set (pr_pipelines (store_pipeline i p pr))" for x
    using that set_update_distinct sv(3) Cons.prems(3) by (fastforce simp: store_pipeline_def)
  then show ?case using Cons.IH [OF ok r] by blast
qed

text \<open>A phase that is collected without an error leaves nothing outstanding.\<close>

lemma collect_responses_ok:
  assumes body: "body = Some (Done pr nt)" and ok: "proc_ok U pr nt"
    and res: "collect_responses rd body = Some (Done pr' nt')"
  shows "J U (pr_client pr') \<and> cl_errors (pr_client pr') = [] \<and> idle pr'"
proof -
  have f: "finish_all rd (map fst (pr_pipelines pr)) pr nt = Some (Done pr' nt')"
    and e: "check_for_error pr' = None"
    using res body by (auto simp: collect_responses_def proc_finish_def split: option.splits presult.splits)
  have p: "proc_ok U pr' nt' \<and> outstanding pr' = {}"
    by (rule finish_all_ok [OF ok f]) auto
  moreover from p have "idle pr'"
    by (auto simp: idle_def proc_ok_def pipelines_ok_def outstanding_def bound_def list_all_iff)
  moreover have "cl_errors (pr_client pr') = []"
    using e by (auto simp: check_for_error_def split: list.splits)
  ultimately show ?thesis by (auto simp: proc_ok_def)
qed

end

end
