(* ===== verification/MemoryProcess.thy ===== *)
theory MemoryProcess
  imports Process
begin

text \<open>
  Reading and writing memory (\<open>processes/read_memory_process.py\<close>, \<open>write_memory_process.py\<close>,
  \<open>send_single_command_process.py\<close>, \<open>malloc_sdram_process.py\<close>, \<open>get_n_cores_in_state_process.py\<close>):
  the loops that cut a transfer into packets of at most 256 bytes, and the callbacks that put the
  pieces together. \<open>packet\<close> is the \<open>packet_class\<close> argument of the private methods, a request
  constructor partially applied to its first arguments.
\<close>

subsection \<open>Reading\<close>

text \<open>
  Assigning to the slice \<open>view[offset:offset + length]\<close> of a \<open>memoryview\<close>: the slice is clipped to the
  view and must then have the length of the data.
\<close>

definition view_assign :: "nat \<Rightarrow> bytes \<Rightarrow> bytes \<Rightarrow> bytes res" where
  "view_assign offset payload view =
     (if length (slice offset (offset + length payload) view) = length payload
      then Inr (take offset view @ payload @ drop (offset + length payload) view)
      else Inl PyValueError)"

definition read_handle_response :: "nat \<Rightarrow> bytes client callback" where
  "read_handle_response offset response c =
     (case response of
        RspData data off len \<Rightarrow>
          (case view_assign offset (slice off (off + len) data) (cl_user c) of
             Inr view \<Rightarrow> (c\<lparr>cl_user := view\<rparr>, None)
           | Inl e \<Rightarrow> (c, Some e))
      | _ \<Rightarrow> (c, Some PyAttributeError))"

function read_memory_loop ::
  "reader \<Rightarrow> (int \<Rightarrow> int \<Rightarrow> scp_request res) \<Rightarrow> int \<Rightarrow> int \<Rightarrow> nat \<Rightarrow> bytes process \<Rightarrow> net \<Rightarrow>
     (bytes process, net) presult option" where
  "read_memory_loop rd packet base_address n_bytes offset pr nt =
     (if n_bytes \<le> 0 then Some (Done pr nt)
      else let bytes_to_get = min n_bytes UDP_MESSAGE_MAX_SIZE
           in case packet (base_address + int offset) bytes_to_get of
                Inl e \<Rightarrow> Some (Fails e pr nt)
              | Inr req \<Rightarrow>
                  and_then (proc_send_request rd req (Some (read_handle_response offset)) pr nt)
                    (read_memory_loop rd packet base_address (n_bytes - bytes_to_get)
                       (offset + nat bytes_to_get)))"
  by pat_completeness auto
termination
  by (relation "measure (\<lambda>(rd, packet, base, n_bytes, offset, pr, nt). nat n_bytes)")
    (auto simp: UDP_MESSAGE_MAX_SIZE_def)

declare read_memory_loop.simps [simp del]

text \<open>\<open>_read_memory\<close>: \<open>bytearray(length)\<close> refuses a negative length.\<close>

definition read_memory_process ::
  "reader \<Rightarrow> (int \<Rightarrow> int \<Rightarrow> scp_request res) \<Rightarrow> int \<Rightarrow> int \<Rightarrow> bytes process \<Rightarrow> net \<Rightarrow>
     (bytes process, net) presult option" where
  "read_memory_process rd packet base_address len pr nt =
     (if len < 0 then Some (Fails PyValueError pr nt)
      else let pr0 = pr\<lparr>pr_client := (pr_client pr)\<lparr>cl_user := replicate (nat len) 0\<rparr>\<rparr>
           in collect_responses rd (read_memory_loop rd packet base_address len 0 pr0 nt))"

definition read_memory_of :: "reader \<Rightarrow> xyp \<Rightarrow> int \<Rightarrow> int \<Rightarrow> bytes process \<Rightarrow> net \<Rightarrow>
    (bytes process, net) presult option" where
  "read_memory_of rd coordinates base_address len =
     read_memory_process rd (read_memory coordinates) base_address len"

definition read_link_memory_of :: "reader \<Rightarrow> xyp \<Rightarrow> int \<Rightarrow> int \<Rightarrow> int \<Rightarrow> bytes process \<Rightarrow> net \<Rightarrow>
    (bytes process, net) presult option" where
  "read_link_memory_of rd coordinates link base_address len =
     read_memory_process rd (\<lambda>a n. Inr (read_link coordinates link a n)) base_address len"

subsection \<open>Writing\<close>

function write_memory_loop ::
  "reader \<Rightarrow> (int \<Rightarrow> bytes \<Rightarrow> scp_request res) \<Rightarrow> int \<Rightarrow> bytes \<Rightarrow> nat \<Rightarrow> int \<Rightarrow> nat \<Rightarrow> 'v process \<Rightarrow> net \<Rightarrow>
     ('v process, net) presult option" where
  "write_memory_loop rd packet base_address data data_offset n_bytes_to_write offset pr nt =
     (if n_bytes_to_write \<le> 0 then Some (Done pr nt)
      else let bytes_to_send = min n_bytes_to_write UDP_MESSAGE_MAX_SIZE;
               data_array = slice data_offset (data_offset + nat bytes_to_send) data
           in case packet (base_address + int offset) data_array of
                Inl e \<Rightarrow> Some (Fails e pr nt)
              | Inr req \<Rightarrow>
                  and_then (proc_send_request rd req None pr nt)
                    (write_memory_loop rd packet base_address data (data_offset + nat bytes_to_send)
                       (n_bytes_to_write - bytes_to_send) (offset + nat bytes_to_send)))"
  by pat_completeness auto
termination
  by (relation "measure (\<lambda>(rd, packet, base, data, doff, n_bytes, offset, pr, nt). nat n_bytes)")
    (auto simp: UDP_MESSAGE_MAX_SIZE_def)

declare write_memory_loop.simps [simp del]

text \<open>
  \<open>numpy.sum(view(uint32), dtype=uint32)\<close>: little-endian words added with wrap-around; a length that
  is not a multiple of four is a \<open>ValueError\<close>.
\<close>

fun word_sum :: "bytes \<Rightarrow> int res" where
  "word_sum [] = Inr 0"
| "word_sum (a # b # c # d # rest) =
     bind_res (word_sum rest) (\<lambda>s. Inr ((le_val [a, b, c, d] + s) mod 2 ^ 32))"
| "word_sum _ = Inl PyValueError"

text \<open>The checksum that is returned is the one of the whole \<open>data\<close>, a \<open>bytearray\<close>.\<close>

definition write_memory_from_bytearray ::
  "reader \<Rightarrow> (int \<Rightarrow> bytes \<Rightarrow> scp_request res) \<Rightarrow> int \<Rightarrow> bytes \<Rightarrow> nat \<Rightarrow> int \<Rightarrow> bool \<Rightarrow> 'v process \<Rightarrow> net \<Rightarrow>
     (('v process, net) presult \<times> int) option" where
  "write_memory_from_bytearray rd packet base_address data data_offset n_bytes get_sum pr nt =
     (case collect_responses rd (write_memory_loop rd packet base_address data data_offset n_bytes 0 pr nt) of
        None \<Rightarrow> None
      | Some (Done pr' nt') \<Rightarrow>
          (if \<not> get_sum then Some (Done pr' nt', 0)
           else case word_sum data of
                  Inl e \<Rightarrow> Some (Fails e pr' nt', 0)
                | Inr s \<Rightarrow> Some (Done pr' nt', s AND 0xFFFFFFFF))
      | Some stopped \<Rightarrow> Some (stopped, 0))"

text \<open>
  Writing from a reader: the bytes still to be read are the state of the reader, and \<open>read(n)\<close> takes
  at most \<open>n\<close> of them. When the reader is exhausted early the loop sends empty packets for ever, so
  it is a partial function.
\<close>

partial_function (option) write_from_reader_loop ::
  "reader \<Rightarrow> (int \<Rightarrow> bytes \<Rightarrow> scp_request res) \<Rightarrow> int \<Rightarrow> bytes \<Rightarrow> int \<Rightarrow> bool \<Rightarrow> nat \<Rightarrow> int \<Rightarrow>
     'v process \<Rightarrow> net \<Rightarrow> (('v process, net) presult \<times> int) option" where
  "write_from_reader_loop rd packet base_address unread n_bytes_to_write with_sum offset chksum pr nt =
     (if n_bytes_to_write \<le> 0 then Some (Done pr nt, chksum)
      else let data_array = take (nat (min n_bytes_to_write UDP_MESSAGE_MAX_SIZE)) unread;
               bytes_to_send = length data_array
           in case packet (base_address + int offset) data_array of
                Inl e \<Rightarrow> Some (Fails e pr nt, chksum)
              | Inr req \<Rightarrow>
                  (case proc_send_request rd req None pr nt of
                     None \<Rightarrow> None
                   | Some (Fails e pr' nt') \<Rightarrow> Some (Fails e pr' nt', chksum)
                   | Some (Blocks pr') \<Rightarrow> Some (Blocks pr', chksum)
                   | Some (Done pr' nt') \<Rightarrow>
                       (case (if with_sum
                              then bind_res (word_sum data_array)
                                     (\<lambda>s. Inr ((chksum + s) AND 0xFFFFFFFF))
                              else Inr chksum) of
                          Inl e \<Rightarrow> Some (Fails e pr' nt', chksum)
                        | Inr chksum' \<Rightarrow>
                            write_from_reader_loop rd packet base_address
                              (drop bytes_to_send unread)
                              (n_bytes_to_write - int bytes_to_send) with_sum
                              (offset + bytes_to_send) chksum' pr' nt')))"

declare write_from_reader_loop.simps [code]

definition write_memory_from_reader ::
  "reader \<Rightarrow> (int \<Rightarrow> bytes \<Rightarrow> scp_request res) \<Rightarrow> int \<Rightarrow> bytes \<Rightarrow> int \<Rightarrow> bool \<Rightarrow>
     'v process \<Rightarrow> net \<Rightarrow> (('v process, net) presult \<times> int) option" where
  "write_memory_from_reader rd packet base_address unread n_bytes with_sum pr nt =
     (case write_from_reader_loop rd packet base_address unread n_bytes with_sum 0 0 pr nt of
        None \<Rightarrow> None
      | Some (r, chksum) \<Rightarrow>
          (case collect_responses rd (Some r) of None \<Rightarrow> None | Some r' \<Rightarrow> Some (r', chksum)))"

text \<open>The four methods, on the packets of a core's memory and on those of a neighbour's over a link.\<close>

definition memory_from_bytearray ::
  "reader \<Rightarrow> xyp \<Rightarrow> int \<Rightarrow> bytes \<Rightarrow> nat \<Rightarrow> int \<Rightarrow> bool \<Rightarrow> 'v process \<Rightarrow> net \<Rightarrow>
     (('v process, net) presult \<times> int) option" where
  "memory_from_bytearray rd coordinates = write_memory_from_bytearray rd (write_memory coordinates)"

definition link_memory_from_bytearray ::
  "reader \<Rightarrow> xyp \<Rightarrow> int \<Rightarrow> int \<Rightarrow> bytes \<Rightarrow> nat \<Rightarrow> int \<Rightarrow> bool \<Rightarrow> 'v process \<Rightarrow> net \<Rightarrow>
     (('v process, net) presult \<times> int) option" where
  "link_memory_from_bytearray rd coordinates link = write_memory_from_bytearray rd (\<lambda>a bs. Inr (write_link coordinates link a bs))"

definition memory_from_reader ::
  "reader \<Rightarrow> xyp \<Rightarrow> int \<Rightarrow> bytes \<Rightarrow> int \<Rightarrow> bool \<Rightarrow> 'v process \<Rightarrow> net \<Rightarrow>
     (('v process, net) presult \<times> int) option" where
  "memory_from_reader rd coordinates = write_memory_from_reader rd (write_memory coordinates)"

definition link_memory_from_reader ::
  "reader \<Rightarrow> xyp \<Rightarrow> int \<Rightarrow> int \<Rightarrow> bytes \<Rightarrow> int \<Rightarrow> bool \<Rightarrow> 'v process \<Rightarrow> net \<Rightarrow>
     (('v process, net) presult \<times> int) option" where
  "link_memory_from_reader rd coordinates link = write_memory_from_reader rd (\<lambda>a bs. Inr (write_link coordinates link a bs))"

subsection \<open>Other processes over a single phase\<close>

text \<open>\<open>SendSingleCommandProcess.execute\<close>: the response is the user state, an assertion if there is none.\<close>

definition single_handle_response :: "response option client callback" where
  "single_handle_response r c = (c\<lparr>cl_user := Some r\<rparr>, None)"

definition execute_single ::
  "reader \<Rightarrow> scp_request \<Rightarrow> response option process \<Rightarrow> net \<Rightarrow>
     (response option process, net) presult option" where
  "execute_single rd req pr nt =
     and_then (collect_responses rd (proc_send_request rd req (Some single_handle_response) pr nt))
       (\<lambda>pr' nt'. case cl_user (pr_client pr') of
            None \<Rightarrow> Some (Fails PyAssertionError pr' nt')
          | Some r \<Rightarrow> Some (Done pr' nt'))"

definition malloc_handle_response :: "int client callback" where
  "malloc_handle_response r c =
     (case r of RspAlloc a \<Rightarrow> (c\<lparr>cl_user := a\<rparr>, None) | _ \<Rightarrow> (c, Some PyAttributeError))"

definition malloc_sdram ::
  "reader \<Rightarrow> int \<Rightarrow> int \<Rightarrow> int \<Rightarrow> int \<Rightarrow> int option \<Rightarrow> int process \<Rightarrow> net \<Rightarrow> (int process, net) presult option" where
  "malloc_sdram rd x y n_bytes app_id tag pr nt =
     (case sdram_alloc x y app_id n_bytes tag True of
        Inl e \<Rightarrow> Some (Fails e pr nt)
      | Inr req \<Rightarrow> collect_responses rd (proc_send_request rd req (Some malloc_handle_response) pr nt))"

definition count_handle_response :: "int client callback" where
  "count_handle_response r c =
     (case r of RspCount n \<Rightarrow> (c\<lparr>cl_user := cl_user c + n\<rparr>, None) | _ \<Rightarrow> (c, Some PyAttributeError))"

fun count_loop ::
  "reader \<Rightarrow> xy list \<Rightarrow> int \<Rightarrow> cpu_state \<Rightarrow> int process \<Rightarrow> net \<Rightarrow> (int process, net) presult option" where
  "count_loop rd [] app_id state pr nt = Some (Done pr nt)"
| "count_loop rd ((x, y) # xys) app_id state pr nt =
     and_then (proc_send_request rd (count_state x y app_id state) (Some count_handle_response) pr nt)
       (count_loop rd xys app_id state)"

text \<open>\<open>get_n_cores_in_state\<close>: all counts, then \<open>_finish\<close> and \<open>check_for_error\<close>; the sum is the user state.\<close>

definition get_n_cores_in_state ::
  "reader \<Rightarrow> xy list \<Rightarrow> int \<Rightarrow> cpu_state \<Rightarrow> int process \<Rightarrow> net \<Rightarrow> (int process, net) presult option" where
  "get_n_cores_in_state rd xys app_id state pr nt =
     and_then (and_then (count_loop rd xys app_id state pr nt) (proc_finish rd))
       (\<lambda>pr' nt'. case check_for_error pr' of
            None \<Rightarrow> Some (Done pr' nt') | Some e \<Rightarrow> Some (Fails e pr' nt'))"

fun application_run_loop ::
  "reader \<Rightarrow> (int \<times> int \<times> int list) list \<Rightarrow> int \<Rightarrow> bool \<Rightarrow> 'v process \<Rightarrow> net \<Rightarrow> ('v process, net) presult option" where
  "application_run_loop rd [] app_id wait pr nt = Some (Done pr nt)"
| "application_run_loop rd ((x, y, ps) # subsets) app_id wait pr nt =
     (case application_run app_id x y (Some ps) wait of
        Inl e \<Rightarrow> Some (Fails e pr nt)
      | Inr req \<Rightarrow>
          and_then (proc_send_request rd req None pr nt) (application_run_loop rd subsets app_id wait))"

definition application_run_process ::
  "reader \<Rightarrow> (int \<times> int \<times> int list) list \<Rightarrow> int \<Rightarrow> bool \<Rightarrow> 'v process \<Rightarrow> net \<Rightarrow> ('v process, net) presult option" where
  "application_run_process rd subsets app_id wait pr nt =
     collect_responses rd (application_run_loop rd subsets app_id wait pr nt)"

end
