(* ===== verification/Phases.thy ===== *)
theory Phases
  imports ProcessClient MemoryProcess
begin

text \<open>
  The phases of a process: a list of requests sent one after the other, then collected. The requests
  of a phase have consecutive sequence numbers, so a number tells which request it belongs to.
\<close>

subsection \<open>Sequence numbers\<close>

text \<open>The packet with sequence number \<open>s\<close> when the first packet has number \<open>sq0\<close>.\<close>

definition chunk_of :: "int \<Rightarrow> int \<Rightarrow> nat" where
  "chunk_of sq0 s = nat ((s - sq0) mod MAX_SEQUENCE)"

definition seq_of :: "int \<Rightarrow> nat \<Rightarrow> int" where
  "seq_of sq0 i = (sq0 + int i) mod MAX_SEQUENCE"

lemma chunk_of_seq_of: "i < 65536 \<Longrightarrow> chunk_of sq0 (seq_of sq0 i) = i"
proof -
  assume "i < 65536"
  have "((sq0 + int i) mod 65536 - sq0) mod 65536 = int i mod 65536"
    by (simp add: mod_diff_left_eq)
  with \<open>i < 65536\<close> show ?thesis
    by (simp add: chunk_of_def seq_of_def MAX_SEQUENCE_def)
qed

lemma seq_of_chunk_of: "0 \<le> s \<Longrightarrow> s < 65536 \<Longrightarrow> seq_of sq0 (chunk_of sq0 s) = s"
  by (simp add: chunk_of_def seq_of_def MAX_SEQUENCE_def mod_add_right_eq)

lemma seq_of_Suc: "(seq_of sq0 i + 1) mod MAX_SEQUENCE = seq_of sq0 (Suc i)"
  by (simp add: seq_of_def mod_add_left_eq add.assoc) (simp add: ac_simps)

text \<open>The numbers of requests \<open>k\<close> to \<open>n - 1\<close>.\<close>

definition numbers :: "int \<Rightarrow> nat \<Rightarrow> nat \<Rightarrow> int set" where
  "numbers sq0 k n = seq_of sq0 ` {k..<n}"

lemma numbers_Suc:
  assumes "k < n" and "n \<le> 65536"
  shows "numbers sq0 k n - {seq_of sq0 k} = numbers sq0 (Suc k) n" and "seq_of sq0 k \<in> numbers sq0 k n"
proof -
  have "inj_on (seq_of sq0) {k..<n}"
    using assms(2) by (intro inj_on_inverseI [of _ "chunk_of sq0"]) (simp add: chunk_of_seq_of)
  moreover have "{k..<n} = insert k {Suc k..<n}" using assms by auto
  ultimately show "numbers sq0 k n - {seq_of sq0 k} = numbers sq0 (Suc k) n" and "seq_of sq0 k \<in> numbers sq0 k n"
    using assms by (auto simp: numbers_def dest: inj_onD)
qed

lemma numbers_empty [simp]: "numbers sq0 n n = {}"
  by (simp add: numbers_def)

lemma seq_of_0: "0 \<le> sq0 \<Longrightarrow> sq0 < 65536 \<Longrightarrow> seq_of sq0 0 = sq0"
  by (simp add: seq_of_def MAX_SEQUENCE_def)

subsection \<open>Sending a list of requests\<close>

text \<open>The common shape of the sending loops: the first request that cannot be built ends the loop.\<close>

fun send_all ::
  "reader \<Rightarrow> 'v client callback option \<Rightarrow> scp_request res list \<Rightarrow> 'v process \<Rightarrow> net \<Rightarrow>
     ('v process, net) presult option" where
  "send_all rd callback [] pr nt = Some (Done pr nt)"
| "send_all rd callback (Inl e # reqs) pr nt = Some (Fails e pr nt)"
| "send_all rd callback (Inr req # reqs) pr nt =
     and_then (proc_send_request rd req callback pr nt) (send_all rd callback reqs)"

lemma count_loop_send_all:
  "count_loop rd xys app_id state =
     send_all rd (Some count_handle_response) (map (\<lambda>(x, y). Inr (count_state x y app_id state)) xys)"
proof (induction xys)
  case (Cons c xys)
  obtain x y where "c = (x, y)" by (cases c)
  with Cons show ?case by (intro ext) simp
qed (intro ext, simp)

lemma application_run_loop_send_all:
  "application_run_loop rd subsets app_id wait =
     send_all rd None (map (\<lambda>(x, y, ps). application_run app_id x y (Some ps) wait) subsets)"
proof (induction subsets)
  case (Cons s subsets)
  obtain x y ps where "s = (x, y, ps)" by (cases s)
  with Cons show ?case
    by (intro ext, cases "application_run app_id x y (Some ps) wait") simp_all
qed (intro ext, simp)

text \<open>
  Replies as a client expects them: whatever is read successfully from a datagram, with the response
  class of the requests, is right for its sequence number.
\<close>

definition reply_ok :: "reader \<Rightarrow> response_kind \<Rightarrow> (int \<Rightarrow> response \<Rightarrow> bool) \<Rightarrow> recv \<Rightarrow> bool" where
  "reply_ok rd kd right ev \<longleftrightarrow>
     (case receive_scp_response ev of
        Inl e \<Rightarrow> True
      | Inr (result, s, raw, off) \<Rightarrow> (case rd kd raw off of Inl e \<Rightarrow> True | Inr r \<Rightarrow> right s r))"

text \<open>Events are only ever consumed, and a phase of \<open>n\<close> requests uses \<open>n\<close> sequence numbers.\<close>

definition events_within :: "net \<Rightarrow> net \<Rightarrow> bool" where
  "events_within nt' nt \<longleftrightarrow> (\<forall>i. set (net_events nt' i) \<subseteq> set (net_events nt i))"

lemma events_within_refl [simp]: "events_within nt nt"
  by (simp add: events_within_def)

lemma events_within_trans: "events_within a b \<Longrightarrow> events_within b c \<Longrightarrow> events_within a c"
  by (fastforce simp: events_within_def)

lemma events_within_all: "events_within nt' nt \<Longrightarrow> list_all P (net_events nt i) \<Longrightarrow> list_all P (net_events nt' i)"
  by (fastforce simp: events_within_def list_all_iff)

lemma do_retrieve_consumes: "do_retrieve rd n p evs = Returned p' evs' \<Longrightarrow> set evs' \<subseteq> set evs"
  using do_retrieve_suffix by fastforce

lemma drain_consumes:
  assumes "drain rd p evs = Some r"
  shows "\<forall>p' evs'. r = Returned p' evs' \<longrightarrow> set evs' \<subseteq> set evs"
  by (rule drain.raw_induct
      [where P = "\<lambda>rd p evs r. \<forall>p' evs'. r = Returned p' evs' \<longrightarrow> set evs' \<subseteq> set evs", OF _ assms])
    (fastforce split: option.splits if_splits outcome.splits dest: do_retrieve_consumes)

lemma finish_consumes:
  assumes "finish rd p evs = Some r"
  shows "\<forall>p' evs'. r = Returned p' evs' \<longrightarrow> set evs' \<subseteq> set evs"
  by (rule finish.raw_induct
      [where P = "\<lambda>rd p evs r. \<forall>p' evs'. r = Returned p' evs' \<longrightarrow> set evs' \<subseteq> set evs", OF _ assms])
    (fastforce split: option.splits if_splits outcome.splits dest: do_retrieve_consumes)

lemma proc_send_request_consumes:
  assumes "proc_send_request rd req callback pr nt = Some (Done pr' nt')"
  shows "events_within nt' nt \<and> net_next_sequence nt' = (net_next_sequence nt + 1) mod MAX_SEQUENCE"
proof -
  obtain i sel where i: "get_next_connection (pr_selector pr) req = (i, sel)" by fastforce
  let ?p = "pipeline_for i (pr\<lparr>pr_selector := sel\<rparr>)"
  obtain p sq' evs where s: "send_request rd False req callback receive_error ?p
        (net_next_sequence nt) (net_events nt i) = Some (Returned (p, sq') evs)"
    and nt': "nt' = \<lparr>net_events = (net_events nt)(i := evs), net_next_sequence = sq'\<rparr>"
    using assms i by (auto simp: proc_send_request_def Let_def split: option.splits outcome.splits)
  obtain q where "drain rd (measure_channels False ?p) (net_events nt i) = Some (Returned q evs)"
    and "sq' = (net_next_sequence nt + 1) mod MAX_SEQUENCE"
    using s by (auto simp: send_request_def get_next_sequence_number_def
        split: option.splits outcome.splits prod.splits)
  with nt' drain_consumes show ?thesis by (fastforce simp: events_within_def)
qed

lemma finish_all_consumes:
  "finish_all rd is pr nt = Some (Done pr' nt') \<Longrightarrow>
     events_within nt' nt \<and> net_next_sequence nt' = net_next_sequence nt"
proof (induction "is" arbitrary: pr nt)
  case (Cons i "is")
  obtain p evs where f: "finish rd (pipeline_for i pr) (net_events nt i) = Some (Returned p evs)"
    and r: "finish_all rd is (store_pipeline i p pr) (nt\<lparr>net_events := (net_events nt)(i := evs)\<rparr>)
      = Some (Done pr' nt')"
    using Cons.prems by (auto split: option.splits outcome.splits)
  have "events_within (nt\<lparr>net_events := (net_events nt)(i := evs)\<rparr>) nt"
    using finish_consumes [OF f] by (auto simp: events_within_def)
  with Cons.IH [OF r] show ?case by (auto intro: events_within_trans)
qed simp

lemma collect_responses_consumes:
  assumes "collect_responses rd (Some (Done pr nt)) = Some (Done pr' nt')"
  shows "events_within nt' nt \<and> net_next_sequence nt' = net_next_sequence nt"
proof -
  have "finish_all rd (map fst (pr_pipelines pr)) pr nt = Some (Done pr' nt')"
    using assms by (auto simp: collect_responses_def proc_finish_def split: option.splits presult.splits)
  then show ?thesis by (rule finish_all_consumes)
qed

lemma send_all_consumes:
  "send_all rd callback reqs pr nt = Some (Done pr' nt') \<Longrightarrow> net_next_sequence nt = seq_of sq0 k \<Longrightarrow>
     events_within nt' nt \<and> net_next_sequence nt' = seq_of sq0 (k + length reqs)"
proof (induction reqs arbitrary: k pr nt)
  case (Cons r reqs)
  obtain req where r: "r = Inr req" using Cons.prems(1) by (cases r) auto
  obtain pr1 nt1 where sent: "proc_send_request rd req callback pr nt = Some (Done pr1 nt1)"
    and rest: "send_all rd callback reqs pr1 nt1 = Some (Done pr' nt')"
    using Cons.prems(1) r by (auto simp: and_then_def split: option.splits presult.splits)
  note c = proc_send_request_consumes [OF sent]
  have "net_next_sequence nt1 = seq_of sq0 (Suc k)" using c Cons.prems(2) by (simp add: seq_of_Suc)
  from Cons.IH [OF rest this] c show ?case by (auto intro: events_within_trans)
qed simp

text \<open>A process before its first request.\<close>

definition fresh :: "'v process \<Rightarrow> bool" where
  "fresh pr \<longleftrightarrow> pr_pipelines pr = [] \<and> pr_intermediate_channel_waits pr < pr_n_channels pr"

lemma fresh_idle: "fresh pr \<Longrightarrow> idle pr"
  by (simp add: fresh_def idle_def)

context process_client
begin

lemma honest_reply_ok: "(\<And>s. kind s = kd) \<Longrightarrow> reply_ok rd kd right ev \<Longrightarrow> honest ev"
  by (auto simp: honest_def reply_ok_def)

lemma fresh_ok:
  "fresh pr \<Longrightarrow> J U (pr_client pr) \<Longrightarrow> (\<And>i. list_all honest (net_events nt i)) \<Longrightarrow> proc_ok U pr nt"
  by (simp add: proc_ok_def pipelines_ok_def outstanding_def fresh_def)

lemma idle_ok:
  "idle pr \<Longrightarrow> J U (pr_client pr) \<Longrightarrow> (\<And>i. list_all honest (net_events nt i)) \<Longrightarrow> proc_ok U pr nt"
proof -
  assume i: "idle pr" and J: "J U (pr_client pr)" and h: "\<And>i. list_all honest (net_events nt i)"
  have "bound (snd x) \<and> windowed (snd x) \<and> seqs (snd x) = []" if "x \<in> set (pr_pipelines pr)" for x
    using i that by (auto simp: idle_def list_all_iff bound_def seqs_def)
  moreover from this have "outstanding pr = {}" "others j pr = {}" for j
    by (auto simp: outstanding_def others_def)
  ultimately show "proc_ok U pr nt"
    using i J h by (simp add: proc_ok_def pipelines_ok_def idle_def)
qed

lemma send_all_ok:
  assumes "proc_ok (numbers sq0 k n) pr nt" and "net_next_sequence nt = seq_of sq0 k"
    and "k + length reqs = n" and "n \<le> 65536" and "\<And>s. callback = cb s"
    and "\<And>s req. Inr req \<in> set reqs \<Longrightarrow> req_response req = kind s"
    and "send_all rd callback reqs pr nt = Some (Done pr' nt')"
  shows "proc_ok {} pr' nt'"
  using assms
proof (induction reqs arbitrary: k pr nt)
  case Nil
  then show ?case by simp
next
  case (Cons r reqs)
  obtain req where r: "r = Inr req" using Cons.prems(7) by (cases r) auto
  obtain pr1 nt1 where sent: "proc_send_request rd req callback pr nt = Some (Done pr1 nt1)"
    and rest: "send_all rd callback reqs pr1 nt1 = Some (Done pr' nt')"
    using Cons.prems(7) r by (auto simp: and_then_def split: option.splits presult.splits)
  have k: "k < n" using Cons.prems(3) by simp
  note p = numbers_Suc [OF k Cons.prems(4)]
  have "proc_ok (numbers sq0 (Suc k) n) pr1 nt1 \<and> net_next_sequence nt1 = seq_of sq0 (Suc k)"
    using proc_send_request_ok [OF Cons.prems(1) _ _ Cons.prems(5) sent] Cons.prems(2,6) r p
    by (simp add: seq_of_Suc)
  then show ?case using Cons.IH [OF _ _ _ Cons.prems(4,5) _ rest, of "Suc k"] Cons.prems(3,6) by simp
qed

text \<open>A whole phase: from an idle process to an idle one, with the client's invariant and nothing outstanding.\<close>

lemma idle_phase_ok:
  assumes "idle pr" and "J (numbers sq0 0 (length reqs)) (pr_client pr)"
    and "\<And>i. list_all honest (net_events nt i)"
    and "net_next_sequence nt = sq0" and "0 \<le> sq0" and "sq0 < 65536" and "length reqs \<le> 65536"
    and "\<And>s. callback = cb s" and "\<And>s req. Inr req \<in> set reqs \<Longrightarrow> req_response req = kind s"
    and sent: "send_all rd callback reqs pr nt = Some (Done pr1 nt1)"
    and res: "collect_responses rd (Some (Done pr1 nt1)) = Some (Done pr' nt')"
  shows "J {} (pr_client pr') \<and> cl_errors (pr_client pr') = [] \<and> idle pr'"
proof -
  have "proc_ok {} pr1 nt1"
    using send_all_ok [OF idle_ok [OF assms(1-3)] _ _ assms(7,8,9) sent] assms(4-6) seq_of_0 by simp
  then show ?thesis using collect_responses_ok [OF refl _ res] by blast
qed

lemma phase_ok:
  assumes "fresh pr" and "J (numbers sq0 0 (length reqs)) (pr_client pr)"
    and "\<And>i. list_all honest (net_events nt i)"
    and "net_next_sequence nt = sq0" and "0 \<le> sq0" and "sq0 < 65536" and "length reqs \<le> 65536"
    and "\<And>s. callback = cb s" and "\<And>s req. Inr req \<in> set reqs \<Longrightarrow> req_response req = kind s"
    and "send_all rd callback reqs pr nt = Some (Done pr1 nt1)"
    and "collect_responses rd (Some (Done pr1 nt1)) = Some (Done pr' nt')"
  shows "J {} (pr_client pr') \<and> cl_errors (pr_client pr') = []"
  using idle_phase_ok [OF fresh_idle [OF assms(1)] assms(2-)] by blast

end

lemma collect_responses_started:
  "collect_responses rd r = Some (Done pr' nt') \<Longrightarrow>
     \<exists>pr nt. r = Some (Done pr nt) \<and> collect_responses rd (Some (Done pr nt)) = Some (Done pr' nt')"
proof (cases r)
  case (Some x)
  then show "collect_responses rd r = Some (Done pr' nt') \<Longrightarrow> ?thesis"
    by (cases x) (auto simp: collect_responses_def)
qed (simp add: collect_responses_def)

subsection \<open>Requests with a callback each\<close>

fun send_each ::
  "reader \<Rightarrow> (scp_request res \<times> 'v client callback) list \<Rightarrow> 'v process \<Rightarrow> net \<Rightarrow>
     ('v process, net) presult option" where
  "send_each rd [] pr nt = Some (Done pr nt)"
| "send_each rd ((Inl e, f) # xs) pr nt = Some (Fails e pr nt)"
| "send_each rd ((Inr req, f) # xs) pr nt = and_then (proc_send_request rd req (Some f) pr nt) (send_each rd xs)"

lemma and_then_assoc: "and_then (and_then r f) g = and_then r (\<lambda>a b. and_then (f a b) g)"
  by (simp add: and_then_def split: option.splits presult.splits)

lemma and_then_Done [simp]: "and_then (Some (Done a b)) f = f a b"
  by (simp add: and_then_def)

lemma send_each_append:
  "send_each rd (xs @ ys) pr nt = and_then (send_each rd xs pr nt) (send_each rd ys)"
proof (induction xs arbitrary: pr nt)
  case (Cons x xs)
  show ?case
  proof (cases x)
    case (Pair r f)
    then show ?thesis by (cases r) (simp_all add: Cons.IH [abs_def] and_then_assoc, simp add: and_then_def)
  qed
qed simp

lemma send_each_Cons:
  "send_each rd ((r, f) # xs) pr nt =
     and_then (case r of Inl e \<Rightarrow> Some (Fails e pr nt) | Inr req \<Rightarrow> proc_send_request rd req (Some f) pr nt)
       (send_each rd xs)"
  by (cases r) (simp_all add: and_then_def)

lemma send_all_each: "send_all rd (Some f) reqs pr nt = send_each rd (map (\<lambda>r. (r, f)) reqs) pr nt"
proof (induction reqs arbitrary: pr nt)
  case (Cons r reqs)
  then have "send_all rd (Some f) reqs = send_each rd (map (\<lambda>r. (r, f)) reqs)" by (intro ext)
  then show ?case by (cases r) simp_all
qed simp

context process_client
begin

lemma send_each_ok:
  assumes "proc_ok (numbers sq0 k n) pr nt" and "net_next_sequence nt = seq_of sq0 k"
    and "k + length xs = n" and "n \<le> 65536"
    and "\<And>i. i < length xs \<Longrightarrow> Some (snd (xs ! i)) = cb (seq_of sq0 (k + i))"
    and "\<And>i req. i < length xs \<Longrightarrow> fst (xs ! i) = Inr req \<Longrightarrow> req_response req = kind (seq_of sq0 (k + i))"
    and "send_each rd xs pr nt = Some (Done pr' nt')"
  shows "proc_ok {} pr' nt'"
  using assms
proof (induction xs arbitrary: k pr nt)
  case Nil
  then show ?case by simp
next
  case (Cons x xs)
  obtain req f where x: "x = (Inr req, f)" using Cons.prems(7) by (cases x; cases "fst x") auto
  obtain pr1 nt1 where sent: "proc_send_request rd req (Some f) pr nt = Some (Done pr1 nt1)"
    and rest: "send_each rd xs pr1 nt1 = Some (Done pr' nt')"
    using Cons.prems(7) x by (auto simp: and_then_def split: option.splits presult.splits)
  have k: "k < n" using Cons.prems(3) by simp
  note p = numbers_Suc [OF k Cons.prems(4)]
  have first: "Some f = cb (net_next_sequence nt)" "req_response req = kind (net_next_sequence nt)"
    using Cons.prems(2) Cons.prems(5) [of 0] Cons.prems(6) [of 0 req] x by simp_all
  have "proc_ok (numbers sq0 (Suc k) n) pr1 nt1 \<and> net_next_sequence nt1 = seq_of sq0 (Suc k)"
    using proc_send_request_ok [OF Cons.prems(1) _ first(2) first(1) sent] Cons.prems(2) p
    by (simp add: seq_of_Suc)
  moreover have "Some (snd (xs ! i)) = cb (seq_of sq0 (Suc k + i))" if "i < length xs" for i
    using Cons.prems(5) [of "Suc i"] that by simp
  moreover have "req_response req = kind (seq_of sq0 (Suc k + i))"
    if "i < length xs" "fst (xs ! i) = Inr req" for i req
    using Cons.prems(6) [of "Suc i" req] that by simp
  ultimately show ?case using Cons.IH [OF _ _ _ Cons.prems(4) _ _ rest, of "Suc k"] Cons.prems(3) by simp
qed

lemma each_idle_phase_ok:
  assumes "idle pr" and "J (numbers sq0 0 (length xs)) (pr_client pr)"
    and "\<And>i. list_all honest (net_events nt i)"
    and "net_next_sequence nt = sq0" and "0 \<le> sq0" and "sq0 < 65536" and "length xs \<le> 65536"
    and "\<And>i. i < length xs \<Longrightarrow> Some (snd (xs ! i)) = cb (seq_of sq0 i)"
    and "\<And>i req. i < length xs \<Longrightarrow> fst (xs ! i) = Inr req \<Longrightarrow> req_response req = kind (seq_of sq0 i)"
    and sent: "send_each rd xs pr nt = Some (Done pr1 nt1)"
    and res: "collect_responses rd (Some (Done pr1 nt1)) = Some (Done pr' nt')"
  shows "J {} (pr_client pr') \<and> cl_errors (pr_client pr') = []"
proof -
  have "proc_ok {} pr1 nt1"
    using send_each_ok [OF idle_ok [OF assms(1-3)] _ _ assms(7) _ _ sent] assms(4-6,8,9) seq_of_0 by simp
  then show ?thesis using collect_responses_ok [OF refl _ res] by blast
qed

end

end
