(* ===== verification/Wire.thy ===== *)
theory Wire
  imports Phases
begin

text \<open>
  The datagrams that a process puts on the wire. A machine knows nothing of a process but its datagrams:
  \<open>dg_chip\<close>, \<open>dg_command\<close> and the others read them as a machine does, at fixed offsets.
  \<open>sent pr pr'\<close> are the datagrams that went out while a process turned from \<open>pr\<close> into \<open>pr'\<close>, read off the logs of its
  connections, those that went out again included.
\<close>

subsection \<open>Datagrams, as they are received\<close>

definition dg_cpu :: "bytes \<Rightarrow> int" where "dg_cpu bs = uint (bs ! 4) AND 31"
definition dg_chip :: "bytes \<Rightarrow> xy" where "dg_chip bs = (uint (bs ! 7), uint (bs ! 6))"
definition dg_command :: "bytes \<Rightarrow> int" where "dg_command bs = le_val (take 2 (drop 10 bs))"
definition dg_sequence :: "bytes \<Rightarrow> int" where "dg_sequence bs = le_val (take 2 (drop 12 bs))"
definition dg_argument :: "nat \<Rightarrow> bytes \<Rightarrow> int" where "dg_argument k bs = le_val (take 4 (drop (14 + 4 * k) bs))"

definition dg_core :: "bytes \<Rightarrow> xyp" where "dg_core bs = (fst (dg_chip bs), snd (dg_chip bs), dg_cpu bs)"

lemmas datagram = dg_cpu_def dg_chip_def dg_command_def dg_sequence_def dg_argument_def dg_core_def

text \<open>The datagrams of a request with sequence number \<open>s\<close>: those of any connection.\<close>

definition wire :: "int \<Rightarrow> scp_request \<Rightarrow> bytes \<Rightarrow> bool" where
  "wire s req bs \<longleftrightarrow> (\<exists>c. snd (get_scp_data c (set_sequence s req)) = Inr bs)"

lemma packed_header:
  assumes "sdp_header_bytestring h = Inr bs"
  shows "length bs = 8" and "uint (bs ! 4) = sdp_destination_chip_y h" and "uint (bs ! 5) = sdp_destination_chip_x h"
    and "uint (bs ! 2) AND 31 = sdp_destination_cpu h AND 31"
proof -
  obtain a b d f g where p: "struct_pack Little EIGHT_BYTES [a, b, port_cpu (sdp_destination_port h)
      (sdp_destination_cpu h), d, sdp_destination_chip_y h, sdp_destination_chip_x h, f, g] = Inr bs"
    using assms by (auto simp: sdp_header_bytestring_Inr)
  then have v: "bs = map word_of_int [a, b, port_cpu (sdp_destination_port h) (sdp_destination_cpu h), d,
      sdp_destination_chip_y h, sdp_destination_chip_x h, f, g]"
    and r: "0 \<le> sdp_destination_chip_y h" "sdp_destination_chip_y h < 256" "0 \<le> sdp_destination_chip_x h"
      "sdp_destination_chip_x h < 256"
    by (auto simp: pack_eight_bytes_value split: if_splits)
  show "length bs = 8" by (simp add: v)
  show "uint (bs ! 4) = sdp_destination_chip_y h" "uint (bs ! 5) = sdp_destination_chip_x h"
    using r by (simp_all add: v uint_word_of_int)
  have "uint (bs ! 2) = port_cpu (sdp_destination_port h) (sdp_destination_cpu h)"
    by (simp add: v uint_word_of_int)
  then show "uint (bs ! 2) AND 31 = sdp_destination_cpu h AND 31"
    by (simp only: port_cpu_fields(2)) (simp only: and_masks)
qed

lemma wire_fields:
  assumes "wire s req bs"
  shows "dg_sequence bs = s" and "dg_command bs = scp_command_value (scp_command (req_scp req))"
    and "dg_argument 0 bs = or_zero (req_argument_1 req)" and "dg_argument 1 bs = or_zero (req_argument_2 req)"
    and "dg_argument 2 bs = or_zero (req_argument_3 req)"
    and "dg_chip bs = (sdp_destination_chip_x (req_sdp req), sdp_destination_chip_y (req_sdp req))"
    and "dg_cpu bs = sdp_destination_cpu (req_sdp req) AND 31"
proof -
  obtain c where c: "snd (get_scp_data c (set_sequence s req)) = Inr bs" using assms by (auto simp: wire_def)
  define pay where "pay = request_payload (stamp_request (conn_chip_x c) (conn_chip_y c) (set_sequence s req))"
  obtain h where h: "sdp_header_bytestring (update_for_send (conn_chip_x c) (conn_chip_y c) (req_sdp req)) = Inr h"
    and f: "0 \<le> s" "s < 65536" "word_range (or_zero (req_argument_1 req))" "word_range (or_zero (req_argument_2 req))"
      "word_range (or_zero (req_argument_3 req))"
    and bs: "bs = [0, 0] @ h @ (le_bytes 2 (scp_command_value (scp_command (req_scp req))) @ le_bytes 2 s) @
      (le_bytes 4 (or_zero (req_argument_1 req)) @ le_bytes 4 (or_zero (req_argument_2 req)) @
       le_bytes 4 (or_zero (req_argument_3 req))) @ pay"
    using c by (auto simp: get_scp_data_def Let_def scp_request_bytestring_split TWO_SKIP_def stamp_request_def
        set_sequence_def request_fields_ok_def pay_def)
  note l = packed_header [OF h]
  have word: "word_range v \<Longrightarrow> le_val (le_bytes 4 v) = v" for v by (simp add: word_range_def le_val_le_bytes)
  show "dg_sequence bs = s" "dg_command bs = scp_command_value (scp_command (req_scp req))"
    "dg_argument 0 bs = or_zero (req_argument_1 req)" "dg_argument 1 bs = or_zero (req_argument_2 req)"
    "dg_argument 2 bs = or_zero (req_argument_3 req)"
    using l(1) f by (simp_all add: bs datagram word)
  have at: "bs ! (2 + k) = h ! k" if "k < 8" for k
    using that l(1) by (simp add: bs nth_append)
  show "dg_chip bs = (sdp_destination_chip_x (req_sdp req), sdp_destination_chip_y (req_sdp req))"
    "dg_cpu bs = sdp_destination_cpu (req_sdp req) AND 31"
    using at [of 2] at [of 4] at [of 5] l(2-4) by (simp_all add: datagram update_for_send_def)
qed

subsection \<open>What a pipeline sends\<close>

text \<open>A pipeline that may resend only datagrams in \<open>B\<close>, and one that has sent nothing but these since \<open>p\<close>.\<close>

definition stores :: "bytes set \<Rightarrow> 'w pipeline \<Rightarrow> bool" where
  "stores B p \<longleftrightarrow> pl_inv p \<and> ran (pl_request_data p) \<subseteq> B"

definition adds_sent :: "bytes set \<Rightarrow> bytes list \<Rightarrow> bytes list \<Rightarrow> bool" where
  "adds_sent B xs ys \<longleftrightarrow> (\<exists>new. ys = xs @ new \<and> set new \<subseteq> B)"

lemma adds_sent_refl [simp]: "adds_sent B xs xs"
  by (simp add: adds_sent_def)

lemma adds_sent_trans: "adds_sent B xs ys \<Longrightarrow> adds_sent B ys zs \<Longrightarrow> adds_sent B xs zs"
  by (force simp: adds_sent_def)

lemma adds_sent_snoc: "x \<in> B \<Longrightarrow> adds_sent B xs (xs @ [x])"
  by (simp add: adds_sent_def)

definition sends :: "bytes set \<Rightarrow> 'w pipeline \<Rightarrow> 'w pipeline \<Rightarrow> bool" where
  "sends B p p' \<longleftrightarrow> stores B p' \<and> adds_sent B (attempts p) (attempts p')"

lemma sends_refl: "stores B p \<Longrightarrow> sends B p p"
  by (simp add: sends_def)

lemma sends_trans: "sends B p q \<Longrightarrow> sends B q r \<Longrightarrow> sends B p r"
  by (auto simp: sends_def intro: adds_sent_trans)

lemma evolves_sends: "stores B p \<Longrightarrow> evolves p p' \<Longrightarrow> sends B p p'"
proof -
  assume b: "stores B p" and e: "evolves p p'"
  obtain new where new: "attempts p' = attempts p @ new" "set new \<subseteq> ran (pl_request_data p)"
    using evolves_sent [OF e] by blast
  have "ran (pl_request_data p') \<subseteq> ran (pl_request_data p)"
    by (subst evolvesD(7) [OF e]) (rule ran_restrict_subset)
  with new b evolvesD(2) [OF e] show ?thesis by (auto simp: sends_def stores_def adds_sent_def)
qed

lemma do_retrieve_sends: "stores B p \<Longrightarrow> sends B p (outcome_state (do_retrieve rd n p evs))"
  using do_retrieve_steps [of p rd n evs] evolves_sends by (auto simp: steps_to_def stores_def)

lemma drain_sends:
  assumes "drain rd p evs = Some r" and "stores B p"
  shows "sends B p (outcome_state r)"
proof -
  have "stores B p \<longrightarrow> sends B p (outcome_state r)"
  proof (rule drain.raw_induct [where P = "\<lambda>rd p evs r. stores B p \<longrightarrow> sends B p (outcome_state r)", OF _ assms(1)], intro impI)
    fix loop rd p evs r
    assume ih: "\<And>rd (p :: 'a pipeline) evs r. loop rd p evs = Some r \<Longrightarrow> stores B p \<longrightarrow> sends B p (outcome_state r)"
      and r: "(case pl_n_channels p of
        None \<Rightarrow> Some (Returned p evs)
      | Some n \<Rightarrow>
          if pl_in_progress p \<ge> n then
            (case pl_intermediate_channel_waits p of
               None \<Rightarrow> Some (Raised PyTypeError p evs)
             | Some waits \<Rightarrow>
                 (case do_retrieve rd waits p evs of
                    Returned p' evs' \<Rightarrow> loop rd p' evs'
                  | Raised e p' evs' \<Rightarrow> Some (Raised e p' evs')
                  | Waiting p' \<Rightarrow> Some (Waiting p')))
          else Some (Returned p evs)) = Some r"
      and b: "stores B p"
    show "sends B p (outcome_state r)"
    proof (cases "\<exists>n waits. pl_n_channels p = Some n \<and> pl_in_progress p \<ge> n \<and> pl_intermediate_channel_waits p = Some waits")
      case False
      then have "outcome_state r = p" using r by (auto split: option.splits if_splits)
      then show ?thesis using sends_refl [OF b] by simp
    next
      case True
      then obtain waits where w: "(case do_retrieve rd waits p evs of
          Returned p' evs' \<Rightarrow> loop rd p' evs' | Raised e p' evs' \<Rightarrow> Some (Raised e p' evs')
        | Waiting p' \<Rightarrow> Some (Waiting p')) = Some r" using r by auto
      note d = do_retrieve_sends [OF b, of rd waits evs]
      show ?thesis
      proof (cases "do_retrieve rd waits p evs")
        case (Returned q evs')
        then have "stores B q" "loop rd q evs' = Some r" using d w by (simp_all add: sends_def)
        with ih d Returned show ?thesis by (auto intro: sends_trans)
      qed (use w d in auto)
    qed
  qed
  then show ?thesis using assms(2) by blast
qed

lemma finish_sends: "finish rd p evs = Some r \<Longrightarrow> stores B p \<Longrightarrow> sends B p (outcome_state r)"
  using do_retrieve_sends [of B p rd 0 evs] by (auto simp: finish_eq sends_refl split: if_splits)

lemma store_and_send_sends:
  assumes "store_and_send s req callback error_callback p = (p', e)" and "stores B p"
    and "\<And>bs. wire s req bs \<Longrightarrow> bs \<in> B"
  shows "sends B p p' \<and> (e = None \<longrightarrow> (\<exists>bs. wire s req bs \<and> attempts p' = attempts p @ [bs]))"
proof (cases "get_scp_data (pl_connection p) (set_sequence s req)")
  case (Pair req' r)
  show ?thesis
  proof (cases r)
    case (Inl x)
    then show ?thesis using assms(1,2) Pair sends_refl by (auto simp: store_and_send_def)
  next
    case (Inr bs)
    then have w: "wire s req bs" unfolding wire_def using Pair by (intro exI [of _ "pl_connection p"]) simp
    have p': "pl_requests p' = AList.update s req' (pl_requests p)" "pl_request_data p' = (pl_request_data p)(s \<mapsto> bs)"
      "pl_retries p' = (pl_retries p)(s \<mapsto> pl_n_retries p)" "pl_callbacks p' = (pl_callbacks p)(s \<mapsto> callback)"
      "pl_error_callbacks p' = (pl_error_callbacks p)(s \<mapsto> error_callback)"
      "pl_retry_reason p' = (pl_retry_reason p)(s \<mapsto> [])" "attempts p' = attempts p @ [bs]"
      using assms(1) Pair Inr
      by (auto simp: store_and_send_def then_do_def wire_send_def conn_send_def split: option.splits)
    have "pl_inv p'"
      using assms(2) by (auto simp: stores_def pl_inv_def seqs_def p' distinct_update dom_update)
    moreover have "ran (pl_request_data p') \<subseteq> B"
      using assms(2) assms(3) [OF w] by (auto simp: p' stores_def ran_def)
    ultimately show ?thesis using p' w assms(3) [OF w] by (auto simp: sends_def stores_def adds_sent_snoc)
  qed
qed

lemma send_request_sends:
  assumes "send_request rd ready req callback error_callback p s evs = Some r" and "stores B p"
    and "\<And>bs. wire s req bs \<Longrightarrow> bs \<in> B"
  shows "sends B p (fst (outcome_state r)) \<and>
    (\<forall>x evs'. r = Returned x evs' \<longrightarrow> (\<exists>bs. wire s req bs \<and> bs \<in> set (drop (length (attempts p)) (attempts (fst x)))))"
proof -
  let ?p = "measure_channels ready p"
  have m: "attempts ?p = attempts p" "stores B ?p"
    using assms(2) by (auto simp: measure_channels_def stores_def pl_inv_def seqs_def Let_def split: option.split)
  obtain d where d: "drain rd ?p evs = Some d" using assms(1) by (auto simp: send_request_def split: option.splits)
  have ds: "sends B p (outcome_state d)" using drain_sends [OF d m(2)] by (simp add: sends_def m(1))
  show ?thesis
  proof (cases d)
    case (Returned q evs1)
    obtain p' e where st: "store_and_send s req callback error_callback q = (p', e)" by fastforce
    have q: "stores B q" using ds Returned by (simp add: sends_def)
    note w = store_and_send_sends [OF st q assms(3)]
    have out: "fst (outcome_state r) = p'" "\<forall>x evs'. r = Returned x evs' \<longrightarrow> e = None"
      using assms(1) d Returned st by (auto simp: send_request_def get_next_sequence_number_def split: option.splits)
    have "e = None \<Longrightarrow> \<exists>bs. wire s req bs \<and> bs \<in> set (drop (length (attempts p)) (attempts p'))"
      using w ds Returned by (force simp: sends_def adds_sent_def)
    then show ?thesis using out w ds Returned by (auto intro: sends_trans)
  next
    case (Raised e q evs1)
    then show ?thesis using assms(1) d ds by (auto simp: send_request_def)
  next
    case (Waiting q)
    then show ?thesis using assms(1) d ds by (auto simp: send_request_def)
  qed
qed

subsection \<open>What a process sends\<close>

definition log_of :: "nat \<Rightarrow> 'v process \<Rightarrow> bytes list" where
  "log_of i pr = attempts (pipeline_for i pr)"

definition sent :: "'v process \<Rightarrow> 'v process \<Rightarrow> bytes list" where
  "sent pr pr' = concat (map (\<lambda>i. drop (length (log_of i pr)) (log_of i pr')) (map fst (pr_pipelines pr')))"

definition process_stores :: "bytes set \<Rightarrow> 'v process \<Rightarrow> bool" where
  "process_stores B pr \<longleftrightarrow> (\<forall>i. stores B (pipeline_for i pr))"

definition process_sends :: "bytes set \<Rightarrow> 'v process \<Rightarrow> 'v process \<Rightarrow> bool" where
  "process_sends B pr pr' \<longleftrightarrow> process_stores B pr' \<and> (\<forall>i. adds_sent B (log_of i pr) (log_of i pr')) \<and>
     fst ` set (pr_pipelines pr) \<subseteq> fst ` set (pr_pipelines pr')"

primrec end_state :: "('a, 'b) presult \<Rightarrow> 'a" where
  "end_state (Done a b) = a"
| "end_state (Fails e a b) = a"
| "end_state (Blocks a) = a"

lemma process_sends_refl: "process_stores B pr \<Longrightarrow> process_sends B pr pr"
  by (simp add: process_sends_def)

lemma process_sends_trans: "process_sends B p q \<Longrightarrow> process_sends B q r \<Longrightarrow> process_sends B p r"
  unfolding process_sends_def by (meson adds_sent_trans subset_trans)

lemma process_sends_stores: "process_sends B p q \<Longrightarrow> process_stores B q"
  by (simp add: process_sends_def)

lemma sent_subset: "process_sends B pr pr' \<Longrightarrow> set (sent pr pr') \<subseteq> B"
proof
  fix bs assume s: "process_sends B pr pr'" and "bs \<in> set (sent pr pr')"
  then obtain i where i: "bs \<in> set (drop (length (log_of i pr)) (log_of i pr'))" by (auto simp: sent_def)
  have "adds_sent B (log_of i pr) (log_of i pr')" using s by (simp add: process_sends_def)
  then show "bs \<in> B" using i by (auto simp: adds_sent_def)
qed

lemma sent_mono:
  assumes "process_sends B a b" and "process_sends B b c" and "process_sends B c d"
  shows "set (sent b c) \<subseteq> set (sent a d)"
proof
  fix bs assume "bs \<in> set (sent b c)"
  then obtain i where i: "i \<in> fst ` set (pr_pipelines c)" "bs \<in> set (drop (length (log_of i b)) (log_of i c))"
    by (auto simp: sent_def)
  have "adds_sent B (log_of i a) (log_of i b)" "adds_sent B (log_of i b) (log_of i c)"
    "adds_sent B (log_of i c) (log_of i d)" "i \<in> fst ` set (pr_pipelines d)"
    using assms i(1) by (auto simp: process_sends_def)
  then have "bs \<in> set (drop (length (log_of i a)) (log_of i d))" "i \<in> fst ` set (pr_pipelines d)"
    using i(2) by (auto simp: adds_sent_def)
  then show "bs \<in> set (sent a d)" by (force simp: sent_def)
qed

lemma sent_extends:
  assumes "process_sends B a b" and "process_sends B b c"
  shows "set (sent a b) \<subseteq> set (sent a c)" and "set (sent b c) \<subseteq> set (sent a c)"
proof -
  show "set (sent b c) \<subseteq> set (sent a c)"
    by (rule sent_mono [OF assms process_sends_refl [OF process_sends_stores [OF assms(2)]]])
  show "set (sent a b) \<subseteq> set (sent a c)"
  proof
    fix bs assume "bs \<in> set (sent a b)"
    then obtain i where i: "i \<in> fst ` set (pr_pipelines b)" "bs \<in> set (drop (length (log_of i a)) (log_of i b))"
      by (auto simp: sent_def)
    have "adds_sent B (log_of i a) (log_of i b)" "adds_sent B (log_of i b) (log_of i c)" "i \<in> fst ` set (pr_pipelines c)"
      using assms i(1) by (auto simp: process_sends_def)
    then have "bs \<in> set (drop (length (log_of i a)) (log_of i c))" "i \<in> fst ` set (pr_pipelines c)"
      using i(2) by (auto simp: adds_sent_def)
    then show "bs \<in> set (sent a c)" by (force simp: sent_def)
  qed
qed

lemma stores_client [simp]: "stores B (p\<lparr>pl_client := w\<rparr>) = stores B p"
  by (simp add: stores_def)

lemma pipeline_for_store:
  "pipeline_for j (store_pipeline i p pr) =
     (if j = i then p else (pipeline_for j pr)\<lparr>pl_client := pl_client p\<rparr>)"
  by (auto simp: pipeline_for_def store_pipeline_def update_conv' pipeline_init_def split: option.split)

lemma pipeline_for_selector [simp]: "pipeline_for i (pr\<lparr>pr_selector := sel\<rparr>) = pipeline_for i pr"
  by (simp add: pipeline_for_def split: option.split)

lemma pipeline_for_client: "pipeline_for i (pr\<lparr>pr_client := c\<rparr>) = (pipeline_for i pr)\<lparr>pl_client := c\<rparr>"
  by (simp add: pipeline_for_def pipeline_init_def split: option.split)

lemma store_pipeline_sends:
  assumes "process_stores B pr" and "sends B (pipeline_for i pr) p"
  shows "process_sends B pr (store_pipeline i p (pr\<lparr>pr_selector := sel\<rparr>))"
proof -
  have "fst ` set (pr_pipelines (store_pipeline i p (pr\<lparr>pr_selector := sel\<rparr>))) = insert i (fst ` set (pr_pipelines pr))"
    by (simp add: store_pipeline_def dom_update)
  then show ?thesis
    using assms by (auto simp: process_sends_def process_stores_def log_of_def pipeline_for_store sends_def)
qed

lemma proc_send_request_sends:
  assumes "proc_send_request rd req callback pr nt = Some r" and "process_stores B pr"
    and "\<And>bs. wire (net_next_sequence nt) req bs \<Longrightarrow> bs \<in> B"
  shows "process_sends B pr (end_state r) \<and>
    (\<forall>pr' nt'. r = Done pr' nt' \<longrightarrow> (\<exists>bs \<in> set (sent pr pr'). wire (net_next_sequence nt) req bs))"
proof -
  obtain i sel where i: "get_next_connection (pr_selector pr) req = (i, sel)" by fastforce
  obtain out where s: "send_request rd False req callback receive_error (pipeline_for i pr)
      (net_next_sequence nt) (net_events nt i) = Some out"
    using assms(1) i by (auto simp: proc_send_request_def Let_def split: option.splits)
  have r: "end_state r = store_pipeline i (fst (outcome_state out)) (pr\<lparr>pr_selector := sel\<rparr>)"
    "\<forall>pr' nt'. r = Done pr' nt' \<longrightarrow> (\<exists>x evs. out = Returned x evs)"
    using assms(1) i s by (auto simp: proc_send_request_def Let_def split: outcome.splits)
  have p: "stores B (pipeline_for i pr)" using assms(2) by (simp add: process_stores_def)
  note w = send_request_sends [OF s p assms(3)]
  have new: "\<exists>bs \<in> set (sent pr pr'). wire (net_next_sequence nt) req bs" if d: "r = Done pr' nt'" for pr' nt'
  proof -
    obtain x evs where x: "out = Returned x evs" using r(2) d by blast
    then obtain bs where bs: "wire (net_next_sequence nt) req bs" "bs \<in> set (drop (length (log_of i pr)) (attempts (fst x)))"
      using w by (auto simp: log_of_def)
    have pr': "pr' = store_pipeline i (fst x) (pr\<lparr>pr_selector := sel\<rparr>)" using r(1) d x by simp
    then have "log_of i pr' = attempts (fst x)" "i \<in> fst ` set (pr_pipelines pr')"
      by (simp_all add: log_of_def pipeline_for_store) (simp add: store_pipeline_def dom_update)
    then show ?thesis using bs by (force simp: sent_def)
  qed
  show ?thesis using store_pipeline_sends [OF assms(2)] w new by (auto simp: r(1))
qed

lemma finish_all_sends:
  "finish_all rd is pr nt = Some r \<Longrightarrow> process_stores B pr \<Longrightarrow> process_sends B pr (end_state r)"
proof (induction "is" arbitrary: pr nt)
  case (Cons i "is")
  obtain out where f: "finish rd (pipeline_for i pr) (net_events nt i) = Some out"
    using Cons.prems(1) by (auto split: option.splits)
  have "sends B (pipeline_for i pr) (outcome_state out)"
    using finish_sends [OF f] Cons.prems(2) by (simp add: process_stores_def)
  note w = store_pipeline_sends [OF Cons.prems(2) this, of "pr_selector pr"]
  show ?case
  proof (cases out)
    case (Returned p evs)
    then show ?thesis using Cons f w process_sends_trans [OF w] process_sends_stores [OF w] by simp
  qed (use Cons.prems(1) f w in auto)
qed (auto simp: process_sends_refl)

lemma collect_responses_sends:
  assumes "collect_responses rd (Some (Done pr nt)) = Some r" and "process_stores B pr"
  shows "process_sends B pr (end_state r)"
proof -
  obtain r1 where r1: "proc_finish rd pr nt = Some r1"
    using assms(1) by (auto simp: collect_responses_def split: option.splits)
  have "end_state r = end_state r1"
    using assms(1) r1 by (auto simp: collect_responses_def split: presult.splits option.splits)
  then show ?thesis using finish_all_sends [OF r1 [unfolded proc_finish_def] assms(2)] by simp
qed

text \<open>A process without anything outstanding stores nothing.\<close>

lemma idle_stores: "idle pr \<Longrightarrow> process_stores B pr"
proof -
  assume i: "idle pr"
  have "stores B (pipeline_for j pr)" for j
  proof (cases "map_of (pr_pipelines pr) j")
    case None
    then show ?thesis by (simp add: pipeline_for_def stores_def pl_inv_def seqs_def pipeline_init_def)
  next
    case (Some p)
    then have "pl_inv p" "seqs p = []" using i map_of_SomeD [OF Some] by (auto simp: idle_def list_all_iff)
    then show ?thesis using Some by (simp add: pipeline_for_def stores_def pl_inv_def)
  qed
  then show ?thesis by (simp add: process_stores_def)
qed

lemma sent_of_client [simp]: "sent (pr\<lparr>pr_client := c\<rparr>) pr' = sent pr pr'"
  by (simp add: sent_def log_of_def pipeline_for_client)

text \<open>A phase has sent a datagram for each of its requests, with the numbers that follow each other.\<close>

lemma send_each_sends:
  assumes "send_each rd xs pr nt = Some r" and "process_stores UNIV pr"
  shows "process_sends UNIV pr (end_state r)"
  using assms
proof (induction xs arbitrary: pr nt)
  case (Cons x xs)
  obtain q f where x: "x = (q, f)" by (cases x)
  show ?case
  proof (cases q)
    case (Inl e)
    then show ?thesis using Cons.prems x by (auto simp: process_sends_refl)
  next
    case (Inr req)
    obtain r1 where r1: "proc_send_request rd req (Some f) pr nt = Some r1"
      using Cons.prems x Inr by (auto simp: and_then_def split: option.splits)
    have w: "process_sends UNIV pr (end_state r1)" using proc_send_request_sends [OF r1 Cons.prems(2)] by simp
    show ?thesis
    proof (cases r1)
      case (Done pr1 nt1)
      then show ?thesis
        using Cons x Inr r1 w process_sends_trans [OF w] process_sends_stores [OF w] by simp
    qed (use Cons.prems x Inr r1 w in \<open>auto simp: and_then_def\<close>)
  qed
qed (auto simp: process_sends_refl)

lemma send_each_sent:
  assumes "send_each rd xs pr nt = Some (Done pr' nt')" and "process_stores UNIV pr"
    and "net_next_sequence nt = seq_of sq0 j" and "k < length xs"
  shows "\<exists>req. fst (xs ! k) = Inr req \<and> (\<exists>bs \<in> set (sent pr pr'). wire (seq_of sq0 (j + k)) req bs)"
  using assms
proof (induction xs arbitrary: pr nt j k)
  case (Cons x xs)
  obtain req f where x: "x = (Inr req, f)" using Cons.prems(1) by (cases x; cases "fst x") auto
  obtain pr1 nt1 where one: "proc_send_request rd req (Some f) pr nt = Some (Done pr1 nt1)"
    and rest: "send_each rd xs pr1 nt1 = Some (Done pr' nt')"
    using Cons.prems(1) x by (auto simp: and_then_def split: option.splits presult.splits)
  have w: "process_sends UNIV pr pr1" and bs: "\<exists>bs \<in> set (sent pr pr1). wire (net_next_sequence nt) req bs"
    using proc_send_request_sends [OF one Cons.prems(2)] by simp_all
  have p1: "process_stores UNIV pr1" by (rule process_sends_stores [OF w])
  have w': "process_sends UNIV pr1 pr'" using send_each_sends [OF rest p1] by simp
  have n: "net_next_sequence nt1 = seq_of sq0 (Suc j)"
    using proc_send_request_consumes [OF one] Cons.prems(3) by (simp add: seq_of_Suc)
  have sub: "set (sent pr pr1) \<subseteq> set (sent pr pr')" "set (sent pr1 pr') \<subseteq> set (sent pr pr')"
    using sent_mono [OF process_sends_refl [OF Cons.prems(2)] w w']
      sent_mono [OF w w' process_sends_refl [OF process_sends_stores [OF w']]] by simp_all
  show ?case
  proof (cases k)
    case 0
    then show ?thesis using bs sub(1) Cons.prems(3) x by auto
  next
    case (Suc k')
    then show ?thesis using Cons.IH [OF rest p1 n, of k'] Cons.prems(4) sub(2) x by auto
  qed
qed simp

end
