(* ===== verification/Answers.thy ===== *)
theory Answers
  imports Wire
begin

text \<open>
  Replies that answer the datagrams a process has sent, and the memory that a machine reads for it. What a process
  concludes from its replies rests on these: they are about what was asked on the wire, not about what
  should have been asked.
\<close>

subsection \<open>Replies that answer a datagram\<close>

text \<open>
  \<open>ok bs r\<close> says that \<open>r\<close> answers \<open>bs\<close>. A reply is right for \<open>bs\<close> if, once it is read successfully and has the
  number of \<open>bs\<close>, it answers it; a lost, late, failing or foreign reply is right. \<open>all_answered\<close> says it of
  everything that arrives and of every datagram that was sent.
\<close>

definition answers :: "reader \<Rightarrow> response_kind \<Rightarrow> (bytes \<Rightarrow> response \<Rightarrow> bool) \<Rightarrow> bytes \<Rightarrow> recv \<Rightarrow> bool" where
  "answers rd kd ok bs = reply_ok rd kd (\<lambda>s r. s = dg_sequence bs \<longrightarrow> ok bs r)"

definition all_answered ::
  "reader \<Rightarrow> response_kind \<Rightarrow> (bytes \<Rightarrow> response \<Rightarrow> bool) \<Rightarrow> bytes list \<Rightarrow> net \<Rightarrow> bool" where
  "all_answered rd kd ok datagrams nt \<longleftrightarrow>
     (\<forall>bs \<in> set datagrams. \<forall>i. list_all (answers rd kd ok bs) (net_events nt i))"

lemma all_answered_mono:
  "all_answered rd kd ok ds nt \<Longrightarrow> set ds' \<subseteq> set ds \<Longrightarrow> events_within nt' nt \<Longrightarrow> all_answered rd kd ok ds' nt'"
  unfolding all_answered_def by (meson events_within_all subsetD)

text \<open>For concrete runs: nothing arrives but on the connections \<open>conns\<close>.\<close>

definition all_answered_on ::
  "nat list \<Rightarrow> reader \<Rightarrow> response_kind \<Rightarrow> (bytes \<Rightarrow> response \<Rightarrow> bool) \<Rightarrow> bytes list \<Rightarrow> net \<Rightarrow> bool" where
  "all_answered_on conns rd kd ok datagrams nt =
     list_all (\<lambda>bs. list_all (\<lambda>i. list_all (answers rd kd ok bs) (net_events nt i)) conns) datagrams"

lemma all_answered_onI:
  assumes "all_answered_on conns rd kd ok ds nt" and "\<And>i. i \<notin> set conns \<Longrightarrow> net_events nt i = []"
  shows "all_answered rd kd ok ds nt"
  unfolding all_answered_def
proof (intro ballI allI)
  fix bs i assume "bs \<in> set ds"
  with assms show "list_all (answers rd kd ok bs) (net_events nt i)"
    by (cases "i \<in> set conns") (auto simp: all_answered_on_def list_all_iff)
qed

lemma all_answered_weaken:
  "all_answered rd kd ok ds nt \<Longrightarrow> (\<And>bs r. ok bs r \<Longrightarrow> ok' bs r) \<Longrightarrow> all_answered rd kd ok' ds nt"
  by (auto simp: all_answered_def answers_def list_all_iff reply_ok_def split: sum.splits)

lemma received_sequence: "receive_scp_response ev = Inr (result, s, raw, off) \<Longrightarrow> 0 \<le> s \<and> s < 65536"
proof -
  assume r: "receive_scp_response ev = Inr (result, s, raw, off)"
  obtain a where a: "struct_unpack_from Little TWO_SHORTS raw 10 = Inr [a, s]"
    using r by (auto simp: receive_scp_response_def bind_res_def split: sum.split_asm list.split_asm)
  have p: "list_all plain_item TWO_SHORTS" by (simp add: layout)
  from struct_unpack_ranges [OF p a] show ?thesis by (simp add: layout)
qed

text \<open>
  The replies of a phase: if for each \<open>k\<close> some datagram with its number was sent that only a response with
  \<open>right k\<close> answers, every reply that is read under the \<open>k\<close>-th number satisfies \<open>right k\<close>.
\<close>

lemma answered_numbers:
  assumes h: "all_answered rd kd ok ds nt"
    and d: "\<And>k. k < n \<Longrightarrow> \<exists>bs \<in> set ds. dg_sequence bs = seq_of sq0 k \<and> (\<forall>r. ok bs r \<longrightarrow> right k r)"
  shows "list_all (reply_ok rd kd (\<lambda>s r. chunk_of sq0 s < n \<longrightarrow> right (chunk_of sq0 s) r)) (net_events nt i)"
  unfolding list_all_iff
proof
  fix ev assume ev: "ev \<in> set (net_events nt i)"
  have "right (chunk_of sq0 s) r"
    if s: "receive_scp_response ev = Inr (result, s, raw, off)" and r: "rd kd raw off = Inr r"
      and k: "chunk_of sq0 s < n" for result s raw off r
  proof -
    obtain bs where bs: "bs \<in> set ds" "dg_sequence bs = s" "ok bs r \<longrightarrow> right (chunk_of sq0 s) r"
      using d [OF k] received_sequence [OF s] by (auto simp: seq_of_chunk_of)
    then have "answers rd kd ok bs ev" using h ev by (simp add: all_answered_def list_all_iff)
    then show ?thesis using s r bs by (simp add: answers_def reply_ok_def)
  qed
  then show "reply_ok rd kd (\<lambda>s r. chunk_of sq0 s < n \<longrightarrow> right (chunk_of sq0 s) r) ev"
    by (auto simp: reply_ok_def split: sum.split)
qed

lemma answered_number:
  assumes h: "all_answered rd kd ok ds nt" and bs: "bs \<in> set ds" "dg_sequence bs = sq0" "\<And>r. ok bs r \<Longrightarrow> Q r"
  shows "list_all (reply_ok rd kd (\<lambda>s r. s = sq0 \<longrightarrow> Q r)) (net_events nt i)"
proof -
  have "list_all (answers rd kd ok bs) (net_events nt i)" using h bs(1) by (simp add: all_answered_def)
  then show ?thesis
    using bs(2,3) by (auto simp: list_all_iff answers_def reply_ok_def split: sum.splits)
qed

text \<open>A phase whose \<open>k\<close>-th request, whatever its datagram, is only answered by a response with \<open>right k\<close>.\<close>

lemma phase_answered:
  assumes h: "all_answered rd kd ok (sent pr pr') nt" and sent: "send_each rd xs pr nt = Some (Done pr1 nt1)"
    and coll: "collect_responses rd (Some (Done pr1 nt1)) = Some (Done pr' nt')"
    and i: "idle pr" and sq: "net_next_sequence nt = sq0" "0 \<le> sq0" "sq0 < 65536"
    and right: "\<And>k req bs s r. k < length xs \<Longrightarrow> fst (xs ! k) = Inr req \<Longrightarrow> wire s req bs \<Longrightarrow> ok bs r \<Longrightarrow> right k r"
  shows "list_all (reply_ok rd kd (\<lambda>s r. chunk_of sq0 s < length xs \<longrightarrow> right (chunk_of sq0 s) r)) (net_events nt i)"
proof (rule answered_numbers [OF h])
  fix k assume k: "k < length xs"
  have p: "process_stores UNIV pr" by (rule idle_stores [OF i])
  have w: "process_sends UNIV pr pr1" using send_each_sends [OF sent p] by simp
  have w': "process_sends UNIV pr1 pr'" using collect_responses_sends [OF coll process_sends_stores [OF w]] by simp
  have "net_next_sequence nt = seq_of sq0 0" using sq by (simp add: seq_of_0)
  from send_each_sent [OF sent p this k] obtain req bs where bs: "fst (xs ! k) = Inr req"
    "bs \<in> set (sent pr pr1)" "wire (seq_of sq0 k) req bs" by auto
  moreover have "set (sent pr pr1) \<subseteq> set (sent pr pr')"
    by (rule sent_mono [OF process_sends_refl [OF p] w w'])
  ultimately show "\<exists>bs \<in> set (sent pr pr'). dg_sequence bs = seq_of sq0 k \<and> (\<forall>r. ok bs r \<longrightarrow> right k r)"
    using right [OF k bs(1,3)] wire_fields(1) [OF bs(3)] by blast
qed

subsection \<open>Reads of memory\<close>

text \<open>The memory that a core sees, and a response that carries \<open>n\<close> bytes of it.\<close>

type_synonym memory = "int \<Rightarrow> byte"

definition mem_bytes :: "memory \<Rightarrow> int \<Rightarrow> nat \<Rightarrow> bytes" where
  "mem_bytes mem a n = map (\<lambda>i. mem (a + int i)) [0..<n]"

definition carries :: "memory \<Rightarrow> int \<Rightarrow> nat \<Rightarrow> response \<Rightarrow> bool" where
  "carries mem a n r \<longleftrightarrow>
     (case r of RspData data off len \<Rightarrow> slice off (off + len) data = mem_bytes mem a n | _ \<Rightarrow> True)"

lemma length_mem_bytes [simp]: "length (mem_bytes mem a n) = n"
  by (simp add: mem_bytes_def)

lemma take_mem_bytes: "m \<le> n \<Longrightarrow> take m (mem_bytes mem a n) = mem_bytes mem a m"
  by (simp add: mem_bytes_def take_map)

lemma drop_mem_bytes: "drop m (mem_bytes mem a n) = mem_bytes mem (a + int m) (n - m)"
  by (rule nth_equalityI) (simp_all add: mem_bytes_def less_diff_conv algebra_simps)

text \<open>
  A datagram that asks to read is answered by what the memory of its core holds at its first argument, as many
  bytes as its second.
\<close>

definition read_answer :: "(xyp \<Rightarrow> memory) \<Rightarrow> bytes \<Rightarrow> response \<Rightarrow> bool" where
  "read_answer mems bs r \<longleftrightarrow>
     (dg_command bs = scp_command_value CMD_READ \<longrightarrow>
        carries (mems (dg_core bs)) (dg_argument 0 bs) (nat (dg_argument 1 bs)) r)"

abbreviation read_kind :: response_kind where
  "read_kind \<equiv> ReadResponse ''read memory'' ''CMD_READ''"

definition memory_answers :: "reader \<Rightarrow> (xyp \<Rightarrow> memory) \<Rightarrow> bytes list \<Rightarrow> net \<Rightarrow> bool" where
  "memory_answers rd mems = all_answered rd read_kind (read_answer mems)"

lemma memory_answers_within:
  assumes "memory_answers rd mems (sent a d) nt" and "process_sends B a b" and "process_sends B b c"
    and "process_sends B c d" and "events_within nt' nt"
  shows "memory_answers rd mems (sent b c) nt'"
  using all_answered_mono [OF assms(1) [unfolded memory_answers_def] sent_mono [OF assms(2-4)] assms(5)]
  by (simp add: memory_answers_def)

lemma read_answered:
  assumes "read_memory (x, y, p) a n = Inr req" and "0 \<le> p" "p < 32" and "wire s req bs" and "read_answer mems bs r"
  shows "carries (mems (x, y, p)) a (nat n) r"
proof -
  obtain t where "req = abstract_scp_request (scamp_header x y p) CMD_READ (Some a) (Some n) (Some t) None read_kind"
    using assms(1) by auto
  moreover have "p AND 31 = p" using assms(2,3) by (simp add: and_masks take_bit_int_eq_self)
  ultimately show ?thesis
    using wire_fields [OF assms(4)] assms(5)
    by (simp add: read_answer_def dg_core_def abstract_scp_request_def scamp_header_def or_zero_def)
qed

lemma read_request_kind: "read_memory c a n = Inr req \<Longrightarrow> req_response req = read_kind"
  by (cases c) (auto simp: abstract_scp_request_def)

text \<open>A phase whose \<open>k\<close>-th request reads \<open>len k\<close> bytes of core \<open>c k\<close> from \<open>a k\<close> on gets them as its \<open>k\<close>-th reply.\<close>

lemma reads_answered:
  assumes h: "memory_answers rd mems (sent pr pr') nt" and sent: "send_each rd xs pr nt = Some (Done pr1 nt1)"
    and coll: "collect_responses rd (Some (Done pr1 nt1)) = Some (Done pr' nt')"
    and i: "idle pr" and sq: "0 \<le> net_next_sequence nt" "net_next_sequence nt < 65536"
    and reads: "\<And>k. k < length xs \<Longrightarrow> fst (xs ! k) = read_memory (c k) (a k) (len k) \<and> 0 \<le> snd (snd (c k)) \<and> snd (snd (c k)) < 32"
  shows "list_all (reply_ok rd read_kind (\<lambda>s r. chunk_of (net_next_sequence nt) s < length xs \<longrightarrow>
    (let k = chunk_of (net_next_sequence nt) s in carries (mems (c k)) (a k) (nat (len k)) r))) (net_events nt i)"
proof -
  have right: "carries (mems (c k)) (a k) (nat (len k)) r"
    if "k < length xs" "fst (xs ! k) = Inr req" "wire s req bs" "read_answer mems bs r" for k req bs s r
  proof -
    obtain x y p where "c k = (x, y, p)" by (cases "c k")
    then show ?thesis using reads [OF that(1)] that(2-4) read_answered [of x y p "a k" "len k" req s bs mems r] by simp
  qed
  note answered = phase_answered [OF h [unfolded memory_answers_def] sent coll i refl sq,
      where right = "\<lambda>k. carries (mems (c k)) (a k) (nat (len k))"]
  show ?thesis unfolding Let_def by (rule answered) (rule right)
qed

text \<open>For concrete runs: a memory that holds \<open>block\<close> at \<open>base\<close>, and the answers to a read of the whole of it.\<close>

definition held :: "int \<Rightarrow> bytes \<Rightarrow> memory" where
  "held base block a = (if base \<le> a \<and> a < base + int (length block) then block ! nat (a - base) else 0)"

lemma mem_bytes_held [simp]: "length block = n \<Longrightarrow> mem_bytes (held base block) base n = block"
  by (rule nth_equalityI) (simp_all add: mem_bytes_def held_def)

definition whole_read :: "xyp \<Rightarrow> int \<Rightarrow> bytes \<Rightarrow> bytes \<Rightarrow> response \<Rightarrow> bool" where
  "whole_read c base block bs r \<longleftrightarrow> dg_core bs = c \<and> dg_argument 0 bs = base \<and> dg_argument 1 bs = int (length block) \<and>
     (case r of RspData data off len \<Rightarrow> slice off (off + len) data = block | _ \<Rightarrow> True)"

lemma whole_read_answer: "whole_read c base block bs r \<Longrightarrow> mems c = held base block \<Longrightarrow> read_answer mems bs r"
  by (simp add: whole_read_def read_answer_def carries_def split: response.splits)

end
