(* ===== verification/MemoryProps.thy ===== *)
theory MemoryProps
  imports Answers
begin

text \<open>
  What the memory processes guarantee: a read that returns has put every packet's bytes at its place,
  whatever the order, repetition or loss of the replies.
\<close>

subsection \<open>Chunks\<close>

definition chunk :: "nat \<Rightarrow> bytes \<Rightarrow> bytes" where
  "chunk i xs = take 256 (drop (256 * i) xs)"

definition n_chunks :: "bytes \<Rightarrow> nat" where
  "n_chunks xs = (length xs + 255) div 256"

lemma n_chunks_iff: "i < n_chunks xs \<longleftrightarrow> 256 * i < length xs"
  unfolding n_chunks_def by linarith

lemma chunk_nth:
  "j < length xs \<Longrightarrow> xs ! j = chunk (j div 256) xs ! (j mod 256) \<and> j mod 256 < length (chunk (j div 256) xs)"
proof -
  assume j: "j < length xs"
  have "256 * (j div 256) + j mod 256 = j" by simp
  moreover have "j mod 256 < 256" by simp
  ultimately have "j mod 256 < length xs - 256 * (j div 256)" "drop (256 * (j div 256)) xs ! (j mod 256) = xs ! j"
    using j by (linarith, simp)
  then show ?thesis by (simp add: chunk_def)
qed

lemma chunks_determine:
  assumes "length xs = length ys" and "\<And>i. i < n_chunks ys \<Longrightarrow> chunk i xs = chunk i ys"
  shows "xs = ys"
proof (rule nth_equalityI [OF assms(1)])
  fix j assume j: "j < length xs"
  have "256 * (j div 256) \<le> j" by simp
  then have "j div 256 < n_chunks ys" using j assms(1) by (simp add: n_chunks_iff)
  with assms(2) have "chunk (j div 256) xs = chunk (j div 256) ys" by blast
  then show "xs ! j = ys ! j" using chunk_nth [of j xs] chunk_nth [of j ys] j assms(1) by simp
qed

lemma chunk_append: "256 * i + 256 \<le> length xs \<Longrightarrow> chunk i (xs @ ys) = chunk i xs"
  by (simp add: chunk_def)

lemma chunk_take:
  assumes "256 * i + 256 \<le> n"
  shows "chunk i (take n xs) = chunk i xs"
proof -
  have "min 256 (n - 256 * i) = 256" using assms by linarith
  then show ?thesis by (simp add: chunk_def drop_take)
qed

text \<open>Assigning one chunk fills it and leaves the others alone.\<close>

lemma view_assign_chunk:
  assumes l: "length view = length mem" and k: "k < n_chunks mem"
  shows "\<exists>view'. view_assign (256 * k) (chunk k mem) view = Inr view' \<and> length view' = length mem \<and>
     chunk k view' = chunk k mem \<and> (\<forall>i. i \<noteq> k \<longrightarrow> chunk i view' = chunk i view)"
proof -
  let ?n = "length (chunk k mem)"
  let ?v = "take (256 * k) view @ chunk k mem @ drop (256 * k + ?n) view"
  have n: "?n = min 256 (length mem - 256 * k)" by (simp add: chunk_def)
  have k': "256 * k < length mem" using k by (simp add: n_chunks_iff)
  then have tk: "length (take (256 * k) view) = 256 * k" using l by simp
  have "view_assign (256 * k) (chunk k mem) view = Inr ?v"
    using l n k' by (simp add: view_assign_def)
  moreover have "length ?v = length mem" using l n k' by simp
  moreover have "chunk k ?v = chunk k mem"
  proof (cases "?n = 256")
    case True
    then show ?thesis using tk by (simp add: chunk_def)
  next
    case False
    then have "256 * k + ?n = length mem" using n k' by linarith
    then have "?v = take (256 * k) view @ chunk k mem" using l by simp
    then show ?thesis using tk by (simp add: chunk_def)
  qed
  moreover have "chunk i ?v = chunk i view" if "i \<noteq> k" for i
  proof (cases "i < k")
    case True
    then have "256 * i + 256 \<le> 256 * k" by linarith
    then show ?thesis using tk by (simp only: chunk_append chunk_take)
  next
    case False
    then have i: "256 * k + 256 \<le> 256 * i" using that by linarith
    then have "drop (256 * i) ?v = drop (256 * i) view"
      using tk n k' l by (cases "?n = 256") (auto simp: drop_drop)
    then show ?thesis by (simp add: chunk_def)
  qed
  ultimately show ?thesis by blast
qed

subsection \<open>The invariant of a read\<close>

definition read_inv :: "bytes \<Rightarrow> int \<Rightarrow> int set \<Rightarrow> bytes client \<Rightarrow> bool" where
  "read_inv mem sq0 S c \<longleftrightarrow> length (cl_user c) = length mem \<and> n_chunks mem \<le> 65536 \<and>
     (\<forall>s \<in> S. chunk_of sq0 s < n_chunks mem) \<and>
     (cl_errors c \<noteq> [] \<or>
      (\<forall>i < n_chunks mem. seq_of sq0 i \<in> S \<or> chunk i (cl_user c) = chunk i mem))"

text \<open>The right response to packet \<open>s\<close> carries the bytes of its chunk.\<close>

definition read_right :: "bytes \<Rightarrow> int \<Rightarrow> int \<Rightarrow> response \<Rightarrow> bool" where
  "read_right mem sq0 s r \<longleftrightarrow>
     (case r of
        RspData data off len \<Rightarrow>
          chunk_of sq0 s < n_chunks mem \<longrightarrow> slice off (off + len) data = chunk (chunk_of sq0 s) mem
      | _ \<Rightarrow> True)"

definition read_cb :: "int \<Rightarrow> int \<Rightarrow> bytes client callback option" where
  "read_cb sq0 s = Some (read_handle_response (256 * chunk_of sq0 s))"

interpretation read_client: process_client rd "read_inv mem sq0" "read_right mem sq0" "\<lambda>s. kd" "read_cb sq0"
  for rd mem sq0 kd
proof
  fix s S w req e
  assume "s \<in> S" "read_inv mem sq0 S w"
  then show "read_inv mem sq0 (S - {s}) (receive_error req e w)"
    by (simp add: read_inv_def receive_error_def)
next
  fix s S w r f w'
  assume s: "s \<in> S" and J: "read_inv mem sq0 S w" and r: "read_right mem sq0 s r"
    and f: "read_cb sq0 s = Some f" "f r w = (w', None)"
  from f obtain data off len view where rsp: "r = RspData data off len"
    and v: "view_assign (256 * chunk_of sq0 s) (slice off (off + len) data) (cl_user w) = Inr view"
    and w': "w' = w\<lparr>cl_user := view\<rparr>"
    by (auto simp: read_cb_def read_handle_response_def split: response.splits sum.splits)
  have k: "chunk_of sq0 s < n_chunks mem" using s J by (simp add: read_inv_def)
  have pay: "slice off (off + len) data = chunk (chunk_of sq0 s) mem" using r rsp k by (simp add: read_right_def)
  have l: "length (cl_user w) = length mem" using J by (simp add: read_inv_def)
  have view: "length view = length mem" "chunk (chunk_of sq0 s) view = chunk (chunk_of sq0 s) mem"
    "\<forall>i. i \<noteq> chunk_of sq0 s \<longrightarrow> chunk i view = chunk i (cl_user w)"
    using view_assign_chunk [OF l k] v pay by auto
  have "seq_of sq0 i \<in> S - {s} \<or> chunk i view = chunk i mem"
    if i: "i < n_chunks mem" and old: "seq_of sq0 i \<in> S \<or> chunk i (cl_user w) = chunk i mem" for i
  proof (cases "i = chunk_of sq0 s")
    case True
    then show ?thesis using view(2) by simp
  next
    case False
    then have same: "chunk i view = chunk i (cl_user w)" using view(3) by blast
    show ?thesis
    proof (cases "seq_of sq0 i = s")
      case True
      then have "chunk_of sq0 s = i"
        using chunk_of_seq_of [of i sq0] i J by (simp add: read_inv_def)
      with False show ?thesis by simp
    qed (use old same in auto)
  qed
  then show "read_inv mem sq0 (S - {s}) w'"
    using J view(1) w' by (auto simp: read_inv_def)
next
  fix s S w r f w' e
  assume s: "s \<in> S" and J: "read_inv mem sq0 S w" and r: "read_right mem sq0 s r"
    and f: "read_cb sq0 s = Some f" "f r w = (w', Some e)"
  then have "w' = w"
    by (auto simp: read_cb_def read_handle_response_def split: response.splits sum.splits)
  with J show "read_inv mem sq0 S w'" by simp
next
  fix s S w r
  assume "read_cb sq0 s = None"
  then show "read_inv mem sq0 (S - {s}) w" by (simp add: read_cb_def)
qed

subsection \<open>The read loop\<close>

definition n_packets :: "int \<Rightarrow> nat" where
  "n_packets n = nat ((n + 255) div 256)"

text \<open>Packet \<open>i\<close> asks for the bytes from \<open>256 i\<close> on.\<close>

definition read_packets ::
  "(int \<Rightarrow> int \<Rightarrow> scp_request res) \<Rightarrow> int \<Rightarrow> int \<Rightarrow> nat \<Rightarrow> (scp_request res \<times> bytes client callback) list" where
  "read_packets packet base n offset =
     map (\<lambda>i. (packet (base + int (offset + 256 * i)) (min (n - 256 * int i) 256), read_handle_response (offset + 256 * i)))
       [0..<n_packets n]"

lemma read_packets_step:
  assumes "0 < n"
  shows "read_packets packet base n offset =
    (packet (base + int offset) (min n 256), read_handle_response offset) #
      read_packets packet base (n - min n 256) (offset + nat (min n 256))"
proof (cases "n < 256")
  case True
  then have "n_packets n = 1" "n_packets 0 = 0" using assms by (simp_all add: n_packets_def)
  with True assms show ?thesis by (simp add: read_packets_def)
next
  case False
  then have "n_packets n = Suc (n_packets (n - 256))" by (simp add: n_packets_def nat_eq_iff) linarith
  then have "[0..<n_packets n] = 0 # map Suc [0..<n_packets (n - 256)]"
    by (simp add: upt_conv_Cons map_Suc_upt del: upt_Suc)
  with False show ?thesis by (simp add: read_packets_def comp_def algebra_simps)
qed

lemma read_memory_loop_send_each:
  "read_memory_loop rd packet base n offset pr nt = send_each rd (read_packets packet base n offset) pr nt"
proof (induction rd packet base n offset pr nt rule: read_memory_loop.induct)
  case (1 rd packet base n offset pr nt)
  show ?case
  proof (cases "n \<le> 0")
    case True
    then have "n_packets n = 0" by (simp add: n_packets_def)
    then show ?thesis using True by (simp add: read_memory_loop.simps read_packets_def)
  next
    case False
    let ?get = "min n 256"
    have step: "read_packets packet base n offset = (packet (base + int offset) ?get, read_handle_response offset) #
        read_packets packet base (n - ?get) (offset + nat ?get)"
      using False by (intro read_packets_step) simp
    show ?thesis
    proof (cases "packet (base + int offset) ?get")
      case (Inl e)
      then show ?thesis using False
        by (simp add: step read_memory_loop.simps UDP_MESSAGE_MAX_SIZE_def)
    next
      case (Inr req)
      have "read_memory_loop rd packet base (n - ?get) (offset + nat ?get) pr1 nt1 =
          send_each rd (read_packets packet base (n - ?get) (offset + nat ?get)) pr1 nt1" for pr1 nt1
        using "1.IH" [OF False refl, of req] Inr by (simp add: UDP_MESSAGE_MAX_SIZE_def)
      then show ?thesis
        unfolding step using False Inr
        by (subst read_memory_loop.simps)
          (simp add: UDP_MESSAGE_MAX_SIZE_def Let_def and_then_def split: option.split presult.split)
    qed
  qed
qed

subsection \<open>Properties\<close>

text \<open>
  A read whose replies are right by their numbers. The hypothesis is about the positions of the packets; the
  property below gets it from the datagrams that were sent.
\<close>

lemma read_phase_correct:
  assumes "idle pr" and "length (cl_user (pr_client pr)) = length mem" and "n_chunks mem \<le> 65536"
    and "net_next_sequence nt = sq0" "0 \<le> sq0" "sq0 < 65536"
    and "\<And>i. list_all (reply_ok rd kd (read_right mem sq0)) (net_events nt i)"
    and pk: "\<And>a n req. packet a n = Inr req \<Longrightarrow> req_response req = kd"
    and sent: "send_each rd (read_packets packet base (int (length mem)) 0) pr nt = Some (Done pr1 nt1)"
    and coll: "collect_responses rd (Some (Done pr1 nt1)) = Some (Done pr' nt')"
  shows "cl_user (pr_client pr') = mem"
proof -
  let ?xs = "read_packets packet base (int (length mem)) 0"
  have n: "length ?xs = n_chunks mem"
    by (simp add: read_packets_def n_packets_def n_chunks_def nat_div_distrib nat_add_distrib)
  have p: "s \<in> numbers sq0 0 (n_chunks mem) \<Longrightarrow> chunk_of sq0 s < n_chunks mem" for s
    using assms(3) by (auto simp: numbers_def chunk_of_seq_of)
  have "read_inv mem sq0 (numbers sq0 0 (length ?xs)) (pr_client pr)"
    using assms(2,3) p by (simp add: read_inv_def n) (simp add: numbers_def)
  moreover have "list_all (read_client.honest rd mem sq0 kd) (net_events nt i)" for i
    using assms(7) [of i] by (simp add: list_all_iff read_client.honest_reply_ok)
  moreover have "Some (snd (?xs ! i)) = read_cb sq0 (seq_of sq0 i)" if "i < length ?xs" for i
    using that assms(3) n by (simp add: read_packets_def read_cb_def chunk_of_seq_of)
  moreover have "req_response req = kd" if "i < length ?xs" "fst (?xs ! i) = Inr req" for i req
    using that pk by (simp add: read_packets_def)
  moreover have "length ?xs \<le> 65536" using n assms(3) by simp
  ultimately have "read_inv mem sq0 {} (pr_client pr')" "cl_errors (pr_client pr') = []"
    using read_client.each_idle_phase_ok [OF assms(1) _ _ assms(4-6) _ _ _ sent coll] by blast+
  then show ?thesis using chunks_determine [of "cl_user (pr_client pr')" mem] by (simp add: read_inv_def)
qed

lemma chunk_mem_bytes: "chunk k (mem_bytes mem a n) = mem_bytes mem (a + int (256 * k)) (min 256 (n - 256 * k))"
  by (cases "256 \<le> n - 256 * k") (simp_all add: chunk_def drop_mem_bytes take_mem_bytes min_def)

text \<open>
  C1: a memory read that returns is right. Let a fresh process over any connections and selector read
  up to 2^24 bytes of core \<open>p\<close> of chip \<open>(x, y)\<close> from address \<open>base\<close> on, with any events on every connection, as
  long as a successful reply to a datagram that it has sent carries what the memory of the core named in this
  datagram holds at the address and over the length in it. If \<open>read_memory\<close> returns without raising, the bytes
  it returns are those of this core's memory from \<open>base\<close> on: whatever was lost, repeated, delayed,
  reordered or retried, and however the packets were spread over the connections.
\<close>
theorem read_memory_correct:
  assumes "fresh pr" and "len \<le> 2 ^ 24" and "0 \<le> p" "p < 32"
    and "0 \<le> net_next_sequence nt" "net_next_sequence nt < 65536"
    and "read_memory_of rd (x, y, p) base len pr nt = Some (Done pr' nt')"
    and "memory_answers rd mems (sent pr pr') nt"
  shows "cl_user (pr_client pr') = mem_bytes (mems (x, y, p)) base (nat len)"
proof -
  let ?mem = "mem_bytes (mems (x, y, p)) base (nat len)" and ?packet = "read_memory (x, y, p)"
    and ?pr0 = "pr\<lparr>pr_client := (pr_client pr)\<lparr>cl_user := replicate (nat len) 0\<rparr>\<rparr>" and ?sq = "net_next_sequence nt"
  let ?xs = "read_packets ?packet base len 0"
  have len: "0 \<le> len" using assms(7) by (auto simp: read_memory_of_def read_memory_process_def split: if_splits)
  then have n: "n_chunks ?mem \<le> 65536" "n_packets len = n_chunks ?mem" "int (length ?mem) = len"
    using assms(2) by (auto simp: n_chunks_def n_packets_def nat_div_distrib nat_add_distrib)
  obtain pr1 nt1 where sent: "send_each rd ?xs ?pr0 nt = Some (Done pr1 nt1)"
    and coll: "collect_responses rd (Some (Done pr1 nt1)) = Some (Done pr' nt')"
    using len assms(7) collect_responses_started
    by (fastforce simp: read_memory_of_def read_memory_process_def Let_def read_memory_loop_send_each)
  have idle: "idle ?pr0" using fresh_idle [OF assms(1)] by (simp add: idle_def)
  have "memory_answers rd mems (sent ?pr0 pr') nt" using assms(8) by simp
  note answered = reads_answered [OF this sent coll idle assms(5,6),
      where c = "\<lambda>k. (x, y, p)" and a = "\<lambda>k. base + int (256 * k)" and len = "\<lambda>k. min (len - 256 * int k) 256"]
  have size: "nat (min (len - 256 * int k) 256) = min 256 (nat len - 256 * k)" for k using len by linarith
  have h: "list_all (reply_ok rd read_kind (read_right ?mem ?sq)) (net_events nt i)" for i
    by (rule list.pred_mono_strong [OF answered])
      (use assms(3,4) in \<open>auto simp: read_packets_def reply_ok_def read_right_def carries_def n(2) chunk_mem_bytes size Let_def
        split: sum.splits response.splits\<close>)
  have l: "length (cl_user (pr_client ?pr0)) = length ?mem" by simp
  have s: "send_each rd (read_packets ?packet base (int (length ?mem)) 0) ?pr0 nt = Some (Done pr1 nt1)"
    using sent by (simp only: n(3))
  show ?thesis by (rule read_phase_correct [OF idle l n(1) refl assms(5,6) h _ s coll]) (rule read_request_kind)
qed

definition sample_process :: "bytes process" where
  "sample_process = process_init [sample_connection] (FixedSelector 0) N_RETRIES 8 7 None []"

text \<open>A timeout, then a reply for a number that is not in use, then the reply with the data.\<close>

definition sample_net :: "net" where
  "sample_net = \<lparr>net_events = (\<lambda>i. if i = 0 then
       [RecvTimeout,
        Datagram ([0, 0] @ sample_header_bytes @ [0x80, 0, 9, 0] @ [7, 7, 7, 7]),
        Datagram ([0, 0] @ sample_header_bytes @ [0x80, 0, 0, 0] @ [1, 2, 3, 4])] else []),
     net_next_sequence = 0\<rparr>"

definition sample_memories :: "xyp \<Rightarrow> memory" where
  "sample_memories c a = (if c = (2, 5, 3) \<and> 0x60000000 \<le> a then word_of_int (a - 0x60000000 + 1) else 0)"

theorem read_memory_correct_witness:
  "\<exists>pr nt. read_memory_of (read_bytestring 6) (2, 5, 3) 0x60000000 4 sample_process sample_net
       = Some (Done pr nt) \<and> cl_user (pr_client pr) = [1, 2, 3, 4]"
proof -
  let ?run = "read_memory_of (read_bytestring 6) (2, 5, 3) 0x60000000 4 sample_process sample_net"
  let ?rd = "read_bytestring 6"
  have "(case ?run of Some (Done pr nt) \<Rightarrow>
      all_answered_on [0] ?rd read_kind (read_answer sample_memories) (sent sample_process pr) sample_net | _ \<Rightarrow> False)"
    by code_simp
  then obtain pr nt where r: "?run = Some (Done pr nt)"
    and on: "all_answered_on [0] ?rd read_kind (read_answer sample_memories) (sent sample_process pr) sample_net"
    by (auto split: option.splits presult.splits)
  have "memory_answers ?rd sample_memories (sent sample_process pr) sample_net"
    unfolding memory_answers_def by (rule all_answered_onI [OF on]) (simp add: sample_net_def)
  then have "cl_user (pr_client pr) = mem_bytes (sample_memories (2, 5, 3)) 0x60000000 (nat 4)"
    by (intro read_memory_correct [OF _ _ _ _ _ _ r])
      (simp_all add: sample_process_def process_init_def sample_net_def fresh_def)
  moreover have "mem_bytes (sample_memories (2, 5, 3)) 0x60000000 (nat 4) = [1, 2, 3, 4]" by code_simp
  ultimately show ?thesis using r by auto
qed

end
