(* ===== verification/ProcessProps.thy ===== *)
theory ProcessProps
  imports Answers
begin

text \<open>
  What the processes with simple callbacks guarantee: a single command returns its own response, an
  allocation returns the address that was allocated, and a count adds every chip's answer exactly
  once. Each is an instance of the client contract of a process.
\<close>

subsection \<open>One request\<close>

text \<open>
  A phase with one request numbered \<open>sq0\<close>, whose callback establishes \<open>P\<close> from a right response, in a state with
  \<open>I\<close>, which the callback keeps when it raises.
\<close>

definition single_inv :: "('v \<Rightarrow> bool) \<Rightarrow> ('v \<Rightarrow> bool) \<Rightarrow> int \<Rightarrow> int set \<Rightarrow> 'v client \<Rightarrow> bool" where
  "single_inv I P sq0 S w \<longleftrightarrow> S \<subseteq> {sq0} \<and> (if S = {} then cl_errors w \<noteq> [] \<or> P (cl_user w) else I (cl_user w))"

definition single_right :: "(response \<Rightarrow> bool) \<Rightarrow> int \<Rightarrow> int \<Rightarrow> response \<Rightarrow> bool" where
  "single_right Q sq0 s r \<longleftrightarrow> s = sq0 \<longrightarrow> Q r"

locale single_client =
  fixes rd :: reader and f :: "'v client callback" and I :: "'v \<Rightarrow> bool" and P :: "'v \<Rightarrow> bool"
    and Q :: "response \<Rightarrow> bool" and kd :: response_kind and sq0 :: int
  assumes callback_establishes: "Q r \<Longrightarrow> I (cl_user w) \<Longrightarrow> f r w = (w', None) \<Longrightarrow> P (cl_user w')"
    and callback_fails: "I (cl_user w) \<Longrightarrow> f r w = (w', Some e) \<Longrightarrow> I (cl_user w')"

sublocale single_client \<subseteq> phase: process_client rd "single_inv I P sq0" "single_right Q sq0" "\<lambda>s. kd" "\<lambda>s. Some f"
proof
  fix s S w req e
  assume "s \<in> S" "single_inv I P sq0 S w"
  then show "single_inv I P sq0 (S - {s}) (receive_error req e w)"
    by (auto simp: single_inv_def receive_error_def split: if_splits)
next
  fix s S w r g w'
  assume "s \<in> S" "single_inv I P sq0 S w" "single_right Q sq0 s r" "Some f = Some g" "g r w = (w', None)"
  moreover from this have "S = {s}" "s = sq0" by (auto simp: single_inv_def)
  ultimately show "single_inv I P sq0 (S - {s}) w'"
    using callback_establishes by (auto simp: single_inv_def single_right_def)
next
  fix s S w r g w' e
  assume "s \<in> S" "single_inv I P sq0 S w" "Some f = Some g" "g r w = (w', Some e)"
  then show "single_inv I P sq0 S w'" using callback_fails by (auto simp: single_inv_def split: if_splits)
qed simp

context single_client
begin

lemma single_idle_phase:
  assumes "idle pr" and "I (cl_user (pr_client pr))"
    and "\<And>i. list_all (reply_ok rd kd (single_right Q sq0)) (net_events nt i)"
    and "net_next_sequence nt = sq0" "0 \<le> sq0" "sq0 < 65536" and "req_response req = kd"
    and res: "collect_responses rd (proc_send_request rd req (Some f) pr nt) = Some (Done pr' nt')"
  shows "P (cl_user (pr_client pr')) \<and> idle pr' \<and> events_within nt' nt \<and>
    net_next_sequence nt' = (sq0 + 1) mod MAX_SEQUENCE"
proof -
  obtain pr1 nt1 where one: "proc_send_request rd req (Some f) pr nt = Some (Done pr1 nt1)"
    and coll: "collect_responses rd (Some (Done pr1 nt1)) = Some (Done pr' nt')"
    using collect_responses_started [OF res] by blast
  let ?reqs = "[Inr req] :: scp_request res list"
  have "numbers sq0 0 (length ?reqs) = {sq0}"
    using assms(5,6) by (simp add: numbers_def seq_of_0)
  then have "single_inv I P sq0 (numbers sq0 0 (length ?reqs)) (pr_client pr)"
    using assms(2) by (simp add: single_inv_def)
  moreover have "list_all phase.honest (net_events nt i)" for i
    using assms(3) [of i] by (simp add: list_all_iff phase.honest_reply_ok)
  moreover have sent: "send_all rd (Some f) ?reqs pr nt = Some (Done pr1 nt1)"
    using one by (simp add: and_then_def)
  moreover have "length ?reqs \<le> 65536" by simp
  moreover have "req_response r = kd" if "Inr r \<in> set ?reqs" for r using that assms(7) by simp
  ultimately have "single_inv I P sq0 {} (pr_client pr') \<and> cl_errors (pr_client pr') = [] \<and> idle pr'"
    using phase.idle_phase_ok [OF assms(1) _ _ assms(4-6) _ refl _ _ coll] by blast
  with proc_send_request_consumes [OF one] collect_responses_consumes [OF coll] assms(4) show ?thesis
    by (auto simp: single_inv_def intro: events_within_trans)
qed

lemma single_phase:
  assumes "fresh pr" and "I (cl_user (pr_client pr))"
    and "\<And>i. list_all (reply_ok rd kd (single_right Q sq0)) (net_events nt i)"
    and "net_next_sequence nt = sq0" "0 \<le> sq0" "sq0 < 65536" and "req_response req = kd"
    and "collect_responses rd (proc_send_request rd req (Some f) pr nt) = Some (Done pr' nt')"
  shows "P (cl_user (pr_client pr'))"
  using single_idle_phase [OF fresh_idle [OF assms(1)] assms(2-)] by blast

end

interpretation execute: single_client rd single_handle_response "\<lambda>_. True" "\<lambda>u. \<exists>r. u = Some r \<and> Q r" Q kd sq0
  for rd Q kd sq0
  by unfold_locales (auto simp: single_handle_response_def)

interpretation malloc: single_client rd malloc_handle_response "\<lambda>_. True" "\<lambda>a. a = addr" "\<lambda>r. r = RspAlloc addr" kd sq0
  for rd addr kd sq0
  by unfold_locales (auto simp: malloc_handle_response_def)

subsection \<open>Counting\<close>

text \<open>Chip \<open>i\<close> answers \<open>cnt i\<close>; the sum so far is that of the chips that have been answered.\<close>

definition count_inv :: "(nat \<Rightarrow> int) \<Rightarrow> nat \<Rightarrow> int \<Rightarrow> int set \<Rightarrow> int client \<Rightarrow> bool" where
  "count_inv cnt n sq0 S w \<longleftrightarrow> n \<le> 65536 \<and> S \<subseteq> seq_of sq0 ` {..<n} \<and>
     (cl_errors w \<noteq> [] \<or> cl_user w = (\<Sum>i | i < n \<and> seq_of sq0 i \<notin> S. cnt i))"

definition count_right :: "(nat \<Rightarrow> int) \<Rightarrow> nat \<Rightarrow> int \<Rightarrow> int \<Rightarrow> response \<Rightarrow> bool" where
  "count_right cnt n sq0 s r \<longleftrightarrow> list_all (\<lambda>i. s = seq_of sq0 i \<longrightarrow> r = RspCount (cnt i)) [0..<n]"

lemma answered_insert:
  assumes "n \<le> 65536" and "k < n" and "seq_of sq0 k \<in> S"
  shows "(\<Sum>i | i < n \<and> seq_of sq0 i \<notin> S - {seq_of sq0 k}. cnt i) =
     cnt k + (\<Sum>i | i < n \<and> seq_of sq0 i \<notin> S. cnt i :: int)"
proof -
  have "i = k" if "i < n" "seq_of sq0 i = seq_of sq0 k" for i
  proof -
    have "chunk_of sq0 (seq_of sq0 i) = i" "chunk_of sq0 (seq_of sq0 k) = k"
      using that(1) assms by (simp_all add: chunk_of_seq_of)
    then show ?thesis unfolding that(2) by simp
  qed
  then have "{i. i < n \<and> seq_of sq0 i \<notin> S - {seq_of sq0 k}} = insert k {i. i < n \<and> seq_of sq0 i \<notin> S}"
    using assms by auto
  with assms show ?thesis by simp
qed

interpretation count_client: process_client rd "count_inv cnt n sq0" "count_right cnt n sq0" "\<lambda>s. kd"
  "\<lambda>s. Some count_handle_response" for rd cnt n sq0 kd
proof
  fix s S w req e
  assume "s \<in> S" "count_inv cnt n sq0 S w"
  then show "count_inv cnt n sq0 (S - {s}) (receive_error req e w)"
    by (auto simp: count_inv_def receive_error_def)
next
  fix s S w r f w'
  assume s: "s \<in> S" and J: "count_inv cnt n sq0 S w" and r: "count_right cnt n sq0 s r"
    and f: "Some count_handle_response = Some f" "f r w = (w', None)"
  obtain k where k: "k < n" "s = seq_of sq0 k" using s J by (auto simp: count_inv_def)
  then have "r = RspCount (cnt k)" using r by (auto simp: count_right_def list_all_iff)
  then have "w' = w\<lparr>cl_user := cl_user w + cnt k\<rparr>" using f by (auto simp: count_handle_response_def)
  then show "count_inv cnt n sq0 (S - {s}) w'"
    using J k answered_insert [of n k sq0 S cnt] s by (auto simp: count_inv_def)
next
  fix s S w r f w' e
  assume "s \<in> S" "count_inv cnt n sq0 S w" "count_right cnt n sq0 s r"
    "Some count_handle_response = Some f" "f r w = (w', Some e)"
  then show "count_inv cnt n sq0 S w'"
    by (auto simp: count_handle_response_def split: response.splits)
qed simp

subsection \<open>Properties\<close>

text \<open>
  C17: a single command returns its own response. Let a fresh process execute a request, over any
  connections and with any events on them, such that everything that is read successfully under the
  request's own sequence number satisfies \<open>Q\<close>. If sending and collecting end without an exception,
  then so does \<open>execute\<close> (its assertion that there is a response never fails), and the response it
  returns satisfies \<open>Q\<close>, however many late, duplicate and foreign replies arrived.
\<close>
theorem execute_single_correct:
  assumes "fresh pr" and "0 \<le> net_next_sequence nt" "net_next_sequence nt < 65536"
    and "\<And>i. list_all (reply_ok rd (req_response req) (single_right Q (net_next_sequence nt))) (net_events nt i)"
    and "collect_responses rd (proc_send_request rd req (Some single_handle_response) pr nt)
      = Some (Done pr' nt')"
  shows "execute_single rd req pr nt = Some (Done pr' nt') \<and>
     (\<exists>r. cl_user (pr_client pr') = Some r \<and> Q r)"
proof -
  have "\<exists>r. cl_user (pr_client pr') = Some r \<and> Q r"
    by (rule execute.single_phase [OF assms(1) TrueI assms(4) refl assms(2,3) refl assms(5)])
  then show ?thesis by (auto simp: execute_single_def assms(5) and_then_def)
qed

text \<open>
  An allocation returns the address that was allocated. If every successful reply to the
  request's sequence number reports the block at \<open>addr\<close> and \<open>malloc_sdram\<close> ends without an exception,
  the base address of the process is \<open>addr\<close>; and a tag that is out of range ends it at once, before
  anything is sent.
\<close>
theorem malloc_sdram_correct:
  assumes "fresh pr" and "0 \<le> net_next_sequence nt" "net_next_sequence nt < 65536"
    and "\<And>i req. sdram_alloc x y app_id n_bytes tag True = Inr req \<Longrightarrow>
       list_all (reply_ok rd (req_response req)
         (single_right (\<lambda>r. r = RspAlloc addr) (net_next_sequence nt))) (net_events nt i)"
    and "malloc_sdram rd x y n_bytes app_id tag pr nt = Some (Done pr' nt')"
  shows "cl_user (pr_client pr') = addr \<and> (case tag of None \<Rightarrow> True | Some t \<Rightarrow> 0 \<le> t \<and> t < 256)"
proof -
  obtain req where req: "sdram_alloc x y app_id n_bytes tag True = Inr req"
    using assms(5) by (cases "sdram_alloc x y app_id n_bytes tag True") (auto simp: malloc_sdram_def)
  then have "collect_responses rd (proc_send_request rd req (Some malloc_handle_response) pr nt)
      = Some (Done pr' nt')"
    using assms(5) by (simp add: malloc_sdram_def)
  from malloc.single_phase [OF assms(1) TrueI assms(4) [OF req] refl assms(2,3) refl this]
  have "cl_user (pr_client pr') = addr" .
  moreover have "case tag of None \<Rightarrow> True | Some t \<Rightarrow> 0 \<le> t \<and> t < 256"
    using req by (auto simp: sdram_alloc_def split: if_splits option.splits)
  ultimately show ?thesis ..
qed

text \<open>The answer of a machine in which \<open>cores xy app_id state\<close> cores of chip \<open>xy\<close> run the application in the state.\<close>

definition count_answer :: "(xy \<Rightarrow> int \<Rightarrow> int \<Rightarrow> int) \<Rightarrow> bytes \<Rightarrow> response \<Rightarrow> bool" where
  "count_answer cores bs r \<longleftrightarrow>
     (dg_command bs = scp_command_value CMD_COUNT \<longrightarrow>
        r = RspCount (cores (dg_chip bs) (dg_argument 0 bs) (dg_argument 1 bs)))"

lemma count_answered:
  "wire s (count_state x y app_id state) bs \<Longrightarrow> count_answer cores bs r \<Longrightarrow>
     r = RspCount (cores (x, y) app_id (cpu_state_value state))"
  using wire_fields [of s "count_state x y app_id state" bs]
  by (simp add: count_answer_def count_state_def abstract_scp_request_def scamp_header_def or_zero_def)

lemma count_replies:
  assumes h: "all_answered rd CountStateResponse (count_answer cores) (sent pr pr') nt"
    and i: "idle pr" and sq: "0 \<le> net_next_sequence nt" "net_next_sequence nt < 65536" and n: "length xys \<le> 65536"
    and sent: "send_all rd (Some count_handle_response) (map (\<lambda>(x, y). Inr (count_state x y app_id state)) xys) pr nt
      = Some (Done pr1 nt1)"
    and coll: "collect_responses rd (Some (Done pr1 nt1)) = Some (Done pr' nt')"
  shows "list_all (reply_ok rd CountStateResponse (count_right (\<lambda>k. cores (xys ! k) app_id (cpu_state_value state))
    (length xys) (net_next_sequence nt))) (net_events nt i)"
proof -
  let ?cnt = "\<lambda>k. cores (xys ! k) app_id (cpu_state_value state)" and ?sq = "net_next_sequence nt"
  let ?xs = "map (\<lambda>r. (r, count_handle_response)) (map (\<lambda>(x, y). Inr (count_state x y app_id state)) xys :: scp_request res list)"
  have "send_each rd ?xs pr nt = Some (Done pr1 nt1)" using sent by (simp only: send_all_each)
  note answered = phase_answered [OF h this coll i refl sq, where right = "\<lambda>k r. r = RspCount (?cnt k)"]
  have right: "r = RspCount (?cnt k)"
    if "k < length ?xs" "fst (?xs ! k) = Inr req" "wire s req bs" "count_answer cores bs r" for k req bs s r
    using that count_answered by (cases "xys ! k") auto
  have all: "list_all (reply_ok rd CountStateResponse (\<lambda>s r. chunk_of ?sq s < length ?xs \<longrightarrow> r = RspCount (?cnt (chunk_of ?sq s))))
      (net_events nt i)"
    by (rule answered) (rule right)
  show ?thesis
    by (rule list.pred_mono_strong [OF all])
      (use n in \<open>auto simp: reply_ok_def count_right_def list_all_iff chunk_of_seq_of split: sum.splits\<close>)
qed

text \<open>
  C16: a count adds the answer of every chip that was asked about, exactly once. Let a fresh process whose sum is 0
  ask a list of up to 65536 chips, as long as a successful reply to a datagram that it has sent reports how many cores of
  the chip named in this datagram run the application and are in the state named in it. If \<open>get_n_cores_in_state\<close>
  returns, its result is the sum of these numbers over the chips of the list, for the application and the state of
  the call, even when requests were sent several times and answered several times.
\<close>
theorem get_n_cores_correct:
  assumes "fresh pr" and "cl_user (pr_client pr) = 0" and "length xys \<le> 65536"
    and "0 \<le> net_next_sequence nt" "net_next_sequence nt < 65536"
    and "get_n_cores_in_state rd xys app_id state pr nt = Some (Done pr' nt')"
    and "all_answered rd CountStateResponse (count_answer cores) (sent pr pr') nt"
  shows "cl_user (pr_client pr') = (\<Sum>xy\<leftarrow>xys. cores xy app_id (cpu_state_value state))"
proof -
  let ?n = "length xys" and ?sq = "net_next_sequence nt" and ?cnt = "\<lambda>k. cores (xys ! k) app_id (cpu_state_value state)"
  let ?reqs = "map (\<lambda>(x, y). Inr (count_state x y app_id state)) xys :: scp_request res list"
  obtain pr1 nt1 where sent: "send_all rd (Some count_handle_response) ?reqs pr nt = Some (Done pr1 nt1)"
    and coll: "collect_responses rd (Some (Done pr1 nt1)) = Some (Done pr' nt')"
    using assms(6)
    by (auto simp: get_n_cores_in_state_def count_loop_send_all and_then_def collect_responses_def
        split: option.splits presult.splits)
  have "seq_of ?sq i \<in> numbers ?sq 0 ?n" if "i < ?n" for i
    using that by (simp add: numbers_def)
  then have none: "(\<Sum>i | i < ?n \<and> seq_of ?sq i \<notin> numbers ?sq 0 ?n. ?cnt i) = 0" by (intro sum.neutral) blast
  have "count_inv ?cnt ?n ?sq (numbers ?sq 0 (length ?reqs)) (pr_client pr)"
    using assms(2,3) none by (simp add: count_inv_def) (simp add: numbers_def atLeast0LessThan)
  moreover have "list_all (count_client.honest rd ?cnt ?n ?sq CountStateResponse) (net_events nt i)" for i
    using count_replies [OF assms(7) fresh_idle [OF assms(1)] assms(4,5,3) sent coll, of i]
    by (simp add: list_all_iff count_client.honest_reply_ok)
  moreover have "req_response req = CountStateResponse" if "Inr req \<in> set ?reqs" for req
    using that by (auto simp: count_state_def abstract_scp_request_def)
  moreover have "length ?reqs \<le> 65536" using assms(3) by simp
  ultimately have "count_inv ?cnt ?n ?sq {} (pr_client pr') \<and> cl_errors (pr_client pr') = []"
    using count_client.phase_ok [OF assms(1) _ _ refl assms(4,5) _ refl _ sent coll] by blast
  then show ?thesis by (simp add: count_inv_def lessThan_def sum_list_sum_nth atLeast0LessThan)
qed

subsection \<open>Concrete runs\<close>

text \<open>
  One connection on which a timeout, a reply to a number that is not in use, a right reply and the
  same reply again arrive, for the requests numbered 0 and on.
\<close>

definition sample_reply :: "int \<Rightarrow> bytes \<Rightarrow> recv" where
  "sample_reply s payload =
     Datagram ([0, 0] @ sample_header_bytes @ [0x80, 0, word_of_int s, 0] @ payload)"

definition sample_events :: "bytes list \<Rightarrow> recv list" where
  "sample_events payloads =
     [RecvTimeout, sample_reply 200 [9, 9, 9, 9]] @
     concat (map (\<lambda>(i, p). [sample_reply (int i) p, sample_reply (int i) p]) (enumerate 0 payloads))"

definition replies :: "bytes list \<Rightarrow> net" where
  "replies payloads = \<lparr>net_events = (\<lambda>i. if i = 0 then sample_events payloads else []), net_next_sequence = 0\<rparr>"

definition fresh_process :: "'v \<Rightarrow> 'v process" where
  "fresh_process user = process_init [sample_connection] (FixedSelector 0) N_RETRIES 8 7 None user"

lemma fresh_fresh_process: "fresh (fresh_process user)"
  by (simp add: fresh_def fresh_process_def process_init_def)

lemma replies_honest:
  "list_all ok (sample_events payloads) \<Longrightarrow> list_all ok (net_events (replies payloads) i)"
  by (simp add: replies_def)

theorem execute_single_correct_witness:
  "\<exists>pr nt. execute_single (read_bytestring 6) (count_state 1 2 30 CPU_IDLE) (fresh_process None) (replies [[5, 0, 0, 0]])
       = Some (Done pr nt) \<and> cl_user (pr_client pr) = Some (RspCount 5)"
proof -
  let ?req = "count_state 1 2 30 CPU_IDLE"
  have "(case collect_responses (read_bytestring 6) (proc_send_request (read_bytestring 6) ?req
      (Some single_handle_response) (fresh_process None) (replies [[5, 0, 0, 0]])) of
      Some (Done pr nt) \<Rightarrow> True | _ \<Rightarrow> False)" by code_simp
  then obtain pr nt where r: "collect_responses (read_bytestring 6) (proc_send_request (read_bytestring 6) ?req
      (Some single_handle_response) (fresh_process None) (replies [[5, 0, 0, 0]])) = Some (Done pr nt)"
    by (auto split: option.splits presult.splits)
  have "list_all (reply_ok (read_bytestring 6) (req_response ?req) (single_right (\<lambda>r. r = RspCount 5) 0))
      (sample_events [[5, 0, 0, 0]])" by code_simp
  then have h: "list_all (reply_ok (read_bytestring 6) (req_response ?req)
      (single_right (\<lambda>r. r = RspCount 5) (net_next_sequence (replies [[5, 0, 0, 0]]))))
      (net_events (replies [[5, 0, 0, 0]]) i)" for i
    by (intro replies_honest) (simp add: replies_def)
  have z: "net_next_sequence (replies [[5, 0, 0, 0]]) = 0" by (simp add: replies_def)
  show ?thesis
    using execute_single_correct [OF fresh_fresh_process _ _ h r] z by auto
qed

theorem malloc_sdram_correct_witness:
  "\<exists>pr nt. malloc_sdram (read_bytestring 6) 1 2 64 30 (Some 3) (fresh_process 0) (replies [[0, 0, 0, 0x60]])
       = Some (Done pr nt) \<and> cl_user (pr_client pr) = 0x60000000"
proof -
  have "(case malloc_sdram (read_bytestring 6) 1 2 64 30 (Some 3) (fresh_process 0) (replies [[0, 0, 0, 0x60]]) of
      Some (Done pr nt) \<Rightarrow> True | _ \<Rightarrow> False)" by code_simp
  then obtain pr nt where r: "malloc_sdram (read_bytestring 6) 1 2 64 30 (Some 3) (fresh_process 0)
      (replies [[0, 0, 0, 0x60]]) = Some (Done pr nt)"
    by (auto split: option.splits presult.splits)
  have "(case sdram_alloc 1 2 30 64 (Some 3) True of Inl e \<Rightarrow> True | Inr req \<Rightarrow>
      list_all (reply_ok (read_bytestring 6) (req_response req) (single_right (\<lambda>r. r = RspAlloc 0x60000000) 0))
        (sample_events [[0, 0, 0, 0x60]]))" by code_simp
  then have h: "list_all (reply_ok (read_bytestring 6) (req_response req)
      (single_right (\<lambda>r. r = RspAlloc 0x60000000) (net_next_sequence (replies [[0, 0, 0, 0x60]]))))
      (net_events (replies [[0, 0, 0, 0x60]]) i)"
    if "sdram_alloc 1 2 30 64 (Some 3) True = Inr req" for i req
    using that by (intro replies_honest) (simp add: replies_def)
  have z: "net_next_sequence (replies [[0, 0, 0, 0x60]]) = 0" by (simp add: replies_def)
  show ?thesis
    using malloc_sdram_correct [OF fresh_fresh_process _ _ h r] r z by auto
qed

definition sample_counts :: "xy \<Rightarrow> int \<Rightarrow> int \<Rightarrow> int" where
  "sample_counts xy app_id state = (if xy = (1, 2) then 5 else if xy = (3, 4) then 7 else 0)"

theorem get_n_cores_correct_witness:
  "\<exists>pr nt. get_n_cores_in_state (read_bytestring 6) [(1, 2), (3, 4)] 30 CPU_IDLE (fresh_process 0)
       (replies [[5, 0, 0, 0], [7, 0, 0, 0]]) = Some (Done pr nt) \<and> cl_user (pr_client pr) = 12"
proof -
  let ?nt = "replies [[5, 0, 0, 0], [7, 0, 0, 0]]" and ?pr = "fresh_process 0" and ?rd = "read_bytestring 6"
  let ?run = "get_n_cores_in_state ?rd [(1, 2), (3, 4)] 30 CPU_IDLE ?pr ?nt"
  have "(case ?run of Some (Done pr nt) \<Rightarrow>
      all_answered_on [0] ?rd CountStateResponse (count_answer sample_counts) (sent ?pr pr) ?nt | _ \<Rightarrow> False)" by code_simp
  then obtain pr nt where r: "?run = Some (Done pr nt)"
    and on: "all_answered_on [0] ?rd CountStateResponse (count_answer sample_counts) (sent ?pr pr) ?nt"
    by (auto split: option.splits presult.splits)
  have h: "all_answered ?rd CountStateResponse (count_answer sample_counts) (sent ?pr pr) ?nt"
    by (rule all_answered_onI [OF on]) (simp add: replies_def)
  have z: "net_next_sequence ?nt = 0" and u: "cl_user (pr_client ?pr) = 0"
    by (simp_all add: replies_def fresh_process_def process_init_def)
  have "cl_user (pr_client pr) = (\<Sum>xy\<leftarrow>[(1, 2), (3, 4)]. sample_counts xy 30 (cpu_state_value CPU_IDLE))"
    by (rule get_n_cores_correct [OF fresh_fresh_process u _ _ _ r h]) (simp_all add: z)
  with r show ?thesis by (simp add: sample_counts_def)
qed

end
