(* ===== verification/WriteProps.thy ===== *)
theory WriteProps
  imports MemoryProps ProcessProps
begin

text \<open>
  Writing memory: the loop over a byte array sends exactly the packets of a plain specification, and
  a transfer from a reader only ends when the reader had all the bytes, with their checksum.
\<close>

subsection \<open>The packets of a transfer\<close>

definition write_packets :: "(int \<Rightarrow> bytes \<Rightarrow> scp_request res) \<Rightarrow> int \<Rightarrow> bytes \<Rightarrow> scp_request res list" where
  "write_packets packet base xs = map (\<lambda>i. packet (base + int (256 * i)) (chunk i xs)) [0..<n_chunks xs]"

lemma n_chunks_Nil [simp]: "n_chunks [] = 0"
  by (simp add: n_chunks_def)

lemma n_chunks_step: "xs \<noteq> [] \<Longrightarrow> n_chunks xs = Suc (n_chunks (drop 256 xs))"
proof -
  assume "xs \<noteq> []"
  then have "0 < length xs" by simp
  then have "(length xs + 255) div 256 = Suc ((length xs - 256 + 255) div 256)"
    by (cases "length xs \<le> 256") (simp_all add: div_if)
  then show ?thesis by (simp add: n_chunks_def)
qed

lemma chunk_step: "chunk (Suc i) xs = chunk i (drop 256 xs)"
  by (simp add: chunk_def add.commute)

lemma upt_chunks: "xs \<noteq> [] \<Longrightarrow> [0..<n_chunks xs] = 0 # map Suc [0..<n_chunks (drop 256 xs)]"
  by (simp add: n_chunks_step upt_conv_Cons map_Suc_upt del: upt_Suc)

lemma write_packets_step:
  "xs \<noteq> [] \<Longrightarrow> write_packets packet base xs
     = packet base (take 256 xs) # write_packets packet (base + 256) (drop 256 xs)"
  by (simp add: write_packets_def upt_chunks chunk_step comp_def algebra_simps)
    (simp add: chunk_def)

lemma write_packets_Nil [simp]: "write_packets packet base [] = []"
  by (simp add: write_packets_def)

lemma concat_chunks: "concat (map (\<lambda>i. chunk i xs) [0..<n_chunks xs]) = xs"
proof (induction "length xs" arbitrary: xs rule: less_induct)
  case less
  show ?case
  proof (cases "xs = []")
    case False
    have "concat (map (\<lambda>i. chunk i (drop 256 xs)) [0..<n_chunks (drop 256 xs)]) = drop 256 xs"
      by (rule less) (use False in simp)
    then show ?thesis using False by (simp add: upt_chunks chunk_step comp_def) (simp add: chunk_def)
  qed simp
qed

lemma chunk_sizes: "i < n_chunks xs \<Longrightarrow> 1 \<le> length (chunk i xs) \<and> length (chunk i xs) \<le> 256"
  by (auto simp: n_chunks_iff chunk_def)

lemma write_memory_loop_packets:
  fixes pr :: "'v process"
  assumes "data_offset + n \<le> length data"
  shows "write_memory_loop rd packet base data data_offset (int n) offset pr nt =
     send_all rd None (write_packets packet (base + int offset) (slice data_offset (data_offset + n) data)) pr nt"
  using assms
proof (induction n arbitrary: data_offset offset pr nt rule: less_induct)
  case (less n)
  show ?case
  proof (cases "n = 0")
    case True
    then show ?thesis by (simp add: write_memory_loop.simps)
  next
    case False
    let ?xs = "slice data_offset (data_offset + n) data" and ?m = "min n 256"
    have ne: "?xs \<noteq> []" using False less.prems by simp
    have m: "nat (min (int n) UDP_MESSAGE_MAX_SIZE) = ?m" "int n - min (int n) UDP_MESSAGE_MAX_SIZE = int (n - ?m)"
      by (simp_all add: UDP_MESSAGE_MAX_SIZE_def min_def)
    have fst: "slice data_offset (data_offset + ?m) data = take 256 ?xs" by (simp add: min.commute)
    have rest: "slice (data_offset + ?m) (data_offset + ?m + (n - ?m)) data = drop 256 ?xs"
      by (cases "n \<le> 256") (simp_all add: min_def drop_take add.commute)
    have pk: "write_packets packet (base + int (offset + ?m)) (drop 256 ?xs)
        = write_packets packet (base + int offset + 256) (drop 256 ?xs)"
      using less.prems by (cases "n \<le> 256") (simp_all add: min_def algebra_simps)
    have "write_memory_loop rd packet base data (data_offset + ?m) (int (n - ?m)) (offset + ?m) =
        (send_all rd None (write_packets packet (base + int offset + 256) (drop 256 ?xs))
          :: 'v process \<Rightarrow> net \<Rightarrow> _)"
      using less.IH [of "n - ?m" "data_offset + ?m" "offset + ?m"] False less.prems
      unfolding rest pk by (intro ext) auto
    then show ?thesis
      unfolding write_packets_step [OF ne]
      using False by (subst write_memory_loop.simps)
        (cases "packet (base + int offset) (take 256 ?xs)", simp_all only: Let_def m fst, simp_all)
  qed
qed

subsection \<open>Checksums\<close>

lemma word_sum_range: "word_sum xs = Inr s \<Longrightarrow> 0 \<le> s \<and> s < 2 ^ 32"
  by (induction xs arbitrary: s rule: word_sum.induct) auto

lemma add_mod_shift: "((v + c) mod m + b) mod m = (v + (c + b) mod m) mod (m :: int)"
  by (simp add: mod_simps add.assoc)

lemma word_sum_append:
  "word_sum xs = Inr a \<Longrightarrow> word_sum ys = Inr b \<Longrightarrow> word_sum (xs @ ys) = Inr ((a + b) mod 2 ^ 32)"
proof (induction xs arbitrary: a rule: word_sum.induct)
  case 1
  then show ?case using word_sum_range [OF 1(2)] by (simp add: mod_pos_pos_trivial)
next
  case (2 p q r s rest)
  then obtain c where c: "word_sum rest = Inr c" "a = (le_val [p, q, r, s] + c) mod 2 ^ 32" by auto
  from 2(1) [OF c(1) 2(3)] show ?case unfolding c(2) add_mod_shift by (simp del: le_val.simps)
qed auto

lemma and_word: "x AND 0xFFFFFFFF = x mod (2 ^ 32 :: int)"
  by (simp add: bit_field take_bit_eq_mod)

subsection \<open>Writing from a reader\<close>

definition sum_of :: "bool \<Rightarrow> bytes \<Rightarrow> int \<Rightarrow> int \<Rightarrow> bool" where
  "sum_of with_sum xs c0 c \<longleftrightarrow>
     (if with_sum then \<exists>s. word_sum xs = Inr s \<and> c = (c0 + s) mod 2 ^ 32 else c = c0)"

lemma sum_of_step:
  assumes "(if with_sum then bind_res (word_sum xs) (\<lambda>s. Inr ((c0 + s) AND 0xFFFFFFFF)) else Inr c0) = Inr c1"
    and "sum_of with_sum ys c1 c2"
  shows "sum_of with_sum (xs @ ys) c0 c2"
proof (cases with_sum)
  case True
  with assms obtain a b where a: "word_sum xs = Inr a" "c1 = (c0 + a) mod 2 ^ 32"
    and b: "word_sum ys = Inr b" "c2 = (c1 + b) mod 2 ^ 32"
    by (auto simp: sum_of_def and_word)
  have "c2 = (c0 + (a + b) mod 2 ^ 32) mod 2 ^ 32"
    unfolding a(2) b(2) by (simp add: mod_add_left_eq mod_add_right_eq add.assoc)
  with True word_sum_append [OF a(1) b(1)] show ?thesis by (auto simp: sum_of_def)
qed (use assms in \<open>auto simp: sum_of_def\<close>)

lemma write_from_reader_loop_done:
  assumes "write_from_reader_loop rd packet base unread n with_sum offset c0 pr nt = Some (Done pr' nt', c)"
    and "0 \<le> c0" "c0 < 2 ^ 32"
  shows "n \<le> int (length unread) \<and> sum_of with_sum (take (nat n) unread) c0 c"
proof -
  have "\<forall>pr' nt' c. y = (Done pr' nt', c) \<longrightarrow> 0 \<le> c0 \<longrightarrow> c0 < 2 ^ 32 \<longrightarrow>
      n \<le> int (length unread) \<and> sum_of with_sum (take (nat n) unread) c0 c"
    if "write_from_reader_loop rd packet base unread n with_sum offset c0 pr nt = Some y" for y
  proof (rule write_from_reader_loop.raw_induct [of "\<lambda>rd packet base unread n with_sum offset c0 pr nt y.
      \<forall>pr' nt' c. y = (Done pr' nt', c) \<longrightarrow> 0 \<le> c0 \<longrightarrow> c0 < 2 ^ 32 \<longrightarrow>
      n \<le> int (length unread) \<and> sum_of with_sum (take (nat n) unread) c0 c", OF _ that], intro allI impI)
    fix f rd packet base unread n with_sum offset c0 pr nt y pr' nt' c
    assume IH: "\<And>rd packet base unread n with_sum offset c0 pr nt y.
        f rd packet base unread n with_sum offset c0 pr nt = Some y \<Longrightarrow>
        \<forall>pr' nt' c. y = (Done pr' nt', c) \<longrightarrow> 0 \<le> c0 \<longrightarrow> c0 < 2 ^ 32 \<longrightarrow>
          n \<le> int (length unread) \<and> sum_of with_sum (take (nat n) unread) c0 c"
      and step: "(if n \<le> 0 then Some (Done pr nt, c0)
        else let data_array = take (nat (min n UDP_MESSAGE_MAX_SIZE)) unread;
                 bytes_to_send = length data_array
             in case packet (base + int offset) data_array of
                Inl e \<Rightarrow> Some (Fails e pr nt, c0)
              | Inr req \<Rightarrow>
                  (case proc_send_request rd req None pr nt of
                     None \<Rightarrow> None
                   | Some (Fails e pr' nt') \<Rightarrow> Some (Fails e pr' nt', c0)
                   | Some (Blocks pr') \<Rightarrow> Some (Blocks pr', c0)
                   | Some (Done pr' nt') \<Rightarrow>
                       (case (if with_sum
                              then bind_res (word_sum data_array)
                                     (\<lambda>s. Inr ((c0 + s) AND 0xFFFFFFFF))
                              else Inr c0) of
                          Inl e \<Rightarrow> Some (Fails e pr' nt', c0)
                        | Inr c1 \<Rightarrow>
                            f rd packet base (drop bytes_to_send unread) (n - int bytes_to_send) with_sum
                              (offset + bytes_to_send) c1 pr' nt'))) = Some y"
      and y: "y = (Done pr' nt', c)" and c0: "0 \<le> c0" "c0 < 2 ^ 32"
    show "n \<le> int (length unread) \<and> sum_of with_sum (take (nat n) unread) c0 c"
    proof (cases "n \<le> 0")
      case True
      then show ?thesis using step y c0 by (auto simp: sum_of_def)
    next
      case False
      let ?d = "take (nat (min n UDP_MESSAGE_MAX_SIZE)) unread"
      obtain req pr1 nt1 c1 where
        c1: "(if with_sum then bind_res (word_sum ?d) (\<lambda>s. Inr ((c0 + s) AND 0xFFFFFFFF)) else Inr c0) = Inr c1"
        and rest: "f rd packet base (drop (length ?d) unread) (n - int (length ?d)) with_sum
            (offset + length ?d) c1 pr1 nt1 = Some (Done pr' nt', c)"
        using step y False
        by (cases "packet (base + int offset) ?d";
            cases "if with_sum then bind_res (word_sum ?d) (\<lambda>s. Inr ((c0 + s) AND 0xFFFFFFFF)) else Inr c0")
          (auto simp: Let_def split: option.splits presult.splits)
      have "0 \<le> c1 \<and> c1 < 2 ^ 32" using c1 c0 by (cases with_sum) (auto simp: and_word)
      with IH [OF rest] have r: "n - int (length ?d) \<le> int (length (drop (length ?d) unread))"
        "sum_of with_sum (take (nat (n - int (length ?d))) (drop (length ?d) unread)) c1 c" by auto
      have l: "length ?d \<le> length unread" "int (length ?d) \<le> n" using False by auto
      then have "n \<le> int (length unread)" using r(1) by auto
      moreover have "take (nat n) unread = ?d @ take (nat (n - int (length ?d))) (drop (length ?d) unread)"
      proof -
        have "nat n = length ?d + nat (n - int (length ?d))" using l(2) by linarith
        moreover have "?d = take (length ?d) unread"
          by (cases "nat (min n UDP_MESSAGE_MAX_SIZE) \<le> length unread") (simp_all add: min_absorb2)
        ultimately show ?thesis by (metis take_add)
      qed
      ultimately show ?thesis using sum_of_step [OF c1 r(2)] by simp
    qed
  qed
  with assms show ?thesis by blast
qed

subsection \<open>Properties\<close>

text \<open>
  C21: writing a byte array sends its packets. When the slice to write lies inside the data, the loop is
  the plain program that builds packet \<open>i\<close> for address \<open>base + 256 i\<close> with the \<open>i\<close>-th run of 256 bytes
  and sends them in order, stopping at the first that cannot be built or sent; the runs are
  non-empty, at most 256 bytes long, and put together they are exactly the slice.
\<close>
theorem write_memory_refines:
  assumes "data_offset + n \<le> length data"
  shows "write_memory_loop rd packet base data data_offset (int n) 0 pr nt =
       send_all rd None (map (\<lambda>i. packet (base + int (256 * i))
         (chunk i (slice data_offset (data_offset + n) data)))
         [0..<n_chunks (slice data_offset (data_offset + n) data)]) pr nt \<and>
     concat (map (\<lambda>i. chunk i (slice data_offset (data_offset + n) data))
       [0..<n_chunks (slice data_offset (data_offset + n) data)])
       = slice data_offset (data_offset + n) data \<and>
     (\<forall>i < n_chunks (slice data_offset (data_offset + n) data).
        1 \<le> length (chunk i (slice data_offset (data_offset + n) data)) \<and>
        length (chunk i (slice data_offset (data_offset + n) data)) \<le> 256)"
  using write_memory_loop_packets [OF assms, of rd packet base 0 pr nt] concat_chunks chunk_sizes
  by (simp add: write_packets_def)

theorem write_memory_refines_witness:
  "\<exists>pr nt. write_memory_loop (read_bytestring 6) (write_memory (1, 2, 0)) 0x60000000 (replicate 300 7) 4 257 0
       (fresh_process ()) (replies []) = Some (Done pr nt) \<and> net_next_sequence nt = 2"
proof -
  have s: "slice 4 (4 + 257) (replicate 300 7) = (replicate 257 7 :: bytes)" by simp
  have w: "write_memory_loop (read_bytestring 6) (write_memory (1, 2, 0)) 0x60000000 (replicate 300 7) 4 (int 257) 0
       (fresh_process ()) (replies []) =
     send_all (read_bytestring 6) None (map (\<lambda>i. write_memory (1, 2, 0) (0x60000000 + int (256 * i))
         (chunk i (replicate 257 7))) [0..<n_chunks (replicate 257 7 :: bytes)]) (fresh_process ()) (replies [])"
    using write_memory_refines [where data_offset = 4 and n = 257 and data = "replicate 300 7"
        and rd = "read_bytestring 6" and packet = "write_memory (1, 2, 0)" and base = "0x60000000"
        and pr = "fresh_process ()" and nt = "replies []"] unfolding s by (simp del: upt_Suc)
  have "(case send_all (read_bytestring 6) None (map (\<lambda>i. write_memory (1, 2, 0) (0x60000000 + int (256 * i))
         (chunk i (replicate 257 7))) [0..<n_chunks (replicate 257 7 :: bytes)]) (fresh_process ()) (replies []) of
      Some (Done pr nt) \<Rightarrow> net_next_sequence nt = 2 | _ \<Rightarrow> False)" by code_simp
  then show ?thesis using w by (auto split: option.splits presult.splits)
qed

text \<open>
  C22: a transfer from a reader returns only when every byte was there. If \<open>write_memory_from_reader\<close>
  returns, the reader held at least the \<open>n\<close> bytes, and the checksum returned is the 32-bit sum of the
  words of exactly those bytes when it was asked for (which needs whole words) and 0 otherwise. So
  from a reader that runs out early it never returns: it sends empty packets for ever or fails.
\<close>
theorem write_from_reader_complete:
  assumes "write_memory_from_reader rd packet base unread n with_sum pr nt = Some (Done pr' nt', c)"
  shows "n \<le> int (length unread) \<and>
     (if with_sum then word_sum (take (nat n) unread) = Inr c else c = 0)"
proof -
  obtain pr1 nt1 where l: "write_from_reader_loop rd packet base unread n with_sum 0 0 pr nt
      = Some (Done pr1 nt1, c)"
    using assms collect_responses_started
    by (fastforce simp: write_memory_from_reader_def split: option.splits prod.splits)
  from write_from_reader_loop_done [OF l] have "n \<le> int (length unread)"
    and "sum_of with_sum (take (nat n) unread) 0 c" by simp_all
  then show ?thesis using word_sum_range by (auto simp: sum_of_def mod_pos_pos_trivial)
qed

lemma done_with:
  "(case r of Some (Done pr nt, c) \<Rightarrow> c = k | _ \<Rightarrow> False) \<Longrightarrow> \<exists>pr nt. r = Some (Done pr nt, k)"
proof (cases r)
  case (Some x)
  then show "(case r of Some (Done pr nt, c) \<Rightarrow> c = k | _ \<Rightarrow> False) \<Longrightarrow> ?thesis"
    by (cases x, cases "fst x") auto
qed simp

theorem write_from_reader_complete_witness:
  "\<exists>pr nt. write_memory_from_reader (read_bytestring 6) (write_memory (1, 2, 0)) 0x60000000
       [1, 0, 0, 0, 2, 0, 0, 0, 9] 8 True (fresh_process ()) (replies [[]]) = Some (Done pr nt, 3) \<and>
     word_sum [1, 0, 0, 0, 2, 0, 0, 0] = Inr 3"
proof -
  have "(case write_memory_from_reader (read_bytestring 6) (write_memory (1, 2, 0)) 0x60000000
       [1, 0, 0, 0, 2, 0, 0, 0, 9] 8 True (fresh_process ()) (replies [[]]) of
      Some (Done pr nt, c) \<Rightarrow> c = 3 | _ \<Rightarrow> False)" by code_simp
  from done_with [OF this] obtain pr nt where r: "write_memory_from_reader (read_bytestring 6) (write_memory (1, 2, 0)) 0x60000000
       [1, 0, 0, 0, 2, 0, 0, 0, 9] 8 True (fresh_process ()) (replies [[]]) = Some (Done pr nt, 3)"
    by blast
  from write_from_reader_complete [OF r] r show ?thesis by simp
qed

end
