(* ===== verification/EieioData.thy ===== *)
theory EieioData
  imports Enums
begin

text \<open>
  EIEIO data packets (\<open>messages/eieio/data_messages\<close>, \<open>eieio_type.py\<close>, \<open>create_eieio_data.py\<close>): a header
  with an optional key prefix and payload base, followed by up to 255 keys or keys with payloads.
  A message is either being written (no data) or being read (data and a position).
\<close>

subsection \<open>\<open>EIEIOType\<close>\<close>

datatype eieio_type = KEY_16_BIT | KEY_PAYLOAD_16_BIT | KEY_32_BIT | KEY_PAYLOAD_32_BIT

fun eieio_type_value :: "eieio_type \<Rightarrow> int" where
  "eieio_type_value KEY_16_BIT = 0"
| "eieio_type_value KEY_PAYLOAD_16_BIT = 1"
| "eieio_type_value KEY_32_BIT = 2"
| "eieio_type_value KEY_PAYLOAD_32_BIT = 3"

definition eieio_type_members :: "eieio_type list" where
  "eieio_type_members = [KEY_16_BIT, KEY_PAYLOAD_16_BIT, KEY_32_BIT, KEY_PAYLOAD_32_BIT]"

interpretation eieio_type: py_enum eieio_type_members eieio_type_value
proof
  fix x show "x \<in> set eieio_type_members" by (cases x) (simp_all add: eieio_type_members_def)
qed (simp add: eieio_type_members_def)

fun key_bytes :: "eieio_type \<Rightarrow> int" where
  "key_bytes KEY_16_BIT = 2"
| "key_bytes KEY_PAYLOAD_16_BIT = 2"
| "key_bytes KEY_32_BIT = 4"
| "key_bytes KEY_PAYLOAD_32_BIT = 4"

fun payload_bytes :: "eieio_type \<Rightarrow> int" where
  "payload_bytes KEY_16_BIT = 0"
| "payload_bytes KEY_PAYLOAD_16_BIT = 2"
| "payload_bytes KEY_32_BIT = 0"
| "payload_bytes KEY_PAYLOAD_32_BIT = 4"

definition max_value :: "eieio_type \<Rightarrow> int" where
  "max_value ty = push_bit (nat (key_bytes ty * 8)) 1 - 1"

subsection \<open>Header\<close>

record eieio_data_header =
  edh_eieio_type :: eieio_type
  edh_tag :: int
  edh_prefix :: "int option"
  edh_prefix_type :: eieio_prefix
  edh_payload_base :: "int option"
  edh_is_time :: bool
  edh_count :: int

text \<open>The operations that change the count.\<close>

definition increment_count :: "eieio_data_header \<Rightarrow> eieio_data_header" where
  [simp]: "increment_count h = h\<lparr>edh_count := edh_count h + 1\<rparr>"

definition reset_count :: "eieio_data_header \<Rightarrow> eieio_data_header" where
  "reset_count h = h\<lparr>edh_count := 0\<rparr>"

definition get_header_size :: "eieio_type \<Rightarrow> bool \<Rightarrow> bool \<Rightarrow> int" where
  "get_header_size ty is_prefix is_payload_base =
     (let size0 = 2;
          size1 = (if is_prefix then size0 + 2 else size0)
      in if is_payload_base then size1 + key_bytes ty else size1)"

definition header_size :: "eieio_data_header \<Rightarrow> int" where
  "header_size h =
     get_header_size (edh_eieio_type h) (edh_prefix h \<noteq> None) (edh_payload_base h \<noteq> None)"

text \<open>The flags byte, assembled in the order of the method.\<close>

definition eieio_flags :: "eieio_data_header \<Rightarrow> int" where
  "eieio_flags h =
     (let data0 = (if edh_prefix h \<noteq> None
                   then push_bit 7 1 OR push_bit 6 (eieio_prefix_value (edh_prefix_type h)) else 0);
          data1 = (if edh_payload_base h \<noteq> None then data0 OR push_bit 5 1 else data0);
          data2 = (if edh_is_time h then data1 OR push_bit 4 1 else data1)
      in (data2 OR push_bit 2 (eieio_type_value (edh_eieio_type h))) OR edh_tag h)"

definition eieio_data_header_bytestring :: "eieio_data_header \<Rightarrow> bytes res" where
  "eieio_data_header_bytestring h =
     (let data = eieio_flags h; count = edh_count h
      in case edh_payload_base h of
           None \<Rightarrow>
             (case edh_prefix h of
                Some prefix \<Rightarrow> struct_pack Little [FB, FB, FH] [count, data, prefix]
              | None \<Rightarrow> struct_pack Little [FB, FB] [count, data])
         | Some payload_base \<Rightarrow>
             (if edh_eieio_type h = KEY_PAYLOAD_16_BIT \<or> edh_eieio_type h = KEY_16_BIT
              then (case edh_prefix h of
                      Some prefix \<Rightarrow>
                        struct_pack Little [FB, FB, FH, FH] [count, data, prefix, payload_base]
                    | None \<Rightarrow> struct_pack Little [FB, FB, FH] [count, data, payload_base])
              else (case edh_prefix h of
                      Some prefix \<Rightarrow>
                        struct_pack Little [FB, FB, FH, FI] [count, data, prefix, payload_base]
                    | None \<Rightarrow> struct_pack Little [FB, FB, FI] [count, data, payload_base])))"

text \<open>The optional part of the header: the prefix and the payload base that follow the two bytes.\<close>

definition read_bases ::
  "eieio_type \<Rightarrow> int \<Rightarrow> int \<Rightarrow> bytes \<Rightarrow> nat \<Rightarrow> (int option \<times> int option) res" where
  "read_bases ty prefix_flag payload_prefix_flag data offset =
     (let half = ty = KEY_16_BIT \<or> ty = KEY_PAYLOAD_16_BIT
      in if payload_prefix_flag = 1 then
           (if prefix_flag = 1 then
              bind_res (struct_unpack_from Little (if half then [FH, FH] else [FH, FI]) data (offset + 2))
                (\<lambda>vs. case vs of [prefix, payload_prefix] \<Rightarrow> Inr (Some prefix, Some payload_prefix)
                       | _ \<Rightarrow> Inl PyValueError)
            else
              bind_res (struct_unpack_from Little (if half then [FH] else [FI]) data (offset + 2))
                (\<lambda>vs. case vs of [payload_prefix] \<Rightarrow> Inr (None, Some payload_prefix)
                       | _ \<Rightarrow> Inl PyValueError))
         else if prefix_flag = 1 then
           bind_res (struct_unpack_from Little [FH] data (offset + 2))
             (\<lambda>vs. case vs of [prefix] \<Rightarrow> Inr (Some prefix, None) | _ \<Rightarrow> Inl PyValueError)
         else Inr (None, None))"

definition eieio_data_header_from_bytestring :: "bytes \<Rightarrow> nat \<Rightarrow> eieio_data_header res" where
  "eieio_data_header_from_bytestring data offset =
     bind_res (struct_unpack_from Little [FB, FB] data offset) (\<lambda>vs. case vs of
       [count, header_data] \<Rightarrow>
         let prefix_flag = drop_bit 7 header_data AND 1;
             format_flag = drop_bit 6 header_data AND 1;
             payload_prefix_flag = drop_bit 5 header_data AND 1;
             payload_is_timestamp = drop_bit 4 header_data AND 1;
             message_type = drop_bit 2 header_data AND 3;
             tag = header_data AND 3
         in if prefix_flag = 0 \<and> format_flag = 1 then Inl (InvalidPacket ''EIEIODataHeader'')
            else
              bind_res (enum_of eieio_type_members eieio_type_value message_type) (\<lambda>eieio_type.
              bind_res (enum_of eieio_prefix_members eieio_prefix_value format_flag) (\<lambda>prefix_type.
              bind_res (read_bases eieio_type prefix_flag payload_prefix_flag data offset) (\<lambda>(prefix, base).
                Inr \<lparr>edh_eieio_type = eieio_type, edh_tag = tag, edh_prefix = prefix,
                     edh_prefix_type = prefix_type, edh_payload_base = base,
                     edh_is_time = (payload_is_timestamp \<noteq> 0), edh_count = count\<rparr>)))
     | _ \<Rightarrow> Inl PyValueError)"

subsection \<open>Elements\<close>

datatype data_element =
    KeyDataElement int
  | KeyPayloadDataElement int int bool

fun get_element_bytestring :: "data_element \<Rightarrow> eieio_type \<Rightarrow> bytes res" where
  "get_element_bytestring (KeyDataElement key) ty =
     (if payload_bytes ty \<noteq> 0 then Inl (InvalidParameter ''eieio_type'')
      else if ty = KEY_16_BIT then struct_pack Little [FH] [key]
      else if ty = KEY_32_BIT then struct_pack Little [FI] [key]
      else Inl (InvalidParameter ''eieio_type''))"
| "get_element_bytestring (KeyPayloadDataElement key payload is_time) ty =
     (if payload_bytes ty = 0 then Inl (InvalidParameter ''eieio_type'')
      else if ty = KEY_PAYLOAD_16_BIT then struct_pack Little [FH, FH] [key, payload]
      else if ty = KEY_PAYLOAD_32_BIT then struct_pack Little [FI, FI] [key, payload]
      else Inl (InvalidParameter ''eieio_type''))"

subsection \<open>Message\<close>

record eieio_data_message =
  edm_header :: eieio_data_header
  edm_elements :: bytes
  edm_data :: "bytes option"
  edm_offset :: nat
  edm_elements_read :: int

definition eieio_data_message_init :: "eieio_data_header \<Rightarrow> bytes option \<Rightarrow> nat \<Rightarrow> eieio_data_message" where
  "eieio_data_message_init h data offset =
     \<lparr>edm_header = h, edm_elements = [], edm_data = data, edm_offset = offset, edm_elements_read = 0\<rparr>"

definition eieio_create ::
  "eieio_type \<Rightarrow> int \<Rightarrow> bytes option \<Rightarrow> nat \<Rightarrow> int option \<Rightarrow> int option \<Rightarrow> int option \<Rightarrow> eieio_prefix \<Rightarrow>
     eieio_data_message" where
  "eieio_create ty count data offset key_prefix payload_prefix timestamp prefix_type =
     (let payload_base = (if timestamp \<noteq> None then timestamp else payload_prefix)
      in eieio_data_message_init
           \<lparr>edh_eieio_type = ty, edh_tag = 0, edh_prefix = key_prefix, edh_prefix_type = prefix_type,
            edh_payload_base = payload_base, edh_is_time = (timestamp \<noteq> None), edh_count = count\<rparr>
           data offset)"

definition min_packet_length :: "eieio_type \<Rightarrow> bool \<Rightarrow> bool \<Rightarrow> bool \<Rightarrow> int" where
  "min_packet_length ty is_prefix is_payload_base is_timestamp =
     get_header_size ty is_prefix (is_payload_base \<or> is_timestamp) + payload_bytes ty"

definition get_min_packet_length :: "eieio_data_message \<Rightarrow> int" where
  "get_min_packet_length m =
     min_packet_length (edh_eieio_type (edm_header m)) (edh_prefix (edm_header m) \<noteq> None)
       (edh_payload_base (edm_header m) \<noteq> None) False"

definition max_n_elements :: "eieio_data_message \<Rightarrow> int" where
  "max_n_elements m =
     (let ty = edh_eieio_type (edm_header m)
      in (UDP_MESSAGE_MAX_SIZE - header_size (edm_header m)) div (key_bytes ty + payload_bytes ty))"

definition n_elements :: "eieio_data_message \<Rightarrow> int" where
  "n_elements m = edh_count (edm_header m)"

definition message_size :: "eieio_data_message \<Rightarrow> int" where
  "message_size m =
     (let ty = edh_eieio_type (edm_header m)
      in header_size (edm_header m) + (key_bytes ty + payload_bytes ty) * edh_count (edm_header m))"

text \<open>Writing: an element is serialised first, so an error leaves the message as it was.\<close>

definition add_element :: "data_element \<Rightarrow> eieio_data_message \<Rightarrow> eieio_data_message res" where
  "add_element el m =
     (if edm_data m \<noteq> None then Inl (InvalidPacket ''EIEIODataMessage'')
      else bind_res (get_element_bytestring el (edh_eieio_type (edm_header m))) (\<lambda>bs.
             Inr (m\<lparr>edm_elements := edm_elements m @ bs,
                    edm_header := increment_count (edm_header m)\<rparr>)))"

definition add_key_and_payload :: "int \<Rightarrow> int \<Rightarrow> eieio_data_message \<Rightarrow> eieio_data_message res" where
  "add_key_and_payload key payload m =
     (if key > max_value (edh_eieio_type (edm_header m)) then Inl (InvalidParameter ''key'')
      else if payload > max_value (edh_eieio_type (edm_header m)) then Inl (InvalidParameter ''payload'')
      else add_element (KeyPayloadDataElement key payload (edh_is_time (edm_header m))) m)"

definition add_key :: "int \<Rightarrow> eieio_data_message \<Rightarrow> eieio_data_message res" where
  "add_key key m =
     (if key > max_value (edh_eieio_type (edm_header m)) then Inl (InvalidParameter ''key'')
      else add_element (KeyDataElement key) m)"

text \<open>Reading: \<open>next_element\<close> counts the element before it unpacks it.\<close>

definition is_next_element :: "eieio_data_message \<Rightarrow> bool" where
  "is_next_element m \<longleftrightarrow> edm_data m \<noteq> None \<and> edm_elements_read m < edh_count (edm_header m)"

text \<open>The key and payload at the position, and how far the position moves.\<close>

definition unpack_element :: "eieio_type \<Rightarrow> bytes \<Rightarrow> nat \<Rightarrow> (int \<times> int option \<times> nat) res" where
  "unpack_element ty data offset =
     (case ty of
        KEY_16_BIT \<Rightarrow>
          bind_res (struct_unpack_from Little [FH] data offset)
            (\<lambda>vs. case vs of [key] \<Rightarrow> Inr (key, None, 2) | _ \<Rightarrow> Inl PyValueError)
      | KEY_32_BIT \<Rightarrow>
          bind_res (struct_unpack_from Little [FI] data offset)
            (\<lambda>vs. case vs of [key] \<Rightarrow> Inr (key, None, 4) | _ \<Rightarrow> Inl PyValueError)
      | KEY_PAYLOAD_16_BIT \<Rightarrow>
          bind_res (struct_unpack_from Little [FH, FH] data offset)
            (\<lambda>vs. case vs of [key, payload] \<Rightarrow> Inr (key, Some payload, 4) | _ \<Rightarrow> Inl PyValueError)
      | KEY_PAYLOAD_32_BIT \<Rightarrow>
          bind_res (struct_unpack_from Little [FI, FI] data offset)
            (\<lambda>vs. case vs of [key, payload] \<Rightarrow> Inr (key, Some payload, 8) | _ \<Rightarrow> Inl PyValueError))"

text \<open>The prefix and the payload base are ORed into what was read.\<close>

definition apply_bases :: "eieio_data_header \<Rightarrow> int \<Rightarrow> int option \<Rightarrow> data_element" where
  "apply_bases h key0 payload0 =
     (let key = (case edh_prefix h of
                   None \<Rightarrow> key0
                 | Some prefix \<Rightarrow>
                     if edh_prefix_type h = UPPER_HALF_WORD then key0 OR push_bit 16 prefix
                     else key0 OR prefix);
          payload = (case edh_payload_base h of
                       None \<Rightarrow> payload0
                     | Some base \<Rightarrow>
                         (case payload0 of Some p \<Rightarrow> Some (p OR base) | None \<Rightarrow> Some base))
      in case payload of
           None \<Rightarrow> KeyDataElement key
         | Some p \<Rightarrow> KeyPayloadDataElement key p (edh_is_time h))"

definition next_element :: "eieio_data_message \<Rightarrow> eieio_data_message \<times> data_element option res" where
  "next_element m =
     (if \<not> is_next_element m then (m, Inr None)
      else
        let m1 = m\<lparr>edm_elements_read := edm_elements_read m + 1\<rparr>;
            data = (case edm_data m of Some d \<Rightarrow> d | None \<Rightarrow> [])
        in case unpack_element (edh_eieio_type (edm_header m)) data (edm_offset m) of
             Inl e \<Rightarrow> (m1, Inl e)
           | Inr (key, payload, n) \<Rightarrow>
               (m1\<lparr>edm_offset := edm_offset m + n\<rparr>, Inr (Some (apply_bases (edm_header m) key payload))))"

definition eieio_data_message_bytestring :: "eieio_data_message \<Rightarrow> bytes res" where
  "eieio_data_message_bytestring m =
     bind_res (eieio_data_header_bytestring (edm_header m)) (\<lambda>h. Inr (h @ edm_elements m))"

definition read_eieio_data_message :: "bytes \<Rightarrow> nat \<Rightarrow> eieio_data_message res" where
  "read_eieio_data_message data offset =
     bind_res (eieio_data_header_from_bytestring data offset) (\<lambda>h.
       Inr (eieio_data_message_init h (Some data) (offset + nat (header_size h))))"

end
