(* ===== verification/EieioCommand.thy ===== *)
theory EieioCommand
  imports EieioData
begin

text \<open>
  EIEIO commands (\<open>messages/eieio/command_messages\<close>, \<open>create_eieio_command.py\<close>): a two-byte header with
  the command number and, for some commands, a body. Positions given to the body parsers are those
  after the header, as in \<open>read_eieio_command_message\<close>.
\<close>

subsection \<open>Header\<close>

definition command_header_init :: "int \<Rightarrow> int res" where
  "command_header_init command =
     (if command < 0 \<or> command \<ge> 16384 then Inl (InvalidParameter ''command'') else Inr command)"

definition command_header_bytestring :: "int \<Rightarrow> bytes res" where
  "command_header_bytestring command =
     struct_pack Little [FH] [(push_bit 15 0 OR push_bit 14 1) OR command]"

definition command_header_from_bytestring :: "bytes \<Rightarrow> nat \<Rightarrow> int res" where
  "command_header_from_bytestring data offset =
     bind_res (struct_unpack_from Little [FH] data offset) (\<lambda>vs. case vs of
       [command_header] \<Rightarrow> command_header_init (command_header AND 0x3FFF)
     | _ \<Rightarrow> Inl PyValueError)"

subsection \<open>\<open>SpinnakerRequestBuffers\<close>\<close>

record request_buffers =
  rb_x :: int
  rb_y :: int
  rb_p :: int
  rb_region_id :: int
  rb_sequence_no :: int
  rb_space_available :: int

definition request_buffers_body :: "request_buffers \<Rightarrow> bytes res" where
  "request_buffers_body r =
     struct_pack Little [FB, FB, FB, Fx, FB, FB, FI]
       [rb_y r, rb_x r, push_bit 3 (rb_p r), rb_region_id r, rb_sequence_no r, rb_space_available r]"

definition request_buffers_from_bytestring :: "bytes \<Rightarrow> nat \<Rightarrow> request_buffers res" where
  "request_buffers_from_bytestring data offset =
     bind_res (struct_unpack_from Little [FB, FB, FB, Fx, FB, FB, FI] data offset) (\<lambda>vs. case vs of
       [y, x, processor, region_id, sequence_no, space] \<Rightarrow>
         Inr \<lparr>rb_x = x, rb_y = y, rb_p = drop_bit 3 processor AND 0x1F,
              rb_region_id = region_id AND 0xF, rb_sequence_no = sequence_no,
              rb_space_available = space\<rparr>
     | _ \<Rightarrow> Inl PyValueError)"

subsection \<open>Lists of requests and acknowledgements\<close>

text \<open>\<open>channel(i)\<close>, \<open>region_id(i)\<close> and the like.\<close>

definition list_item :: "int list \<Rightarrow> nat \<Rightarrow> int res" where
  "list_item xs i = (if length xs > i then Inr (xs ! i) else Inl (InvalidParameterType ''request_id''))"

text \<open>The loop \<open>for i in range(n): byte_string += part(i)\<close>, started at \<open>i\<close>.\<close>

fun append_parts :: "(nat \<Rightarrow> bytes res) \<Rightarrow> nat \<Rightarrow> nat \<Rightarrow> bytes res" where
  "append_parts part i 0 = Inr []"
| "append_parts part i (Suc n) =
     bind_res (part i) (\<lambda>a. bind_res (append_parts part (Suc i) n) (\<lambda>b. Inr (a @ b)))"

subsection \<open>\<open>HostDataRead\<close>\<close>

record host_data_read =
  hd_n_requests :: int
  hd_sequence_no :: int
  hd_channel :: "int list"
  hd_region_id :: "int list"
  hd_space_read :: "int list"

definition host_data_read_init ::
  "int \<Rightarrow> int \<Rightarrow> int list \<Rightarrow> int list \<Rightarrow> int list \<Rightarrow> host_data_read res" where
  "host_data_read_init n_requests sequence_no channel region_id space_read =
     (if int (length channel) \<noteq> n_requests \<or> int (length region_id) \<noteq> n_requests \<or>
         int (length space_read) \<noteq> n_requests
      then Inl (InvalidPacket ''SpinnakerRequestReadData'')
      else Inr \<lparr>hd_n_requests = n_requests, hd_sequence_no = sequence_no, hd_channel = channel,
                hd_region_id = region_id, hd_space_read = space_read\<rparr>)"

definition host_ack_bytes :: "host_data_read \<Rightarrow> nat \<Rightarrow> bytes res" where
  "host_ack_bytes r i =
     bind_res (list_item (hd_channel r) i) (\<lambda>c.
     bind_res (list_item (hd_region_id r) i) (\<lambda>g.
     bind_res (list_item (hd_space_read r) i) (\<lambda>s.
       struct_pack Little [Fx, Fx, FB, FB, FI] [c, g, s])))"

definition host_data_read_body :: "host_data_read \<Rightarrow> bytes res" where
  "host_data_read_body r =
     bind_res (struct_pack Little [FB, FB] [hd_n_requests r, hd_sequence_no r]) (\<lambda>a.
     bind_res (append_parts (host_ack_bytes r) 0 (nat (hd_n_requests r))) (\<lambda>b. Inr (a @ b)))"

fun read_acks :: "nat \<Rightarrow> bytes \<Rightarrow> nat \<Rightarrow> (int list \<times> int list \<times> int list) res" where
  "read_acks 0 data offset = Inr ([], [], [])"
| "read_acks (Suc n) data offset =
     bind_res (struct_unpack_from Little [Fx, Fx, FB, FB, FI] data offset) (\<lambda>vs. case vs of
       [channel_ack, region_id_ack, space_read_ack] \<Rightarrow>
         bind_res (read_acks n data (offset + 8)) (\<lambda>(cs, gs, ss).
           Inr (channel_ack # cs, region_id_ack # gs, space_read_ack # ss))
     | _ \<Rightarrow> Inl PyValueError)"

definition host_data_read_from_bytestring :: "bytes \<Rightarrow> nat \<Rightarrow> host_data_read res" where
  "host_data_read_from_bytestring data offset =
     bind_res (struct_unpack_from Little [FB, FB] data offset) (\<lambda>vs. case vs of
       [n_requests0, sequence_no] \<Rightarrow>
         let n_requests = n_requests0 AND 0x7
         in bind_res (read_acks (nat n_requests) data (offset + 2)) (\<lambda>(channel, region_id, space_read).
              host_data_read_init n_requests sequence_no channel region_id space_read)
     | _ \<Rightarrow> Inl PyValueError)"

subsection \<open>\<open>SpinnakerRequestReadData\<close>\<close>

record request_read_data =
  rrd_x :: int
  rrd_y :: int
  rrd_p :: int
  rrd_n_requests :: int
  rrd_sequence_no :: int
  rrd_channel :: "int list"
  rrd_region_id :: "int list"
  rrd_start_address :: "int list"
  rrd_space_to_be_read :: "int list"

definition request_read_data_init ::
  "int \<Rightarrow> int \<Rightarrow> int \<Rightarrow> int list \<Rightarrow> int \<Rightarrow> int \<Rightarrow> int list \<Rightarrow> int list \<Rightarrow> int list \<Rightarrow> request_read_data res" where
  "request_read_data_init x y p region_id sequence_no n_requests channel start_address space_to_be_read =
     (if int (length start_address) \<noteq> n_requests \<or> int (length space_to_be_read) \<noteq> n_requests \<or>
         int (length channel) \<noteq> n_requests \<or> int (length region_id) \<noteq> n_requests
      then Inl (InvalidPacket ''SpinnakerRequestReadData'')
      else Inr \<lparr>rrd_x = x, rrd_y = y, rrd_p = p, rrd_n_requests = n_requests,
                rrd_sequence_no = sequence_no, rrd_channel = channel, rrd_region_id = region_id,
                rrd_start_address = start_address, rrd_space_to_be_read = space_to_be_read\<rparr>)"

text \<open>
  Part \<open>i\<close> of the packet. Only the first carries the processor, the number of requests and the
  sequence number, and every part carries the start address of request 0.
\<close>

definition read_data_part :: "request_read_data \<Rightarrow> nat \<Rightarrow> bytes res" where
  "read_data_part r i =
     (let processor_and_request = push_bit 3 (rrd_p r) OR rrd_n_requests r
      in bind_res (list_item (rrd_channel r) i) (\<lambda>c.
         bind_res (list_item (rrd_region_id r) i) (\<lambda>g.
         bind_res (list_item (rrd_start_address r) 0) (\<lambda>a.
         bind_res (list_item (rrd_space_to_be_read r) i) (\<lambda>s.
           if i = 0
           then struct_pack Little [FB, FB, FB, FB, FI, FI]
                  [processor_and_request, rrd_sequence_no r, c, g, a, s]
           else struct_pack Little [Fx, Fx, FB, FB, FI, FI] [c, g, a, s])))))"

definition request_read_data_body :: "request_read_data \<Rightarrow> bytes res" where
  "request_read_data_body r =
     bind_res (struct_pack Little [FB, FB] [rrd_x r, rrd_y r]) (\<lambda>a.
     bind_res (append_parts (read_data_part r) 0 (nat (rrd_n_requests r))) (\<lambda>b. Inr (a @ b)))"

fun read_requests ::
  "nat \<Rightarrow> bool \<Rightarrow> bytes \<Rightarrow> nat \<Rightarrow> (int list \<times> int list \<times> int list \<times> int list) res" where
  "read_requests 0 first_one data offset = Inr ([], [], [], [])"
| "read_requests (Suc n) first_one data offset =
     bind_res (struct_unpack_from Little
         (if first_one then [FB, FB, FI, FI] else [Fx, Fx, FB, FB, FI, FI]) data offset) (\<lambda>vs. case vs of
       [request_channel, request_region_id, request_start_address, request_space_to_be_read] \<Rightarrow>
         bind_res (read_requests n False data (offset + (if first_one then 10 else 12)))
           (\<lambda>(cs, gs, as, ss).
             Inr (request_channel # cs, request_region_id # gs, request_start_address # as,
                  request_space_to_be_read # ss))
     | _ \<Rightarrow> Inl PyValueError)"

definition request_read_data_from_bytestring :: "bytes \<Rightarrow> nat \<Rightarrow> request_read_data res" where
  "request_read_data_from_bytestring data offset =
     bind_res (struct_unpack_from Little [FB, FB, FB, FB] data offset) (\<lambda>vs. case vs of
       [y, x, processor_and_requests, sequence_no] \<Rightarrow>
         let p = drop_bit 3 processor_and_requests AND 0x1F;
             n_requests = processor_and_requests AND 0x7
         in bind_res (read_requests (nat n_requests) True data (offset + 4))
              (\<lambda>(channel, region_id, start_address, space_to_be_read).
                request_read_data_init x y p region_id sequence_no n_requests channel
                  start_address space_to_be_read)
     | _ \<Rightarrow> Inl PyValueError)"

subsection \<open>Commands\<close>

text \<open>
  One constructor per class. \<open>database_path\<close> is the encoded path; a plain \<open>EIEIOCommandMessage\<close> keeps the
  buffer it was read from, which its \<open>bytestring\<close> does not write.
\<close>

datatype eieio_command =
    CommandMessage int "bytes option" nat
  | DatabaseLocation "bytes option"
  | PaddingRequest
  | EventStopRequest
  | StopRequests
  | StartRequests
  | PauseStop
  | StartResume
  | RequestBuffers request_buffers
  | HostSendSequencedData int int eieio_data_message
  | RequestReadData request_read_data
  | HostDataRead host_data_read
  | HostDataReadAck int

fun command_number :: "eieio_command \<Rightarrow> int" where
  "command_number (CommandMessage c data offset) = c"
| "command_number (DatabaseLocation path) = eieio_command_ids_value EIEIO_DATABASE"
| "command_number PaddingRequest = eieio_command_ids_value EIEIO_EVENT_PADDING"
| "command_number EventStopRequest = eieio_command_ids_value EIEIO_EVENT_STOP"
| "command_number StopRequests = eieio_command_ids_value EIEIO_STOP_SENDING_REQUESTS"
| "command_number StartRequests = eieio_command_ids_value EIEIO_START_SENDING_REQUESTS"
| "command_number PauseStop = eieio_command_ids_value EIEIO_STOP_PAUSE_NOTIFICATION"
| "command_number StartResume = eieio_command_ids_value EIEIO_START_RESUME_NOTIFICATION"
| "command_number (RequestBuffers r) = eieio_command_ids_value EIEIO_SPINNAKER_REQUEST_BUFFERS"
| "command_number (HostSendSequencedData g s m) = eieio_command_ids_value EIEIO_HOST_SEND_SEQUENCED_DATA"
| "command_number (RequestReadData r) = eieio_command_ids_value EIEIO_SPINNAKER_REQUEST_READ_DATA"
| "command_number (HostDataRead r) = eieio_command_ids_value EIEIO_HOST_DATA_READ"
| "command_number (HostDataReadAck s) = eieio_command_ids_value EIEIO_HOST_DATA_READ_ACK"

fun command_body :: "eieio_command \<Rightarrow> bytes res" where
  "command_body (DatabaseLocation path) = Inr (case path of None \<Rightarrow> [] | Some bs \<Rightarrow> bs)"
| "command_body (RequestBuffers r) = request_buffers_body r"
| "command_body (HostSendSequencedData region_id sequence_no m) =
     bind_res (struct_pack Little [FB, FB] [region_id, sequence_no]) (\<lambda>a.
     bind_res (eieio_data_message_bytestring m) (\<lambda>b. Inr (a @ b)))"
| "command_body (RequestReadData r) = request_read_data_body r"
| "command_body (HostDataRead r) = host_data_read_body r"
| "command_body (HostDataReadAck sequence_no) = struct_pack Little [FB] [sequence_no]"
| "command_body c = Inr []"

definition command_bytestring :: "eieio_command \<Rightarrow> bytes res" where
  "command_bytestring c =
     bind_res (command_header_bytestring (command_number c)) (\<lambda>h.
     bind_res (command_body c) (\<lambda>b. Inr (h @ b)))"

text \<open>
  \<open>NotificationProtocolDatabaseLocation.from_bytestring\<close> hands the bytes of the path to a constructor that
  calls \<open>encode()\<close> on its argument, which bytes do not have.
\<close>

definition database_location_from_bytestring :: "bytes \<Rightarrow> nat \<Rightarrow> eieio_command res" where
  "database_location_from_bytestring data offset =
     (if int (length data) - int offset > 0 then Inl PyAttributeError else Inr (DatabaseLocation None))"

definition host_send_sequenced_data_from_bytestring :: "bytes \<Rightarrow> nat \<Rightarrow> eieio_command res" where
  "host_send_sequenced_data_from_bytestring data offset =
     bind_res (struct_unpack_from Little [FB, FB] data offset) (\<lambda>vs. case vs of
       [region_id, sequence_no] \<Rightarrow>
         bind_res (read_eieio_data_message data offset) (\<lambda>m.
           Inr (HostSendSequencedData region_id sequence_no m))
     | _ \<Rightarrow> Inl PyValueError)"

definition host_data_read_ack_from_bytestring :: "bytes \<Rightarrow> nat \<Rightarrow> eieio_command res" where
  "host_data_read_ack_from_bytestring data offset =
     bind_res (struct_unpack_from Little [FB] data offset) (\<lambda>vs. case vs of
       [sequence_no] \<Rightarrow> Inr (HostDataReadAck sequence_no) | _ \<Rightarrow> Inl PyValueError)"

definition read_eieio_command_message :: "bytes \<Rightarrow> nat \<Rightarrow> eieio_command res" where
  "read_eieio_command_message data offset =
     bind_res (command_header_from_bytestring data offset) (\<lambda>number.
       if number = eieio_command_ids_value EIEIO_DATABASE
       then database_location_from_bytestring data (offset + 2)
       else if number = eieio_command_ids_value EIEIO_EVENT_PADDING then Inr PaddingRequest
       else if number = eieio_command_ids_value EIEIO_EVENT_STOP then Inr EventStopRequest
       else if number = eieio_command_ids_value EIEIO_STOP_SENDING_REQUESTS then Inr StopRequests
       else if number = eieio_command_ids_value EIEIO_START_SENDING_REQUESTS then Inr StartRequests
       else if number = eieio_command_ids_value EIEIO_SPINNAKER_REQUEST_BUFFERS
       then bind_res (request_buffers_from_bytestring data (offset + 2)) (\<lambda>r. Inr (RequestBuffers r))
       else if number = eieio_command_ids_value EIEIO_HOST_SEND_SEQUENCED_DATA
       then host_send_sequenced_data_from_bytestring data (offset + 2)
       else if number = eieio_command_ids_value EIEIO_SPINNAKER_REQUEST_READ_DATA
       then bind_res (request_read_data_from_bytestring data (offset + 2)) (\<lambda>r. Inr (RequestReadData r))
       else if number = eieio_command_ids_value EIEIO_HOST_DATA_READ
       then bind_res (host_data_read_from_bytestring data (offset + 2)) (\<lambda>r. Inr (HostDataRead r))
       else Inr (CommandMessage number (Some data) (offset + 2)))"

end
