(* ===== verification/EieioDataProps.thy ===== *)
theory EieioDataProps
  imports EieioData
begin

text \<open>
  EIEIO data packets read back: the header is a codec on its documented ranges, and a message built
  element by element is read element by element.
\<close>

subsection \<open>The flags byte\<close>

definition eieio_header_wf :: "eieio_data_header \<Rightarrow> bool" where
  "eieio_header_wf h \<longleftrightarrow>
     0 \<le> edh_tag h \<and> edh_tag h \<le> 3 \<and> 0 \<le> edh_count h \<and> edh_count h < 256 \<and>
     (case edh_prefix h of
        None \<Rightarrow> edh_prefix_type h = LOWER_HALF_WORD
      | Some p \<Rightarrow> 0 \<le> p \<and> p < 65536) \<and>
     (case edh_payload_base h of
        None \<Rightarrow> True
      | Some b \<Rightarrow> 0 \<le> b \<and> b \<le> max_value (edh_eieio_type h))"

lemma max_value_simps [simp]:
  "max_value KEY_16_BIT = 65535" "max_value KEY_PAYLOAD_16_BIT = 65535"
  "max_value KEY_32_BIT = 4294967295" "max_value KEY_PAYLOAD_32_BIT = 4294967295"
  by (simp_all add: max_value_def push_bit_eq_mult)

text \<open>The flags above the tag, and that the tag does not disturb them.\<close>

definition upper_flags :: "eieio_data_header \<Rightarrow> int" where
  "upper_flags h = eieio_flags (h\<lparr>edh_tag := 0\<rparr>)"

lemma eieio_flags_upper: "eieio_flags h = upper_flags h OR edh_tag h"
  by (simp add: upper_flags_def eieio_flags_def Let_def)

lemma upper_flags_fields:
  "0 \<le> upper_flags h" "upper_flags h < 256" "upper_flags h AND 3 = 0"
  "drop_bit 7 (upper_flags h) AND 1 = (if edh_prefix h = None then 0 else 1)"
  "drop_bit 6 (upper_flags h) AND 1 =
     (if edh_prefix h = None then 0 else eieio_prefix_value (edh_prefix_type h))"
  "drop_bit 5 (upper_flags h) AND 1 = (if edh_payload_base h = None then 0 else 1)"
  "drop_bit 4 (upper_flags h) AND 1 = (if edh_is_time h then 1 else 0)"
  "drop_bit 2 (upper_flags h) AND 3 = eieio_type_value (edh_eieio_type h)"
  by (cases "edh_eieio_type h"; cases "edh_prefix h = None"; cases "edh_payload_base h = None";
      cases "edh_is_time h"; cases "edh_prefix_type h"; simp add: upper_flags_def eieio_flags_def)+

lemma small_or: 
  fixes d t :: int
  assumes "0 \<le> t" and "t \<le> 3" and "0 \<le> d" and "d < 256" and "d AND 3 = 0"
  shows "0 \<le> d OR t" and "d OR t < 256" and "(d OR t) AND 3 = t"
    and "2 \<le> n \<Longrightarrow> drop_bit n (d OR t) = drop_bit n d"
proof -
  have t: "take_bit 2 t = t" using assms by (simp add: take_bit_int_eq_self)
  have d: "take_bit 2 d = 0" using assms(5) by (simp add: bit_field)
  show "0 \<le> d OR t" using assms by simp
  have "take_bit 8 (d OR t) = d OR t" using assms by (simp add: take_bit_or take_bit_int_eq_self)
  then show "d OR t < 256" using take_bit_int_less_exp [of 8 "d OR t"] by simp
  show "(d OR t) AND 3 = t" using t d by (simp add: bit_field)
  have "drop_bit n t = 0" if "2 \<le> n"
  proof -
    have "(2::int) ^ 2 \<le> 2 ^ n" using that by (intro power_increasing) auto
    then have "t < 2 ^ n" using assms(2) by simp
    then show ?thesis using assms(1) by (simp add: drop_bit_field)
  qed
  then show "2 \<le> n \<Longrightarrow> drop_bit n (d OR t) = drop_bit n d" by simp
qed

lemma eieio_flags_fields:
  assumes "0 \<le> edh_tag h" and "edh_tag h \<le> 3"
  shows "0 \<le> eieio_flags h" and "eieio_flags h < 256"
    and "drop_bit 7 (eieio_flags h) AND 1 = (if edh_prefix h = None then 0 else 1)"
    and "drop_bit 6 (eieio_flags h) AND 1 =
           (if edh_prefix h = None then 0 else eieio_prefix_value (edh_prefix_type h))"
    and "drop_bit 5 (eieio_flags h) AND 1 = (if edh_payload_base h = None then 0 else 1)"
    and "drop_bit 4 (eieio_flags h) AND 1 = (if edh_is_time h then 1 else 0)"
    and "drop_bit 2 (eieio_flags h) AND 3 = eieio_type_value (edh_eieio_type h)"
    and "eieio_flags h AND 3 = edh_tag h"
  using small_or [OF assms upper_flags_fields(1-3)] upper_flags_fields(4-) [of h]
  unfolding eieio_flags_upper by (simp_all only:)

subsection \<open>The header codec\<close>

text \<open>What follows the two bytes of the header.\<close>

definition base_items :: "eieio_data_header \<Rightarrow> fitem list" where
  "base_items h =
     (if edh_prefix h = None then [] else [FH]) @
     (if edh_payload_base h = None then []
      else if edh_eieio_type h = KEY_16_BIT \<or> edh_eieio_type h = KEY_PAYLOAD_16_BIT then [FH] else [FI])"

definition base_values :: "eieio_data_header \<Rightarrow> int list" where
  "base_values h =
     (case edh_prefix h of None \<Rightarrow> [] | Some p \<Rightarrow> [p]) @
     (case edh_payload_base h of None \<Rightarrow> [] | Some b \<Rightarrow> [b])"

lemma eieio_header_bytestring_split:
  "eieio_data_header_bytestring h =
     bind_res (struct_pack Little [FB, FB] [edh_count h, eieio_flags h])
       (\<lambda>a. bind_res (struct_pack Little (base_items h) (base_values h)) (\<lambda>b. Inr (a @ b)))"
proof -
  have "eieio_data_header_bytestring h =
      struct_pack Little ([FB, FB] @ base_items h) ([edh_count h, eieio_flags h] @ base_values h)"
    by (auto simp: eieio_data_header_bytestring_def base_items_def base_values_def Let_def
        split: option.splits)
  then show ?thesis by (simp only: struct_pack_append) (simp add: struct_pack_append [symmetric])
qed

lemma read_bases_ok:
  "struct_unpack_from Little (base_items h) data (off + 2) = Inr (base_values h) \<Longrightarrow>
     read_bases (edh_eieio_type h) (if edh_prefix h = None then 0 else 1)
       (if edh_payload_base h = None then 0 else 1) data off = Inr (edh_prefix h, edh_payload_base h)"
  by (cases "edh_prefix h"; cases "edh_payload_base h")
    (auto simp: read_bases_def base_items_def base_values_def Let_def split: if_splits)

lemma calcsize_base_items: "int (2 + calcsize (base_items h)) = header_size h"
  by (cases "edh_eieio_type h") (auto simp: base_items_def header_size_def get_header_size_def Let_def)

lemma base_items_plain [simp]: "list_all plain_item (base_items h)"
  by (simp add: base_items_def)

lemma length_eieio_header:
  assumes "eieio_data_header_bytestring h = Inr bs"
  shows "int (length bs) = header_size h"
proof -
  obtain a b where "struct_pack Little [FB, FB] [edh_count h, eieio_flags h] = Inr a"
    "struct_pack Little (base_items h) (base_values h) = Inr b" "bs = a @ b"
    using assms by (auto simp: eieio_header_bytestring_split)
  then have "length bs = 2 + calcsize (base_items h)" by (auto dest!: length_struct_pack)
  then show ?thesis by (simp only: calcsize_base_items)
qed

lemma base_values_in_range:
  assumes "eieio_header_wf h"
  shows "list_all2 (\<lambda>f x. 0 \<le> x \<and> x < 256 ^ item_size f) (base_items h) (base_values h)"
  using assms
  by (cases "edh_eieio_type h"; cases "edh_prefix h"; cases "edh_payload_base h")
    (auto simp: eieio_header_wf_def base_items_def base_values_def)

interpretation eieio_header: codec
  eieio_data_header_bytestring eieio_data_header_from_bytestring eieio_header_wf
proof
  fix h
  assume wf: "eieio_header_wf h"
  then have t: "0 \<le> edh_tag h" "edh_tag h \<le> 3" "0 \<le> edh_count h" "edh_count h < 256"
    by (simp_all add: eieio_header_wf_def)
  have "\<exists>a. struct_pack Little [FB, FB] [edh_count h, eieio_flags h] = Inr a"
    using t eieio_flags_fields(1,2) [OF t(1,2)] by (intro struct_pack_total) auto
  moreover have "\<exists>b. struct_pack Little (base_items h) (base_values h) = Inr b"
    using base_values_in_range [OF wf] by (intro struct_pack_total) auto
  ultimately show "\<exists>bs. eieio_data_header_bytestring h = Inr bs"
    by (auto simp: eieio_header_bytestring_split)
next
  fix h bs pre post
  assume wf: "eieio_header_wf h" and enc: "eieio_data_header_bytestring h = Inr bs"
  from wf have t: "0 \<le> edh_tag h" "edh_tag h \<le> 3" by (simp_all add: eieio_header_wf_def)
  from enc obtain a b where a: "struct_pack Little [FB, FB] [edh_count h, eieio_flags h] = Inr a"
    and b: "struct_pack Little (base_items h) (base_values h) = Inr b" and bs: "bs = a @ b"
    by (auto simp: eieio_header_bytestring_split)
  let ?data = "pre @ bs @ post"
  have "length a = 2" using a by (auto dest!: length_struct_pack)
  then have ba: "struct_unpack_from Little (base_items h) ?data (length pre + 2) = Inr (base_values h)"
    using struct_unpack_pack [OF b, of "pre @ a" post] bs by simp
  have hd: "struct_unpack_from Little [FB, FB] ?data (length pre) = Inr [edh_count h, eieio_flags h]"
    using struct_unpack_pack [OF a, of pre "b @ post"] bs by simp
  have pt: "edh_prefix h = None \<Longrightarrow> edh_prefix_type h = LOWER_HALF_WORD"
    using wf by (auto simp: eieio_header_wf_def)
  have z: "enum_lookup eieio_prefix_members eieio_prefix_value 0 = Some LOWER_HALF_WORD"
    using eieio_prefix.lookup_val [of LOWER_HALF_WORD] by simp
  have eta: "\<lparr>edh_eieio_type = edh_eieio_type h, edh_tag = edh_tag h, edh_prefix = edh_prefix h,
      edh_prefix_type = edh_prefix_type h, edh_payload_base = edh_payload_base h,
      edh_is_time = edh_is_time h, edh_count = edh_count h\<rparr> = h" by simp
  show "eieio_data_header_from_bytestring ?data (length pre) = Inr h"
    using read_bases_ok [OF ba] pt eta
    by (cases "edh_prefix h"; cases "edh_payload_base h"; cases "edh_is_time h")
      (simp_all add: eieio_data_header_from_bytestring_def hd eieio_flags_fields [OF t] enum_of_def z)
qed

subsection \<open>Elements\<close>

fun element_wf :: "eieio_type \<Rightarrow> data_element \<Rightarrow> bool" where
  "element_wf ty (KeyDataElement k) \<longleftrightarrow> payload_bytes ty = 0 \<and> 0 \<le> k \<and> k \<le> max_value ty"
| "element_wf ty (KeyPayloadDataElement k p is_time) \<longleftrightarrow>
     payload_bytes ty \<noteq> 0 \<and> 0 \<le> k \<and> k \<le> max_value ty \<and> 0 \<le> p \<and> p \<le> max_value ty"

fun element_key :: "data_element \<Rightarrow> int" where
  "element_key (KeyDataElement k) = k"
| "element_key (KeyPayloadDataElement k p t) = k"

fun element_payload :: "data_element \<Rightarrow> int option" where
  "element_payload (KeyDataElement k) = None"
| "element_payload (KeyPayloadDataElement k p t) = Some p"

definition element_size :: "eieio_type \<Rightarrow> nat" where
  "element_size ty = nat (key_bytes ty + payload_bytes ty)"

lemma element_size_simps [simp]:
  "element_size KEY_16_BIT = 2" "element_size KEY_PAYLOAD_16_BIT = 4"
  "element_size KEY_32_BIT = 4" "element_size KEY_PAYLOAD_32_BIT = 8"
  by (simp_all add: element_size_def)

lemma element_total: "element_wf ty e \<Longrightarrow> \<exists>bs. get_element_bytestring e ty = Inr bs"
  by (cases e; cases ty) (auto intro!: struct_pack_total)

lemma element_length: "get_element_bytestring e ty = Inr bs \<Longrightarrow> length bs = element_size ty"
  by (cases e; cases ty) (auto dest!: length_struct_pack split: if_splits)

lemma unpack_element_printed:
  "get_element_bytestring e ty = Inr bs \<Longrightarrow>
     unpack_element ty (pre @ bs @ post) (length pre) = Inr (element_key e, element_payload e, element_size ty)"
  by (cases e; cases ty) (auto simp: unpack_element_def dest!: struct_unpack_pack split: if_splits)

definition element_bytes :: "eieio_type \<Rightarrow> data_element \<Rightarrow> bytes" where
  "element_bytes ty e = (case get_element_bytestring e ty of Inr bs \<Rightarrow> bs | Inl _ \<Rightarrow> [])"

lemma element_bytes:
  "element_wf ty e \<Longrightarrow> get_element_bytestring e ty = Inr (element_bytes ty e)"
  using element_total [of ty e] by (auto simp: element_bytes_def)

lemma length_element_bytes [simp]: "element_wf ty e \<Longrightarrow> length (element_bytes ty e) = element_size ty"
  using element_bytes [of ty e] element_length by blast

lemma length_elements:
  "list_all (element_wf ty) es \<Longrightarrow> length (concat (map (element_bytes ty) es)) = element_size ty * length es"
  by (induction es) auto

subsection \<open>Writing and reading all elements\<close>

fun add_elements :: "data_element list \<Rightarrow> eieio_data_message \<Rightarrow> eieio_data_message res" where
  "add_elements [] m = Inr m"
| "add_elements (e # es) m = bind_res (add_element e m) (add_elements es)"

lemma add_elements_ok:
  assumes "list_all (element_wf (edh_eieio_type (edm_header m))) es" and "edm_data m = None"
  shows "add_elements es m =
     Inr (m\<lparr>edm_elements := edm_elements m @ concat (map (element_bytes (edh_eieio_type (edm_header m))) es),
            edm_header := (edm_header m)\<lparr>edh_count := edh_count (edm_header m) + int (length es)\<rparr>\<rparr>)"
  using assms
proof (induction es arbitrary: m)
  case (Cons e es)
  then have "get_element_bytestring e (edh_eieio_type (edm_header m))
      = Inr (element_bytes (edh_eieio_type (edm_header m)) e)"
    by (simp add: element_bytes)
  with Cons show ?case by (simp add: add_element_def add.assoc)
qed simp

text \<open>The loop of every reader: \<open>while message.is_next_element: message.next_element\<close>.\<close>

lemma next_element_reads:
  "is_next_element m \<Longrightarrow> edm_elements_read (fst (next_element m)) = edm_elements_read m + 1 \<and>
     edm_header (fst (next_element m)) = edm_header m"
  by (auto simp: next_element_def Let_def split: sum.splits)

function read_all :: "eieio_data_message \<Rightarrow> data_element list res" where
  "read_all m =
     (if is_next_element m
      then (case snd (next_element m) of
              Inl e \<Rightarrow> Inl e
            | Inr None \<Rightarrow> Inr []
            | Inr (Some el) \<Rightarrow> bind_res (read_all (fst (next_element m))) (\<lambda>els. Inr (el # els)))
      else Inr [])"
  by pat_completeness auto
termination
  by (relation "measure (\<lambda>m. nat (edh_count (edm_header m) - edm_elements_read m))")
    (use next_element_reads in \<open>auto simp: is_next_element_def\<close>)

declare read_all.simps [simp del]

definition rebase :: "eieio_data_header \<Rightarrow> data_element \<Rightarrow> data_element" where
  "rebase h e = apply_bases h (element_key e) (element_payload e)"

lemma read_all_printed:
  assumes "list_all (element_wf (edh_eieio_type (edm_header m))) es"
    and "edm_data m = Some (pre @ concat (map (element_bytes (edh_eieio_type (edm_header m))) es) @ post)"
    and "edm_offset m = length pre"
    and "edh_count (edm_header m) = edm_elements_read m + int (length es)"
  shows "read_all m = Inr (map (rebase (edm_header m)) es)"
  using assms
proof (induction es arbitrary: m pre)
  case Nil
  then show ?case by (simp add: read_all.simps is_next_element_def)
next
  case (Cons e es)
  let ?ty = "edh_eieio_type (edm_header m)"
  have wf: "element_wf ?ty e" and wfs: "list_all (element_wf ?ty) es" using Cons.prems(1) by auto
  have nx: "is_next_element m" using Cons.prems(2,4) by (simp add: is_next_element_def)
  let ?m = "m\<lparr>edm_elements_read := edm_elements_read m + 1, edm_offset := edm_offset m + element_size ?ty\<rparr>"
  have "next_element m = (?m, Inr (Some (rebase (edm_header m) e)))"
    using nx Cons.prems(2,3) unpack_element_printed [OF element_bytes [OF wf]]
    by (simp add: next_element_def rebase_def)
  moreover have "read_all ?m = Inr (map (rebase (edm_header ?m)) es)"
    by (rule Cons.IH [where pre = "pre @ element_bytes ?ty e"]) (use Cons.prems wf wfs in auto)
  ultimately show ?case using nx by (subst read_all.simps) simp
qed

subsection \<open>Properties\<close>

lemma message_printed:
  assumes wf: "eieio_header_wf h" and z: "edh_count h = 0" and n: "length es < 256"
    and es: "list_all (element_wf (edh_eieio_type h)) es"
  shows "\<exists>m hb. let body = concat (map (element_bytes (edh_eieio_type h)) es);
                  h' = h\<lparr>edh_count := int (length es)\<rparr>
     in add_elements es (eieio_data_message_init h None 0) = Inr m \<and>
        m = (eieio_data_message_init h None 0)\<lparr>edm_elements := body, edm_header := h'\<rparr> \<and>
        eieio_data_header_bytestring h' = Inr hb \<and> eieio_header_wf h' \<and>
        eieio_data_message_bytestring m = Inr (hb @ body) \<and>
        int (length (hb @ body)) = message_size m"
proof -
  let ?h = "h\<lparr>edh_count := int (length es)\<rparr>"
  let ?m = "(eieio_data_message_init h None 0)\<lparr>edm_elements := concat (map (element_bytes (edh_eieio_type h)) es),
      edm_header := ?h\<rparr>"
  have wf': "eieio_header_wf ?h" using wf n by (simp add: eieio_header_wf_def split: option.splits)
  then obtain hb where hb: "eieio_data_header_bytestring ?h = Inr hb" using eieio_header.enc_total by blast
  have "add_elements es (eieio_data_message_init h None 0) = Inr ?m"
    using es z by (simp add: add_elements_ok eieio_data_message_init_def)
  moreover have "int (length (hb @ concat (map (element_bytes (edh_eieio_type h)) es))) = message_size ?m"
    using length_eieio_header [OF hb] length_elements [OF es]
    by (cases "edh_eieio_type h") (simp_all add: message_size_def)
  ultimately show ?thesis using hb wf'
    by (auto simp: eieio_data_message_bytestring_def Let_def)
qed

text \<open>
  C11: an EIEIO data packet comes back as it was written. Take a header in its documented ranges with
  nothing counted yet and up to 255 elements that suit its type. Adding them one by one succeeds and
  the packet serialises to \<open>size\<close> bytes; whatever surrounds those bytes in a buffer,
  \<open>read_eieio_data_message\<close> accepts them, its header is the one that was written with the number of
  elements, and reading while there is a next element gives back exactly the elements in their
  order, with the header's key prefix and payload base ORed in.
\<close>
theorem eieio_packet_roundtrip:
  assumes "eieio_header_wf h" and "edh_count h = 0" and "length es < 256"
    and "list_all (element_wf (edh_eieio_type h)) es"
  shows "\<exists>m bs. add_elements es (eieio_data_message_init h None 0) = Inr m \<and>
     eieio_data_message_bytestring m = Inr bs \<and> int (length bs) = message_size m \<and>
     (\<forall>pre post. \<exists>m'. read_eieio_data_message (pre @ bs @ post) (length pre) = Inr m' \<and>
        edm_header m' = h\<lparr>edh_count := int (length es)\<rparr> \<and> read_all m' = Inr (map (rebase h) es))"
proof -
  let ?h = "h\<lparr>edh_count := int (length es)\<rparr>"
  let ?body = "concat (map (element_bytes (edh_eieio_type h)) es)"
  obtain m hb where m: "add_elements es (eieio_data_message_init h None 0) = Inr m"
    and hb: "eieio_data_header_bytestring ?h = Inr hb" "eieio_header_wf ?h"
    and b: "eieio_data_message_bytestring m = Inr (hb @ ?body)" "int (length (hb @ ?body)) = message_size m"
    using message_printed [OF assms] by (auto simp: Let_def)
  have "\<exists>m'. read_eieio_data_message (pre @ (hb @ ?body) @ post) (length pre) = Inr m' \<and>
        edm_header m' = ?h \<and> read_all m' = Inr (map (rebase h) es)" for pre post
  proof -
    let ?m = "eieio_data_message_init ?h (Some (pre @ (hb @ ?body) @ post)) (length pre + nat (header_size ?h))"
    have l: "nat (header_size ?h) = length hb" using length_eieio_header [OF hb(1)] by simp
    have rb: "rebase ?h = rebase h" by (simp add: rebase_def apply_bases_def fun_eq_iff Let_def cong: option.case_cong)
    have "eieio_data_header_from_bytestring (pre @ (hb @ ?body) @ post) (length pre) = Inr ?h"
      using eieio_header.dec_enc [OF hb(2,1), of pre "?body @ post"] by simp
    then have "read_eieio_data_message (pre @ (hb @ ?body) @ post) (length pre) = Inr ?m"
      by (simp add: read_eieio_data_message_def)
    moreover have "read_all ?m = Inr (map (rebase (edm_header ?m)) es)"
      by (rule read_all_printed [where pre = "pre @ hb" and post = post])
        (use assms(4) l in \<open>simp_all add: eieio_data_message_init_def\<close>)
    ultimately show ?thesis using rb by (simp add: eieio_data_message_init_def)
  qed
  with m b show ?thesis by blast
qed

definition sample_eieio_header :: eieio_data_header where
  "sample_eieio_header = \<lparr>edh_eieio_type = KEY_PAYLOAD_32_BIT, edh_tag = 2, edh_prefix = Some 0x1234,
     edh_prefix_type = UPPER_HALF_WORD, edh_payload_base = Some 0x10000, edh_is_time = True, edh_count = 0\<rparr>"

theorem eieio_packet_roundtrip_witness:
  "\<exists>m bs. add_elements [KeyPayloadDataElement 7 9 True, KeyPayloadDataElement 8 0 True]
       (eieio_data_message_init sample_eieio_header None 0) = Inr m \<and>
     eieio_data_message_bytestring m = Inr bs \<and>
     (\<exists>m'. read_eieio_data_message (bs @ [0xFF]) 0 = Inr m' \<and>
        read_all m' = Inr [KeyPayloadDataElement 0x12340007 0x10009 True,
                           KeyPayloadDataElement 0x12340008 0x10000 True])"
proof -
  have r: "map (rebase sample_eieio_header) [KeyPayloadDataElement 7 9 True, KeyPayloadDataElement 8 0 True]
      = [KeyPayloadDataElement 0x12340007 0x10009 True, KeyPayloadDataElement 0x12340008 0x10000 True]"
    by (simp add: rebase_def apply_bases_def sample_eieio_header_def push_bit_eq_mult)
  have "\<exists>m bs. add_elements [KeyPayloadDataElement 7 9 True, KeyPayloadDataElement 8 0 True]
       (eieio_data_message_init sample_eieio_header None 0) = Inr m \<and>
     eieio_data_message_bytestring m = Inr bs \<and> int (length bs) = message_size m \<and>
     (\<forall>pre post. \<exists>m'. read_eieio_data_message (pre @ bs @ post) (length pre) = Inr m' \<and>
        edm_header m' = sample_eieio_header
          \<lparr>edh_count := int (length [KeyPayloadDataElement 7 9 True, KeyPayloadDataElement 8 0 True])\<rparr> \<and>
        read_all m' = Inr (map (rebase sample_eieio_header)
          [KeyPayloadDataElement 7 9 True, KeyPayloadDataElement 8 0 True]))"
    by (rule eieio_packet_roundtrip) (simp_all add: sample_eieio_header_def eieio_header_wf_def)
  then show ?thesis unfolding r by (metis append_Nil list.size(3))
qed

text \<open>
  C12: \<open>max_n_elements\<close> is exactly how many elements fit. A packet built from a fresh header fits in the
  256 bytes of a UDP message if and only if it has at most \<open>max_n_elements\<close> elements.
\<close>
theorem max_n_elements_exact:
  assumes "eieio_header_wf h" and "edh_count h = 0" and "length es < 256"
    and "list_all (element_wf (edh_eieio_type h)) es"
  shows "\<exists>m bs. add_elements es (eieio_data_message_init h None 0) = Inr m \<and>
     eieio_data_message_bytestring m = Inr bs \<and>
     (int (length bs) \<le> UDP_MESSAGE_MAX_SIZE \<longleftrightarrow> int (length es) \<le> max_n_elements m)"
proof -
  let ?h = "h\<lparr>edh_count := int (length es)\<rparr>"
  obtain m bs where m: "add_elements es (eieio_data_message_init h None 0) = Inr m"
    and h: "edm_header m = ?h" and b: "eieio_data_message_bytestring m = Inr bs"
    and l: "int (length bs) = message_size m"
    using message_printed [OF assms] by (auto simp: Let_def)
  have "int (length bs) \<le> UDP_MESSAGE_MAX_SIZE \<longleftrightarrow> int (length es) \<le> max_n_elements m"
    unfolding l message_size_def max_n_elements_def h Let_def UDP_MESSAGE_MAX_SIZE_def
    by (cases "edh_eieio_type h") (simp_all, linarith+)
  with m b show ?thesis by blast
qed

theorem max_n_elements_exact_witness:
  "\<exists>m bs. add_elements [KeyPayloadDataElement 7 9 True] (eieio_data_message_init sample_eieio_header None 0) = Inr m \<and>
     eieio_data_message_bytestring m = Inr bs \<and>
     (int (length bs) \<le> UDP_MESSAGE_MAX_SIZE \<longleftrightarrow>
        int (length [KeyPayloadDataElement 7 9 True]) \<le> max_n_elements m)"
  by (rule max_n_elements_exact) (simp_all add: sample_eieio_header_def eieio_header_wf_def)

end
