(* ===== verification/EieioCommandProps.thy ===== *)
theory EieioCommandProps
  imports EieioCommand EieioDataProps Codec
begin

text \<open>
  Which EIEIO commands are read back as they were written, and how the others differ. The packets
  with a body are pairs of codecs: the header and the body.
\<close>

subsection \<open>The header and the bodies as codecs\<close>

definition command_header_wf :: "int \<Rightarrow> bool" where
  "command_header_wf c \<longleftrightarrow> 0 \<le> c \<and> c < 16384"

lemma command_header_fields:
  assumes "command_header_wf c"
  shows "0 \<le> 16384 OR c" and "16384 OR c < 65536" and "(16384 OR c) AND 0x3FFF = c"
proof -
  have c: "0 \<le> c" "c < 2 ^ 14" using assms by (simp_all add: command_header_wf_def)
  have e: "16384 OR c = push_bit 14 1 OR c" by (simp add: push_bit_eq_mult)
  show "0 \<le> 16384 OR c" and "16384 OR c < 65536"
    using push_or_range [of 1 2 c 14] c unfolding e by auto
  show "(16384 OR c) AND 0x3FFF = c"
    using take_bit_push_or [OF c, of 1] unfolding e by (simp add: bit_field)
qed

interpretation command_header: fixed_codec
  command_header_bytestring command_header_from_bytestring command_header_wf 2
proof
  fix c assume "command_header_wf c"
  from command_header_fields [OF this] show "\<exists>bs. command_header_bytestring c = Inr bs"
    unfolding command_header_bytestring_def by (intro struct_pack_total) (auto simp: push_bit_eq_mult)
next
  fix c bs pre post
  assume wf: "command_header_wf c" and enc: "command_header_bytestring c = Inr bs"
  from enc have p: "struct_pack Little [FH] [16384 OR c] = Inr bs"
    by (simp add: command_header_bytestring_def push_bit_eq_mult)
  show "command_header_from_bytestring (pre @ bs @ post) (length pre) = Inr c"
    using wf command_header_fields(3) [OF wf]
    by (simp add: command_header_from_bytestring_def struct_unpack_pack [OF p] command_header_init_def
        command_header_wf_def)
next
  fix c bs assume "command_header_bytestring c = Inr bs"
  then show "length bs = 2" by (auto simp: command_header_bytestring_def dest!: length_struct_pack)
qed

definition request_buffers_wf :: "request_buffers \<Rightarrow> bool" where
  "request_buffers_wf r \<longleftrightarrow>
     0 \<le> rb_x r \<and> rb_x r < 256 \<and> 0 \<le> rb_y r \<and> rb_y r < 256 \<and> 0 \<le> rb_p r \<and> rb_p r < 32 \<and>
     0 \<le> rb_region_id r \<and> rb_region_id r < 16 \<and> 0 \<le> rb_sequence_no r \<and> rb_sequence_no r < 256 \<and>
     0 \<le> rb_space_available r \<and> rb_space_available r < 2 ^ 32"

interpretation request_buffers: codec
  request_buffers_body request_buffers_from_bytestring request_buffers_wf
proof
  fix r assume "request_buffers_wf r"
  then show "\<exists>bs. request_buffers_body r = Inr bs"
    by (simp add: request_buffers_wf_def request_buffers_body_def struct_pack_def push_bit_eq_mult)
next
  fix r bs pre post
  assume wf: "request_buffers_wf r" and enc: "request_buffers_body r = Inr bs"
  have "drop_bit 3 (push_bit 3 (rb_p r)) AND 31 = rb_p r" "rb_region_id r AND 15 = rb_region_id r"
    using wf by (simp_all add: request_buffers_wf_def bit_field drop_bit_push_bit take_bit_int_eq_self)
  then show "request_buffers_from_bytestring (pre @ bs @ post) (length pre) = Inr r"
    using struct_unpack_pack [OF enc [unfolded request_buffers_body_def], of pre post]
    by (simp add: request_buffers_from_bytestring_def)
qed

interpretation buffers_packet: codec_pair
  command_header_bytestring command_header_from_bytestring command_header_wf 2
  request_buffers_body request_buffers_from_bytestring request_buffers_wf
  by unfold_locales

subsection \<open>\<open>HostDataRead\<close>\<close>

definition host_data_read_wf :: "host_data_read \<Rightarrow> bool" where
  "host_data_read_wf r \<longleftrightarrow>
     hd_n_requests r \<le> 7 \<and> 0 \<le> hd_sequence_no r \<and> hd_sequence_no r < 256 \<and>
     int (length (hd_channel r)) = hd_n_requests r \<and> int (length (hd_region_id r)) = hd_n_requests r \<and>
     int (length (hd_space_read r)) = hd_n_requests r \<and>
     list_all (\<lambda>v. 0 \<le> v \<and> v < 256) (hd_channel r) \<and> list_all (\<lambda>v. 0 \<le> v \<and> v < 256) (hd_region_id r) \<and>
     list_all (\<lambda>v. 0 \<le> v \<and> v < 2 ^ 32) (hd_space_read r)"

text \<open>The bytes of one acknowledgement and of all from number \<open>i\<close> on.\<close>

lemma host_ack_total:
  assumes "host_data_read_wf r" and "int i < hd_n_requests r"
  shows "\<exists>bs. host_ack_bytes r i = Inr bs \<and> length bs = 8 \<and>
     struct_pack Little [Fx, Fx, FB, FB, FI] [hd_channel r ! i, hd_region_id r ! i, hd_space_read r ! i] = Inr bs"
proof -
  have l: "i < length (hd_channel r)" "i < length (hd_region_id r)" "i < length (hd_space_read r)"
    using assms by (auto simp: host_data_read_wf_def)
  then have "0 \<le> hd_channel r ! i" "hd_channel r ! i < 256" "0 \<le> hd_region_id r ! i" "hd_region_id r ! i < 256"
    "0 \<le> hd_space_read r ! i" "hd_space_read r ! i < 2 ^ 32"
    using assms(1) by (auto simp: host_data_read_wf_def list_all_length)
  then obtain bs where "struct_pack Little [Fx, Fx, FB, FB, FI]
      [hd_channel r ! i, hd_region_id r ! i, hd_space_read r ! i] = Inr bs"
    by (simp add: struct_pack_def)
  then show ?thesis using l length_struct_pack
    by (fastforce simp: host_ack_bytes_def list_item_def)
qed

lemma acks_roundtrip:
  assumes "host_data_read_wf r" and "int (i + n) = hd_n_requests r"
  shows "\<exists>bs. append_parts (host_ack_bytes r) i n = Inr bs \<and>
     (\<forall>pre post. read_acks n (pre @ bs @ post) (length pre)
        = Inr (drop i (hd_channel r), drop i (hd_region_id r), drop i (hd_space_read r)))"
  using assms(2)
proof (induction n arbitrary: i)
  case 0
  then show ?case using assms(1) by (simp add: host_data_read_wf_def)
next
  case (Suc n)
  then have i: "int i < hd_n_requests r" and rest: "int (Suc i + n) = hd_n_requests r" by simp_all
  obtain a where a: "host_ack_bytes r i = Inr a" "length a = 8"
    and p: "struct_pack Little [Fx, Fx, FB, FB, FI] [hd_channel r ! i, hd_region_id r ! i, hd_space_read r ! i] = Inr a"
    using host_ack_total [OF assms(1) i] by blast
  obtain b where b: "append_parts (host_ack_bytes r) (Suc i) n = Inr b"
    and r: "read_acks n (pre @ b @ post) (length pre)
        = Inr (drop (Suc i) (hd_channel r), drop (Suc i) (hd_region_id r), drop (Suc i) (hd_space_read r))"
    for pre post
    using Suc.IH [OF rest] by blast
  have "read_acks (Suc n) (pre @ (a @ b) @ post) (length pre)
        = Inr (drop i (hd_channel r), drop i (hd_region_id r), drop i (hd_space_read r))" for pre post
  proof -
    have "i < length (hd_channel r)" "i < length (hd_region_id r)" "i < length (hd_space_read r)"
      using assms(1) i by (auto simp: host_data_read_wf_def)
    then show ?thesis
      using struct_unpack_pack [OF p, of pre "b @ post"] r [of "pre @ a" post] a(2)
      by (simp add: Cons_nth_drop_Suc)
  qed
  moreover have "append_parts (host_ack_bytes r) i (Suc n) = Inr (a @ b)" using a(1) b by simp
  ultimately show ?case by blast
qed

interpretation host_data_read: codec
  host_data_read_body host_data_read_from_bytestring host_data_read_wf
proof
  fix r assume wf: "host_data_read_wf r"
  have "\<exists>a. struct_pack Little [FB, FB] [hd_n_requests r, hd_sequence_no r] = Inr a"
    using wf by (intro struct_pack_total) (auto simp: host_data_read_wf_def)
  moreover have "int (0 + nat (hd_n_requests r)) = hd_n_requests r" using wf by (auto simp: host_data_read_wf_def)
  from acks_roundtrip [OF wf this]
  obtain b where "append_parts (host_ack_bytes r) 0 (nat (hd_n_requests r)) = Inr b" by blast
  ultimately show "\<exists>bs. host_data_read_body r = Inr bs" by (auto simp: host_data_read_body_def)
next
  fix r bs pre post
  assume wf: "host_data_read_wf r" and enc: "host_data_read_body r = Inr bs"
  let ?n = "hd_n_requests r"
  have n: "0 \<le> ?n" "?n \<le> 7" "int (0 + nat ?n) = ?n" using wf by (auto simp: host_data_read_wf_def)
  obtain a b where a: "struct_pack Little [FB, FB] [?n, hd_sequence_no r] = Inr a"
    and b: "append_parts (host_ack_bytes r) 0 (nat ?n) = Inr b" and bs: "bs = a @ b"
    using enc by (auto simp: host_data_read_body_def)
  have "length a = 2" using a by (auto dest!: length_struct_pack)
  then have acks: "read_acks (nat ?n) (pre @ bs @ post) (length pre + 2)
      = Inr (hd_channel r, hd_region_id r, hd_space_read r)"
    using acks_roundtrip [OF wf n(3)] b bs by (metis append.assoc drop0 length_append sum.inject(2))
  have "?n AND 7 = ?n" using n(1,2) by (simp add: bit_field take_bit_int_eq_self)
  then show "host_data_read_from_bytestring (pre @ bs @ post) (length pre) = Inr r"
    using struct_unpack_pack [OF a, of pre "b @ post"] acks bs wf
    by (simp add: host_data_read_from_bytestring_def host_data_read_init_def host_data_read_wf_def)
qed

interpretation host_data_packet: codec_pair
  command_header_bytestring command_header_from_bytestring command_header_wf 2
  host_data_read_body host_data_read_from_bytestring host_data_read_wf
  by unfold_locales

subsection \<open>Properties\<close>

fun command_wf :: "eieio_command \<Rightarrow> bool" where
  "command_wf PaddingRequest = True"
| "command_wf EventStopRequest = True"
| "command_wf StopRequests = True"
| "command_wf StartRequests = True"
| "command_wf (RequestBuffers r) = request_buffers_wf r"
| "command_wf (HostDataRead r) = host_data_read_wf r"
| "command_wf c = False"

lemma command_number_wf: "command_header_wf (eieio_command_ids_value n)"
  by (cases n) (simp_all add: command_header_wf_def)

text \<open>Reading the number of a command, wherever its bytes are.\<close>

lemma read_command_number:
  assumes "command_bytestring c = Inr bs" and "command_header_wf (command_number c)"
  shows "command_header_from_bytestring (pre @ bs @ post) (length pre) = Inr (command_number c)"
proof -
  obtain h b where h: "command_header_bytestring (command_number c) = Inr h" and bs: "bs = h @ b"
    using assms(1) by (auto simp: command_bytestring_def)
  show ?thesis using command_header.dec_enc [OF assms(2) h, of pre "b @ post"] bs by simp
qed

lemma read_dispatched:
  assumes "command_header_from_bytestring data off = Inr (command_number c)" and "command_body c = Inr []"
    and "command_wf c"
  shows "read_eieio_command_message data off = Inr c"
  using assms(2,3) unfolding read_eieio_command_message_def assms(1) bind_res_simps
  by (cases c) (auto simp: request_buffers_body_def host_data_read_body_def dest!: length_struct_pack)

lemma short_command:
  assumes "command_body c = Inr []" and "command_wf c" and "command_number c = eieio_command_ids_value n"
  shows "\<exists>bs. command_bytestring c = Inr bs \<and>
     (\<forall>pre post. read_eieio_command_message (pre @ bs @ post) (length pre) = Inr c)"
proof -
  have wf: "command_header_wf (command_number c)" unfolding assms(3) by (rule command_number_wf)
  obtain bs where "command_bytestring c = Inr bs"
    using command_header.enc_total [OF wf] assms(1) by (auto simp: command_bytestring_def)
  with read_command_number [OF _ wf] read_dispatched [OF _ assms(1,2)] show ?thesis by blast
qed

lemma eieio_command_trip:
  assumes "command_wf c"
  shows "\<exists>bs. command_bytestring c = Inr bs \<and>
     (\<forall>pre post. read_eieio_command_message (pre @ bs @ post) (length pre) = Inr c)"
proof (cases c)
  case (RequestBuffers r)
  let ?p = "(command_number c, r)"
  have wf: "wf_pair command_header_wf request_buffers_wf ?p"
    using assms RequestBuffers command_number_wf [of EIEIO_SPINNAKER_REQUEST_BUFFERS] by (simp add: wf_pair_def)
  obtain bs where bs: "enc_pair command_header_bytestring request_buffers_body ?p = Inr bs"
    using buffers_packet.pair.enc_total [OF wf] by blast
  have "command_bytestring c = Inr bs"
    using bs RequestBuffers by (auto simp: command_bytestring_def enc_pair_def)
  moreover have "read_eieio_command_message (pre @ bs @ post) (length pre) = Inr c" for pre post
    using buffers_packet.pair.dec_enc [OF wf bs, of pre post] RequestBuffers
    by (auto simp: dec_pair_def read_eieio_command_message_def)
  ultimately show ?thesis by blast
next
  case (HostDataRead r)
  let ?p = "(command_number c, r)"
  have wf: "wf_pair command_header_wf host_data_read_wf ?p"
    using assms HostDataRead command_number_wf [of EIEIO_HOST_DATA_READ] by (simp add: wf_pair_def)
  obtain bs where bs: "enc_pair command_header_bytestring host_data_read_body ?p = Inr bs"
    using host_data_packet.pair.enc_total [OF wf] by blast
  have "command_bytestring c = Inr bs"
    using bs HostDataRead by (auto simp: command_bytestring_def enc_pair_def)
  moreover have "read_eieio_command_message (pre @ bs @ post) (length pre) = Inr c" for pre post
    using host_data_packet.pair.dec_enc [OF wf bs, of pre post] HostDataRead
    by (auto simp: dec_pair_def read_eieio_command_message_def)
  ultimately show ?thesis by blast
next
  case PaddingRequest
  then show ?thesis by (intro short_command [of c EIEIO_EVENT_PADDING]) simp_all
next
  case EventStopRequest
  then show ?thesis by (intro short_command [of c EIEIO_EVENT_STOP]) simp_all
next
  case StopRequests
  then show ?thesis by (intro short_command [of c EIEIO_STOP_SENDING_REQUESTS]) simp_all
next
  case StartRequests
  then show ?thesis by (intro short_command [of c EIEIO_START_SENDING_REQUESTS]) simp_all
qed (use assms in simp_all)

text \<open>
  C13: the commands that survive a trip. A padding, stop, stop-sending or start-sending request, and
  every \<open>SpinnakerRequestBuffers\<close> and \<open>HostDataRead\<close> whose fields are in range (processors below 32,
  regions below 16, at most seven acknowledgements, all lists of the announced length) serialises, and
  \<open>read_eieio_command_message\<close> gives back the same command at any offset of any buffer.
\<close>
theorem eieio_command_roundtrip:
  assumes "command_wf c"
  shows "\<exists>bs. command_bytestring c = Inr bs \<and>
     (\<forall>pre post. read_eieio_command_message (pre @ bs @ post) (length pre) = Inr c)"
  using assms by (rule eieio_command_trip)

definition sample_host_data_read :: host_data_read where
  "sample_host_data_read = \<lparr>hd_n_requests = 2, hd_sequence_no = 200, hd_channel = [1, 2],
     hd_region_id = [3, 4], hd_space_read = [0xFFFFFFFF, 256]\<rparr>"

theorem eieio_command_roundtrip_witness:
  "\<exists>bs. command_bytestring (HostDataRead sample_host_data_read) = Inr bs \<and>
     read_eieio_command_message ([7] @ bs @ [9]) 1 = Inr (HostDataRead sample_host_data_read)"
proof -
  have "command_wf (HostDataRead sample_host_data_read)"
    by (simp add: host_data_read_wf_def sample_host_data_read_def)
  from eieio_command_roundtrip [OF this]
  obtain bs where b: "command_bytestring (HostDataRead sample_host_data_read) = Inr bs"
    and r: "\<forall>pre post. read_eieio_command_message (pre @ bs @ post) (length pre)
      = Inr (HostDataRead sample_host_data_read)" by blast
  show ?thesis using b r [rule_format, of "[7]" "[9]"] by (simp del: append_Cons)
qed

text \<open>
  The commands that are written but not read. Whatever follows its number, an acknowledgement of
  a read, a pause or a resume notification comes back from \<open>read_eieio_command_message\<close> as a plain
  \<open>EIEIOCommandMessage\<close> of that number, with its body (if it has one) left in the buffer, because the
  dispatcher has no case for it; and a database notification with a path raises an
  \<open>AttributeError\<close>, because the bytes of the path are given to a constructor that encodes text.
\<close>
theorem eieio_unread_commands:
  assumes "command_bytestring c = Inr bs"
  shows "(c = PauseStop \<or> c = StartResume \<or> (\<exists>s. c = HostDataReadAck s) \<longrightarrow>
       read_eieio_command_message (pre @ bs @ post) (length pre)
         = Inr (CommandMessage (command_number c) (Some (pre @ bs @ post)) (length pre + 2))) \<and>
     (\<forall>path. c = DatabaseLocation (Some path) \<and> path \<noteq> [] \<longrightarrow>
       read_eieio_command_message (pre @ bs @ post) (length pre) = Inl PyAttributeError)"
proof (intro conjI impI allI)
  assume c: "c = PauseStop \<or> c = StartResume \<or> (\<exists>s. c = HostDataReadAck s)"
  then have "command_header_wf (command_number c)" by (auto simp: command_header_wf_def)
  with c read_command_number [OF assms this]
  show "read_eieio_command_message (pre @ bs @ post) (length pre)
         = Inr (CommandMessage (command_number c) (Some (pre @ bs @ post)) (length pre + 2))"
    by (auto simp: read_eieio_command_message_def)
next
  fix path
  assume c: "c = DatabaseLocation (Some path) \<and> path \<noteq> []"
  then have wf: "command_header_wf (command_number c)"
    by (simp add: command_header_wf_def)
  have "length bs = 2 + length path"
    using assms c by (auto simp: command_bytestring_def dest: command_header.enc_width)
  then have "database_location_from_bytestring (pre @ bs @ post) (length pre + 2) = Inl PyAttributeError"
    using c by (cases path) (simp_all add: database_location_from_bytestring_def)
  then show "read_eieio_command_message (pre @ bs @ post) (length pre) = Inl PyAttributeError"
    using read_command_number [OF assms wf] c by (simp add: read_eieio_command_message_def)
qed

theorem eieio_unread_commands_witness:
  "\<exists>bs cs. command_bytestring (HostDataReadAck 5) = Inr bs \<and>
     read_eieio_command_message bs 0 = Inr (CommandMessage 12 (Some bs) 2) \<and>
     command_bytestring (DatabaseLocation (Some [0x2F, 0x61])) = Inr cs \<and>
     read_eieio_command_message cs 0 = Inl PyAttributeError"
proof -
  have a: "command_bytestring (HostDataReadAck 5) = Inr [0x0C, 0x40, 5]" by code_simp
  have b: "command_bytestring (DatabaseLocation (Some [0x2F, 0x61])) = Inr [1, 0x40, 0x2F, 0x61]" by code_simp
  show ?thesis
    using eieio_unread_commands [OF a, of "[]" "[]"] eieio_unread_commands [OF b, of "[]" "[]"] a b by simp
qed

subsection \<open>\<open>SpinnakerRequestReadData\<close>\<close>

definition request_read_data_wf :: "request_read_data \<Rightarrow> bool" where
  "request_read_data_wf r \<longleftrightarrow>
     0 \<le> rrd_x r \<and> rrd_x r < 256 \<and> 0 \<le> rrd_y r \<and> rrd_y r < 256 \<and> 0 \<le> rrd_p r \<and> rrd_p r < 32 \<and>
     1 \<le> rrd_n_requests r \<and> rrd_n_requests r \<le> 7 \<and>
     0 \<le> rrd_sequence_no r \<and> rrd_sequence_no r < 256 \<and>
     int (length (rrd_channel r)) = rrd_n_requests r \<and> int (length (rrd_region_id r)) = rrd_n_requests r \<and>
     int (length (rrd_start_address r)) = rrd_n_requests r \<and>
     int (length (rrd_space_to_be_read r)) = rrd_n_requests r \<and>
     list_all (\<lambda>v. 0 \<le> v \<and> v < 256) (rrd_channel r) \<and> list_all (\<lambda>v. 0 \<le> v \<and> v < 256) (rrd_region_id r) \<and>
     list_all (\<lambda>v. 0 \<le> v \<and> v < 2 ^ 32) (rrd_start_address r) \<and>
     list_all (\<lambda>v. 0 \<le> v \<and> v < 2 ^ 32) (rrd_space_to_be_read r)"

text \<open>The four values of part \<open>i\<close>, all in range.\<close>

lemma request_items:
  assumes "request_read_data_wf r" and "int i < rrd_n_requests r"
  shows "list_item (rrd_channel r) i = Inr (rrd_channel r ! i)"
    and "list_item (rrd_region_id r) i = Inr (rrd_region_id r ! i)"
    and "list_item (rrd_start_address r) 0 = Inr (rrd_start_address r ! 0)"
    and "list_item (rrd_space_to_be_read r) i = Inr (rrd_space_to_be_read r ! i)"
    and "list_all2 (\<lambda>f v. 0 \<le> v \<and> v < 256 ^ item_size f) [FB, FB, FI, FI]
           [rrd_channel r ! i, rrd_region_id r ! i, rrd_start_address r ! 0, rrd_space_to_be_read r ! i]"
proof -
  have "i < length (rrd_channel r)" "i < length (rrd_region_id r)" "0 < length (rrd_start_address r)"
    "i < length (rrd_space_to_be_read r)"
    using assms by (auto simp: request_read_data_wf_def)
  then show "list_item (rrd_channel r) i = Inr (rrd_channel r ! i)"
    and "list_item (rrd_region_id r) i = Inr (rrd_region_id r ! i)"
    and "list_item (rrd_start_address r) 0 = Inr (rrd_start_address r ! 0)"
    and "list_item (rrd_space_to_be_read r) i = Inr (rrd_space_to_be_read r ! i)"
    and "list_all2 (\<lambda>f v. 0 \<le> v \<and> v < 256 ^ item_size f) [FB, FB, FI, FI]
           [rrd_channel r ! i, rrd_region_id r ! i, rrd_start_address r ! 0, rrd_space_to_be_read r ! i]"
    using assms(1) by (auto simp: request_read_data_wf_def list_all_length list_item_def)
qed

lemma later_requests:
  assumes "request_read_data_wf r" and "int (Suc i + n) = rrd_n_requests r"
  shows "\<exists>bs. append_parts (read_data_part r) (Suc i) n = Inr bs \<and>
     (\<forall>pre post. read_requests n False (pre @ bs @ post) (length pre)
        = Inr (drop (Suc i) (rrd_channel r), drop (Suc i) (rrd_region_id r),
               replicate n (rrd_start_address r ! 0), drop (Suc i) (rrd_space_to_be_read r)))"
  using assms(2)
proof (induction n arbitrary: i)
  case 0
  then show ?case using assms(1) by (simp add: request_read_data_wf_def)
next
  case (Suc n)
  let ?vs = "[rrd_channel r ! Suc i, rrd_region_id r ! Suc i, rrd_start_address r ! 0, rrd_space_to_be_read r ! Suc i]"
  from Suc.prems have i: "int (Suc i) < rrd_n_requests r" and rest: "int (Suc (Suc i) + n) = rrd_n_requests r"
    by simp_all
  note items = request_items [OF assms(1) i]
  obtain a where p: "struct_pack Little [Fx, Fx, FB, FB, FI, FI] ?vs = Inr a"
    using items(5) by (simp add: struct_pack_def)
  then have a: "read_data_part r (Suc i) = Inr a" "length a = 12"
    using items by (auto simp: read_data_part_def dest!: length_struct_pack)
  obtain b where b: "append_parts (read_data_part r) (Suc (Suc i)) n = Inr b"
    and rd: "read_requests n False (pre @ b @ post) (length pre)
        = Inr (drop (Suc (Suc i)) (rrd_channel r), drop (Suc (Suc i)) (rrd_region_id r),
               replicate n (rrd_start_address r ! 0), drop (Suc (Suc i)) (rrd_space_to_be_read r))"
    for pre post
    using Suc.IH [OF rest] by blast
  have "read_requests (Suc n) False (pre @ (a @ b) @ post) (length pre)
        = Inr (drop (Suc i) (rrd_channel r), drop (Suc i) (rrd_region_id r),
               replicate (Suc n) (rrd_start_address r ! 0), drop (Suc i) (rrd_space_to_be_read r))" for pre post
  proof -
    have "Suc i < length (rrd_channel r)" "Suc i < length (rrd_region_id r)"
      "Suc i < length (rrd_space_to_be_read r)"
      using assms(1) i by (auto simp: request_read_data_wf_def)
    then show ?thesis
      using struct_unpack_pack [OF p, of pre "b @ post"] rd [of "pre @ a" post] a(2)
      by (simp add: Cons_nth_drop_Suc)
  qed
  moreover have "append_parts (read_data_part r) (Suc i) (Suc n) = Inr (a @ b)" using a(1) b by simp
  ultimately show ?case by blast
qed

lemma request_processor:
  assumes "request_read_data_wf r"
  shows "0 \<le> push_bit 3 (rrd_p r) OR rrd_n_requests r" and "push_bit 3 (rrd_p r) OR rrd_n_requests r < 256"
    and "drop_bit 3 (push_bit 3 (rrd_p r) OR rrd_n_requests r) AND 31 = rrd_p r"
    and "(push_bit 3 (rrd_p r) OR rrd_n_requests r) AND 7 = rrd_n_requests r"
proof -
  have b: "0 \<le> rrd_p r" "rrd_p r < 2 ^ 5" "0 \<le> rrd_n_requests r" "rrd_n_requests r < 2 ^ 3"
    using assms by (auto simp: request_read_data_wf_def)
  show "0 \<le> push_bit 3 (rrd_p r) OR rrd_n_requests r" and "push_bit 3 (rrd_p r) OR rrd_n_requests r < 256"
    using push_or_range [OF b] by simp_all
  show "drop_bit 3 (push_bit 3 (rrd_p r) OR rrd_n_requests r) AND 31 = rrd_p r"
    unfolding drop_bit_push_or [OF b(3,4)] using b by (simp add: bit_field take_bit_int_eq_self)
  show "(push_bit 3 (rrd_p r) OR rrd_n_requests r) AND 7 = rrd_n_requests r"
    using take_bit_push_or [OF b(3,4), of "rrd_p r"] by (simp only: bit_field)
qed

lemma request_read_data_parsed:
  assumes "struct_unpack_from Little [FB, FB, FB, FB] data off = Inr [y, x, pr, sq]"
    and "drop_bit 3 pr AND 31 = p" and "pr AND 7 = n"
    and "read_requests (nat n) True data (off + 4) = Inr (cs, gs, as, ss)"
    and "int (length cs) = n" and "int (length gs) = n" and "int (length as) = n" and "int (length ss) = n"
  shows "request_read_data_from_bytestring data off
     = Inr \<lparr>rrd_x = x, rrd_y = y, rrd_p = p, rrd_n_requests = n, rrd_sequence_no = sq, rrd_channel = cs,
            rrd_region_id = gs, rrd_start_address = as, rrd_space_to_be_read = ss\<rparr>"
  unfolding request_read_data_from_bytestring_def assms(1) bind_res_simps
  using assms(2-) by (simp add: request_read_data_init_def)

text \<open>What is read from the body of a packet with at least one request.\<close>

lemma request_read_data_reread:
  assumes wf: "request_read_data_wf r"
  shows "\<exists>bs. request_read_data_body r = Inr bs \<and>
     (\<forall>pre post. request_read_data_from_bytestring (pre @ bs @ post) (length pre)
        = Inr (r\<lparr>rrd_x := rrd_y r, rrd_y := rrd_x r,
                 rrd_start_address := replicate (nat (rrd_n_requests r)) (rrd_start_address r ! 0)\<rparr>))"
proof -
  let ?n = "rrd_n_requests r" and ?pr = "push_bit 3 (rrd_p r) OR rrd_n_requests r"
  let ?vs = "[rrd_channel r ! 0, rrd_region_id r ! 0, rrd_start_address r ! 0, rrd_space_to_be_read r ! 0]"
  obtain n where n: "nat ?n = Suc n" "int (Suc 0 + n) = ?n"
    using wf by (cases "nat ?n") (auto simp: request_read_data_wf_def)
  have "int 0 < ?n" using wf by (simp add: request_read_data_wf_def)
  note items = request_items [OF wf this]
  obtain a where a: "struct_pack Little [FB, FB] [rrd_x r, rrd_y r] = Inr a"
    using wf struct_pack_total [of "[FB, FB]" "[rrd_x r, rrd_y r]"] by (auto simp: request_read_data_wf_def)
  obtain b where b: "struct_pack Little [FB, FB] [?pr, rrd_sequence_no r] = Inr b"
    using wf request_processor(1,2) [OF wf] struct_pack_total [of "[FB, FB]" "[?pr, rrd_sequence_no r]"]
    by (auto simp: request_read_data_wf_def)
  obtain c where c: "struct_pack Little [FB, FB, FI, FI] ?vs = Inr c"
    using struct_pack_total [OF _ items(5)] by auto
  obtain d where d: "append_parts (read_data_part r) (Suc 0) n = Inr d"
    and rd: "read_requests n False (pre @ d @ post) (length pre)
        = Inr (drop (Suc 0) (rrd_channel r), drop (Suc 0) (rrd_region_id r),
               replicate n (rrd_start_address r ! 0), drop (Suc 0) (rrd_space_to_be_read r))" for pre post
    using later_requests [OF wf n(2)] by blast
  have "read_data_part r 0 = Inr (b @ c)"
    using items struct_pack_append [of "[FB, FB]" "[?pr, rrd_sequence_no r]" Little "[FB, FB, FI, FI]" ?vs] b c
    by (simp add: read_data_part_def)
  then have body: "request_read_data_body r = Inr (a @ (b @ c) @ d)"
    using a d n(1) by (simp add: request_read_data_body_def)
  have hd: "struct_pack Little [FB, FB, FB, FB] [rrd_x r, rrd_y r, ?pr, rrd_sequence_no r] = Inr (a @ b)"
    using struct_pack_append [of "[FB, FB]" "[rrd_x r, rrd_y r]" Little "[FB, FB]" "[?pr, rrd_sequence_no r]"] a b
    by simp
  have l: "length a = 2" "length b = 2" "length c = 10"
    using a b c by (auto dest!: length_struct_pack)
  have "request_read_data_from_bytestring (pre @ (a @ (b @ c) @ d) @ post) (length pre)
      = Inr (r\<lparr>rrd_x := rrd_y r, rrd_y := rrd_x r,
               rrd_start_address := replicate (nat ?n) (rrd_start_address r ! 0)\<rparr>)" for pre post
  proof -
    let ?data = "pre @ (a @ (b @ c) @ d) @ post"
    have "rrd_channel r \<noteq> []" "rrd_region_id r \<noteq> []" "rrd_space_to_be_read r \<noteq> []"
      using wf by (auto simp: request_read_data_wf_def)
    then have tl: "rrd_channel r ! 0 # drop (Suc 0) (rrd_channel r) = rrd_channel r"
      "rrd_region_id r ! 0 # drop (Suc 0) (rrd_region_id r) = rrd_region_id r"
      "rrd_space_to_be_read r ! 0 # drop (Suc 0) (rrd_space_to_be_read r) = rrd_space_to_be_read r"
      by (simp_all add: Cons_nth_drop_Suc)
    have "read_requests (Suc n) True ?data (length pre + 4)
        = Inr (rrd_channel r, rrd_region_id r, replicate (Suc n) (rrd_start_address r ! 0), rrd_space_to_be_read r)"
      using struct_unpack_pack [OF c, of "pre @ a @ b" "d @ post"] rd [of "pre @ a @ b @ c" post] l tl
      by (simp add: ac_simps)
    moreover have "struct_unpack_from Little [FB, FB, FB, FB] ?data (length pre)
        = Inr [rrd_x r, rrd_y r, ?pr, rrd_sequence_no r]"
      using struct_unpack_pack [OF hd, of pre "c @ d @ post"] by simp
    ultimately show ?thesis
      using request_read_data_parsed [OF _ request_processor(3,4) [OF wf]] n(1) wf
      by (simp add: request_read_data_wf_def)
  qed
  with body show ?thesis by blast
qed

subsection \<open>Properties of the packets that change on the way\<close>

lemma command_with_body:
  assumes "command_body c = Inr b" and "command_header_wf (command_number c)"
  shows "\<exists>h. command_bytestring c = Inr (h @ b) \<and> length h = 2 \<and>
     (\<forall>pre post. command_header_from_bytestring (pre @ (h @ b) @ post) (length pre) = Inr (command_number c))"
proof -
  obtain h where h: "command_header_bytestring (command_number c) = Inr h"
    using command_header.enc_total [OF assms(2)] by blast
  then have "command_bytestring c = Inr (h @ b)" using assms(1) by (simp add: command_bytestring_def)
  with read_command_number [OF this assms(2)] command_header.enc_width [OF h] show ?thesis by blast
qed

text \<open>
  C14: a \<open>SpinnakerRequestReadData\<close> packet is not read back as it was written. For one to seven requests
  with every field in range, the packet serialises and is read as a command of the same class in
  which \<open>x\<close> and \<open>y\<close> are exchanged and every start address is that of the first request; all other
  fields survive. So it comes back unchanged exactly when the chip is on the diagonal and all its
  requests start at the same address.
\<close>
theorem request_read_data_changed:
  assumes "request_read_data_wf r"
  shows "\<exists>bs r'. command_bytestring (RequestReadData r) = Inr bs \<and>
     (\<forall>pre post. read_eieio_command_message (pre @ bs @ post) (length pre) = Inr (RequestReadData r')) \<and>
     r' = r\<lparr>rrd_x := rrd_y r, rrd_y := rrd_x r,
            rrd_start_address := replicate (nat (rrd_n_requests r)) (rrd_start_address r ! 0)\<rparr> \<and>
     (r' = r \<longleftrightarrow> rrd_x r = rrd_y r \<and> (\<forall>a \<in> set (rrd_start_address r). a = rrd_start_address r ! 0))"
proof -
  let ?r = "r\<lparr>rrd_x := rrd_y r, rrd_y := rrd_x r,
            rrd_start_address := replicate (nat (rrd_n_requests r)) (rrd_start_address r ! 0)\<rparr>"
  obtain b where b: "request_read_data_body r = Inr b"
    and rd: "\<And>pre post. request_read_data_from_bytestring (pre @ b @ post) (length pre) = Inr ?r"
    using request_read_data_reread [OF assms] by blast
  have "command_header_wf (command_number (RequestReadData r))" by (simp add: command_header_wf_def)
  from command_with_body [OF _ this] b obtain h where bs: "command_bytestring (RequestReadData r) = Inr (h @ b)"
    and h: "length h = 2"
    and hd: "\<And>pre post. command_header_from_bytestring (pre @ (h @ b) @ post) (length pre) = Inr 8"
    by auto
  have "read_eieio_command_message (pre @ (h @ b) @ post) (length pre) = Inr (RequestReadData ?r)" for pre post
    using rd [of "pre @ h" post] h
    unfolding read_eieio_command_message_def hd bind_res_simps by simp
  moreover have "?r = r \<longleftrightarrow> rrd_x r = rrd_y r \<and> (\<forall>a \<in> set (rrd_start_address r). a = rrd_start_address r ! 0)"
  proof -
    have "int (length (rrd_start_address r)) = rrd_n_requests r"
      using assms by (simp add: request_read_data_wf_def)
    then have "length (rrd_start_address r) = nat (rrd_n_requests r)" by linarith
    then have "replicate (nat (rrd_n_requests r)) (rrd_start_address r ! 0) = rrd_start_address r
        \<longleftrightarrow> (\<forall>a \<in> set (rrd_start_address r). a = rrd_start_address r ! 0)"
      by (metis in_set_replicate replicate_eqI)
    moreover have "?r = r \<longleftrightarrow> rrd_y r = rrd_x r \<and>
        replicate (nat (rrd_n_requests r)) (rrd_start_address r ! 0) = rrd_start_address r"
      by (cases r) auto
    ultimately show ?thesis by auto
  qed
  ultimately show ?thesis using bs by blast
qed

definition sample_request_read_data :: request_read_data where
  "sample_request_read_data = \<lparr>rrd_x = 1, rrd_y = 2, rrd_p = 17, rrd_n_requests = 2, rrd_sequence_no = 9,
     rrd_channel = [1, 2], rrd_region_id = [3, 4], rrd_start_address = [0x60000000, 0x60000100],
     rrd_space_to_be_read = [256, 16]\<rparr>"

theorem request_read_data_changed_witness:
  "\<exists>bs. command_bytestring (RequestReadData sample_request_read_data) = Inr bs \<and>
     read_eieio_command_message bs 0 = Inr (RequestReadData
       (sample_request_read_data\<lparr>rrd_x := 2, rrd_y := 1, rrd_start_address := [0x60000000, 0x60000000]\<rparr>))"
proof -
  have "request_read_data_wf sample_request_read_data"
    by (simp add: request_read_data_wf_def sample_request_read_data_def)
  from request_read_data_changed [OF this] obtain bs where
    bs: "command_bytestring (RequestReadData sample_request_read_data) = Inr bs"
    and r: "\<And>pre post. read_eieio_command_message (pre @ bs @ post) (length pre) = Inr (RequestReadData
      (sample_request_read_data\<lparr>rrd_x := rrd_y sample_request_read_data, rrd_y := rrd_x sample_request_read_data,
        rrd_start_address := replicate (nat (rrd_n_requests sample_request_read_data))
          (rrd_start_address sample_request_read_data ! 0)\<rparr>))"
    by blast
  show ?thesis using bs r [of "[]" "[]"]
    by (simp add: sample_request_read_data_def numeral_2_eq_2)
qed

text \<open>
  C15: the data inside a \<open>HostSendSequencedData\<close> packet is read from the wrong place. Whenever such a packet
  is accepted by \<open>read_eieio_command_message\<close>, its region and sequence number are right, but the
  EIEIO data header is read from those same two bytes: the number of elements is the region, and
  the tag is the two low bits of the sequence number.
\<close>
theorem host_send_sequenced_data_misread:
  assumes "command_bytestring (HostSendSequencedData region sq m) = Inr bs"
    and "read_eieio_command_message (pre @ bs @ post) (length pre) = Inr c"
  shows "\<exists>m'. c = HostSendSequencedData region sq m' \<and>
     edh_count (edm_header m') = region \<and> edh_tag (edm_header m') = sq AND 3"
proof -
  have wf: "command_header_wf (command_number (HostSendSequencedData region sq m))"
    by (simp add: command_header_wf_def)
  have hd: "command_header_from_bytestring (pre @ bs @ post) (length pre) = Inr 7"
    using read_command_number [OF assms(1) wf] by simp
  obtain h a b where h: "command_header_bytestring 7 = Inr h"
    and a: "struct_pack Little [FB, FB] [region, sq] = Inr a" and bs: "bs = h @ a @ b"
    using assms(1) by (auto simp: command_bytestring_def)
  have "length h = 2" using h by (rule command_header.enc_width)
  then have u: "struct_unpack_from Little [FB, FB] (pre @ bs @ post) (length pre + 2) = Inr [region, sq]"
    using struct_unpack_pack [OF a, of "pre @ h" "b @ post"] bs by simp
  have "host_send_sequenced_data_from_bytestring (pre @ bs @ post) (length pre + 2) = Inr c"
    using assms(2) unfolding read_eieio_command_message_def hd bind_res_simps by simp
  then obtain m' where c: "c = HostSendSequencedData region sq m'"
    and m': "read_eieio_data_message (pre @ bs @ post) (length pre + 2) = Inr m'"
    unfolding host_send_sequenced_data_from_bytestring_def u bind_res_simps by auto
  then obtain h' where "eieio_data_header_from_bytestring (pre @ bs @ post) (length pre + 2) = Inr h'"
    and h': "h' = edm_header m'"
    by (auto simp: read_eieio_data_message_def eieio_data_message_init_def)
  then have "edh_count (edm_header m') = region \<and> edh_tag (edm_header m') = sq AND 3"
    unfolding eieio_data_header_from_bytestring_def u bind_res_simps h'
    by (auto simp: Let_def dest!: sym [of _ "edm_header m'"] split: if_splits)
  with c show ?thesis by blast
qed

theorem host_send_sequenced_data_misread_witness:
  "\<exists>m bs m'. add_key 0x1111 (eieio_create KEY_16_BIT 0 None 0 None None None LOWER_HALF_WORD) = Inr m \<and>
     edh_count (edm_header m) = 1 \<and>
     command_bytestring (HostSendSequencedData 5 2 m) = Inr bs \<and>
     read_eieio_command_message bs 0 = Inr (HostSendSequencedData 5 2 m') \<and>
     edh_count (edm_header m') = 5"
proof -
  let ?m = "(eieio_create KEY_16_BIT 0 None 0 None None None LOWER_HALF_WORD)
    \<lparr>edm_elements := [0x11, 0x11], edm_header := (edm_header
      (eieio_create KEY_16_BIT 0 None 0 None None None LOWER_HALF_WORD))\<lparr>edh_count := 1\<rparr>\<rparr>"
  have m: "add_key 0x1111 (eieio_create KEY_16_BIT 0 None 0 None None None LOWER_HALF_WORD) = Inr ?m"
    by code_simp
  have b: "command_bytestring (HostSendSequencedData 5 2 ?m) = Inr [7, 0x40, 5, 2, 1, 0, 0x11, 0x11]"
    by code_simp
  have "(case read_eieio_command_message ([] @ [7, 0x40, 5, 2, 1, 0, 0x11, 0x11] @ []) (length ([] :: bytes)) of
      Inr c \<Rightarrow> True | Inl e \<Rightarrow> False)" by code_simp
  then obtain c where c: "read_eieio_command_message ([] @ [7, 0x40, 5, 2, 1, 0, 0x11, 0x11] @ [])
      (length ([] :: bytes)) = Inr c"
    by (auto split: sum.splits)
  from host_send_sequenced_data_misread [OF b c] m b c show ?thesis by fastforce
qed

end
