(* ===== verification/MachineData.thy ===== *)
theory MachineData
  imports Enums "HOL-Library.AList"
begin

text \<open>
  What is read from the memory of a machine: the point-to-point routing table (\<open>model/p2p_table.py\<close>),
  router diagnostics and their filters (\<open>model/router_diagnostics.py\<close>, \<open>model/diagnostic_filter.py\<close>)
  and heap blocks (\<open>model/heap_element.py\<close>).
\<close>

subsection \<open>\<open>P2PTable\<close>\<close>

record p2p_table =
  p2p_routes :: "((int \<times> int) \<times> p2p_table_route) list"
  p2p_width :: int
  p2p_height :: int

text \<open>The inner loop: up to eight entries of one word, from the one numbered \<open>entry\<close> on.\<close>

fun p2p_word_entries ::
  "int \<Rightarrow> int \<Rightarrow> nat \<Rightarrow> nat \<Rightarrow> int \<Rightarrow> ((int \<times> int) \<times> p2p_table_route) list \<Rightarrow>
     ((int \<times> int) \<times> p2p_table_route) list res" where
  "p2p_word_entries x next_word entry 0 y routes = Inr routes"
| "p2p_word_entries x next_word entry (Suc n) y routes =
     bind_res (enum_of p2p_table_route_members p2p_table_route_value
                 (drop_bit (3 * entry) next_word AND 7)) (\<lambda>route.
       p2p_word_entries x next_word (Suc entry) n (y + 1)
         (if route \<noteq> P2P_NONE then AList.update (x, y) route routes else routes))"

text \<open>The outer loop over the words of a column; \<open>y\<close> grows by the entries of the word.\<close>

function p2p_column ::
  "int \<Rightarrow> int \<Rightarrow> bytes \<Rightarrow> nat \<Rightarrow> int \<Rightarrow> nat \<Rightarrow> ((int \<times> int) \<times> p2p_table_route) list \<Rightarrow>
     ((int \<times> int) \<times> p2p_table_route) list res" where
  "p2p_column height x data offset y pos routes =
     (if y < height then
        bind_res (struct_unpack_from Little [FI] data (offset + pos * 4)) (\<lambda>vs. case vs of
          [next_word] \<Rightarrow>
            let n = min 8 (height - y)
            in bind_res (p2p_word_entries x next_word 0 (nat n) y routes)
                 (p2p_column height x data offset (y + n) (pos + 1))
        | _ \<Rightarrow> Inl PyValueError)
      else Inr routes)"
  by pat_completeness auto
termination
  by (relation "measure (\<lambda>(height, x, data, offset, y, pos, routes). nat (height - y))") auto

declare p2p_column.simps [simp del]

fun p2p_columns ::
  "int \<Rightarrow> int \<Rightarrow> (bytes \<times> nat) list \<Rightarrow> ((int \<times> int) \<times> p2p_table_route) list \<Rightarrow>
     ((int \<times> int) \<times> p2p_table_route) list res" where
  "p2p_columns height x [] routes = Inr routes"
| "p2p_columns height x ((data, offset) # columns) routes =
     bind_res (p2p_column height x data offset 0 0 routes) (p2p_columns height (x + 1) columns)"

definition p2p_table_init :: "int \<Rightarrow> int \<Rightarrow> (bytes \<times> nat) list \<Rightarrow> p2p_table res" where
  "p2p_table_init width height column_data =
     bind_res (p2p_columns height 0 column_data []) (\<lambda>routes.
       Inr \<lparr>p2p_routes = routes, p2p_width = width, p2p_height = height\<rparr>)"

definition get_n_column_bytes :: "int \<Rightarrow> int" where
  "get_n_column_bytes height = (height + 7) div 8 * 4"

definition get_column_offset :: "int \<Rightarrow> int" where
  "get_column_offset column = 256 * column div 8 * 4"

definition iterchips :: "p2p_table \<Rightarrow> (int \<times> int) list" where
  "iterchips t = map fst (p2p_routes t)"

definition get_route :: "p2p_table \<Rightarrow> int \<Rightarrow> int \<Rightarrow> p2p_table_route" where
  "get_route t x y = (case map_of (p2p_routes t) (x, y) of Some r \<Rightarrow> r | None \<Rightarrow> P2P_NONE)"

definition is_route :: "p2p_table \<Rightarrow> int \<Rightarrow> int \<Rightarrow> bool" where
  "is_route t x y \<longleftrightarrow> (case map_of (p2p_routes t) (x, y) of Some r \<Rightarrow> r \<noteq> P2P_NONE | None \<Rightarrow> False)"

definition n_routes :: "p2p_table \<Rightarrow> int" where
  "n_routes t = int (length (p2p_routes t))"

subsection \<open>\<open>DiagnosticFilter\<close>\<close>

definition PACKET_TYPE_OFFSET :: int where "PACKET_TYPE_OFFSET = 0"
definition EMERGENCY_ROUTE_OFFSET :: int where "EMERGENCY_ROUTE_OFFSET = 4"
definition EMERGENCY_ROUTE_MODE_OFFSET :: int where "EMERGENCY_ROUTE_MODE_OFFSET = 8"
definition DEFAULT_ROUTE_OFFSET :: int where "DEFAULT_ROUTE_OFFSET = 10"
definition PAYLOAD_OFFSET :: int where "PAYLOAD_OFFSET = 12"
definition SOURCE_OFFSET :: int where "SOURCE_OFFSET = 14"
definition DESTINATION_OFFSET :: int where "DESTINATION_OFFSET = 16"
definition ENABLE_INTERRUPT_OFFSET :: int where "ENABLE_INTERRUPT_OFFSET = 30"

lemmas filter_offsets =
  PACKET_TYPE_OFFSET_def EMERGENCY_ROUTE_OFFSET_def EMERGENCY_ROUTE_MODE_OFFSET_def
  DEFAULT_ROUTE_OFFSET_def PAYLOAD_OFFSET_def SOURCE_OFFSET_def DESTINATION_OFFSET_def
  ENABLE_INTERRUPT_OFFSET_def

text \<open>An empty or absent list stands for all members of the enumeration.\<close>

definition set_flags_in_word :: "int \<Rightarrow> 'e list option \<Rightarrow> 'e list \<Rightarrow> ('e \<Rightarrow> int) \<Rightarrow> int \<Rightarrow> int" where
  "set_flags_in_word word enum_list members val offset =
     (let enum_values0 = (case enum_list of None \<Rightarrow> [] | Some es \<Rightarrow> es);
          enum_values = (if enum_values0 = [] then members else enum_values0)
      in foldl (\<lambda>w e. w OR push_bit (nat (val e + offset)) 1) word enum_values)"

definition read_flags_from_word :: "int \<Rightarrow> 'e list \<Rightarrow> ('e \<Rightarrow> int) \<Rightarrow> int \<Rightarrow> 'e list" where
  "read_flags_from_word word members val offset =
     filter (\<lambda>e. word AND push_bit (nat (val e + offset)) 1 \<noteq> 0) members"

record diagnostic_filter =
  df_enable_interrupt_on_counter_event :: bool
  df_match_emergency :: bool
  df_destinations :: "df_destination list option"
  df_sources :: "df_source list option"
  df_payload_statuses :: "df_payload_status list option"
  df_default_routing_statuses :: "df_default_status list option"
  df_emergency_routing_statuses :: "df_emergency_status list option"
  df_packet_types :: "df_packet_type list option"

definition filter_word :: "diagnostic_filter \<Rightarrow> int" where
  "filter_word f =
     (let data0 = 0;
          data1 = (if df_enable_interrupt_on_counter_event f
                   then data0 OR push_bit (nat ENABLE_INTERRUPT_OFFSET) 1 else data0);
          data2 = (if \<not> df_match_emergency f
                   then data1 OR push_bit (nat EMERGENCY_ROUTE_MODE_OFFSET) 1 else data1);
          data3 = set_flags_in_word data2 (df_destinations f)
                    df_destination_members df_destination_value DESTINATION_OFFSET;
          data4 = set_flags_in_word data3 (df_sources f) df_source_members df_source_value SOURCE_OFFSET;
          data5 = set_flags_in_word data4 (df_payload_statuses f)
                    df_payload_status_members df_payload_status_value PAYLOAD_OFFSET;
          data6 = set_flags_in_word data5 (df_default_routing_statuses f)
                    df_default_status_members df_default_status_value DEFAULT_ROUTE_OFFSET;
          data7 = set_flags_in_word data6 (df_emergency_routing_statuses f)
                    df_emergency_status_members df_emergency_status_value EMERGENCY_ROUTE_OFFSET
      in set_flags_in_word data7 (df_packet_types f)
           df_packet_type_members df_packet_type_value PACKET_TYPE_OFFSET)"

definition read_from_int :: "int \<Rightarrow> diagnostic_filter" where
  "read_from_int v =
     \<lparr>df_enable_interrupt_on_counter_event = (drop_bit (nat ENABLE_INTERRUPT_OFFSET) v AND 1 = 1),
      df_match_emergency = (drop_bit (nat EMERGENCY_ROUTE_MODE_OFFSET) v AND 1 = 0),
      df_destinations = Some (read_flags_from_word v
        df_destination_members df_destination_value DESTINATION_OFFSET),
      df_sources = Some (read_flags_from_word v df_source_members df_source_value SOURCE_OFFSET),
      df_payload_statuses = Some (read_flags_from_word v
        df_payload_status_members df_payload_status_value PAYLOAD_OFFSET),
      df_default_routing_statuses = Some (read_flags_from_word v
        df_default_status_members df_default_status_value DEFAULT_ROUTE_OFFSET),
      df_emergency_routing_statuses = Some (read_flags_from_word v
        df_emergency_status_members df_emergency_status_value EMERGENCY_ROUTE_OFFSET),
      df_packet_types = Some (read_flags_from_word v
        df_packet_type_members df_packet_type_value PACKET_TYPE_OFFSET)\<rparr>"

subsection \<open>\<open>RouterDiagnostics\<close>\<close>

record router_diagnostics =
  rd_mon :: int
  rd_wait_1 :: int
  rd_wait_2 :: int
  rd_error_status :: int
  rd_register_values :: "int list"

definition router_diagnostics_init :: "int \<Rightarrow> int \<Rightarrow> int list \<Rightarrow> router_diagnostics res" where
  "router_diagnostics_init control_register error_status register_values =
     (if length register_values \<noteq> 16 then Inl (InvalidParameter ''len(register_values)'')
      else Inr \<lparr>rd_mon = drop_bit 8 control_register AND 0x1F,
                rd_wait_1 = drop_bit 16 control_register AND 0xFF,
                rd_wait_2 = drop_bit 24 control_register AND 0xFF,
                rd_error_status = error_status, rd_register_values = register_values\<rparr>)"

definition error_count :: "router_diagnostics \<Rightarrow> int" where
  "error_count d = rd_error_status d AND 0xFF"

definition errors_set :: "router_diagnostics \<Rightarrow> router_error list" where
  "errors_set d = filter (\<lambda>e. router_error_value e AND rd_error_status d \<noteq> 0) router_error_members"

text \<open>The counters: each property reads the register of its name.\<close>

abbreviation router_register :: "router_register_registers \<Rightarrow> router_diagnostics \<Rightarrow> int" where
  "router_register r d \<equiv> rd_register_values d ! nat (router_register_registers_value r)"

definition n_local_multicast_packets :: "router_diagnostics \<Rightarrow> int" where
  "n_local_multicast_packets d = router_register REG_LOC_MC d"

definition n_external_multicast_packets :: "router_diagnostics \<Rightarrow> int" where
  "n_external_multicast_packets d = router_register REG_EXT_MC d"

definition n_dropped_multicast_packets :: "router_diagnostics \<Rightarrow> int" where
  "n_dropped_multicast_packets d = router_register REG_DUMP_MC d"

definition n_local_peer_to_peer_packets :: "router_diagnostics \<Rightarrow> int" where
  "n_local_peer_to_peer_packets d = router_register REG_LOC_PP d"

definition n_external_peer_to_peer_packets :: "router_diagnostics \<Rightarrow> int" where
  "n_external_peer_to_peer_packets d = router_register REG_EXT_PP d"

definition n_dropped_peer_to_peer_packets :: "router_diagnostics \<Rightarrow> int" where
  "n_dropped_peer_to_peer_packets d = router_register REG_DUMP_PP d"

definition n_local_nearest_neighbour_packets :: "router_diagnostics \<Rightarrow> int" where
  "n_local_nearest_neighbour_packets d = router_register REG_LOC_NN d"

definition n_external_nearest_neighbour_packets :: "router_diagnostics \<Rightarrow> int" where
  "n_external_nearest_neighbour_packets d = router_register REG_EXT_NN d"

definition n_dropped_nearest_neighbour_packets :: "router_diagnostics \<Rightarrow> int" where
  "n_dropped_nearest_neighbour_packets d = router_register REG_DUMP_NN d"

definition n_local_fixed_route_packets :: "router_diagnostics \<Rightarrow> int" where
  "n_local_fixed_route_packets d = router_register REG_LOC_FR d"

definition n_external_fixed_route_packets :: "router_diagnostics \<Rightarrow> int" where
  "n_external_fixed_route_packets d = router_register REG_EXT_FR d"

definition n_dropped_fixed_route_packets :: "router_diagnostics \<Rightarrow> int" where
  "n_dropped_fixed_route_packets d = router_register REG_DUMP_FR d"

definition router_user_0 :: "router_diagnostics \<Rightarrow> int" where
  "router_user_0 d = router_register REG_USER_0 d"

definition router_user_1 :: "router_diagnostics \<Rightarrow> int" where
  "router_user_1 d = router_register REG_USER_1 d"

definition router_user_2 :: "router_diagnostics \<Rightarrow> int" where
  "router_user_2 d = router_register REG_USER_2 d"

definition router_user_3 :: "router_diagnostics \<Rightarrow> int" where
  "router_user_3 d = router_register REG_USER_3 d"

definition user_registers :: "router_diagnostics \<Rightarrow> int list" where
  "user_registers d = slice (nat (router_register_registers_value REG_USER_0))
     (nat (router_register_registers_value REG_USER_3) + 1) (rd_register_values d)"

subsection \<open>\<open>HeapElement\<close>\<close>

record heap_element =
  he_block_address :: int
  he_next_address :: int
  he_is_free :: bool
  he_tag :: "int option"
  he_app_id :: "int option"

definition heap_element_init :: "int \<Rightarrow> int \<Rightarrow> int \<Rightarrow> heap_element" where
  "heap_element_init block_address next_address free =
     (let is_free = (free AND 0xFFFF0000) \<noteq> 0xFFFF0000
      in \<lparr>he_block_address = block_address, he_next_address = next_address, he_is_free = is_free,
          he_tag = (if is_free then None else Some (free AND 0xFF)),
          he_app_id = (if is_free then None else Some (drop_bit 8 free AND 0xFF))\<rparr>)"

definition heap_element_size :: "heap_element \<Rightarrow> int" where
  "heap_element_size e = he_next_address e - he_block_address e - 8"

end
