(* ===== verification/MachineDataProps.thy ===== *)
theory MachineDataProps
  imports MachineData
begin

text \<open>
  The point-to-point table holds exactly the routes of the packed columns, and a diagnostic filter
  survives the trip through its control word.
\<close>

subsection \<open>Point-to-point routes\<close>

definition route_at :: "int \<Rightarrow> nat \<Rightarrow> p2p_table_route" where
  "route_at w i = (case enum_lookup p2p_table_route_members p2p_table_route_value (drop_bit (3 * i) w AND 7) of
      Some r \<Rightarrow> r | None \<Rightarrow> P2P_NONE)"

text \<open>The reference: entry \<open>y\<close> of a column is three bits of the word \<open>y div 8\<close>.\<close>

definition p2p_entry :: "bytes \<Rightarrow> nat \<Rightarrow> nat \<Rightarrow> p2p_table_route" where
  "p2p_entry data offset y = route_at (le_val (take 4 (drop (offset + 4 * (y div 8)) data))) (y mod 8)"

lemma route_value_cases:
  "0 \<le> v \<Longrightarrow> v < 8 \<Longrightarrow> \<exists>r. enum_lookup p2p_table_route_members p2p_table_route_value v = Some r"
proof -
  assume "0 \<le> v" "v < 8"
  then have "v \<in> {0, 1, 2, 3, 4, 5, 6, 7}" by auto
  then show ?thesis by (auto simp: enum_lookup_def p2p_table_route_members_def)
qed

lemma enum_route_at:
  "enum_of p2p_table_route_members p2p_table_route_value (drop_bit (3 * i) w AND 7) = Inr (route_at w i)"
proof -
  have "0 \<le> drop_bit (3 * i) w AND 7" "drop_bit (3 * i) w AND 7 < 8"
    using take_bit_int_range [of 3 "drop_bit (3 * i) w"] by (simp_all add: bit_field)
  then obtain r where "enum_lookup p2p_table_route_members p2p_table_route_value (drop_bit (3 * i) w AND 7) = Some r"
    using route_value_cases by blast
  then show ?thesis by (simp add: enum_of_def route_at_def)
qed

text \<open>A dictionary of routes to which the entries \<open>f\<close> of a region have been added.\<close>

definition added ::
  "(int \<times> int \<Rightarrow> bool) \<Rightarrow> (int \<times> int \<Rightarrow> p2p_table_route) \<Rightarrow>
     ((int \<times> int) \<times> p2p_table_route) list \<Rightarrow> ((int \<times> int) \<times> p2p_table_route) list \<Rightarrow> bool" where
  "added R f routes routes' \<longleftrightarrow> (distinct (map fst routes) \<longrightarrow> distinct (map fst routes')) \<and>
     (\<forall>k. map_of routes' k = (if R k \<and> f k \<noteq> P2P_NONE then Some (f k) else map_of routes k))"

lemma added_trans:
  "added R f a b \<Longrightarrow> added S g b c \<Longrightarrow> (\<And>k. R k \<Longrightarrow> S k \<Longrightarrow> f k = g k) \<Longrightarrow>
     added (\<lambda>k. R k \<or> S k) (\<lambda>k. if S k then g k else f k) a c"
  by (auto simp: added_def)

lemma added_cong:
  "added R f a b \<Longrightarrow> (\<And>k. R k \<longleftrightarrow> S k) \<Longrightarrow> (\<And>k. R k \<Longrightarrow> f k = g k) \<Longrightarrow> added S g a b"
  by (auto simp: added_def)

lemma added_none: "(\<And>k. \<not> R k) \<Longrightarrow> added R f a a"
  by (auto simp: added_def)

lemma added_one: "added (\<lambda>k. k = j) (\<lambda>k. r) routes (if r \<noteq> P2P_NONE then AList.update j r routes else routes)"
  by (auto simp: added_def distinct_update update_conv)

lemma word_entries_added:
  "\<exists>routes'. p2p_word_entries x w entry n y routes = Inr routes' \<and>
     added (\<lambda>k. fst k = x \<and> y \<le> snd k \<and> snd k < y + int n)
       (\<lambda>k. route_at w (entry + nat (snd k - y))) routes routes'"
proof (induction n arbitrary: entry y routes)
  case 0
  show ?case by (auto intro: added_none)
next
  case (Suc n)
  let ?routes = "if route_at w entry \<noteq> P2P_NONE then AList.update (x, y) (route_at w entry) routes else routes"
  obtain routes' where r: "p2p_word_entries x w (Suc entry) n (y + 1) ?routes = Inr routes'"
    and a: "added (\<lambda>k. fst k = x \<and> y + 1 \<le> snd k \<and> snd k < y + 1 + int n)
       (\<lambda>k. route_at w (Suc entry + nat (snd k - (y + 1)))) ?routes routes'"
    using Suc by blast
  have "added (\<lambda>k. fst k = x \<and> y \<le> snd k \<and> snd k < y + int (Suc n))
       (\<lambda>k. route_at w (entry + nat (snd k - y))) routes routes'"
  proof (rule added_cong [OF added_trans [OF added_one a]])
    fix k :: "int \<times> int"
    show "(k = (x, y) \<or> fst k = x \<and> y + 1 \<le> snd k \<and> snd k < y + 1 + int n) \<longleftrightarrow>
        fst k = x \<and> y \<le> snd k \<and> snd k < y + int (Suc n)"
      by (cases k) auto
    assume k: "k = (x, y) \<or> fst k = x \<and> y + 1 \<le> snd k \<and> snd k < y + 1 + int n"
    show "(if fst k = x \<and> y + 1 \<le> snd k \<and> snd k < y + 1 + int n
        then route_at w (Suc entry + nat (snd k - (y + 1))) else route_at w entry) =
        route_at w (entry + nat (snd k - y))"
    proof (cases "y + 1 \<le> snd k")
      case True
      then have "Suc entry + nat (snd k - (y + 1)) = entry + nat (snd k - y)" by linarith
      then have "route_at w (Suc entry + nat (snd k - (y + 1))) = route_at w (entry + nat (snd k - y))"
        by (rule arg_cong)
      then show ?thesis using True k by auto
    qed (use k in auto)
  qed auto
  then show ?case using r by (auto simp: enum_route_at)
qed

lemma column_added:
  assumes "offset + nat (get_n_column_bytes height) \<le> length data"
    and "y = int (8 * pos) \<or> height \<le> y"
  shows "\<exists>routes'. p2p_column height x data offset y pos routes = Inr routes' \<and>
     added (\<lambda>k. fst k = x \<and> y \<le> snd k \<and> snd k < height)
       (\<lambda>k. p2p_entry data offset (nat (snd k))) routes routes'"
  using assms
proof (induction height x data offset y pos routes rule: p2p_column.induct)
  case (1 height x data offset y pos routes)
  show ?case
  proof (cases "y < height")
    case False
    then show ?thesis by (auto simp: p2p_column.simps intro!: added_none)
  next
    case True
    then have y: "y = int (8 * pos)" using "1.prems"(2) by simp
    let ?n = "min 8 (height - y)" and ?w = "le_val (take 4 (drop (offset + pos * 4) data))"
    have "(8 * (int pos + 1)) div 8 \<le> (height + 7) div 8"
      using True y by (intro zdiv_mono1) auto
    then have "int pos * 4 + 4 \<le> get_n_column_bytes height"
      unfolding get_n_column_bytes_def by simp
    then have "offset + pos * 4 + 4 \<le> length data" using "1.prems"(1) by linarith
    then have word: "struct_unpack_from Little [FI] data (offset + pos * 4) = Inr [?w]"
      by (simp add: struct_unpack_from_def unpack_from_def as_int_def order_bytes_def)
    obtain r1 where r1: "p2p_word_entries x ?w 0 (nat ?n) y routes = Inr r1"
      and a1: "added (\<lambda>k. fst k = x \<and> y \<le> snd k \<and> snd k < y + int (nat ?n))
        (\<lambda>k. route_at ?w (0 + nat (snd k - y))) routes r1"
      using word_entries_added [of x ?w 0 "nat ?n" y routes] by blast
    have "y + ?n = int (8 * (pos + 1)) \<or> height \<le> y + ?n" using y by auto
    from "1.IH" [OF True _ "1.prems"(1) this, of r1]
    obtain r2 where r2: "p2p_column height x data offset (y + ?n) (pos + 1) r1 = Inr r2"
      and a2: "added (\<lambda>k. fst k = x \<and> y + ?n \<le> snd k \<and> snd k < height)
        (\<lambda>k. p2p_entry data offset (nat (snd k))) r1 r2"
      by blast
    have "added (\<lambda>k. fst k = x \<and> y \<le> snd k \<and> snd k < height)
       (\<lambda>k. p2p_entry data offset (nat (snd k))) routes r2"
    proof (rule added_cong [OF added_trans [OF a1 a2]])
      fix k :: "int \<times> int"
      show "(fst k = x \<and> y \<le> snd k \<and> snd k < y + int (nat ?n) \<or>
          fst k = x \<and> y + ?n \<le> snd k \<and> snd k < height) \<longleftrightarrow> fst k = x \<and> y \<le> snd k \<and> snd k < height"
        using True by auto
      assume k: "fst k = x \<and> y \<le> snd k \<and> snd k < y + int (nat ?n) \<or>
          fst k = x \<and> y + ?n \<le> snd k \<and> snd k < height"
      show "(if fst k = x \<and> y + ?n \<le> snd k \<and> snd k < height then p2p_entry data offset (nat (snd k))
          else route_at ?w (0 + nat (snd k - y))) = p2p_entry data offset (nat (snd k))"
      proof (cases "y + ?n \<le> snd k")
        case False
        then have "y \<le> snd k" "snd k < y + 8" using k by auto
        define j where "j = nat (snd k - y)"
        have j: "snd k = int (8 * pos + j)" and "j < 8"
          using \<open>y \<le> snd k\<close> \<open>snd k < y + 8\<close> y by (simp_all add: j_def)
        have "nat (snd k) = 8 * pos + j" using j by simp
        then have "nat (snd k) div 8 = pos" "nat (snd k) mod 8 = nat (snd k - y)"
          using \<open>j < 8\<close> by (simp_all add: j_def)
        then show ?thesis using False by (simp add: p2p_entry_def mult.commute)
      qed (use k \<open>y < height\<close> in auto)
    qed auto
    then show ?thesis using True word r1 r2 by (subst p2p_column.simps) (simp add: Let_def)
  qed
qed

lemma columns_added:
  assumes "\<forall>(data, offset) \<in> set columns. offset + nat (get_n_column_bytes height) \<le> length data"
  shows "\<exists>routes'. p2p_columns height x columns routes = Inr routes' \<and>
     added (\<lambda>k. x \<le> fst k \<and> fst k < x + int (length columns) \<and> 0 \<le> snd k \<and> snd k < height)
       (\<lambda>k. case columns ! nat (fst k - x) of (data, offset) \<Rightarrow> p2p_entry data offset (nat (snd k)))
       routes routes'"
  using assms
proof (induction columns arbitrary: x routes)
  case Nil
  show ?case by (auto intro: added_none)
next
  case (Cons c columns)
  obtain data offset where c: "c = (data, offset)" by (cases c)
  have l: "offset + nat (get_n_column_bytes height) \<le> length data" using Cons.prems c by simp
  obtain r1 where r1: "p2p_column height x data offset 0 0 routes = Inr r1"
    and a1: "added (\<lambda>k. fst k = x \<and> 0 \<le> snd k \<and> snd k < height)
      (\<lambda>k. p2p_entry data offset (nat (snd k))) routes r1"
    using column_added [OF l, of 0 0 x routes] by auto
  obtain r2 where r2: "p2p_columns height (x + 1) columns r1 = Inr r2"
    and a2: "added (\<lambda>k. x + 1 \<le> fst k \<and> fst k < x + 1 + int (length columns) \<and> 0 \<le> snd k \<and> snd k < height)
       (\<lambda>k. case columns ! nat (fst k - (x + 1)) of (data, offset) \<Rightarrow> p2p_entry data offset (nat (snd k))) r1 r2"
    using Cons.IH [of "x + 1" r1] Cons.prems by auto
  have "added (\<lambda>k. x \<le> fst k \<and> fst k < x + int (length (c # columns)) \<and> 0 \<le> snd k \<and> snd k < height)
       (\<lambda>k. case (c # columns) ! nat (fst k - x) of (data, offset) \<Rightarrow> p2p_entry data offset (nat (snd k)))
       routes r2"
  proof (rule added_cong [OF added_trans [OF a1 a2]])
    fix k :: "int \<times> int"
    show "(fst k = x \<and> 0 \<le> snd k \<and> snd k < height \<or>
        x + 1 \<le> fst k \<and> fst k < x + 1 + int (length columns) \<and> 0 \<le> snd k \<and> snd k < height) \<longleftrightarrow>
        x \<le> fst k \<and> fst k < x + int (length (c # columns)) \<and> 0 \<le> snd k \<and> snd k < height"
      by auto
    assume k: "fst k = x \<and> 0 \<le> snd k \<and> snd k < height \<or>
        x + 1 \<le> fst k \<and> fst k < x + 1 + int (length columns) \<and> 0 \<le> snd k \<and> snd k < height"
    show "(if x + 1 \<le> fst k \<and> fst k < x + 1 + int (length columns) \<and> 0 \<le> snd k \<and> snd k < height
        then case columns ! nat (fst k - (x + 1)) of (data, offset) \<Rightarrow> p2p_entry data offset (nat (snd k))
        else p2p_entry data offset (nat (snd k))) =
        (case (c # columns) ! nat (fst k - x) of (data, offset) \<Rightarrow> p2p_entry data offset (nat (snd k)))"
    proof (cases "x + 1 \<le> fst k")
      case True
      then have "nat (fst k - x) = Suc (nat (fst k - (x + 1)))" by linarith
      then show ?thesis using True k by auto
    qed (use k c in auto)
  qed auto
  then show ?case using r1 r2 c by auto
qed

subsection \<open>Properties\<close>

text \<open>
  C23: a point-to-point table holds exactly the packed routes. If every column has the bytes that
  \<open>get_n_column_bytes\<close> asks for, the table is built without an exception; for every chip of the given
  columns and height the route is the three-bit field of its word, for every other chip it is
  \<open>NONE\<close>; \<open>is_route\<close> says whether the route is not \<open>NONE\<close>, and each routed chip is listed once.
\<close>
theorem p2p_table_routes:
  assumes "\<forall>(data, offset) \<in> set columns. offset + nat (get_n_column_bytes height) \<le> length data"
  shows "\<exists>t. p2p_table_init width height columns = Inr t \<and>
     (\<forall>x y. get_route t x y =
        (if 0 \<le> x \<and> x < int (length columns) \<and> 0 \<le> y \<and> y < height
         then (case columns ! nat x of (data, offset) \<Rightarrow> p2p_entry data offset (nat y)) else P2P_NONE)) \<and>
     (\<forall>x y. is_route t x y \<longleftrightarrow> get_route t x y \<noteq> P2P_NONE) \<and>
     distinct (iterchips t) \<and> set (iterchips t) = {(x, y). get_route t x y \<noteq> P2P_NONE} \<and>
     n_routes t = int (length (iterchips t))"
proof -
  let ?f = "\<lambda>k :: int \<times> int. case columns ! nat (fst k) of (data, offset) \<Rightarrow> p2p_entry data offset (nat (snd k))"
  let ?R = "\<lambda>k :: int \<times> int. 0 \<le> fst k \<and> fst k < int (length columns) \<and> 0 \<le> snd k \<and> snd k < height"
  obtain routes where r: "p2p_columns height 0 columns [] = Inr routes" and a: "added ?R ?f [] routes"
    using columns_added [OF assms, of 0 "[]"] by auto
  let ?t = "\<lparr>p2p_routes = routes, p2p_width = width, p2p_height = height\<rparr>"
  have m: "map_of routes k = (if ?R k \<and> ?f k \<noteq> P2P_NONE then Some (?f k) else None)" for k
  proof -
    have "\<forall>k. map_of routes k = (if ?R k \<and> ?f k \<noteq> P2P_NONE then Some (?f k) else map_of [] k)"
      using a unfolding added_def by (rule conjunct2)
    then show ?thesis by (metis map_of.simps(1))
  qed
  have d: "distinct (map fst routes)" using a unfolding added_def by (metis distinct.simps(1) list.map(1))
  have g: "get_route ?t x y = (if ?R (x, y) then ?f (x, y) else P2P_NONE)" for x y
    by (simp add: get_route_def m)
  moreover have "is_route ?t x y \<longleftrightarrow> get_route ?t x y \<noteq> P2P_NONE" for x y
    by (simp add: is_route_def get_route_def m)
  moreover have "set (iterchips ?t) = {(x, y). get_route ?t x y \<noteq> P2P_NONE}"
  proof -
    have "k \<in> set (iterchips ?t) \<longleftrightarrow> get_route ?t (fst k) (snd k) \<noteq> P2P_NONE" for k
    proof -
      have "map_of routes k \<noteq> Some P2P_NONE" unfolding m by simp
      then show ?thesis using map_of_eq_None_iff [of routes k]
        by (cases "map_of routes k") (auto simp: iterchips_def get_route_def)
    qed
    then show ?thesis by auto
  qed
  ultimately show ?thesis using r d
    by (intro exI [of _ ?t]) (simp add: p2p_table_init_def iterchips_def n_routes_def)
qed

theorem p2p_table_routes_witness:
  "\<exists>t. p2p_table_init 1 9 [([0xFF, 0xB6, 0x6D, 0xDB, 0xB6, 2, 0, 0, 0], 1)] = Inr t \<and>
     get_route t 0 0 = P2P_NONE \<and> get_route t 0 8 = P2P_NORTH \<and> get_route t 0 9 = P2P_NONE"
proof -
  let ?d = "[0xFF, 0xB6, 0x6D, 0xDB, 0xB6, 2, 0, 0, 0] :: bytes"
  have "\<forall>(data, offset) \<in> set [(?d, 1 :: nat)]. offset + nat (get_n_column_bytes 9) \<le> length data"
    by (simp add: get_n_column_bytes_def)
  from p2p_table_routes [OF this, of 1] obtain t where t: "p2p_table_init 1 9 [(?d, 1)] = Inr t"
    and g: "\<And>x y. get_route t x y = (if 0 \<le> x \<and> x < int (length [(?d, 1 :: nat)]) \<and> 0 \<le> y \<and> y < 9
         then (case [(?d, 1)] ! nat x of (data, offset) \<Rightarrow> p2p_entry data offset (nat y)) else P2P_NONE)"
    by blast
  have "p2p_entry ?d 1 0 = P2P_NONE" "p2p_entry ?d 1 8 = P2P_NORTH" by code_simp+
  with t g [of 0 0] g [of 0 8] g [of 0 9] show ?thesis by simp
qed

subsection \<open>Diagnostic filters\<close>

lemma bit_one_shifted: "bit (push_bit m (1 :: int)) n \<longleftrightarrow> n = m"
  by (simp only: bit_push_bit_iff bit_1_iff) auto

text \<open>The values that a list stands for: all of them when it is absent or empty.\<close>

definition stands_for :: "'e list \<Rightarrow> 'e list option \<Rightarrow> 'e set" where
  "stands_for members es = set (case es of None \<Rightarrow> members | Some [] \<Rightarrow> members | Some xs \<Rightarrow> xs)"

text \<open>A group of flags sits at its own bits of the word.\<close>

definition flag_at :: "('e \<Rightarrow> int) \<Rightarrow> int \<Rightarrow> 'e set \<Rightarrow> nat \<Rightarrow> bool" where
  "flag_at val off es n \<longleftrightarrow> (\<exists>e \<in> es. n = nat (val e + off))"

lemma flag_at_inside:
  assumes "flag_at val off es n" and "\<And>e. 0 \<le> val e \<and> val e < k" and "0 \<le> off"
  shows "nat off \<le> n" and "n < nat (off + k)"
proof -
  obtain e where "n = nat (val e + off)" using assms(1) by (auto simp: flag_at_def)
  then show "nat off \<le> n" and "n < nat (off + k)" using assms(2) [of e] assms(3) by linarith+
qed

lemma bit_set_flags:
  "bit (set_flags_in_word w es members val off) n \<longleftrightarrow> bit w n \<or> flag_at val off (stands_for members es) n"
proof -
  have fold: "bit (foldl (\<lambda>w e. w OR push_bit (nat (val e + off)) 1) w xs) n \<longleftrightarrow>
      bit w n \<or> (\<exists>e \<in> set xs. n = nat (val e + off))" for xs and w :: int
    by (induction xs arbitrary: w) (auto simp: bit_or_iff bit_one_shifted simp del: push_bit_of_1)
  show ?thesis
    by (auto simp: set_flags_in_word_def fold flag_at_def stands_for_def Let_def
        split: list.splits option.splits simp del: push_bit_of_1 foldl_Cons)
qed

definition canonical :: "diagnostic_filter \<Rightarrow> diagnostic_filter" where
  "canonical f =
     f\<lparr>
        df_destinations := Some (filter (\<lambda>e. e \<in> stands_for df_destination_members (df_destinations f))
          df_destination_members),
        df_sources := Some (filter (\<lambda>e. e \<in> stands_for df_source_members (df_sources f)) df_source_members),
        df_payload_statuses := Some (filter
          (\<lambda>e. e \<in> stands_for df_payload_status_members (df_payload_statuses f)) df_payload_status_members),
        df_default_routing_statuses := Some (filter
          (\<lambda>e. e \<in> stands_for df_default_status_members (df_default_routing_statuses f)) df_default_status_members),
        df_emergency_routing_statuses := Some (filter
          (\<lambda>e. e \<in> stands_for df_emergency_status_members (df_emergency_routing_statuses f))
          df_emergency_status_members),
        df_packet_types := Some (filter
          (\<lambda>e. e \<in> stands_for df_packet_type_members (df_packet_types f)) df_packet_type_members)\<rparr>"

lemma read_flags_filter:
  assumes "\<And>e. bit w (nat (val e + off)) \<longleftrightarrow> e \<in> es"
  shows "read_flags_from_word w members val off = filter (\<lambda>e. e \<in> es) members"
  using assms by (simp add: read_flags_from_word_def and_bit_nonzero del: push_bit_of_1)

context py_enum begin

lemma flag_at_own:
  assumes "\<And>e. 0 \<le> val e" and "0 \<le> off"
  shows "flag_at val off es (nat (val e + off)) \<longleftrightarrow> e \<in> es"
proof -
  have "nat (val e + off) = nat (val e' + off) \<longleftrightarrow> e = e'" for e'
    using assms(1) [of e] assms(1) [of e'] assms(2) val_eq [of e e'] by auto
  then show ?thesis by (auto simp: flag_at_def)
qed

end

text \<open>The values of the six groups are small enough not to meet.\<close>

lemma flag_values:
  "0 \<le> df_destination_value a \<and> df_destination_value a < 9"
  "0 \<le> df_source_value b \<and> df_source_value b < 2"
  "0 \<le> df_payload_status_value c \<and> df_payload_status_value c < 2"
  "0 \<le> df_default_status_value d \<and> df_default_status_value d < 2"
  "0 \<le> df_emergency_status_value e \<and> df_emergency_status_value e < 4"
  "0 \<le> df_packet_type_value f \<and> df_packet_type_value f < 4"
  by ((cases a; simp), (cases b; simp), (cases c; simp), (cases d; simp), (cases e; simp), (cases f; simp))

lemma bit_filter_word:
  "bit (filter_word f) n \<longleftrightarrow>
     (df_enable_interrupt_on_counter_event f \<and> n = 30) \<or> (\<not> df_match_emergency f \<and> n = 8) \<or>
     flag_at df_destination_value 16 (stands_for df_destination_members (df_destinations f)) n \<or>
     flag_at df_source_value 14 (stands_for df_source_members (df_sources f)) n \<or>
     flag_at df_payload_status_value 12 (stands_for df_payload_status_members (df_payload_statuses f)) n \<or>
     flag_at df_default_status_value 10 (stands_for df_default_status_members (df_default_routing_statuses f)) n \<or>
     flag_at df_emergency_status_value 4
       (stands_for df_emergency_status_members (df_emergency_routing_statuses f)) n \<or>
     flag_at df_packet_type_value 0 (stands_for df_packet_type_members (df_packet_types f)) n"
  by (auto simp: filter_word_def Let_def bit_set_flags bit_or_iff bit_one_shifted filter_offsets
      simp del: push_bit_of_1)

lemmas filter_groups =
  flag_at_inside [where val = df_destination_value and off = 16, OF _ flag_values(1), simplified]
  flag_at_inside [where val = df_source_value and off = 14, OF _ flag_values(2), simplified]
  flag_at_inside [where val = df_payload_status_value and off = 12, OF _ flag_values(3), simplified]
  flag_at_inside [where val = df_default_status_value and off = 10, OF _ flag_values(4), simplified]
  flag_at_inside [where val = df_emergency_status_value and off = 4, OF _ flag_values(5), simplified]
  flag_at_inside(2) [where val = df_packet_type_value and off = 0, OF _ flag_values(6), simplified]

text \<open>Reading a group back gives what its list stood for: no other group has its bits.\<close>

lemma read_df_destination:
  "read_flags_from_word (filter_word f) df_destination_members df_destination_value 16 =
     filter (\<lambda>e. e \<in> stands_for df_destination_members (df_destinations f)) df_destination_members"
proof (rule read_flags_filter)
  fix e
  show "bit (filter_word f) (nat (df_destination_value e + 16)) \<longleftrightarrow> e \<in> stands_for df_destination_members (df_destinations f)"
    using flag_values(1) [of e] unfolding bit_filter_word
    by (auto simp: df_destination.flag_at_own [OF conjunct1 [OF flag_values(1)]] dest: filter_groups)
qed

lemma read_df_source:
  "read_flags_from_word (filter_word f) df_source_members df_source_value 14 =
     filter (\<lambda>e. e \<in> stands_for df_source_members (df_sources f)) df_source_members"
proof (rule read_flags_filter)
  fix e
  show "bit (filter_word f) (nat (df_source_value e + 14)) \<longleftrightarrow> e \<in> stands_for df_source_members (df_sources f)"
    using flag_values(2) [of e] unfolding bit_filter_word
    by (auto simp: df_source.flag_at_own [OF conjunct1 [OF flag_values(2)]] dest: filter_groups)
qed

lemma read_df_payload_status:
  "read_flags_from_word (filter_word f) df_payload_status_members df_payload_status_value 12 =
     filter (\<lambda>e. e \<in> stands_for df_payload_status_members (df_payload_statuses f)) df_payload_status_members"
proof (rule read_flags_filter)
  fix e
  show "bit (filter_word f) (nat (df_payload_status_value e + 12)) \<longleftrightarrow> e \<in> stands_for df_payload_status_members (df_payload_statuses f)"
    using flag_values(3) [of e] unfolding bit_filter_word
    by (auto simp: df_payload_status.flag_at_own [OF conjunct1 [OF flag_values(3)]] dest: filter_groups)
qed

lemma read_df_default_status:
  "read_flags_from_word (filter_word f) df_default_status_members df_default_status_value 10 =
     filter (\<lambda>e. e \<in> stands_for df_default_status_members (df_default_routing_statuses f)) df_default_status_members"
proof (rule read_flags_filter)
  fix e
  show "bit (filter_word f) (nat (df_default_status_value e + 10)) \<longleftrightarrow> e \<in> stands_for df_default_status_members (df_default_routing_statuses f)"
    using flag_values(4) [of e] unfolding bit_filter_word
    by (auto simp: df_default_status.flag_at_own [OF conjunct1 [OF flag_values(4)]] dest: filter_groups)
qed

lemma read_df_emergency_status:
  "read_flags_from_word (filter_word f) df_emergency_status_members df_emergency_status_value 4 =
     filter (\<lambda>e. e \<in> stands_for df_emergency_status_members (df_emergency_routing_statuses f)) df_emergency_status_members"
proof (rule read_flags_filter)
  fix e
  show "bit (filter_word f) (nat (df_emergency_status_value e + 4)) \<longleftrightarrow> e \<in> stands_for df_emergency_status_members (df_emergency_routing_statuses f)"
    using flag_values(5) [of e] unfolding bit_filter_word
    by (auto simp: df_emergency_status.flag_at_own [OF conjunct1 [OF flag_values(5)]] dest: filter_groups)
qed

lemma read_df_packet_type:
  "read_flags_from_word (filter_word f) df_packet_type_members df_packet_type_value 0 =
     filter (\<lambda>e. e \<in> stands_for df_packet_type_members (df_packet_types f)) df_packet_type_members"
proof (rule read_flags_filter)
  fix e
  show "bit (filter_word f) (nat (df_packet_type_value e + 0)) \<longleftrightarrow> e \<in> stands_for df_packet_type_members (df_packet_types f)"
    using flag_values(6) [of e] unfolding bit_filter_word
    by (auto simp: df_packet_type.flag_at_own [OF conjunct1 [OF flag_values(6)], of 0, simplified] dest: filter_groups)
qed

subsection \<open>The filter property\<close>

text \<open>
  A diagnostic filter survives its control word. For every filter, whatever its lists are,
  \<open>read_from_int (filter_word f)\<close> has the same two flags, and each of its six lists holds exactly
  the members that the filter selected (all of them when the list was empty or absent), in the order of
  the enumeration: no group of flags overlaps another in the word.
\<close>
theorem diagnostic_filter_roundtrip: "read_from_int (filter_word f) = canonical f"
proof -
  have "\<not> flag_at df_destination_value 16 A 30" "\<not> flag_at df_destination_value 16 A 8"
    "\<not> flag_at df_source_value 14 B 30" "\<not> flag_at df_source_value 14 B 8"
    "\<not> flag_at df_payload_status_value 12 C 30" "\<not> flag_at df_payload_status_value 12 C 8"
    "\<not> flag_at df_default_status_value 10 D 30" "\<not> flag_at df_default_status_value 10 D 8"
    "\<not> flag_at df_emergency_status_value 4 E 30" "\<not> flag_at df_emergency_status_value 4 E 8"
    "\<not> flag_at df_packet_type_value 0 F 30" "\<not> flag_at df_packet_type_value 0 F 8" for A B C D E F
    by (auto dest: filter_groups)
  then have "bit (filter_word f) 30 \<longleftrightarrow> df_enable_interrupt_on_counter_event f"
    and "bit (filter_word f) 8 \<longleftrightarrow> \<not> df_match_emergency f"
    unfolding bit_filter_word by auto
  moreover have "drop_bit n w AND 1 = 1 \<longleftrightarrow> bit w n" "drop_bit n w AND 1 = 0 \<longleftrightarrow> \<not> bit w n" for n and w :: int
    by (simp_all add: bit_iff_odd_drop_bit and_one_eq odd_iff_mod_2_eq_one)
  ultimately show ?thesis
    by (simp add: read_from_int_def canonical_def filter_offsets read_df_destination read_df_source
        read_df_payload_status read_df_default_status read_df_emergency_status read_df_packet_type)
qed

end
