(* ===== verification/SystemVariables.thy ===== *)
theory SystemVariables
  imports PyStruct
begin

text \<open>
  The variables of the system area of a chip
  (\<open>messages/spinnaker_boot/system_variable_boot_values.py\<close>): their types, offsets and defaults,
  and the bytes that boot a machine with given values. \<open>struct.pack("s", v)\<close> writes one byte,
  whatever the array size of the variable.
\<close>

datatype data_type = DT_BYTE | DT_SHORT | DT_INT | DT_LONG | DT_BYTE_ARRAY

fun data_type_value :: "data_type \<Rightarrow> int" where
  "data_type_value DT_BYTE = 1"
| "data_type_value DT_SHORT = 2"
| "data_type_value DT_INT = 4"
| "data_type_value DT_LONG = 8"
| "data_type_value DT_BYTE_ARRAY = 16"

fun struct_code :: "data_type \<Rightarrow> fitem list" where
  "struct_code DT_BYTE = [FB]"
| "struct_code DT_SHORT = [FH]"
| "struct_code DT_INT = [FI]"
| "struct_code DT_LONG = [FQ]"
| "struct_code DT_BYTE_ARRAY = [FS 1]"

definition is_byte_array :: "data_type \<Rightarrow> bool" where
  "is_byte_array t \<longleftrightarrow> data_type_value t = 16"

text \<open>A value is an integer or a byte string.\<close>

datatype sv_value = SVInt int | SVBytes bytes

fun sv_sval :: "sv_value \<Rightarrow> sval" where
  "sv_sval (SVInt v) = VI v"
| "sv_sval (SVBytes bs) = VS bs"

subsection \<open>The variables\<close>

text \<open>
  A member of \<open>SystemVariableDefinition\<close> is its definition (the documentation string is left out): members are
  told apart by their offsets.
\<close>

record system_variable =
  sv_data_type :: data_type
  sv_offset :: int
  sv_default :: sv_value
  sv_array_size :: "int option"

abbreviation sv_def :: "data_type \<Rightarrow> int \<Rightarrow> sv_value \<Rightarrow> int option \<Rightarrow> system_variable" where
  "sv_def t off d n \<equiv> \<lparr>sv_data_type = t, sv_offset = off, sv_default = d, sv_array_size = n\<rparr>"

definition SV_y :: system_variable where "SV_y = sv_def DT_BYTE 0x0 (SVInt 0) None"
definition SV_x :: system_variable where "SV_x = sv_def DT_BYTE 0x1 (SVInt 0) None"
definition SV_y_size :: system_variable where "SV_y_size = sv_def DT_BYTE 0x2 (SVInt 0) None"
definition SV_x_size :: system_variable where "SV_x_size = sv_def DT_BYTE 0x3 (SVInt 0) None"
definition SV_debug_y :: system_variable where "SV_debug_y = sv_def DT_BYTE 0x4 (SVInt 0) None"
definition SV_debug_x :: system_variable where "SV_debug_x = sv_def DT_BYTE 0x5 (SVInt 0) None"
definition SV_is_peer_to_peer_available :: system_variable where "SV_is_peer_to_peer_available = sv_def DT_BYTE 0x6 (SVInt 0) None"
definition SV_nearest_neighbour_last_id :: system_variable where "SV_nearest_neighbour_last_id = sv_def DT_BYTE 0x7 (SVInt 0) None"
definition SV_nearest_ethernet_y :: system_variable where "SV_nearest_ethernet_y = sv_def DT_BYTE 0x8 (SVInt 0) None"
definition SV_nearest_ethernet_x :: system_variable where "SV_nearest_ethernet_x = sv_def DT_BYTE 0x9 (SVInt 0) None"
definition SV_hardware_version :: system_variable where "SV_hardware_version = sv_def DT_BYTE 0xa (SVInt 0) None"
definition SV_is_ethernet_available :: system_variable where "SV_is_ethernet_available = sv_def DT_BYTE 0xb (SVInt 0) None"
definition SV_p2p_b_repeats :: system_variable where "SV_p2p_b_repeats = sv_def DT_BYTE 0xc (SVInt 4) None"
definition SV_log_peer_to_peer_sequence_length :: system_variable where "SV_log_peer_to_peer_sequence_length = sv_def DT_BYTE 0xd (SVInt 4) None"
definition SV_clock_divisor :: system_variable where "SV_clock_divisor = sv_def DT_BYTE 0xe (SVInt 51) None"
definition SV_time_phase_scale :: system_variable where "SV_time_phase_scale = sv_def DT_BYTE 0xf (SVInt 0) None"
definition SV_clock_milliseconds :: system_variable where "SV_clock_milliseconds = sv_def DT_LONG 0x10 (SVInt 0) None"
definition SV_time_milliseconds :: system_variable where "SV_time_milliseconds = sv_def DT_SHORT 0x18 (SVInt 0) None"
definition SV_ltpc_period :: system_variable where "SV_ltpc_period = sv_def DT_SHORT 0x1a (SVInt 0) None"
definition SV_unix_timestamp :: system_variable where "SV_unix_timestamp = sv_def DT_INT 0x1c (SVInt 0) None"
definition SV_router_time_phase_timer :: system_variable where "SV_router_time_phase_timer = sv_def DT_INT 0x20 (SVInt 0) None"
definition SV_cpu_clock_mhz :: system_variable where "SV_cpu_clock_mhz = sv_def DT_SHORT 0x24 (SVInt 200) None"
definition SV_sdram_clock_frequency_mhz :: system_variable where "SV_sdram_clock_frequency_mhz = sv_def DT_SHORT 0x26 (SVInt 130) None"
definition SV_nearest_neighbour_forward :: system_variable where "SV_nearest_neighbour_forward = sv_def DT_BYTE 0x28 (SVInt 63) None"
definition SV_nearest_neighbour_retry :: system_variable where "SV_nearest_neighbour_retry = sv_def DT_BYTE 0x29 (SVInt 0) None"
definition SV_link_peek_timeout_microseconds :: system_variable where "SV_link_peek_timeout_microseconds = sv_def DT_BYTE 0x2a (SVInt 200) None"
definition SV_led_half_period_10_ms :: system_variable where "SV_led_half_period_10_ms = sv_def DT_BYTE 0x2b (SVInt 1) None"
definition SV_netinit_bc_wait_time :: system_variable where "SV_netinit_bc_wait_time = sv_def DT_BYTE 0x2c (SVInt 50) None"
definition SV_netinit_phase :: system_variable where "SV_netinit_phase = sv_def DT_BYTE 0x2d (SVInt 0) None"
definition SV_p2p_root_y :: system_variable where "SV_p2p_root_y = sv_def DT_BYTE 0x2e (SVInt 0) None"
definition SV_p2p_root_x :: system_variable where "SV_p2p_root_x = sv_def DT_BYTE 0x2f (SVInt 0) None"
definition SV_led_0 :: system_variable where "SV_led_0 = sv_def DT_INT 0x30 (SVInt 1) None"
definition SV_led_1 :: system_variable where "SV_led_1 = sv_def DT_INT 0x34 (SVInt 0) None"
definition SV_clock_drift :: system_variable where "SV_clock_drift = sv_def DT_INT 0x38 (SVInt 0) None"
definition SV_random_seed :: system_variable where "SV_random_seed = sv_def DT_INT 0x3c (SVInt 0) None"
definition SV_is_root_chip :: system_variable where "SV_is_root_chip = sv_def DT_BYTE 0x40 (SVInt 0) None"
definition SV_n_shared_message_buffers :: system_variable where "SV_n_shared_message_buffers = sv_def DT_BYTE 0x41 (SVInt 7) None"
definition SV_nearest_neighbour_delay_us :: system_variable where "SV_nearest_neighbour_delay_us = sv_def DT_BYTE 0x42 (SVInt 20) None"
definition SV_software_watchdog_count :: system_variable where "SV_software_watchdog_count = sv_def DT_BYTE 0x43 (SVInt 0) None"
definition SV_padding_2 :: system_variable where "SV_padding_2 = sv_def DT_INT 0x44 (SVInt 0) None"
definition SV_system_ram_heap_address :: system_variable where "SV_system_ram_heap_address = sv_def DT_INT 0x48 (SVInt 1024) None"
definition SV_sdram_heap_address :: system_variable where "SV_sdram_heap_address = sv_def DT_INT 0x4c (SVInt 0) None"
definition SV_iobuf_size :: system_variable where "SV_iobuf_size = sv_def DT_INT 0x50 (SVInt 16384) None"
definition SV_system_sdram_bytes :: system_variable where "SV_system_sdram_bytes = sv_def DT_INT 0x54 (SVInt 8388608) None"
definition SV_system_buffer_words :: system_variable where "SV_system_buffer_words = sv_def DT_INT 0x58 (SVInt 32768) None"
definition SV_boot_signature :: system_variable where "SV_boot_signature = sv_def DT_INT 0x5c (SVInt 0) None"
definition SV_nearest_neighbour_memory_pointer :: system_variable where "SV_nearest_neighbour_memory_pointer = sv_def DT_INT 0x60 (SVInt 0) None"
definition SV_lock :: system_variable where "SV_lock = sv_def DT_BYTE 0x64 (SVInt 0) None"
definition SV_links_available :: system_variable where "SV_links_available = sv_def DT_BYTE 0x65 (SVInt 63) None"
definition SV_last_biff_id :: system_variable where "SV_last_biff_id = sv_def DT_BYTE 0x66 (SVInt 0) None"
definition SV_board_test_flags :: system_variable where "SV_board_test_flags = sv_def DT_BYTE 0x67 (SVInt 0) None"
definition SV_shared_message_first_free_address :: system_variable where "SV_shared_message_first_free_address = sv_def DT_INT 0x68 (SVInt 0) None"
definition SV_shared_message_count_in_use :: system_variable where "SV_shared_message_count_in_use = sv_def DT_SHORT 0x6c (SVInt 0) None"
definition SV_shared_message_maximum_used :: system_variable where "SV_shared_message_maximum_used = sv_def DT_SHORT 0x6e (SVInt 0) None"
definition SV_user_temp_0 :: system_variable where "SV_user_temp_0 = sv_def DT_INT 0x70 (SVInt 0) None"
definition SV_user_temp_1 :: system_variable where "SV_user_temp_1 = sv_def DT_INT 0x74 (SVInt 0) None"
definition SV_user_temp_2 :: system_variable where "SV_user_temp_2 = sv_def DT_INT 0x78 (SVInt 0) None"
definition SV_user_temp_4 :: system_variable where "SV_user_temp_4 = sv_def DT_INT 0x7c (SVInt 0) None"
definition SV_status_map :: system_variable where "SV_status_map = sv_def DT_BYTE_ARRAY 0x80 (SVBytes (replicate 20 0)) (Some 20)"
definition SV_physical_to_virtual_core_map :: system_variable where "SV_physical_to_virtual_core_map = sv_def DT_BYTE_ARRAY 0x94 (SVBytes (replicate 20 0)) (Some 20)"
definition SV_virtual_to_physical_core_map :: system_variable where "SV_virtual_to_physical_core_map = sv_def DT_BYTE_ARRAY 0xa8 (SVBytes (replicate 20 0)) (Some 20)"
definition SV_n_working_cores :: system_variable where "SV_n_working_cores = sv_def DT_BYTE 0xbc (SVInt 0) None"
definition SV_n_scamp_working_cores :: system_variable where "SV_n_scamp_working_cores = sv_def DT_BYTE 0xbd (SVInt 0) None"
definition SV_padding_3 :: system_variable where "SV_padding_3 = sv_def DT_SHORT 0xbe (SVInt 0) None"
definition SV_sdram_base_address :: system_variable where "SV_sdram_base_address = sv_def DT_INT 0xc0 (SVInt 0) None"
definition SV_system_ram_base_address :: system_variable where "SV_system_ram_base_address = sv_def DT_INT 0xc4 (SVInt 0) None"
definition SV_system_sdram_base_address :: system_variable where "SV_system_sdram_base_address = sv_def DT_INT 0xc8 (SVInt 0) None"
definition SV_cpu_information_base_address :: system_variable where "SV_cpu_information_base_address = sv_def DT_INT 0xcc (SVInt 0) None"
definition SV_system_sdram_heap_address :: system_variable where "SV_system_sdram_heap_address = sv_def DT_INT 0xd0 (SVInt 0) None"
definition SV_router_table_copy_address :: system_variable where "SV_router_table_copy_address = sv_def DT_INT 0xd4 (SVInt 0) None"
definition SV_peer_to_peer_hop_table_address :: system_variable where "SV_peer_to_peer_hop_table_address = sv_def DT_INT 0xd8 (SVInt 0) None"
definition SV_allocated_tag_table_address :: system_variable where "SV_allocated_tag_table_address = sv_def DT_INT 0xdc (SVInt 0) None"
definition SV_first_free_router_entry :: system_variable where "SV_first_free_router_entry = sv_def DT_SHORT 0xe0 (SVInt 0) None"
definition SV_n_active_peer_to_peer_addresses :: system_variable where "SV_n_active_peer_to_peer_addresses = sv_def DT_SHORT 0xe2 (SVInt 0) None"
definition SV_app_data_table_address :: system_variable where "SV_app_data_table_address = sv_def DT_INT 0xe4 (SVInt 0) None"
definition SV_shared_message_buffer_address :: system_variable where "SV_shared_message_buffer_address = sv_def DT_INT 0xe8 (SVInt 0) None"
definition SV_monitor_mailbox_flags :: system_variable where "SV_monitor_mailbox_flags = sv_def DT_INT 0xec (SVInt 0) None"
definition SV_ethernet_ip_address :: system_variable where "SV_ethernet_ip_address = sv_def DT_BYTE_ARRAY 0xf0 (SVBytes (replicate 4 0)) (Some 4)"
definition SV_fixed_route_copy :: system_variable where "SV_fixed_route_copy = sv_def DT_INT 0xf4 (SVInt 0) None"
definition SV_board_info :: system_variable where "SV_board_info = sv_def DT_INT 0xf8 (SVInt 0) None"
definition SV_padding_4 :: system_variable where "SV_padding_4 = sv_def DT_INT 0xfc (SVInt 0) None"

lemmas system_variable_defs =
  SV_y_def SV_x_def SV_y_size_def SV_x_size_def SV_debug_y_def SV_debug_x_def
  SV_is_peer_to_peer_available_def SV_nearest_neighbour_last_id_def SV_nearest_ethernet_y_def
  SV_nearest_ethernet_x_def SV_hardware_version_def SV_is_ethernet_available_def
  SV_p2p_b_repeats_def SV_log_peer_to_peer_sequence_length_def SV_clock_divisor_def
  SV_time_phase_scale_def SV_clock_milliseconds_def SV_time_milliseconds_def SV_ltpc_period_def
  SV_unix_timestamp_def SV_router_time_phase_timer_def SV_cpu_clock_mhz_def
  SV_sdram_clock_frequency_mhz_def SV_nearest_neighbour_forward_def SV_nearest_neighbour_retry_def
  SV_link_peek_timeout_microseconds_def SV_led_half_period_10_ms_def SV_netinit_bc_wait_time_def
  SV_netinit_phase_def SV_p2p_root_y_def SV_p2p_root_x_def SV_led_0_def SV_led_1_def
  SV_clock_drift_def SV_random_seed_def SV_is_root_chip_def SV_n_shared_message_buffers_def
  SV_nearest_neighbour_delay_us_def SV_software_watchdog_count_def SV_padding_2_def
  SV_system_ram_heap_address_def SV_sdram_heap_address_def SV_iobuf_size_def
  SV_system_sdram_bytes_def SV_system_buffer_words_def SV_boot_signature_def
  SV_nearest_neighbour_memory_pointer_def SV_lock_def SV_links_available_def SV_last_biff_id_def
  SV_board_test_flags_def SV_shared_message_first_free_address_def
  SV_shared_message_count_in_use_def SV_shared_message_maximum_used_def SV_user_temp_0_def
  SV_user_temp_1_def SV_user_temp_2_def SV_user_temp_4_def SV_status_map_def
  SV_physical_to_virtual_core_map_def SV_virtual_to_physical_core_map_def SV_n_working_cores_def
  SV_n_scamp_working_cores_def SV_padding_3_def SV_sdram_base_address_def
  SV_system_ram_base_address_def SV_system_sdram_base_address_def
  SV_cpu_information_base_address_def SV_system_sdram_heap_address_def
  SV_router_table_copy_address_def SV_peer_to_peer_hop_table_address_def
  SV_allocated_tag_table_address_def SV_first_free_router_entry_def
  SV_n_active_peer_to_peer_addresses_def SV_app_data_table_address_def
  SV_shared_message_buffer_address_def SV_monitor_mailbox_flags_def SV_ethernet_ip_address_def
  SV_fixed_route_copy_def SV_board_info_def SV_padding_4_def

definition system_variables :: "system_variable list" where
  "system_variables = [
     SV_y, SV_x, SV_y_size, SV_x_size, SV_debug_y, SV_debug_x, SV_is_peer_to_peer_available,
     SV_nearest_neighbour_last_id, SV_nearest_ethernet_y, SV_nearest_ethernet_x,
     SV_hardware_version, SV_is_ethernet_available, SV_p2p_b_repeats,
     SV_log_peer_to_peer_sequence_length, SV_clock_divisor, SV_time_phase_scale,
     SV_clock_milliseconds, SV_time_milliseconds, SV_ltpc_period, SV_unix_timestamp,
     SV_router_time_phase_timer, SV_cpu_clock_mhz, SV_sdram_clock_frequency_mhz,
     SV_nearest_neighbour_forward, SV_nearest_neighbour_retry, SV_link_peek_timeout_microseconds,
     SV_led_half_period_10_ms, SV_netinit_bc_wait_time, SV_netinit_phase, SV_p2p_root_y,
     SV_p2p_root_x, SV_led_0, SV_led_1, SV_clock_drift, SV_random_seed, SV_is_root_chip,
     SV_n_shared_message_buffers, SV_nearest_neighbour_delay_us, SV_software_watchdog_count,
     SV_padding_2, SV_system_ram_heap_address, SV_sdram_heap_address, SV_iobuf_size,
     SV_system_sdram_bytes, SV_system_buffer_words, SV_boot_signature,
     SV_nearest_neighbour_memory_pointer, SV_lock, SV_links_available, SV_last_biff_id,
     SV_board_test_flags, SV_shared_message_first_free_address, SV_shared_message_count_in_use,
     SV_shared_message_maximum_used, SV_user_temp_0, SV_user_temp_1, SV_user_temp_2,
     SV_user_temp_4, SV_status_map, SV_physical_to_virtual_core_map,
     SV_virtual_to_physical_core_map, SV_n_working_cores, SV_n_scamp_working_cores, SV_padding_3,
     SV_sdram_base_address, SV_system_ram_base_address, SV_system_sdram_base_address,
     SV_cpu_information_base_address, SV_system_sdram_heap_address, SV_router_table_copy_address,
     SV_peer_to_peer_hop_table_address, SV_allocated_tag_table_address, SV_first_free_router_entry,
     SV_n_active_peer_to_peer_addresses, SV_app_data_table_address,
     SV_shared_message_buffer_address, SV_monitor_mailbox_flags, SV_ethernet_ip_address,
     SV_fixed_route_copy, SV_board_info, SV_padding_4]"

subsection \<open>\<open>SystemVariableBootValues\<close>\<close>

type_synonym boot_values = "system_variable \<Rightarrow> sv_value"

definition boot_values_init :: boot_values where
  "boot_values_init v = sv_default v"

definition set_value :: "system_variable \<Rightarrow> sv_value \<Rightarrow> boot_values \<Rightarrow> boot_values" where
  "set_value var value vals = vals(var := value)"

definition pack_variable :: "boot_values \<Rightarrow> system_variable \<Rightarrow> bytes res" where
  "pack_variable vals v =
     require StructError (pack Little (struct_code (sv_data_type v)) [sv_sval (vals v)])"

fun pack_variables :: "boot_values \<Rightarrow> system_variable list \<Rightarrow> bytes \<Rightarrow> bytes res" where
  "pack_variables vals [] data = Inr data"
| "pack_variables vals (v # vs) data =
     bind_res (pack_variable vals v) (\<lambda>bs. pack_variables vals vs (data @ bs))"

definition boot_values_bytestring :: "boot_values \<Rightarrow> bytes res" where
  "boot_values_bytestring vals = pack_variables vals system_variables []"

end
