(* ===== verification/Boot.thy ===== *)
theory Boot
  imports SystemVariables Connection
begin

text \<open>
  Booting a board (\<open>messages/spinnaker_boot\<close>, \<open>boot_connection.py\<close>): the boot message, the img with
  the system variables patched in, and the messages that send it. The img file, the hardware
  version and the current time are arguments.
\<close>

subsection \<open>\<open>SpinnakerBootMessage\<close>\<close>

datatype boot_op_code = HELLO | FLOOD_FILL_START | FLOOD_FILL_BLOCK | FLOOD_FILL_CONTROL

fun boot_op_code_value :: "boot_op_code \<Rightarrow> int" where
  "boot_op_code_value HELLO = 0x41"
| "boot_op_code_value FLOOD_FILL_START = 0x1"
| "boot_op_code_value FLOOD_FILL_BLOCK = 0x3"
| "boot_op_code_value FLOOD_FILL_CONTROL = 0x5"

definition boot_op_code_members :: "boot_op_code list" where
  "boot_op_code_members = [HELLO, FLOOD_FILL_START, FLOOD_FILL_BLOCK, FLOOD_FILL_CONTROL]"

interpretation boot_op_code: py_enum boot_op_code_members boot_op_code_value
proof
  fix x show "x \<in> set boot_op_code_members" by (cases x) (simp_all add: boot_op_code_members_def)
qed (simp add: boot_op_code_members_def)

definition BOOT_MESSAGE_VERSION :: int where "BOOT_MESSAGE_VERSION = 1"

record boot_message =
  bm_opcode :: boot_op_code
  bm_operand_1 :: int
  bm_operand_2 :: int
  bm_operand_3 :: int
  bm_data :: "bytes option"
  bm_offset :: nat

definition boot_message_init ::
  "boot_op_code \<Rightarrow> int \<Rightarrow> int \<Rightarrow> int \<Rightarrow> bytes option \<Rightarrow> nat \<Rightarrow> boot_message res" where
  "boot_message_init opcode op1 op2 op3 data offset =
     (case data of
        Some d \<Rightarrow> if length d > 256 * 4 then Inl (InvalidParameter ''len(data)'')
                  else Inr \<lparr>bm_opcode = opcode, bm_operand_1 = op1, bm_operand_2 = op2, bm_operand_3 = op3,
                            bm_data = data, bm_offset = offset\<rparr>
      | None \<Rightarrow> Inr \<lparr>bm_opcode = opcode, bm_operand_1 = op1, bm_operand_2 = op2, bm_operand_3 = op3,
                     bm_data = data, bm_offset = offset\<rparr>)"

definition boot_message_bytestring :: "boot_message \<Rightarrow> bytes res" where
  "boot_message_bytestring m =
     (let data = (case bm_data m of None \<Rightarrow> [] | Some d \<Rightarrow> drop (bm_offset m) d)
      in bind_res (struct_pack Big [FH, FI, FI, FI, FI]
           [BOOT_MESSAGE_VERSION, boot_op_code_value (bm_opcode m),
            bm_operand_1 m, bm_operand_2 m, bm_operand_3 m]) (\<lambda>bs. Inr (bs @ data)))"

text \<open>
  \<open>struct.Struct("2xIIII")\<close> has no byte-order character, so it is the native one: the four integers
  are aligned to four bytes (two more pad bytes) and little-endian on the hosts the program runs on.
\<close>

definition PATTERN_2xIIII :: "fitem list" where
  "PATTERN_2xIIII = [Fx, Fx, Fx, Fx, FI, FI, FI, FI]"

definition boot_message_from_bytestring :: "bytes \<Rightarrow> nat \<Rightarrow> boot_message res" where
  "boot_message_from_bytestring data offset =
     bind_res (struct_unpack_from Little PATTERN_2xIIII data offset) (\<lambda>vs. case vs of
       [opcode_value, op1, op2, op3] \<Rightarrow>
         (let the_data = (if int (length data) - int offset > 0 then Some data else None)
          in bind_res (enum_of boot_op_code_members boot_op_code_value opcode_value) (\<lambda>opcode.
               boot_message_init opcode op1 op2 op3 the_data (offset + 18)))
     | _ \<Rightarrow> Inl PyValueError)"

subsection \<open>\<open>SpinnakerBootMessages\<close>\<close>

definition BOOT_MESSAGE_DATA_WORDS :: nat where "BOOT_MESSAGE_DATA_WORDS = 256"
definition BOOT_MESSAGE_DATA_BYTES :: nat where "BOOT_MESSAGE_DATA_BYTES = BOOT_MESSAGE_DATA_WORDS * 4"
definition BOOT_IMAGE_MAX_BYTES :: nat where "BOOT_IMAGE_MAX_BYTES = 32 * 1024"
definition BOOT_STRUCT_REPLACE_OFFSET :: nat where "BOOT_STRUCT_REPLACE_OFFSET = 384 div 4"
definition BOOT_STRUCT_REPLACE_LENGTH :: nat where "BOOT_STRUCT_REPLACE_LENGTH = 128 div 4"
definition BOOT_DATA_OPERAND_1 :: int where
  "BOOT_DATA_OPERAND_1 = push_bit 8 (int BOOT_MESSAGE_DATA_BYTES div 4 - 1)"

lemmas boot_constants =
  BOOT_MESSAGE_DATA_BYTES_def BOOT_MESSAGE_DATA_WORDS_def BOOT_IMAGE_MAX_BYTES_def
  BOOT_STRUCT_REPLACE_OFFSET_def BOOT_STRUCT_REPLACE_LENGTH_def

text \<open>
  \<open>array.array("I", data)\<close>: the words of a byte string, kept here as their four bytes;
  \<open>byteswap\<close> reverses each of them. A length that is not a multiple of four is a \<open>ValueError\<close>.
\<close>

fun array_words :: "bytes \<Rightarrow> bytes list res" where
  "array_words [] = Inr []"
| "array_words (a # b # c # d # rest) = bind_res (array_words rest) (\<lambda>ws. Inr ([a, b, c, d] # ws))"
| "array_words _ = Inl PyValueError"

definition byteswap :: "bytes list \<Rightarrow> bytes list" where
  "byteswap = map rev"

text \<open>The img file, as \<open>_get_boot_image_file\<close> accepts it.\<close>

definition get_boot_image_file :: "bytes \<Rightarrow> nat res" where
  "get_boot_image_file img =
     (if length img > BOOT_IMAGE_MAX_BYTES then Inl SpinnmanIO
      else if length img mod 4 \<noteq> 0 then Inl SpinnmanIO
      else Inr (length img))"

record boot_messages =
  bms_boot_data :: bytes
  bms_n_bytes_to_read :: nat
  bms_no_data_packets :: nat

definition boot_values_for ::
  "int \<Rightarrow> int \<Rightarrow> (system_variable \<times> sv_value) list \<Rightarrow> boot_values" where
  "boot_values_for version current_time extra =
     fold (\<lambda>(var, value). set_value var value) extra
       (set_value SV_is_root_chip (SVInt 1)
       (set_value SV_boot_signature (SVInt current_time)
       (set_value SV_unix_timestamp (SVInt current_time)
       (set_value SV_hardware_version (SVInt version) boot_values_init))))"

definition boot_messages_init ::
  "bytes \<Rightarrow> int \<Rightarrow> int \<Rightarrow> (system_variable \<times> sv_value) list \<Rightarrow> boot_messages res" where
  "boot_messages_init img version current_time extra =
     bind_res (boot_values_bytestring (boot_values_for version current_time extra)) (\<lambda>value_bytes.
     bind_res (array_words value_bytes) (\<lambda>spinnaker_boot_data.
     bind_res (get_boot_image_file img) (\<lambda>boot_data_size.
       let n_words_to_read = boot_data_size div 4;
           no_data_packets = (boot_data_size + BOOT_MESSAGE_DATA_BYTES - 1) div BOOT_MESSAGE_DATA_BYTES
       in bind_res (array_words (take (4 * n_words_to_read) img)) (\<lambda>boot_data.
            let offset = BOOT_STRUCT_REPLACE_OFFSET;
                len = BOOT_STRUCT_REPLACE_LENGTH;
                boot_data1 = take offset boot_data @ take len spinnaker_boot_data
                             @ drop (offset + len) boot_data
            in Inr \<lparr>bms_boot_data = concat (byteswap boot_data1),
                    bms_n_bytes_to_read = n_words_to_read * 4,
                    bms_no_data_packets = no_data_packets\<rparr>))))"

definition get_packet_data :: "boot_messages \<Rightarrow> nat \<Rightarrow> bytes" where
  "get_packet_data bms block_id =
     (let offset = block_id * BOOT_MESSAGE_DATA_BYTES;
          n_bytes = min (bms_n_bytes_to_read bms - offset) BOOT_MESSAGE_DATA_BYTES
      in slice offset (offset + n_bytes) (bms_boot_data bms))"

fun boot_blocks :: "boot_messages \<Rightarrow> nat list \<Rightarrow> boot_message list res" where
  "boot_blocks bms [] = Inr []"
| "boot_blocks bms (block_id # ids) =
     bind_res (boot_message_init FLOOD_FILL_BLOCK
         (BOOT_DATA_OPERAND_1 OR (int block_id AND 0xFF)) 0 0 (Some (get_packet_data bms block_id)) 0)
       (\<lambda>m. bind_res (boot_blocks bms ids) (\<lambda>ms. Inr (m # ms)))"

definition messages :: "boot_messages \<Rightarrow> boot_message list res" where
  "messages bms =
     bind_res (boot_message_init FLOOD_FILL_START 0 0 (int (bms_no_data_packets bms) - 1) None 0) (\<lambda>start.
     bind_res (boot_blocks bms [0..<bms_no_data_packets bms]) (\<lambda>blocks.
     bind_res (boot_message_init FLOOD_FILL_CONTROL 1 0 0 None 0) (\<lambda>control.
       Inr (start # blocks @ [control]))))"

subsection \<open>\<open>BootConnection\<close>\<close>

text \<open>The socket is a log of the attempted sends and the oracle of \<open>conn_send\<close>.\<close>

definition send_boot_message :: "scp_connection \<Rightarrow> boot_message \<Rightarrow> scp_connection \<times> exc option" where
  "send_boot_message c m =
     (case boot_message_bytestring m of Inl e \<Rightarrow> (c, Some e) | Inr bs \<Rightarrow> conn_send c bs)"

definition receive_boot_message :: "recv \<Rightarrow> boot_message res" where
  "receive_boot_message ev = bind_res (udp_receive ev) (\<lambda>data. boot_message_from_bytestring data 0)"

text \<open>The loop of \<open>_boot_board\<close>: every message in turn, until one cannot be sent.\<close>

fun send_boot_messages :: "scp_connection \<Rightarrow> boot_message list \<Rightarrow> scp_connection \<times> exc option" where
  "send_boot_messages c [] = (c, None)"
| "send_boot_messages c (m # ms) =
     (case send_boot_message c m of
        (c', Some e) \<Rightarrow> (c', Some e)
      | (c', None) \<Rightarrow> send_boot_messages c' ms)"

end
