(* ===== verification/BootProps.thy ===== *)
theory BootProps
  imports Boot
begin

text \<open>
  The boot sequence carries the image with the system variables in place, and the boot message is
  the one message whose parser does not read what its printer writes.
\<close>

subsection \<open>Words and packets\<close>

lemma array_words_total: "length bs mod 4 = 0 \<Longrightarrow> \<exists>ws. array_words bs = Inr ws"
  by (induction bs rule: array_words.induct) auto

lemma array_words_ok:
  "array_words bs = Inr ws \<Longrightarrow> concat ws = bs \<and> list_all (\<lambda>w. length w = 4) ws"
  by (induction bs arbitrary: ws rule: array_words.induct) auto

lemma concat_take: "list_all (\<lambda>w. length w = k) ws \<Longrightarrow> concat (take n ws) = take (k * n) (concat ws)"
proof (induction ws arbitrary: n)
  case (Cons w ws)
  then show ?case by (cases n) auto
qed simp

lemma concat_drop: "list_all (\<lambda>w. length w = k) ws \<Longrightarrow> concat (drop n ws) = drop (k * n) (concat ws)"
proof (induction ws arbitrary: n)
  case (Cons w ws)
  then show ?case by (cases n) auto
qed simp

lemma length_concat_words: "list_all (\<lambda>w. length w = k) ws \<Longrightarrow> length (concat ws) = k * length ws"
  by (induction ws) auto

lemma concat_packets: "concat (map (\<lambda>i. take k (drop (i * k) xs)) [0..<n]) = take (n * k) xs"
proof (induction n)
  case (Suc n)
  have "take (n * k) xs @ take k (drop (n * k) xs) = take (n * k + k) xs" by (simp add: take_add)
  with Suc show ?case by (simp add: add.commute)
qed simp

text \<open>The bytes of every word of a byte string reversed.\<close>

definition swap_words :: "bytes \<Rightarrow> bytes" where
  "swap_words bs = (case array_words bs of Inr ws \<Rightarrow> concat (map rev ws) | Inl e \<Rightarrow> [])"

lemma array_words_concat: "list_all (\<lambda>w. length w = 4) ws \<Longrightarrow> array_words (concat ws) = Inr ws"
proof (induction ws)
  case (Cons w ws)
  then obtain a b c d where "w = [a, b, c, d]" by (auto simp: length_Suc_conv numeral_eq_Suc)
  with Cons show ?case by simp
qed simp

subsection \<open>The bytes of the system variables\<close>

lemma pack_variables_concat:
  "pack_variables vals vs data = Inr bs \<longleftrightarrow>
     (\<exists>parts. list_all2 (\<lambda>v p. pack_variable vals v = Inr p) vs parts \<and> bs = data @ concat parts)"
proof (induction vs arbitrary: data)
  case (Cons v vs)
  show ?case
  proof (cases "pack_variable vals v")
    case (Inr p)
    then show ?thesis using Cons.IH [of "data @ p"]
      by (auto simp: list_all2_Cons1 intro: exI [of _ "p # _"])
  qed (auto simp: list_all2_Cons1)
qed auto

definition variable_size :: "system_variable \<Rightarrow> nat" where
  "variable_size v = calcsize (struct_code (sv_data_type v))"

lemma length_pack_variable: "pack_variable vals v = Inr bs \<Longrightarrow> length bs = variable_size v"
  by (auto simp: pack_variable_def variable_size_def dest: length_pack)

lemma packed_position:
  assumes "list_all2 (\<lambda>v p. pack_variable vals v = Inr p) vs parts" and "i < length vs"
  shows "pack_variable vals (vs ! i) =
     Inr (take (variable_size (vs ! i)) (drop (sum_list (map variable_size (take i vs))) (concat parts)))"
  using assms
proof (induction vs arbitrary: parts i)
  case (Cons v vs)
  then obtain p ps where parts: "parts = p # ps" and p: "pack_variable vals v = Inr p"
    and ps: "list_all2 (\<lambda>v p. pack_variable vals v = Inr p) vs ps" by (auto simp: list_all2_Cons1)
  show ?case
  proof (cases i)
    case 0
    then show ?thesis using parts p length_pack_variable [OF p] by simp
  next
    case (Suc j)
    then show ?thesis using Cons.IH [OF ps, of j] Cons.prems(2) parts length_pack_variable [OF p] by simp
  qed
qed simp

lemma packed_length:
  "list_all2 (\<lambda>v p. pack_variable vals v = Inr p) vs parts \<Longrightarrow>
     length (concat parts) = sum_list (map variable_size vs)"
  by (induction vs arbitrary: parts) (auto simp: list_all2_Cons1 length_pack_variable)

lemma variables_size: "sum_list (map variable_size system_variables) = 196"
  by code_simp

lemma variables_packed:
  "list_all (\<lambda>i. sv_offset (system_variables ! i) < 128 \<longrightarrow>
       sv_offset (system_variables ! i) = int (sum_list (map variable_size (take i system_variables))) \<and>
       sv_offset (system_variables ! i) + int (variable_size (system_variables ! i)) \<le> 128)
     [0..<length system_variables]"
  by code_simp

subsection \<open>Messages\<close>

lemma boot_blocks_ok:
  assumes "\<And>i. i \<in> set ids \<Longrightarrow> length (get_packet_data bms i) \<le> 1024"
  shows "boot_blocks bms ids = Inr (map (\<lambda>i.
     \<lparr>bm_opcode = FLOOD_FILL_BLOCK, bm_operand_1 = BOOT_DATA_OPERAND_1 OR (int i AND 0xFF),
      bm_operand_2 = 0, bm_operand_3 = 0, bm_data = Some (get_packet_data bms i), bm_offset = 0\<rparr>) ids)"
  using assms by (induction ids) (simp_all add: boot_message_init_def not_less)

lemma block_operand: "i < 32 \<Longrightarrow> BOOT_DATA_OPERAND_1 OR (int i AND 0xFF) = 255 * 256 + int i"
proof -
  assume "i < 32"
  moreover have "list_all (\<lambda>i. BOOT_DATA_OPERAND_1 OR (int i AND 0xFF) = 255 * 256 + int i) [0..<32]"
    by code_simp
  ultimately show ?thesis by (simp add: list_all_iff)
qed

lemma length_concat_rev: "length (concat (map rev ws)) = length (concat ws)"
  by (induction ws) auto

lemma packet_data_chunk:
  assumes "length (bms_boot_data bms) = bms_n_bytes_to_read bms"
  shows "get_packet_data bms i = take 1024 (drop (i * 1024) (bms_boot_data bms))"
  using assms by (auto simp: get_packet_data_def Let_def boot_constants min_def)

text \<open>What the constructor computes: the patched image, with the bytes of each word reversed.\<close>

lemma boot_messages_init_ok:
  assumes "boot_messages_init img version time extra = Inr bms" and "512 \<le> length img"
  shows "\<exists>vals. boot_values_bytestring (boot_values_for version time extra) = Inr vals \<and>
     bms_boot_data bms = swap_words (take 384 img @ take 128 vals @ drop 512 img) \<and>
     bms_n_bytes_to_read bms = length img \<and> length (bms_boot_data bms) = length img \<and>
     bms_no_data_packets bms = (length img + 1023) div 1024 \<and> length img \<le> 32768"
proof -
  from assms(1) obtain vals vw iw where v: "boot_values_bytestring (boot_values_for version time extra) = Inr vals"
    and vw: "array_words vals = Inr vw" and i: "get_boot_image_file img = Inr (length img)"
    and iw: "array_words (take (4 * (length img div 4)) img) = Inr iw"
    and b: "bms = \<lparr>bms_boot_data = concat (map rev (take 96 iw @ take 32 vw @ drop 128 iw)),
        bms_n_bytes_to_read = length img div 4 * 4,
        bms_no_data_packets = (length img + 1023) div 1024\<rparr>"
    unfolding boot_messages_init_def
    by (auto simp: Let_def byteswap_def boot_constants get_boot_image_file_def split: if_splits)
  from i have len: "length img mod 4 = 0" "length img \<le> 32768"
    by (auto simp: get_boot_image_file_def boot_constants split: if_splits)
  then have "4 * (length img div 4) = length img" by (simp add: mult.commute minus_mod_eq_mult_div [symmetric])
  with iw have iw: "array_words img = Inr iw" by simp
  note w = array_words_ok [OF vw] array_words_ok [OF iw]
  have cc: "concat (take 96 iw @ take 32 vw @ drop 128 iw) = take 384 img @ take 128 vals @ drop 512 img"
    using w by (simp add: concat_take [where k = 4] concat_drop [where k = 4])
  have all4: "list_all (\<lambda>w. length w = 4) (take 96 iw @ take 32 vw @ drop 128 iw)"
    using w by (auto simp: list_all_iff dest: in_set_takeD in_set_dropD)
  have sw: "swap_words (take 384 img @ take 128 vals @ drop 512 img) = bms_boot_data bms"
    using array_words_concat [OF all4] b unfolding cc by (simp add: swap_words_def)
  obtain parts where "list_all2 (\<lambda>v p. pack_variable (boot_values_for version time extra) v = Inr p)
      system_variables parts" "vals = concat parts"
    using v by (auto simp: boot_values_bytestring_def pack_variables_concat)
  then have "length vals = 196" using packed_length variables_size by metis
  then have "length (concat (map rev (take 96 iw @ take 32 vw @ drop 128 iw))) = length img"
    using cc assms(2) by (simp only: length_concat_rev) simp
  moreover have "length img div 4 * 4 = length img" using len(1) by presburger
  ultimately show ?thesis using v sw b len by simp
qed

lemma length_boot_values: "boot_values_bytestring vals = Inr bs \<Longrightarrow> length bs = 196"
  using packed_length variables_size by (fastforce simp: boot_values_bytestring_def pack_variables_concat)

lemma boot_messages_init_total:
  assumes "boot_values_bytestring (boot_values_for version time extra) = Inr vals"
    and "length img \<le> 32768" and "length img mod 4 = 0"
  shows "\<exists>bms. boot_messages_init img version time extra = Inr bms"
proof -
  have "4 * (length img div 4) = length img" using assms(3) by presburger
  moreover obtain vw iw where "array_words vals = Inr vw" "array_words img = Inr iw"
    using array_words_total [of vals] array_words_total [of img] length_boot_values [OF assms(1)] assms(3)
    by auto
  ultimately show ?thesis using assms
    by (simp add: boot_messages_init_def get_boot_image_file_def boot_constants Let_def)
qed

lemma boot_values_packed: "\<not> (\<exists>e. boot_values_bytestring boot_values_init = Inl e)"
proof -
  have "case boot_values_bytestring boot_values_init of Inl e \<Rightarrow> False | Inr bs \<Rightarrow> True" by code_simp
  then show ?thesis by (auto split: sum.splits)
qed

subsection \<open>Properties\<close>

text \<open>
  C26: in the bytes that boot a machine every system variable below offset 128 is at its own offset. If the
  values can be packed, there are 196 bytes, and the bytes at the offset of such a variable are the value
  packed in the type of the variable; nothing of it lies at or beyond offset 128.
\<close>
theorem system_variables_in_place:
  assumes "boot_values_bytestring vals = Inr bs"
    and "v \<in> set system_variables" and "sv_offset v < 128"
  shows "length bs = 196 \<and> 0 \<le> sv_offset v \<and> sv_offset v + int (variable_size v) \<le> 128 \<and>
     pack_variable vals v = Inr (take (variable_size v) (drop (nat (sv_offset v)) bs))"
proof -
  obtain parts where p: "list_all2 (\<lambda>v p. pack_variable vals v = Inr p) system_variables parts"
    and bs: "bs = concat parts"
    using assms(1) by (auto simp: boot_values_bytestring_def pack_variables_concat)
  have "length bs = 196" using packed_length [OF p] bs variables_size by simp
  obtain i where i: "i < length system_variables" "v = system_variables ! i"
    using assms(2) by (auto simp: in_set_conv_nth)
  then have at: "sv_offset v = int (sum_list (map variable_size (take i system_variables)))"
    and "sv_offset v + int (variable_size v) \<le> 128"
    using variables_packed assms(3) by (auto simp: list_all_iff)
  moreover have "pack_variable vals v = Inr (take (variable_size v) (drop (nat (sv_offset v)) bs))"
    using packed_position [OF p i(1)] i(2) bs at by simp
  ultimately show ?thesis using \<open>length bs = 196\<close> by simp
qed

text \<open>
  C25: the messages of a boot deliver the image. For an image that reaches past the patched area, the
  messages are a start naming the number of blocks less one, the blocks in order, each with its number,
  at most 1024 bytes and the words-per-block field 255, and the control message that ends the sequence;
  at most 32 blocks are sent and their data put together is the image with bytes 384 to 511 replaced by
  the first 128 bytes of the system variables, every word with its bytes reversed.
\<close>
theorem boot_image_delivered:
  assumes "boot_messages_init img version time extra = Inr bms" and "512 \<le> length img"
  shows "\<exists>vals start blocks control. messages bms = Inr (start # blocks @ [control]) \<and>
     boot_values_bytestring (boot_values_for version time extra) = Inr vals \<and>
     bm_opcode start = FLOOD_FILL_START \<and> bm_operand_3 start = int (length blocks) - 1 \<and>
     bm_opcode control = FLOOD_FILL_CONTROL \<and> bm_operand_1 control = 1 \<and>
     length blocks = (length img + 1023) div 1024 \<and> length blocks \<le> 32 \<and>
     (\<forall>i < length blocks. bm_opcode (blocks ! i) = FLOOD_FILL_BLOCK \<and>
        bm_operand_1 (blocks ! i) = 255 * 256 + int i \<and> bm_offset (blocks ! i) = 0 \<and>
        (\<exists>d. bm_data (blocks ! i) = Some d \<and> length d \<le> 1024)) \<and>
     concat (map (the \<circ> bm_data) blocks) = swap_words (take 384 img @ take 128 vals @ drop 512 img)"
proof -
  let ?n = "(length img + 1023) div 1024"
  obtain vals where v: "boot_values_bytestring (boot_values_for version time extra) = Inr vals"
    and d: "bms_boot_data bms = swap_words (take 384 img @ take 128 vals @ drop 512 img)"
    and l: "length (bms_boot_data bms) = length img" "bms_n_bytes_to_read bms = length img"
    and n: "bms_no_data_packets bms = ?n" "?n \<le> 32"
    using boot_messages_init_ok [OF assms] by force
  have c: "get_packet_data bms i = take 1024 (drop (i * 1024) (bms_boot_data bms))" for i
    by (rule packet_data_chunk) (simp add: l)
  define block where "block i =
     \<lparr>bm_opcode = FLOOD_FILL_BLOCK, bm_operand_1 = BOOT_DATA_OPERAND_1 OR (int i AND 0xFF),
      bm_operand_2 = 0, bm_operand_3 = 0, bm_data = Some (get_packet_data bms i), bm_offset = 0\<rparr>" for i
  have "boot_blocks bms [0..<?n] = Inr (map block [0..<?n])"
    unfolding block_def by (rule boot_blocks_ok) (simp add: c)
  moreover have "concat (map (the \<circ> bm_data) (map block [0..<?n])) = bms_boot_data bms"
    using concat_packets [of 1024 "bms_boot_data bms" ?n] l by (simp add: block_def c o_def)
  ultimately show ?thesis using v d n
    by (intro exI [of _ vals] exI [of _ "map block [0..<?n]"])
      (auto simp: messages_def boot_message_init_def block_def c block_operand)
qed

text \<open>
  No boot message can be read back. Whatever \<open>bytestring\<close> writes, \<open>from_bytestring\<close> refuses: a
  message without data is shorter than the 20 bytes that the aligned native format asks for, and in a
  longer one the operation code is read from the wrong bytes in the wrong order.
\<close>
theorem boot_message_unreadable:
  assumes "boot_message_bytestring m = Inr bs"
  shows "boot_message_from_bytestring bs 0 = Inl (if length bs < 20 then StructError else PyValueError)"
proof (cases "length bs < 20")
  case True
  then show ?thesis
    by (simp add: boot_message_from_bytestring_def struct_unpack_from_short PATTERN_2xIIII_def)
next
  case False
  let ?op = "le_val (take 4 (drop 4 bs))"
  obtain h data where h: "struct_pack Big [FH, FI, FI, FI, FI]
      [BOOT_MESSAGE_VERSION, boot_op_code_value (bm_opcode m), bm_operand_1 m, bm_operand_2 m, bm_operand_3 m]
      = Inr h" and bs: "bs = h @ data"
    using assms by (auto simp: boot_message_bytestring_def Let_def)
  obtain x y where "take 4 (drop 4 bs) = [0, word_of_int (boot_op_code_value (bm_opcode m)), x, y]"
    using h bs by (cases "bm_opcode m")
      (auto simp: struct_pack_def order_bytes_def eval_nat_numeral BOOT_MESSAGE_VERSION_def split: if_splits)
  then have "?op = 256 * boot_op_code_value (bm_opcode m) + 65536 * uint x + 16777216 * uint y"
    by (cases "bm_opcode m") simp_all
  moreover have "0 \<le> uint x" "0 \<le> uint y" by simp_all
  ultimately have "256 \<le> ?op" by (cases "bm_opcode m") simp_all
  then have "enum_of boot_op_code_members boot_op_code_value ?op = Inl PyValueError"
    by (auto simp: enum_of_def enum_lookup_def boot_op_code_members_def require_def)
  moreover have "struct_unpack_from Little PATTERN_2xIIII bs 0 =
      Inr [?op, le_val (take 4 (drop 8 bs)), le_val (take 4 (drop 12 bs)), le_val (take 4 (drop 16 bs))]"
    using False by (simp add: struct_unpack_from_def unpack_from_def PATTERN_2xIIII_def as_int_def
        order_bytes_def drop_take numeral_eq_Suc)
  ultimately show ?thesis using False by (simp add: boot_message_from_bytestring_def)
qed

subsection \<open>Witnesses\<close>

theorem boot_message_unreadable_witness:
  "boot_message_from_bytestring
     [0, 1, 0, 0, 0, 3, 0, 0, 255, 0, 0, 0, 0, 0, 0, 0, 0, 0, 7, 8] 0 = Inl PyValueError"
proof -
  let ?m = "\<lparr>bm_opcode = FLOOD_FILL_BLOCK, bm_operand_1 = 0xFF00, bm_operand_2 = 0, bm_operand_3 = 0,
     bm_data = Some [7, 8], bm_offset = 0\<rparr>"
  have "boot_message_bytestring ?m =
      Inr [0, 1, 0, 0, 0, 3, 0, 0, 255, 0, 0, 0, 0, 0, 0, 0, 0, 0, 7, 8]" by code_simp
  from boot_message_unreadable [OF this] show ?thesis by simp
qed

theorem system_variables_in_place_witness:
  "\<exists>bs. boot_values_bytestring boot_values_init = Inr bs \<and> length bs = 196 \<and>
     take 4 (drop 0x50 bs) = [0, 0x40, 0, 0]"
proof -
  obtain bs where bs: "boot_values_bytestring boot_values_init = Inr bs"
    by (cases "boot_values_bytestring boot_values_init") (use boot_values_packed in auto)
  have "SV_iobuf_size \<in> set system_variables" by (simp add: system_variables_def)
  moreover have "sv_offset SV_iobuf_size < 128" by (simp add: system_variable_defs)
  moreover have "pack_variable boot_values_init SV_iobuf_size = Inr [0, 0x40, 0, 0]"
    "variable_size SV_iobuf_size = 4" "nat (sv_offset SV_iobuf_size) = 0x50" by code_simp+
  ultimately show ?thesis using system_variables_in_place [OF bs, of SV_iobuf_size] bs by simp
qed

theorem boot_image_delivered_witness:
  "\<exists>bms start b control. boot_messages_init (replicate 516 7) 5 1 [] = Inr bms \<and>
     messages bms = Inr [start, b, control] \<and> bm_operand_3 start = 0"
proof -
  have "case boot_values_bytestring (boot_values_for 5 1 []) of Inl e \<Rightarrow> False | Inr bs \<Rightarrow> True"
    by code_simp
  then obtain vals where "boot_values_bytestring (boot_values_for 5 1 []) = Inr vals"
    by (auto split: sum.splits)
  from boot_messages_init_total [OF this, of "replicate 516 7"] obtain bms
    where b: "boot_messages_init (replicate 516 7) 5 1 [] = Inr bms" by auto
  from boot_image_delivered [OF b] obtain start blocks control
    where "messages bms = Inr (start # blocks @ [control])" "length blocks = 1"
      "bm_operand_3 start = int (length blocks) - 1" by auto
  with b show ?thesis by (auto simp: length_Suc_conv)
qed

end
