(* ===== verification/Utilities.thy ===== *)
theory Utilities
  imports Pipeline
begin

text \<open>
  Utilities (\<open>utilities/appid_tracker.py\<close>, \<open>utilities/utility_functions.py\<close>) and the constants of the
  memory map (\<open>constants.py\<close>).
\<close>

subsection \<open>The memory map\<close>

definition SYSTEM_VARIABLE_BASE_ADDRESS :: int where "SYSTEM_VARIABLE_BASE_ADDRESS = 0xf5007f00"
definition ROUTER_REGISTER_BASE_ADDRESS :: int where "ROUTER_REGISTER_BASE_ADDRESS = 0xe1000000"
definition ROUTER_REGISTER_P2P_ADDRESS :: int where
  "ROUTER_REGISTER_P2P_ADDRESS = ROUTER_REGISTER_BASE_ADDRESS + 0x10000"
definition ROUTER_FILTER_CONTROLS_OFFSET :: int where "ROUTER_FILTER_CONTROLS_OFFSET = 0x200"
definition ROUTER_DEFAULT_FILTERS_MAX_POSITION :: int where "ROUTER_DEFAULT_FILTERS_MAX_POSITION = 11"
definition ROUTER_DIAGNOSTIC_FILTER_SIZE :: int where "ROUTER_DIAGNOSTIC_FILTER_SIZE = 4"
definition NO_ROUTER_DIAGNOSTIC_FILTERS :: int where "NO_ROUTER_DIAGNOSTIC_FILTERS = 16"
definition CPU_INFO_OFFSET :: int where "CPU_INFO_OFFSET = 0xe5007000"
definition CPU_INFO_BYTES :: int where "CPU_INFO_BYTES = 128"
definition CPU_USER_START_ADDRESS :: int where "CPU_USER_START_ADDRESS = 112"
definition CPU_USER_OFFSET :: int where "CPU_USER_OFFSET = 4"
definition CPU_MAX_USER :: int where "CPU_MAX_USER = 3"
definition CPU_IOBUF_ADDRESS_OFFSET :: int where "CPU_IOBUF_ADDRESS_OFFSET = 88"
definition SCP_SCAMP_PORT :: int where "SCP_SCAMP_PORT = 17893"
definition UDP_BOOT_CONNECTION_DEFAULT_PORT :: int where "UDP_BOOT_CONNECTION_DEFAULT_PORT = 54321"
definition BOOT_RETRIES :: int where "BOOT_RETRIES = 3"

lemmas memory_map =
  SYSTEM_VARIABLE_BASE_ADDRESS_def ROUTER_REGISTER_BASE_ADDRESS_def ROUTER_REGISTER_P2P_ADDRESS_def
  ROUTER_FILTER_CONTROLS_OFFSET_def ROUTER_DEFAULT_FILTERS_MAX_POSITION_def
  ROUTER_DIAGNOSTIC_FILTER_SIZE_def NO_ROUTER_DIAGNOSTIC_FILTERS_def CPU_INFO_OFFSET_def
  CPU_INFO_BYTES_def CPU_USER_START_ADDRESS_def CPU_USER_OFFSET_def CPU_MAX_USER_def
  CPU_IOBUF_ADDRESS_OFFSET_def

definition get_vcpu_address :: "int \<Rightarrow> int" where
  "get_vcpu_address p = CPU_INFO_OFFSET + CPU_INFO_BYTES * p"

subsection \<open>\<open>AppIdTracker\<close>\<close>

text \<open>\<open>set.pop\<close> removes an element of its choice: \<open>pick\<close> is that choice.\<close>

record app_id_tracker =
  free_ids :: "int set"
  min_app_id :: int
  max_app_id :: int

definition MIN_APP_ID :: int where "MIN_APP_ID = 17"
definition MAX_APP_ID :: int where "MAX_APP_ID = 254"

definition app_id_tracker_init :: "int list option \<Rightarrow> int \<Rightarrow> int \<Rightarrow> app_id_tracker" where
  "app_id_tracker_init app_ids_in_use min_id max_id =
     (let free = set [min_id .. max_id - 1]
      in \<lparr>free_ids = (case app_ids_in_use of None \<Rightarrow> free | Some ids \<Rightarrow> free - set ids),
          min_app_id = min_id, max_app_id = max_id\<rparr>)"

definition get_new_id :: "(int set \<Rightarrow> int) \<Rightarrow> app_id_tracker \<Rightarrow> (int \<times> app_id_tracker) res" where
  "get_new_id pick t =
     (if free_ids t = {} then Inl PyKeyError
      else let i = pick (free_ids t) in Inr (i, t\<lparr>free_ids := free_ids t - {i}\<rparr>))"

definition allocate_id :: "int \<Rightarrow> app_id_tracker \<Rightarrow> app_id_tracker res" where
  "allocate_id allocated_id t =
     (if allocated_id \<in> free_ids t then Inr (t\<lparr>free_ids := free_ids t - {allocated_id}\<rparr>)
      else Inl PyKeyError)"

definition free_id :: "int \<Rightarrow> app_id_tracker \<Rightarrow> app_id_tracker res" where
  "free_id id_to_free t =
     (if id_to_free < min_app_id t \<or> id_to_free > max_app_id t then Inl PyKeyError
      else Inr (t\<lparr>free_ids := insert id_to_free (free_ids t)\<rparr>))"

subsection \<open>Tags and triggers\<close>

text \<open>
  The retry loop of \<open>reprogram_tag\<close> and \<open>reprogram_tag_to_listener\<close>: a send, and (if a response is
  read) a reply; only a timeout is retried, and the last one is raised in the end. \<open>read_reply\<close>
  is how the caller reads the datagram.
\<close>

fun reprogram_tries ::
  "nat \<Rightarrow> bytes \<Rightarrow> bool \<Rightarrow> (recv \<Rightarrow> response res) \<Rightarrow> exc option \<Rightarrow> scp_connection \<Rightarrow> recv list \<Rightarrow>
     (scp_connection, recv) outcome" where
  "reprogram_tries 0 data read_response read_reply exception c evs =
     Raised (case exception of Some e \<Rightarrow> e | None \<Rightarrow> PyException) c evs"
| "reprogram_tries (Suc n) data read_response read_reply exception c evs =
     (case conn_send c data of
        (c', Some e) \<Rightarrow>
          if is_timeout e then reprogram_tries n data read_response read_reply (Some e) c' evs
          else Raised e c' evs
      | (c', None) \<Rightarrow>
          if \<not> read_response then Returned c' evs
          else (case evs of
                  [] \<Rightarrow> Waiting c'
                | ev # evs' \<Rightarrow>
                    (case read_reply ev of
                       Inr r \<Rightarrow> Returned c' evs'
                     | Inl e \<Rightarrow>
                         if is_timeout e then reprogram_tries n data read_response read_reply (Some e) c' evs'
                         else Raised e c' evs')))"

definition reprogram_reply :: "reader \<Rightarrow> scp_request \<Rightarrow> recv \<Rightarrow> response res" where
  "reprogram_reply rd request ev =
     bind_res (receive_scp_response ev) (\<lambda>(result, sequence, response, offset).
       rd (req_response request) response offset)"

definition reprogram_tag ::
  "reader \<Rightarrow> int \<Rightarrow> bool \<Rightarrow> scp_connection \<Rightarrow> recv list \<Rightarrow> (scp_connection, recv) outcome" where
  "reprogram_tag rd tag strip c evs =
     (case iptag_set (conn_chip_x c) (conn_chip_y c) [0, 0, 0, 0] 0 tag strip True of
        Inl e \<Rightarrow> Raised e c evs
      | Inr request \<Rightarrow>
          (case get_scp_data c request of
             (request', Inl e) \<Rightarrow> Raised e c evs
           | (request', Inr data) \<Rightarrow>
               reprogram_tries 3 data True (reprogram_reply rd request') None c evs))"

definition reprogram_tag_to_listener ::
  "reader \<Rightarrow> int \<Rightarrow> int \<Rightarrow> int \<Rightarrow> bool \<Rightarrow> bool \<Rightarrow> scp_connection \<Rightarrow> recv list \<Rightarrow> (scp_connection, recv) outcome" where
  "reprogram_tag_to_listener rd x y tag strip read_response c evs =
     (case iptag_set x y [0, 0, 0, 0] 0 tag strip True of
        Inl e \<Rightarrow> Raised e c evs
      | Inr request \<Rightarrow>
          (case scp_request_bytestring (stamp_request x y request) of
             Inl e \<Rightarrow> Raised e c evs
           | Inr bs \<Rightarrow>
               reprogram_tries 3 ([0, 0] @ bs) read_response
                 (\<lambda>ev. bind_res (udp_receive ev) (\<lambda>data. rd (req_response request) data 2)) None c evs))"

text \<open>\<open>send_port_trigger_message\<close>: the bytes handed to \<open>send_to\<close>.\<close>

definition port_trigger_message :: sdp_message where
  "port_trigger_message =
     \<lparr>sdpm_header = update_for_send 0 0
        ((scamp_header 0 0 0)\<lparr>sdp_flags := REPLY_NOT_EXPECTED, sdp_tag := Some 0, sdp_destination_port := 3\<rparr>),
      sdpm_data = None, sdpm_offset = 0\<rparr>"

definition send_port_trigger_message :: "scp_connection \<Rightarrow> scp_connection \<times> exc option" where
  "send_port_trigger_message c =
     (case sdp_message_bytestring port_trigger_message of
        Inl e \<Rightarrow> (c, Some e) | Inr bs \<Rightarrow> conn_send c bs)"

end
