(* ===== verification/UtilityProps.thy ===== *)
theory UtilityProps
  imports Utilities
begin

text \<open>
  The identifier tracker refines an allocator of a fixed range, and reprogramming a tag sends at most
  three times.
\<close>

subsection \<open>Application identifiers\<close>

text \<open>
  What the users of a tracker may do: ask for an identifier, claim one, and give back one they hold.
  The second component is the set of identifiers held.
\<close>

inductive tracker_step ::
  "(int set \<Rightarrow> int) \<Rightarrow> app_id_tracker \<times> int set \<Rightarrow> app_id_tracker \<times> int set \<Rightarrow> bool" for pick where
  new: "get_new_id pick t = Inr (i, t') \<Longrightarrow> tracker_step pick (t, held) (t', insert i held)"
| claim: "allocate_id i t = Inr t' \<Longrightarrow> tracker_step pick (t, held) (t', insert i held)"
| give: "i \<in> held \<Longrightarrow> free_id i t = Inr t' \<Longrightarrow> tracker_step pick (t, held) (t', held - {i})"

inductive_cases tracker_stepE: "tracker_step pick s s'"

text \<open>
  The contract of an allocator over a universe of identifiers: what is held and what is free make up the
  universe and do not meet.
\<close>

locale id_allocator =
  fixes free :: "'t \<Rightarrow> int set" and step :: "'t \<times> int set \<Rightarrow> 't \<times> int set \<Rightarrow> bool"
    and ok :: "int set \<Rightarrow> 't \<Rightarrow> bool"
  assumes step_partition:
    "step (t, held) (t', held') \<Longrightarrow> ok U t \<Longrightarrow> held \<subseteq> U \<Longrightarrow> free t = U - held \<Longrightarrow>
       ok U t' \<and> held' \<subseteq> U \<and> free t' = U - held'"
begin

lemma reachable_partition:
  assumes "step\<^sup>*\<^sup>* s s'" and "ok U (fst s)" and "snd s \<subseteq> U" and "free (fst s) = U - snd s"
  shows "ok U (fst s') \<and> snd s' \<subseteq> U \<and> free (fst s') = U - snd s'"
  using assms
proof (induction rule: rtranclp_induct)
  case (step y z)
  obtain t held t' held' where "y = (t, held)" "z = (t', held')" by fastforce
  with step step_partition [of t held t' held' U] show ?case by auto
qed simp

end

definition picks :: "(int set \<Rightarrow> int) \<Rightarrow> bool" where
  "picks pick \<longleftrightarrow> (\<forall>S. finite S \<longrightarrow> S \<noteq> {} \<longrightarrow> pick S \<in> S)"

lemma get_new_id_ok:
  assumes "picks pick" and "finite (free_ids t)" and "get_new_id pick t = Inr (i, t')"
  shows "i \<in> free_ids t \<and> t' = t\<lparr>free_ids := free_ids t - {i}\<rparr>"
proof -
  have "free_ids t \<noteq> {}" "i = pick (free_ids t)" "t' = t\<lparr>free_ids := free_ids t - {i}\<rparr>"
    using assms(3) by (auto simp: get_new_id_def Let_def split: if_splits)
  then show ?thesis using assms(1,2) unfolding picks_def by blast
qed

definition tracker_range :: "int set \<Rightarrow> app_id_tracker \<Rightarrow> bool" where
  "tracker_range U t \<longleftrightarrow> finite U \<and> U \<subseteq> {min_app_id t ..< max_app_id t}"

interpretation app_ids: id_allocator free_ids "tracker_step pick" "\<lambda>U t. tracker_range U t \<and> picks pick" for pick
proof
  fix t held t' held' U
  assume step: "tracker_step pick (t, held) (t', held')"
    and ok: "tracker_range U t \<and> picks pick" and h: "held \<subseteq> U" "free_ids t = U - held"
  from step show "(tracker_range U t' \<and> picks pick) \<and> held' \<subseteq> U \<and> free_ids t' = U - held'"
  proof (cases rule: tracker_step.cases)
    case (new i)
    then show ?thesis using get_new_id_ok [of pick t i t'] ok h finite_subset [of "free_ids t" U] by (auto simp: tracker_range_def)
  next
    case (claim i)
    then have "i \<in> free_ids t" "t' = t\<lparr>free_ids := free_ids t - {i}\<rparr>" "held' = insert i held"
      by (simp_all add: allocate_id_def split: if_splits)
    then show ?thesis using ok h by (auto simp: tracker_range_def)
  next
    case (give i)
    then have "t' = t\<lparr>free_ids := insert i (free_ids t)\<rparr>" by (simp add: free_id_def split: if_splits)
    then show ?thesis using give ok h by (auto simp: tracker_range_def)
  qed
qed

text \<open>
  C27: the tracker is an exclusive allocator of \<open>min .. max - 1\<close>. Start it with identifiers in use and let its users
  ask for identifiers, claim them and give back only what they hold, in any order: then the identifiers held
  lie in this range and were not in use, the free ones are exactly the rest, a new identifier is
  one that nobody holds, and asking for one fails exactly when all of these are held. The constructor's
  \<open>range(min, max)\<close> thus leaves out \<open>max_app_id\<close>, which its documentation calls the largest identifier to use: it is
  neither held nor free at any time, claiming it fails, and so does asking for an identifier when it alone is left.
\<close>
theorem app_ids_exclusive:
  assumes "picks pick"
    and "(tracker_step pick)\<^sup>*\<^sup>* (app_id_tracker_init (Some in_use) lo hi, {}) (t, held)"
  shows "held \<subseteq> {lo..<hi} - set in_use \<and> free_ids t = {lo..<hi} - set in_use - held \<and>
     (\<forall>i t'. get_new_id pick t = Inr (i, t') \<longrightarrow> i \<in> {lo..<hi} - set in_use - held) \<and>
     (get_new_id pick t = Inl PyKeyError \<longleftrightarrow> held = {lo..<hi} - set in_use) \<and>
     hi \<notin> held \<and> hi \<notin> free_ids t \<and> allocate_id hi t = Inl PyKeyError"
proof -
  let ?U = "{lo..<hi} - set in_use" and ?t0 = "app_id_tracker_init (Some in_use) lo hi"
  have "{lo..hi - 1} = {lo..<hi}" by auto
  then have "free_ids ?t0 = ?U - {}" "tracker_range ?U ?t0"
    by (auto simp: app_id_tracker_init_def tracker_range_def)
  moreover have "finite ?U" by simp
  ultimately have p: "held \<subseteq> ?U" "free_ids t = ?U - held"
    using app_ids.reachable_partition [OF assms(2), of ?U] assms(1) by auto
  moreover have "\<forall>i t'. get_new_id pick t = Inr (i, t') \<longrightarrow> i \<in> ?U - held"
    using get_new_id_ok [OF assms(1), of t] p(2) \<open>finite ?U\<close> by (metis finite_Diff)
  moreover have "get_new_id pick t = Inl PyKeyError \<longleftrightarrow> held = ?U"
    using p by (auto simp: get_new_id_def Let_def)
  moreover have "hi \<notin> held" "hi \<notin> free_ids t" "allocate_id hi t = Inl PyKeyError"
    using p by (auto simp: allocate_id_def)
  ultimately show ?thesis by blast
qed

text \<open>
  The bound of \<open>free_id\<close> is one too wide. The largest identifier is never free at first, yet
  \<open>free_id\<close> accepts it, and afterwards a tracker whose other identifiers are all in use hands it out.
\<close>
theorem app_id_max_handed_out:
  assumes "lo \<le> hi" and "pick {hi} = hi"
  shows "hi \<notin> free_ids (app_id_tracker_init None lo hi) \<and>
     (\<exists>t. free_id hi (app_id_tracker_init (Some [lo .. hi - 1]) lo hi) = Inr t \<and>
        (\<exists>t'. get_new_id pick t = Inr (hi, t')))"
  using assms by (auto simp: app_id_tracker_init_def free_id_def get_new_id_def Let_def)

subsection \<open>Reprogramming a tag\<close>

text \<open>What at most \<open>n\<close> tries may have done when they end.\<close>

definition tries_ok ::
  "nat \<Rightarrow> bytes \<Rightarrow> bool \<Rightarrow> (recv \<Rightarrow> response res) \<Rightarrow> scp_connection \<Rightarrow> recv list \<Rightarrow>
     (scp_connection, recv) outcome \<Rightarrow> bool" where
  "tries_ok n data rr rep c evs out \<longleftrightarrow>
     (case out of
        Returned c' evs' \<Rightarrow>
          (\<exists>k. 1 \<le> k \<and> k \<le> n \<and> conn_attempts c' = conn_attempts c @ replicate k data) \<and>
          (rr \<longrightarrow> (\<exists>used ev r. evs = used @ ev # evs' \<and> rep ev = Inr r))
      | Raised x c' evs' \<Rightarrow>
          (\<exists>k. k \<le> n \<and> conn_attempts c' = conn_attempts c @ replicate k data \<and> (is_timeout x \<longrightarrow> k = n))
      | Waiting c' \<Rightarrow> (\<exists>k. k \<le> n \<and> conn_attempts c' = conn_attempts c @ replicate k data))"

lemma tries_ok_again:
  assumes "tries_ok n data rr rep c' evs' out" and c': "conn_attempts c' = conn_attempts c @ [data]"
    and evs: "evs = pre @ evs'"
  shows "tries_ok (Suc n) data rr rep c evs out"
proof -
  have more: "conn_attempts c' @ replicate k data = conn_attempts c @ replicate (Suc k) data" for k
    by (simp add: c' replicate_append_same)
  show ?thesis
  proof (cases out)
    case (Returned d evs'')
    obtain k where "1 \<le> k" "k \<le> n" "conn_attempts d = conn_attempts c' @ replicate k data"
      and r: "rr \<longrightarrow> (\<exists>used ev r. evs' = used @ ev # evs'' \<and> rep ev = Inr r)"
      using assms(1) Returned by (auto simp: tries_ok_def)
    then have "1 \<le> Suc k \<and> Suc k \<le> Suc n \<and> conn_attempts d = conn_attempts c @ replicate (Suc k) data"
      using more by simp
    moreover have "rr \<longrightarrow> (\<exists>used ev r. evs = used @ ev # evs'' \<and> rep ev = Inr r)"
      using r evs by (metis append.assoc)
    ultimately show ?thesis unfolding tries_ok_def Returned outcome.case by blast
  next
    case (Raised x d evs'')
    obtain k where "k \<le> n" "conn_attempts d = conn_attempts c' @ replicate k data" "is_timeout x \<longrightarrow> k = n"
      using assms(1) Raised by (auto simp: tries_ok_def)
    then have "Suc k \<le> Suc n \<and> conn_attempts d = conn_attempts c @ replicate (Suc k) data \<and>
        (is_timeout x \<longrightarrow> Suc k = Suc n)"
      using more by simp
    then show ?thesis unfolding tries_ok_def Raised outcome.case by blast
  next
    case (Waiting d)
    obtain k where "k \<le> n" "conn_attempts d = conn_attempts c' @ replicate k data"
      using assms(1) Waiting by (auto simp: tries_ok_def)
    then have "Suc k \<le> Suc n \<and> conn_attempts d = conn_attempts c @ replicate (Suc k) data" using more by simp
    then show ?thesis unfolding tries_ok_def Waiting outcome.case by blast
  qed
qed

lemma tries_ok_once:
  "conn_attempts c' = conn_attempts c @ [data] \<Longrightarrow> (rr \<Longrightarrow> \<exists>ev r. evs = ev # evs' \<and> rep ev = Inr r) \<Longrightarrow>
     tries_ok (Suc n) data rr rep c evs (Returned c' evs')"
  by (auto simp: tries_ok_def intro!: exI [of _ 1] exI [of _ "[]"])

lemma tries_ok_stops:
  "conn_attempts c' = conn_attempts c @ [data] \<Longrightarrow> \<not> is_timeout x \<Longrightarrow>
     tries_ok (Suc n) data rr rep c evs (Raised x c' evs')"
  by (auto simp: tries_ok_def intro!: exI [of _ 1])

lemma reprogram_tries_ok:
  "tries_ok n data rr rep c evs (reprogram_tries n data rr rep e c evs)"
proof (induction n arbitrary: e c evs)
  case 0
  show ?case by (simp add: tries_ok_def)
next
  case (Suc n)
  obtain c' err where s: "conn_send c data = (c', err)" by fastforce
  then have c': "conn_attempts c' = conn_attempts c @ [data]" by (auto simp: conn_send_def)
  have again: "tries_ok (Suc n) data rr rep c (pre @ us) (reprogram_tries n data rr rep (Some x) c' us)" for pre us x
    by (rule tries_ok_again [OF Suc.IH c' refl])
  show ?case
  proof (cases err)
    case (Some x)
    then show ?thesis using s again [of "[]" evs x] tries_ok_stops [OF c'] by auto
  next
    case None
    show ?thesis
    proof (cases "\<not> rr \<or> evs = []")
      case True
      then show ?thesis using s None tries_ok_once [OF c', of rr] c'
        by (cases rr) (auto simp: tries_ok_def intro!: exI [of _ 1])
    next
      case False
      then obtain ev evs' where evs: "evs = ev # evs'" "rr" by (cases evs) auto
      show ?thesis
      proof (cases "rep ev")
        case (Inr r)
        then show ?thesis using s None evs tries_ok_once [OF c'] by simp
      next
        case (Inl x)
        then show ?thesis using s None evs again [of "[ev]" evs' x] tries_ok_stops [OF c'] by simp
      qed
    qed
  qed
qed

text \<open>
  Reprogramming a tag sends the request at most three times. Every send is the same bytes; it returns
  only after a reply to be read was read without an exception, and it ends with a timeout only when
  all three tries have been made.
\<close>
theorem reprogram_tag_three_tries:
  assumes "iptag_set (conn_chip_x c) (conn_chip_y c) [0, 0, 0, 0] 0 tag strip True = Inr request"
    and "get_scp_data c request = (request', Inr data)"
  shows "case reprogram_tag rd tag strip c evs of
     Returned c' evs' \<Rightarrow>
       (\<exists>k \<in> {1..3}. conn_attempts c' = conn_attempts c @ replicate k data) \<and>
       (\<exists>used ev r. evs = used @ ev # evs' \<and> reprogram_reply rd request' ev = Inr r)
   | Raised x c' evs' \<Rightarrow>
       (\<exists>k \<in> {0..3}. conn_attempts c' = conn_attempts c @ replicate k data \<and> (is_timeout x \<longrightarrow> k = 3))
   | Waiting c' \<Rightarrow> (\<exists>k \<in> {0..3}. conn_attempts c' = conn_attempts c @ replicate k data)"
  using reprogram_tries_ok [of 3 data True "reprogram_reply rd request'" c evs None] assms
  by (fastforce simp: reprogram_tag_def tries_ok_def split: outcome.splits)

subsection \<open>Witnesses\<close>

theorem app_ids_exclusive_witness:
  "\<exists>t. (tracker_step Min)\<^sup>*\<^sup>* (app_id_tracker_init (Some [17]) 17 20, {}) (t, {18}) \<and> free_ids t = {19} \<and>
     get_new_id Min t \<noteq> Inl PyKeyError \<and> allocate_id 20 t = Inl PyKeyError"
proof -
  let ?t0 = "app_id_tracker_init (Some [17]) 17 20"
  have f: "free_ids ?t0 = {18, 19}" by (auto simp: app_id_tracker_init_def)
  then have "get_new_id Min ?t0 = Inr (18, ?t0\<lparr>free_ids := {19}\<rparr>)"
    by (auto simp: get_new_id_def Let_def)
  then have r: "(tracker_step Min)\<^sup>*\<^sup>* (?t0, {}) (?t0\<lparr>free_ids := {19}\<rparr>, {18})"
    using tracker_step.new [of Min ?t0 18 _ "{}"] by blast
  have "picks Min" by (simp add: picks_def)
  from app_ids_exclusive [OF this r] r show ?thesis by auto
qed

theorem app_id_max_handed_out_witness:
  "20 \<notin> free_ids (app_id_tracker_init None 17 20)"
  using app_id_max_handed_out [of 17 20 "\<lambda>S. 20"] by simp

theorem reprogram_tag_three_tries_witness:
  "case reprogram_tag (read_bytestring 6) 3 True sample_connection [RecvTimeout, RecvTimeout, RecvTimeout] of
     Raised x c' evs' \<Rightarrow> length (conn_attempts c') = 3 | _ \<Rightarrow> False"
proof -
  have "case iptag_set (conn_chip_x sample_connection) (conn_chip_y sample_connection) [0, 0, 0, 0] 0 3 True True of
      Inl e \<Rightarrow> False | Inr r \<Rightarrow> (case get_scp_data sample_connection r of (r', Inl e) \<Rightarrow> False | (r', Inr d) \<Rightarrow> True)"
    by code_simp
  then obtain r r' d where r: "iptag_set (conn_chip_x sample_connection) (conn_chip_y sample_connection)
      [0, 0, 0, 0] 0 3 True True = Inr r" and d: "get_scp_data sample_connection r = (r', Inr d)"
    by (auto split: sum.splits prod.splits) (metis obj_sumE)
  have "case reprogram_tag (read_bytestring 6) 3 True sample_connection [RecvTimeout, RecvTimeout, RecvTimeout] of
     Raised x c' evs' \<Rightarrow> is_timeout x | _ \<Rightarrow> False" by code_simp
  then show ?thesis
    using reprogram_tag_three_tries [OF r d, where rd = "read_bytestring 6" and evs = "[RecvTimeout, RecvTimeout, RecvTimeout]"]
    by (auto simp: sample_connection_def split: outcome.splits)
qed

end
