(* ===== verification/CpuInfo.thy ===== *)
theory CpuInfo
  imports SystemVariables Responses "HOL-Library.AList"
begin

text \<open>
  What is read about a core and about a chip: the block of a virtual CPU (\<open>model/cpu_info.py\<close>), the
  collection of such blocks (\<open>model/cpu_infos.py\<close>) and the system variables of a chip
  (\<open>model/chip_info.py\<close>).
\<close>

subsection \<open>\<open>CPUInfo\<close>\<close>

definition VCPU_PATTERN :: "fitem list" where
  "VCPU_PATTERN =
     [FS 32, FI, FI, FI, FB, FB, FB, FB, FI, FI, FB, FB, FH, FI, FI, FI, FS 16, FI, FI] @
     replicate 16 Fx @ [FI, FI, FI, FI]"

definition REGISTERS_PATTERN :: "fitem list" where
  "REGISTERS_PATTERN = [FI, FI, FI, FI, FI, FI, FI, FI]"

record cpu_info =
  cpu_x :: int
  cpu_y :: int
  cpu_p :: int
  cpu_application_name :: ustr
  cpu_registers :: "int list"
  cpu_processor_state_register :: int
  cpu_stack_pointer :: int
  cpu_link_register :: int
  cpu_run_time_error :: run_time_error
  cpu_physical_cpu_id :: int
  cpu_state_of :: cpu_state
  cpu_application_id :: int
  cpu_app_mailbox :: int
  cpu_monitor_mailbox :: int
  cpu_application_mailbox_command :: mailbox_command
  cpu_monitor_mailbox_command :: mailbox_command
  cpu_software_error_count :: int
  cpu_filename_address :: int
  cpu_line_number :: int
  cpu_time :: int
  cpu_iobuf_address :: int
  cpu_software_version :: int
  cpu_user :: "int list"

text \<open>\<open>bytes.decode("ascii")\<close>: a byte of 128 or more is a \<open>UnicodeDecodeError\<close>, a \<open>ValueError\<close>.\<close>

definition ascii_decode :: "bytes \<Rightarrow> ustr res" where
  "ascii_decode bs = (if list_all (\<lambda>b. uint b < 128) bs then Inr (map uint bs) else Inl PyValueError)"

text \<open>The constructor, from the tuple that \<open>_VCPU_PATTERN.unpack_from\<close> returns.\<close>

definition cpu_info_init :: "int \<Rightarrow> int \<Rightarrow> int \<Rightarrow> sval list \<Rightarrow> cpu_info res" where
  "cpu_info_init x y p cpu_data = (case cpu_data of
     [VS registers, VI psr, VI sp, VI lr, VI rte, VI phys, VI state, VI app_id, VI app_mailbox,
      VI monitor_mailbox, VI app_cmd, VI mon_cmd, VI sw_errors, VI filename, VI line, VI time,
      VS app_name, VI iobuf, VI sw_version, VI user0, VI user1, VI user2, VI user3] \<Rightarrow>
       bind_res (ascii_decode (takeWhile (\<lambda>b. b \<noteq> 0) app_name)) (\<lambda>name.
       bind_res (struct_unpack_from Little REGISTERS_PATTERN registers 0) (\<lambda>regs.
       bind_res (enum_of run_time_error_members run_time_error_value rte) (\<lambda>run_time_error.
       bind_res (enum_of cpu_state_members cpu_state_value state) (\<lambda>cpu_state.
       bind_res (enum_of mailbox_command_members mailbox_command_value app_cmd) (\<lambda>app_command.
       bind_res (enum_of mailbox_command_members mailbox_command_value mon_cmd) (\<lambda>mon_command.
         Inr \<lparr>cpu_x = x, cpu_y = y, cpu_p = p, cpu_application_name = name, cpu_registers = regs,
              cpu_processor_state_register = psr, cpu_stack_pointer = sp, cpu_link_register = lr,
              cpu_run_time_error = run_time_error, cpu_physical_cpu_id = phys, cpu_state_of = cpu_state,
              cpu_application_id = app_id, cpu_app_mailbox = app_mailbox,
              cpu_monitor_mailbox = monitor_mailbox, cpu_application_mailbox_command = app_command,
              cpu_monitor_mailbox_command = mon_command, cpu_software_error_count = sw_errors,
              cpu_filename_address = filename, cpu_line_number = line, cpu_time = time,
              cpu_iobuf_address = iobuf, cpu_software_version = sw_version,
              cpu_user = [user0, user1, user2, user3]\<rparr>))))))
   | _ \<Rightarrow> Inl PyValueError)"

definition parse_cpu_info :: "int \<Rightarrow> int \<Rightarrow> int \<Rightarrow> bytes \<Rightarrow> nat \<Rightarrow> cpu_info res" where
  "parse_cpu_info x y p data offset =
     bind_res (require StructError (unpack_from Little VCPU_PATTERN data offset)) (cpu_info_init x y p)"

subsection \<open>\<open>CPUInfos\<close>\<close>

type_synonym cpu_infos = "((int \<times> int \<times> int) \<times> cpu_info) list"

definition add_info :: "cpu_info \<Rightarrow> cpu_infos \<Rightarrow> cpu_infos" where
  "add_info info infos = AList.update (cpu_x info, cpu_y info, cpu_p info) info infos"

definition add_infos :: "cpu_infos \<Rightarrow> cpu_state list \<Rightarrow> cpu_infos \<Rightarrow> cpu_infos" where
  "add_infos others states infos =
     fold (\<lambda>(k, info) acc. if cpu_state_of info \<in> set states then add_info info acc else acc) others infos"

definition is_core :: "cpu_infos \<Rightarrow> int \<Rightarrow> int \<Rightarrow> int \<Rightarrow> bool" where
  "is_core infos x y p \<longleftrightarrow> (x, y, p) \<in> fst ` set infos"

definition get_cpu_info :: "cpu_infos \<Rightarrow> int \<Rightarrow> int \<Rightarrow> int \<Rightarrow> cpu_info res" where
  "get_cpu_info infos x y p = require PyKeyError (map_of infos (x, y, p))"

definition infos_for_state :: "cpu_infos \<Rightarrow> cpu_state \<Rightarrow> cpu_infos" where
  "infos_for_state infos state =
     fold (\<lambda>(k, info) acc. if cpu_state_of info = state then add_info info acc else acc) infos []"

definition infos_not_in_states :: "cpu_infos \<Rightarrow> cpu_state list \<Rightarrow> cpu_infos" where
  "infos_not_in_states infos states =
     fold (\<lambda>(k, info) acc. if cpu_state_of info \<notin> set states then add_info info acc else acc) infos []"

subsection \<open>\<open>ChipInfo\<close>\<close>

definition sv_read_int :: "bytes \<Rightarrow> nat \<Rightarrow> system_variable \<Rightarrow> int res" where
  "sv_read_int data offset item =
     (if sv_array_size item \<noteq> None then Inl PyAssertionError
      else bind_res (struct_unpack_from Little (struct_code (sv_data_type item)) data
                       (offset + nat (sv_offset item))) (\<lambda>vs. Inr (hd vs)))"

definition sv_read_bytes :: "bytes \<Rightarrow> nat \<Rightarrow> system_variable \<Rightarrow> bytes res" where
  "sv_read_bytes data offset item =
     (case sv_array_size item of
        None \<Rightarrow> Inl PyAssertionError
      | Some n \<Rightarrow>
          if \<not> is_byte_array (sv_data_type item) then Inl StructError
          else bind_res (require StructError (unpack_from Little [FS (nat n)] data (offset + nat (sv_offset item))))
                 (\<lambda>vs. case vs of [VS bs] \<Rightarrow> Inr bs | _ \<Rightarrow> Inl PyValueError))"

record chip_info =
  ci_system_data :: bytes
  ci_offset :: nat
  ci_links_available :: "int list"
  ci_led_flash_period_ms :: int
  ci_leds :: "int list"
  ci_status_map :: bytes
  ci_physical_to_virtual_core_map :: bytes
  ci_virtual_to_physical_core_map :: bytes
  ci_virtual_core_ids :: "int list"
  ci_ip_address :: "bytes option"

text \<open>The constructor; the address is kept as its four bytes, \<open>None\<close> for \<open>0.0.0.0\<close>.\<close>

definition chip_info_init :: "bytes \<Rightarrow> nat \<Rightarrow> chip_info res" where
  "chip_info_init data offset =
     bind_res (sv_read_int data offset SV_links_available) (\<lambda>links_available.
     bind_res (sv_read_int data offset SV_led_half_period_10_ms) (\<lambda>half_period.
     bind_res (sv_read_int data offset SV_led_0) (\<lambda>led_0.
     bind_res (sv_read_int data offset SV_led_1) (\<lambda>led_1.
     bind_res (sv_read_bytes data offset SV_status_map) (\<lambda>status_map.
     bind_res (sv_read_bytes data offset SV_physical_to_virtual_core_map) (\<lambda>p2v.
     bind_res (sv_read_bytes data offset SV_virtual_to_physical_core_map) (\<lambda>v2p.
     bind_res (sv_read_bytes data offset SV_ethernet_ip_address) (\<lambda>ip.
       Inr \<lparr>ci_system_data = data, ci_offset = offset,
            ci_links_available =
              map int (filter (\<lambda>i. drop_bit i links_available AND 1 \<noteq> 0) [0..<6]),
            ci_led_flash_period_ms = half_period * 10, ci_leds = [led_0, led_1],
            ci_status_map = status_map, ci_physical_to_virtual_core_map = p2v,
            ci_virtual_to_physical_core_map = v2p,
            ci_virtual_core_ids = sort (map uint (filter (\<lambda>b. b \<noteq> 0xFF) p2v)),
            ci_ip_address = (if take 4 ip = [0, 0, 0, 0] then None else Some (take 4 ip))\<rparr>))))))))"

definition ci_read_int :: "system_variable \<Rightarrow> chip_info \<Rightarrow> int res" where
  "ci_read_int item c = sv_read_int (ci_system_data c) (ci_offset c) item"

definition ci_x :: "chip_info \<Rightarrow> int res" where "ci_x = ci_read_int SV_x"
definition ci_y :: "chip_info \<Rightarrow> int res" where "ci_y = ci_read_int SV_y"
definition ci_x_size :: "chip_info \<Rightarrow> int res" where "ci_x_size = ci_read_int SV_x_size"
definition ci_y_size :: "chip_info \<Rightarrow> int res" where "ci_y_size = ci_read_int SV_y_size"
definition ci_nearest_ethernet_x :: "chip_info \<Rightarrow> int res" where
  "ci_nearest_ethernet_x = ci_read_int SV_nearest_ethernet_x"
definition ci_nearest_ethernet_y :: "chip_info \<Rightarrow> int res" where
  "ci_nearest_ethernet_y = ci_read_int SV_nearest_ethernet_y"
definition ci_is_ethernet_available :: "chip_info \<Rightarrow> bool res" where
  "ci_is_ethernet_available c = bind_res (ci_read_int SV_is_ethernet_available c) (\<lambda>v. Inr (v = 1))"
definition ci_cpu_clock_mhz :: "chip_info \<Rightarrow> int res" where "ci_cpu_clock_mhz = ci_read_int SV_cpu_clock_mhz"
definition ci_sdram_base_address :: "chip_info \<Rightarrow> int res" where
  "ci_sdram_base_address = ci_read_int SV_sdram_base_address"
definition ci_system_sdram_base_address :: "chip_info \<Rightarrow> int res" where
  "ci_system_sdram_base_address = ci_read_int SV_system_sdram_base_address"
definition ci_cpu_information_base_address :: "chip_info \<Rightarrow> int res" where
  "ci_cpu_information_base_address = ci_read_int SV_cpu_information_base_address"
definition ci_first_free_router_entry :: "chip_info \<Rightarrow> int res" where
  "ci_first_free_router_entry = ci_read_int SV_first_free_router_entry"
definition ci_iobuf_size :: "chip_info \<Rightarrow> int res" where "ci_iobuf_size = ci_read_int SV_iobuf_size"
definition ci_router_table_copy_address :: "chip_info \<Rightarrow> int res" where
  "ci_router_table_copy_address = ci_read_int SV_router_table_copy_address"
definition ci_system_ram_heap_address :: "chip_info \<Rightarrow> int res" where
  "ci_system_ram_heap_address = ci_read_int SV_system_ram_heap_address"
definition ci_sdram_heap_address :: "chip_info \<Rightarrow> int res" where
  "ci_sdram_heap_address = ci_read_int SV_sdram_heap_address"

end
