(* ===== verification/MachineProcess.thy ===== *)
theory MachineProcess
  imports MemoryProcess MachineData SystemVariables CpuInfo Utilities
begin

text \<open>
  The processes that read the state of a machine and set its tables: versions, virtual CPU blocks,
  heaps, router diagnostics, fixed routes, multicast routes and IP tags. Each is a group of requests
  with callbacks on the state of the process (its user state here), collected in one or more phases.
\<close>

subsection \<open>Common steps\<close>

text \<open>A callback on the data of a read response; any other response has no \<open>data\<close>.\<close>

definition with_data :: "(bytes \<Rightarrow> nat \<Rightarrow> nat \<Rightarrow> 'v \<Rightarrow> 'v res) \<Rightarrow> 'v client callback" where
  "with_data f r c =
     (case r of
        RspData data offset len \<Rightarrow>
          (case f data offset len (cl_user c) of
             Inr u \<Rightarrow> (c\<lparr>cl_user := u\<rparr>, None) | Inl e \<Rightarrow> (c, Some e))
      | _ \<Rightarrow> (c, Some PyAttributeError))"

text \<open>Sending a \<open>ReadMemory\<close> request, whose constructor may raise.\<close>

definition send_read ::
  "reader \<Rightarrow> xyp \<Rightarrow> int \<Rightarrow> int \<Rightarrow> 'v client callback \<Rightarrow> 'v process \<Rightarrow> net \<Rightarrow>
     ('v process, net) presult option" where
  "send_read rd coords address n_bytes callback pr nt =
     (case read_memory coords address n_bytes of
        Inl e \<Rightarrow> Some (Fails e pr nt)
      | Inr req \<Rightarrow> proc_send_request rd req (Some callback) pr nt)"

text \<open>
  A process inside another, on the same selector and connections: what it leaves of both is what the
  outer one goes on with.
\<close>

definition connection_of :: "'v process \<Rightarrow> nat \<Rightarrow> scp_connection" where
  "connection_of pr i =
     (case map_of (pr_pipelines pr) i of Some p \<Rightarrow> pl_connection p | None \<Rightarrow> pr_connections pr ! i)"

definition connections_after :: "'v process \<Rightarrow> scp_connection list" where
  "connections_after pr = map (connection_of pr) [0..<length (pr_connections pr)]"

definition inner_process :: "'v process \<Rightarrow> 'u \<Rightarrow> 'u process" where
  "inner_process pr user =
     process_init (connections_after pr) (pr_selector pr) N_RETRIES 8 7 None user"

definition after_inner :: "'u process \<Rightarrow> 'v process \<Rightarrow> 'v process" where
  "after_inner inner pr =
     pr\<lparr>pr_connections := connections_after inner, pr_selector := pr_selector inner,
        pr_pipelines := map (\<lambda>(i, p). (i, p\<lparr>pl_connection := connections_after inner ! i\<rparr>)) (pr_pipelines pr)\<rparr>"

subsection \<open>\<open>GetVersionProcess\<close>\<close>

definition version_handle_response :: "version_info option client callback" where
  "version_handle_response r c =
     (case r of RspVersion v \<Rightarrow> (c\<lparr>cl_user := Some v\<rparr>, None) | _ \<Rightarrow> (c, Some PyAttributeError))"

definition get_version_process ::
  "reader \<Rightarrow> int \<Rightarrow> int \<Rightarrow> int \<Rightarrow> version_info option process \<Rightarrow> net \<Rightarrow>
     (version_info option process, net) presult option" where
  "get_version_process rd x y p pr nt =
     and_then (collect_responses rd
         (proc_send_request rd (get_version x y p) (Some version_handle_response) pr nt))
       (\<lambda>pr' nt'. case cl_user (pr_client pr') of
            None \<Rightarrow> Some (Fails PyAssertionError pr' nt')
          | Some v \<Rightarrow> Some (Done pr' nt'))"

subsection \<open>\<open>GetCPUInfoProcess\<close> and its two filters\<close>

definition all_desired :: "cpu_info \<Rightarrow> bool" where "all_desired info = True"

definition include_desired :: "cpu_state list \<Rightarrow> cpu_info \<Rightarrow> bool" where
  "include_desired states info \<longleftrightarrow> cpu_state_of info \<in> set states"

definition exclude_desired :: "cpu_state list \<Rightarrow> cpu_info \<Rightarrow> bool" where
  "exclude_desired states info \<longleftrightarrow> cpu_state_of info \<notin> set states"

definition cpu_handle_response ::
  "(cpu_info \<Rightarrow> bool) \<Rightarrow> int \<Rightarrow> int \<Rightarrow> int \<Rightarrow> cpu_infos client callback" where
  "cpu_handle_response desired x y p = with_data (\<lambda>data offset len infos.
     bind_res (parse_cpu_info x y p data offset) (\<lambda>info.
       Inr (if desired info then add_info info infos else infos)))"

text \<open>A core subset is a chip and its processors, in the order the subset lists them.\<close>

type_synonym core_subsets = "(int \<times> int \<times> int list) list"

fun cpu_info_cores ::
  "reader \<Rightarrow> (cpu_info \<Rightarrow> bool) \<Rightarrow> int \<Rightarrow> int \<Rightarrow> int list \<Rightarrow> cpu_infos process \<Rightarrow> net \<Rightarrow>
     (cpu_infos process, net) presult option" where
  "cpu_info_cores rd desired x y [] pr nt = Some (Done pr nt)"
| "cpu_info_cores rd desired x y (p # ps) pr nt =
     and_then (send_read rd (x, y, 0) (get_vcpu_address p) CPU_INFO_BYTES
                 (cpu_handle_response desired x y p) pr nt)
       (cpu_info_cores rd desired x y ps)"

fun cpu_info_loop ::
  "reader \<Rightarrow> (cpu_info \<Rightarrow> bool) \<Rightarrow> core_subsets \<Rightarrow> cpu_infos process \<Rightarrow> net \<Rightarrow>
     (cpu_infos process, net) presult option" where
  "cpu_info_loop rd desired [] pr nt = Some (Done pr nt)"
| "cpu_info_loop rd desired ((x, y, ps) # subsets) pr nt =
     and_then (cpu_info_cores rd desired x y ps pr nt) (cpu_info_loop rd desired subsets)"

definition get_cpu_info_process ::
  "reader \<Rightarrow> (cpu_info \<Rightarrow> bool) \<Rightarrow> core_subsets \<Rightarrow> cpu_infos process \<Rightarrow> net \<Rightarrow>
     (cpu_infos process, net) presult option" where
  "get_cpu_info_process rd desired subsets pr nt =
     collect_responses rd (cpu_info_loop rd desired subsets pr nt)"

subsection \<open>\<open>GetHeapProcess\<close>\<close>

record heap_state =
  hs_heap_address :: int
  hs_next_block_address :: int
  hs_blocks :: "heap_element list"

definition heap_state_init :: heap_state where
  "heap_state_init = \<lparr>hs_heap_address = 0, hs_next_block_address = 0, hs_blocks = []\<rparr>"

definition HEAP_ADDRESS :: system_variable where "HEAP_ADDRESS = SV_sdram_heap_address"

definition read_heap_address_response :: "heap_state client callback" where
  "read_heap_address_response = with_data (\<lambda>data offset len h.
     bind_res (struct_unpack_from Little [FI] data offset) (\<lambda>vs. Inr (h\<lparr>hs_heap_address := hd vs\<rparr>)))"

definition read_heap_pointer :: "heap_state client callback" where
  "read_heap_pointer = with_data (\<lambda>data offset len h.
     bind_res (struct_unpack_from Little [Fx, Fx, Fx, Fx, FI] data offset) (\<lambda>vs.
       Inr (h\<lparr>hs_next_block_address := hd vs\<rparr>)))"

definition read_next_block :: "int \<Rightarrow> heap_state client callback" where
  "read_next_block block_address = with_data (\<lambda>data offset len h.
     bind_res (struct_unpack_from Little [FI, FI] data offset) (\<lambda>vs. case vs of
       [next_address, free] \<Rightarrow>
         Inr (h\<lparr>hs_next_block_address := next_address,
               hs_blocks := (if next_address \<noteq> 0
                  then hs_blocks h @ [heap_element_init block_address next_address free] else hs_blocks h)\<rparr>)
     | _ \<Rightarrow> Inl PyValueError))"

definition read_address ::
  "reader \<Rightarrow> xyp \<Rightarrow> int \<Rightarrow> int \<Rightarrow> 'v client callback \<Rightarrow> 'v process \<Rightarrow> net \<Rightarrow>
     ('v process, net) presult option" where
  "read_address rd coords address n_bytes callback pr nt =
     collect_responses rd (send_read rd coords address n_bytes callback pr nt)"

text \<open>The list of blocks ends with a next address of zero; a list that loops is read for ever.\<close>

partial_function (option) heap_loop ::
  "reader \<Rightarrow> xyp \<Rightarrow> heap_state process \<Rightarrow> net \<Rightarrow> (heap_state process, net) presult option" where
  "heap_loop rd coords pr nt =
     (let address = hs_next_block_address (cl_user (pr_client pr))
      in if address = 0 then Some (Done pr nt)
         else case read_address rd coords address 8 (read_next_block address) pr nt of
                None \<Rightarrow> None
              | Some (Done pr' nt') \<Rightarrow> heap_loop rd coords pr' nt'
              | Some (Fails e pr' nt') \<Rightarrow> Some (Fails e pr' nt')
              | Some (Blocks pr') \<Rightarrow> Some (Blocks pr'))"

declare heap_loop.simps [code]

definition get_heap ::
  "reader \<Rightarrow> xy \<Rightarrow> system_variable \<Rightarrow> heap_state process \<Rightarrow> net \<Rightarrow>
     (heap_state process, net) presult option" where
  "get_heap rd chip_coords pointer pr nt =
     (let coords = (fst chip_coords, snd chip_coords, 0)
      in and_then
           (and_then
              (read_address rd coords (SYSTEM_VARIABLE_BASE_ADDRESS + sv_offset pointer)
                 (data_type_value (sv_data_type pointer)) read_heap_address_response pr nt)
              (\<lambda>pr1 nt1. read_address rd coords (hs_heap_address (cl_user (pr_client pr1))) 8
                 read_heap_pointer pr1 nt1))
           (heap_loop rd coords))"

subsection \<open>\<open>ReadRouterDiagnosticsProcess\<close>\<close>

record diagnostics_state =
  ds_control_register :: int
  ds_error_status :: int
  ds_register_values :: "int list"

definition diagnostics_state_init :: diagnostics_state where
  "diagnostics_state_init =
     \<lparr>ds_control_register = 0, ds_error_status = 0, ds_register_values = replicate 16 0\<rparr>"

definition handle_control_register_response :: "diagnostics_state client callback" where
  "handle_control_register_response = with_data (\<lambda>data offset len d.
     bind_res (unpack_word data offset) (\<lambda>v. Inr (d\<lparr>ds_control_register := v\<rparr>)))"

definition handle_error_status_response :: "diagnostics_state client callback" where
  "handle_error_status_response = with_data (\<lambda>data offset len d.
     bind_res (unpack_word data offset) (\<lambda>v. Inr (d\<lparr>ds_error_status := v\<rparr>)))"

text \<open>The registers one after the other: those before one that cannot be read are stored.\<close>

fun store_registers :: "bytes \<Rightarrow> nat \<Rightarrow> nat list \<Rightarrow> diagnostics_state \<Rightarrow> diagnostics_state \<times> exc option" where
  "store_registers data offset [] d = (d, None)"
| "store_registers data offset (r # rs) d =
     (case unpack_word data (offset + r * 4) of
        Inl e \<Rightarrow> (d, Some e)
      | Inr v \<Rightarrow> store_registers data offset rs (d\<lparr>ds_register_values := (ds_register_values d)[r := v]\<rparr>))"

definition handle_register_response :: "diagnostics_state client callback" where
  "handle_register_response r c =
     (case r of
        RspData data offset len \<Rightarrow>
          (case store_registers data offset [0..<16] (cl_user c) of (d, e) \<Rightarrow> (c\<lparr>cl_user := d\<rparr>, e))
      | _ \<Rightarrow> (c, Some PyAttributeError))"

definition get_router_diagnostics ::
  "reader \<Rightarrow> int \<Rightarrow> int \<Rightarrow> diagnostics_state process \<Rightarrow> net \<Rightarrow>
     ((diagnostics_state process, net) presult \<times> router_diagnostics option) option" where
  "get_router_diagnostics rd x y pr nt =
     (case collect_responses rd
        (and_then
          (and_then
            (send_read rd (x, y, 0) 0xe1000000 4 handle_control_register_response pr nt)
            (send_read rd (x, y, 0) 0xe1000014 4 handle_error_status_response))
          (send_read rd (x, y, 0) 0xe1000300 (16 * 4) handle_register_response)) of
        None \<Rightarrow> None
      | Some (Done pr' nt') \<Rightarrow>
          (let d = cl_user (pr_client pr')
           in case router_diagnostics_init (ds_control_register d) (ds_error_status d) (ds_register_values d) of
                Inl e \<Rightarrow> Some (Fails e pr' nt', None)
              | Inr rdg \<Rightarrow> Some (Done pr' nt', Some rdg))
      | Some stopped \<Rightarrow> Some (stopped, None))"

subsection \<open>Fixed routes\<close>

text \<open>\<open>to_route\<close> is \<open>Router.convert_routing_table_entry_to_spinnaker_route\<close> of the machine library.\<close>

definition load_fixed_route ::
  "('r \<Rightarrow> int) \<Rightarrow> reader \<Rightarrow> int \<Rightarrow> int \<Rightarrow> 'r \<Rightarrow> int \<Rightarrow> 'v process \<Rightarrow> net \<Rightarrow>
     ('v process, net) presult option" where
  "load_fixed_route to_route rd x y fixed_route app_id pr nt =
     collect_responses rd
       (proc_send_request rd (fixed_route_init x y (to_route fixed_route) app_id) None pr nt)"

definition fixed_route_handle_response :: "(int list \<times> int list) option client callback" where
  "fixed_route_handle_response r c =
     (case r of RspFixedRoute ps ls \<Rightarrow> (c\<lparr>cl_user := Some (ps, ls)\<rparr>, None) | _ \<Rightarrow> (c, Some PyAttributeError))"

definition read_fixed_route_process ::
  "reader \<Rightarrow> int \<Rightarrow> int \<Rightarrow> int \<Rightarrow> (int list \<times> int list) option process \<Rightarrow> net \<Rightarrow>
     ((int list \<times> int list) option process, net) presult option" where
  "read_fixed_route_process rd x y app_id pr nt =
     and_then (collect_responses rd
         (proc_send_request rd (fixed_route_read x y app_id) (Some fixed_route_handle_response) pr nt))
       (\<lambda>pr' nt'. case cl_user (pr_client pr') of
            None \<Rightarrow> Some (Fails PyAssertionError pr' nt')
          | Some r \<Rightarrow> Some (Done pr' nt'))"

end
