(* ===== verification/RouteProcess.thy ===== *)
theory RouteProcess
  imports MachineProcess
begin

text \<open>
  Multicast routes and IP tags: reading the routing table of a chip (\<open>processes/get_routes_process.py\<close>),
  loading one (\<open>load_routes_process.py\<close>), and the tags of a board (\<open>get_tags_process.py\<close>). The
  conversions between routes and their processors and links, and the class of a table entry, belong to
  the machine library: they are the arguments \<open>to_route\<close>, \<open>route_ids\<close> and \<open>make_entry\<close>.
\<close>

subsection \<open>\<open>GetMultiCastRoutesProcess\<close>\<close>

definition N_ENTRIES :: nat where "N_ENTRIES = 1024"
definition ENTRIES_PER_READ :: nat where "ENTRIES_PER_READ = 16"
definition N_READS :: nat where "N_READS = 64"

definition ROUTE_ENTRY_PATTERN :: "fitem list" where
  "ROUTE_ENTRY_PATTERN = [Fx, Fx, FB, Fx, FI, FI, FI]"

text \<open>\<open>_add_routing_entry\<close>: an unused entry, or one of another application, is passed over.\<close>

definition add_routing_entry ::
  "(int \<Rightarrow> int list \<times> int list) \<Rightarrow> (int \<Rightarrow> int \<Rightarrow> int list \<Rightarrow> int list \<Rightarrow> bool \<Rightarrow> 'e res) \<Rightarrow> int option \<Rightarrow>
     nat \<Rightarrow> nat \<Rightarrow> int \<Rightarrow> int \<Rightarrow> int \<Rightarrow> int \<Rightarrow> 'e option list \<Rightarrow> 'e option list res" where
  "add_routing_entry route_ids make_entry wanted route_no offset app_id route key rmask entries =
     (if route \<ge> 0xFF000000 then Inr entries
      else if wanted \<noteq> None \<and> wanted \<noteq> Some app_id then Inr entries
      else let (processor_ids, link_ids) = route_ids route
           in bind_res (make_entry key rmask processor_ids link_ids False) (\<lambda>e.
                if route_no + offset < length entries then Inr (entries[route_no + offset := Some e])
                else Inl PyIndexError))"

fun route_response_entries ::
  "(int \<Rightarrow> int list \<times> int list) \<Rightarrow> (int \<Rightarrow> int \<Rightarrow> int list \<Rightarrow> int list \<Rightarrow> bool \<Rightarrow> 'e res) \<Rightarrow> int option \<Rightarrow>
     nat \<Rightarrow> bytes \<Rightarrow> nat \<Rightarrow> nat list \<Rightarrow> 'e option list \<Rightarrow> 'e option list \<times> exc option" where
  "route_response_entries route_ids make_entry wanted offset data base [] entries = (entries, None)"
| "route_response_entries route_ids make_entry wanted offset data base (route_no # rest) entries =
     (case bind_res (struct_unpack_from Little ROUTE_ENTRY_PATTERN data
              (base + route_no * calcsize ROUTE_ENTRY_PATTERN)) (\<lambda>vs. case vs of
         [app_id, route, key, rmask] \<Rightarrow>
           add_routing_entry route_ids make_entry wanted route_no offset app_id route key rmask entries
       | _ \<Rightarrow> Inl PyValueError) of
        Inl e \<Rightarrow> (entries, Some e)
      | Inr entries' \<Rightarrow>
          route_response_entries route_ids make_entry wanted offset data base rest entries')"

definition routes_handle_response ::
  "(int \<Rightarrow> int list \<times> int list) \<Rightarrow> (int \<Rightarrow> int \<Rightarrow> int list \<Rightarrow> int list \<Rightarrow> bool \<Rightarrow> 'e res) \<Rightarrow> int option \<Rightarrow>
     nat \<Rightarrow> 'e option list client callback" where
  "routes_handle_response route_ids make_entry wanted offset r c =
     (case r of
        RspData data base len \<Rightarrow>
          (case route_response_entries route_ids make_entry wanted offset data base
                  [0..<ENTRIES_PER_READ] (cl_user c) of
             (entries, e) \<Rightarrow> (c\<lparr>cl_user := entries\<rparr>, e))
      | _ \<Rightarrow> (c, Some PyAttributeError))"

fun get_routes_loop ::
  "reader \<Rightarrow> (nat \<Rightarrow> 'e option list client callback) \<Rightarrow> xyp \<Rightarrow> int \<Rightarrow> nat \<Rightarrow> nat \<Rightarrow>
     'e option list process \<Rightarrow> net \<Rightarrow> ('e option list process, net) presult option" where
  "get_routes_loop rd handle coords base_address 0 offset pr nt = Some (Done pr nt)"
| "get_routes_loop rd handle coords base_address (Suc n) offset pr nt =
     and_then (send_read rd coords (base_address + int offset * 16) UDP_MESSAGE_MAX_SIZE (handle offset) pr nt)
       (get_routes_loop rd handle coords base_address n (offset + ENTRIES_PER_READ))"

text \<open>The process starts with an empty table; the result is its used entries in order.\<close>

definition get_routes ::
  "reader \<Rightarrow> (int \<Rightarrow> int list \<times> int list) \<Rightarrow> (int \<Rightarrow> int \<Rightarrow> int list \<Rightarrow> int list \<Rightarrow> bool \<Rightarrow> 'e res) \<Rightarrow>
     int option \<Rightarrow> int \<Rightarrow> int \<Rightarrow> int \<Rightarrow> 'e option list process \<Rightarrow> net \<Rightarrow>
     ('e option list process, net) presult option" where
  "get_routes rd route_ids make_entry app_id x y base_address pr nt =
     collect_responses rd
       (get_routes_loop rd (routes_handle_response route_ids make_entry app_id) (x, y, 0) base_address
          N_READS 0 pr nt)"

definition routes_found :: "'e option list \<Rightarrow> 'e list" where
  "routes_found entries = map the (filter (\<lambda>e. e \<noteq> None) entries)"

subsection \<open>\<open>LoadMultiCastRoutesProcess\<close>\<close>

definition ROUTE_PATTERN :: "fitem list" where "ROUTE_PATTERN = [FH, Fx, Fx, FI, FI, FI]"
definition TABLE_ADDRESS :: int where "TABLE_ADDRESS = 0x67800000"

text \<open>A route is its value for the router, its key and its rmask.\<close>

fun routing_rows :: "int \<Rightarrow> (int \<times> int \<times> int) list \<Rightarrow> bytes res" where
  "routing_rows n_entries [] =
     struct_pack Little [FI, FI, FI, FI] [0xFFFFFFFF, 0xFFFFFFFF, 0xFFFFFFFF, 0xFFFFFFFF]"
| "routing_rows n_entries ((route, key, rmask) # routes) =
     bind_res (struct_pack Little ROUTE_PATTERN [n_entries, route, key, rmask]) (\<lambda>row.
     bind_res (routing_rows (n_entries + 1) routes) (\<lambda>rest. Inr (row @ rest)))"

definition router_alloc_handle_response :: "int client callback" where
  "router_alloc_handle_response r c =
     (case r of RspRouterAlloc a \<Rightarrow> (c\<lparr>cl_user := a\<rparr>, None) | _ \<Rightarrow> (c, Some PyAttributeError))"

definition load_routes ::
  "('r \<Rightarrow> int \<times> int \<times> int) \<Rightarrow> reader \<Rightarrow> int \<Rightarrow> int \<Rightarrow> 'r list \<Rightarrow> int \<Rightarrow> int process \<Rightarrow> net \<Rightarrow>
     (int process, net) presult option" where
  "load_routes to_route rd x y routes app_id pr nt =
     (case routing_rows 0 (map to_route routes) of
        Inl e \<Rightarrow> Some (Fails e pr nt)
      | Inr routing_data \<Rightarrow>
          let n_entries = int (length routes)
          in (case memory_from_bytearray rd (x, y, 0) TABLE_ADDRESS routing_data 0
                     (int (length routing_data)) False (inner_process pr ()) nt of
                None \<Rightarrow> None
              | Some (Fails e w nt1, s) \<Rightarrow> Some (Fails e (after_inner w pr) nt1)
              | Some (Blocks w, s) \<Rightarrow> Some (Blocks (after_inner w pr))
              | Some (Done w nt1, s) \<Rightarrow>
                  and_then
                    (collect_responses rd (proc_send_request rd (router_alloc x y app_id n_entries)
                       (Some router_alloc_handle_response) (after_inner w pr) nt1))
                    (\<lambda>pr2 nt2.
                      if cl_user (pr_client pr2) = 0
                      then Some (Fails (InvalidParameter ''Allocation base address'') pr2 nt2)
                      else case router_init x y n_entries TABLE_ADDRESS (cl_user (pr_client pr2)) app_id of
                             Inl e \<Rightarrow> Some (Fails e pr2 nt2)
                           | Inr req \<Rightarrow> collect_responses rd (proc_send_request rd req None pr2 nt2))))"

subsection \<open>\<open>GetTagsProcess\<close>\<close>

text \<open>
  \<open>IPTag\<close> and \<open>ReverseIPTag\<close> are classes of the machine library, kept here as the arguments of their
  constructors; an address is its four bytes.
\<close>

datatype tag =
    IPTag_of bytes int int nat bytes int bool
  | ReverseIPTag_of bytes nat int int int int int

record tags_state =
  ts_tag_info :: "(int \<times> int) option"
  ts_tags :: "tag option list"

definition tags_state_init :: tags_state where
  "tags_state_init = \<lparr>ts_tag_info = None, ts_tags = []\<rparr>"

text \<open>The pool and the fixed size of the tag table.\<close>

definition handle_tag_info_response :: "tags_state client callback" where
  "handle_tag_info_response r c =
     (case r of
        RspIPTagInfo tto pool_size fixed_size \<Rightarrow>
          (c\<lparr>cl_user := (cl_user c)\<lparr>ts_tag_info := Some (pool_size, fixed_size)\<rparr>\<rparr>, None)
      | _ \<Rightarrow> (c, Some PyAttributeError))"

definition tag_of_response :: "bytes \<Rightarrow> nat \<Rightarrow> sdp_header \<Rightarrow> iptag_response \<Rightarrow> tag res" where
  "tag_of_response board_address tag sdp t =
     (if ipt_is_reverse t
      then Inr (ReverseIPTag_of board_address tag (ipt_rx_port t) (ipt_spin_chip_x t) (ipt_spin_chip_y t)
                  (ipt_spin_cpu t) (ipt_spin_port t))
      else bind_res (get_source_chip_x sdp) (\<lambda>x. bind_res (get_source_chip_y sdp) (\<lambda>y.
             Inr (IPTag_of board_address x y tag (take 4 (ipt_ip_address t)) (ipt_port t) (ipt_strip_sdp t)))))"

definition handle_get_tag_response :: "nat \<Rightarrow> bytes \<Rightarrow> tags_state client callback" where
  "handle_get_tag_response tag board_address r c =
     (case r of
        RspIPTag sdp t \<Rightarrow>
          if \<not> ipt_in_use t then (c, None)
          else (case tag_of_response board_address tag sdp t of
                  Inl e \<Rightarrow> (c, Some e)
                | Inr found \<Rightarrow>
                    if tag < length (ts_tags (cl_user c))
                    then (c\<lparr>cl_user := (cl_user c)\<lparr>ts_tags := (ts_tags (cl_user c))[tag := Some found]\<rparr>\<rparr>, None)
                    else (c, Some PyIndexError))
      | _ \<Rightarrow> (c, Some PyAttributeError))"

fun get_tags_loop ::
  "reader \<Rightarrow> int \<Rightarrow> int \<Rightarrow> bytes \<Rightarrow> nat list \<Rightarrow> tags_state process \<Rightarrow> net \<Rightarrow>
     (tags_state process, net) presult option" where
  "get_tags_loop rd x y board_address [] pr nt = Some (Done pr nt)"
| "get_tags_loop rd x y board_address (tag # tags) pr nt =
     and_then (proc_send_request rd (iptag_get x y (int tag)) (Some (handle_get_tag_response tag board_address)) pr nt)
       (get_tags_loop rd x y board_address tags)"

text \<open>The connection asked is given by its chip and its remote address.\<close>

definition get_tags ::
  "reader \<Rightarrow> int \<Rightarrow> int \<Rightarrow> bytes \<Rightarrow> tags_state process \<Rightarrow> net \<Rightarrow> (tags_state process, net) presult option" where
  "get_tags rd x y board_address pr nt =
     and_then (collect_responses rd
         (proc_send_request rd (iptag_get_info x y) (Some handle_tag_info_response) pr nt))
       (\<lambda>pr1 nt1. case ts_tag_info (cl_user (pr_client pr1)) of
            None \<Rightarrow> Some (Fails PyAssertionError pr1 nt1)
          | Some (pool_size, fixed_size) \<Rightarrow>
              let n_tags = nat (pool_size + fixed_size);
                  pr2 = pr1\<lparr>pr_client := (pr_client pr1)\<lparr>cl_user :=
                          (cl_user (pr_client pr1))\<lparr>ts_tags := replicate n_tags None\<rparr>\<rparr>\<rparr>
              in collect_responses rd (get_tags_loop rd x y board_address [0..<n_tags] pr2 nt1))"

definition tags_found :: "tags_state \<Rightarrow> tag list" where
  "tags_found t = map the (filter (\<lambda>e. e \<noteq> None) (ts_tags t))"

end
