(* ===== verification/RouteProps.thy ===== *)
theory RouteProps
  imports RouteProcess
begin

text \<open>
  The routing table that \<open>LoadMultiCastRoutesProcess\<close> writes to the memory of a chip.
\<close>

subsection \<open>Rows\<close>

definition word_route :: "int \<times> int \<times> int \<Rightarrow> bool" where
  "word_route r \<longleftrightarrow> (case r of (route, key, rmask) \<Rightarrow>
     word_range route \<and> word_range key \<and> word_range rmask)"

lemma ROUTE_PATTERN_pack:
  "struct_pack Little ROUTE_PATTERN [n, route, key, rmask] =
     (if 0 \<le> n \<and> n < 65536 \<and> word_route (route, key, rmask)
      then Inr (le_bytes 2 n @ [0, 0] @ le_bytes 4 route @ le_bytes 4 key @ le_bytes 4 rmask)
      else Inl StructError)"
  by (auto simp: struct_pack_def ROUTE_PATTERN_def order_bytes_def word_route_def word_range_def)

lemma row_read:
  assumes "struct_pack Little ROUTE_PATTERN xs = Inr row"
  shows "struct_unpack_from Little ROUTE_PATTERN (pre @ row @ post) (length pre) = Inr xs"
  using assms by (rule struct_unpack_pack)

lemma row_length: "struct_pack Little ROUTE_PATTERN xs = Inr row \<Longrightarrow> length row = 16"
  using length_struct_pack [of Little ROUTE_PATTERN xs row] by (simp add: ROUTE_PATTERN_def)

lemma end_marker:
  "struct_pack Little [FI, FI, FI, FI] [0xFFFFFFFF, 0xFFFFFFFF, 0xFFFFFFFF, 0xFFFFFFFF] =
     Inr (replicate 16 255)"
  by code_simp

text \<open>The rows from number \<open>n\<close> on, read from wherever they were put.\<close>

lemma rows_read:
  assumes "routing_rows (int n) routes = Inr bs"
  shows "length bs = 16 * (length routes + 1) \<and> drop (16 * length routes) bs = replicate 16 255 \<and>
    (\<forall>i < length routes. \<forall>pre. struct_unpack_from Little ROUTE_PATTERN (pre @ bs) (length pre + 16 * i) =
       Inr [int (n + i), fst (routes ! i), fst (snd (routes ! i)), snd (snd (routes ! i))])"
  using assms
proof (induction routes arbitrary: n bs)
  case Nil
  then have "bs = replicate 16 255" by (simp add: end_marker)
  then show ?case by (simp only: length_replicate) simp
next
  case (Cons r routes)
  obtain route key rmask where r: "r = (route, key, rmask)" by (cases r)
  obtain row rest where row: "struct_pack Little ROUTE_PATTERN [int n, route, key, rmask] = Inr row"
    and rest: "routing_rows (int (Suc n)) routes = Inr rest" and bs: "bs = row @ rest"
    using Cons.prems by (auto simp: r add.commute)
  note ih = Cons.IH [OF rest] and len = row_length [OF row]
  have "struct_unpack_from Little ROUTE_PATTERN (pre @ bs) (length pre + 16 * i) =
      Inr [int (n + i), fst ((r # routes) ! i), fst (snd ((r # routes) ! i)), snd (snd ((r # routes) ! i))]"
    if "i < length (r # routes)" for i pre
  proof (cases i)
    case 0
    then show ?thesis using row_read [OF row, of pre rest] by (simp add: bs r)
  next
    case (Suc j)
    then have "j < length routes" using that by simp
    then have "struct_unpack_from Little ROUTE_PATTERN ((pre @ row) @ rest) (length (pre @ row) + 16 * j) =
        Inr [int (Suc n + j), fst (routes ! j), fst (snd (routes ! j)), snd (snd (routes ! j))]"
      using ih by blast
    then show ?thesis using Suc by (simp add: bs len algebra_simps)
  qed
  then show ?case using ih by (auto simp: bs len)
qed


lemma rows_total:
  "case routing_rows (int n) routes of
     Inl e \<Rightarrow> e = StructError \<and> \<not> (list_all word_route routes \<and> (n + length routes \<le> 65536 \<or> routes = []))
   | Inr bs \<Rightarrow> list_all word_route routes \<and> (n + length routes \<le> 65536 \<or> routes = [])"
proof (induction routes arbitrary: n)
  case Nil
  then show ?case by (simp add: end_marker)
next
  case (Cons r routes)
  obtain route key rmask where r: "r = (route, key, rmask)" by (cases r)
  from Cons.IH [of "Suc n"] show ?case
    by (cases "routing_rows (int (Suc n)) routes") (auto simp: r ROUTE_PATTERN_pack add.commute)
qed

text \<open>
  The routing table has a row of 16 bytes for every route. Row \<open>i\<close> is read back as \<open>i\<close> and the value,
  the key and the mask of the \<open>i\<close>-th route, and the table ends with 16 bytes of ones. It cannot be built
  exactly when a number does not fit a word or there are more than 65536 routes.
\<close>
theorem routing_table_layout:
  "case routing_rows 0 routes of
     Inl e \<Rightarrow> e = StructError \<and> \<not> (list_all word_route routes \<and> length routes \<le> 65536)
   | Inr bs \<Rightarrow> list_all word_route routes \<and> length routes \<le> 65536 \<and>
       length bs = 16 * (length routes + 1) \<and> drop (16 * length routes) bs = replicate 16 255 \<and>
       list_all (\<lambda>i. struct_unpack_from Little ROUTE_PATTERN bs (16 * i) =
          Inr [int i, fst (routes ! i), fst (snd (routes ! i)), snd (snd (routes ! i))]) [0..<length routes]"
proof (cases "routing_rows 0 routes")
  case (Inl e)
  then show ?thesis using rows_total [where n = 0 and routes = routes] by auto
next
  case (Inr bs)
  note read = rows_read [where n = 0, simplified, OF Inr]
    and total = rows_total [where n = 0 and routes = routes]
  have "struct_unpack_from Little ROUTE_PATTERN bs (16 * i) =
      Inr [int i, fst (routes ! i), fst (snd (routes ! i)), snd (snd (routes ! i))]"
    if "i < length routes" for i
    using read that by (force dest: spec [of _ "[]"])
  then show ?thesis using Inr total read by (auto simp: list_all_iff)
qed

end
