(* ===== verification/ExecutableTargets.thy ===== *)
theory ExecutableTargets
  imports SCP "HOL-Library.AList"
begin

text \<open>
  Which binary runs on which cores (\<open>model/executable_targets.py\<close>). A \<open>CoreSubsets\<close> of the machine library
  is the list of its cores without repetitions, and a dictionary is an association list.
\<close>

subsection \<open>\<open>ExecutableType\<close>\<close>

datatype executable_type =
    ET_RUNNING | ET_SYNC | ET_USES_SIMULATION_INTERFACE | ET_NO_APPLICATION | ET_SYSTEM

fun executable_type_value :: "executable_type \<Rightarrow> int" where
  "executable_type_value ET_RUNNING = 0"
| "executable_type_value ET_SYNC = 1"
| "executable_type_value ET_USES_SIMULATION_INTERFACE = 2"
| "executable_type_value ET_NO_APPLICATION = 3"
| "executable_type_value ET_SYSTEM = 4"

fun et_start_state :: "executable_type \<Rightarrow> cpu_state list" where
  "et_start_state ET_RUNNING = [CPU_RUNNING]"
| "et_start_state ET_SYNC = [CPU_SYNC0]"
| "et_start_state ET_USES_SIMULATION_INTERFACE = [CPU_SYNC0, CPU_SYNC1, CPU_PAUSED, CPU_READY]"
| "et_start_state ET_NO_APPLICATION = []"
| "et_start_state ET_SYSTEM = [CPU_RUNNING]"

fun et_end_state :: "executable_type \<Rightarrow> cpu_state list" where
  "et_end_state ET_RUNNING = [CPU_FINISHED]"
| "et_end_state ET_SYNC = [CPU_FINISHED]"
| "et_end_state ET_USES_SIMULATION_INTERFACE = [CPU_READY]"
| "et_end_state ET_NO_APPLICATION = []"
| "et_end_state ET_SYSTEM = [CPU_RUNNING]"

fun et_supports_auto_pause_and_resume :: "executable_type \<Rightarrow> bool" where
  "et_supports_auto_pause_and_resume ET_RUNNING = False"
| "et_supports_auto_pause_and_resume ET_SYNC = False"
| "et_supports_auto_pause_and_resume ET_USES_SIMULATION_INTERFACE = True"
| "et_supports_auto_pause_and_resume ET_NO_APPLICATION = True"
| "et_supports_auto_pause_and_resume ET_SYSTEM = True"

subsection \<open>State and operations\<close>

type_synonym core = "int \<times> int \<times> int"

record executable_targets =
  et_targets :: "(string \<times> core list) list"
  et_total_processors :: nat
  et_all_core_subsets :: "core list"
  et_binary_type_map :: "(executable_type \<times> string list) list"

definition executable_targets_init :: "executable_targets" where
  "executable_targets_init = \<lparr>et_targets = [], et_total_processors = 0, et_all_core_subsets = [],
     et_binary_type_map = []\<rparr>"

definition get_cores_for_binary :: "string \<Rightarrow> executable_targets \<Rightarrow> core list" where
  "get_cores_for_binary binary t = (case map_of (et_targets t) binary of None \<Rightarrow> [] | Some cs \<Rightarrow> cs)"

definition core_name :: "core \<Rightarrow> string" where
  "core_name c =
     (let (x, y, p) = c in ''x:'' @ show_int x @ '' y:'' @ show_int y @ '' p:'' @ show_int p)"

text \<open>\<open>known\<close>: a core of another binary is an error.\<close>

definition known :: "string \<Rightarrow> core \<Rightarrow> executable_targets \<Rightarrow> bool res" where
  "known binary c t =
     (if c \<notin> set (et_all_core_subsets t) then Inr False
      else if c \<in> set (get_cores_for_binary binary t) then Inr True
      else Inl (InvalidParameter (core_name c)))"

definition binaries_of_type :: "executable_type \<Rightarrow> executable_targets \<Rightarrow> string list" where
  "binaries_of_type k t = (case map_of (et_binary_type_map t) k of None \<Rightarrow> [] | Some bs \<Rightarrow> bs)"

text \<open>\<open>self._binary_type_map[executable_type].add(binary)\<close>, with an \<open>OrderedSet\<close>.\<close>

definition record_type :: "executable_type option \<Rightarrow> string \<Rightarrow> executable_targets \<Rightarrow> executable_targets" where
  "record_type kind binary t =
     (case kind of
        None \<Rightarrow> t
      | Some k \<Rightarrow>
          let bs = binaries_of_type k t
          in t\<lparr>et_binary_type_map :=
                 AList.update k (if binary \<in> set bs then bs else bs @ [binary]) (et_binary_type_map t)\<rparr>)"

definition add_processor ::
  "string \<Rightarrow> core \<Rightarrow> executable_type option \<Rightarrow> executable_targets \<Rightarrow> executable_targets res" where
  "add_processor binary c kind t =
     bind_res (known binary c t) (\<lambda>k.
       if k then Inr t
       else let t1 = record_type kind binary t
            in Inr (t1\<lparr>et_targets := AList.update binary (get_cores_for_binary binary t1 @ [c]) (et_targets t1),
                       et_all_core_subsets := et_all_core_subsets t1 @ [c],
                       et_total_processors := et_total_processors t1 + 1\<rparr>))"

text \<open>
  \<open>add_subsets\<close>: core by core, until one is refused; those before it stay, and the error says what has
  been added so far. The type is recorded at the end.
\<close>

fun add_cores :: "string \<Rightarrow> core list \<Rightarrow> executable_targets \<Rightarrow> executable_targets \<times> exc option" where
  "add_cores binary [] t = (t, None)"
| "add_cores binary (c # cs) t =
     (case add_processor binary c None t of
        Inl e \<Rightarrow> (t, Some e)
      | Inr t' \<Rightarrow> add_cores binary cs t')"

definition add_subsets ::
  "string \<Rightarrow> core list \<Rightarrow> executable_type option \<Rightarrow> executable_targets \<Rightarrow> executable_targets \<times> exc option" where
  "add_subsets binary cores kind t =
     (case add_cores binary cores t of
        (t', None) \<Rightarrow> (record_type kind binary t', None)
      | (t', Some e) \<Rightarrow> (t', Some e))"

text \<open>Reading the \<open>defaultdict\<close> of types enters an empty set for a type that is not there.\<close>

definition get_binaries_of_executable_type ::
  "executable_type \<Rightarrow> executable_targets \<Rightarrow> string list \<times> executable_targets" where
  "get_binaries_of_executable_type k t =
     (binaries_of_type k t,
      t\<lparr>et_binary_type_map := AList.update k (binaries_of_type k t) (et_binary_type_map t)\<rparr>)"

definition get_n_cores_for_executable_type ::
  "executable_type \<Rightarrow> executable_targets \<Rightarrow> nat \<times> executable_targets" where
  "get_n_cores_for_executable_type k t =
     (let (bs, t') = get_binaries_of_executable_type k t
      in (sum_list (map (\<lambda>b. length (get_cores_for_binary b t)) bs), t'))"

definition executable_types_in_binary_set :: "executable_targets \<Rightarrow> executable_type list" where
  "executable_types_in_binary_set t = map fst (et_binary_type_map t)"

definition binaries :: "executable_targets \<Rightarrow> string list" where
  "binaries t = map fst (et_targets t)"

end
