(* ===== verification/ExecutableTargetsProps.thy ===== *)
theory ExecutableTargetsProps
  imports ExecutableTargets
begin

text \<open>
  \<open>ExecutableTargets\<close> implements a partial map from cores to binaries: a simulation between the
  dictionaries of the class and that map, through every order of additions.
\<close>

subsection \<open>The specification and the simulation\<close>

text \<open>A core is given to the first binary that asks for it.\<close>

definition give :: "string \<Rightarrow> core \<Rightarrow> (core \<rightharpoonup> string) \<Rightarrow> (core \<rightharpoonup> string)" where
  "give binary c m = (if m c = None then m(c \<mapsto> binary) else m)"

definition implements :: "executable_targets \<Rightarrow> (core \<rightharpoonup> string) \<Rightarrow> bool" where
  "implements t m \<longleftrightarrow>
     (\<forall>b. set (get_cores_for_binary b t) = {c. m c = Some b} \<and> distinct (get_cores_for_binary b t)) \<and>
     set (et_all_core_subsets t) = dom m \<and> distinct (et_all_core_subsets t) \<and>
     et_total_processors t = length (et_all_core_subsets t)"

lemma implements_init: "implements executable_targets_init Map.empty"
  by (simp add: implements_def executable_targets_init_def get_cores_for_binary_def)

lemma record_type_fields [simp]:
  "et_targets (record_type k b t) = et_targets t"
  "et_all_core_subsets (record_type k b t) = et_all_core_subsets t"
  "et_total_processors (record_type k b t) = et_total_processors t"
  by (simp_all add: record_type_def Let_def split: option.split)

lemma get_cores_record_type [simp]:
  "get_cores_for_binary b' (record_type k b t) = get_cores_for_binary b' t"
  by (simp add: get_cores_for_binary_def)

lemma implements_record_type: "implements t m \<Longrightarrow> implements (record_type k b t) m"
  by (simp add: implements_def)

lemma known_implements:
  assumes "implements t m"
  shows "known b c t = (case m c of
     None \<Rightarrow> Inr False | Some b' \<Rightarrow> if b' = b then Inr True else Inl (InvalidParameter (core_name c)))"
proof -
  have "c \<in> set (et_all_core_subsets t) \<longleftrightarrow> m c \<noteq> None" and
    "c \<in> set (get_cores_for_binary b t) \<longleftrightarrow> m c = Some b"
    using assms unfolding implements_def by auto
  then show ?thesis by (auto simp: known_def split: option.split)
qed

text \<open>One addition: free cores are given, own cores are accepted again, others are refused.\<close>

lemma add_processor_simulates:
  assumes "implements t m"
  shows "case m c of
     None \<Rightarrow> \<exists>t'. add_processor b c k t = Inr t' \<and> implements t' (m(c \<mapsto> b))
   | Some b' \<Rightarrow> add_processor b c k t =
       (if b' = b then Inr t else Inl (InvalidParameter (core_name c)))"
proof (cases "m c")
  case (Some b')
  then show ?thesis by (simp add: add_processor_def known_implements [OF assms])
next
  case None
  let ?t1 = "record_type k b t"
  define t2 where "t2 = ?t1\<lparr>et_targets := AList.update b (get_cores_for_binary b ?t1 @ [c]) (et_targets ?t1),
    et_all_core_subsets := et_all_core_subsets ?t1 @ [c],
    et_total_processors := et_total_processors ?t1 + 1\<rparr>"
  have cores: "get_cores_for_binary b' t2 =
      (if b' = b then get_cores_for_binary b t @ [c] else get_cores_for_binary b' t)" for b'
    by (simp add: get_cores_for_binary_def update_conv t2_def)
  have rest: "et_all_core_subsets t2 = et_all_core_subsets t @ [c]"
    "et_total_processors t2 = et_total_processors t + 1" by (simp_all add: t2_def)
  have "implements t2 (m(c \<mapsto> b))"
    using assms None by (auto simp: implements_def cores rest)
  moreover have "add_processor b c k t = Inr t2"
    by (simp add: add_processor_def known_implements [OF assms] None Let_def t2_def)
  ultimately show ?thesis using None by auto
qed

definition try_add :: "string \<times> core \<times> executable_type option \<Rightarrow> executable_targets \<Rightarrow> executable_targets" where
  "try_add a t = (let (b, c, k) = a in case add_processor b c k t of Inl e \<Rightarrow> t | Inr t' \<Rightarrow> t')"

lemma try_add_simulates: "implements t m \<Longrightarrow> implements (try_add (b, c, k) t) (give b c m)"
  using add_processor_simulates [where t = t and m = m and c = c and b = b and k = k]
  by (auto simp: try_add_def give_def split: option.splits if_splits)

lemma adds_simulate:
  "implements t m \<Longrightarrow> implements (fold try_add as t) (fold (\<lambda>(b, c, k). give b c) as m)"
  by (induction as arbitrary: t m) (auto intro: try_add_simulates)

subsection \<open>Refinement\<close>

text \<open>
  C32: the executable targets implement a map from cores to binaries. Add any cores for any binaries in any
  order, going on after an error: the cores of every binary are then those that the map gives to it,
  without repetitions, and are the cores that asked for it first; the total is the number of cores in
  the map; and a further addition is refused exactly when the core belongs to another binary.
\<close>
theorem executable_targets_refine:
  "let t = fold try_add adds executable_targets_init; m = fold (\<lambda>(b, c, k). give b c) adds Map.empty
   in (\<forall>b. set (get_cores_for_binary b t) = {c. m c = Some b} \<and> distinct (get_cores_for_binary b t)) \<and>
      set (et_all_core_subsets t) = dom m \<and> et_total_processors t = card (dom m) \<and>
      (\<forall>b c k. add_processor b c k t = Inl (InvalidParameter (core_name c)) \<longleftrightarrow> m c \<notin> {None, Some b})"
proof -
  let ?t = "fold try_add adds executable_targets_init"
    and ?m = "fold (\<lambda>(b, c, k). give b c) adds Map.empty"
  have r: "implements ?t ?m" by (rule adds_simulate [OF implements_init])
  have "et_total_processors ?t = card (dom ?m)"
    using r unfolding implements_def by (metis distinct_card)
  moreover have "add_processor b c k ?t = Inl (InvalidParameter (core_name c)) \<longleftrightarrow> ?m c \<notin> {None, Some b}"
    for b c k
    using add_processor_simulates [OF r, where c = c and b = b and k = k]
    by (cases "?m c") auto
  moreover have "set (get_cores_for_binary b ?t) = {c. ?m c = Some b} \<and> distinct (get_cores_for_binary b ?t)"
    for b using r by (simp add: implements_def)
  moreover have "set (et_all_core_subsets ?t) = dom ?m" using r by (simp add: implements_def)
  ultimately show ?thesis unfolding Let_def by blast
qed

end
