(* ===== verification/MachineDetails.thy ===== *)
theory MachineDetails
  imports MachineProcess "HOL-Library.Product_Lexorder"
begin

text \<open>
  Building the description of a machine (\<open>processes/get_machine_process.py\<close>): the routing table of the
  boot chip says which chips there are, every chip is asked for its summary and its core maps, the
  chips, links and cores to ignore are taken out, and the chips are added to the machine. The geometry
  of the machine library and the configuration are a record of their own; the report file is not kept.
\<close>

type_synonym ip_address = "int \<times> int \<times> int \<times> int"

record machine_version =
  mv_max_cores_per_chip :: int
  mv_xy_over_link :: "xy \<Rightarrow> int \<Rightarrow> xy"
  mv_global_xy :: "xy \<Rightarrow> xy \<Rightarrow> xy"
  cfg_down_chips :: "(xy \<times> ip_address option) list"
  cfg_down_links :: "(xy \<times> int \<times> ip_address option) list"
  cfg_down_cores :: "(xy \<times> int \<times> ip_address option) list"
  cfg_ignore_bad_ethernets :: bool
  cfg_max_sdram :: "int option"

record machine_state =
  gm_p2p_column_data :: "(bytes \<times> nat) list"
  gm_chip_info :: "(xy \<times> chip_summary_info) list"
  gm_ethernets :: "(ip_address \<times> xy) list option"
  gm_ignore_cores_map :: "xy \<Rightarrow> int set"
  gm_physical_to_virtual_map :: "(xy \<times> bytes) list"
  gm_virtual_to_physical_map :: "(xy \<times> bytes) list"

definition machine_state_init :: machine_state where
  "machine_state_init = \<lparr>gm_p2p_column_data = [], gm_chip_info = [], gm_ethernets = None,
     gm_ignore_cores_map = (\<lambda>_. {}), gm_physical_to_virtual_map = [], gm_virtual_to_physical_map = []\<rparr>"

text \<open>A chip as it is handed to the machine, and its links.\<close>

record made_chip =
  mc_xy :: xy
  mc_n_processors :: int
  mc_links :: "(int \<times> xy) list"
  mc_n_multicast_entries :: int
  mc_sdram :: int
  mc_ip_address :: "ip_address option"
  mc_nearest_ethernet :: xy
  mc_down_cores :: "int set"
  mc_parent_link :: "int option"
  mc_v_to_p_map :: "bytes option"

subsection \<open>Chips\<close>

definition make_router :: "machine_version \<Rightarrow> machine_state \<Rightarrow> chip_summary_info \<Rightarrow> (int \<times> xy) list" where
  "make_router v s info =
     filter (\<lambda>(link, dest). dest \<in> fst ` set (gm_chip_info s))
       (map (\<lambda>link. (link, mv_xy_over_link v (csi_x info, csi_y info) link)) (csi_working_links info))"

text \<open>The cores that are not idle are down, whatever was configured; a state that is missing is an \<open>IndexError\<close>.\<close>

fun find_down_cores :: "cpu_state list \<Rightarrow> nat list \<Rightarrow> int set \<Rightarrow> int set res" where
  "find_down_cores states [] down = Inr down"
| "find_down_cores states (i # is) down =
     (if i < length states
      then find_down_cores states is (if states ! i \<noteq> CPU_IDLE then insert (int i) down else down)
      else Inl PyIndexError)"

definition make_chip :: "machine_version \<Rightarrow> machine_state \<Rightarrow> chip_summary_info \<Rightarrow> made_chip res" where
  "make_chip v s info =
     (let key = (csi_x info, csi_y info);
          n_cores = min (csi_n_cores info) (mv_max_cores_per_chip v)
      in bind_res (find_down_cores (csi_core_states info) [1..<nat n_cores] (gm_ignore_cores_map s key))
           (\<lambda>down_cores.
             let sdram = csi_largest_free_sdram_block info;
                 sdram' = (case cfg_max_sdram v of None \<Rightarrow> sdram | Some m \<Rightarrow> if sdram > m then m else sdram)
             in Inr \<lparr>mc_xy = key, mc_n_processors = n_cores, mc_links = make_router v s info,
                     mc_n_multicast_entries = csi_n_free_multicast_routing_entries info,
                     mc_sdram = sdram', mc_ip_address = csi_ethernet_ip_address info,
                     mc_nearest_ethernet = (csi_nearest_ethernet_x info, csi_nearest_ethernet_y info),
                     mc_down_cores = down_cores, mc_parent_link = csi_parent_link info,
                     mc_v_to_p_map = map_of (gm_virtual_to_physical_map s) key\<rparr>))"

text \<open>\<open>_fill_machine\<close>: sorted by coordinates; a wrong address is cleared, or its chip is left out.\<close>

fun fill_chips :: "machine_version \<Rightarrow> machine_state \<Rightarrow> chip_summary_info list \<Rightarrow> made_chip list res" where
  "fill_chips v s [] = Inr []"
| "fill_chips v s (info # infos) =
     (if csi_ethernet_ip_address info \<noteq> None \<and>
         (csi_x info \<noteq> csi_nearest_ethernet_x info \<or> csi_y info \<noteq> csi_nearest_ethernet_y info) \<and>
         \<not> cfg_ignore_bad_ethernets v
      then fill_chips v s infos
      else let info' = (if csi_ethernet_ip_address info \<noteq> None \<and>
                           (csi_x info \<noteq> csi_nearest_ethernet_x info \<or> csi_y info \<noteq> csi_nearest_ethernet_y info)
                        then clear_ethernet_ip_address info else info)
           in bind_res (make_chip v s info') (\<lambda>c. bind_res (fill_chips v s infos) (\<lambda>cs. Inr (c # cs))))"

definition fill_machine :: "machine_version \<Rightarrow> machine_state \<Rightarrow> made_chip list res" where
  "fill_machine v s =
     fill_chips v s (sort_key (\<lambda>i. (csi_x i, csi_y i)) (map snd (gm_chip_info s)))"

subsection \<open>What is ignored\<close>

text \<open>The first use fills the map from addresses to chips, and later uses see it as it was then.\<close>

definition ethernet_by_ipaddress :: "ip_address \<Rightarrow> machine_state \<Rightarrow> machine_state \<times> xy option" where
  "ethernet_by_ipaddress ip s =
     (let table = (case gm_ethernets s of
          Some t \<Rightarrow> t
        | None \<Rightarrow> fold (\<lambda>info acc. case csi_ethernet_ip_address info of
              None \<Rightarrow> acc | Some a \<Rightarrow> AList.update a (csi_x info, csi_y info) acc) (map snd (gm_chip_info s)) [])
      in (s\<lparr>gm_ethernets := Some table\<rparr>, map_of table ip))"

text \<open>The report of a mapped address reads the summary of chip (0, 0), which may be a \<open>KeyError\<close>.\<close>

definition ignores_local_to_global ::
  "machine_version \<Rightarrow> xy \<Rightarrow> ip_address option \<Rightarrow> machine_state \<Rightarrow> (machine_state \<times> xy option) res" where
  "ignores_local_to_global v local_xy ip_address s =
     (let present = (\<lambda>s' g. Inr (s', if g \<in> fst ` set (gm_chip_info s') then Some g else None))
      in case ip_address of
           None \<Rightarrow> present s local_xy
         | Some ip \<Rightarrow>
             (case ethernet_by_ipaddress ip s of
                (s', None) \<Rightarrow> Inr (s', None)
              | (s', Some ethernet) \<Rightarrow>
                  if (0, 0) \<in> fst ` set (gm_chip_info s') then present s' (mv_global_xy v local_xy ethernet)
                  else Inl PyKeyError))"

definition set_links :: "xy \<Rightarrow> int list \<Rightarrow> machine_state \<Rightarrow> machine_state" where
  "set_links k links s =
     s\<lparr>gm_chip_info := map (\<lambda>(k', i). (k', if k' = k then i\<lparr>csi_working_links := links\<rparr> else i)) (gm_chip_info s)\<rparr>"

text \<open>Taking out the link of a chip that leads back over \<open>link\<close>, if that chip is known and has it.\<close>

definition remove_inverse_link :: "machine_version \<Rightarrow> xy \<Rightarrow> int \<Rightarrow> machine_state \<Rightarrow> machine_state" where
  "remove_inverse_link v global_xy link s =
     (let inv_xy = mv_xy_over_link v global_xy link; inv_link = (link + 3) mod 6
      in case map_of (gm_chip_info s) inv_xy of
           None \<Rightarrow> s
         | Some info \<Rightarrow>
             if inv_link \<in> set (csi_working_links info)
             then set_links inv_xy (remove1 inv_link (csi_working_links info)) s else s)"

fun process_ignore_links ::
  "machine_version \<Rightarrow> (xy \<times> int \<times> ip_address option) list \<Rightarrow> machine_state \<Rightarrow> machine_state res" where
  "process_ignore_links v [] s = Inr s"
| "process_ignore_links v ((local_xy, link, ip) # ignores) s =
     bind_res (ignores_local_to_global v local_xy ip s) (\<lambda>(s1, global_xy).
       process_ignore_links v ignores
         (case global_xy of
            None \<Rightarrow> s1
          | Some g \<Rightarrow>
              (case map_of (gm_chip_info s1) g of
                 None \<Rightarrow> s1
               | Some info \<Rightarrow>
                   if link \<in> set (csi_working_links info)
                   then remove_inverse_link v g link
                          (set_links g (remove1 link (csi_working_links info)) s1)
                   else s1)))"

fun preprocess_ignore_chips ::
  "machine_version \<Rightarrow> (xy \<times> ip_address option) list \<Rightarrow> machine_state \<Rightarrow> machine_state res" where
  "preprocess_ignore_chips v [] s = Inr s"
| "preprocess_ignore_chips v ((local_xy, ip) # ignores) s =
     bind_res (ignores_local_to_global v local_xy ip s) (\<lambda>(s1, global_xy).
       preprocess_ignore_chips v ignores
         (case global_xy of
            None \<Rightarrow> s1
          | Some g \<Rightarrow>
              (case map_of (gm_chip_info s1) g of
                 None \<Rightarrow> s1
               | Some info \<Rightarrow>
                   fold (remove_inverse_link v g) (csi_working_links info)
                     (s1\<lparr>gm_chip_info := AList.delete g (gm_chip_info s1)\<rparr>))))"

text \<open>\<open>p\<close> is a virtual core when positive, and minus a physical one otherwise.\<close>

definition get_virtual_p :: "xy \<Rightarrow> int \<Rightarrow> machine_state \<Rightarrow> int option res" where
  "get_virtual_p k p s =
     (if p > 0 then Inr (Some p)
      else case map_of (gm_physical_to_virtual_map s) k of
             None \<Rightarrow> Inl PyKeyError
           | Some virtual_map \<Rightarrow>
               let physical = nat (0 - p)
               in if physical \<ge> length virtual_map \<or> virtual_map ! physical = 0xFF then Inr None
                  else if virtual_map ! physical = 0 then Inr None
                  else Inr (Some (uint (virtual_map ! physical))))"

fun preprocess_ignore_cores ::
  "machine_version \<Rightarrow> (xy \<times> int \<times> ip_address option) list \<Rightarrow> machine_state \<Rightarrow> machine_state res" where
  "preprocess_ignore_cores v [] s = Inr s"
| "preprocess_ignore_cores v ((local_xy, ip_p, ip) # ignores) s =
     bind_res (ignores_local_to_global v local_xy ip s) (\<lambda>(s1, global_xy).
       case global_xy of
         None \<Rightarrow> preprocess_ignore_cores v ignores s1
       | Some g \<Rightarrow>
           bind_res (get_virtual_p g ip_p s1) (\<lambda>vp.
             preprocess_ignore_cores v ignores
               (case vp of
                  None \<Rightarrow> s1
                | Some p \<Rightarrow> s1\<lparr>gm_ignore_cores_map :=
                    (gm_ignore_cores_map s1)(g := insert p (gm_ignore_cores_map s1 g))\<rparr>)))"

text \<open>The three passes over a machine that has been read, and the chips that are left.\<close>

definition ignore_and_fill :: "machine_version \<Rightarrow> machine_state \<Rightarrow> (machine_state \<times> made_chip list) res" where
  "ignore_and_fill v s =
     bind_res (preprocess_ignore_chips v (cfg_down_chips v) s) (\<lambda>s1.
     bind_res (process_ignore_links v (cfg_down_links v) s1) (\<lambda>s2.
     bind_res (preprocess_ignore_cores v (cfg_down_cores v) s2) (\<lambda>s3.
     bind_res (fill_machine v s3) (\<lambda>chips. Inr (s3, chips)))))"

subsection \<open>Reading the machine\<close>

definition receive_p2p_data :: "nat \<Rightarrow> machine_state client callback" where
  "receive_p2p_data column = with_data (\<lambda>data offset len s.
     if column < length (gm_p2p_column_data s)
     then Inr (s\<lparr>gm_p2p_column_data := (gm_p2p_column_data s)[column := (data, offset)]\<rparr>)
     else Inl PyIndexError)"

definition receive_chip_info :: "machine_state client callback" where
  "receive_chip_info r c =
     (case r of
        RspChipInfo i \<Rightarrow>
          (c\<lparr>cl_user := (cl_user c)\<lparr>gm_chip_info :=
             AList.update (csi_x i, csi_y i) i (gm_chip_info (cl_user c))\<rparr>\<rparr>, None)
      | _ \<Rightarrow> (c, Some PyAttributeError))"

definition P_TO_V_SIZE :: nat where
  "P_TO_V_SIZE = (case sv_array_size SV_physical_to_virtual_core_map of Some n \<Rightarrow> nat n | None \<Rightarrow> 0)"

definition P_MAPS_SIZE :: int where
  "P_MAPS_SIZE = int P_TO_V_SIZE +
     (case sv_array_size SV_virtual_to_physical_core_map of Some n \<Rightarrow> n | None \<Rightarrow> 0)"

definition P_TO_V_ADDR :: int where
  "P_TO_V_ADDR = SYSTEM_VARIABLE_BASE_ADDRESS + sv_offset SV_physical_to_virtual_core_map"

definition receive_p_maps :: "int \<Rightarrow> int \<Rightarrow> machine_state client callback" where
  "receive_p_maps x y = with_data (\<lambda>data offset len s.
     Inr (s\<lparr>gm_physical_to_virtual_map :=
              AList.update (x, y) (slice offset (P_TO_V_SIZE + offset) data) (gm_physical_to_virtual_map s),
            gm_virtual_to_physical_map :=
              AList.update (x, y) (drop (offset + P_TO_V_SIZE) data) (gm_virtual_to_physical_map s)\<rparr>))"

fun p2p_column_loop ::
  "reader \<Rightarrow> int \<Rightarrow> int \<Rightarrow> int \<Rightarrow> nat list \<Rightarrow> machine_state process \<Rightarrow> net \<Rightarrow>
     (machine_state process, net) presult option" where
  "p2p_column_loop rd boot_x boot_y column_bytes [] pr nt = Some (Done pr nt)"
| "p2p_column_loop rd boot_x boot_y column_bytes (column # columns) pr nt =
     and_then (send_read rd (boot_x, boot_y, 0)
                 (ROUTER_REGISTER_P2P_ADDRESS + get_column_offset (int column)) column_bytes
                 (receive_p2p_data column) pr nt)
       (p2p_column_loop rd boot_x boot_y column_bytes columns)"

fun chip_details_loop ::
  "reader \<Rightarrow> xy list \<Rightarrow> machine_state process \<Rightarrow> net \<Rightarrow> (machine_state process, net) presult option" where
  "chip_details_loop rd [] pr nt = Some (Done pr nt)"
| "chip_details_loop rd ((x, y) # xys) pr nt =
     and_then
       (and_then
          (proc_send_request rd (get_chip_info x y False) (Some receive_chip_info) pr nt)
          (send_read rd (x, y, 0) P_TO_V_ADDR P_MAPS_SIZE (receive_p_maps x y)))
       (chip_details_loop rd xys)"

text \<open>\<open>with suppress(Exception)\<close>: a phase that fails is left where it failed.\<close>

definition suppress_all :: "('a, 'b) presult option \<Rightarrow> ('a, 'b) presult option" where
  "suppress_all r = (case r of Some (Fails e a b) \<Rightarrow> Some (Done a b) | _ \<Rightarrow> r)"

definition get_machine_details ::
  "reader \<Rightarrow> machine_version \<Rightarrow> int \<Rightarrow> int \<Rightarrow> int \<Rightarrow> int \<Rightarrow> machine_state process \<Rightarrow> net \<Rightarrow>
     ((machine_state process, net) presult \<times> made_chip list) option" where
  "get_machine_details rd v boot_x boot_y width height pr nt =
     (let pr0 = pr\<lparr>pr_client := (pr_client pr)\<lparr>cl_user :=
            (cl_user (pr_client pr))\<lparr>gm_p2p_column_data := replicate (nat width) ([], 0)\<rparr>\<rparr>\<rparr>
      in case collect_responses rd
                (p2p_column_loop rd boot_x boot_y (get_n_column_bytes height) [0..<nat width] pr0 nt) of
           None \<Rightarrow> None
         | Some (Fails e pr1 nt1) \<Rightarrow> Some (Fails e pr1 nt1, [])
         | Some (Blocks pr1) \<Rightarrow> Some (Blocks pr1, [])
         | Some (Done pr1 nt1) \<Rightarrow>
             (case p2p_table_init width height (gm_p2p_column_data (cl_user (pr_client pr1))) of
                Inl e \<Rightarrow> Some (Fails e pr1 nt1, [])
              | Inr table \<Rightarrow>
                  (case suppress_all (collect_responses rd (chip_details_loop rd (iterchips table) pr1 nt1)) of
                     None \<Rightarrow> None
                   | Some (Fails e pr2 nt2) \<Rightarrow> Some (Fails e pr2 nt2, [])
                   | Some (Blocks pr2) \<Rightarrow> Some (Blocks pr2, [])
                   | Some (Done pr2 nt2) \<Rightarrow>
                       (case ignore_and_fill v (cl_user (pr_client pr2)) of
                          Inl e \<Rightarrow> Some (Fails e pr2 nt2, [])
                        | Inr (s, chips) \<Rightarrow>
                            Some (Done (pr2\<lparr>pr_client := (pr_client pr2)\<lparr>cl_user := s\<rparr>\<rparr>) nt2, chips)))))"

end
