(* ===== verification/IobufProcess.thy ===== *)
theory IobufProcess
  imports MachineProcess
begin

text \<open>
  Reading the output buffers of cores (\<open>processes/read_iobuf_process.py\<close>): the address of the first
  buffer of every core, then rounds of reads, in which the callbacks of the first part of a buffer ask
  for its tail and for the next buffer of the list. The two lists of pending reads are stacks.
\<close>

record region_tail =
  rt_scamp_coords :: xyp
  rt_core_coords :: xyp
  rt_n :: nat
  rt_base_address :: int
  rt_size :: int
  rt_offset :: nat

record next_region =
  nr_scamp_coords :: xyp
  nr_core_coords :: xyp
  nr_n :: nat
  nr_next_address :: int
  nr_first_read_size :: int

definition next_at :: "next_region \<Rightarrow> int \<Rightarrow> next_region" where
  "next_at r address = r\<lparr>nr_n := nr_n r + 1, nr_next_address := address\<rparr>"

definition region_tail_of :: "next_region \<Rightarrow> int \<Rightarrow> int \<Rightarrow> nat \<Rightarrow> region_tail" where
  "region_tail_of r address n_bytes offset =
     \<lparr>rt_scamp_coords = nr_scamp_coords r, rt_core_coords = nr_core_coords r, rt_n = nr_n r,
      rt_base_address = address, rt_size = n_bytes, rt_offset = offset\<rparr>"

definition FIRST_IOBUF :: "fitem list" where
  "FIRST_IOBUF = [FI, Fx, Fx, Fx, Fx, Fx, Fx, Fx, Fx, FI]"

text \<open>
  The buffers read so far, of every core in the order they were found; \<open>_iobuf\<close> and \<open>_iobuf_view\<close> are
  two views of the same bytes.
\<close>

record iobuf_state =
  io_iobuf :: "xyp \<Rightarrow> (nat \<times> bytes) list"
  io_extra_reads :: "region_tail list"
  io_next_reads :: "next_region list"

definition iobuf_state_init :: iobuf_state where
  "iobuf_state_init = \<lparr>io_iobuf = (\<lambda>_. []), io_extra_reads = [], io_next_reads = []\<rparr>"

subsection \<open>Callbacks\<close>

definition iobuf_address_response :: "int \<Rightarrow> xyp \<Rightarrow> xyp \<Rightarrow> iobuf_state client callback" where
  "iobuf_address_response iobuf_size scamp_coords xyp = with_data (\<lambda>data offset len s.
     bind_res (unpack_word data offset) (\<lambda>address.
       Inr (if address \<noteq> 0
            then s\<lparr>io_next_reads := io_next_reads s @
                  [\<lparr>nr_scamp_coords = scamp_coords, nr_core_coords = xyp, nr_n = 0, nr_next_address = address,
                    nr_first_read_size = min (iobuf_size + 16) UDP_MESSAGE_MAX_SIZE\<rparr>]\<rparr>
            else s)))"

definition extra_iobuf_response :: "region_tail \<Rightarrow> iobuf_state client callback" where
  "extra_iobuf_response tail = with_data (\<lambda>data offset len s.
     bind_res (require PyKeyError (map_of (io_iobuf s (rt_core_coords tail)) (rt_n tail))) (\<lambda>view.
     bind_res (view_assign (rt_offset tail) (slice offset (offset + len) data) view) (\<lambda>view'.
       Inr (s\<lparr>io_iobuf := (io_iobuf s)(rt_core_coords tail :=
               AList.update (rt_n tail) view' (io_iobuf s (rt_core_coords tail)))\<rparr>))))"

text \<open>The tails that are left after the first packet, 256 bytes at most each.\<close>

function tail_reads :: "next_region \<Rightarrow> int \<Rightarrow> nat \<Rightarrow> int \<Rightarrow> region_tail list" where
  "tail_reads r base_address read_offset bytes_to_read =
     (if bytes_to_read > 0 then
        let n = min bytes_to_read UDP_MESSAGE_MAX_SIZE
        in region_tail_of r base_address n read_offset
             # tail_reads r (base_address + n) (read_offset + nat n) (bytes_to_read - n)
      else [])"
  by pat_completeness auto
termination
  by (relation "measure (\<lambda>(r, base, off, n). nat n)") (auto simp: UDP_MESSAGE_MAX_SIZE_def)

declare tail_reads.simps [simp del]

definition first_iobuf_response :: "next_region \<Rightarrow> iobuf_state client callback" where
  "first_iobuf_response region = with_data (\<lambda>data offset len s.
     bind_res (struct_unpack_from Little FIRST_IOBUF data offset) (\<lambda>vs. case vs of
       [next_address, bytes_to_read] \<Rightarrow>
         let core = nr_core_coords region;
             view = replicate (nat bytes_to_read) 0;
             packet_bytes = min (int len - 16) bytes_to_read;
             packet = slice (offset + 16) (offset + 16 + nat packet_bytes) data
         in bind_res (if packet_bytes > 0 then view_assign 0 packet view else Inr view) (\<lambda>view'.
              Inr (s\<lparr>io_iobuf := (io_iobuf s)(core := AList.update (nr_n region) view' (io_iobuf s core)),
                     io_extra_reads := io_extra_reads s @
                       tail_reads region (nr_next_address region + packet_bytes + 16) (nat packet_bytes)
                         (bytes_to_read - packet_bytes),
                     io_next_reads := io_next_reads s @
                       (if next_address \<noteq> 0 then [next_at region next_address] else [])\<rparr>))
     | _ \<Rightarrow> Inl PyValueError))"

subsection \<open>The reads\<close>

fun iobuf_address_cores ::
  "reader \<Rightarrow> int \<Rightarrow> int \<Rightarrow> int \<Rightarrow> int list \<Rightarrow> iobuf_state process \<Rightarrow> net \<Rightarrow>
     (iobuf_state process, net) presult option" where
  "iobuf_address_cores rd iobuf_size x y [] pr nt = Some (Done pr nt)"
| "iobuf_address_cores rd iobuf_size x y (p # ps) pr nt =
     and_then (send_read rd (x, y, 0) (get_vcpu_address p + CPU_IOBUF_ADDRESS_OFFSET) 4
                 (iobuf_address_response iobuf_size (x, y, 0) (x, y, p)) pr nt)
       (iobuf_address_cores rd iobuf_size x y ps)"

fun iobuf_address_loop ::
  "reader \<Rightarrow> int \<Rightarrow> core_subsets \<Rightarrow> iobuf_state process \<Rightarrow> net \<Rightarrow>
     (iobuf_state process, net) presult option" where
  "iobuf_address_loop rd iobuf_size [] pr nt = Some (Done pr nt)"
| "iobuf_address_loop rd iobuf_size ((x, y, ps) # subsets) pr nt =
     and_then (iobuf_address_cores rd iobuf_size x y ps pr nt) (iobuf_address_loop rd iobuf_size subsets)"

definition set_user :: "'v \<Rightarrow> 'v process \<Rightarrow> 'v process" where
  "set_user u pr = pr\<lparr>pr_client := (pr_client pr)\<lparr>cl_user := u\<rparr>\<rparr>"

text \<open>
  The two inner loops of a round. A send may run the callbacks of earlier requests, which add to the
  stacks while they are being emptied.
\<close>

partial_function (option) extra_reads_loop ::
  "reader \<Rightarrow> iobuf_state process \<Rightarrow> net \<Rightarrow> (iobuf_state process, net) presult option" where
  "extra_reads_loop rd pr nt =
     (let s = cl_user (pr_client pr)
      in case rev (io_extra_reads s) of
           [] \<Rightarrow> Some (Done pr nt)
         | tail # rest \<Rightarrow>
             (case send_read rd (rt_scamp_coords tail) (rt_base_address tail) (rt_size tail)
                     (extra_iobuf_response tail) (set_user (s\<lparr>io_extra_reads := rev rest\<rparr>) pr) nt of
                None \<Rightarrow> None
              | Some (Done pr' nt') \<Rightarrow> extra_reads_loop rd pr' nt'
              | Some (Fails e pr' nt') \<Rightarrow> Some (Fails e pr' nt')
              | Some (Blocks pr') \<Rightarrow> Some (Blocks pr')))"

partial_function (option) next_reads_loop ::
  "reader \<Rightarrow> iobuf_state process \<Rightarrow> net \<Rightarrow> (iobuf_state process, net) presult option" where
  "next_reads_loop rd pr nt =
     (let s = cl_user (pr_client pr)
      in case rev (io_next_reads s) of
           [] \<Rightarrow> Some (Done pr nt)
         | region # rest \<Rightarrow>
             (case send_read rd (nr_scamp_coords region) (nr_next_address region) (nr_first_read_size region)
                     (first_iobuf_response region) (set_user (s\<lparr>io_next_reads := rev rest\<rparr>) pr) nt of
                None \<Rightarrow> None
              | Some (Done pr' nt') \<Rightarrow> next_reads_loop rd pr' nt'
              | Some (Fails e pr' nt') \<Rightarrow> Some (Fails e pr' nt')
              | Some (Blocks pr') \<Rightarrow> Some (Blocks pr')))"

text \<open>The rounds end when no read is pending; a list of buffers that loops is read for ever.\<close>

partial_function (option) iobuf_rounds ::
  "reader \<Rightarrow> iobuf_state process \<Rightarrow> net \<Rightarrow> (iobuf_state process, net) presult option" where
  "iobuf_rounds rd pr nt =
     (let s = cl_user (pr_client pr)
      in if io_extra_reads s = [] \<and> io_next_reads s = [] then Some (Done pr nt)
         else case collect_responses rd (and_then (extra_reads_loop rd pr nt) (next_reads_loop rd)) of
                None \<Rightarrow> None
              | Some (Done pr' nt') \<Rightarrow> iobuf_rounds rd pr' nt'
              | Some (Fails e pr' nt') \<Rightarrow> Some (Fails e pr' nt')
              | Some (Blocks pr') \<Rightarrow> Some (Blocks pr'))"

declare extra_reads_loop.simps [code] next_reads_loop.simps [code] iobuf_rounds.simps [code]

text \<open>The buffers of one core put together and decoded.\<close>

fun decode_all :: "bytes list \<Rightarrow> ustr res" where
  "decode_all [] = Inr []"
| "decode_all (b # bs) = bind_res (ascii_decode b) (\<lambda>s. bind_res (decode_all bs) (\<lambda>r. Inr (s @ r)))"

fun decode_cores :: "iobuf_state \<Rightarrow> xyp list \<Rightarrow> (xyp \<times> ustr) list res" where
  "decode_cores s [] = Inr []"
| "decode_cores s (c # cs) =
     bind_res (decode_all (map snd (io_iobuf s c))) (\<lambda>text.
     bind_res (decode_cores s cs) (\<lambda>rest. Inr ((c, text) # rest)))"

definition cores_of :: "core_subsets \<Rightarrow> xyp list" where
  "cores_of subsets = concat (map (\<lambda>(x, y, ps). map (\<lambda>p. (x, y, p)) ps) subsets)"

definition read_iobuf ::
  "reader \<Rightarrow> int \<Rightarrow> core_subsets \<Rightarrow> iobuf_state process \<Rightarrow> net \<Rightarrow>
     ((iobuf_state process, net) presult \<times> (xyp \<times> ustr) list) option" where
  "read_iobuf rd iobuf_size subsets pr nt =
     (case and_then (collect_responses rd (iobuf_address_loop rd iobuf_size subsets pr nt)) (iobuf_rounds rd) of
        None \<Rightarrow> None
      | Some (Done pr' nt') \<Rightarrow>
          (case decode_cores (cl_user (pr_client pr')) (cores_of subsets) of
             Inl e \<Rightarrow> Some (Fails e pr' nt', [])
           | Inr bufs \<Rightarrow> Some (Done pr' nt', bufs))
      | Some stopped \<Rightarrow> Some (stopped, []))"

end
