(* ===== verification/CopyRun.thy ===== *)
theory CopyRun
  imports MachineProcess
begin

text \<open>
  Starting an application on every chip (\<open>processes/application_copy_run_process.py\<close>): from the boot
  chip on, in rounds, every chip whose parent has the binary copies it over its parent link; each chip
  serves one child a round, and each board sends to one other board a round. A chip of the machine
  library is its coordinates with its nearest Ethernet chip, its parent link and where that link leads.
\<close>

record chip =
  ch_xy :: xy
  ch_ethernet :: xy
  ch_parent_link :: "int option"
  ch_parent :: "xy option"

type_synonym machine = "chip list"

definition chip_at :: "machine \<Rightarrow> xy \<Rightarrow> chip res" where
  "chip_at m k = require PyKeyError (find (\<lambda>c. ch_xy c = k) m)"

definition on_same_board :: "chip \<Rightarrow> chip \<Rightarrow> bool" where
  "on_same_board a b \<longleftrightarrow> ch_ethernet a = ch_ethernet b"

text \<open>
  \<open>_compute_parent_chips\<close>: the chips whose parent link leads to each chip, in the order of the machine;
  a parent link that the router lacks is an \<open>AttributeError\<close>.
\<close>

fun compute_parent_chips :: "chip list \<Rightarrow> (xy \<Rightarrow> chip list) \<Rightarrow> (xy \<Rightarrow> chip list) res" where
  "compute_parent_chips [] links = Inr links"
| "compute_parent_chips (c # cs) links =
     (case ch_parent_link c of
        None \<Rightarrow> compute_parent_chips cs links
      | Some _ \<Rightarrow>
          (case ch_parent c of
             None \<Rightarrow> Inl PyAttributeError
           | Some d \<Rightarrow> compute_parent_chips cs (links(d := links d @ [c]))))"

text \<open>The chips done, by board, in the order in which the boards and their chips were reached.\<close>

type_synonym chips_done = "(xy \<times> xy list) list"

definition is_done :: "chips_done \<Rightarrow> chip \<Rightarrow> bool" where
  "is_done done c \<longleftrightarrow> (case map_of done (ch_ethernet c) of None \<Rightarrow> False | Some cs \<Rightarrow> ch_xy c \<in> set cs)"

definition add_done :: "chip \<Rightarrow> chips_done \<Rightarrow> chips_done" where
  "add_done c done =
     AList.update (ch_ethernet c)
       ((case map_of done (ch_ethernet c) of None \<Rightarrow> [] | Some cs \<Rightarrow> cs) @ [ch_xy c]) done"

text \<open>The first child of a chip that can be served now.\<close>

definition serve_child :: "chips_done \<Rightarrow> chip \<Rightarrow> chip list \<Rightarrow> bool \<Rightarrow> chip option" where
  "serve_child done parent children off_board_copy_done =
     find (\<lambda>c. \<not> is_done done c \<and> (on_same_board c parent \<or> \<not> off_board_copy_done)) children"

fun next_of_board ::
  "machine \<Rightarrow> chips_done \<Rightarrow> (xy \<Rightarrow> chip list) \<Rightarrow> xy list \<Rightarrow> bool \<Rightarrow> chip list res" where
  "next_of_board m done parents [] off_board_copy_done = Inr []"
| "next_of_board m done parents (k # ks) off_board_copy_done =
     bind_res (chip_at m k) (\<lambda>parent.
       case serve_child done parent (parents k) off_board_copy_done of
         None \<Rightarrow> next_of_board m done parents ks off_board_copy_done
       | Some c \<Rightarrow>
           bind_res (next_of_board m done parents ks (off_board_copy_done \<or> \<not> on_same_board c parent))
             (\<lambda>rest. Inr (c # rest)))"

fun next_of_boards ::
  "machine \<Rightarrow> chips_done \<Rightarrow> (xy \<Rightarrow> chip list) \<Rightarrow> chips_done \<Rightarrow> chip list res" where
  "next_of_boards m done parents [] = Inr []"
| "next_of_boards m done parents ((eth, ks) # boards) =
     bind_res (next_of_board m done parents ks False) (\<lambda>a.
     bind_res (next_of_boards m done parents boards) (\<lambda>b. Inr (a @ b)))"

definition get_next_chips :: "machine \<Rightarrow> chips_done \<Rightarrow> (xy \<Rightarrow> chip list) \<Rightarrow> chip list res" where
  "get_next_chips m done parents = next_of_boards m done parents done"

subsection \<open>The process\<close>

text \<open>
  The requests of a round; \<open>processors\<close> are the processors of the core subset of a chip. The chips done
  are part of the result.
\<close>

fun copy_round ::
  "reader \<Rightarrow> (chip \<Rightarrow> scp_request res) \<Rightarrow> chip list \<Rightarrow> chips_done \<Rightarrow> 'v process \<Rightarrow> net \<Rightarrow>
     (('v process, net) presult \<times> chips_done) option" where
  "copy_round rd request [] done pr nt = Some (Done pr nt, done)"
| "copy_round rd request (c # cs) done pr nt =
     (case request c of
        Inl e \<Rightarrow> Some (Fails e pr nt, done)
      | Inr req \<Rightarrow>
          (case proc_send_request rd req None pr nt of
             None \<Rightarrow> None
           | Some (Done pr' nt') \<Rightarrow> copy_round rd request cs (add_done c done) pr' nt'
           | Some stopped \<Rightarrow> Some (stopped, done)))"

partial_function (option) copy_rounds ::
  "reader \<Rightarrow> (chip \<Rightarrow> scp_request res) \<Rightarrow> machine \<Rightarrow> (xy \<Rightarrow> chip list) \<Rightarrow> chips_done \<Rightarrow>
     'v process \<Rightarrow> net \<Rightarrow> (('v process, net) presult \<times> chips_done) option" where
  "copy_rounds rd request m parents done pr nt =
     (case get_next_chips m done parents of
        Inl e \<Rightarrow> Some (Fails e pr nt, done)
      | Inr [] \<Rightarrow> Some (Done pr nt, done)
      | Inr (c # cs) \<Rightarrow>
          (case copy_round rd request (c # cs) done pr nt of
             None \<Rightarrow> None
           | Some (Fails e pr1 nt1, done1) \<Rightarrow> Some (Fails e pr1 nt1, done1)
           | Some (Blocks pr1, done1) \<Rightarrow> Some (Blocks pr1, done1)
           | Some (Done pr1 nt1, done1) \<Rightarrow>
               (case proc_finish rd pr1 nt1 of
                  None \<Rightarrow> None
                | Some (Fails e pr2 nt2) \<Rightarrow> Some (Fails e pr2 nt2, done1)
                | Some (Blocks pr2) \<Rightarrow> Some (Blocks pr2, done1)
                | Some (Done pr2 nt2) \<Rightarrow>
                    (case check_for_error pr2 of
                       Some e \<Rightarrow> Some (Fails e pr2 nt2, done1)
                     | None \<Rightarrow> copy_rounds rd request m parents done1 pr2 nt2))))"

declare copy_rounds.simps [code]

definition copy_run_request ::
  "(xy \<Rightarrow> int list) \<Rightarrow> int \<Rightarrow> int \<Rightarrow> int \<Rightarrow> bool \<Rightarrow> chip \<Rightarrow> scp_request res" where
  "copy_run_request processors n_bytes app_id checksum wait c =
     (case ch_parent_link c of
        None \<Rightarrow> Inl PyTypeError
      | Some link \<Rightarrow>
          app_copy_run (fst (ch_xy c)) (snd (ch_xy c)) link n_bytes app_id (Some (processors (ch_xy c)))
            checksum wait)"

definition application_copy_run ::
  "reader \<Rightarrow> machine \<Rightarrow> xy \<Rightarrow> (xy \<Rightarrow> int list) \<Rightarrow> int \<Rightarrow> int \<Rightarrow> int \<Rightarrow> bool \<Rightarrow> 'v process \<Rightarrow> net \<Rightarrow>
     (('v process, net) presult \<times> chips_done) option" where
  "application_copy_run rd m boot_chip processors n_bytes app_id checksum wait pr nt =
     (let done0 = [(boot_chip, [boot_chip])]
      in case compute_parent_chips m (\<lambda>_. []) of
           Inl e \<Rightarrow> Some (Fails e pr nt, done0)
         | Inr parents \<Rightarrow>
             copy_rounds rd (copy_run_request processors n_bytes app_id checksum wait) m parents done0 pr nt)"

subsection \<open>\<open>WriteMemoryFloodProcess\<close>\<close>

text \<open>\<open>int(math.ceil(math.ceil(n_bytes / 4.0) / 256))\<close>, exact for the sizes of a machine.\<close>

definition flood_blocks :: "int \<Rightarrow> int" where
  "flood_blocks n_bytes = ((n_bytes + 3) div 4 + UDP_MESSAGE_MAX_SIZE - 1) div UDP_MESSAGE_MAX_SIZE"

definition start_flood_fill :: "reader \<Rightarrow> int \<Rightarrow> int \<Rightarrow> 'v process \<Rightarrow> net \<Rightarrow> ('v process, net) presult option" where
  "start_flood_fill rd n_bytes nearest_neighbour_id pr nt =
     collect_responses rd (proc_send_request rd
       (flood_fill_start nearest_neighbour_id (flood_blocks n_bytes) None None) None pr nt)"

definition end_flood_fill :: "reader \<Rightarrow> int \<Rightarrow> 'v process \<Rightarrow> net \<Rightarrow> ('v process, net) presult option" where
  "end_flood_fill rd nearest_neighbour_id pr nt =
     (case flood_fill_end nearest_neighbour_id 0 None False of
        Inl e \<Rightarrow> Some (Fails e pr nt)
      | Inr req \<Rightarrow> collect_responses rd (proc_send_request rd req None pr nt))"

function flood_loop ::
  "reader \<Rightarrow> int \<Rightarrow> int \<Rightarrow> int \<Rightarrow> bytes \<Rightarrow> nat \<Rightarrow> int \<Rightarrow> 'v process \<Rightarrow> net \<Rightarrow>
     ('v process, net) presult option" where
  "flood_loop rd nearest_neighbour_id block_no offset data data_offset n_bytes pr nt =
     (if n_bytes > 0 then
        let bytes_to_send = min n_bytes UDP_MESSAGE_MAX_SIZE
        in and_then (proc_send_request rd (flood_fill_data nearest_neighbour_id block_no offset data
                       data_offset (Some (nat bytes_to_send))) None pr nt)
             (flood_loop rd nearest_neighbour_id (block_no + 1) (offset + bytes_to_send) data
                (data_offset + nat bytes_to_send) (n_bytes - bytes_to_send))
      else Some (Done pr nt))"
  by pat_completeness auto
termination
  by (relation "measure (\<lambda>(rd, id, b, off, d, doff, n, pr, nt). nat n)") (auto simp: UDP_MESSAGE_MAX_SIZE_def)

declare flood_loop.simps [simp del]

definition flood_write_from_bytearray ::
  "reader \<Rightarrow> int \<Rightarrow> int \<Rightarrow> bytes \<Rightarrow> nat \<Rightarrow> int option \<Rightarrow> 'v process \<Rightarrow> net \<Rightarrow>
     ('v process, net) presult option" where
  "flood_write_from_bytearray rd nearest_neighbour_id base_address data offset n_bytes pr nt =
     (let n = (case n_bytes of None \<Rightarrow> int (length data) | Some n \<Rightarrow> n)
      in and_then
           (and_then (start_flood_fill rd n nearest_neighbour_id pr nt)
              (\<lambda>pr1 nt1. collect_responses rd
                 (flood_loop rd nearest_neighbour_id 0 base_address data offset n pr1 nt1)))
           (end_flood_fill rd nearest_neighbour_id))"

text \<open>
  From a reader, whose unread bytes are an argument: a reader that has less gives shorter blocks, in the end
  empty ones, at the addresses of full ones.
\<close>

function flood_reader_loop ::
  "reader \<Rightarrow> int \<Rightarrow> int \<Rightarrow> int \<Rightarrow> bytes \<Rightarrow> int \<Rightarrow> 'v process \<Rightarrow> net \<Rightarrow> ('v process, net) presult option" where
  "flood_reader_loop rd nearest_neighbour_id block_no offset unread n_bytes pr nt =
     (if n_bytes > 0 then
        let bytes_to_send = min n_bytes UDP_MESSAGE_MAX_SIZE;
            data_array = take (nat bytes_to_send) unread
        in and_then (proc_send_request rd (flood_fill_data nearest_neighbour_id block_no offset data_array
                       0 (Some (length data_array))) None pr nt)
             (flood_reader_loop rd nearest_neighbour_id (block_no + 1) (offset + bytes_to_send)
                (drop (nat bytes_to_send) unread) (n_bytes - bytes_to_send))
      else Some (Done pr nt))"
  by pat_completeness auto
termination
  by (relation "measure (\<lambda>(rd, id, b, off, un, n, pr, nt). nat n)") (auto simp: UDP_MESSAGE_MAX_SIZE_def)

declare flood_reader_loop.simps [simp del]

definition flood_write_from_reader ::
  "reader \<Rightarrow> int \<Rightarrow> int \<Rightarrow> bytes \<Rightarrow> int \<Rightarrow> 'v process \<Rightarrow> net \<Rightarrow> ('v process, net) presult option" where
  "flood_write_from_reader rd nearest_neighbour_id base_address unread n_bytes pr nt =
     and_then
       (and_then (start_flood_fill rd n_bytes nearest_neighbour_id pr nt)
          (\<lambda>pr1 nt1. collect_responses rd
             (flood_reader_loop rd nearest_neighbour_id 0 base_address unread n_bytes pr1 nt1)))
       (end_flood_fill rd nearest_neighbour_id)"

end
