(* ===== verification/Transceiver.thy ===== *)
theory Transceiver
  imports MachineDetails RouteProcess IobufProcess CopyRun Boot
begin

text \<open>
  The transceiver (\<open>transceiver/base_transceiver.py\<close>): its state, how it runs a process, and its
  operations on memory, cores and registers. All sockets ever opened are one pool, so that a connection
  is its number in the pool; a BMP or a boot connection has the coordinates (0, 0). What the data view,
  the machine library, the sockets and the clock answer is the environment. Delays, logging and locks
  are not kept.
\<close>

subsection \<open>State\<close>

record transceiver =
  tx_pool :: "scp_connection list"
  tx_scamp_connections :: "nat list"
  tx_udp_scamp_connections :: "(ip_address \<times> nat) list"
  tx_bmp_connection :: "(nat \<times> boards) option"
  tx_boot_send_connection :: "nat option"
  tx_selector :: selector
  tx_width :: "int option"
  tx_height :: "int option"
  tx_iobuf_size :: "int option"
  tx_machine_off :: bool

record env =
  env_reader :: reader
  env_nearest :: "(xy \<Rightarrow> xy) option"
  env_machine :: machine
  env_boot_chip :: xy
  env_machine_cores :: core_subsets
  env_ethernet_chips :: "xy list"
  env_board_version :: int
  env_image :: bytes
  env_time :: int
  env_boot_led_0 :: int
  env_open_scamp :: "xy \<Rightarrow> ip_address \<Rightarrow> scp_connection"

subsection \<open>Statements\<close>

text \<open>
  A statement returns, raises or waits for ever on a socket; \<open>None\<close> is a loop that does not end.
\<close>

datatype 'a tres =
    TxDone 'a transceiver net
  | TxRaise exc transceiver net
  | TxBlock transceiver

type_synonym 'a tx = "transceiver \<Rightarrow> net \<Rightarrow> 'a tres option"

definition tx_return :: "'a \<Rightarrow> 'a tx" where
  "tx_return x t nt = Some (TxDone x t nt)"

definition tx_raise :: "exc \<Rightarrow> 'a tx" where
  "tx_raise e t nt = Some (TxRaise e t nt)"

definition tx_bind :: "'a tx \<Rightarrow> ('a \<Rightarrow> 'b tx) \<Rightarrow> 'b tx" where
  "tx_bind m f t nt =
     (case m t nt of
        None \<Rightarrow> None
      | Some (TxDone x t' nt') \<Rightarrow> f x t' nt'
      | Some (TxRaise e t' nt') \<Rightarrow> Some (TxRaise e t' nt')
      | Some (TxBlock t') \<Rightarrow> Some (TxBlock t'))"

text \<open>\<open>try: m; except: h\<close>; a handler that does not apply raises the exception again.\<close>

definition tx_catch :: "'a tx \<Rightarrow> (exc \<Rightarrow> 'a tx) \<Rightarrow> 'a tx" where
  "tx_catch m h t nt =
     (case m t nt of Some (TxRaise e t' nt') \<Rightarrow> h e t' nt' | r \<Rightarrow> r)"

definition tx_res :: "'a res \<Rightarrow> 'a tx" where
  "tx_res r = (case r of Inl e \<Rightarrow> tx_raise e | Inr x \<Rightarrow> tx_return x)"

definition tx_get :: "(transceiver \<Rightarrow> 'a) \<Rightarrow> 'a tx" where
  "tx_get f t nt = Some (TxDone (f t) t nt)"

definition tx_modify :: "(transceiver \<Rightarrow> transceiver) \<Rightarrow> unit tx" where
  "tx_modify f t nt = Some (TxDone () (f t) nt)"

fun tx_each :: "('a \<Rightarrow> unit tx) \<Rightarrow> 'a list \<Rightarrow> unit tx" where
  "tx_each f [] = tx_return ()"
| "tx_each f (x # xs) = tx_bind (f x) (\<lambda>_. tx_each f xs)"

subsection \<open>Running a process\<close>

text \<open>
  A process over the pool, on a selector: its user state, or its exception. The connections that it used
  are as it left them.
\<close>

type_synonym 'v body = "'v process \<Rightarrow> net \<Rightarrow> ('v process, net) presult option"

definition pool_after :: "'v process \<Rightarrow> transceiver \<Rightarrow> transceiver" where
  "pool_after pr t = t\<lparr>tx_pool := connections_after pr\<rparr>"

definition run_channels ::
  "selector \<Rightarrow> int \<Rightarrow> int \<Rightarrow> int \<Rightarrow> scp_result list option \<Rightarrow> 'v \<Rightarrow> 'v body \<Rightarrow> 'v tx" where
  "run_channels sel n_retries n_channels waits non_fail user body t nt =
     (case body (process_init (tx_pool t) sel n_retries n_channels waits non_fail user) nt of
        None \<Rightarrow> None
      | Some (Done pr nt') \<Rightarrow> Some (TxDone (cl_user (pr_client pr)) (pool_after pr t) nt')
      | Some (Fails e pr nt') \<Rightarrow> Some (TxRaise e (pool_after pr t) nt')
      | Some (Blocks pr) \<Rightarrow> Some (TxBlock (pool_after pr t)))"

definition run_process ::
  "selector \<Rightarrow> int \<Rightarrow> scp_result list option \<Rightarrow> 'v \<Rightarrow> 'v body \<Rightarrow> 'v tx" where
  "run_process sel n_retries = run_channels sel n_retries 8 7"

text \<open>The same for a process whose method returns a value of its own.\<close>

definition run_with_value ::
  "selector \<Rightarrow> 'v \<Rightarrow> ('v process \<Rightarrow> net \<Rightarrow> (('v process, net) presult \<times> 'a) option) \<Rightarrow> 'a tx" where
  "run_with_value sel user body t nt =
     (case body (process_init (tx_pool t) sel N_RETRIES 8 7 None user) nt of
        None \<Rightarrow> None
      | Some (Done pr nt', x) \<Rightarrow> Some (TxDone x (pool_after pr t) nt')
      | Some (Fails e pr nt', x) \<Rightarrow> Some (TxRaise e (pool_after pr t) nt')
      | Some (Blocks pr, x) \<Rightarrow> Some (TxBlock (pool_after pr t)))"

definition scamp_process :: "'v \<Rightarrow> 'v body \<Rightarrow> 'v tx" where
  "scamp_process user body = tx_bind (tx_get tx_selector) (\<lambda>sel. run_process sel N_RETRIES None user body)"

definition scamp_value ::
  "'v \<Rightarrow> ('v process \<Rightarrow> net \<Rightarrow> (('v process, net) presult \<times> 'a) option) \<Rightarrow> 'a tx" where
  "scamp_value user body = tx_bind (tx_get tx_selector) (\<lambda>sel. run_with_value sel user body)"

text \<open>\<open>SendSingleCommandProcess(selector, n_retries=...).execute(request)\<close>, 3 retries by default.\<close>

definition send_single :: "env \<Rightarrow> selector \<Rightarrow> int \<Rightarrow> scp_request \<Rightarrow> response tx" where
  "send_single en sel n_retries req =
     tx_bind (run_process sel n_retries None None (execute_single (env_reader en) req))
       (\<lambda>r. tx_res (require PyAssertionError r))"

definition tx_call :: "env \<Rightarrow> scp_request res \<Rightarrow> response tx" where
  "tx_call en req =
     tx_bind (tx_res req) (\<lambda>r. tx_bind (tx_get tx_selector) (\<lambda>sel. send_single en sel 3 r))"

definition bmp_call :: "env \<Rightarrow> int \<Rightarrow> scp_request res \<Rightarrow> response tx" where
  "bmp_call en n_retries req =
     tx_bind (tx_res req) (\<lambda>r. tx_bind (tx_get tx_bmp_connection) (\<lambda>bmp.
       case bmp of None \<Rightarrow> tx_raise SpinnmanError
       | Some (i, boards) \<Rightarrow> send_single en (FixedSelector i) n_retries r))"

text \<open>Calls whose answer is not used.\<close>

definition tx_command :: "env \<Rightarrow> scp_request res \<Rightarrow> unit tx" where
  "tx_command en req = tx_bind (tx_call en req) (\<lambda>_. tx_return ())"

subsection \<open>Memory\<close>

definition tx_read_memory :: "env \<Rightarrow> int \<Rightarrow> int \<Rightarrow> int \<Rightarrow> int \<Rightarrow> int \<Rightarrow> bytes tx" where
  "tx_read_memory en x y base_address n_bytes cpu =
     scamp_process [] (read_memory_of (env_reader en) (x, y, cpu) base_address n_bytes)"

definition tx_read_word :: "env \<Rightarrow> int \<Rightarrow> int \<Rightarrow> int \<Rightarrow> int \<Rightarrow> int tx" where
  "tx_read_word en x y base_address cpu =
     tx_bind (tx_read_memory en x y base_address 4 cpu) (\<lambda>data. tx_res (unpack_word data 0))"

text \<open>
  \<open>write_memory\<close> of bytes, of an integer (one word) and of a reader or file, with the number of
  bytes written and their checksum; \<open>offset\<close> counts in the data.
\<close>

datatype write_data = WriteBytes bytes | WriteInt int | WriteReader bytes

definition tx_write_memory ::
  "env \<Rightarrow> int \<Rightarrow> int \<Rightarrow> int \<Rightarrow> write_data \<Rightarrow> int option \<Rightarrow> nat \<Rightarrow> int \<Rightarrow> bool \<Rightarrow> (int \<times> int) tx" where
  "tx_write_memory en x y base_address data n_bytes offset cpu get_sum =
     (let rd = env_reader en
      in case data of
           WriteReader unread \<Rightarrow>
             (case n_bytes of
                None \<Rightarrow> tx_raise PyAssertionError
              | Some n \<Rightarrow>
                  tx_bind (scamp_value () (memory_from_reader rd (x, y, cpu) base_address unread n get_sum))
                    (\<lambda>chksum. tx_return (n, chksum)))
         | WriteInt value \<Rightarrow>
             tx_bind (tx_res (struct_pack Little ONE_WORD [value])) (\<lambda>word.
             tx_bind (scamp_value () (memory_from_bytearray rd (x, y, cpu) base_address word 0 4 get_sum))
               (\<lambda>chksum. tx_return (4, chksum)))
         | WriteBytes bs \<Rightarrow>
             (let n = (case n_bytes of None \<Rightarrow> int (length bs) | Some n \<Rightarrow> n)
              in tx_bind (scamp_value () (memory_from_bytearray rd (x, y, cpu) base_address bs offset n get_sum))
                   (\<lambda>chksum. tx_return (n, chksum))))"

text \<open>\<open>_get_sv_data\<close>: a value of a system variable, an integer or the bytes of an array.\<close>

definition get_sv_data :: "env \<Rightarrow> int \<Rightarrow> int \<Rightarrow> system_variable \<Rightarrow> sv_value tx" where
  "get_sv_data en x y item =
     (let addr = SYSTEM_VARIABLE_BASE_ADDRESS + sv_offset item
      in if is_byte_array (sv_data_type item) then
           (case sv_array_size item of
              None \<Rightarrow> tx_raise PyTypeError
            | Some n \<Rightarrow>
                tx_bind (tx_read_memory en x y addr n 0) (\<lambda>data. tx_return (SVBytes data)))
         else
           tx_bind (tx_read_memory en x y addr (data_type_value (sv_data_type item)) 0) (\<lambda>data.
             tx_res (bind_res (struct_unpack_from Little (struct_code (sv_data_type item)) data 0)
               (\<lambda>vs. Inr (SVInt (hd vs))))))"

definition get_sv_int :: "env \<Rightarrow> int \<Rightarrow> int \<Rightarrow> system_variable \<Rightarrow> int tx" where
  "get_sv_int en x y item =
     tx_bind (get_sv_data en x y item) (\<lambda>v. case v of SVInt i \<Rightarrow> tx_return i | SVBytes _ \<Rightarrow> tx_raise PyTypeError)"

text \<open>\<open>get_clock_drift\<close>: the drift is this number over \<open>2 ^ 17\<close>.\<close>

definition get_clock_drift_fp :: "env \<Rightarrow> int \<Rightarrow> int \<Rightarrow> int tx" where
  "get_clock_drift_fp en x y =
     tx_bind (get_sv_int en x y SV_clock_drift) (\<lambda>drift_b.
       if 0 \<le> drift_b \<and> drift_b < 2 ^ 32
       then tx_return (if drift_b < 2 ^ 31 then drift_b else drift_b - 2 ^ 32)
       else tx_raise StructError)"

definition get_user_register_address :: "int \<Rightarrow> int \<Rightarrow> int res" where
  "get_user_register_address p user =
     (if user < 0 \<or> user > CPU_MAX_USER then Inl PyValueError
      else Inr (get_vcpu_address p + CPU_USER_START_ADDRESS + CPU_USER_OFFSET * user))"

definition read_user :: "env \<Rightarrow> int \<Rightarrow> int \<Rightarrow> int \<Rightarrow> int \<Rightarrow> int tx" where
  "read_user en x y p user =
     tx_bind (tx_res (get_user_register_address p user)) (\<lambda>addr. tx_read_word en x y addr 0)"

definition write_user :: "env \<Rightarrow> int \<Rightarrow> int \<Rightarrow> int \<Rightarrow> int \<Rightarrow> int \<Rightarrow> unit tx" where
  "write_user en x y p user value =
     tx_bind (tx_res (get_user_register_address p user)) (\<lambda>addr.
     tx_bind (tx_write_memory en x y addr (WriteInt value) None 0 0 False) (\<lambda>_. tx_return ()))"

definition get_region_base_address :: "env \<Rightarrow> int \<Rightarrow> int \<Rightarrow> int \<Rightarrow> int tx" where
  "get_region_base_address en x y p = read_user en x y p (user_register_value UREG_USER_0)"

subsection \<open>Cores\<close>

text \<open>The cores asked for are all cores of the machine when none are given.\<close>

definition cores_or_all :: "env \<Rightarrow> core_subsets option \<Rightarrow> core_subsets" where
  "cores_or_all en subsets = (case subsets of None \<Rightarrow> env_machine_cores en | Some s \<Rightarrow> s)"

definition get_cpu_infos ::
  "env \<Rightarrow> core_subsets option \<Rightarrow> cpu_state list option \<Rightarrow> bool \<Rightarrow> cpu_infos tx" where
  "get_cpu_infos en subsets states include =
     (let desired = (case states of None \<Rightarrow> all_desired
                     | Some ss \<Rightarrow> if include then include_desired ss else exclude_desired ss)
      in scamp_process [] (get_cpu_info_process (env_reader en) desired (cores_or_all en subsets)))"

definition add_cpu_information_from_core ::
  "env \<Rightarrow> cpu_infos \<Rightarrow> int \<Rightarrow> int \<Rightarrow> int \<Rightarrow> cpu_state list \<Rightarrow> cpu_infos tx" where
  "add_cpu_information_from_core en infos x y p states =
     tx_bind (get_cpu_infos en (Some [(x, y, [p])]) None True) (\<lambda>new_infos.
       tx_return (add_infos new_infos states infos))"

text \<open>The size of an IOBUF is asked once, of any chip.\<close>

definition get_iobuf_size :: "env \<Rightarrow> int tx" where
  "get_iobuf_size en =
     tx_bind (tx_get tx_iobuf_size) (\<lambda>known. case known of
       Some n \<Rightarrow> tx_return n
     | None \<Rightarrow>
         tx_bind (get_sv_int en DEFAULT_DEST_X_COORD DEFAULT_DEST_Y_COORD SV_iobuf_size) (\<lambda>n.
         tx_bind (tx_modify (\<lambda>t. t\<lparr>tx_iobuf_size := Some n\<rparr>)) (\<lambda>_. tx_return n)))"

definition get_iobuf :: "env \<Rightarrow> core_subsets option \<Rightarrow> (xyp \<times> ustr) list tx" where
  "get_iobuf en subsets =
     tx_bind (get_iobuf_size en) (\<lambda>n.
       scamp_value iobuf_state_init (read_iobuf (env_reader en) n (cores_or_all en subsets)))"

text \<open>A reply that the route to a chip is not there is not a failure of the count.\<close>

definition get_core_state_count :: "env \<Rightarrow> int \<Rightarrow> cpu_state \<Rightarrow> xy list option \<Rightarrow> int tx" where
  "get_core_state_count en app_id state xys =
     tx_bind (tx_get tx_selector) (\<lambda>sel.
       run_process sel N_RETRIES (Some [RC_P2P_NOREPLY]) 0
         (get_n_cores_in_state (env_reader en)
            (case xys of None \<Rightarrow> env_ethernet_chips en | Some s \<Rightarrow> s) app_id state))"

end
