(* ===== verification/TransceiverBoot.thy ===== *)
theory TransceiverBoot
  imports Transceiver
begin

text \<open>
  Finding, powering and booting a machine (\<open>transceiver/base_transceiver.py\<close>): sorting the connections
  given, checking the BMP, the loop that asks for SCAMP and boots until it answers, discovering the
  connections of further boards, and reading the machine.
\<close>

subsection \<open>Selectors and versions\<close>

text \<open>
  \<open>MostDirectConnectionSelector\<close> of the SCAMP connections: it numbers those connections, which here
  are numbers of the pool.
\<close>

fun selector_over :: "nat list \<Rightarrow> selector \<Rightarrow> selector" where
  "selector_over idxs (MostDirectSelector m lead nearest) =
     MostDirectSelector (map (\<lambda>(k, i). (k, idxs ! i)) m) (idxs ! lead) nearest"
| "selector_over idxs (FixedSelector i) = FixedSelector (idxs ! i)"
| "selector_over idxs (RoundRobinSelector n i) = RoundRobinSelector n i"

definition scamp_selector :: "env \<Rightarrow> transceiver \<Rightarrow> selector res" where
  "scamp_selector en t =
     bind_res (most_direct_init (env_nearest en) (map (\<lambda>i. tx_pool t ! i) (tx_scamp_connections t)))
       (\<lambda>sel. Inr (selector_over (tx_scamp_connections t) sel))"

definition update_selector :: "env \<Rightarrow> unit tx" where
  "update_selector en =
     tx_bind (tx_get (scamp_selector en)) (\<lambda>r. tx_bind (tx_res r) (\<lambda>sel.
       tx_modify (\<lambda>t. t\<lparr>tx_selector := sel\<rparr>)))"

definition SCAMP_NAME :: ustr where "SCAMP_NAME = [83, 67, 38, 77, 80]"
definition BMP_NAME :: ustr where "BMP_NAME = [66, 67, 38, 77, 80]"
definition SCAMP_VERSION :: "int \<times> int \<times> int" where "SCAMP_VERSION = (4, 0, 0)"
definition BMP_MAJOR_VERSIONS :: "int list" where "BMP_MAJOR_VERSIONS = [1, 2]"
definition CONNECTION_CHECK_RETRIES :: nat where "CONNECTION_CHECK_RETRIES = 3"
definition INITIAL_FIND_SCAMP_RETRIES_COUNT :: int where "INITIAL_FIND_SCAMP_RETRIES_COUNT = 3"

definition is_scamp_version_compatible :: "int \<times> int \<times> int \<Rightarrow> bool" where
  "is_scamp_version_compatible version =
     (let (v0, v1, v2) = version; (s0, s1, s2) = SCAMP_VERSION
      in if v0 \<noteq> s0 then False
         else if v1 = s1 then v2 \<ge> s2
         else v1 > s1)"

definition is_default_destination :: "version_info \<Rightarrow> bool" where
  "is_default_destination v \<longleftrightarrow> vi_x v = DEFAULT_DEST_X_COORD \<and> vi_y v = DEFAULT_DEST_Y_COORD"

definition version_on :: "env \<Rightarrow> int \<Rightarrow> int \<Rightarrow> selector \<Rightarrow> int \<Rightarrow> version_info tx" where
  "version_on en x y sel n_retries =
     tx_bind (run_process sel n_retries None None (get_version_process (env_reader en) x y 0))
       (\<lambda>v. tx_res (require PyAssertionError v))"

definition get_scamp_version :: "env \<Rightarrow> int \<Rightarrow> version_info tx" where
  "get_scamp_version en n_retries =
     tx_bind (tx_get tx_selector) (\<lambda>sel.
       version_on en DEFAULT_DEST_X_COORD DEFAULT_DEST_Y_COORD sel n_retries)"

subsection \<open>Connections\<close>

datatype connection_kind = BootConnection | BMPConnection boards | SCAMPConnection | OtherConnection

record identified =
  id_boot :: "nat option"
  id_bmp :: "(nat \<times> boards) option"
  id_scamp :: "nat list"

fun identify_connections :: "connection_kind list \<Rightarrow> nat \<Rightarrow> identified \<Rightarrow> identified res" where
  "identify_connections [] i d = Inr d"
| "identify_connections (BootConnection # ks) i d =
     (if id_boot d \<noteq> None then Inl (InvalidParameter ''connections'')
      else identify_connections ks (Suc i) (d\<lparr>id_boot := Some i\<rparr>))"
| "identify_connections (BMPConnection boards # ks) i d =
     (if id_bmp d \<noteq> None then Inl PyNotImplementedError
      else identify_connections ks (Suc i) (d\<lparr>id_bmp := Some (i, boards)\<rparr>))"
| "identify_connections (SCAMPConnection # ks) i d =
     identify_connections ks (Suc i) (d\<lparr>id_scamp := id_scamp d @ [i]\<rparr>)"
| "identify_connections (OtherConnection # ks) i d = identify_connections ks (Suc i) d"

text \<open>\<open>__check_bmp_connection\<close>; what is raised for a version that is not supported is not a timeout.\<close>

definition check_bmp_connection :: "env \<Rightarrow> unit tx" where
  "check_bmp_connection en =
     tx_bind (tx_get tx_bmp_connection) (\<lambda>bmp. case bmp of
       None \<Rightarrow> tx_return ()
     | Some (i, boards) \<Rightarrow>
         tx_bind (tx_get (\<lambda>t. tx_pool t ! i)) (\<lambda>conn.
         tx_catch
           (tx_bind (version_on en (conn_chip_x conn) (conn_chip_y conn) (FixedSelector i) N_RETRIES) (\<lambda>v.
              if vi_name v \<noteq> BMP_NAME \<or> fst (vi_version_number v) \<notin> set BMP_MAJOR_VERSIONS
              then tx_raise SpinnmanIO else tx_return ()))
           (\<lambda>e. if is_timeout e then tx_raise SpinnmanError else tx_raise e)))"

text \<open>
  \<open>_check_connection\<close>: \<open>None\<close> from the \<open>try\<close> block means another turn of the loop.
\<close>

definition check_connection_step :: "env \<Rightarrow> nat \<Rightarrow> chip_summary_info option option tx" where
  "check_connection_step en i =
     tx_bind (tx_get (\<lambda>t. tx_pool t ! i)) (\<lambda>conn.
     tx_catch
       (tx_bind (send_single en (FixedSelector i) 3 (get_chip_info (conn_chip_x conn) (conn_chip_y conn) False))
          (\<lambda>r. case r of
             RspChipInfo info \<Rightarrow>
               tx_return (if csi_is_ethernet_available info then Some (Some info) else None)
           | _ \<Rightarrow> tx_raise PyAttributeError))
       (\<lambda>e. case e of
          GenericProcess e' \<Rightarrow> tx_return None
        | UnexpectedResponseCode opn cmd rc \<Rightarrow> tx_return None
        | _ \<Rightarrow> if is_timeout e then tx_return None
               else if is_io e then tx_return (Some None)
               else tx_raise e))"

fun check_connection :: "env \<Rightarrow> nat \<Rightarrow> nat \<Rightarrow> chip_summary_info option tx" where
  "check_connection en i 0 = tx_return None"
| "check_connection en i (Suc n) =
     tx_bind (check_connection_step en i) (\<lambda>r. case r of
       Some info \<Rightarrow> tx_return info
     | None \<Rightarrow> check_connection en i n)"

text \<open>A new socket is put into the pool; it becomes a connection of the machine only if it answers.\<close>

definition open_scamp :: "env \<Rightarrow> xy \<Rightarrow> ip_address \<Rightarrow> nat tx" where
  "open_scamp en xy ip =
     tx_bind (tx_get (\<lambda>t. length (tx_pool t))) (\<lambda>i.
     tx_bind (tx_modify (\<lambda>t. t\<lparr>tx_pool := tx_pool t @ [env_open_scamp en xy ip]\<rparr>)) (\<lambda>_.
       tx_return i))"

definition add_udp_connection :: "ip_address \<Rightarrow> nat \<Rightarrow> unit tx" where
  "add_udp_connection ip i =
     tx_modify (\<lambda>t. t\<lparr>tx_udp_scamp_connections := AList.update ip i (tx_udp_scamp_connections t)\<rparr>)"

definition check_and_add_scamp_connection :: "env \<Rightarrow> xy \<Rightarrow> ip_address \<Rightarrow> unit tx" where
  "check_and_add_scamp_connection en xy ip =
     tx_bind (open_scamp en xy ip) (\<lambda>i.
     tx_bind (check_connection en i CONNECTION_CHECK_RETRIES) (\<lambda>info.
       case Option.bind info csi_ethernet_ip_address of
         None \<Rightarrow> tx_return ()
       | Some own_ip \<Rightarrow>
           tx_bind (add_udp_connection own_ip i) (\<lambda>_.
             tx_modify (\<lambda>t. t\<lparr>tx_scamp_connections := tx_scamp_connections t @ [i]\<rparr>))))"

definition add_scamp_connections :: "env \<Rightarrow> (xy \<times> ip_address) list \<Rightarrow> unit tx" where
  "add_scamp_connections en connections =
     tx_bind (tx_each (\<lambda>(xy, ip). check_and_add_scamp_connection en xy ip) connections)
       (\<lambda>_. update_selector en)"

subsection \<open>Dimensions, discovery and details\<close>

text \<open>The two bytes at \<open>y_size\<close> are the height and the width; they are asked once.\<close>

definition get_machine_dimensions :: "env \<Rightarrow> (int \<times> int) tx" where
  "get_machine_dimensions en =
     tx_bind (tx_get (\<lambda>t. (tx_width t, tx_height t))) (\<lambda>known. case known of
       (Some w, Some h) \<Rightarrow> tx_return (w, h)
     | _ \<Rightarrow>
         tx_bind (tx_read_memory en DEFAULT_DEST_X_COORD DEFAULT_DEST_Y_COORD
                    (SYSTEM_VARIABLE_BASE_ADDRESS + sv_offset SV_y_size) 2 0) (\<lambda>data.
         tx_bind (tx_res (struct_unpack_from Little TWO_BYTES data 0)) (\<lambda>vs. case vs of
           [h, w] \<Rightarrow>
             tx_bind (tx_modify (\<lambda>t. t\<lparr>tx_height := Some h, tx_width := Some w\<rparr>))
               (\<lambda>_. tx_return (w, h))
         | _ \<Rightarrow> tx_raise PyValueError)))"

definition discover_chip :: "env \<Rightarrow> xy \<Rightarrow> unit tx" where
  "discover_chip en xy =
     tx_bind
       (tx_catch
          (tx_bind (tx_read_memory en (fst xy) (snd xy)
                      (SYSTEM_VARIABLE_BASE_ADDRESS + sv_offset SV_ethernet_ip_address) 4 0)
             (\<lambda>data. tx_return (Some data)))
          (\<lambda>e. case e of GenericProcess e' \<Rightarrow> tx_return None | _ \<Rightarrow> tx_raise e))
       (\<lambda>r. case r of
          None \<Rightarrow> tx_return ()
        | Some data \<Rightarrow>
            tx_bind (tx_res (struct_unpack_from Little FOUR_BYTES data 0)) (\<lambda>vs. case vs of
              [a, b, c, d] \<Rightarrow> check_and_add_scamp_connection en xy (a, b, c, d)
            | _ \<Rightarrow> tx_raise PyValueError))"

text \<open>\<open>ethernets\<close> is \<open>get_potential_ethernet_chips\<close> of the machine version.\<close>

definition discover_scamp_connections :: "env \<Rightarrow> (int \<Rightarrow> int \<Rightarrow> xy list) \<Rightarrow> unit tx" where
  "discover_scamp_connections en ethernets =
     tx_bind (get_machine_dimensions en) (\<lambda>(w, h).
     tx_bind (tx_each (discover_chip en) (ethernets w h)) (\<lambda>_. update_selector en))"

definition tx_get_machine_details :: "env \<Rightarrow> machine_version \<Rightarrow> made_chip list tx" where
  "tx_get_machine_details en v =
     tx_bind (get_machine_dimensions en) (\<lambda>(w, h).
     tx_bind (get_scamp_version en N_RETRIES) (\<lambda>info.
       scamp_value machine_state_init
         (get_machine_details (env_reader en) v (vi_x info) (vi_y info) w h)))"

subsection \<open>Power\<close>

definition tx_power :: "env \<Rightarrow> power_command \<Rightarrow> unit tx" where
  "tx_power en command =
     tx_bind (tx_get tx_bmp_connection) (\<lambda>bmp. case bmp of
       None \<Rightarrow> tx_raise PyNotImplementedError
     | Some (i, boards) \<Rightarrow>
         tx_bind (bmp_call en 0 (set_power command boards 0 0)) (\<lambda>_.
           tx_modify (\<lambda>t. t\<lparr>tx_machine_off := (command = POWER_OFF)\<rparr>)))"

definition power_on_machine :: "env \<Rightarrow> unit tx" where
  "power_on_machine en = tx_power en POWER_ON"

definition power_off_machine :: "env \<Rightarrow> unit tx" where
  "power_off_machine en = tx_power en POWER_OFF"

definition tx_read_fpga_register :: "env \<Rightarrow> int \<Rightarrow> int \<Rightarrow> int \<Rightarrow> int tx" where
  "tx_read_fpga_register en fpga_num register board =
     tx_bind (bmp_call en 3 (read_fpga_register fpga_num register board)) (\<lambda>r.
       case r of RspFPGARegister v \<Rightarrow> tx_return v | _ \<Rightarrow> tx_raise PyAttributeError)"

definition tx_write_fpga_register :: "env \<Rightarrow> int \<Rightarrow> int \<Rightarrow> int \<Rightarrow> int \<Rightarrow> unit tx" where
  "tx_write_fpga_register en fpga_num register value board =
     tx_bind (bmp_call en 3 (write_fpga_register fpga_num register value board)) (\<lambda>_. tx_return ())"

definition read_bmp_version :: "env \<Rightarrow> int \<Rightarrow> version_info tx" where
  "read_bmp_version en board =
     tx_bind (bmp_call en 3 (bmp_get_version board)) (\<lambda>r.
       case r of RspVersion v \<Rightarrow> tx_return v | _ \<Rightarrow> tx_raise PyAttributeError)"

subsection \<open>Booting\<close>

text \<open>
  \<open>_boot_board\<close>. The messages are built before the first is sent: no message of a boot is refused by its
  constructor.
\<close>

definition send_boot :: "nat \<Rightarrow> boot_message list \<Rightarrow> unit tx" where
  "send_boot i ms t nt =
     (case send_boot_messages (tx_pool t ! i) ms of
        (c, None) \<Rightarrow> Some (TxDone () (t\<lparr>tx_pool := (tx_pool t)[i := c]\<rparr>) nt)
      | (c, Some e) \<Rightarrow> Some (TxRaise e (t\<lparr>tx_pool := (tx_pool t)[i := c]\<rparr>) nt))"

definition boot_board :: "env \<Rightarrow> (system_variable \<times> sv_value) list \<Rightarrow> unit tx" where
  "boot_board en extra =
     tx_bind (tx_get tx_boot_send_connection) (\<lambda>boot. case boot of
       None \<Rightarrow> tx_raise SpinnmanIO
     | Some i \<Rightarrow>
         let values = (if SV_led_0 \<in> fst ` set extra then extra
                       else extra @ [(SV_led_0, SVInt (env_boot_led_0 en))])
         in tx_bind (tx_res (bind_res
                (boot_messages_init (env_image en) (env_board_version en) (env_time en) values) messages))
              (send_boot i))"

text \<open>
  What the loop does with an exception of the version request: boot (\<open>None\<close>) or raise. A process
  wraps the exception of its request.
\<close>

definition version_failure :: "exc \<Rightarrow> exc option" where
  "version_failure e =
     (case e of
        GenericProcess e' \<Rightarrow>
          if is_timeout e' then None else if is_io e' then Some SpinnmanIO else Some e
      | _ \<Rightarrow> if is_timeout e then None else if is_io e then Some SpinnmanIO else Some e)"

text \<open>
  The loop of \<open>_try_to_find_scamp_and_boot\<close>: only a boot uses up a try. A machine that goes on
  answering without coordinates is asked for ever.
\<close>

partial_function (option) find_scamp_loop ::
  "env \<Rightarrow> (system_variable \<times> sv_value) list \<Rightarrow> int \<Rightarrow> transceiver \<Rightarrow> net \<Rightarrow> version_info option tres option" where
  "find_scamp_loop en extra tries t nt =
     (if tries \<le> 0 then Some (TxDone None t nt)
      else case get_scamp_version en BOOT_RETRIES t nt of
             None \<Rightarrow> None
           | Some (TxBlock t1) \<Rightarrow> Some (TxBlock t1)
           | Some (TxDone v t1 nt1) \<Rightarrow>
               if is_default_destination v then find_scamp_loop en extra tries t1 nt1
               else Some (TxDone (Some v) t1 nt1)
           | Some (TxRaise e t1 nt1) \<Rightarrow>
               (case version_failure e of
                  Some e' \<Rightarrow> Some (TxRaise e' t1 nt1)
                | None \<Rightarrow>
                    (case boot_board en extra t1 nt1 of
                       None \<Rightarrow> None
                     | Some (TxBlock t2) \<Rightarrow> Some (TxBlock t2)
                     | Some (TxRaise e' t2 nt2) \<Rightarrow> Some (TxRaise e' t2 nt2)
                     | Some (TxDone u t2 nt2) \<Rightarrow> find_scamp_loop en extra (tries - 1) t2 nt2)))"

declare find_scamp_loop.simps [code]

definition try_to_find_scamp_and_boot ::
  "env \<Rightarrow> int \<Rightarrow> (system_variable \<times> sv_value) list \<Rightarrow> version_info option tx" where
  "try_to_find_scamp_and_boot en tries extra =
     tx_bind (find_scamp_loop en extra tries) (\<lambda>found. case found of
       Some v \<Rightarrow> tx_return (Some v)
     | None \<Rightarrow>
         tx_catch
           (tx_bind (get_scamp_version en N_RETRIES) (\<lambda>v.
              tx_return (if is_default_destination v then None else Some v)))
           (\<lambda>e. if is_spinnman e then tx_return None else tx_raise e))"

definition set_time_out :: "env \<Rightarrow> nat \<Rightarrow> unit tx" where
  "set_time_out en i =
     tx_bind (tx_get (\<lambda>t. tx_pool t ! i)) (\<lambda>conn.
     tx_bind (tx_command en (Inr (iptag_set_tto (conn_chip_x conn) (conn_chip_y conn) TIMEOUT_2560_ms))) (\<lambda>_.
     tx_bind (check_connection en i CONNECTION_CHECK_RETRIES) (\<lambda>info.
       case Option.bind info csi_ethernet_ip_address of
         None \<Rightarrow> tx_return ()
       | Some ip \<Rightarrow> add_udp_connection ip i)))"

definition ensure_board_is_ready ::
  "env \<Rightarrow> int \<Rightarrow> (system_variable \<times> sv_value) list \<Rightarrow> unit tx" where
  "ensure_board_is_ready en n_retries extra =
     tx_bind (tx_get tx_machine_off) (\<lambda>off.
     tx_bind (if off then tx_return None
              else try_to_find_scamp_and_boot en INITIAL_FIND_SCAMP_RETRIES_COUNT extra) (\<lambda>v1.
     tx_bind (tx_get tx_bmp_connection) (\<lambda>bmp.
     tx_bind (if v1 = None \<and> bmp \<noteq> None
              then tx_bind (power_on_machine en) (\<lambda>_. try_to_find_scamp_and_boot en n_retries extra)
              else tx_return v1) (\<lambda>v2.
       case v2 of
         None \<Rightarrow> tx_raise SpinnmanIO
       | Some info \<Rightarrow>
           if vi_name info \<noteq> SCAMP_NAME \<or> \<not> is_scamp_version_compatible (vi_version_number info)
           then tx_raise SpinnmanIO
           else tx_bind (tx_get tx_scamp_connections) (\<lambda>conns.
                tx_bind (tx_each (set_time_out en) conns) (\<lambda>_. update_selector en))))))"

subsection \<open>Creation and closing\<close>

text \<open>The pool holds the given connections in order.\<close>

definition transceiver_start ::
  "env \<Rightarrow> (connection_kind \<times> scp_connection) list \<Rightarrow> transceiver res" where
  "transceiver_start en connections =
     bind_res (identify_connections (map fst connections) 0 \<lparr>id_boot = None, id_bmp = None, id_scamp = []\<rparr>) (\<lambda>d.
       let t0 = \<lparr>tx_pool = map snd connections, tx_scamp_connections = id_scamp d,
                 tx_udp_scamp_connections = [], tx_bmp_connection = id_bmp d,
                 tx_boot_send_connection = id_boot d, tx_selector = FixedSelector 0, tx_width = None,
                 tx_height = None, tx_iobuf_size = None, tx_machine_off = False\<rparr>
       in bind_res (scamp_selector en t0) (\<lambda>sel. Inr (t0\<lparr>tx_selector := sel\<rparr>)))"

definition transceiver_init ::
  "env \<Rightarrow> (connection_kind \<times> scp_connection) list \<Rightarrow> bool \<Rightarrow> net \<Rightarrow> unit tres option res" where
  "transceiver_init en connections power_cycle nt =
     bind_res (transceiver_start en connections) (\<lambda>t.
       Inr (tx_bind (check_bmp_connection en) (\<lambda>_.
            tx_bind (if power_cycle then power_off_machine en else tx_return ()) (\<lambda>_.
              ensure_board_is_ready en 5 [])) t nt))"

text \<open>\<open>close\<close>, up to the closing of the sockets.\<close>

definition tx_close :: "env \<Rightarrow> bool \<Rightarrow> unit tx" where
  "tx_close en turn_off_machine =
     tx_bind (tx_get tx_bmp_connection) (\<lambda>bmp.
       if bmp \<noteq> None \<and> turn_off_machine then power_off_machine en else tx_return ())"

end
