(* ===== verification/TransceiverOps.thy ===== *)
theory TransceiverOps
  imports TransceiverBoot
begin

text \<open>
  Applications, tags, routes and synchronisation through the transceiver
  (\<open>transceiver/base_transceiver.py\<close>). Logging where a failure was and re-raising it leaves the exception
  as it is.
\<close>

subsection \<open>Applications\<close>

definition EXECUTABLE_ADDRESS :: int where "EXECUTABLE_ADDRESS = 0x67800000"

definition processors_of :: "core_subsets \<Rightarrow> xy \<Rightarrow> int list" where
  "processors_of subsets xy = concat (map (\<lambda>(x, y, ps). if (x, y) = xy then ps else []) subsets)"

text \<open>
  \<open>execute_flood\<close>: the binary is written to chip (0, 0), run on the cores of that chip, and copied from
  chip to chip.
\<close>

definition execute_flood ::
  "env \<Rightarrow> core_subsets \<Rightarrow> write_data \<Rightarrow> int \<Rightarrow> int option \<Rightarrow> bool \<Rightarrow> unit tx" where
  "execute_flood en subsets executable app_id n_bytes wait =
     (case executable of
        WriteInt v \<Rightarrow> tx_raise PyTypeError
      | _ \<Rightarrow>
          tx_bind (tx_write_memory en 0 0 EXECUTABLE_ADDRESS executable n_bytes 0 0 True) (\<lambda>(n, chksum).
          tx_bind (if \<exists>s \<in> set subsets. (fst s, fst (snd s)) = (0, 0)
                   then scamp_process () (application_run_process (env_reader en)
                          [(0, 0, processors_of subsets (0, 0))] app_id wait)
                   else tx_return ()) (\<lambda>_.
          tx_bind (scamp_value () (application_copy_run (env_reader en) (env_machine en) (env_boot_chip en)
                     (processors_of subsets) n app_id chksum wait)) (\<lambda>_. tx_return ()))))"

definition stop_application :: "env \<Rightarrow> int \<Rightarrow> unit tx" where
  "stop_application en app_id =
     tx_bind (tx_get tx_machine_off) (\<lambda>off.
       if \<not> off then tx_command en (Inr (app_stop app_id)) else tx_return ())"

definition tx_send_signal :: "env \<Rightarrow> int \<Rightarrow> signal \<Rightarrow> unit tx" where
  "tx_send_signal en app_id sig = tx_command en (send_signal app_id sig)"

definition control_sync :: "env \<Rightarrow> bool \<Rightarrow> unit tx" where
  "control_sync en b = tx_command en (Inr (do_sync b))"

subsection \<open>Waiting for cores\<close>

text \<open>The cores of an application in any of some states, counted state by state.\<close>

fun count_states :: "env \<Rightarrow> int \<Rightarrow> cpu_state list \<Rightarrow> int tx" where
  "count_states en app_id [] = tx_return 0"
| "count_states en app_id (s # ss) =
     tx_bind (get_core_state_count en app_id s None) (\<lambda>n.
     tx_bind (count_states en app_id ss) (\<lambda>rest. tx_return (n + rest)))"

fun any_core_in :: "env \<Rightarrow> int \<Rightarrow> cpu_state list \<Rightarrow> bool tx" where
  "any_core_in en app_id [] = tx_return False"
| "any_core_in en app_id (s # ss) =
     tx_bind (get_core_state_count en app_id s None) (\<lambda>n.
     tx_bind (any_core_in en app_id ss) (\<lambda>more. tx_return (n > 0 \<or> more)))"

definition n_processors :: "core_subsets \<Rightarrow> int" where
  "n_processors subsets = int (length (cores_of subsets))"

text \<open>
  One turn of \<open>wait_for_cores_to_be_in_state\<close>: the number of cores ready and the number of turns since
  the last full check. Counting sees all cores of the application; only a full check looks at the
  cores asked for.
\<close>

record wait_args =
  wa_subsets :: core_subsets
  wa_app_id :: int
  wa_states :: "cpu_state list"
  wa_error_states :: "cpu_state list"
  wa_counts_between_full_check :: int

definition check_for_error_cores :: "env \<Rightarrow> wait_args \<Rightarrow> unit tx" where
  "check_for_error_cores en a =
     tx_bind (any_core_in en (wa_app_id a) (wa_error_states a)) (\<lambda>is_error.
       if \<not> is_error then tx_return ()
       else tx_bind (get_cpu_infos en (Some (wa_subsets a)) (Some (wa_error_states a)) True) (\<lambda>bad.
              if bad \<noteq> [] then tx_raise CoresNotInState else tx_return ()))"

definition wait_turn :: "env \<Rightarrow> wait_args \<Rightarrow> int \<Rightarrow> (int \<times> int) tx" where
  "wait_turn en a tries =
     tx_bind (count_states en (wa_app_id a) (wa_states a)) (\<lambda>ready.
       if ready \<ge> n_processors (wa_subsets a) then tx_return (ready, tries)
       else tx_bind (check_for_error_cores en a) (\<lambda>_.
              if tries + 1 \<ge> wa_counts_between_full_check a
              then tx_bind (get_cpu_infos en (Some (wa_subsets a)) (Some (wa_states a)) True) (\<lambda>infos.
                     tx_return (int (length infos), 0))
              else tx_return (ready, tries + 1)))"

text \<open>
  The loop: \<open>clock\<close> is what the readings of the clock give, the first one for the time when the wait
  began; without a time-out it may go on for ever.
\<close>

partial_function (option) wait_loop ::
  "env \<Rightarrow> wait_args \<Rightarrow> int option \<Rightarrow> (nat \<Rightarrow> int) \<Rightarrow> nat \<Rightarrow> int \<Rightarrow> int \<Rightarrow> transceiver \<Rightarrow> net \<Rightarrow>
     int tres option" where
  "wait_loop en a timeout clock k ready tries t nt =
     (if ready < n_processors (wa_subsets a) \<and>
         (case timeout of None \<Rightarrow> True | Some limit \<Rightarrow> clock k < clock 0 + limit)
      then case wait_turn en a tries t nt of
             None \<Rightarrow> None
           | Some (TxBlock t1) \<Rightarrow> Some (TxBlock t1)
           | Some (TxRaise e t1 nt1) \<Rightarrow> Some (TxRaise e t1 nt1)
           | Some (TxDone r t1 nt1) \<Rightarrow>
               wait_loop en a timeout clock (Suc k) (fst r) (snd r) t1 nt1
      else Some (TxDone ready t nt))"

declare wait_loop.simps [code]

definition wait_for_cores_to_be_in_state ::
  "env \<Rightarrow> wait_args \<Rightarrow> int option \<Rightarrow> (nat \<Rightarrow> int) \<Rightarrow> unit tx" where
  "wait_for_cores_to_be_in_state en a timeout clock =
     tx_bind (wait_loop en a timeout clock 1 0 0) (\<lambda>ready.
       if ready \<ge> n_processors (wa_subsets a) then tx_return ()
       else tx_bind (get_cpu_infos en (Some (wa_subsets a)) (Some (wa_states a)) False) (\<lambda>others.
              if others \<noteq> [] then tx_raise CoresNotInState else tx_return ()))"

subsection \<open>Tags\<close>

definition connection_list :: "ip_address option \<Rightarrow> transceiver \<Rightarrow> nat list" where
  "connection_list board_address t =
     (case board_address of
        None \<Rightarrow> tx_scamp_connections t
      | Some a \<Rightarrow>
          (case map_of (tx_udp_scamp_connections t) a of None \<Rightarrow> [] | Some i \<Rightarrow> [i]))"

text \<open>A command to the chip of every connection in turn.\<close>

definition command_each :: "env \<Rightarrow> (nat \<Rightarrow> scp_connection \<Rightarrow> scp_request res) \<Rightarrow> nat list \<Rightarrow> unit tx" where
  "command_each en req conns =
     tx_each (\<lambda>i. tx_bind (tx_get (\<lambda>t. tx_pool t ! i)) (\<lambda>c. tx_command en (req i c))) conns"

record ip_tag =
  it_board_address :: "ip_address option"
  it_tag :: int
  it_ip_address :: string
  it_port :: "int option"
  it_strip_sdp :: bool

text \<open>
  \<open>local_ip\<close> is the local address of a connection and \<open>resolve\<close> is \<open>inet_aton (gethostbyname host)\<close>.
\<close>

definition set_ip_tag ::
  "env \<Rightarrow> (nat \<Rightarrow> string) \<Rightarrow> (string \<Rightarrow> bytes res) \<Rightarrow> ip_tag \<Rightarrow> bool \<Rightarrow> unit tx" where
  "set_ip_tag en local_ip resolve tag use_sender =
     (case it_port tag of
        None \<Rightarrow> tx_raise (InvalidParameter ''ip_tag.port'')
      | Some port \<Rightarrow>
          tx_bind (tx_get (connection_list (it_board_address tag))) (\<lambda>conns.
            if conns = [] then tx_raise (InvalidParameter ''ip_tag'')
            else command_each en (\<lambda>i c.
                   let host = (if it_ip_address tag \<in> {''localhost'', ''.'', ''0.0.0.0''}
                               then local_ip i else it_ip_address tag)
                   in bind_res (resolve host) (\<lambda>ip.
                        iptag_set (conn_chip_x c) (conn_chip_y c) ip port (it_tag tag) (it_strip_sdp tag)
                          use_sender)) conns))"

record reverse_ip_tag =
  rt_board_address :: "ip_address option"
  rt_tag :: int
  rt_port :: "int option"
  rt_destination_x :: int
  rt_destination_y :: int
  rt_destination_p :: int
  rt_sdp_port :: int

definition set_reverse_ip_tag :: "env \<Rightarrow> reverse_ip_tag \<Rightarrow> unit tx" where
  "set_reverse_ip_tag en tag =
     (case rt_port tag of
        None \<Rightarrow> tx_raise (InvalidParameter ''reverse_ip_tag.port'')
      | Some port \<Rightarrow>
          if port = SCP_SCAMP_PORT \<or> port = UDP_BOOT_CONNECTION_DEFAULT_PORT
          then tx_raise (InvalidParameter ''reverse_ip_tag.port'')
          else tx_bind (tx_get (connection_list (rt_board_address tag))) (\<lambda>conns.
                 if conns = [] then tx_raise (InvalidParameter ''reverse_ip_tag'')
                 else command_each en (\<lambda>i c.
                        Inr (reverse_iptag_set (conn_chip_x c) (conn_chip_y c) (rt_destination_x tag)
                          (rt_destination_y tag) (rt_destination_p tag) port (rt_tag tag) (rt_sdp_port tag)))
                      conns))"

definition clear_ip_tag :: "env \<Rightarrow> int \<Rightarrow> ip_address option \<Rightarrow> unit tx" where
  "clear_ip_tag en tag board_address =
     tx_bind (tx_get (connection_list board_address))
       (command_each en (\<lambda>i c. Inr (iptag_clear (conn_chip_x c) (conn_chip_y c) tag)))"

text \<open>The tags of one connection or of all, each asked over the selector.\<close>

fun tags_of_connections :: "env \<Rightarrow> (nat \<Rightarrow> bytes) \<Rightarrow> nat list \<Rightarrow> tag list tx" where
  "tags_of_connections en remote_ip [] = tx_return []"
| "tags_of_connections en remote_ip (i # is) =
     tx_bind (tx_get (\<lambda>t. tx_pool t ! i)) (\<lambda>c.
     tx_bind (scamp_process tags_state_init
                (get_tags (env_reader en) (conn_chip_x c) (conn_chip_y c) (remote_ip i))) (\<lambda>found.
     tx_bind (tags_of_connections en remote_ip is) (\<lambda>rest. tx_return (tags_found found @ rest))))"

definition tx_get_tags :: "env \<Rightarrow> (nat \<Rightarrow> bytes) \<Rightarrow> nat option \<Rightarrow> tag list tx" where
  "tx_get_tags en remote_ip connection =
     tx_bind (tx_get (\<lambda>t. case connection of Some i \<Rightarrow> [i] | None \<Rightarrow> tx_scamp_connections t))
       (tags_of_connections en remote_ip)"

subsection \<open>Memory allocation and routers\<close>

definition tx_malloc_sdram :: "env \<Rightarrow> int \<Rightarrow> int \<Rightarrow> int \<Rightarrow> int \<Rightarrow> int \<Rightarrow> int tx" where
  "tx_malloc_sdram en x y n_bytes app_id tag =
     scamp_process 0 (malloc_sdram (env_reader en) x y n_bytes app_id (Some tag))"

definition load_multicast_routes ::
  "env \<Rightarrow> ('r \<Rightarrow> int \<times> int \<times> int) \<Rightarrow> int \<Rightarrow> int \<Rightarrow> 'r list \<Rightarrow> int \<Rightarrow> unit tx" where
  "load_multicast_routes en to_route x y routes app_id =
     tx_bind (scamp_process 0 (load_routes to_route (env_reader en) x y routes app_id)) (\<lambda>_. tx_return ())"

definition tx_load_fixed_route :: "env \<Rightarrow> ('r \<Rightarrow> int) \<Rightarrow> int \<Rightarrow> int \<Rightarrow> 'r \<Rightarrow> int \<Rightarrow> unit tx" where
  "tx_load_fixed_route en to_route x y route app_id =
     scamp_process () (load_fixed_route to_route (env_reader en) x y route app_id)"

definition tx_read_fixed_route :: "env \<Rightarrow> int \<Rightarrow> int \<Rightarrow> int \<Rightarrow> (int list \<times> int list) tx" where
  "tx_read_fixed_route en x y app_id =
     tx_bind (scamp_process None (read_fixed_route_process (env_reader en) x y app_id))
       (\<lambda>r. tx_res (require PyAssertionError r))"

definition get_multicast_routes ::
  "env \<Rightarrow> (int \<Rightarrow> int list \<times> int list) \<Rightarrow> (int \<Rightarrow> int \<Rightarrow> int list \<Rightarrow> int list \<Rightarrow> bool \<Rightarrow> 'e res) \<Rightarrow>
     int \<Rightarrow> int \<Rightarrow> int option \<Rightarrow> 'e list tx" where
  "get_multicast_routes en route_ids make_entry x y app_id =
     tx_bind (get_sv_int en x y SV_router_table_copy_address) (\<lambda>base_address.
     tx_bind (scamp_process (replicate N_ENTRIES None)
                (get_routes (env_reader en) route_ids make_entry app_id x y base_address)) (\<lambda>entries.
       tx_return (routes_found entries)))"

definition clear_multicast_routes :: "env \<Rightarrow> int \<Rightarrow> int \<Rightarrow> unit tx" where
  "clear_multicast_routes en x y = tx_command en (Inr (router_clear x y))"

definition tx_get_router_diagnostics :: "env \<Rightarrow> int \<Rightarrow> int \<Rightarrow> router_diagnostics tx" where
  "tx_get_router_diagnostics en x y =
     tx_bind (scamp_value diagnostics_state_init (get_router_diagnostics (env_reader en) x y))
       (\<lambda>r. tx_res (require PyValueError r))"

text \<open>The check of the position lets 16 through, one past the last filter.\<close>

definition filter_address :: "int \<Rightarrow> int" where
  "filter_address position =
     ROUTER_REGISTER_BASE_ADDRESS + ROUTER_FILTER_CONTROLS_OFFSET + position * ROUTER_DIAGNOSTIC_FILTER_SIZE"

definition write_word_request :: "int \<Rightarrow> int \<Rightarrow> int \<Rightarrow> int \<Rightarrow> scp_request res" where
  "write_word_request x y address value =
     bind_res (struct_pack Little ONE_WORD [value]) (write_memory (x, y, 0) address)"

definition set_router_diagnostic_filter ::
  "env \<Rightarrow> int \<Rightarrow> int \<Rightarrow> int \<Rightarrow> diagnostic_filter \<Rightarrow> unit tx" where
  "set_router_diagnostic_filter en x y position flt =
     (if position > NO_ROUTER_DIAGNOSTIC_FILTERS then tx_raise (InvalidParameter ''position'')
      else tx_command en (write_word_request x y (filter_address position) (filter_word flt)))"

definition clear_router_diagnostic_counters :: "env \<Rightarrow> int \<Rightarrow> int \<Rightarrow> unit tx" where
  "clear_router_diagnostic_counters en x y =
     tx_command en (write_word_request x y 0xf100002c 0xFFFFFFFF)"

subsection \<open>SDP messages\<close>

text \<open>\<open>choice\<close> is what \<open>random.randint(0, n - 1)\<close> gives, which refuses an empty range.\<close>

definition tx_send_sdp_message :: "nat \<Rightarrow> sdp_message \<Rightarrow> nat option \<Rightarrow> unit tx" where
  "tx_send_sdp_message choice m connection =
     tx_bind (tx_get tx_scamp_connections) (\<lambda>conns.
     tx_bind (case connection of
                Some i \<Rightarrow> tx_return i
              | None \<Rightarrow> if conns = [] then tx_raise PyValueError else tx_return (conns ! choice)) (\<lambda>i.
     tx_bind (tx_get (\<lambda>t. tx_pool t ! i)) (\<lambda>c.
     tx_bind (tx_res (send_sdp_message
                \<lparr>sdpc_chip_x = Some (conn_chip_x c), sdpc_chip_y = Some (conn_chip_y c)\<rparr> m)) (\<lambda>(m', data).
       (\<lambda>t nt. case conn_send c data of
          (c', None) \<Rightarrow> Some (TxDone () (t\<lparr>tx_pool := (tx_pool t)[i := c']\<rparr>) nt)
        | (c', Some e) \<Rightarrow> Some (TxRaise e (t\<lparr>tx_pool := (tx_pool t)[i := c']\<rparr>) nt))))))"

definition update_provenance_and_exit :: "nat \<Rightarrow> int \<Rightarrow> int \<Rightarrow> int \<Rightarrow> unit tx" where
  "update_provenance_and_exit choice x y p =
     tx_bind (tx_res (struct_pack Little ONE_WORD
                [sdp_running_message_codes_value SDP_UPDATE_PROVENCE_REGION_AND_EXIT])) (\<lambda>data.
       tx_send_sdp_message choice
         \<lparr>sdpm_header = (scamp_header x y p)\<lparr>sdp_flags := REPLY_NOT_EXPECTED,
            sdp_destination_port := sdp_ports_value RUNNING_COMMAND_SDP_PORT\<rparr>,
          sdpm_data = Some data, sdpm_offset = 0\<rparr> None)"

end
