(* ===== verification/ExtendedTransceiver.thy ===== *)
theory ExtendedTransceiver
  imports TransceiverOps ExecutableTargets
begin

text \<open>
  The extended transceiver (\<open>extended/extended_transceiver.py\<close>) and the messages and the process that only it
  uses. Its class names several attributes that no class of the transceiver has
  (\<open>_EXECUTABLE_ADDRESS\<close>, \<open>_ONE_WORD\<close>, \<open>where_is_xy\<close>, \<open>bmp_connection\<close>): using one is an
  \<open>AttributeError\<close>, which takes the place of what was being done or of the exception being handled.
\<close>

subsection \<open>Messages\<close>

text \<open>\<open>SetLED\<close>: off, on and inverted are coded 2, 3 and 1, two bits for each LED.\<close>

fun encode_led_states :: "int \<Rightarrow> (int \<times> int) list \<Rightarrow> int res" where
  "encode_led_states acc [] = Inr acc"
| "encode_led_states acc ((led, state) # rest) =
     bind_res (require PyKeyError (map_of [(0, 2), (1, 3), (2, 1)] state)) (\<lambda>code.
     bind_res (shl code (2 * led)) (\<lambda>bits. encode_led_states (acc OR bits) rest))"

definition set_led_request :: "int \<Rightarrow> int \<Rightarrow> int \<Rightarrow> (int \<times> int) list \<Rightarrow> scp_request res" where
  "set_led_request x y cpu led_states =
     bind_res (encode_led_states 0 led_states) (\<lambda>encoded.
       Inr (abstract_scp_request (scamp_header x y cpu) CMD_LED (Some encoded) None None None
              (CheckOKResponse ''Set chip LED'' ''CMD_LED'')))"

text \<open>\<open>BMPSetLed\<close> of one LED or several, whose codes are added.\<close>

fun sum_leds :: "int \<Rightarrow> int \<Rightarrow> int list \<Rightarrow> int res" where
  "sum_leds action acc [] = Inr acc"
| "sum_leds action acc (led # leds) =
     bind_res (shl action (led * 2)) (\<lambda>bits. sum_leds action (acc + bits) leds)"

definition bmp_set_led_request :: "int list \<Rightarrow> led_action \<Rightarrow> boards \<Rightarrow> scp_request res" where
  "bmp_set_led_request leds action boards =
     bind_res (sum_leds (led_action_value action) 0 leds) (\<lambda>arg1.
     bind_res (get_board_mask boards) (\<lambda>arg2.
       bmp_request boards CMD_LED (Some arg1) (Some arg2) None None
         (CheckOKResponse ''Set the LEDs of a board'' ''CMD_LED'')))"

subsection \<open>\<open>DeAllocSDRAMProcess\<close>\<close>

definition de_alloc_handle_response :: "int option client callback" where
  "de_alloc_handle_response r c =
     (case r of RspDeAlloc n \<Rightarrow> (c\<lparr>cl_user := Some n\<rparr>, None) | _ \<Rightarrow> (c, Some PyAttributeError))"

definition de_alloc_all_app_sdram ::
  "reader \<Rightarrow> int \<Rightarrow> int \<Rightarrow> int \<Rightarrow> int option process \<Rightarrow> net \<Rightarrow> (int option process, net) presult option" where
  "de_alloc_all_app_sdram rd x y app_id pr nt =
     (case sdram_de_alloc x y (Some app_id) None of
        Inl e \<Rightarrow> Some (Fails e pr nt)
      | Inr req \<Rightarrow> collect_responses rd (proc_send_request rd req (Some de_alloc_handle_response) pr nt))"

definition de_alloc_sdram ::
  "reader \<Rightarrow> int \<Rightarrow> int \<Rightarrow> int \<Rightarrow> int option process \<Rightarrow> net \<Rightarrow> (int option process, net) presult option" where
  "de_alloc_sdram rd x y base_address pr nt =
     (case sdram_de_alloc x y None (Some base_address) of
        Inl e \<Rightarrow> Some (Fails e pr nt)
      | Inr req \<Rightarrow> collect_responses rd (proc_send_request rd req None pr nt))"

subsection \<open>Operations\<close>

text \<open>The handlers that call \<open>self.where_is_xy\<close>.\<close>

definition or_attribute_error :: "'a tx \<Rightarrow> 'a tx" where
  "or_attribute_error m = tx_catch m (\<lambda>e. tx_raise PyAttributeError)"

text \<open>\<open>execute\<close> evaluates \<open>self._EXECUTABLE_ADDRESS\<close> first.\<close>

definition ext_execute ::
  "env \<Rightarrow> int \<Rightarrow> int \<Rightarrow> int list \<Rightarrow> write_data \<Rightarrow> int \<Rightarrow> int option \<Rightarrow> bool \<Rightarrow> unit tx" where
  "ext_execute en x y processors executable app_id n_bytes wait = tx_raise PyAttributeError"

text \<open>
  \<open>is_connected\<close> asks the connection it is given (\<open>connected\<close>); without one it reads \<open>scamp_connections\<close>, which no
  class has.
\<close>

definition ext_is_connected :: "('c \<Rightarrow> bool) \<Rightarrow> 'c option \<Rightarrow> bool tx" where
  "ext_is_connected connected connection =
     (case connection of Some c \<Rightarrow> tx_return (connected c) | None \<Rightarrow> tx_raise PyAttributeError)"

definition get_iobuf_from_core :: "env \<Rightarrow> int \<Rightarrow> int \<Rightarrow> int \<Rightarrow> (xyp \<times> ustr) tx" where
  "get_iobuf_from_core en x y p =
     tx_bind (get_iobuf en (Some [(x, y, [p])])) (\<lambda>bufs.
       case bufs of [] \<Rightarrow> tx_raise PyStopIteration | b # bs \<Rightarrow> tx_return b)"

text \<open>
  \<open>execute_application\<close>: \<open>files\<close> gives the bytes of a binary, which are all written. The cores of a
  \<open>CoreSubsets\<close> are taken chip by chip, in the order in which the chips came.
\<close>

definition group_cores :: "core list \<Rightarrow> core_subsets" where
  "group_cores cs =
     map (\<lambda>(x, y). (x, y, map (\<lambda>(_, _, p). p) (filter (\<lambda>(a, b, _). (a, b) = (x, y)) cs)))
       (rev (remdups (rev (map (\<lambda>(x, y, _). (x, y)) cs))))"

fun flood_binaries :: "env \<Rightarrow> (string \<Rightarrow> bytes) \<Rightarrow> int \<Rightarrow> executable_targets \<Rightarrow> string list \<Rightarrow> unit tx" where
  "flood_binaries en files app_id targets [] = tx_return ()"
| "flood_binaries en files app_id targets (binary # rest) =
     tx_bind (execute_flood en (group_cores (get_cores_for_binary binary targets))
                (WriteReader (files binary)) app_id (Some (int (length (files binary)))) True)
       (\<lambda>_. flood_binaries en files app_id targets rest)"

definition execute_application :: "env \<Rightarrow> (string \<Rightarrow> bytes) \<Rightarrow> executable_targets \<Rightarrow> int \<Rightarrow> unit tx" where
  "execute_application en files targets app_id =
     tx_bind (flood_binaries en files app_id targets (binaries targets)) (\<lambda>_.
     tx_bind (get_core_state_count en app_id CPU_READY None) (\<lambda>count.
     tx_bind (if count < int (et_total_processors targets)
              then tx_bind (get_cpu_infos en (Some (group_cores (et_all_core_subsets targets)))
                              (Some [CPU_READY]) False) (\<lambda>infos.
                     if infos \<noteq> [] then tx_raise SpinnmanError else tx_return ())
              else tx_return ()) (\<lambda>_.
       tx_send_signal en app_id SIG_START)))"

text \<open>A missing BMP selector is used as if it were there.\<close>

definition set_led :: "env \<Rightarrow> int list \<Rightarrow> led_action \<Rightarrow> boards \<Rightarrow> unit tx" where
  "set_led en leds action boards =
     tx_bind (tx_res (bmp_set_led_request leds action boards)) (\<lambda>req.
     tx_bind (tx_get tx_bmp_connection) (\<lambda>bmp. case bmp of
       None \<Rightarrow> tx_raise PyAttributeError
     | Some (i, bs) \<Rightarrow> tx_bind (send_single en (FixedSelector i) 3 req) (\<lambda>_. tx_return ())))"

definition set_leds :: "env \<Rightarrow> int \<Rightarrow> int \<Rightarrow> int \<Rightarrow> (int \<times> int) list \<Rightarrow> unit tx" where
  "set_leds en x y cpu led_states =
     or_attribute_error (tx_command en (set_led_request x y cpu led_states))"

text \<open>An integer needs \<open>self._ONE_WORD\<close>.\<close>

definition write_neighbour_memory ::
  "env \<Rightarrow> int \<Rightarrow> int \<Rightarrow> int \<Rightarrow> int \<Rightarrow> write_data \<Rightarrow> int option \<Rightarrow> nat \<Rightarrow> int \<Rightarrow> unit tx" where
  "write_neighbour_memory en x y link base_address data n_bytes offset cpu =
     (let rd = env_reader en
      in case data of
           WriteReader unread \<Rightarrow>
             (case n_bytes of
                None \<Rightarrow> tx_raise PyTypeError
              | Some n \<Rightarrow>
                  tx_bind (scamp_value () (link_memory_from_reader rd (x, y, cpu) link base_address unread n False))
                    (\<lambda>_. tx_return ()))
         | WriteInt value \<Rightarrow> tx_raise PyAttributeError
         | WriteBytes bs \<Rightarrow>
             (let n = (case n_bytes of None \<Rightarrow> int (length bs) | Some n \<Rightarrow> n)
              in tx_bind (scamp_value () (link_memory_from_bytearray rd (x, y, cpu) link base_address bs offset n False))
                   (\<lambda>_. tx_return ())))"

definition read_neighbour_memory :: "env \<Rightarrow> int \<Rightarrow> int \<Rightarrow> int \<Rightarrow> int \<Rightarrow> int \<Rightarrow> int \<Rightarrow> bytes tx" where
  "read_neighbour_memory en x y link base_address n_bytes cpu =
     or_attribute_error
       (scamp_process [] (read_link_memory_of (env_reader en) (x, y, cpu) link base_address n_bytes))"

text \<open>The identifiers of flood fills go round the numbers below 127, starting from 1.\<close>

definition get_next_nearest_neighbour_id :: "int \<Rightarrow> int" where
  "get_next_nearest_neighbour_id current = (current + 1) mod 127"

text \<open>
  Writing everywhere. The identifier has been counted whether or not the write succeeds: \<open>current\<close> is the last
  one, and \<open>get_next_nearest_neighbour_id current\<close> the one of this write. A file is a \<open>WriteReader\<close> of its
  contents with its size; an open reader without a size fails in \<open>_start_flood_fill\<close>; an integer needs
  \<open>self._ONE_WORD\<close>.
\<close>

definition write_memory_flood ::
  "env \<Rightarrow> int \<Rightarrow> int \<Rightarrow> write_data \<Rightarrow> int option \<Rightarrow> nat \<Rightarrow> unit tx" where
  "write_memory_flood en current base_address data n_bytes offset =
     (let nnid = get_next_nearest_neighbour_id current; rd = env_reader en;
          run = (\<lambda>m. tx_bind (tx_get tx_selector) (\<lambda>sel.
                  tx_bind (run_channels sel N_RETRIES 3 2 None () m) (\<lambda>_. tx_return ())))
      in case data of
           WriteReader unread \<Rightarrow>
             (case n_bytes of
                None \<Rightarrow> tx_raise PyTypeError
              | Some n \<Rightarrow> run (flood_write_from_reader rd nnid base_address unread n))
         | WriteInt value \<Rightarrow> tx_raise PyAttributeError
         | WriteBytes bs \<Rightarrow>
             (let n = (case n_bytes of None \<Rightarrow> int (length bs) | Some n \<Rightarrow> n)
              in run (flood_write_from_bytearray rd nnid base_address bs offset (Some n))))"

definition free_sdram :: "env \<Rightarrow> int \<Rightarrow> int \<Rightarrow> int \<Rightarrow> unit tx" where
  "free_sdram en x y base_address =
     or_attribute_error
       (tx_bind (scamp_process None (de_alloc_sdram (env_reader en) x y base_address)) (\<lambda>_. tx_return ()))"

text \<open>\<open>free_sdram_by_app_id\<close> calls \<open>de_alloc_sdram\<close> with the identifier for an address.\<close>

definition free_sdram_by_app_id :: "env \<Rightarrow> int \<Rightarrow> int \<Rightarrow> int \<Rightarrow> int option tx" where
  "free_sdram_by_app_id en x y app_id =
     or_attribute_error (scamp_process None (de_alloc_sdram (env_reader en) x y app_id))"

definition get_router_diagnostic_filter :: "env \<Rightarrow> int \<Rightarrow> int \<Rightarrow> int \<Rightarrow> diagnostic_filter tx" where
  "get_router_diagnostic_filter en x y position =
     tx_bind (tx_call en (read_memory (x, y, 0) (filter_address position) 4)) (\<lambda>r. case r of
       RspData data offset len \<Rightarrow>
         tx_bind (tx_res (unpack_word data offset)) (\<lambda>w. tx_res (Inr (read_from_int w)))
     | _ \<Rightarrow> tx_raise PyAttributeError)"

definition number_of_boards_located :: "env \<Rightarrow> int tx" where
  "number_of_boards_located en = tx_raise PyAttributeError"

definition tx_get_heap :: "env \<Rightarrow> int \<Rightarrow> int \<Rightarrow> system_variable \<Rightarrow> heap_element list tx" where
  "tx_get_heap en x y heap =
     or_attribute_error
       (tx_bind (scamp_process heap_state_init (get_heap (env_reader en) (x, y) heap))
          (\<lambda>h. tx_return (hs_blocks h)))"

text \<open>The watch dog count is a byte; switching it on restores its default.\<close>

datatype watch_dog = WatchDog bool | WatchDogCount int

definition watch_dog_value :: "watch_dog \<Rightarrow> sv_value" where
  "watch_dog_value w =
     (case w of
        WatchDog b \<Rightarrow> if b then sv_default SV_software_watchdog_count else SVInt 0
      | WatchDogCount n \<Rightarrow> SVInt n)"

definition set_watch_dog_on_chip :: "env \<Rightarrow> int \<Rightarrow> int \<Rightarrow> watch_dog \<Rightarrow> unit tx" where
  "set_watch_dog_on_chip en x y w =
     tx_bind (tx_res (case watch_dog_value w of
                SVInt n \<Rightarrow> struct_pack Little [FB] [n] | SVBytes _ \<Rightarrow> Inl StructError)) (\<lambda>data.
     tx_bind (tx_write_memory en x y
                (SYSTEM_VARIABLE_BASE_ADDRESS + sv_offset SV_software_watchdog_count) (WriteBytes data)
                None 0 0 False) (\<lambda>_. tx_return ()))"

definition set_watch_dog :: "env \<Rightarrow> watch_dog \<Rightarrow> unit tx" where
  "set_watch_dog en w = tx_each (\<lambda>c. set_watch_dog_on_chip en (fst (ch_xy c)) (snd (ch_xy c)) w) (env_machine en)"

end
