(* ===== verification/TransceiverInv.thy ===== *)
theory TransceiverInv
  imports ExtendedTransceiver
begin

text \<open>
  Reasoning about the statements of the transceiver: Hoare triples over what they return and raise, the
  statements that touch nothing but the sockets, and what every operation keeps of the state.
\<close>

subsection \<open>Triples\<close>

text \<open>From \<open>P\<close> the statement returns in \<open>Q\<close>, and raises or waits for ever in \<open>E\<close>.\<close>

definition triple ::
  "(transceiver \<Rightarrow> bool) \<Rightarrow> 'a tx \<Rightarrow> ('a \<Rightarrow> transceiver \<Rightarrow> bool) \<Rightarrow> (transceiver \<Rightarrow> bool) \<Rightarrow> bool" where
  "triple P m Q E \<longleftrightarrow>
     (\<forall>t nt. P t \<longrightarrow> (case m t nt of
        None \<Rightarrow> True
      | Some (TxDone x t' nt') \<Rightarrow> Q x t'
      | Some (TxRaise e t' nt') \<Rightarrow> E t'
      | Some (TxBlock t') \<Rightarrow> E t'))"

lemma tripleD: "triple P m Q E \<Longrightarrow> P t \<Longrightarrow> m t nt = Some (TxDone x t' nt') \<Longrightarrow> Q x t'"
  unfolding triple_def by (metis (mono_tags, lifting) option.simps(5) tres.simps(10))

definition stays :: "(transceiver \<Rightarrow> bool) \<Rightarrow> 'a tx \<Rightarrow> bool" where
  "stays P m \<longleftrightarrow> triple P m (\<lambda>_. P) P"

named_theorems tx_rules

lemma triple_return: "(\<And>t. P t \<Longrightarrow> Q x t) \<Longrightarrow> triple P (tx_return x) Q E"
  by (simp add: triple_def tx_return_def)

lemma triple_raise: "(\<And>t. P t \<Longrightarrow> E t) \<Longrightarrow> triple P (tx_raise e) Q E"
  by (simp add: triple_def tx_raise_def)

lemma triple_get: "(\<And>t. P t \<Longrightarrow> Q (f t) t) \<Longrightarrow> triple P (tx_get f) Q E"
  by (simp add: triple_def tx_get_def)

lemma triple_modify: "(\<And>t. P t \<Longrightarrow> Q () (f t)) \<Longrightarrow> triple P (tx_modify f) Q E"
  by (simp add: triple_def tx_modify_def)

lemma triple_bind:
  "triple P m R E \<Longrightarrow> (\<And>x. triple (R x) (f x) Q E) \<Longrightarrow> triple P (tx_bind m f) Q E"
  unfolding triple_def tx_bind_def
  by (fastforce split: option.splits tres.splits)

lemma triple_catch:
  "triple P m Q E' \<Longrightarrow> (\<And>t. E' t \<Longrightarrow> E t) \<Longrightarrow> (\<And>e. triple E' (h e) Q E) \<Longrightarrow> triple P (tx_catch m h) Q E"
  unfolding triple_def tx_catch_def
  by (fastforce split: option.splits tres.splits)

lemma triple_weaken:
  "triple P m Q E \<Longrightarrow> (\<And>t. P' t \<Longrightarrow> P t) \<Longrightarrow> (\<And>x t. Q x t \<Longrightarrow> Q' x t) \<Longrightarrow> (\<And>t. E t \<Longrightarrow> E' t) \<Longrightarrow>
     triple P' m Q' E'"
  unfolding triple_def by (fastforce split: option.splits tres.splits)

lemma stays_return [tx_rules]: "stays P (tx_return x)"
  by (simp add: stays_def triple_return)

lemma stays_raise [tx_rules]: "stays P (tx_raise e)"
  by (simp add: stays_def triple_raise)

lemma stays_get [tx_rules]: "stays P (tx_get f)"
  by (simp add: stays_def triple_get)

lemma stays_res [tx_rules]: "stays P (tx_res r)"
  by (cases r) (simp_all add: tx_res_def tx_rules)

lemma stays_bind [tx_rules]: "stays P m \<Longrightarrow> (\<And>x. stays P (f x)) \<Longrightarrow> stays P (tx_bind m f)"
  unfolding stays_def by (rule triple_bind)

lemma stays_catch [tx_rules]: "stays P m \<Longrightarrow> (\<And>e. stays P (h e)) \<Longrightarrow> stays P (tx_catch m h)"
  unfolding stays_def by (rule triple_catch) auto

lemma stays_if [tx_rules]: "stays P m \<Longrightarrow> stays P m' \<Longrightarrow> stays P (if b then m else m')"
  by simp

lemma stays_each: "(\<And>x. x \<in> set xs \<Longrightarrow> stays P (f x)) \<Longrightarrow> stays P (tx_each f xs)"
  by (induction xs) (auto intro: tx_rules)

primrec tres_state :: "'a tres \<Rightarrow> transceiver" where
  "tres_state (TxDone x t nt) = t"
| "tres_state (TxRaise e t nt) = t"
| "tres_state (TxBlock t) = t"

lemma staysD:
  assumes "stays P m" and "P t" and "m t nt = Some r"
  shows "P (tres_state r)"
proof -
  have "case m t nt of None \<Rightarrow> True
      | Some (TxDone x t' nt') \<Rightarrow> P t' | Some (TxRaise e t' nt') \<Rightarrow> P t' | Some (TxBlock t') \<Rightarrow> P t'"
    using assms(1,2) unfolding stays_def triple_def by blast
  then show ?thesis by (cases r) (simp_all add: assms(3))
qed

lemma staysI: "(\<And>t nt r. P t \<Longrightarrow> m t nt = Some r \<Longrightarrow> P (tres_state r)) \<Longrightarrow> stays P m"
  by (force simp: stays_def triple_def split: option.split tres.split)

lemma triple_stays: "stays P m \<Longrightarrow> (\<And>t. P t \<Longrightarrow> E t) \<Longrightarrow> triple P m (\<lambda>_. P) E"
  unfolding stays_def by (rule triple_weaken)

subsection \<open>Statements that only use the sockets\<close>

text \<open>
  A property that does not speak of the pool survives every process, whatever it does, and so every
  operation that is made of processes.
\<close>

locale pool_free =
  fixes I :: "transceiver \<Rightarrow> bool"
  assumes pool: "I t \<Longrightarrow> I (t\<lparr>tx_pool := pool'\<rparr>)"
begin

lemma run_channels: "stays I (run_channels sel n_retries n_channels waits non_fail user body)"
  by (auto simp: stays_def triple_def run_channels_def pool_after_def
      intro: pool split: option.split presult.split)

lemma modify_pool: "stays I (tx_modify (\<lambda>t. t\<lparr>tx_pool := f t\<rparr>))"
  unfolding stays_def by (rule triple_modify) (rule pool)

lemma run_process: "stays I (run_process sel n_retries non_fail user body)"
  by (simp add: run_process_def run_channels)

lemma run_with_value: "stays I (run_with_value sel user body)"
  by (auto simp: stays_def triple_def run_with_value_def pool_after_def
      intro: pool split: option.split presult.split)

lemma scamp_process: "stays I (scamp_process user body)"
  by (simp add: scamp_process_def tx_rules run_process)

lemma scamp_value: "stays I (scamp_value user body)"
  by (simp add: scamp_value_def tx_rules run_with_value)

lemma send_single: "stays I (send_single en sel n_retries req)"
  by (simp add: send_single_def tx_rules run_process)

lemma call: "stays I (tx_call en req)"
  by (simp add: tx_call_def tx_rules send_single)

lemma bmp_call: "stays I (bmp_call en n_retries req)"
  by (auto simp: bmp_call_def send_single split: option.split intro!: tx_rules)

lemma command: "stays I (tx_command en req)"
  by (simp add: tx_command_def tx_rules call)

lemma read_memory: "stays I (tx_read_memory en x y a n cpu)"
  by (simp add: tx_read_memory_def scamp_process)

lemma read_word: "stays I (tx_read_word en x y a cpu)"
  by (simp add: tx_read_word_def tx_rules read_memory)

lemma write_memory: "stays I (tx_write_memory en x y a d n off cpu s)"
  by (auto simp: tx_write_memory_def Let_def scamp_value split: write_data.split option.split intro!: tx_rules)

lemma sv_data: "stays I (get_sv_data en x y item)"
  by (auto simp: get_sv_data_def Let_def read_memory split: option.split intro!: tx_rules)

lemma sv_int: "stays I (get_sv_int en x y item)"
  by (auto simp: get_sv_int_def sv_data split: sv_value.split intro!: tx_rules)

lemma cpu_infos: "stays I (get_cpu_infos en subsets states inc)"
  by (simp add: get_cpu_infos_def Let_def scamp_process)

lemma core_state_count: "stays I (get_core_state_count en app_id state xys)"
  by (simp add: get_core_state_count_def tx_rules run_process)

lemma version_on: "stays I (version_on en x y sel n)"
  by (simp add: version_on_def tx_rules run_process)

lemma scamp_version: "stays I (get_scamp_version en n)"
  by (simp add: get_scamp_version_def tx_rules version_on)

lemma check_bmp: "stays I (check_bmp_connection en)"
  by (auto simp: check_bmp_connection_def version_on split: option.split intro!: tx_rules)

lemma check_connection_step: "stays I (check_connection_step en i)"
  by (auto simp: check_connection_step_def send_single split: response.split exc.split intro!: tx_rules)

lemma check_connection: "stays I (check_connection en i n)"
  by (induction n) (auto simp: check_connection_step split: option.split intro!: tx_rules)

lemma boot_board: "stays I (boot_board en extra)"
proof -
  have "stays I (send_boot i ms)" for i ms
    by (auto simp: stays_def triple_def send_boot_def intro: pool split: prod.split option.split)
  then show ?thesis by (auto simp: boot_board_def Let_def split: option.split intro!: tx_rules)
qed

text \<open>The loop over boots.\<close>

lemma find_scamp_loop:
  assumes "find_scamp_loop en extra tries t nt = Some r" and "I t"
  shows "I (tres_state r)"
proof -
  have "I t \<longrightarrow> I (tres_state r)"
  proof (rule find_scamp_loop.raw_induct [where
        P = "\<lambda>en extra tries t nt r. I t \<longrightarrow> I (tres_state r)", OF _ assms(1)], intro impI)
    fix loop en extra tries t nt r
    assume ih: "\<And>en extra tries t nt r. loop en extra tries t nt = Some r \<Longrightarrow> I t \<longrightarrow> I (tres_state r)"
      and r: "(if tries \<le> 0 then Some (TxDone None t nt)
        else case get_scamp_version en BOOT_RETRIES t nt of None \<Rightarrow> None
          | Some (TxDone v t1 nt1) \<Rightarrow>
              if is_default_destination v then loop en extra tries t1 nt1 else Some (TxDone (Some v) t1 nt1)
          | Some (TxRaise e t1 nt1) \<Rightarrow>
              (case version_failure e of
                 None \<Rightarrow> (case boot_board en extra t1 nt1 of None \<Rightarrow> None
                   | Some (TxDone u t2 nt2) \<Rightarrow> loop en extra (tries - 1) t2 nt2
                   | Some (TxRaise e' t2 nt2) \<Rightarrow> Some (TxRaise e' t2 nt2)
                   | Some (TxBlock t2) \<Rightarrow> Some (TxBlock t2))
               | Some e' \<Rightarrow> Some (TxRaise e' t1 nt1))
          | Some (TxBlock t1) \<Rightarrow> Some (TxBlock t1)) = Some r"
      and t: "I t"
    have v: "get_scamp_version en BOOT_RETRIES t nt = Some s \<Longrightarrow> I (tres_state s)" for s
      using staysD [OF scamp_version t] .
    have b: "I t1 \<Longrightarrow> boot_board en extra t1 nt1 = Some s \<Longrightarrow> I (tres_state s)" for t1 nt1 s
      using staysD [OF boot_board] .
    show "I (tres_state r)"
    proof (cases "get_scamp_version en BOOT_RETRIES t nt")
      case None
      then show ?thesis using r t by (auto split: if_splits)
    next
      case (Some s)
      note v = v [OF Some]
      show ?thesis
      proof (cases s)
        case (TxDone u t1 nt1)
        then show ?thesis using r t Some v ih by (auto split: if_splits)
      next
        case (TxRaise e t1 nt1)
        then show ?thesis using r t Some v b [of t1 nt1] ih
          by (auto split: if_splits option.splits tres.splits)
      next
        case (TxBlock t1)
        then show ?thesis using r t Some v by (auto split: if_splits)
      qed
    qed
  qed
  then show ?thesis using assms(2) by blast
qed

lemma find_scamp: "stays I (try_to_find_scamp_and_boot en tries extra)"
proof -
  have "stays I (find_scamp_loop en extra tries)" by (rule staysI) (rule find_scamp_loop)
  then show ?thesis unfolding try_to_find_scamp_and_boot_def
    by (auto intro!: tx_rules scamp_version split: option.split)
qed

end

subsection \<open>What holds of every transceiver\<close>

text \<open>
  Between a transceiver as created, \<open>t0\<close>, and later: the BMP and the boot connection are the same, no
  SCAMP connection is lost, the connections that tags may use are SCAMP connections, and only a machine
  with a BMP is ever marked as off.
\<close>

definition tx_inv :: "transceiver \<Rightarrow> transceiver \<Rightarrow> bool" where
  "tx_inv t0 t \<longleftrightarrow>
     tx_bmp_connection t = tx_bmp_connection t0 \<and> tx_boot_send_connection t = tx_boot_send_connection t0 \<and>
     (\<exists>added. tx_scamp_connections t = tx_scamp_connections t0 @ added) \<and>
     snd ` set (tx_udp_scamp_connections t) \<subseteq> set (tx_scamp_connections t) \<and>
     (tx_machine_off t \<longrightarrow> tx_bmp_connection t0 \<noteq> None)"

interpretation inv: pool_free "tx_inv t0" for t0
  by unfold_locales (auto simp: tx_inv_def)

lemma triple_pure: "(b \<Longrightarrow> triple P m Q E) \<Longrightarrow> triple (\<lambda>t. P t \<and> b) m Q E"
  by (auto simp: triple_def)

lemma update_selector_triple:
  assumes "\<And>t sel. P t \<Longrightarrow> P (t\<lparr>tx_selector := sel\<rparr>)"
  shows "triple P (update_selector en) (\<lambda>_ t. P t \<and> scamp_selector en t = Inr (tx_selector t)) P"
  using assms
  by (auto simp: triple_def update_selector_def tx_bind_def tx_get_def tx_res_def tx_raise_def
      tx_return_def tx_modify_def scamp_selector_def split: sum.split)

lemma power_inv:
  "triple (tx_inv t0) (tx_power en command)
     (\<lambda>_ t. tx_inv t0 t \<and> tx_machine_off t = (command = POWER_OFF)) (tx_inv t0)"
  unfolding tx_power_def
proof (rule triple_bind)
  show "triple (tx_inv t0) (tx_get tx_bmp_connection) (\<lambda>bmp t. tx_inv t0 t \<and> bmp = tx_bmp_connection t0) (tx_inv t0)"
    by (rule triple_get) (auto simp: tx_inv_def)
  show "triple (\<lambda>t. tx_inv t0 t \<and> bmp = tx_bmp_connection t0)
      (case bmp of None \<Rightarrow> tx_raise PyNotImplementedError
       | Some (i, boards) \<Rightarrow>
           tx_bind (bmp_call en 0 (set_power command boards 0 0))
             (\<lambda>_. tx_modify (\<lambda>t. t\<lparr>tx_machine_off := (command = POWER_OFF)\<rparr>)))
      (\<lambda>_ t. tx_inv t0 t \<and> tx_machine_off t = (command = POWER_OFF)) (tx_inv t0)"
    (is "triple _ (?m bmp) ?Q _") for bmp
  proof (rule triple_pure)
    assume bmp: "bmp = tx_bmp_connection t0"
    have off: "bmp \<noteq> None \<Longrightarrow> tx_inv t0 t \<Longrightarrow> tx_inv t0 (t\<lparr>tx_machine_off := x\<rparr>)" for t x
      by (simp add: tx_inv_def bmp)
    show "triple (tx_inv t0) (?m bmp) ?Q (tx_inv t0)"
    proof (cases bmp)
      case (Some b)
      then show ?thesis using off
        by (cases b) (auto intro!: triple_bind [OF triple_stays [OF inv.bmp_call]] triple_modify)
    qed (simp add: triple_raise)
  qed
qed

lemma power_stays: "stays (tx_inv t0) (tx_power en command)"
  unfolding stays_def by (rule triple_weaken [OF power_inv]) auto

subsection \<open>Becoming ready, and new connections\<close>

lemma snd_update: "snd ` set (AList.update k v al) \<subseteq> insert v (snd ` set al)"
  by (induction al) auto

definition on_inv :: "transceiver \<Rightarrow> bool \<Rightarrow> transceiver \<Rightarrow> bool" where
  "on_inv t0 off t \<longleftrightarrow> tx_inv t0 t \<and> tx_machine_off t = off"

interpretation on: pool_free "on_inv t0 off" for t0 off
  by unfold_locales (auto simp: on_inv_def intro: inv.pool)

lemma on_inv_inv: "on_inv t0 off t \<Longrightarrow> tx_inv t0 t"
  by (simp add: on_inv_def)

lemma stays_inv: "(\<And>off. stays (on_inv t0 off) m) \<Longrightarrow> stays (tx_inv t0) m"
  by (rule staysI) (metis on_inv_def staysD)

definition member_inv :: "transceiver \<Rightarrow> bool \<Rightarrow> nat set \<Rightarrow> transceiver \<Rightarrow> bool" where
  "member_inv t0 off conns t \<longleftrightarrow> on_inv t0 off t \<and> conns \<subseteq> set (tx_scamp_connections t)"

interpretation member: pool_free "member_inv t0 off conns" for t0 off conns
  by unfold_locales (auto simp: member_inv_def intro: on.pool)

lemma add_udp_keeps:
  assumes "tx_inv t0 t" and "i \<in> set (tx_scamp_connections t)"
  shows "tx_inv t0 (t\<lparr>tx_udp_scamp_connections := AList.update ip i (tx_udp_scamp_connections t)\<rparr>)"
proof -
  have "snd ` set (AList.update ip i (tx_udp_scamp_connections t)) \<subseteq> set (tx_scamp_connections t)"
    using snd_update [of ip i "tx_udp_scamp_connections t"] assms by (auto simp: tx_inv_def)
  then show ?thesis using assms(1) by (simp add: tx_inv_def)
qed

lemma add_udp_member:
  assumes "i \<in> conns"
  shows "stays (member_inv t0 off conns) (add_udp_connection ip i)"
  unfolding stays_def add_udp_connection_def
proof (rule triple_modify)
  fix t
  assume "member_inv t0 off conns t"
  then show "member_inv t0 off conns
      (t\<lparr>tx_udp_scamp_connections := AList.update ip i (tx_udp_scamp_connections t)\<rparr>)"
    using assms add_udp_keeps [of t0 t i ip] by (auto simp: member_inv_def on_inv_def)
qed

lemma set_time_out_member: "i \<in> conns \<Longrightarrow> stays (member_inv t0 off conns) (set_time_out en i)"
  unfolding set_time_out_def
  by (auto intro!: tx_rules member.command member.check_connection add_udp_member split: option.split)

text \<open>A transceiver that is ready has a machine that is on, and a selector of its connections.\<close>

definition ready :: "env \<Rightarrow> transceiver \<Rightarrow> bool" where
  "ready en t \<longleftrightarrow> \<not> tx_machine_off t \<and> scamp_selector en t = Inr (tx_selector t)"

definition found_inv :: "transceiver \<Rightarrow> version_info option \<Rightarrow> transceiver \<Rightarrow> bool" where
  "found_inv t0 v t \<longleftrightarrow> tx_inv t0 t \<and> (v \<noteq> None \<longrightarrow> \<not> tx_machine_off t)"

lemma find_on: "triple (on_inv t0 False) (try_to_find_scamp_and_boot en tries extra) (found_inv t0) (tx_inv t0)"
  by (rule triple_weaken [OF on.find_scamp [unfolded stays_def]]) (auto simp: found_inv_def on_inv_def)

lemma find_again:
  "triple (found_inv t0 v)
     (if v = None \<and> bmp \<noteq> None
      then tx_bind (power_on_machine en) (\<lambda>_. try_to_find_scamp_and_boot en tries extra) else tx_return v)
     (found_inv t0) (tx_inv t0)"
proof (cases "v = None \<and> bmp \<noteq> None")
  case True
  have "triple (found_inv t0 v) (power_on_machine en) (\<lambda>_. on_inv t0 False) (tx_inv t0)"
    unfolding power_on_machine_def
    by (rule triple_weaken [OF power_inv]) (auto simp: found_inv_def on_inv_def)
  then show ?thesis using True by (simp add: triple_bind [OF _ find_on])
next
  case False
  then show ?thesis by (simp only: if_False triple_return)
qed

lemma use_found:
  "triple (found_inv t0 v)
     (case v of
        None \<Rightarrow> tx_raise SpinnmanIO
      | Some info \<Rightarrow>
          if vi_name info \<noteq> SCAMP_NAME \<or> \<not> is_scamp_version_compatible (vi_version_number info)
          then tx_raise SpinnmanIO
          else tx_bind (tx_get tx_scamp_connections) (\<lambda>conns.
                 tx_bind (tx_each (set_time_out en) conns) (\<lambda>_. update_selector en)))
     (\<lambda>_ t. tx_inv t0 t \<and> ready en t) (tx_inv t0)"
proof (cases v)
  case (Some info)
  have each: "triple (member_inv t0 False (set conns)) (tx_each (set_time_out en) conns)
      (\<lambda>_. member_inv t0 False (set conns)) (tx_inv t0)" for conns
    by (rule triple_stays [OF stays_each [OF set_time_out_member]]) (auto simp: member_inv_def on_inv_def)
  have update: "triple (member_inv t0 False (set conns)) (update_selector en)
      (\<lambda>_ t. tx_inv t0 t \<and> ready en t) (tx_inv t0)" for conns
    by (rule triple_weaken [OF update_selector_triple [of "member_inv t0 False (set conns)"]])
      (auto simp: member_inv_def on_inv_def tx_inv_def ready_def)
  have "triple (found_inv t0 v) (tx_get tx_scamp_connections)
      (\<lambda>conns. member_inv t0 False (set conns)) (tx_inv t0)"
    using Some by (intro triple_get) (auto simp: found_inv_def member_inv_def on_inv_def)
  then have "triple (found_inv t0 v)
      (tx_bind (tx_get tx_scamp_connections) (\<lambda>conns.
         tx_bind (tx_each (set_time_out en) conns) (\<lambda>_. update_selector en)))
      (\<lambda>_ t. tx_inv t0 t \<and> ready en t) (tx_inv t0)"
    by (rule triple_bind) (rule triple_bind [OF each update])
  then show ?thesis using Some by (auto simp: found_inv_def intro: triple_raise)
qed (auto simp: found_inv_def intro: triple_raise)

lemma ensure_find:
  "triple (on_inv t0 off)
     (if off then tx_return None else try_to_find_scamp_and_boot en tries extra)
     (found_inv t0) (tx_inv t0)"
proof (cases off)
  case True
  have "triple (on_inv t0 True) (tx_return None) (found_inv t0) (tx_inv t0)"
    by (rule triple_return) (simp add: found_inv_def on_inv_def)
  then show ?thesis using True by simp
next
  case False
  then show ?thesis using find_on by simp
qed

lemma ensure_ready:
  "triple (tx_inv t0) (ensure_board_is_ready en n_retries extra)
     (\<lambda>_ t. tx_inv t0 t \<and> ready en t) (tx_inv t0)"
  unfolding ensure_board_is_ready_def
proof (rule triple_bind)
  show "triple (tx_inv t0) (tx_get tx_machine_off) (on_inv t0) (tx_inv t0)"
    by (rule triple_get) (simp add: on_inv_def)
  fix off
  show "triple (on_inv t0 off)
     (tx_bind (if off then tx_return None
               else try_to_find_scamp_and_boot en INITIAL_FIND_SCAMP_RETRIES_COUNT extra) (\<lambda>v1.
     tx_bind (tx_get tx_bmp_connection) (\<lambda>bmp.
     tx_bind (if v1 = None \<and> bmp \<noteq> None
              then tx_bind (power_on_machine en) (\<lambda>_. try_to_find_scamp_and_boot en n_retries extra)
              else tx_return v1) (\<lambda>v2.
       case v2 of
         None \<Rightarrow> tx_raise SpinnmanIO
       | Some info \<Rightarrow>
           if vi_name info \<noteq> SCAMP_NAME \<or> \<not> is_scamp_version_compatible (vi_version_number info)
           then tx_raise SpinnmanIO
           else tx_bind (tx_get tx_scamp_connections) (\<lambda>conns.
                tx_bind (tx_each (set_time_out en) conns) (\<lambda>_. update_selector en))))))
     (\<lambda>_ t. tx_inv t0 t \<and> ready en t) (tx_inv t0)"
  proof (rule triple_bind [OF ensure_find])
    fix v1
    show "triple (found_inv t0 v1)
       (tx_bind (tx_get tx_bmp_connection) (\<lambda>bmp.
       tx_bind (if v1 = None \<and> bmp \<noteq> None
                then tx_bind (power_on_machine en) (\<lambda>_. try_to_find_scamp_and_boot en n_retries extra)
                else tx_return v1) (\<lambda>v2.
         case v2 of
           None \<Rightarrow> tx_raise SpinnmanIO
         | Some info \<Rightarrow>
             if vi_name info \<noteq> SCAMP_NAME \<or> \<not> is_scamp_version_compatible (vi_version_number info)
             then tx_raise SpinnmanIO
             else tx_bind (tx_get tx_scamp_connections) (\<lambda>conns.
                  tx_bind (tx_each (set_time_out en) conns) (\<lambda>_. update_selector en)))))
       (\<lambda>_ t. tx_inv t0 t \<and> ready en t) (tx_inv t0)"
      by (rule triple_bind [OF triple_get [where Q = "\<lambda>_. found_inv t0 v1"]])
        (assumption | rule triple_bind [OF find_again use_found])+
  qed
qed

lemma scamp_appended:
  "triple (tx_inv t0)
     (tx_bind (add_udp_connection ip i) (\<lambda>_.
        tx_modify (\<lambda>t. t\<lparr>tx_scamp_connections := tx_scamp_connections t @ [i]\<rparr>)))
     (\<lambda>_. tx_inv t0) (tx_inv t0)"
  unfolding triple_def add_udp_connection_def tx_bind_def tx_modify_def
proof (intro allI impI)
  fix t nt
  assume "tx_inv t0 t"
  moreover have "snd ` set (AList.update ip i (tx_udp_scamp_connections t)) \<subseteq>
      set (tx_scamp_connections t @ [i])"
    using snd_update [of ip i "tx_udp_scamp_connections t"] \<open>tx_inv t0 t\<close> by (auto simp: tx_inv_def)
  ultimately show "case case Some (TxDone () (t\<lparr>tx_udp_scamp_connections :=
        AList.update ip i (tx_udp_scamp_connections t)\<rparr>) nt) of None \<Rightarrow> None
      | Some (TxDone x t' nt') \<Rightarrow>
          Some (TxDone () (t'\<lparr>tx_scamp_connections := tx_scamp_connections t' @ [i]\<rparr>) nt')
      | Some (TxRaise e t' nt') \<Rightarrow> Some (TxRaise e t' nt') | Some (TxBlock t') \<Rightarrow> Some (TxBlock t') of
      None \<Rightarrow> True | Some (TxDone x t' nt') \<Rightarrow> tx_inv t0 t' | Some (TxRaise e t' nt') \<Rightarrow> tx_inv t0 t'
      | Some (TxBlock t') \<Rightarrow> tx_inv t0 t'"
    by (auto simp: tx_inv_def)
qed

lemma check_and_add_inv: "stays (tx_inv t0) (check_and_add_scamp_connection en xy ip)"
proof -
  have "stays (tx_inv t0) (open_scamp en xy ip)"
    by (simp add: open_scamp_def tx_rules inv.modify_pool)
  moreover have "stays (tx_inv t0)
      (case Option.bind info csi_ethernet_ip_address of
         None \<Rightarrow> tx_return ()
       | Some own_ip \<Rightarrow>
           tx_bind (add_udp_connection own_ip i) (\<lambda>_.
             tx_modify (\<lambda>t. t\<lparr>tx_scamp_connections := tx_scamp_connections t @ [i]\<rparr>)))" for info i
    using scamp_appended by (auto simp: stays_def intro: triple_return split: option.split)
  ultimately show ?thesis
    unfolding check_and_add_scamp_connection_def by (intro stays_bind inv.check_connection)
qed

lemma update_selector_inv: "stays (tx_inv t0) (update_selector en)"
  unfolding stays_def by (rule triple_weaken [OF update_selector_triple]) (auto simp: tx_inv_def)

lemma dimensions_inv: "stays (tx_inv t0) (get_machine_dimensions en)"
proof -
  have "stays (tx_inv t0) (tx_modify (\<lambda>t. t\<lparr>tx_height := h, tx_width := w\<rparr>))" for h w
    by (auto simp: stays_def tx_inv_def intro!: triple_modify)
  then show ?thesis unfolding get_machine_dimensions_def
    by (auto intro!: tx_rules inv.read_memory split: option.split list.split)
qed

lemma discover_chip_inv: "stays (tx_inv t0) (discover_chip en xy)"
  unfolding discover_chip_def
  by (auto intro!: tx_rules inv.read_memory check_and_add_inv split: option.split list.split exc.split)

lemma discover_inv: "stays (tx_inv t0) (discover_scamp_connections en ethernets)"
  unfolding discover_scamp_connections_def
  by (auto intro!: tx_rules dimensions_inv stays_each discover_chip_inv update_selector_inv split: prod.split)

lemma add_connections_inv: "stays (tx_inv t0) (add_scamp_connections en connections)"
  unfolding add_scamp_connections_def
  by (auto intro!: tx_rules stays_each check_and_add_inv update_selector_inv split: prod.split)

end
