(* ===== verification/Consumed.thy ===== *)
theory Consumed
  imports ProcessProps "HOL-Library.Sublist"
begin

text \<open>
  What a process reads: it takes events from the front of the lists, whatever its outcome, and a process that
  returns depends on nothing that comes after the events it has taken. A response that it returns is therefore
  in one of them.
\<close>

subsection \<open>Events are taken from the front\<close>

primrec rest_within :: "('w, recv) outcome \<Rightarrow> recv list \<Rightarrow> bool" where
  "rest_within (Returned p evs') evs \<longleftrightarrow> suffix evs' evs"
| "rest_within (Raised e p evs') evs \<longleftrightarrow> suffix evs' evs"
| "rest_within (Waiting p) evs \<longleftrightarrow> True"

lemma rest_within_trans: "rest_within r evs' \<Longrightarrow> suffix evs' evs \<Longrightarrow> rest_within r evs"
  by (cases r) (auto intro: suffix_order.trans)

lemma do_retrieve_rest: "rest_within (do_retrieve rd n p evs) evs"
  by (induction evs arbitrary: p)
    (auto intro: suffix_ConsI rest_within_trans split: prod.split option.split)

lemma drain_rest:
  assumes "drain rd p evs = Some r"
  shows "rest_within r evs"
proof (rule drain.raw_induct [where P = "\<lambda>rd p evs r. rest_within r evs", OF _ assms])
  fix loop rd p evs r
  assume ih: "\<And>rd (p :: 'a pipeline) evs r. loop rd p evs = Some r \<Longrightarrow> rest_within r evs"
    and r: "(case pl_n_channels p of
      None \<Rightarrow> Some (Returned p evs)
    | Some n \<Rightarrow>
        if pl_in_progress p \<ge> n then
          (case pl_intermediate_channel_waits p of
             None \<Rightarrow> Some (Raised PyTypeError p evs)
           | Some waits \<Rightarrow>
               (case do_retrieve rd waits p evs of
                  Returned p' evs' \<Rightarrow> loop rd p' evs'
                | Raised e p' evs' \<Rightarrow> Some (Raised e p' evs')
                | Waiting p' \<Rightarrow> Some (Waiting p')))
        else Some (Returned p evs)) = Some r"
  show "rest_within r evs"
  proof (cases "\<exists>n waits. pl_n_channels p = Some n \<and> pl_in_progress p \<ge> n \<and> pl_intermediate_channel_waits p = Some waits")
    case True
    then obtain waits where w: "(case do_retrieve rd waits p evs of
        Returned p' evs' \<Rightarrow> loop rd p' evs' | Raised e p' evs' \<Rightarrow> Some (Raised e p' evs')
      | Waiting p' \<Rightarrow> Some (Waiting p')) = Some r" using r by auto
    then show ?thesis
      using do_retrieve_rest [of rd waits p evs]
      by (cases "do_retrieve rd waits p evs") (auto intro: rest_within_trans [OF ih])
  qed (use r in \<open>auto split: option.splits if_splits\<close>)
qed

lemma finish_rest: "finish rd p evs = Some r \<Longrightarrow> rest_within r evs"
  using do_retrieve_rest [of rd 0 p evs] by (auto simp: finish_eq split: if_splits)

lemma send_request_rest:
  assumes "send_request rd ready req callback error_callback p s evs = Some r"
  shows "rest_within r evs"
proof -
  obtain d where d: "drain rd (measure_channels ready p) evs = Some d"
    using assms by (auto simp: send_request_def split: option.splits)
  show ?thesis
    using drain_rest [OF d] assms d
    by (cases d) (auto simp: send_request_def get_next_sequence_number_def split: prod.splits option.splits)
qed

text \<open>The same for the events of all connections.\<close>

definition net_suffix :: "net \<Rightarrow> net \<Rightarrow> bool" where
  "net_suffix nt' nt \<longleftrightarrow> (\<forall>i. suffix (net_events nt' i) (net_events nt i))"

lemma net_suffix_refl [simp]: "net_suffix nt nt"
  by (simp add: net_suffix_def)

lemma net_suffix_trans: "net_suffix c b \<Longrightarrow> net_suffix b a \<Longrightarrow> net_suffix c a"
  unfolding net_suffix_def by (meson suffix_order.trans)

lemma net_suffix_one:
  "suffix evs (net_events nt i) \<Longrightarrow> net_events nt' = (net_events nt)(i := evs) \<Longrightarrow> net_suffix nt' nt"
  by (simp add: net_suffix_def)

primrec net_within :: "('v process, net) presult \<Rightarrow> net \<Rightarrow> bool" where
  "net_within (Done pr nt') nt \<longleftrightarrow> net_suffix nt' nt"
| "net_within (Fails e pr nt') nt \<longleftrightarrow> net_suffix nt' nt"
| "net_within (Blocks pr) nt \<longleftrightarrow> True"

lemma net_within_trans: "net_within r nt' \<Longrightarrow> net_suffix nt' nt \<Longrightarrow> net_within r nt"
  by (cases r) (auto intro: net_suffix_trans)

lemma proc_send_request_rest:
  assumes "proc_send_request rd req callback pr nt = Some r"
  shows "net_within r nt"
proof -
  obtain i sel where i: "get_next_connection (pr_selector pr) req = (i, sel)" by fastforce
  obtain out where s: "send_request rd False req callback receive_error (pipeline_for i pr)
      (net_next_sequence nt) (net_events nt i) = Some out"
    using assms i by (auto simp: proc_send_request_def Let_def split: option.splits)
  show ?thesis
    using send_request_rest [OF s] assms i s
    by (cases out) (auto simp: proc_send_request_def Let_def intro!: net_suffix_one)
qed

lemma finish_all_rest: "finish_all rd is pr nt = Some r \<Longrightarrow> net_within r nt"
proof (induction "is" arbitrary: pr nt)
  case (Cons i "is")
  obtain out where f: "finish rd (pipeline_for i pr) (net_events nt i) = Some out"
    using Cons.prems by (auto split: option.splits)
  show ?case
  proof (cases out)
    case (Returned p evs)
    then have "net_suffix (nt\<lparr>net_events := (net_events nt)(i := evs)\<rparr>) nt"
      using finish_rest [OF f] by (auto intro: net_suffix_one)
    moreover have "net_within r (nt\<lparr>net_events := (net_events nt)(i := evs)\<rparr>)"
      using Cons f Returned by simp
    ultimately show ?thesis by (rule net_within_trans [rotated])
  qed (use Cons.prems f finish_rest [OF f] in \<open>auto intro!: net_suffix_one\<close>)
qed auto

lemma phase_rest:
  assumes "collect_responses rd (proc_send_request rd req callback pr nt) = Some r"
  shows "net_within r nt"
proof -
  obtain r1 where r1: "proc_send_request rd req callback pr nt = Some r1"
    using assms by (auto simp: collect_responses_def split: option.splits)
  note w = proc_send_request_rest [OF r1]
  show ?thesis
  proof (cases r1)
    case (Done pr1 nt1)
    obtain r2 where r2: "proc_finish rd pr1 nt1 = Some r2"
      using assms r1 Done by (auto simp: collect_responses_def split: option.splits)
    have "net_within r2 nt1" using finish_all_rest r2 unfolding proc_finish_def by blast
    then have "net_within r nt1"
      using assms r1 r2 Done by (cases r2) (auto simp: collect_responses_def split: option.splits)
    then show ?thesis using w Done net_within_trans by auto
  qed (use assms r1 w in \<open>auto simp: collect_responses_def\<close>)
qed

subsection \<open>Nothing depends on later events\<close>

lemma do_retrieve_local:
  "do_retrieve rd n p evs = Returned p' evs' \<Longrightarrow>
     \<exists>used. evs = used @ evs' \<and> (\<forall>rest. do_retrieve rd n p (used @ rest) = Returned p' rest)"
proof (induction evs arbitrary: p)
  case Nil
  then have "p' = p" "evs' = []" "\<not> pl_in_progress p > n" by (auto split: if_splits)
  moreover from this have "do_retrieve rd n p rest = Returned p rest" for rest by (cases rest) simp_all
  ultimately show ?case by simp
next
  case (Cons ev evs)
  show ?case
  proof (cases "pl_in_progress p > n")
    case False
    then have "do_retrieve rd n p rest = Returned p rest" for rest by (cases rest) simp_all
    then show ?thesis using Cons.prems False by (intro exI [of _ "[]"]) auto
  next
    case True
    obtain q where q: "retrieve_step rd ev p = (q, None)" "do_retrieve rd n q evs = Returned p' evs'"
      using Cons.prems True by (auto split: prod.splits option.splits)
    obtain used where "evs = used @ evs'" "\<forall>rest. do_retrieve rd n q (used @ rest) = Returned p' rest"
      using Cons.IH [OF q(2)] by blast
    then show ?thesis using True q(1) by (intro exI [of _ "ev # used"]) simp
  qed
qed

lemma drain_local:
  assumes "drain rd p evs = Some (Returned p' evs')"
  shows "\<exists>used. evs = used @ evs' \<and> (\<forall>rest. drain rd p (used @ rest) = Some (Returned p' rest))"
proof -
  have "\<forall>p' evs'. r = Returned p' evs' \<longrightarrow>
      (\<exists>used. evs = used @ evs' \<and> (\<forall>rest. drain rd p (used @ rest) = Some (Returned p' rest)))"
    if "drain rd p evs = Some r" for r
  proof (rule drain.raw_induct [where P = "\<lambda>rd p evs r. \<forall>p' evs'. r = Returned p' evs' \<longrightarrow>
      (\<exists>used. evs = used @ evs' \<and> (\<forall>rest. drain rd p (used @ rest) = Some (Returned p' rest)))", OF _ that], intro allI impI)
    fix loop rd p evs r p' evs'
    assume ih: "\<And>rd (p :: 'a pipeline) evs r. loop rd p evs = Some r \<Longrightarrow> \<forall>p' evs'. r = Returned p' evs' \<longrightarrow>
        (\<exists>used. evs = used @ evs' \<and> (\<forall>rest. drain rd p (used @ rest) = Some (Returned p' rest)))"
      and r: "(case pl_n_channels p of
        None \<Rightarrow> Some (Returned p evs)
      | Some n \<Rightarrow>
          if pl_in_progress p \<ge> n then
            (case pl_intermediate_channel_waits p of
               None \<Rightarrow> Some (Raised PyTypeError p evs)
             | Some waits \<Rightarrow>
                 (case do_retrieve rd waits p evs of
                    Returned p' evs' \<Rightarrow> loop rd p' evs'
                  | Raised e p' evs' \<Rightarrow> Some (Raised e p' evs')
                  | Waiting p' \<Rightarrow> Some (Waiting p')))
          else Some (Returned p evs)) = Some r"
      and ret: "r = Returned p' evs'"
    show "\<exists>used. evs = used @ evs' \<and> (\<forall>rest. drain rd p (used @ rest) = Some (Returned p' rest))"
    proof (cases "\<exists>n. pl_n_channels p = Some n \<and> pl_in_progress p \<ge> n")
      case False
      then have "p' = p" "evs' = evs" "drain rd p rest = Some (Returned p rest)" for rest
        using r ret by (auto simp: drain.simps [of rd p] split: option.splits if_splits)
      then show ?thesis by (intro exI [of _ "[]"]) simp
    next
      case True
      then obtain n waits q evs1 where w: "pl_n_channels p = Some n" "pl_in_progress p \<ge> n"
        "pl_intermediate_channel_waits p = Some waits" "do_retrieve rd waits p evs = Returned q evs1"
        and l: "loop rd q evs1 = Some r"
        using r ret by (auto split: option.splits outcome.splits)
      obtain used1 where u1: "evs = used1 @ evs1" "\<forall>rest. do_retrieve rd waits p (used1 @ rest) = Returned q rest"
        using do_retrieve_local [OF w(4)] by blast
      obtain used2 where u2: "evs1 = used2 @ evs'" "\<forall>rest. drain rd q (used2 @ rest) = Some (Returned p' rest)"
        using ih [OF l] ret by blast
      have "drain rd p (used1 @ used2 @ rest) = Some (Returned p' rest)" for rest
        using w u1(2) u2(2) by (subst drain.simps) simp
      then show ?thesis using u1(1) u2(1) by (intro exI [of _ "used1 @ used2"]) simp
    qed
  qed
  then show ?thesis using assms by blast
qed

lemma finish_local:
  "finish rd p evs = Some (Returned p' evs') \<Longrightarrow>
     \<exists>used. evs = used @ evs' \<and> (\<forall>rest. finish rd p (used @ rest) = Some (Returned p' rest))"
  using do_retrieve_local [of rd 0 p evs p' evs'] by (auto simp: finish_eq split: if_splits intro: exI [of _ "[]"])

lemma send_request_local:
  assumes "send_request rd ready req callback error_callback p s evs = Some (Returned x evs')"
  shows "\<exists>used. evs = used @ evs' \<and>
    (\<forall>rest. send_request rd ready req callback error_callback p s (used @ rest) = Some (Returned x rest))"
proof -
  obtain q where q: "drain rd (measure_channels ready p) evs = Some (Returned q evs')"
    using assms by (auto simp: send_request_def get_next_sequence_number_def split: option.splits outcome.splits prod.splits)
  obtain used where "evs = used @ evs'" "\<forall>rest. drain rd (measure_channels ready p) (used @ rest) = Some (Returned q rest)"
    using drain_local [OF q] by blast
  then show ?thesis
    using assms q by (intro exI [of _ used]) (auto simp: send_request_def get_next_sequence_number_def split: prod.splits option.splits)
qed

text \<open>
  A process that sends one request over connection \<open>i\<close> and returns takes events from this connection only, and
  would have done the same had no others come.
\<close>

lemma single_exchange:
  assumes "fresh pr" and i: "fst (get_next_connection (pr_selector pr) req) = i"
    and run: "collect_responses rd (proc_send_request rd req callback pr nt) = Some (Done pr' nt')"
  shows "map fst (pr_pipelines pr') = [i] \<and> (\<exists>used. net_events nt i = used @ net_events nt' i \<and>
    collect_responses rd (proc_send_request rd req callback pr (nt\<lparr>net_events := (\<lambda>_. [])(i := used)\<rparr>)) =
      Some (Done pr' (nt'\<lparr>net_events := \<lambda>_. []\<rparr>)))"
proof -
  obtain sel where sel: "get_next_connection (pr_selector pr) req = (i, sel)" using i by (metis prod.collapse)
  obtain pr1 nt1 where one: "proc_send_request rd req callback pr nt = Some (Done pr1 nt1)"
    and coll: "collect_responses rd (Some (Done pr1 nt1)) = Some (Done pr' nt')"
    using collect_responses_started [OF run] by blast
  obtain p sq evs where s: "send_request rd False req callback receive_error (pipeline_for i pr)
      (net_next_sequence nt) (net_events nt i) = Some (Returned (p, sq) evs)"
    and pr1: "pr1 = store_pipeline i p (pr\<lparr>pr_selector := sel\<rparr>)"
    and nt1: "nt1 = \<lparr>net_events = (net_events nt)(i := evs), net_next_sequence = sq\<rparr>"
    using one sel by (auto simp: proc_send_request_def Let_def split: option.splits outcome.splits)
  have pipes: "map fst (pr_pipelines pr1) = [i]" using assms(1) by (simp add: pr1 store_pipeline_def fresh_def)
  then obtain q evs' where f: "finish rd (pipeline_for i pr1) evs = Some (Returned q evs')"
    and pr': "pr' = store_pipeline i q pr1" and nt': "nt' = nt1\<lparr>net_events := (net_events nt)(i := evs')\<rparr>"
    and ok: "check_for_error pr' = None"
    using coll by (auto simp: collect_responses_def proc_finish_def nt1 split: option.splits outcome.splits presult.splits)
  obtain u1 where u1: "net_events nt i = u1 @ evs" "\<And>rest. send_request rd False req callback receive_error (pipeline_for i pr)
      (net_next_sequence nt) (u1 @ rest) = Some (Returned (p, sq) rest)"
    using send_request_local [OF s] by blast
  obtain u2 where u2: "evs = u2 @ evs'" "\<And>rest. finish rd (pipeline_for i pr1) (u2 @ rest) = Some (Returned q rest)"
    using finish_local [OF f] by blast
  have one': "proc_send_request rd req callback pr (nt\<lparr>net_events := (\<lambda>_. [])(i := u1 @ u2)\<rparr>) =
      Some (Done pr1 \<lparr>net_events = (\<lambda>_. [])(i := u2), net_next_sequence = sq\<rparr>)"
    using sel u1(2) by (simp add: proc_send_request_def Let_def pr1)
  have "map fst (pr_pipelines pr') = [i]" using pipes by (auto simp: pr' store_pipeline_def)
  moreover have "collect_responses rd (proc_send_request rd req callback pr (nt\<lparr>net_events := (\<lambda>_. [])(i := u1 @ u2)\<rparr>)) =
      Some (Done pr' (nt'\<lparr>net_events := \<lambda>_. []\<rparr>))"
    using ok u2(2) [of "[]"] unfolding one'
    by (simp add: collect_responses_def proc_finish_def pipes pr' nt' nt1 fun_upd_idem)
  moreover have "net_events nt i = (u1 @ u2) @ net_events nt' i" using u1(1) u2(1) by (simp add: nt')
  ultimately show ?thesis by blast
qed

text \<open>The response of a process with one request is in an event that it took, under the number of a datagram it sent.\<close>

definition exchanged ::
  "reader \<Rightarrow> scp_request \<Rightarrow> bytes list \<Rightarrow> recv list \<Rightarrow> response \<Rightarrow> bool" where
  "exchanged rd req datagrams evs r \<longleftrightarrow>
     (\<exists>bs \<in> set datagrams. wire (dg_sequence bs) req bs \<and>
       (\<exists>ev \<in> set evs. case receive_scp_response ev of
          Inl e \<Rightarrow> False
        | Inr (result, s, raw, off) \<Rightarrow> s = dg_sequence bs \<and> rd (req_response req) raw off = Inr r))"

lemma wire_number: "wire s req bs \<Longrightarrow> 0 \<le> s \<and> s < 65536 \<and> wire (dg_sequence bs) req bs"
proof -
  assume w: "wire s req bs"
  have "dg_sequence bs < 256 ^ length (take 2 (drop 12 bs))" unfolding dg_sequence_def by (rule le_val_lt)
  also have "(256 :: int) ^ length (take 2 (drop 12 bs)) \<le> 256 ^ 2" by (rule power_increasing) simp_all
  finally show ?thesis using wire_fields(1) [OF w] w by (auto simp: dg_sequence_def)
qed

lemma single_response:
  assumes "fresh pr" and i: "fst (get_next_connection (pr_selector pr) req) = i"
    and run: "collect_responses rd (proc_send_request rd req (Some f) pr nt) = Some (Done pr' nt')"
    and client: "\<And>Q. single_client f (\<lambda>_. True) (P Q) Q"
  shows "\<exists>used. net_events nt i = used @ net_events nt' i \<and>
    P (exchanged rd req (drop (length (log_of i pr)) (log_of i pr')) used) (cl_user (pr_client pr'))"
proof -
  let ?sq = "net_next_sequence nt" and ?kd = "req_response req"
  obtain used where pipes: "map fst (pr_pipelines pr') = [i]" and used: "net_events nt i = used @ net_events nt' i"
    and short: "collect_responses rd (proc_send_request rd req (Some f) pr (nt\<lparr>net_events := (\<lambda>_. [])(i := used)\<rparr>)) =
      Some (Done pr' (nt'\<lparr>net_events := \<lambda>_. []\<rparr>))"
    using single_exchange [OF assms(1) i run] by (elim conjE exE) (erule (2) that)
  obtain pr1 nt1 where one: "proc_send_request rd req (Some f) pr nt = Some (Done pr1 nt1)"
    and coll: "collect_responses rd (Some (Done pr1 nt1)) = Some (Done pr' nt')"
    using collect_responses_started [OF run] by blast
  have p: "process_stores UNIV pr" by (rule idle_stores [OF fresh_idle [OF assms(1)]])
  have w: "process_sends UNIV pr pr1" and "\<exists>bs \<in> set (sent pr pr1). wire ?sq req bs"
    using proc_send_request_sends [OF one p] by simp_all
  moreover have "process_sends UNIV pr1 pr'" using collect_responses_sends [OF coll process_sends_stores [OF w]] by simp
  ultimately obtain bs where bs: "bs \<in> set (sent pr pr')" "wire ?sq req bs" using sent_extends(1) [OF w] by blast
  have log: "bs \<in> set (drop (length (log_of i pr)) (log_of i pr'))" using bs(1) by (simp add: sent_def pipes)
  let ?Q = "exchanged rd req (drop (length (log_of i pr)) (log_of i pr')) used"
  have "reply_ok rd ?kd (single_right ?Q ?sq) ev" if "ev \<in> set used" for ev
    using that log wire_fields(1) [OF bs(2)] wire_number [OF bs(2)]
    by (auto simp: reply_ok_def single_right_def exchanged_def split: sum.split intro!: bexI [of _ bs] bexI [of _ ev])
  then have h: "list_all (reply_ok rd ?kd (single_right ?Q ?sq)) (net_events (nt\<lparr>net_events := (\<lambda>_. [])(i := used)\<rparr>) j)" for j
    by (simp add: list_all_iff)
  have "net_next_sequence (nt\<lparr>net_events := (\<lambda>_. [])(i := used)\<rparr>) = ?sq" by simp
  then have "P ?Q (cl_user (pr_client pr'))"
    using single_client.single_phase [OF client assms(1) TrueI h _ _ _ refl short] wire_number [OF bs(2)] by simp
  then show ?thesis using used by blast
qed

end
