(* ===== verification/Heard.thy ===== *)
theory Heard
  imports TransceiverInv Consumed
begin

text \<open>
  What the statements of the transceiver do to the outside: the sockets send more and more, events are taken from
  the front, and the version that a search for SCAMP returns is in an event that came, during this search, as the
  reply to a datagram that was sent in it over one of the SCAMP connections.
\<close>

subsection \<open>The sockets after a process\<close>

lemma store_pipeline_connections [simp]: "pr_connections (store_pipeline i p pr) = pr_connections pr"
  by (simp add: store_pipeline_def)

lemma proc_send_request_connections:
  "proc_send_request rd req callback pr nt = Some r \<Longrightarrow> pr_connections (end_state r) = pr_connections pr"
  by (auto simp: proc_send_request_def Let_def split: prod.splits option.splits outcome.splits)

lemma finish_all_connections:
  "finish_all rd is pr nt = Some r \<Longrightarrow> pr_connections (end_state r) = pr_connections pr"
proof (induction "is" arbitrary: pr nt)
  case (Cons i "is")
  obtain out where f: "finish rd (pipeline_for i pr) (net_events nt i) = Some out"
    using Cons.prems by (auto split: option.splits)
  show ?case
  proof (cases out)
    case (Returned p evs)
    then have "finish_all rd is (store_pipeline i p pr) (nt\<lparr>net_events := (net_events nt)(i := evs)\<rparr>) = Some r"
      using Cons.prems f by simp
    from Cons.IH [OF this] show ?thesis by simp
  qed (use Cons.prems f in auto)
qed auto

lemma phase_moves:
  assumes "collect_responses rd (proc_send_request rd req callback pr nt) = Some r" and "fresh pr"
  shows "net_within r nt \<and> process_sends UNIV pr (end_state r) \<and> pr_connections (end_state r) = pr_connections pr"
proof -
  obtain r1 where r1: "proc_send_request rd req callback pr nt = Some r1"
    using assms(1) by (auto simp: collect_responses_def split: option.splits)
  have w: "process_sends UNIV pr (end_state r1)"
    using proc_send_request_sends [OF r1 idle_stores [OF fresh_idle [OF assms(2)]]] by simp
  note c = proc_send_request_connections [OF r1]
  have "process_sends UNIV pr (end_state r) \<and> pr_connections (end_state r) = pr_connections pr"
  proof (cases r1)
    case (Done pr1 nt1)
    then have coll: "collect_responses rd (Some (Done pr1 nt1)) = Some r" using assms(1) r1 by simp
    have w1: "process_sends UNIV pr pr1" using w Done by simp
    have "process_sends UNIV pr1 (end_state r)"
      by (rule collect_responses_sends [OF coll process_sends_stores [OF w1]])
    moreover have "pr_connections (end_state r) = pr_connections pr1"
    proof -
      obtain r2 where r2: "finish_all rd (map fst (pr_pipelines pr1)) pr1 nt1 = Some r2"
        using coll by (auto simp: collect_responses_def proc_finish_def split: option.splits)
      have "end_state r = end_state r2"
        using coll r2 by (cases r2) (auto simp: collect_responses_def proc_finish_def split: option.splits)
      then show ?thesis using finish_all_connections [OF r2] by simp
    qed
    ultimately show ?thesis using process_sends_trans [OF w1] c Done by simp
  qed (use assms(1) r1 w c in \<open>auto simp: collect_responses_def\<close>)
  then show ?thesis using phase_rest [OF assms(1)] by simp
qed

definition socket_log :: "transceiver \<Rightarrow> nat \<Rightarrow> bytes list" where
  "socket_log t i = conn_attempts (tx_pool t ! i)"

lemma log_process_init: "log_of i (process_init (tx_pool t) sel a b c d u) = socket_log t i"
  by (simp add: log_of_def socket_log_def pipeline_for_def process_init_def pipeline_init_def)

lemma log_pool_after: "i < length (pr_connections pr) \<Longrightarrow> socket_log (pool_after pr t) i = log_of i pr"
  by (simp add: socket_log_def log_of_def pool_after_def connections_after_def connection_of_def pipeline_for_def
      pipeline_init_def split: option.split)

subsection \<open>Later states\<close>

definition onward :: "transceiver \<Rightarrow> net \<Rightarrow> transceiver \<Rightarrow> net \<Rightarrow> bool" where
  "onward t nt t' nt' \<longleftrightarrow> net_suffix nt' nt \<and> length (tx_pool t') = length (tx_pool t) \<and>
     (\<forall>i < length (tx_pool t). prefix (socket_log t i) (socket_log t' i)) \<and> tx_selector t' = tx_selector t"

lemma onward_refl [simp]: "onward t nt t nt"
  by (simp add: onward_def)

lemma onward_trans: "onward a na b nb \<Longrightarrow> onward b nb c nc \<Longrightarrow> onward a na c nc"
  unfolding onward_def by (metis net_suffix_trans prefix_order.trans)

lemma onward_same: "tx_pool t' = tx_pool t \<Longrightarrow> tx_selector t' = tx_selector t \<Longrightarrow> onward t nt t' nt"
  by (simp add: onward_def socket_log_def)

lemma onward_process:
  assumes "net_within r nt" and "process_sends UNIV (process_init (tx_pool t) sel a b c d u) (end_state r)"
    and "pr_connections (end_state r) = tx_pool t"
  shows "case r of Done pr nt' \<Rightarrow> onward t nt (pool_after pr t) nt' | Fails e pr nt' \<Rightarrow> onward t nt (pool_after pr t) nt'
    | Blocks pr \<Rightarrow> True"
proof -
  have "prefix (socket_log t i) (socket_log (pool_after (end_state r) t) i)" if "i < length (tx_pool t)" for i
  proof -
    obtain new where "log_of i (end_state r) = socket_log t i @ new"
      using assms(2) unfolding process_sends_def adds_sent_def log_process_init by blast
    then show ?thesis using assms(3) that by (simp add: log_pool_after)
  qed
  then show ?thesis
    using assms(1,3) by (cases r) (auto simp: onward_def pool_after_def connections_after_def)
qed

primrec res_later :: "'a tres \<Rightarrow> transceiver \<Rightarrow> net \<Rightarrow> bool" where
  "res_later (TxDone x t' nt') t nt \<longleftrightarrow> onward t nt t' nt'"
| "res_later (TxRaise e t' nt') t nt \<longleftrightarrow> onward t nt t' nt'"
| "res_later (TxBlock t') t nt \<longleftrightarrow> True"

definition moves :: "'a tx \<Rightarrow> bool" where
  "moves m \<longleftrightarrow> (\<forall>t nt r. m t nt = Some r \<longrightarrow> res_later r t nt)"

named_theorems move_rules

lemma movesI: "(\<And>t nt r. m t nt = Some r \<Longrightarrow> res_later r t nt) \<Longrightarrow> moves m"
  by (simp add: moves_def)

lemma movesD: "moves m \<Longrightarrow> m t nt = Some r \<Longrightarrow> res_later r t nt"
  by (simp add: moves_def)

lemma res_later_trans: "res_later r t' nt' \<Longrightarrow> onward t nt t' nt' \<Longrightarrow> res_later r t nt"
  by (cases r) (auto intro: onward_trans)

lemma moves_return [move_rules]: "moves (tx_return x)"
  by (auto simp: moves_def tx_return_def)

lemma moves_raise [move_rules]: "moves (tx_raise e)"
  by (auto simp: moves_def tx_raise_def)

lemma moves_get [move_rules]: "moves (tx_get f)"
  by (auto simp: moves_def tx_get_def)

lemma moves_modify: "(\<And>t. tx_pool (f t) = tx_pool t \<and> tx_selector (f t) = tx_selector t) \<Longrightarrow> moves (tx_modify f)"
  by (auto simp: moves_def tx_modify_def intro: onward_same)

lemma moves_res [move_rules]: "moves (tx_res r)"
  by (cases r) (simp_all add: tx_res_def move_rules)

lemma moves_bind [move_rules]:
  assumes "moves m" and "\<And>x. moves (f x)"
  shows "moves (tx_bind m f)"
proof (rule movesI)
  fix t nt r assume run: "tx_bind m f t nt = Some r"
  then obtain s where s: "m t nt = Some s" by (auto simp: tx_bind_def split: option.splits)
  show "res_later r t nt"
    using movesD [OF assms(1) s] run s
    by (cases s) (auto simp: tx_bind_def intro: res_later_trans [OF movesD [OF assms(2)]])
qed

lemma moves_catch [move_rules]:
  assumes "moves m" and "\<And>e. moves (h e)"
  shows "moves (tx_catch m h)"
proof (rule movesI)
  fix t nt r assume run: "tx_catch m h t nt = Some r"
  then obtain s where s: "m t nt = Some s" by (auto simp: tx_catch_def split: option.splits)
  show "res_later r t nt"
    using movesD [OF assms(1) s] run s
    by (cases s) (auto simp: tx_catch_def intro: res_later_trans [OF movesD [OF assms(2)]])
qed

lemma moves_each: "(\<And>x. x \<in> set xs \<Longrightarrow> moves (f x)) \<Longrightarrow> moves (tx_each f xs)"
  by (induction xs) (auto intro: move_rules)

subsection \<open>The statements of a creation\<close>

lemma moves_process:
  assumes "\<And>pr nt r. fresh pr \<Longrightarrow> body pr nt = Some r \<Longrightarrow>
    net_within r nt \<and> process_sends UNIV pr (end_state r) \<and> pr_connections (end_state r) = pr_connections pr"
  shows "moves (run_process sel n non_fail user body)"
proof (rule movesI)
  fix t nt r assume run: "run_process sel n non_fail user body t nt = Some r"
  let ?pr = "process_init (tx_pool t) sel n 8 7 non_fail user"
  obtain s where s: "body ?pr nt = Some s" using run by (auto simp: run_process_def run_channels_def split: option.splits)
  have "fresh ?pr" by (simp add: fresh_def process_init_def)
  from assms [OF this s] have "case s of Done pr nt' \<Rightarrow> onward t nt (pool_after pr t) nt'
      | Fails e pr nt' \<Rightarrow> onward t nt (pool_after pr t) nt' | Blocks pr \<Rightarrow> True"
    by (intro onward_process) (auto simp: process_init_def)
  then show "res_later r t nt" using run s by (cases s) (auto simp: run_process_def run_channels_def)
qed

lemma single_body_moves:
  assumes "fresh pr" and "and_then (collect_responses rd (proc_send_request rd req callback pr nt))
      (\<lambda>pr' nt'. case cl_user (pr_client pr') of None \<Rightarrow> Some (Fails e pr' nt') | Some x \<Rightarrow> Some (Done pr' nt')) = Some r"
  shows "net_within r nt \<and> process_sends UNIV pr (end_state r) \<and> pr_connections (end_state r) = pr_connections pr"
proof -
  obtain s where s: "collect_responses rd (proc_send_request rd req callback pr nt) = Some s"
    using assms(2) by (auto simp: and_then_def split: option.splits)
  show ?thesis using phase_moves [OF s assms(1)] assms(2) s by (cases s) (auto simp: and_then_def split: option.splits)
qed

lemma send_single_moves [move_rules]: "moves (send_single en sel n req)"
  unfolding send_single_def
  by (intro moves_bind moves_process move_rules) (rule single_body_moves, assumption, simp only: execute_single_def)

lemma version_on_moves [move_rules]: "moves (version_on en x y sel n)"
  unfolding version_on_def
  by (intro moves_bind moves_process move_rules) (rule single_body_moves, assumption, simp only: get_version_process_def)

lemma scamp_version_moves [move_rules]: "moves (get_scamp_version en n)"
  unfolding get_scamp_version_def by (intro move_rules)

lemma call_moves [move_rules]: "moves (tx_command en req)"
  unfolding tx_command_def tx_call_def by (intro move_rules)

lemma check_bmp_moves [move_rules]: "moves (check_bmp_connection en)"
  unfolding check_bmp_connection_def by (auto intro!: move_rules split: option.split)

lemma power_moves [move_rules]: "moves (tx_power en command)"
  unfolding tx_power_def bmp_call_def by (auto intro!: move_rules moves_modify split: option.split)

lemma check_connection_moves [move_rules]: "moves (check_connection en i n)"
proof (induction n)
  case (Suc n)
  have "moves (check_connection_step en i)"
    unfolding check_connection_step_def by (auto intro!: move_rules split: response.split exc.split)
  then show ?case using Suc by (auto intro!: move_rules split: option.split)
qed (simp add: move_rules)

lemma set_time_out_moves [move_rules]: "moves (set_time_out en i)"
  unfolding set_time_out_def add_udp_connection_def by (auto intro!: move_rules moves_modify split: option.split)

lemma send_boot_log:
  "send_boot_messages c ms = (c', e) \<Longrightarrow> prefix (conn_attempts c) (conn_attempts c')"
proof (induction ms arbitrary: c)
  case (Cons m ms)
  obtain c1 e1 where one: "send_boot_message c m = (c1, e1)" by fastforce
  then have "prefix (conn_attempts c) (conn_attempts c1)"
    by (auto simp: send_boot_message_def conn_send_def split: sum.splits)
  then show ?case using Cons one by (cases e1) (auto intro: prefix_order.trans)
qed auto

lemma boot_moves [move_rules]: "moves (boot_board en extra)"
proof -
  have "moves (send_boot i ms)" for i ms
  proof (rule movesI)
    fix t nt r assume run: "send_boot i ms t nt = Some r"
    obtain c e where c: "send_boot_messages (tx_pool t ! i) ms = (c, e)" by fastforce
    have "prefix (conn_attempts (tx_pool t ! j)) (conn_attempts ((tx_pool t)[i := c] ! j))" if "j < length (tx_pool t)" for j
      using send_boot_log [OF c] that by (cases "j = i") simp_all
    then have "onward t nt (t\<lparr>tx_pool := (tx_pool t)[i := c]\<rparr>) nt" by (simp add: onward_def socket_log_def)
    then show "res_later r t nt" using run c by (cases e) (auto simp: send_boot_def)
  qed
  then show ?thesis unfolding boot_board_def Let_def by (auto intro!: move_rules split: option.split)
qed

subsection \<open>The search for SCAMP\<close>

text \<open>
  A version that was heard between two states: it is in an event that was taken from one of the connections \<open>S\<close>, as the
  response to a version request that was sent over this connection in the meantime.
\<close>

definition heard ::
  "env \<Rightarrow> nat set \<Rightarrow> transceiver \<Rightarrow> net \<Rightarrow> transceiver \<Rightarrow> net \<Rightarrow> version_info \<Rightarrow> bool" where
  "heard en S t nt t' nt' v \<longleftrightarrow>
     (\<exists>i \<in> S. i < length (tx_pool t) \<and> (\<exists>used. net_events nt i = used @ net_events nt' i \<and>
        exchanged (env_reader en) (get_version DEFAULT_DEST_X_COORD DEFAULT_DEST_Y_COORD 0)
          (drop (length (socket_log t i)) (socket_log t' i)) used (RspVersion v)))"

lemma exchanged_mono:
  "exchanged rd req ds evs r \<Longrightarrow> set ds \<subseteq> set ds' \<Longrightarrow> set evs \<subseteq> set evs' \<Longrightarrow> exchanged rd req ds' evs' r"
  unfolding exchanged_def by blast

lemma heard_before:
  assumes h: "heard en S b nb c nc v" and ab: "onward a na b nb"
  shows "heard en S a na c nc v"
proof -
  obtain i used where i: "i \<in> S" "i < length (tx_pool b)" "net_events nb i = used @ net_events nc i"
    and e: "exchanged (env_reader en) (get_version DEFAULT_DEST_X_COORD DEFAULT_DEST_Y_COORD 0)
      (drop (length (socket_log b i)) (socket_log c i)) used (RspVersion v)"
    using h unfolding heard_def by blast
  have n: "i < length (tx_pool a)" using i(2) ab by (simp add: onward_def)
  then have l: "length (socket_log a i) \<le> length (socket_log b i)" using ab by (simp add: onward_def prefix_length_le)
  obtain p where ev: "net_events na i = p @ net_events nb i" using ab unfolding onward_def net_suffix_def suffix_def by metis
  have "exchanged (env_reader en) (get_version DEFAULT_DEST_X_COORD DEFAULT_DEST_Y_COORD 0)
      (drop (length (socket_log a i)) (socket_log c i)) (p @ used) (RspVersion v)"
    by (rule exchanged_mono [OF e]) (simp_all add: set_drop_subset_set_drop l)
  then show ?thesis using i n ev unfolding heard_def by (metis append.assoc)
qed

lemma heard_after:
  assumes h: "heard en S b nb c nc v" and cd: "onward c nc d nd" and n: "length (tx_pool c) = length (tx_pool b)"
  shows "heard en S b nb d nd v"
proof -
  obtain i used where i: "i \<in> S" "i < length (tx_pool b)" "net_events nb i = used @ net_events nc i"
    and e: "exchanged (env_reader en) (get_version DEFAULT_DEST_X_COORD DEFAULT_DEST_Y_COORD 0)
      (drop (length (socket_log b i)) (socket_log c i)) used (RspVersion v)"
    using h unfolding heard_def by blast
  obtain z where l: "socket_log d i = socket_log c i @ z" using cd i(2) n unfolding onward_def prefix_def by metis
  obtain q where ev: "net_events nc i = q @ net_events nd i" using cd unfolding onward_def net_suffix_def suffix_def by metis
  have "exchanged (env_reader en) (get_version DEFAULT_DEST_X_COORD DEFAULT_DEST_Y_COORD 0)
      (drop (length (socket_log b i)) (socket_log d i)) (used @ q) (RspVersion v)"
    by (rule exchanged_mono [OF e]) (auto simp: l)
  then show ?thesis using i ev unfolding heard_def by (metis append.assoc)
qed

text \<open>A selector that picks one of the connections \<open>S\<close> for every request.\<close>

definition picks_from :: "nat set \<Rightarrow> transceiver \<Rightarrow> bool" where
  "picks_from S t \<longleftrightarrow> S \<subseteq> {..<length (tx_pool t)} \<and> (\<forall>req. fst (get_next_connection (tx_selector t) req) \<in> S)"

lemma picks_from_later: "picks_from S t \<Longrightarrow> onward t nt t' nt' \<Longrightarrow> picks_from S t'"
  by (simp add: picks_from_def onward_def)

lemma version_client:
  "single_client version_handle_response (\<lambda>_. True) (\<lambda>u. \<exists>v. u = Some v \<and> Q (RspVersion v)) Q"
  by unfold_locales (auto simp: version_handle_response_def split: response.splits)

lemma version_heard:
  assumes run: "get_scamp_version en n t nt = Some (TxDone v t' nt')" and S: "picks_from S t"
  shows "heard en S t nt t' nt' v"
proof -
  let ?req = "get_version DEFAULT_DEST_X_COORD DEFAULT_DEST_Y_COORD 0" and ?rd = "env_reader en"
    and ?pr = "process_init (tx_pool t) (tx_selector t) n 8 7 None (None :: version_info option)"
  define i where "i = fst (get_next_connection (pr_selector ?pr) ?req)"
  have i: "i \<in> S" "i < length (tx_pool t)" using S by (auto simp: picks_from_def i_def process_init_def)
  have fresh: "fresh ?pr" by (simp add: fresh_def process_init_def)
  obtain pr where coll: "collect_responses ?rd (proc_send_request ?rd ?req (Some version_handle_response) ?pr nt) = Some (Done pr nt')"
    and v: "cl_user (pr_client pr) = Some v" and t': "t' = pool_after pr t"
    using run by (auto simp: get_scamp_version_def version_on_def tx_bind_def tx_get_def run_process_def run_channels_def
        get_version_process_def and_then_def tx_res_def require_def tx_return_def tx_raise_def
        split: option.splits presult.splits tres.splits sum.splits)
  have "pr_connections pr = tx_pool t" using phase_moves [OF coll fresh] by (simp add: process_init_def)
  then have "socket_log t' i = log_of i pr" using i(2) by (simp add: t' log_pool_after)
  moreover obtain used where "net_events nt i = used @ net_events nt' i"
    "exchanged ?rd ?req (drop (length (log_of i ?pr)) (log_of i pr)) used (RspVersion v)"
    using single_response [OF fresh i_def [symmetric] coll, where P = "\<lambda>Q u. \<exists>v. u = Some v \<and> Q (RspVersion v)",
        OF version_client] v by auto
  ultimately show ?thesis unfolding heard_def using i by (auto simp: log_process_init)
qed

text \<open>What a search leaves behind, and what it has found.\<close>

definition search_ok ::
  "env \<Rightarrow> nat set \<Rightarrow> transceiver \<Rightarrow> net \<Rightarrow> version_info option tres \<Rightarrow> bool" where
  "search_ok en S t nt r \<longleftrightarrow> res_later r t nt \<and>
     (\<forall>v t' nt'. r = TxDone (Some v) t' nt' \<longrightarrow> heard en S t nt t' nt' v \<and> \<not> is_default_destination v)"

lemma search_ok_later:
  assumes "search_ok en S t1 nt1 r" and "onward t nt t1 nt1"
  shows "search_ok en S t nt r"
  using assms res_later_trans [of r t1 nt1 t nt] heard_before [OF _ assms(2)]
  by (cases r) (auto simp: search_ok_def)

lemma find_scamp_loop_heard:
  assumes "find_scamp_loop en extra tries t nt = Some r" and "picks_from S t"
  shows "search_ok en S t nt r"
proof -
  have "picks_from S t \<longrightarrow> search_ok en S t nt r"
  proof (rule find_scamp_loop.raw_induct [where
        P = "\<lambda>en extra tries t nt r. picks_from S t \<longrightarrow> search_ok en S t nt r", OF _ assms(1)], intro impI)
    fix loop en extra tries t nt r
    assume ih: "\<And>en extra tries t nt r. loop en extra tries t nt = Some r \<Longrightarrow> picks_from S t \<longrightarrow> search_ok en S t nt r"
      and r: "(if tries \<le> 0 then Some (TxDone None t nt)
        else case get_scamp_version en BOOT_RETRIES t nt of None \<Rightarrow> None
          | Some (TxDone v t1 nt1) \<Rightarrow>
              if is_default_destination v then loop en extra tries t1 nt1 else Some (TxDone (Some v) t1 nt1)
          | Some (TxRaise e t1 nt1) \<Rightarrow>
              (case version_failure e of
                 None \<Rightarrow> (case boot_board en extra t1 nt1 of None \<Rightarrow> None
                   | Some (TxDone u t2 nt2) \<Rightarrow> loop en extra (tries - 1) t2 nt2
                   | Some (TxRaise e' t2 nt2) \<Rightarrow> Some (TxRaise e' t2 nt2)
                   | Some (TxBlock t2) \<Rightarrow> Some (TxBlock t2))
               | Some e' \<Rightarrow> Some (TxRaise e' t1 nt1))
          | Some (TxBlock t1) \<Rightarrow> Some (TxBlock t1)) = Some r"
      and S: "picks_from S t"
    have again: "search_ok en S t nt r" if "loop en extra k t1 nt1 = Some r" "onward t nt t1 nt1" for k t1 nt1
      using ih [OF that(1)] picks_from_later [OF S that(2)] search_ok_later [OF _ that(2)] by blast
    show "search_ok en S t nt r"
    proof (cases "tries \<le> 0")
      case True
      then show ?thesis using r by (auto simp: search_ok_def)
    next
      case False
      then obtain s where s: "get_scamp_version en BOOT_RETRIES t nt = Some s" using r by (auto split: option.splits)
      note m = movesD [OF scamp_version_moves s]
      show ?thesis
      proof (cases s)
        case (TxDone v t1 nt1)
        then show ?thesis
          using r False s m again [of tries t1 nt1] version_heard [of en BOOT_RETRIES t nt v t1 nt1 S] S
          by (auto simp: search_ok_def split: if_splits)
      next
        case (TxRaise e t1 nt1)
        have l: "onward t nt t1 nt1" using m TxRaise by simp
        show ?thesis
        proof (cases "version_failure e")
          case (Some e')
          then show ?thesis using r False s TxRaise l by (auto simp: search_ok_def)
        next
          case None
          then obtain b where b: "boot_board en extra t1 nt1 = Some b" using r False s TxRaise by (auto split: option.splits)
          have lb: "res_later b t nt" by (rule res_later_trans [OF movesD [OF boot_moves b] l])
          show ?thesis using r False s TxRaise None b lb again by (cases b) (auto simp: search_ok_def)
        qed
      qed (use r False s in \<open>auto simp: search_ok_def\<close>)
    qed
  qed
  then show ?thesis using assms(2) by blast
qed

lemma find_scamp_heard:
  assumes run: "try_to_find_scamp_and_boot en tries extra t nt = Some r" and S: "picks_from S t"
  shows "search_ok en S t nt r"
proof -
  obtain s where s: "find_scamp_loop en extra tries t nt = Some s"
    using run by (auto simp: try_to_find_scamp_and_boot_def tx_bind_def split: option.splits)
  note ok = find_scamp_loop_heard [OF s S]
  show ?thesis
  proof (cases "\<exists>t1 nt1. s = TxDone None t1 nt1")
    case False
    then have "r = s" using run s
      by (cases s) (auto simp: try_to_find_scamp_and_boot_def tx_bind_def tx_return_def split: option.splits)
    then show ?thesis using ok by simp
  next
    case True
    then obtain t1 nt1 where s1: "s = TxDone None t1 nt1" by blast
    have l: "onward t nt t1 nt1" using ok s1 by (simp add: search_ok_def)
    obtain q where q: "get_scamp_version en N_RETRIES t1 nt1 = Some q"
      using run s s1 by (auto simp: try_to_find_scamp_and_boot_def tx_bind_def tx_catch_def split: option.splits)
    note m = movesD [OF scamp_version_moves q] and h = version_heard [of en N_RETRIES t1 nt1 _ _ _ S]
    have "search_ok en S t1 nt1 r"
      using run s s1 q m h picks_from_later [OF S l]
      by (cases q) (auto simp: search_ok_def try_to_find_scamp_and_boot_def tx_bind_def tx_catch_def tx_return_def tx_raise_def
          split: if_splits)
    then show ?thesis by (rule search_ok_later [OF _ l])
  qed
qed

subsection \<open>The creation\<close>

text \<open>The selector of a transceiver that starts picks SCAMP connections only.\<close>

lemma identified_scamp:
  "identify_connections ks i d = Inr d' \<Longrightarrow> j \<in> set (id_scamp d') \<Longrightarrow>
     j \<in> set (id_scamp d) \<or> (i \<le> j \<and> j - i < length ks \<and> ks ! (j - i) = SCAMPConnection)"
proof (induction ks i d rule: identify_connections.induct)
  case (2 ks i d)
  then show ?case by (force split: if_splits simp: nth_Cons' Suc_diff_Suc)
next
  case (3 boards ks i d)
  then show ?case by (force split: if_splits simp: nth_Cons' Suc_diff_Suc)
next
  case (4 ks i d)
  then show ?case by (force simp: nth_Cons' Suc_diff_Suc)
next
  case (5 ks i d)
  then show ?case by (force simp: nth_Cons' Suc_diff_Suc)
qed simp

lemma most_direct_scan_range:
  "most_direct_scan cs i m lead = (m', lead') \<Longrightarrow> snd ` set m \<subseteq> {..<i} \<Longrightarrow> (\<forall>l. lead = Some l \<longrightarrow> l < i) \<Longrightarrow>
     snd ` set m' \<subseteq> {..<i + length cs} \<and> (\<forall>l. lead' = Some l \<longrightarrow> l < i + length cs)"
proof (induction cs i m lead rule: most_direct_scan.induct)
  case (2 c cs i m lead)
  have "snd ` set (AList.update (conn_chip_x c, conn_chip_y c) i m) \<subseteq> {..<Suc i}"
    using snd_update [of "(conn_chip_x c, conn_chip_y c)" i m] "2.prems"(2) by fastforce
  then show ?case using "2.IH" "2.prems" by (force split: if_splits)
qed auto

lemma scamp_selector_picks:
  assumes "scamp_selector en t = Inr sel"
  shows "fst (get_next_connection sel req) \<in> set (tx_scamp_connections t)"
proof -
  let ?is = "tx_scamp_connections t"
  let ?cs = "map (\<lambda>i. tx_pool t ! i) ?is"
  obtain m lead where scan: "most_direct_scan ?cs 0 [] None = (m, lead)" by fastforce
  have r: "snd ` set m \<subseteq> {..<length ?is}" "\<forall>l. lead = Some l \<longrightarrow> l < length ?is"
    using most_direct_scan_range [OF scan] by simp_all
  obtain l where sel: "sel = MostDirectSelector (map (\<lambda>(k, i). (k, ?is ! i)) m) (?is ! l) (env_nearest en)" and l: "l < length ?is"
    using assms scan r(2) by (auto simp: scamp_selector_def most_direct_init_def bind_res_def split: sum.splits option.splits if_splits)
  have "?is ! i \<in> set ?is" if "(k, i) \<in> set m" for k i using that r(1) by (auto simp: image_subset_iff)
  then have "i \<in> set ?is" if "map_of (map (\<lambda>(k, i). (k, ?is ! i)) m) k = Some i" for k i
    using map_of_SomeD [OF that] by auto
  then show ?thesis using l by (auto simp: sel most_direct_next_def Let_def split: option.split)
qed

definition scamp_numbers :: "(connection_kind \<times> scp_connection) list \<Rightarrow> nat set" where
  "scamp_numbers connections = {i. i < length connections \<and> fst (connections ! i) = SCAMPConnection}"

lemma start_picks:
  assumes "transceiver_start en connections = Inr t0"
  shows "picks_from (scamp_numbers connections) t0 \<and> tx_pool t0 = map snd connections"
proof -
  obtain d where d: "identify_connections (map fst connections) 0 \<lparr>id_boot = None, id_bmp = None, id_scamp = []\<rparr> = Inr d"
    using assms by (auto simp: transceiver_start_def bind_res_def split: sum.splits)
  define t where "t = \<lparr>tx_pool = map snd connections, tx_scamp_connections = id_scamp d,
      tx_udp_scamp_connections = [], tx_bmp_connection = id_bmp d, tx_boot_send_connection = id_boot d,
      tx_selector = FixedSelector 0, tx_width = None, tx_height = None, tx_iobuf_size = None, tx_machine_off = False\<rparr>"
  then have t: "tx_pool t = map snd connections" "tx_scamp_connections t = id_scamp d"
    and sel: "scamp_selector en t = Inr (tx_selector t0)" "tx_pool t0 = tx_pool t"
    using assms d by (auto simp: transceiver_start_def bind_res_def Let_def split: sum.splits)
  have "i \<in> scamp_numbers connections" if "i \<in> set (id_scamp d)" for i
    using identified_scamp [OF d that] by (auto simp: scamp_numbers_def)
  then have "fst (get_next_connection (tx_selector t0) req) \<in> scamp_numbers connections" for req
    using scamp_selector_picks [OF sel(1)] t(2) by metis
  then show ?thesis using t(1) sel(2) by (auto simp: picks_from_def scamp_numbers_def)
qed

lemma bind_done:
  assumes "tx_bind m f t nt = Some (TxDone x t' nt')"
  obtains y t1 nt1 where "m t nt = Some (TxDone y t1 nt1)" and "f y t1 nt1 = Some (TxDone x t' nt')"
  using assms by (auto simp: tx_bind_def split: option.splits tres.splits)

lemma bind_get: "tx_bind (tx_get g) f t nt = f (g t) t nt"
  by (simp add: tx_bind_def tx_get_def)

lemma update_selector_same:
  "update_selector en t nt = Some (TxDone x t' nt') \<Longrightarrow> tx_pool t' = tx_pool t \<and> nt' = nt"
  by (cases "scamp_selector en t")
    (auto simp: update_selector_def tx_bind_def tx_get_def tx_res_def tx_raise_def tx_return_def tx_modify_def)

lemma heard_same_pool:
  "heard en S t nt t1 nt' v \<Longrightarrow> tx_pool t' = tx_pool t1 \<Longrightarrow> heard en S t nt t' nt' v"
  by (simp add: heard_def socket_log_def)

text \<open>The version that the creation accepts has been heard in it.\<close>

definition found_scamp :: "env \<Rightarrow> nat set \<Rightarrow> transceiver \<Rightarrow> net \<Rightarrow> transceiver \<Rightarrow> net \<Rightarrow> bool" where
  "found_scamp en S t nt t' nt' \<longleftrightarrow>
     (\<exists>v. heard en S t nt t' nt' v \<and> \<not> is_default_destination v \<and> vi_name v = SCAMP_NAME \<and>
        is_scamp_version_compatible (vi_version_number v))"

lemma search_again:
  assumes ok: "search_ok en S t nt (TxDone v1 t1 nt1)" and S: "picks_from S t"
    and run: "(if v1 = None \<and> bmp \<noteq> None
      then tx_bind (power_on_machine en) (\<lambda>_. try_to_find_scamp_and_boot en n extra) else tx_return v1) t1 nt1
      = Some (TxDone v2 t2 nt2)"
  shows "search_ok en S t nt (TxDone v2 t2 nt2)"
proof (cases "v1 = None \<and> bmp \<noteq> None")
  case True
  then obtain y tp np where p: "tx_power en POWER_ON t1 nt1 = Some (TxDone y tp np)"
    and f: "try_to_find_scamp_and_boot en n extra tp np = Some (TxDone v2 t2 nt2)"
    using run by (auto simp: power_on_machine_def elim!: bind_done)
  have "onward t nt t1 nt1" using ok by (simp add: search_ok_def)
  from onward_trans [OF this] have l: "onward t nt tp np" using movesD [OF power_moves p] by simp
  show ?thesis by (rule search_ok_later [OF find_scamp_heard [OF f picks_from_later [OF S l]] l])
qed (use run ok in \<open>auto simp: tx_return_def\<close>)

lemma use_found_version:
  assumes found: "search_ok en S t nt (TxDone v t2 nt2)"
    and run: "(case v of
         None \<Rightarrow> tx_raise SpinnmanIO
       | Some info \<Rightarrow>
           if vi_name info \<noteq> SCAMP_NAME \<or> \<not> is_scamp_version_compatible (vi_version_number info)
           then tx_raise SpinnmanIO
           else tx_bind (tx_get tx_scamp_connections) (\<lambda>conns.
                tx_bind (tx_each (set_time_out en) conns) (\<lambda>_. update_selector en))) t2 nt2 = Some (TxDone x t' nt')"
  shows "found_scamp en S t nt t' nt'"
proof -
  obtain info where v: "v = Some info" "vi_name info = SCAMP_NAME" "is_scamp_version_compatible (vi_version_number info)"
    using run by (auto simp: tx_raise_def split: option.splits if_splits)
  obtain conns y t3 nt3 where each: "tx_each (set_time_out en) conns t2 nt2 = Some (TxDone y t3 nt3)"
    and sel: "update_selector en t3 nt3 = Some (TxDone x t' nt')"
    using run v by (auto simp: bind_get elim!: bind_done)
  have h: "heard en S t nt t2 nt2 info" "\<not> is_default_destination info" "onward t nt t2 nt2"
    using found v(1) by (simp_all add: search_ok_def)
  have "onward t2 nt2 t3 nt3" using movesD [OF moves_each [OF set_time_out_moves] each] by simp
  then have "heard en S t nt t3 nt3 info" using heard_after [OF h(1)] h(3) by (simp add: onward_def)
  then show ?thesis
    using update_selector_same [OF sel] heard_same_pool h(2) v(2,3) unfolding found_scamp_def by metis
qed

lemma ensure_heard:
  assumes run: "ensure_board_is_ready en n extra t nt = Some (TxDone x t' nt')" and S: "picks_from S t"
  shows "found_scamp en S t nt t' nt'"
proof -
  let ?off = "tx_machine_off t"
  obtain v1 t1 nt1 where first: "(if ?off then tx_return None
        else try_to_find_scamp_and_boot en INITIAL_FIND_SCAMP_RETRIES_COUNT extra) t nt = Some (TxDone v1 t1 nt1)"
    and rest: "tx_bind (tx_get tx_bmp_connection) (\<lambda>bmp. tx_bind (if v1 = None \<and> bmp \<noteq> None
              then tx_bind (power_on_machine en) (\<lambda>_. try_to_find_scamp_and_boot en n extra) else tx_return v1) (\<lambda>v2.
       case v2 of
         None \<Rightarrow> tx_raise SpinnmanIO
       | Some info \<Rightarrow>
           if vi_name info \<noteq> SCAMP_NAME \<or> \<not> is_scamp_version_compatible (vi_version_number info)
           then tx_raise SpinnmanIO
           else tx_bind (tx_get tx_scamp_connections) (\<lambda>conns.
                tx_bind (tx_each (set_time_out en) conns) (\<lambda>_. update_selector en)))) t1 nt1 = Some (TxDone x t' nt')"
    using run unfolding ensure_board_is_ready_def bind_get [of tx_machine_off] by (rule bind_done)
  have ok: "search_ok en S t nt (TxDone v1 t1 nt1)"
  proof (cases ?off)
    case True
    then show ?thesis using first by (auto simp: tx_return_def search_ok_def)
  qed (use first find_scamp_heard [OF _ S] in simp)
  from rest show ?thesis unfolding bind_get [of tx_bmp_connection]
    by (rule bind_done) (rule use_found_version [OF search_again [OF ok S]])
qed

lemma init_heard:
  assumes "transceiver_init en connections power_cycle nt = Inr (Some (TxDone () t nt'))"
  shows "\<exists>t0. tx_pool t0 = map snd connections \<and> found_scamp en (scamp_numbers connections) t0 nt t nt'"
proof -
  obtain t0 where t0: "transceiver_start en connections = Inr t0"
    and run: "tx_bind (check_bmp_connection en) (\<lambda>_.
       tx_bind (if power_cycle then power_off_machine en else tx_return ()) (\<lambda>_.
         ensure_board_is_ready en 5 [])) t0 nt = Some (TxDone () t nt')"
    using assms by (auto simp: transceiver_init_def bind_res_def split: sum.splits)
  note s = start_picks [OF t0]
  obtain t1 nt1 t2 nt2 where c: "check_bmp_connection en t0 nt = Some (TxDone () t1 nt1)"
    and p: "(if power_cycle then power_off_machine en else tx_return ()) t1 nt1 = Some (TxDone () t2 nt2)"
    and e: "ensure_board_is_ready en 5 [] t2 nt2 = Some (TxDone () t nt')"
    using run by (elim bind_done) auto
  have "moves (if power_cycle then power_off_machine en else tx_return ())"
    by (auto simp: power_off_machine_def intro: move_rules)
  from movesD [OF this p] movesD [OF check_bmp_moves c] have l: "onward t0 nt t2 nt2" by (auto intro: onward_trans)
  obtain v where v: "heard en (scamp_numbers connections) t2 nt2 t nt' v" "\<not> is_default_destination v" "vi_name v = SCAMP_NAME"
    "is_scamp_version_compatible (vi_version_number v)"
    using ensure_heard [OF e picks_from_later [OF conjunct1 [OF s] l]] unfolding found_scamp_def by blast
  have "heard en (scamp_numbers connections) t0 nt t nt' v"
    by (rule heard_before [OF v(1) l])
  then show ?thesis using s v unfolding found_scamp_def by blast
qed

end
