(* ===== verification/VirtualTransceiver.thy ===== *)
theory VirtualTransceiver
  imports TransceiverOps
begin

text \<open>
  The transceiver of a machine that is not there (\<open>transceiver/virtual5transceiver.py\<close>): the operations that
  fall back on fixed answers when the connection fails, and the version that it pretends to have.
\<close>

subsection \<open>Operations\<close>

definition on_io_error :: "'a tx \<Rightarrow> 'a tx \<Rightarrow> 'a tx" where
  "on_io_error m h = tx_catch m (\<lambda>e. if is_io e then h else tx_raise e)"

definition virtual_boot_board :: "env \<Rightarrow> (system_variable \<times> sv_value) list \<Rightarrow> unit tx" where
  "virtual_boot_board en extra = on_io_error (boot_board en extra) (tx_return ())"

text \<open>Only the address of the dimensions, asked of any chip, has an answer: eight by eight.\<close>

definition virtual_read_memory :: "env \<Rightarrow> int \<Rightarrow> int \<Rightarrow> int \<Rightarrow> int \<Rightarrow> int \<Rightarrow> bytes tx" where
  "virtual_read_memory en x y base_address n_bytes cpu =
     on_io_error (tx_read_memory en x y base_address n_bytes cpu)
       (if x = y \<and> y = 255 \<and> base_address = 4110450434 then tx_return [8, 8]
        else tx_raise PyNotImplementedError)"

text \<open>The datagram that it answers for a version, the payload of which starts at byte 14.\<close>

definition VIRTUAL_VERSION :: bytes where
  "VIRTUAL_VERSION =
     [0x40, 0x00, 0x07, 0x08, 0xff, 0x00, 0x00, 0x00, 0x00, 0x00, 0x80, 0x00, 0x02, 0x00, 0x00, 0x0a,
      0x00, 0x00, 0x00, 0x01, 0xff, 0xff, 0x6f, 0x61, 0xa3, 0x62,
      83, 67, 38, 77, 80, 47, 83, 112, 105, 78, 78, 97, 107, 101, 114, 0,
      51, 46, 52, 46, 50, 0]"

definition virtual_get_scamp_version :: "env \<Rightarrow> int \<Rightarrow> version_info tx" where
  "virtual_get_scamp_version en n_retries =
     on_io_error (get_scamp_version en n_retries) (tx_res (parse_version_info VIRTUAL_VERSION 14))"

definition virtual_get_machine_details :: "env \<Rightarrow> machine_version \<Rightarrow> made_chip list \<Rightarrow> made_chip list tx" where
  "virtual_get_machine_details en v virtual_machine =
     on_io_error (tx_get_machine_details en v) (tx_return virtual_machine)"

definition virtual_get_cpu_infos ::
  "env \<Rightarrow> core_subsets option \<Rightarrow> cpu_state list option \<Rightarrow> bool \<Rightarrow> cpu_infos tx" where
  "virtual_get_cpu_infos en subsets states include =
     on_io_error (get_cpu_infos en subsets states include) (tx_return [])"

subsection \<open>The pretended version\<close>

text \<open>
  The version that the virtual transceiver pretends to have is refused by its own base class: the fixed
  answer parses as SC&MP 3.4.2 on chip (0, 0), and version 3 is not compatible with the required 4.0.0.
\<close>
theorem virtual_version_incompatible:
  "(case parse_version_info VIRTUAL_VERSION 14 of
      Inl e \<Rightarrow> False
    | Inr v \<Rightarrow> vi_name v = SCAMP_NAME \<and> vi_version_number v = (3, 4, 2) \<and> vi_x v = 0 \<and> vi_y v = 0 \<and>
        \<not> is_scamp_version_compatible (vi_version_number v))"
  by code_simp

end
