(* ===== verification/AdcInfo.thy ===== *)
theory AdcInfo
  imports Complex_Main ExtendedTransceiver
begin

text \<open>
  Voltages, temperatures and fan speeds of a board (\<open>model/adc_info.py\<close>, \<open>extended/read_adc.py\<close>). The scales
  are fractions over powers of two, and a reading has 16 bits: the products are exact in double precision,
  so that they are rational numbers here.
\<close>

definition BMP_ADC_MAX :: rat where "BMP_ADC_MAX = 4096"
definition BMP_V_SCALE_2_5 :: rat where "BMP_V_SCALE_2_5 = (5 / 2) / BMP_ADC_MAX"
definition BMP_V_SCALE_3_3 :: rat where "BMP_V_SCALE_3_3 = (15 / 4) / BMP_ADC_MAX"
definition BMP_V_SCALE_12 :: rat where "BMP_V_SCALE_12 = 15 / BMP_ADC_MAX"
definition BMP_TEMP_SCALE :: rat where "BMP_TEMP_SCALE = 1 / 256"
definition BMP_MISSING_TEMP :: int where "BMP_MISSING_TEMP = - 0x8000"
definition BMP_MISSING_FAN :: int where "BMP_MISSING_FAN = - 1"

record adc_info =
  adc_voltage_1_2c :: rat
  adc_voltage_1_2b :: rat
  adc_voltage_1_2a :: rat
  adc_voltage_1_8 :: rat
  adc_voltage_3_3 :: rat
  adc_voltage_supply :: rat
  adc_temp_top :: rat
  adc_temp_btm :: rat
  adc_temp_ext_0 :: "rat option"
  adc_temp_ext_1 :: "rat option"
  adc_fan_0 :: "rat option"
  adc_fan_1 :: "rat option"

definition external_temp :: "int \<Rightarrow> rat option" where
  "external_temp v = (if v \<noteq> BMP_MISSING_TEMP then Some (of_int v * BMP_TEMP_SCALE) else None)"

definition fan_speed :: "int \<Rightarrow> rat option" where
  "fan_speed v = (if v \<noteq> BMP_MISSING_FAN then Some (of_int v) else None)"

text \<open>From the fields that the response has unpacked.\<close>

definition adc_info_of :: "int list \<Rightarrow> adc_info" where
  "adc_info_of data =
     \<lparr>adc_voltage_1_2c = of_int (data ! 1) * BMP_V_SCALE_2_5,
      adc_voltage_1_2b = of_int (data ! 2) * BMP_V_SCALE_2_5,
      adc_voltage_1_2a = of_int (data ! 3) * BMP_V_SCALE_2_5,
      adc_voltage_1_8 = of_int (data ! 4) * BMP_V_SCALE_2_5,
      adc_voltage_3_3 = of_int (data ! 6) * BMP_V_SCALE_3_3,
      adc_voltage_supply = of_int (data ! 7) * BMP_V_SCALE_12,
      adc_temp_top = of_int (data ! 8) * BMP_TEMP_SCALE,
      adc_temp_btm = of_int (data ! 9) * BMP_TEMP_SCALE,
      adc_temp_ext_0 = external_temp (data ! 12),
      adc_temp_ext_1 = external_temp (data ! 13),
      adc_fan_0 = fan_speed (data ! 16),
      adc_fan_1 = fan_speed (data ! 17)\<rparr>"

definition adc_info_init :: "bytes \<Rightarrow> nat \<Rightarrow> adc_info res" where
  "adc_info_init adc_data offset =
     bind_res (struct_unpack_from Little ADC_PATTERN adc_data offset) (\<lambda>data. Inr (adc_info_of data))"

subsection \<open>Reading them\<close>

definition read_adc_request :: "int \<Rightarrow> scp_request res" where
  "read_adc_request board =
     bmp_request (Board board) CMD_BMP_INFO (Some (bmp_info_value BMP_ADC)) None None None ReadADCResponse"

text \<open>A missing BMP selector is used as if it were there.\<close>

definition read_adc_data :: "env \<Rightarrow> int \<Rightarrow> adc_info tx" where
  "read_adc_data en board =
     tx_bind (tx_res (read_adc_request board)) (\<lambda>req.
     tx_bind (tx_get tx_bmp_connection) (\<lambda>bmp. case bmp of
       None \<Rightarrow> tx_raise PyAttributeError
     | Some (i, bs) \<Rightarrow>
         tx_bind (send_single en (FixedSelector i) 3 req) (\<lambda>r. case r of
           RspADC data \<Rightarrow> tx_return (adc_info_of data)
         | _ \<Rightarrow> tx_raise PyAttributeError)))"

end
