(* ===== verification/TransceiverProps.thy ===== *)
theory TransceiverProps
  imports Heard VirtualTransceiver AdcInfo
begin

text \<open>
  What a transceiver is when its creation returns, and what stays true of it through any sequence of its
  operations, those that raise included.
\<close>

subsection \<open>The operations keep the invariant\<close>

context pool_free
begin

lemma forget: "stays I m \<Longrightarrow> stays I (tx_bind m (\<lambda>_. tx_return ()))"
  by (simp add: tx_rules)

lemma clock_drift: "stays I (get_clock_drift_fp en x y)"
  unfolding get_clock_drift_fp_def by (auto intro!: tx_rules sv_int)

lemma read_user: "stays I (read_user en x y p user)"
  unfolding read_user_def by (auto intro!: tx_rules read_word)

lemma write_user: "stays I (write_user en x y p user v)"
  unfolding write_user_def by (auto intro!: tx_rules write_memory)

lemma add_cpu_information: "stays I (add_cpu_information_from_core en infos x y p states)"
  unfolding add_cpu_information_from_core_def by (auto intro!: tx_rules cpu_infos)

lemma execute_flood: "stays I (execute_flood en subsets data app_id n wait)"
  unfolding execute_flood_def
  by (auto intro!: tx_rules write_memory scamp_process scamp_value split: write_data.split)

lemma stop_application: "stays I (stop_application en app_id)"
  unfolding stop_application_def by (auto intro!: tx_rules command)

lemma count_states: "stays I (count_states en app_id states)"
  by (induction states) (auto intro!: tx_rules core_state_count)

lemma any_core_in: "stays I (any_core_in en app_id states)"
  by (induction states) (auto intro!: tx_rules core_state_count)

lemma wait_turn: "stays I (wait_turn en a tries)"
  unfolding wait_turn_def check_for_error_cores_def
  by (auto intro!: tx_rules count_states any_core_in cpu_infos)

lemma wait_loop:
  assumes "wait_loop en a timeout clock k found tries t nt = Some r" and "I t"
  shows "I (tres_state r)"
proof -
  have "I t \<longrightarrow> I (tres_state r)"
  proof (rule wait_loop.raw_induct [where P = "\<lambda>en a timeout clock k found tries t nt r.
        I t \<longrightarrow> I (tres_state r)", OF _ assms(1)], intro impI)
    fix loop en a timeout clock k found tries t nt r
    assume ih: "\<And>en a timeout clock k found tries t nt r.
        loop en a timeout clock k found tries t nt = Some r \<Longrightarrow> I t \<longrightarrow> I (tres_state r)"
      and r: "(if found < n_processors (wa_subsets a) \<and>
           (case timeout of None \<Rightarrow> True | Some limit \<Rightarrow> clock k < clock 0 + limit)
         then case wait_turn en a tries t nt of None \<Rightarrow> None
           | Some (TxDone r t1 nt1) \<Rightarrow> loop en a timeout clock (Suc k) (fst r) (snd r) t1 nt1
           | Some (TxRaise e t1 nt1) \<Rightarrow> Some (TxRaise e t1 nt1)
           | Some (TxBlock t1) \<Rightarrow> Some (TxBlock t1)
         else Some (TxDone found t nt)) = Some r"
      and t: "I t"
    have w: "wait_turn en a tries t nt = Some s \<Longrightarrow> I (tres_state s)" for s
      using staysD [OF wait_turn t] .
    show "I (tres_state r)"
      using r t w ih by (fastforce split: if_splits option.splits tres.splits)
  qed
  then show ?thesis using assms(2) by blast
qed

lemma wait_for_cores: "stays I (wait_for_cores_to_be_in_state en a timeout clock)"
proof -
  have "stays I (wait_loop en a timeout clock 1 0 0)"
    by (rule staysI) (rule wait_loop)
  then show ?thesis unfolding wait_for_cores_to_be_in_state_def by (auto intro!: tx_rules cpu_infos)
qed

lemma command_each: "stays I (command_each en req conns)"
  unfolding command_each_def by (auto intro!: stays_each tx_rules command)

lemma set_ip_tag: "stays I (set_ip_tag en local_ip resolve tag use_sender)"
  unfolding set_ip_tag_def by (auto intro!: tx_rules command_each split: option.split)

lemma set_reverse_ip_tag: "stays I (set_reverse_ip_tag en tag)"
  unfolding set_reverse_ip_tag_def by (auto intro!: tx_rules command_each split: option.split)

lemma clear_ip_tag: "stays I (clear_ip_tag en tag board)"
  unfolding clear_ip_tag_def by (auto intro!: tx_rules command_each)

lemma get_tags: "stays I (tx_get_tags en remote_ip connection)"
proof -
  have "stays I (tags_of_connections en remote_ip is)" for "is"
    by (induction "is") (auto intro!: tx_rules scamp_process)
  then show ?thesis unfolding tx_get_tags_def by (auto intro!: tx_rules)
qed

lemma multicast_routes: "stays I (get_multicast_routes en route_ids make_entry x y app_id)"
  unfolding get_multicast_routes_def by (auto intro!: tx_rules sv_int scamp_process)

lemma send_sdp: "stays I (tx_send_sdp_message choice m connection)"
proof -
  have send: "stays I (\<lambda>t nt. case conn_send c data of
          (c', None) \<Rightarrow> Some (TxDone () (t\<lparr>tx_pool := (tx_pool t)[i := c']\<rparr>) nt)
        | (c', Some e) \<Rightarrow> Some (TxRaise e (t\<lparr>tx_pool := (tx_pool t)[i := c']\<rparr>) nt))" for c data i
    by (auto simp: stays_def triple_def intro: pool split: prod.split option.split)
  show ?thesis unfolding tx_send_sdp_message_def
    by (auto intro!: tx_rules send split: option.split prod.split)
qed

lemma update_provenance: "stays I (update_provenance_and_exit choice x y p)"
  unfolding update_provenance_and_exit_def by (auto intro!: tx_rules send_sdp)

lemma attribute_error: "stays I m \<Longrightarrow> stays I (or_attribute_error m)"
  unfolding or_attribute_error_def by (auto intro: tx_rules)

lemma send_led: "stays I (set_led en leds action boards)"
  unfolding set_led_def by (auto intro!: tx_rules send_single split: option.split)

lemma neighbour_write: "stays I (write_neighbour_memory en x y link a data n off cpu)"
  unfolding write_neighbour_memory_def Let_def
  by (auto intro!: tx_rules scamp_value split: write_data.split option.split)

lemma flood: "stays I (write_memory_flood en current a data n off)"
  unfolding write_memory_flood_def Let_def
  by (auto intro!: tx_rules run_channels split: write_data.split option.split)

lemma read_adc: "stays I (read_adc_data en board)"
  unfolding read_adc_data_def by (auto intro!: tx_rules send_single split: option.split response.split)

lemma diagnostic_filter: "stays I (get_router_diagnostic_filter en x y position)"
  unfolding get_router_diagnostic_filter_def by (auto intro!: tx_rules call split: response.split)

lemma watch_dog: "stays I (set_watch_dog en w)"
  unfolding set_watch_dog_def set_watch_dog_on_chip_def
  by (auto intro!: stays_each tx_rules write_memory)

end

lemma iobuf_inv: "stays (tx_inv t0) (get_iobuf en subsets)"
proof -
  have "stays (tx_inv t0) (tx_modify (\<lambda>t. t\<lparr>tx_iobuf_size := n\<rparr>))" for n
    by (auto simp: stays_def tx_inv_def intro!: triple_modify)
  then show ?thesis unfolding get_iobuf_def get_iobuf_size_def
    by (auto intro!: tx_rules inv.sv_int inv.scamp_value split: option.split)
qed

lemma machine_details_inv: "stays (tx_inv t0) (tx_get_machine_details en v)"
  unfolding tx_get_machine_details_def
  by (auto intro!: tx_rules dimensions_inv inv.scamp_version inv.scamp_value split: prod.split)

lemma close_inv: "stays (tx_inv t0) (tx_close en b)"
  unfolding tx_close_def power_off_machine_def by (auto intro!: tx_rules power_stays)

lemma execute_application_inv: "stays (tx_inv t0) (execute_application en files targets app_id)"
proof -
  have "stays (tx_inv t0) (flood_binaries en files app_id targets bs)" for bs
    by (induction bs) (auto intro!: tx_rules inv.execute_flood)
  then show ?thesis unfolding execute_application_def tx_send_signal_def
    by (auto intro!: tx_rules inv.core_state_count inv.cpu_infos inv.command)
qed

subsection \<open>Runs of operations\<close>

text \<open>The public operations, their answers left out; \<open>operation en m\<close> is one call with its arguments.\<close>

definition forget :: "'a tx \<Rightarrow> unit tx" where
  "forget m = tx_bind m (\<lambda>_. tx_return ())"

inductive operation :: "env \<Rightarrow> unit tx \<Rightarrow> bool" for en where
  op_check_bmp: "operation en (check_bmp_connection en)"
| op_ensure: "operation en (ensure_board_is_ready en n extra)"
| op_power_off: "operation en (power_off_machine en)"
| op_power_on: "operation en (power_on_machine en)"
| op_close: "operation en (tx_close en b)"
| op_discover: "operation en (discover_scamp_connections en ethernets)"
| op_add_connections: "operation en (add_scamp_connections en connections)"
| op_details: "operation en (forget (tx_get_machine_details en v))"
| op_read: "operation en (forget (tx_read_memory en x y a n cpu))"
| op_read_word: "operation en (forget (tx_read_word en x y a cpu))"
| op_write: "operation en (forget (tx_write_memory en x y a data n' off cpu s))"
| op_clock_drift: "operation en (forget (get_clock_drift_fp en x y))"
| op_read_user: "operation en (forget (read_user en x y p user))"
| op_write_user: "operation en (write_user en x y p user value)"
| op_cpu_infos: "operation en (forget (get_cpu_infos en subsets states inc))"
| op_add_cpu_info: "operation en (forget (add_cpu_information_from_core en infos x y p core_states))"
| op_iobuf: "operation en (forget (get_iobuf en subsets))"
| op_state_count: "operation en (forget (get_core_state_count en app_id state xys))"
| op_flood: "operation en (execute_flood en cores data app_id n' wait)"
| op_stop: "operation en (stop_application en app_id)"
| op_wait: "operation en (wait_for_cores_to_be_in_state en args timeout clock)"
| op_signal: "operation en (tx_send_signal en app_id sig)"
| op_sync: "operation en (control_sync en b)"
| op_ip_tag: "operation en (set_ip_tag en local_ip resolve tag use_sender)"
| op_reverse_tag: "operation en (set_reverse_ip_tag en rtag)"
| op_clear_tag: "operation en (clear_ip_tag en tag_id board)"
| op_get_tags: "operation en (forget (tx_get_tags en remote_ip connection))"
| op_malloc: "operation en (forget (tx_malloc_sdram en x y n app_id tag_id))"
| op_load_routes: "operation en (load_multicast_routes en id x y routes app_id)"
| op_load_fixed: "operation en (tx_load_fixed_route en id x y route app_id)"
| op_read_fixed: "operation en (forget (tx_read_fixed_route en x y app_id))"
| op_get_routes: "operation en (forget (get_multicast_routes en ids (\<lambda>k m ps ls d. Inr (k, m, ps, ls, d)) x y app_id'))"
| op_clear_routes: "operation en (clear_multicast_routes en x y)"
| op_diagnostics: "operation en (forget (tx_get_router_diagnostics en x y))"
| op_set_filter: "operation en (set_router_diagnostic_filter en x y position flt)"
| op_clear_counters: "operation en (clear_router_diagnostic_counters en x y)"
| op_sdp: "operation en (tx_send_sdp_message choice m connection)"
| op_provenance: "operation en (update_provenance_and_exit choice x y p)"
| op_read_fpga: "operation en (forget (tx_read_fpga_register en fpga register board_no))"
| op_write_fpga: "operation en (tx_write_fpga_register en fpga register value board_no)"
| op_bmp_version: "operation en (forget (read_bmp_version en board_no))"
| op_application: "operation en (execute_application en files targets app_id)"
| op_led: "operation en (set_led en leds action led_boards)"
| op_leds: "operation en (set_leds en x y cpu led_states)"
| op_write_neighbour: "operation en (write_neighbour_memory en x y link a data n' off cpu)"
| op_read_neighbour: "operation en (forget (read_neighbour_memory en x y link a n cpu))"
| op_write_flood: "operation en (write_memory_flood en current a data n' off)"
| op_read_adc: "operation en (forget (read_adc_data en board))"
| op_free: "operation en (free_sdram en x y a)"
| op_free_by_app: "operation en (forget (free_sdram_by_app_id en x y app_id))"
| op_get_filter: "operation en (forget (get_router_diagnostic_filter en x y position))"
| op_heap: "operation en (forget (tx_get_heap en x y variable))"
| op_watch_dog: "operation en (set_watch_dog en w)"

lemma forget_stays: "stays P m \<Longrightarrow> stays P (forget m)"
  unfolding forget_def by (auto intro!: tx_rules)

lemma operation_inv: "operation en m \<Longrightarrow> stays (tx_inv t0) m"
proof (induction rule: operation.induct)
  case (op_ensure n extra)
  show ?case unfolding stays_def by (rule triple_weaken [OF ensure_ready]) auto
qed (auto intro!: forget_stays tx_rules inv.check_bmp power_stays close_inv discover_inv add_connections_inv
    machine_details_inv inv.read_memory inv.read_word inv.write_memory inv.clock_drift inv.read_user
    inv.write_user inv.cpu_infos inv.add_cpu_information iobuf_inv inv.core_state_count inv.execute_flood
    inv.stop_application inv.wait_for_cores inv.command inv.set_ip_tag inv.set_reverse_ip_tag
    inv.clear_ip_tag inv.get_tags inv.scamp_process inv.scamp_value inv.multicast_routes inv.send_sdp
    inv.update_provenance inv.bmp_call execute_application_inv inv.send_led inv.attribute_error
    inv.neighbour_write inv.flood inv.read_adc inv.diagnostic_filter inv.watch_dog
    simp: power_off_machine_def power_on_machine_def tx_send_signal_def control_sync_def
      tx_malloc_sdram_def load_multicast_routes_def tx_load_fixed_route_def tx_read_fixed_route_def
      clear_multicast_routes_def tx_get_router_diagnostics_def set_router_diagnostic_filter_def
      clear_router_diagnostic_counters_def tx_read_fpga_register_def tx_write_fpga_register_def
      read_bmp_version_def set_leds_def read_neighbour_memory_def free_sdram_def free_sdram_by_app_id_def
      tx_get_heap_def
    split: response.split)

text \<open>One call of an operation, with whatever the sockets bring; it may have raised or wait for ever.\<close>

inductive tx_step :: "env \<Rightarrow> transceiver \<Rightarrow> transceiver \<Rightarrow> bool" for en where
  "operation en m \<Longrightarrow> m t nt = Some r \<Longrightarrow> tx_step en t (tres_state r)"

inductive_cases tx_stepE: "tx_step en t t'"

lemma tx_step_inv: "tx_step en t t' \<Longrightarrow> tx_inv t0 t \<Longrightarrow> tx_inv t0 t'"
  by (erule tx_stepE) (auto dest: staysD [OF operation_inv])

lemma tx_steps_inv: "(tx_step en)\<^sup>*\<^sup>* t t' \<Longrightarrow> tx_inv t0 t \<Longrightarrow> tx_inv t0 t'"
  by (induction rule: rtranclp_induct) (auto intro: tx_step_inv)

lemma start_inv: "transceiver_start en connections = Inr t0 \<Longrightarrow> tx_inv t0 t0"
  by (auto simp: transceiver_start_def tx_inv_def Let_def)

text \<open>
  C29: what never changes in the life of a transceiver. Start it from its connections and call its
  operations in any order, going on after errors: the BMP and the boot connection are those it started
  with, no SCAMP connection is lost and new ones come at the end, every connection that tags may be set
  over is a SCAMP connection, and a machine without a BMP is never marked as off.
\<close>
theorem transceiver_lifecycle:
  assumes "transceiver_start en connections = Inr t0" and "(tx_step en)\<^sup>*\<^sup>* t0 t"
  shows "tx_bmp_connection t = tx_bmp_connection t0 \<and>
     tx_boot_send_connection t = tx_boot_send_connection t0 \<and>
     (\<exists>added. tx_scamp_connections t = tx_scamp_connections t0 @ added) \<and>
     snd ` set (tx_udp_scamp_connections t) \<subseteq> set (tx_scamp_connections t) \<and>
     (tx_bmp_connection t = None \<longrightarrow> \<not> tx_machine_off t)"
  using tx_steps_inv [OF assms(2) start_inv [OF assms(1)]] by (auto simp: tx_inv_def)

text \<open>
  A version that was found by a creation: over one of the SCAMP connections given a version request for the chip that
  is the boot chip has gone out since, and a datagram with its number, taken from this connection since, is read as
  the version.
\<close>

definition found_version ::
  "env \<Rightarrow> (connection_kind \<times> scp_connection) list \<Rightarrow> net \<Rightarrow> transceiver \<Rightarrow> net \<Rightarrow> version_info \<Rightarrow> bool" where
  "found_version en connections nt t nt' v \<longleftrightarrow>
     (\<exists>i < length connections. fst (connections ! i) = SCAMPConnection \<and>
       (\<exists>bs \<in> set (drop (length (conn_attempts (snd (connections ! i)))) (conn_attempts (tx_pool t ! i))).
          dg_command bs = scp_command_value CMD_VER \<and> dg_core bs = (255, 255, 0) \<and>
          (\<exists>used. net_events nt i = used @ net_events nt' i \<and>
            (\<exists>ev \<in> set used. case receive_scp_response ev of
               Inl e \<Rightarrow> False
             | Inr (result, s, raw, off) \<Rightarrow>
                 s = dg_sequence bs \<and> env_reader en GetVersionResponse raw off = Inr (RspVersion v)))))"

lemma version_request_wire:
  "wire s (get_version DEFAULT_DEST_X_COORD DEFAULT_DEST_Y_COORD 0) bs \<Longrightarrow>
     dg_command bs = scp_command_value CMD_VER \<and> dg_core bs = (255, 255, 0)"
  using wire_fields [of s "get_version DEFAULT_DEST_X_COORD DEFAULT_DEST_Y_COORD 0" bs]
  by (simp add: dg_core_def get_version_def abstract_scp_request_def scamp_header_def
      DEFAULT_DEST_X_COORD_def DEFAULT_DEST_Y_COORD_def)

lemma heard_found:
  assumes "heard en (scamp_numbers connections) t0 nt t nt' v" and "tx_pool t0 = map snd connections"
  shows "found_version en connections nt t nt' v"
proof -
  have kind: "req_response (get_version DEFAULT_DEST_X_COORD DEFAULT_DEST_Y_COORD 0) = GetVersionResponse"
    by (simp add: get_version_def abstract_scp_request_def)
  obtain i used bs ev where i: "i < length connections" "fst (connections ! i) = SCAMPConnection"
    and bs: "bs \<in> set (drop (length (socket_log t0 i)) (socket_log t i))"
      "wire (dg_sequence bs) (get_version DEFAULT_DEST_X_COORD DEFAULT_DEST_Y_COORD 0) bs"
    and ev: "net_events nt i = used @ net_events nt' i" "ev \<in> set used"
      "case receive_scp_response ev of Inl e \<Rightarrow> False | Inr (result, s, raw, off) \<Rightarrow>
        s = dg_sequence bs \<and> env_reader en GetVersionResponse raw off = Inr (RspVersion v)"
    using assms(1) unfolding heard_def exchanged_def scamp_numbers_def kind by blast
  have "bs \<in> set (drop (length (conn_attempts (snd (connections ! i)))) (conn_attempts (tx_pool t ! i)))"
    using bs(1) i(1) by (simp add: socket_log_def assms(2))
  then show ?thesis
    unfolding found_version_def using i ev version_request_wire [OF bs(2)] by blast
qed

text \<open>
  C28: a transceiver whose creation returns is ready. During this creation SCAMP has answered, over one of the SCAMP
  connections given, a version request that the creation sent over it, with its own name, a compatible version
  and the coordinates of a chip; the machine is not marked as off, even after a power cycle; and requests
  go to the SCAMP connections, the most direct one first.
\<close>
theorem transceiver_ready:
  assumes "transceiver_init en connections power_cycle nt = Inr (Some (TxDone () t nt'))"
  shows "\<not> tx_machine_off t \<and> scamp_selector en t = Inr (tx_selector t) \<and>
     (\<exists>v. found_version en connections nt t nt' v \<and> vi_name v = SCAMP_NAME \<and>
        is_scamp_version_compatible (vi_version_number v) \<and> \<not> is_default_destination v)"
proof -
  obtain t0 where t0: "transceiver_start en connections = Inr t0"
    and run: "tx_bind (check_bmp_connection en) (\<lambda>_.
       tx_bind (if power_cycle then power_off_machine en else tx_return ()) (\<lambda>_.
         ensure_board_is_ready en 5 [])) t0 nt = Some (TxDone () t nt')"
    using assms by (auto simp: transceiver_init_def)
  have off: "stays (tx_inv t0) (if power_cycle then power_off_machine en else tx_return ())"
    by (auto intro!: tx_rules power_stays simp: power_off_machine_def)
  have "triple (tx_inv t0)
      (tx_bind (check_bmp_connection en) (\<lambda>_.
       tx_bind (if power_cycle then power_off_machine en else tx_return ()) (\<lambda>_.
         ensure_board_is_ready en 5 [])))
      (\<lambda>_ t. tx_inv t0 t \<and> ready en t) (tx_inv t0)"
    by (rule triple_bind [OF triple_stays [OF inv.check_bmp]],
        assumption, rule triple_bind [OF triple_stays [OF off]], assumption, rule ensure_ready)
  from tripleD [OF this start_inv [OF t0] run] have "ready en t" by simp
  moreover obtain t1 v where "tx_pool t1 = map snd connections" "heard en (scamp_numbers connections) t1 nt t nt' v"
    "\<not> is_default_destination v" "vi_name v = SCAMP_NAME" "is_scamp_version_compatible (vi_version_number v)"
    using init_heard [OF assms] unfolding found_scamp_def by blast
  ultimately show ?thesis unfolding ready_def using heard_found by blast
qed

subsection \<open>Witnesses\<close>

text \<open>A board that has been booted, reached over one connection: SCAMP answers three requests.\<close>

definition sample_reply :: "byte \<Rightarrow> bytes \<Rightarrow> recv" where
  "sample_reply sequence data =
     Datagram ([0, 0, 0x07, 0xFF, 0xFF, 0, 0, 0, 0, 0, 0x80, 0, sequence, 0] @ data)"

definition sample_net :: net where
  "sample_net =
     \<lparr>net_events = (\<lambda>i. if i \<noteq> 0 then [] else
        [sample_reply 0 ([0, 0, 0, 0, 0, 1, 0xFF, 0xFF, 0, 0, 0, 0,
           83, 67, 38, 77, 80, 47, 83, 112, 105, 78, 78, 97, 107, 101, 114, 0, 52, 46, 48, 46, 49, 0]),
         sample_reply 1 [9, 0, 4, 4],
         sample_reply 2 ([0x12, 0x3F, 0, 2, 0, 0, 0, 7, 0, 0, 1, 0] @ replicate 18 15 @ [0, 0, 10, 0, 0, 5])]),
      net_next_sequence = 0\<rparr>"

definition sample_env :: env where
  "sample_env =
     \<lparr>env_reader = read_bytestring 6, env_nearest = None, env_machine = [], env_boot_chip = (0, 0),
      env_machine_cores = [], env_ethernet_chips = [], env_board_version = 5, env_image = [], env_time = 0,
      env_boot_led_0 = 1, env_open_scamp = (\<lambda>xy ip. \<lparr>conn_chip_x = fst xy, conn_chip_y = snd xy,
        conn_faults = (\<lambda>_. None), conn_attempts = []\<rparr>)\<rparr>"

definition sample_connections :: "(connection_kind \<times> scp_connection) list" where
  "sample_connections =
     [(SCAMPConnection, \<lparr>conn_chip_x = 255, conn_chip_y = 255, conn_faults = (\<lambda>_. None), conn_attempts = []\<rparr>)]"

lemma sample_ensure:
  "case transceiver_start sample_env sample_connections of
     Inl e \<Rightarrow> False
   | Inr t0 \<Rightarrow>
       (case ensure_board_is_ready sample_env 5 [] t0 sample_net of
          Some (TxDone u t nt) \<Rightarrow> tx_udp_scamp_connections t = [((10, 0, 0, 5), 0)]
        | _ \<Rightarrow> False) \<and>
       tx_bmp_connection t0 = None"
  by code_simp

lemma no_bmp: "tx_bmp_connection t = None \<Longrightarrow> check_bmp_connection en t nt = Some (TxDone () t nt)"
  by (simp add: check_bmp_connection_def tx_bind_def tx_get_def tx_return_def)

lemma sample_run:
  obtains t0 t nt where "transceiver_start sample_env sample_connections = Inr t0"
    and "ensure_board_is_ready sample_env 5 [] t0 sample_net = Some (TxDone () t nt)"
    and "check_bmp_connection sample_env t0 sample_net = Some (TxDone () t0 sample_net)"
    and "tx_udp_scamp_connections t = [((10, 0, 0, 5), 0)]"
  using sample_ensure by (auto simp: no_bmp split: sum.splits option.splits tres.splits)

theorem transceiver_ready_witness:
  "\<exists>t nt v. tx_udp_scamp_connections t = [((10, 0, 0, 5), 0)] \<and> \<not> tx_machine_off t \<and>
     scamp_selector sample_env t = Inr (tx_selector t) \<and>
     found_version sample_env sample_connections sample_net t nt v \<and> vi_name v = SCAMP_NAME"
proof -
  obtain t0 t nt where r: "transceiver_start sample_env sample_connections = Inr t0"
    "ensure_board_is_ready sample_env 5 [] t0 sample_net = Some (TxDone () t nt)"
    "check_bmp_connection sample_env t0 sample_net = Some (TxDone () t0 sample_net)"
    "tx_udp_scamp_connections t = [((10, 0, 0, 5), 0)]" by (rule sample_run)
  then have "transceiver_init sample_env sample_connections False sample_net = Inr (Some (TxDone () t nt))"
    by (simp add: transceiver_init_def tx_bind_def tx_return_def)
  from transceiver_ready [OF this] r(4) show ?thesis by blast
qed

theorem transceiver_lifecycle_witness:
  "\<exists>t0 t. (tx_step sample_env)\<^sup>*\<^sup>* t0 t \<and> tx_udp_scamp_connections t = [((10, 0, 0, 5), 0)] \<and>
     snd ` set (tx_udp_scamp_connections t) \<subseteq> set (tx_scamp_connections t)"
proof -
  obtain t0 t nt where r: "transceiver_start sample_env sample_connections = Inr t0"
    "ensure_board_is_ready sample_env 5 [] t0 sample_net = Some (TxDone () t nt)"
    "tx_udp_scamp_connections t = [((10, 0, 0, 5), 0)]" by (rule sample_run)
  have "(tx_step sample_env)\<^sup>*\<^sup>* t0 t"
    using tx_step.intros [OF op_ensure r(2)] by simp
  with transceiver_lifecycle [OF r(1) this] r(3) show ?thesis by blast
qed

end
