(* ===== verification/CopyRunProps.thy ===== *)
theory CopyRunProps
  imports CopyRun ProcessProps
begin

text \<open>
  The copy run reaches the chips that hang on the boot chip over their parent links, each once, and every
  round only asks chips whose parent has the binary.
\<close>

subsection \<open>Chips that hang on the boot chip\<close>

inductive hangs_on :: "machine \<Rightarrow> xy \<Rightarrow> xy \<Rightarrow> bool" for m boot where
  boot: "hangs_on m boot boot"
| child: "hangs_on m boot k \<Longrightarrow> c \<in> set m \<Longrightarrow> ch_parent_link c \<noteq> None \<Longrightarrow> ch_parent c = Some k \<Longrightarrow>
    hangs_on m boot (ch_xy c)"

definition children :: "machine \<Rightarrow> xy \<Rightarrow> chip list" where
  "children m k = filter (\<lambda>c. ch_parent_link c \<noteq> None \<and> ch_parent c = Some k) m"

lemma compute_parent_chips_children:
  "compute_parent_chips cs links = Inr links' \<Longrightarrow> links' k = links k @ children cs k"
  by (induction cs arbitrary: links) (auto simp: children_def split: option.splits if_splits)

lemma chip_at_ok: "chip_at m k = Inr c \<Longrightarrow> c \<in> set m \<and> ch_xy c = k"
  by (auto simp: chip_at_def find_Some_iff in_set_conv_nth)

subsection \<open>Chips done\<close>

definition all_done :: "chips_done \<Rightarrow> xy list" where
  "all_done done = concat (map snd done)"

text \<open>
  The chips done, filed under their Ethernet chips, each once.
\<close>

definition done_ok :: "machine \<Rightarrow> xy \<Rightarrow> chips_done \<Rightarrow> bool" where
  "done_ok m boot done \<longleftrightarrow>
     distinct (map fst done) \<and> distinct (all_done done) \<and>
     (\<forall>(e, ks) \<in> set done. \<forall>k \<in> set ks. hangs_on m boot k \<and> (\<exists>c \<in> set m. ch_xy c = k \<and> ch_ethernet c = e))"

lemma is_done_iff:
  assumes "done_ok m boot done" and "distinct (map ch_xy m)" and "c \<in> set m"
  shows "is_done done c \<longleftrightarrow> ch_xy c \<in> set (all_done done)"
proof
  assume "is_done done c"
  then obtain ks where "map_of done (ch_ethernet c) = Some ks" "ch_xy c \<in> set ks"
    by (auto simp: is_done_def split: option.splits)
  then show "ch_xy c \<in> set (all_done done)"
    using map_of_SomeD [of "done" "ch_ethernet c" ks] by (force simp: all_done_def)
next
  assume "ch_xy c \<in> set (all_done done)"
  then obtain e ks where e: "(e, ks) \<in> set done" "ch_xy c \<in> set ks" by (auto simp: all_done_def)
  then obtain c' where "c' \<in> set m" "ch_xy c' = ch_xy c" "ch_ethernet c' = e"
    using assms(1) unfolding done_ok_def by fastforce
  then have "ch_ethernet c = e" using assms(2,3) by (metis distinct_map inj_on_eq_iff)
  moreover have "map_of done e = Some ks" using e assms(1) by (simp add: done_ok_def)
  ultimately show "is_done done c" using e by (simp add: is_done_def)
qed

lemma set_update_new: "map_of al k = None \<Longrightarrow> AList.update k v al = al @ [(k, v)]"
  by (induction al) auto

lemma update_split:
  "map_of al k = Some v \<Longrightarrow> distinct (map fst al) \<Longrightarrow>
     \<exists>xs ys. al = xs @ (k, v) # ys \<and> AList.update k w al = xs @ (k, w) # ys"
proof (induction al)
  case (Cons a al)
  show ?case
  proof (cases "fst a = k")
    case True
    then show ?thesis using Cons.prems by (cases a) (auto intro: exI [of _ "[]"])
  next
    case False
    then obtain xs ys where "al = xs @ (k, v) # ys" "AList.update k w al = xs @ (k, w) # ys"
      using Cons by (cases a) auto
    then show ?thesis using False by (cases a) (auto intro: exI [of _ "a # xs"])
  qed
qed simp

lemma add_done_ok:
  assumes ok: "done_ok m boot done" and c: "c \<in> set m" "hangs_on m boot (ch_xy c)"
    and new: "ch_xy c \<notin> set (all_done done)"
  shows "done_ok m boot (add_done c done) \<and> set (all_done (add_done c done)) = insert (ch_xy c) (set (all_done done))"
proof (cases "map_of done (ch_ethernet c)")
  case None
  then have u: "add_done c done = done @ [(ch_ethernet c, [ch_xy c])]"
    by (simp add: add_done_def set_update_new)
  have "ch_ethernet c \<notin> fst ` set done" using None by (simp add: map_of_eq_None_iff)
  then show ?thesis using ok c new by (auto simp: u done_ok_def all_done_def)
next
  case (Some ks)
  have d: "distinct (map fst done)" using ok by (simp add: done_ok_def)
  obtain xs ys where s: "done = xs @ (ch_ethernet c, ks) # ys"
    and u: "AList.update (ch_ethernet c) (ks @ [ch_xy c]) done = xs @ (ch_ethernet c, ks @ [ch_xy c]) # ys"
    using update_split [OF Some d] by blast
  have "add_done c done = xs @ (ch_ethernet c, ks @ [ch_xy c]) # ys"
    using Some u by (simp add: add_done_def)
  then show ?thesis using ok c new by (auto simp: s done_ok_def all_done_def)
qed

text \<open>A list of chips of the machine, none of them done and no two the same, done one after the other.\<close>

definition next_ok :: "machine \<Rightarrow> xy \<Rightarrow> chips_done \<Rightarrow> chip list \<Rightarrow> bool" where
  "next_ok m boot done cs \<longleftrightarrow>
     distinct (map ch_xy cs) \<and>
     (\<forall>c \<in> set cs. c \<in> set m \<and> hangs_on m boot (ch_xy c) \<and> ch_xy c \<notin> set (all_done done))"

lemma next_ok_Nil [simp]: "next_ok m boot done []"
  by (simp add: next_ok_def)

lemma fold_add_done_ok:
  "done_ok m boot done \<Longrightarrow> next_ok m boot done cs \<Longrightarrow>
     done_ok m boot (fold add_done cs done) \<and>
     set (all_done (fold add_done cs done)) = ch_xy ` set cs \<union> set (all_done done)"
proof (induction cs arbitrary: "done")
  case (Cons c cs)
  have c: "c \<in> set m" "hangs_on m boot (ch_xy c)" "ch_xy c \<notin> set (all_done done)"
    using Cons.prems(2) by (simp_all add: next_ok_def)
  note a = add_done_ok [OF Cons.prems(1) c]
  have "next_ok m boot (add_done c done) cs"
    using Cons.prems(2) a unfolding next_ok_def by (auto simp: image_iff)
  then show ?case using Cons.IH [of "add_done c done"] a by auto
qed simp

subsection \<open>The chips of a round\<close>

lemma serve_child_Some:
  "serve_child done p cs off = Some c \<Longrightarrow> c \<in> set cs \<and> \<not> is_done done c"
  unfolding serve_child_def by (auto simp: find_Some_iff in_set_conv_nth)

lemma serve_child_None:
  "serve_child done p cs False = None \<longleftrightarrow> (\<forall>c \<in> set cs. is_done done c)"
  unfolding serve_child_def by (auto simp: find_None_iff)

lemma children_in [dest]: "c \<in> set (children m k) \<Longrightarrow> c \<in> set m"
  by (simp add: children_def)

lemma next_of_board_ConsE:
  assumes "next_of_board m done pa (k # ks) off = Inr cs"
  obtains (none) p where "chip_at m k = Inr p" "serve_child done p (pa k) off = None"
      "next_of_board m done pa ks off = Inr cs"
    | (served) p c off' rest where "chip_at m k = Inr p" "serve_child done p (pa k) off = Some c"
      "next_of_board m done pa ks off' = Inr rest" "cs = c # rest"
  using assms by (auto simp: bind_res_def split: sum.splits option.splits)

lemma next_of_boards_ConsE:
  assumes "next_of_boards m done pa ((e, ks) # bs) = Inr cs"
  obtains as rest where "next_of_board m done pa ks False = Inr as"
    "next_of_boards m done pa bs = Inr rest" "cs = as @ rest"
  using assms by (auto simp: bind_res_def split: sum.splits)

text \<open>The chips of a board come from the children of its chips, at most one of each.\<close>

definition new_child :: "machine \<Rightarrow> chips_done \<Rightarrow> xy list \<Rightarrow> chip \<Rightarrow> bool" where
  "new_child m done ks c \<longleftrightarrow> (\<exists>k \<in> set ks. c \<in> set (children m k)) \<and> \<not> is_done done c"

lemma new_child_parent: "new_child m done ks c \<Longrightarrow> ch_parent c \<in> Some ` set ks"
  by (auto simp: new_child_def children_def)

lemma new_child_parents: "list_all (new_child m done ks) cs \<Longrightarrow> ch_parent ` set cs \<subseteq> Some ` set ks"
  using new_child_parent by (auto simp: list_all_iff)

lemma new_child_append: "new_child m done (ks @ js) c \<longleftrightarrow> new_child m done ks c \<or> new_child m done js c"
  by (auto simp: new_child_def)

lemma next_of_board_from:
  "next_of_board m done (children m) ks off = Inr cs \<Longrightarrow> list_all (new_child m done ks) cs"
proof (induction ks arbitrary: off cs)
  case (Cons k ks)
  have up: "list_all (new_child m done (k # ks)) xs" if "list_all (new_child m done ks) xs" for xs
    using that by (auto simp: list_all_iff new_child_def)
  from Cons.prems show ?case
  proof (cases rule: next_of_board_ConsE)
    case none
    then show ?thesis using Cons.IH up by blast
  next
    case (served p c off' rest)
    have "new_child m done (k # ks) c" using serve_child_Some [OF served(2)] by (simp add: new_child_def)
    then show ?thesis using Cons.IH [OF served(3)] up served(4) by simp
  qed
qed simp

lemma next_of_board_parents:
  "next_of_board m done (children m) ks off = Inr cs \<Longrightarrow> distinct ks \<Longrightarrow> distinct (map ch_parent cs)"
proof (induction ks arbitrary: off cs)
  case (Cons k ks)
  from Cons.prems(1) show ?case
  proof (cases rule: next_of_board_ConsE)
    case none
    then show ?thesis using Cons by simp
  next
    case (served p c off' rest)
    have "ch_parent c = Some k" using serve_child_Some [OF served(2)] by (simp add: children_def)
    moreover have "ch_parent ` set rest \<subseteq> Some ` set ks"
      by (rule new_child_parents [OF next_of_board_from [OF served(3)]])
    ultimately have "ch_parent c \<notin> ch_parent ` set rest" using Cons.prems(2) by auto
    then show ?thesis using Cons.IH [OF served(3)] Cons.prems(2) served(4) by simp
  qed
qed simp

lemma next_of_board_Nil:
  "next_of_board m done (children m) ks False = Inr [] \<Longrightarrow> k \<in> set ks \<Longrightarrow> c \<in> set (children m k) \<Longrightarrow>
     is_done done c"
proof (induction ks)
  case (Cons j ks)
  from Cons.prems(1) show ?case
  proof (cases rule: next_of_board_ConsE)
    case (none p)
    then show ?thesis using Cons.IH Cons.prems(2,3) unfolding serve_child_None by (cases "k = j") auto
  qed simp
qed simp

lemma all_done_Cons [simp]: "all_done ((e, ks) # bs) = ks @ all_done bs"
  by (simp add: all_done_def)

lemma all_done_Nil [simp]: "all_done [] = []"
  by (simp add: all_done_def)

lemma next_of_boards_from:
  "next_of_boards m done (children m) bs = Inr cs \<Longrightarrow> list_all (new_child m done (all_done bs)) cs"
proof (induction bs arbitrary: cs)
  case (Cons b bs)
  obtain e ks where b: "b = (e, ks)" by (cases b)
  from Cons.prems [unfolded b] obtain as rest where s: "next_of_board m done (children m) ks False = Inr as"
    "next_of_boards m done (children m) bs = Inr rest" "cs = as @ rest" by (rule next_of_boards_ConsE)
  show ?case
    using next_of_board_from [OF s(1)] Cons.IH [OF s(2)] by (auto simp: b s(3) list_all_iff new_child_append)
qed simp

lemma next_of_boards_parents:
  "next_of_boards m done (children m) bs = Inr cs \<Longrightarrow> distinct (all_done bs) \<Longrightarrow> distinct (map ch_parent cs)"
proof (induction bs arbitrary: cs)
  case (Cons b bs)
  obtain e ks where b: "b = (e, ks)" by (cases b)
  from Cons.prems(1) [unfolded b] obtain as rest where s: "next_of_board m done (children m) ks False = Inr as"
    "next_of_boards m done (children m) bs = Inr rest" "cs = as @ rest" by (rule next_of_boards_ConsE)
  have "ch_parent ` set as \<subseteq> Some ` set ks" "ch_parent ` set rest \<subseteq> Some ` set (all_done bs)"
    by (rule new_child_parents [OF next_of_board_from [OF s(1)]], rule new_child_parents [OF next_of_boards_from [OF s(2)]])
  moreover have "(Some ` set ks :: xy option set) \<inter> Some ` set (all_done bs) = {}"
    using Cons.prems(2) by (auto simp: b)
  ultimately have "ch_parent ` set as \<inter> ch_parent ` set rest = {}" by blast
  then show ?case
    using next_of_board_parents [OF s(1)] Cons.IH [OF s(2)] Cons.prems(2) by (simp add: b s(3))
qed simp

lemma next_of_boards_Nil:
  "next_of_boards m done (children m) bs = Inr [] \<Longrightarrow> k \<in> set (all_done bs) \<Longrightarrow> c \<in> set (children m k) \<Longrightarrow>
     is_done done c"
proof (induction bs)
  case (Cons b bs)
  obtain e ks where b: "b = (e, ks)" by (cases b)
  from Cons.prems(1) [unfolded b] obtain as rest where s: "next_of_board m done (children m) ks False = Inr as"
    "next_of_boards m done (children m) bs = Inr rest" "[] = as @ rest" by (rule next_of_boards_ConsE)
  have "k \<in> set ks \<or> k \<in> set (all_done bs)" using Cons.prems(2) b by simp
  then show ?case using next_of_board_Nil [of m "done" ks k c] Cons.IH Cons.prems(3) s by auto
qed simp

lemma get_next_chips_ok:
  assumes "done_ok m boot done" and "distinct (map ch_xy m)"
    and "get_next_chips m done (children m) = Inr cs"
  shows "next_ok m boot done cs"
proof -
  have from_done: "\<exists>k \<in> set (all_done done). c \<in> set (children m k) \<and> \<not> is_done done c" if "c \<in> set cs" for c
    using next_of_boards_from [OF assms(3) [unfolded get_next_chips_def]] that
    by (simp add: list_all_iff new_child_def)
  have hang: "hangs_on m boot k" if "k \<in> set (all_done done)" for k
    using assms(1) that unfolding done_ok_def all_done_def by fastforce
  have "distinct (map ch_parent cs)"
    using next_of_boards_parents [OF assms(3) [unfolded get_next_chips_def]] assms(1)
    by (simp add: done_ok_def)
  then have "distinct cs" by (simp add: distinct_map)
  moreover have "set cs \<subseteq> set m" using from_done by blast
  ultimately have "distinct (map ch_xy cs)"
    using assms(2) by (auto simp: distinct_map intro: inj_on_subset)
  moreover have "c \<in> set m \<and> hangs_on m boot (ch_xy c) \<and> ch_xy c \<notin> set (all_done done)" if c: "c \<in> set cs" for c
  proof -
    obtain k where k: "k \<in> set (all_done done)" "c \<in> set (children m k)" "\<not> is_done done c"
      using from_done [OF c] by blast
    then show ?thesis
      using is_done_iff [OF assms(1,2)] hang [OF k(1)] by (auto simp: children_def intro: hangs_on.child)
  qed
  ultimately show ?thesis by (simp add: next_ok_def)
qed

lemma get_next_chips_Nil:
  assumes "done_ok m boot done" and "distinct (map ch_xy m)"
    and "get_next_chips m done (children m) = Inr []" and "boot \<in> set (all_done done)"
  shows "set (all_done done) = {k. hangs_on m boot k}"
proof (intro equalityI subsetI CollectI)
  fix k assume "k \<in> set (all_done done)"
  then show "hangs_on m boot k" using assms(1) unfolding done_ok_def all_done_def by fastforce
next
  fix k assume "k \<in> {k. hangs_on m boot k}"
  then have "hangs_on m boot k" by simp
  then show "k \<in> set (all_done done)"
  proof induction
    case boot
    show ?case by (rule assms(4))
  next
    case (child k c)
    then have "c \<in> set (children m k)" by (simp add: children_def)
    then have "is_done done c"
      using next_of_boards_Nil [OF assms(3) [unfolded get_next_chips_def] child.IH] by blast
    then show ?case using is_done_iff [OF assms(1,2)] child.hyps by blast
  qed
qed

subsection \<open>The rounds\<close>

lemma copy_round_done:
  "copy_round rd request cs done pr nt = Some (r, done') \<Longrightarrow>
     \<exists>served rest. cs = served @ rest \<and> done' = fold add_done served done \<and> (\<exists>pr' nt'. r = Done pr' nt') = (rest = [])"
proof (induction cs arbitrary: "done" pr nt)
  case (Cons c cs)
  have stopped: ?case if "done' = done" "\<nexists>pr' nt'. r = Done pr' nt'"
    using that by (intro exI [of _ "[]"] exI [of _ "c # cs"]) simp
  show ?case
  proof (cases "request c")
    case (Inl e)
    then show ?thesis using Cons.prems by (intro stopped) auto
  next
    case (Inr req)
    show ?thesis
    proof (cases "proc_send_request rd req None pr nt")
      case (Some sent)
      show ?thesis
      proof (cases sent)
        case (Done pr1 nt1)
        then have "copy_round rd request cs (add_done c done) pr1 nt1 = Some (r, done')"
          using Cons.prems Inr Some by simp
        from Cons.IH [OF this] obtain served rest where "cs = served @ rest"
          "done' = fold add_done served (add_done c done)" "(\<exists>pr' nt'. r = Done pr' nt') = (rest = [])" by blast
        then show ?thesis by (intro exI [of _ "c # served"] exI [of _ rest]) simp
      next
        case (Fails e pr1 nt1)
        then show ?thesis using Cons.prems Inr Some by (intro stopped) auto
      next
        case (Blocks pr1)
        then show ?thesis using Cons.prems Inr Some by (intro stopped) auto
      qed
    qed (use Cons.prems Inr in simp)
  qed
qed auto

lemma next_ok_prefix: "next_ok m boot done (xs @ ys) \<Longrightarrow> next_ok m boot done xs"
  by (auto simp: next_ok_def)

text \<open>
  What holds before the rounds, and is kept by the requests of a round and by what collects their responses,
  holds after them; a run that returns has no chips left to ask.
\<close>

lemma copy_rounds_rule:
  assumes run: "copy_rounds rd request m parents done pr nt = Some (r, done')" and start: "I done pr"
    and round: "\<And>done pr nt cs r1 done1. I done pr \<Longrightarrow> get_next_chips m done parents = Inr cs \<Longrightarrow>
      copy_round rd request cs done pr nt = Some (r1, done1) \<Longrightarrow> I done1 (end_state r1)"
    and finish: "\<And>done pr nt r1. I done pr \<Longrightarrow> proc_finish rd pr nt = Some r1 \<Longrightarrow> I done (end_state r1)"
  shows "I done' (end_state r) \<and> (\<forall>pr1 nt1. r = Done pr1 nt1 \<longrightarrow> get_next_chips m done' parents = Inr [])"
proof -
  define Q where "Q m' parents' out \<longleftrightarrow> I (snd out) (end_state (fst out)) \<and>
      (\<forall>pr1 nt1. fst out = Done pr1 nt1 \<longrightarrow> get_next_chips m' (snd out) parents' = Inr [])"
    for m' parents' and out :: "('a process, net) presult \<times> chips_done"
  have "rd' = rd \<longrightarrow> request' = request \<longrightarrow> m' = m \<longrightarrow> parents' = parents \<longrightarrow> I done pr \<longrightarrow> Q m' parents' out"
    if "copy_rounds rd' request' m' parents' done pr nt = Some out" for rd' request' m' parents' out
  proof (rule copy_rounds.raw_induct [where P = "\<lambda>rd' request' m' parents' done pr nt out. rd' = rd \<longrightarrow> request' = request \<longrightarrow>
      m' = m \<longrightarrow> parents' = parents \<longrightarrow> I done pr \<longrightarrow> Q m' parents' out", OF _ that], intro impI)
    fix loop rd' request' m' parents' "done" pr nt out
    assume IH: "\<And>rd' request' m' parents' done pr nt out. loop rd' request' m' parents' done pr nt = Some out \<Longrightarrow>
        rd' = rd \<longrightarrow> request' = request \<longrightarrow> m' = m \<longrightarrow> parents' = parents \<longrightarrow> I done pr \<longrightarrow> Q m' parents' out"
      and body: "(case get_next_chips m' done parents' of
        Inl e \<Rightarrow> Some (Fails e pr nt, done)
      | Inr [] \<Rightarrow> Some (Done pr nt, done)
      | Inr (c # cs) \<Rightarrow>
          (case copy_round rd' request' (c # cs) done pr nt of
             None \<Rightarrow> None
           | Some (Fails e pr1 nt1, done1) \<Rightarrow> Some (Fails e pr1 nt1, done1)
           | Some (Blocks pr1, done1) \<Rightarrow> Some (Blocks pr1, done1)
           | Some (Done pr1 nt1, done1) \<Rightarrow>
               (case proc_finish rd' pr1 nt1 of
                  None \<Rightarrow> None
                | Some (Fails e pr2 nt2) \<Rightarrow> Some (Fails e pr2 nt2, done1)
                | Some (Blocks pr2) \<Rightarrow> Some (Blocks pr2, done1)
                | Some (Done pr2 nt2) \<Rightarrow>
                    (case check_for_error pr2 of
                       Some e \<Rightarrow> Some (Fails e pr2 nt2, done1)
                     | None \<Rightarrow> loop rd' request' m' parents' done1 pr2 nt2)))) = Some out"
      and eq: "rd' = rd" "request' = request" "m' = m" "parents' = parents" and I: "I done pr"
    show "Q m' parents' out"
    proof (cases "\<exists>c cs. get_next_chips m' done parents' = Inr (c # cs)")
      case False
      then show ?thesis using body I by (auto simp: Q_def split: sum.splits list.splits)
    next
      case True
      then obtain c cs where chips: "get_next_chips m' done parents' = Inr (c # cs)" by blast
      obtain r1 done1 where r1: "copy_round rd' request' (c # cs) done pr nt = Some (r1, done1)"
        using body chips by (cases "copy_round rd' request' (c # cs) done pr nt") auto
      have I1: "I done1 (end_state r1)" using round [OF I] chips r1 by (simp add: eq)
      show ?thesis
      proof (cases "\<exists>pr1 nt1 pr2 nt2. r1 = Done pr1 nt1 \<and> proc_finish rd' pr1 nt1 = Some (Done pr2 nt2)")
        case True
        then obtain pr1 nt1 pr2 nt2 where d: "r1 = Done pr1 nt1" "proc_finish rd pr1 nt1 = Some (Done pr2 nt2)"
          by (auto simp: eq)
        have "I done1 pr2" using finish [of done1 pr1 nt1 "Done pr2 nt2"] I1 d by simp
        then show ?thesis using body chips r1 d eq IH by (auto simp: Q_def split: option.splits)
      next
        case False
        then show ?thesis
          using body chips r1 eq I1 by (auto simp: Q_def dest: finish split: presult.splits option.splits)
      qed
    qed
  qed
  then show ?thesis using run start by (force simp: Q_def)
qed

subsection \<open>The datagrams\<close>

text \<open>
  The datagram that tells a chip to copy the binary from its parent and run it: it goes to the chip's monitor, with the
  link towards the parent below the checksum, the number of bytes, and a word that has a bit for each
  processor, the application from bit 24 on and bit 18 for a start that waits.
\<close>

definition copy_datagram ::
  "(xy \<Rightarrow> int list) \<Rightarrow> int \<Rightarrow> int \<Rightarrow> int \<Rightarrow> bool \<Rightarrow> chip \<Rightarrow> bytes \<Rightarrow> bool" where
  "copy_datagram processors n_bytes app_id checksum wait c bs \<longleftrightarrow>
     dg_command bs = scp_command_value CMD_APP_COPY_RUN \<and> dg_core bs = (fst (ch_xy c), snd (ch_xy c), 0) \<and>
     (case ch_parent_link c of
        None \<Rightarrow> False
      | Some link \<Rightarrow> dg_argument 0 bs = push_bit 3 (checksum AND 0x1FFFFFFF) OR link) \<and>
     dg_argument 1 bs = n_bytes \<and>
     list_all (\<lambda>p. bit (dg_argument 2 bs) p =
        (int p \<in> set (processors (ch_xy c)) \<or> bit (push_bit 24 app_id) p \<or> (wait \<and> p = 18))) [0..<32]"

lemma bit_one_at: "bit (push_bit n (1::int)) p \<longleftrightarrow> p = n"
  by (auto simp: bit_push_bit_iff bit_1_iff simp del: push_bit_of_1)

lemma processor_mask_bits:
  "processor_mask a ps = Inr b \<Longrightarrow> bit b p \<longleftrightarrow> bit a p \<or> int p \<in> set ps"
proof (induction a ps rule: processor_mask.induct)
  case (2 a q ps)
  have q: "0 \<le> q" "processor_mask (a OR push_bit (nat q) 1) ps = Inr b"
    using "2.prems" by (auto simp: shl_def split: if_splits)
  have "bit b p \<longleftrightarrow> bit (a OR push_bit (nat q) 1) p \<or> int p \<in> set ps"
    using "2.IH" [of "push_bit (nat q) 1"] q by (simp add: shl_def)
  then show ?case using q(1) unfolding bit_or_iff bit_one_at by auto
qed simp

lemma copy_run_wire:
  assumes "copy_run_request processors n_bytes app_id checksum wait c = Inr req" and "wire s req bs"
  shows "copy_datagram processors n_bytes app_id checksum wait c bs"
proof -
  obtain link mask kd arg where link: "ch_parent_link c = Some link" and mask: "processor_mask 0 (processors (ch_xy c)) = Inr mask"
    and req: "req = abstract_scp_request (scamp_header (fst (ch_xy c)) (snd (ch_xy c)) 0) CMD_APP_COPY_RUN
      (Some (push_bit 3 (checksum AND 0x1FFFFFFF) OR link)) (Some n_bytes) (Some arg) None kd"
    and arg: "arg = (if wait then (mask OR push_bit 24 app_id) OR WAIT_FLAG else mask OR push_bit 24 app_id)"
    using assms(1) unfolding copy_run_request_def app_copy_run_def processors_mask_def
    by (auto simp: bind_res_def Let_def split: option.splits if_splits sum.splits)
  have "bit arg p = (int p \<in> set (processors (ch_xy c)) \<or> bit (push_bit 24 app_id) p \<or> (wait \<and> p = 18))" for p
    unfolding arg
    by (cases "wait") (auto simp only: if_True if_False WAIT_FLAG_def bit_or_iff processor_mask_bits [OF mask] bit_one_at bit_0_eq bot_apply bot_bool_def)
  moreover have "dg_argument 2 bs = arg" "dg_argument 0 bs = push_bit 3 (checksum AND 0x1FFFFFFF) OR link"
    "dg_argument 1 bs = n_bytes" "dg_command bs = scp_command_value CMD_APP_COPY_RUN" "dg_chip bs = ch_xy c" "dg_cpu bs = 0"
    unfolding wire_fields [OF assms(2)] req by (simp_all add: abstract_scp_request_def scamp_header_def or_zero_def)
  ultimately show ?thesis by (simp only: copy_datagram_def dg_core_def link option.case list_all_iff) blast
qed

text \<open>The datagrams of a run that starts with \<open>pr0\<close>: each of a chip to be asked, and one for every chip done but the first.\<close>

definition asks :: "machine \<Rightarrow> xy \<Rightarrow> (chip \<Rightarrow> bytes \<Rightarrow> bool) \<Rightarrow> bytes set" where
  "asks m boot R = {bs. \<exists>c \<in> set m. hangs_on m boot (ch_xy c) \<and> ch_xy c \<noteq> boot \<and> R c bs}"

definition asked :: "machine \<Rightarrow> (chip \<Rightarrow> bytes \<Rightarrow> bool) \<Rightarrow> bytes list \<Rightarrow> xy \<Rightarrow> bool" where
  "asked m R datagrams k \<longleftrightarrow> (\<exists>c \<in> set m. ch_xy c = k \<and> (\<exists>bs \<in> set datagrams. R c bs))"

lemma asked_mono: "asked m R ds k \<Longrightarrow> set ds \<subseteq> set ds' \<Longrightarrow> asked m R ds' k"
  by (auto simp: asked_def)

lemma set_update_subset: "set (AList.update k v al) \<subseteq> insert (k, v) (set al)"
  by (induction al) auto

lemma all_done_add: "set (all_done (add_done c done)) \<subseteq> insert (ch_xy c) (set (all_done done))"
proof
  fix k assume "k \<in> set (all_done (add_done c done))"
  then obtain e ks where e: "(e, ks) \<in> set (add_done c done)" "k \<in> set ks" by (auto simp: all_done_def)
  then show "k \<in> insert (ch_xy c) (set (all_done done))"
    using set_update_subset [of "ch_ethernet c" "_ @ [ch_xy c]" "done"] map_of_SomeD [of "done" "ch_ethernet c"]
    by (fastforce simp: add_done_def all_done_def split: option.splits dest!: subsetD [OF set_update_subset])
qed

lemma copy_round_sends:
  assumes "copy_round rd request cs done pr nt = Some (r, done')" and "process_stores B pr"
    and "\<And>c req s bs. c \<in> set cs \<Longrightarrow> request c = Inr req \<Longrightarrow> wire s req bs \<Longrightarrow> c \<in> set m \<and> R c bs \<and> bs \<in> B"
  shows "process_sends B pr (end_state r) \<and>
    (\<forall>k \<in> set (all_done done'). k \<in> set (all_done done) \<or> asked m R (sent pr (end_state r)) k)"
  using assms
proof (induction cs arbitrary: "done" pr nt)
  case (Cons c cs)
  show ?case
  proof (cases "request c")
    case (Inl e)
    then show ?thesis using Cons.prems by (auto simp: process_sends_refl)
  next
    case (Inr req)
    obtain r1 where r1: "proc_send_request rd req None pr nt = Some r1"
      using Cons.prems(1) Inr by (auto split: option.splits)
    have B: "wire s req bs \<Longrightarrow> c \<in> set m \<and> R c bs \<and> bs \<in> B" for s bs by (rule Cons.prems(3) [OF _ Inr]) simp_all
    have w: "process_sends B pr (end_state r1)" and new: "\<forall>pr1 nt1. r1 = Done pr1 nt1 \<longrightarrow> asked m R (sent pr pr1) (ch_xy c)"
      using proc_send_request_sends [OF r1 Cons.prems(2)] B by (auto simp: asked_def) blast
    show ?thesis
    proof (cases r1)
      case (Done pr1 nt1)
      have w: "process_sends B pr pr1" using w Done by simp
      have rest: "copy_round rd request cs (add_done c done) pr1 nt1 = Some (r, done')"
        using Cons.prems(1) Inr r1 Done by simp
      have ih: "process_sends B pr1 (end_state r) \<and>
          (\<forall>k \<in> set (all_done done'). k \<in> set (all_done (add_done c done)) \<or> asked m R (sent pr1 (end_state r)) k)"
        by (rule Cons.IH [OF rest process_sends_stores [OF w] Cons.prems(3)]) simp_all
      note more_sent = sent_extends [OF w conjunct1 [OF ih]]
      have "asked m R (sent pr (end_state r)) (ch_xy c)" using asked_mono [OF _ more_sent(1)] new Done by blast
      then show ?thesis
        using ih process_sends_trans [OF w] asked_mono [OF _ more_sent(2)] all_done_add [of c "done"] by blast
    qed (use Cons.prems(1) Inr r1 w in auto)
  qed
qed (auto simp: process_sends_refl)

subsection \<open>The number of rounds\<close>

text \<open>The loop cut off after \<open>n\<close> rounds: a further round gives \<open>out\<close>.\<close>

fun copy_rounds_in ::
  "(('v process, net) presult \<times> chips_done) option \<Rightarrow> nat \<Rightarrow> reader \<Rightarrow> (chip \<Rightarrow> scp_request res) \<Rightarrow> machine \<Rightarrow>
     (xy \<Rightarrow> chip list) \<Rightarrow> chips_done \<Rightarrow> 'v process \<Rightarrow> net \<Rightarrow> (('v process, net) presult \<times> chips_done) option" where
  "copy_rounds_in out n rd request m parents done pr nt =
     (case get_next_chips m done parents of
        Inl e \<Rightarrow> Some (Fails e pr nt, done)
      | Inr [] \<Rightarrow> Some (Done pr nt, done)
      | Inr (c # cs) \<Rightarrow>
          (case n of
             0 \<Rightarrow> out
           | Suc k \<Rightarrow>
               (case copy_round rd request (c # cs) done pr nt of
                  None \<Rightarrow> None
                | Some (Fails e pr1 nt1, done1) \<Rightarrow> Some (Fails e pr1 nt1, done1)
                | Some (Blocks pr1, done1) \<Rightarrow> Some (Blocks pr1, done1)
                | Some (Done pr1 nt1, done1) \<Rightarrow>
                    (case proc_finish rd pr1 nt1 of
                       None \<Rightarrow> None
                     | Some (Fails e pr2 nt2) \<Rightarrow> Some (Fails e pr2 nt2, done1)
                     | Some (Blocks pr2) \<Rightarrow> Some (Blocks pr2, done1)
                     | Some (Done pr2 nt2) \<Rightarrow>
                         (case check_for_error pr2 of
                            Some e \<Rightarrow> Some (Fails e pr2 nt2, done1)
                          | None \<Rightarrow> copy_rounds_in out k rd request m parents done1 pr2 nt2)))))"

declare copy_rounds_in.simps [simp del]

definition chips_left :: "machine \<Rightarrow> chips_done \<Rightarrow> nat" where
  "chips_left m done = card (ch_xy ` set m - set (all_done done))"

lemma chips_left_round:
  assumes "done_ok m boot done" and "next_ok m boot done (c # cs)"
  shows "chips_left m (fold add_done (c # cs) done) < chips_left m done"
proof -
  have "set (all_done (fold add_done (c # cs) done)) = ch_xy ` set (c # cs) \<union> set (all_done done)"
    using fold_add_done_ok [OF assms] by blast
  moreover have "ch_xy c \<in> ch_xy ` set m - set (all_done done)" using assms(2) by (simp add: next_ok_def)
  ultimately show ?thesis unfolding chips_left_def by (intro psubset_card_mono) auto
qed

lemma copy_rounds_bounded:
  "distinct (map ch_xy m) \<Longrightarrow> done_ok m boot done \<Longrightarrow> chips_left m done \<le> n \<Longrightarrow>
     copy_rounds rd request m (children m) done pr nt =
     copy_rounds_in out n rd request m (children m) done pr nt"
proof (induction n arbitrary: "done" pr nt)
  case 0
  show ?case
  proof (cases "get_next_chips m done (children m)")
    case (Inr cs)
    then have "cs = []"
      using chips_left_round [OF 0(2)] get_next_chips_ok [OF 0(2,1)] 0(3) by (cases cs) auto
    then show ?thesis using Inr by (simp add: copy_rounds.simps copy_rounds_in.simps)
  qed (simp add: copy_rounds.simps copy_rounds_in.simps)
next
  case (Suc n)
  show ?case
  proof (cases "get_next_chips m done (children m)")
    case (Inr cs)
    show ?thesis
    proof (cases cs)
      case (Cons c cs')
      note next_ok = get_next_chips_ok [OF Suc.prems(2,1) Inr [unfolded Cons]]
      have step: "copy_rounds rd request m (children m) done1 pr2 nt2 =
          copy_rounds_in out n rd request m (children m) done1 pr2 nt2"
        if round: "copy_round rd request (c # cs') done pr nt = Some (Done pr1 nt1, done1)"
        for pr1 nt1 done1 pr2 nt2
      proof (rule Suc.IH [OF Suc.prems(1)])
        have d1: "done1 = fold add_done (c # cs') done" using copy_round_done [OF round] by auto
        show "done_ok m boot done1" using fold_add_done_ok [OF Suc.prems(2) next_ok] d1 by blast
        show "chips_left m done1 \<le> n"
          using chips_left_round [OF Suc.prems(2) next_ok] Suc.prems(3) by (simp only: d1)
      qed
      show ?thesis
        by (subst copy_rounds.simps, subst copy_rounds_in.simps)
          (simp add: Inr Cons step split: option.split presult.split)
    qed (simp add: Inr copy_rounds.simps copy_rounds_in.simps)
  qed (simp add: copy_rounds.simps copy_rounds_in.simps)
qed

lemma start_done_ok:
  "c \<in> set m \<Longrightarrow> ch_xy c = boot \<Longrightarrow> ch_ethernet c = boot \<Longrightarrow> done_ok m boot [(boot, [boot])]"
  by (auto simp: done_ok_def intro: hangs_on.boot)

lemma parents_children: "compute_parent_chips m (\<lambda>_. []) = Inr parents \<Longrightarrow> parents = children m"
  using compute_parent_chips_children by (intro ext) fastforce

subsection \<open>The process\<close>

text \<open>What holds during a run that starts with \<open>pr0\<close>, and is kept by its rounds.\<close>

definition copy_inv ::
  "machine \<Rightarrow> xy \<Rightarrow> (chip \<Rightarrow> bytes \<Rightarrow> bool) \<Rightarrow> 'v process \<Rightarrow> chips_done \<Rightarrow> 'v process \<Rightarrow> bool" where
  "copy_inv m boot R pr0 done pr \<longleftrightarrow>
     done_ok m boot done \<and> boot \<in> set (all_done done) \<and> process_sends (asks m boot R) pr0 pr \<and>
     (\<forall>k \<in> set (all_done done) - {boot}. asked m R (sent pr0 pr) k)"

lemma copy_inv_sends:
  assumes "copy_inv m boot R pr0 done pr" and "process_sends (asks m boot R) pr pr1"
  shows "copy_inv m boot R pr0 done pr1"
  using assms sent_extends(1) [OF _ assms(2)] process_sends_trans [OF _ assms(2)] asked_mono
  unfolding copy_inv_def by blast

lemma copy_inv_round:
  assumes inv: "copy_inv m boot R pr0 done pr" and m: "distinct (map ch_xy m)"
    and cs: "get_next_chips m done (children m) = Inr cs"
    and round: "copy_round rd request cs done pr nt = Some (r1, done1)"
    and R: "\<And>c req s bs. request c = Inr req \<Longrightarrow> wire s req bs \<Longrightarrow> R c bs"
  shows "copy_inv m boot R pr0 done1 (end_state r1)"
proof -
  have d: "done_ok m boot done" "boot \<in> set (all_done done)" and w0: "process_sends (asks m boot R) pr0 pr"
    using inv by (simp_all add: copy_inv_def)
  note chips = get_next_chips_ok [OF d(1) m cs]
  obtain served rest where "cs = served @ rest" "done1 = fold add_done served done"
    using copy_round_done [OF round] by blast
  then have d1: "done_ok m boot done1" "boot \<in> set (all_done done1)"
    using fold_add_done_ok [OF d(1)] chips next_ok_prefix d(2) by auto
  have ask: "c \<in> set m \<and> R c bs \<and> bs \<in> asks m boot R" if "c \<in> set cs" "request c = Inr req" "wire s req bs" for c req s bs
    using chips that(1) R [OF that(2,3)] d(2) by (auto simp: next_ok_def asks_def)
  have sends: "process_sends (asks m boot R) pr (end_state r1) \<and>
      (\<forall>k \<in> set (all_done done1). k \<in> set (all_done done) \<or> asked m R (sent pr (end_state r1)) k)"
    by (rule copy_round_sends [OF round process_sends_stores [OF w0]]) (rule ask)
  note w = conjunct1 [OF sends] and new = conjunct2 [OF sends]
  have old: "\<forall>k \<in> set (all_done done) - {boot}. asked m R (sent pr0 (end_state r1)) k"
    using copy_inv_sends [OF inv w] by (simp add: copy_inv_def)
  show ?thesis
    using d1 process_sends_trans [OF w0 w] old new asked_mono [OF _ sent_extends(2) [OF w0 w]] unfolding copy_inv_def by blast
qed

text \<open>
  C33: \<open>ApplicationCopyRunProcess.run\<close> reaches each chip at most once and only chips that hang on the boot chip over
  parent links. To each of them but the boot chip it has sent, in this run, a datagram with the copy-run command for
  this chip: the link to its parent, the checksum, the size, the application, the chip's processors and
  whether to wait; and it has sent no other datagram. When it returns without raising, it has reached exactly the chips
  that hang on the boot chip, over board boundaries and however many rounds that takes.
\<close>
theorem copy_run_reaches:
  assumes "distinct (map ch_xy m)" and "c \<in> set m" and "ch_xy c = boot" and "ch_ethernet c = boot" and "fresh pr"
    and "application_copy_run rd m boot processors n_bytes app_id checksum wait pr nt = Some (r, done)"
    and "R = copy_datagram processors n_bytes app_id checksum wait"
  shows "distinct (all_done done) \<and> (\<forall>k \<in> set (all_done done). hangs_on m boot k) \<and>
    (\<forall>k \<in> set (all_done done) - {boot}. \<exists>c \<in> set m. ch_xy c = k \<and> (\<exists>bs \<in> set (sent pr (end_state r)). R c bs)) \<and>
    (\<forall>bs \<in> set (sent pr (end_state r)). \<exists>c \<in> set m. hangs_on m boot (ch_xy c) \<and> ch_xy c \<noteq> boot \<and> R c bs) \<and>
    (\<forall>pr' nt'. r = Done pr' nt' \<longrightarrow> set (all_done done) = {k. hangs_on m boot k})"
proof -
  let ?request = "copy_run_request processors n_bytes app_id checksum wait" and ?done0 = "[(boot, [boot])]"
  have p0: "process_stores (asks m boot R) pr" by (rule idle_stores [OF fresh_idle [OF assms(5)]])
  have start: "copy_inv m boot R pr ?done0 pr"
    using start_done_ok [OF assms(2-4)] process_sends_refl [OF p0] by (simp add: copy_inv_def)
  have "copy_inv m boot R pr done (end_state r) \<and>
      (\<forall>pr' nt'. r = Done pr' nt' \<longrightarrow> get_next_chips m done (children m) = Inr [])"
  proof (cases "compute_parent_chips m (\<lambda>_. [])")
    case (Inl e)
    then show ?thesis using assms(6) start by (auto simp: application_copy_run_def)
  next
    case (Inr parents)
    then have run: "copy_rounds rd ?request m (children m) ?done0 pr nt = Some (r, done)"
      using assms(6) by (simp add: application_copy_run_def parents_children [OF Inr])
    show ?thesis
    proof (rule copy_rounds_rule [where I = "copy_inv m boot R pr", OF run start])
      fix d p n cs r1 d1
      assume "copy_inv m boot R pr d p" "get_next_chips m d (children m) = Inr cs" "copy_round rd ?request cs d p n = Some (r1, d1)"
      then show "copy_inv m boot R pr d1 (end_state r1)"
        using copy_inv_round [OF _ assms(1)] copy_run_wire unfolding assms(7) by blast
    next
      fix d p n r1
      assume inv: "copy_inv m boot R pr d p" and "proc_finish rd p n = Some r1"
      then have "process_sends (asks m boot R) p (end_state r1)"
        using finish_all_sends process_sends_stores unfolding proc_finish_def copy_inv_def by blast
      then show "copy_inv m boot R pr d (end_state r1)" by (rule copy_inv_sends [OF inv])
    qed
  qed
  then have inv: "copy_inv m boot R pr done (end_state r)"
    and all: "r = Done pr' nt' \<Longrightarrow> set (all_done done) = {k. hangs_on m boot k}" for pr' nt'
    using get_next_chips_Nil [OF _ assms(1)] by (auto simp: copy_inv_def)
  have "set (sent pr (end_state r)) \<subseteq> asks m boot R" using inv sent_subset by (auto simp: copy_inv_def)
  then show ?thesis
    using inv all by (fastforce simp: copy_inv_def asks_def asked_def done_ok_def all_done_def)
qed

text \<open>
  C34: the rounds of \<open>ApplicationCopyRunProcess.run\<close> end: the run is the same as one cut off after as many
  rounds as the machine has chips, whatever a further round would give, so that it can go on for ever only
  within the pipeline.
\<close>
theorem copy_run_rounds:
  assumes "distinct (map ch_xy m)" and "c \<in> set m" and "ch_xy c = boot" and "ch_ethernet c = boot"
  shows "application_copy_run rd m boot processors n_bytes app_id checksum wait pr nt =
    (case compute_parent_chips m (\<lambda>_. []) of
       Inl e \<Rightarrow> Some (Fails e pr nt, [(boot, [boot])])
     | Inr parents \<Rightarrow>
         copy_rounds_in out (length m) rd (copy_run_request processors n_bytes app_id checksum wait) m parents
           [(boot, [boot])] pr nt)"
proof (cases "compute_parent_chips m (\<lambda>_. [])")
  case (Inr parents)
  have "chips_left m [(boot, [boot])] \<le> length m"
    unfolding chips_left_def using card_mono [of "ch_xy ` set m" "ch_xy ` set m - {boot}"] card_length [of "map ch_xy m"]
    by simp
  then show ?thesis
    using Inr copy_rounds_bounded [OF assms(1) start_done_ok [OF assms(2-4)]]
    by (simp add: application_copy_run_def parents_children [OF Inr])
qed (simp add: application_copy_run_def)

text \<open>Two boards, the second behind a link of the boot chip, and a chip that hangs on nothing.\<close>

definition sample_machine :: machine where
  "sample_machine =
     [\<lparr>ch_xy = (0, 0), ch_ethernet = (0, 0), ch_parent_link = None, ch_parent = None\<rparr>,
      \<lparr>ch_xy = (0, 1), ch_ethernet = (0, 0), ch_parent_link = Some 5, ch_parent = Some (0, 0)\<rparr>,
      \<lparr>ch_xy = (4, 8), ch_ethernet = (4, 8), ch_parent_link = Some 1, ch_parent = Some (0, 0)\<rparr>,
      \<lparr>ch_xy = (4, 9), ch_ethernet = (4, 8), ch_parent_link = Some 5, ch_parent = Some (4, 8)\<rparr>,
      \<lparr>ch_xy = (9, 9), ch_ethernet = (9, 9), ch_parent_link = None, ch_parent = None\<rparr>]"

definition sample_run :: "((unit process, net) presult \<times> chips_done) option" where
  "sample_run = application_copy_run (read_bytestring 6) sample_machine (0, 0) (\<lambda>_. [1, 2]) 100 30 7 False
     (fresh_process ()) (replies [[], [], []])"

lemma run_outcome:
  assumes "case out of Some (Done pr nt, done) \<Rightarrow> done = done0 | _ \<Rightarrow> False"
  obtains pr nt where "out = Some (Done pr nt, done0)"
proof (cases out)
  case (Some x)
  then show ?thesis using assms that by (cases x; cases "fst x") auto
qed (use assms in simp)

theorem copy_run_reaches_witness:
  "{k. hangs_on sample_machine (0, 0) k} = {(0, 0), (0, 1), (4, 8), (4, 9)} \<and>
    (\<exists>pr nt done. sample_run = Some (Done pr nt, done) \<and>
       (\<exists>bs \<in> set (sent (fresh_process ()) pr). dg_chip bs = (4, 9) \<and> dg_command bs = scp_command_value CMD_APP_COPY_RUN))"
proof -
  have "(case sample_run of Some (Done pr nt, done) \<Rightarrow> done = [((0, 0), [(0, 0), (0, 1)]), ((4, 8), [(4, 8), (4, 9)])] | _ \<Rightarrow> False)"
    by code_simp
  then obtain pr nt where
    out: "sample_run = Some (Done pr nt, [((0, 0), [(0, 0), (0, 1)]), ((4, 8), [(4, 8), (4, 9)])])"
    by (elim run_outcome)
  note run = this [unfolded sample_run_def]
  have m: "distinct (map ch_xy sample_machine)" "hd sample_machine \<in> set sample_machine"
    "ch_xy (hd sample_machine) = (0, 0)" "ch_ethernet (hd sample_machine) = (0, 0)"
    by (simp_all add: sample_machine_def)
  note reached = copy_run_reaches [OF m fresh_fresh_process run refl]
  let ?ds = "set (sent (fresh_process ()) pr)"
  have "\<exists>c \<in> set sample_machine. ch_xy c = (4, 9) \<and> (\<exists>bs \<in> ?ds. copy_datagram (\<lambda>_. [1, 2]) 100 30 7 False c bs)"
    using conjunct1 [OF conjunct2 [OF conjunct2 [OF reached]]] by (simp add: all_done_def)
  then have "\<exists>bs \<in> ?ds. dg_chip bs = (4, 9) \<and> dg_command bs = scp_command_value CMD_APP_COPY_RUN"
    unfolding copy_datagram_def dg_core_def by (metis prod.collapse prod.inject)
  moreover have "{k. hangs_on sample_machine (0, 0) k} = {(0, 0), (0, 1), (4, 8), (4, 9)}"
    using reached by (auto simp: all_done_def)
  ultimately show ?thesis using out by blast
qed

theorem copy_run_rounds_witness:
  "sample_run =
    (case compute_parent_chips sample_machine (\<lambda>_. []) of
       Inl e \<Rightarrow> Some (Fails e (fresh_process ()) (replies [[], [], []]), [((0, 0), [(0, 0)])])
     | Inr parents \<Rightarrow>
         copy_rounds_in None 5 (read_bytestring 6) (copy_run_request (\<lambda>_. [1, 2]) 100 30 7 False) sample_machine
           parents [((0, 0), [(0, 0)])] (fresh_process ()) (replies [[], [], []]))"
proof -
  have m: "distinct (map ch_xy sample_machine)" "hd sample_machine \<in> set sample_machine"
    "ch_xy (hd sample_machine) = (0, 0)" "ch_ethernet (hd sample_machine) = (0, 0)"
    "length sample_machine = 5"
    by (simp_all add: sample_machine_def)
  show ?thesis unfolding sample_run_def by (rule copy_run_rounds [OF m(1-4), unfolded m(5)])
qed

end
