(* ===== verification/Proxy.thy ===== *)
theory Proxy
  imports SDP ChipInfo "HOL-Library.AList"
begin

text \<open>
  The proxy of the Spalloc service (\<open>spalloc/proxy_protocol.py\<close> and the proxied connections of
  \<open>spalloc/spalloc_client.py\<close>): many connections over one websocket. A frame is a number of the protocol,
  a correlation identifier (of a call) or a channel (of a message), and the rest. A thread takes the
  frames off the websocket and puts each into the queue that waits for it. The websocket itself is
  outside the program: what it does is a list of \<open>ws_event\<close>s, and whether the n-th send succeeds is an
  oracle. An operation that waits is given the events that the thread handles while it waits.
\<close>

subsection \<open>The protocol\<close>

datatype proxy_protocol = OPEN | CLOSE | MSG | OPEN_UNBOUND | MSG_TO | ERROR

fun proxy_protocol_value :: "proxy_protocol \<Rightarrow> int" where
  "proxy_protocol_value OPEN = 0"
| "proxy_protocol_value CLOSE = 1"
| "proxy_protocol_value MSG = 2"
| "proxy_protocol_value OPEN_UNBOUND = 3"
| "proxy_protocol_value MSG_TO = 4"
| "proxy_protocol_value ERROR = 5"

definition proxy_protocol_members :: "proxy_protocol list" where
  "proxy_protocol_members = [OPEN, CLOSE, MSG, OPEN_UNBOUND, MSG_TO, ERROR]"

interpretation proxy_protocol: py_enum proxy_protocol_members proxy_protocol_value
proof
  fix x show "x \<in> set proxy_protocol_members" by (cases x) (simp_all add: proxy_protocol_members_def)
qed (simp add: proxy_protocol_members_def)

text \<open>Members of an \<open>IntEnum\<close> are integers: they compare by value.\<close>

instantiation proxy_protocol :: linorder
begin

definition less_eq_proxy_protocol :: "proxy_protocol \<Rightarrow> proxy_protocol \<Rightarrow> bool" where
  "x \<le> y \<longleftrightarrow> proxy_protocol_value x \<le> proxy_protocol_value y"

definition less_proxy_protocol :: "proxy_protocol \<Rightarrow> proxy_protocol \<Rightarrow> bool" where
  "x < y \<longleftrightarrow> proxy_protocol_value x < proxy_protocol_value y"

instance
  by standard (auto simp: less_eq_proxy_protocol_def less_proxy_protocol_def proxy_protocol.val_antisym)

end

definition open_req :: "fitem list" where [layout]: "open_req = [FI, FI, FI, FI, FI]"
definition close_req :: "fitem list" where [layout]: "close_req = [FI, FI, FI]"
definition open_listen_req :: "fitem list" where [layout]: "open_listen_req = [FI, FI]"
definition open_close_res :: "fitem list" where [layout]: "open_close_res = [FI, FI, FI]"
definition open_listen_res :: "fitem list" where [layout]: "open_listen_res = [FI, FI, FI, FB, FB, FB, FB, FI]"
definition msg_format :: "fitem list" where [layout]: "msg_format = [FI, FI]"
definition msg_to_format :: "fitem list" where [layout]: "msg_to_format = [FI, FI, FI, FI, FI]"

definition MSG_SIZE :: nat where "MSG_SIZE = 8"

subsection \<open>State\<close>

text \<open>
  A connection: \<open>px_attached\<close> until it is closed, when its websocket and its receiver become \<open>None\<close>; its
  handle is unset until the channel is open. An item of a queue is a frame, or \<open>None\<close> for the notice that
  the websocket was lost. \<open>px_addr\<close> and \<open>px_port\<close> belong to connections that are not bound to a board.
\<close>

record proxied =
  px_attached :: bool
  px_handle :: "int option"
  px_msgs :: "bytes option list"
  px_call_queue :: "bytes option list"
  px_current_msg :: "bytes option"
  px_addr :: "int list option"
  px_port :: "int option"

text \<open>
  The receiver: its dictionaries map correlation identifiers and channels to connections (by their
  numbers), in the place of the bound methods that put into their queues. \<open>rc_frame\<close> is the local variable
  of the loop, and \<open>rc_running\<close> says that the loop has not ended.
\<close>

record proxy_receiver =
  rc_returns :: "(int \<times> nat) list"
  rc_handlers :: "(int \<times> nat) list"
  rc_correlation_id :: int
  rc_closed :: bool
  rc_frame :: "bytes option"
  rc_running :: bool

record proxy =
  ws_connected :: bool
  ws_faults :: "nat \<Rightarrow> exc option"
  ws_attempts :: "bytes list"
  px_receiver :: proxy_receiver
  px_connections :: "proxied list"

definition receiver_init :: proxy_receiver where
  "receiver_init = \<lparr>rc_returns = [], rc_handlers = [], rc_correlation_id = 0, rc_closed = False,
     rc_frame = None, rc_running = True\<rparr>"

definition proxy_init :: "(nat \<Rightarrow> exc option) \<Rightarrow> proxy" where
  "proxy_init faults = \<lparr>ws_connected = True, ws_faults = faults, ws_attempts = [],
     px_receiver = receiver_init, px_connections = []\<rparr>"

definition px_connection :: "proxy \<Rightarrow> nat \<Rightarrow> proxied" where
  "px_connection p i = px_connections p ! i"

definition update_connection :: "nat \<Rightarrow> (proxied \<Rightarrow> proxied) \<Rightarrow> proxy \<Rightarrow> proxy" where
  "update_connection i f p = p\<lparr>px_connections := (px_connections p)[i := f (px_connection p i)]\<rparr>"

definition update_receiver :: "(proxy_receiver \<Rightarrow> proxy_receiver) \<Rightarrow> proxy \<Rightarrow> proxy" where
  "update_receiver f p = p\<lparr>px_receiver := f (px_receiver p)\<rparr>"

definition ws_send :: "bytes \<Rightarrow> proxy \<Rightarrow> proxy \<times> exc option" where
  "ws_send data p = (p\<lparr>ws_attempts := ws_attempts p @ [data]\<rparr>, ws_faults p (length (ws_attempts p)))"

definition is_connected :: "nat \<Rightarrow> proxy \<Rightarrow> bool" where
  "is_connected i p \<longleftrightarrow> px_attached (px_connection p i) \<and> ws_connected p"

subsection \<open>\<open>_ProxyReceiver\<close>\<close>

definition expect_return :: "nat \<Rightarrow> proxy_receiver \<Rightarrow> int \<times> proxy_receiver" where
  "expect_return i r =
     (let c = rc_correlation_id r
      in (c, r\<lparr>rc_correlation_id := c + 1, rc_returns := AList.update c i (rc_returns r)\<rparr>))"

definition listen :: "int \<Rightarrow> nat \<Rightarrow> proxy_receiver \<Rightarrow> proxy_receiver" where
  "listen channel_id i r = r\<lparr>rc_handlers := AList.update channel_id i (rc_handlers r)\<rparr>"

definition unlisten :: "int \<Rightarrow> proxy_receiver \<Rightarrow> proxy_receiver res" where
  "unlisten channel_id r =
     (case map_of (rc_handlers r) channel_id of
        None \<Rightarrow> Inl PyKeyError
      | Some _ \<Rightarrow> Inr (r\<lparr>rc_handlers := AList.delete channel_id (rc_handlers r)\<rparr>))"

text \<open>The call queue of a connection holds one item: the thread waits (\<open>None\<close>) while it is full.\<close>

definition put_return :: "nat \<Rightarrow> bytes option \<Rightarrow> proxy \<Rightarrow> proxy option" where
  "put_return i item p =
     (if px_call_queue (px_connection p i) \<noteq> [] then None
      else Some (update_connection i (\<lambda>c. c\<lparr>px_call_queue := [item]\<rparr>) p))"

definition put_msg :: "nat \<Rightarrow> bytes option \<Rightarrow> proxy \<Rightarrow> proxy" where
  "put_msg i item = update_connection i (\<lambda>c. c\<lparr>px_msgs := px_msgs c @ [item]\<rparr>)"

definition dispatch_return :: "int \<Rightarrow> bytes \<Rightarrow> proxy \<Rightarrow> proxy option" where
  "dispatch_return correlation_id msg p =
     (case map_of (rc_returns (px_receiver p)) correlation_id of
        None \<Rightarrow> Some p
      | Some i \<Rightarrow>
          put_return i (Some msg)
            (update_receiver (\<lambda>r. r\<lparr>rc_returns := AList.delete correlation_id (rc_returns r)\<rparr>) p))"

definition dispatch_message :: "int \<Rightarrow> bytes \<Rightarrow> proxy \<Rightarrow> proxy" where
  "dispatch_message channel_id msg p =
     (case map_of (rc_handlers (px_receiver p)) channel_id of
        None \<Rightarrow> p
      | Some i \<Rightarrow> put_msg i (Some msg) p)"

text \<open>The code and the number of a frame; a frame that is too short ends the thread.\<close>

definition frame_head :: "bytes \<Rightarrow> (int \<times> int) option" where
  "frame_head frame =
     (case struct_unpack_from Little msg_format frame 0 of Inr [code, num] \<Rightarrow> Some (code, num) | _ \<Rightarrow> None)"

definition stop_receiver :: "proxy \<Rightarrow> proxy" where
  "stop_receiver = update_receiver (\<lambda>r. r\<lparr>rc_running := False\<rparr>)"

definition dispatch_frame :: "bytes \<Rightarrow> proxy \<Rightarrow> proxy option" where
  "dispatch_frame frame p =
     (case frame_head frame of
        None \<Rightarrow> Some (stop_receiver p)
      | Some (code, num) \<Rightarrow>
          if code = proxy_protocol_value MSG then Some (dispatch_message num frame p)
          else dispatch_return num frame p)"

fun notify_returns :: "nat list \<Rightarrow> proxy \<Rightarrow> proxy option" where
  "notify_returns [] p = Some p"
| "notify_returns (i # is) p =
     (case put_return i None p of None \<Rightarrow> None | Some p' \<Rightarrow> notify_returns is p')"

definition notify_lost :: "proxy \<Rightarrow> proxy option" where
  "notify_lost p =
     (case notify_returns (map snd (rc_returns (px_receiver p))) p of
        None \<Rightarrow> None
      | Some p' \<Rightarrow> Some (fold (\<lambda>i. put_msg i None) (map snd (rc_handlers (px_receiver p'))) p'))"

text \<open>
  What happens at the websocket: a frame arrives, \<open>recv_data\<close> raises, the connection is lost (which it may
  be before the thread notices), or the condition of the loop is tested.
\<close>

datatype ws_event = Frame bytes | RecvRaises | Disconnects | LoopTest

text \<open>
  The loop of \<open>run\<close>. When \<open>recv_data\<close> raises while the websocket stays connected, the loop goes on with the
  frame that it has: the one before, or none at all, which is an \<open>UnboundLocalError\<close>.
\<close>

definition receiver_step :: "ws_event \<Rightarrow> proxy \<Rightarrow> proxy option" where
  "receiver_step ev p =
     (let r = px_receiver p
      in case ev of
           Disconnects \<Rightarrow> Some (p\<lparr>ws_connected := False\<rparr>)
         | LoopTest \<Rightarrow> Some (if ws_connected p then p else stop_receiver p)
         | Frame frame \<Rightarrow>
             if \<not> rc_running r then Some p
             else let p' = update_receiver (\<lambda>r. r\<lparr>rc_frame := Some frame\<rparr>) p
                  in if length frame < MSG_SIZE then Some p' else dispatch_frame frame p'
         | RecvRaises \<Rightarrow>
             if \<not> rc_running r then Some p
             else if rc_closed r then Some (stop_receiver p)
             else if \<not> ws_connected p then map_option stop_receiver (notify_lost p)
             else (case rc_frame r of
                     None \<Rightarrow> Some (stop_receiver p)
                   | Some frame \<Rightarrow> dispatch_frame frame p))"

text \<open>The events of a wait; those that come after a full call queue have to wait themselves.\<close>

fun receiver_run :: "ws_event list \<Rightarrow> proxy \<Rightarrow> proxy" where
  "receiver_run [] p = p"
| "receiver_run (ev # evs) p =
     (case receiver_step ev p of None \<Rightarrow> p | Some p' \<Rightarrow> receiver_run evs p')"

definition receiver_close :: "proxy \<Rightarrow> proxy" where
  "receiver_close = update_receiver (\<lambda>r. r\<lparr>rc_closed := True\<rparr>)"

subsection \<open>\<open>_ProxiedConnection\<close>\<close>

text \<open>An operation returns, raises, or waits for something that does not come.\<close>

datatype 'a px_result =
    PxDone 'a proxy
  | PxRaise exc proxy
  | PxWait proxy

definition px_bind :: "'a px_result \<Rightarrow> ('a \<Rightarrow> proxy \<Rightarrow> 'b px_result) \<Rightarrow> 'b px_result" where
  "px_bind r f = (case r of PxDone x p \<Rightarrow> f x p | PxRaise e p \<Rightarrow> PxRaise e p | PxWait p \<Rightarrow> PxWait p)"

text \<open>\<open>_call\<close>: the sending, the check after it, and the reply.\<close>

definition call_send ::
  "nat \<Rightarrow> proxy_protocol \<Rightarrow> fitem list \<Rightarrow> int list \<Rightarrow> proxy \<Rightarrow> int px_result" where
  "call_send i protocol packer args p =
     (if \<not> is_connected i p then PxRaise PyOSError p
      else case expect_return i (px_receiver p) of
        (correlation_id, r) \<Rightarrow>
          let p1 = p\<lparr>px_receiver := r\<rparr>
          in case struct_pack Little packer (proxy_protocol_value protocol # correlation_id # args) of
               Inl e \<Rightarrow> PxRaise e p1
             | Inr data \<Rightarrow>
                 (case ws_send data p1 of
                    (p2, Some e) \<Rightarrow> PxRaise e p2
                  | (p2, None) \<Rightarrow> PxDone correlation_id p2))"

text \<open>
  The rest of a reply after its code and its correlation identifier. An error carries a text: it is raised
  as a \<open>_ProxyServiceError\<close>, an \<open>IOError\<close>, if the text can be decoded.
\<close>

definition call_result :: "fitem list \<Rightarrow> bytes option \<Rightarrow> int list res" where
  "call_result unpacker item =
     bind_res (require PyTypeError item) (\<lambda>reply.
     bind_res (struct_unpack_from Little msg_format reply 0) (\<lambda>head.
       if hd head = proxy_protocol_value ERROR then
         (case utf8_decode (drop MSG_SIZE reply) of None \<Rightarrow> Inl PyValueError | Some _ \<Rightarrow> Inl PyOSError)
       else if length reply \<noteq> calcsize unpacker then Inl StructError
       else bind_res (struct_unpack_from Little unpacker reply 0) (\<lambda>vs. Inr (drop 2 vs))))"

definition call_reply :: "nat \<Rightarrow> fitem list \<Rightarrow> proxy \<Rightarrow> int list px_result" where
  "call_reply i unpacker p =
     (case px_call_queue (px_connection p i) of
        [] \<Rightarrow> PxWait p
      | item # items \<Rightarrow>
          let p' = update_connection i (\<lambda>c. c\<lparr>px_call_queue := items\<rparr>) p
          in case call_result unpacker item of Inl e \<Rightarrow> PxRaise e p' | Inr vs \<Rightarrow> PxDone vs p')"

definition px_call ::
  "nat \<Rightarrow> proxy_protocol \<Rightarrow> fitem list \<Rightarrow> fitem list \<Rightarrow> int list \<Rightarrow> ws_event list \<Rightarrow> ws_event list \<Rightarrow>
     proxy \<Rightarrow> int list px_result" where
  "px_call i protocol packer unpacker args sending waiting p =
     px_bind (call_send i protocol packer args p) (\<lambda>_ p1.
       let p2 = receiver_run sending p1
       in if \<not> is_connected i p2 then PxRaise PyOSError p2
          else call_reply i unpacker (receiver_run waiting p2))"

definition throw_if_closed :: "nat \<Rightarrow> proxy \<Rightarrow> unit px_result" where
  "throw_if_closed i p = (if is_connected i p then PxDone () p else PxRaise PyOSError p)"

definition px_close :: "nat \<Rightarrow> ws_event list \<Rightarrow> ws_event list \<Rightarrow> proxy \<Rightarrow> unit px_result" where
  "px_close i sending waiting p =
     (let handle = the (px_handle (px_connection p i))
      in px_bind
           (if is_connected i p then
              px_bind (px_call i CLOSE close_req open_close_res [handle] sending waiting p) (\<lambda>vs p1.
                if vs = [handle] then PxDone () p1 else PxRaise PyOSError p1)
            else PxDone () p) (\<lambda>_ p1.
         if px_attached (px_connection p1 i) then
           (case unlisten handle (px_receiver p1) of
              Inl e \<Rightarrow> PxRaise e p1
            | Inr r \<Rightarrow> PxDone () (update_connection i (\<lambda>c. c\<lparr>px_attached := False\<rparr>) (p1\<lparr>px_receiver := r\<rparr>)))
         else PxDone () p1))"

definition send_framed :: "nat \<Rightarrow> bytes res \<Rightarrow> bytes \<Rightarrow> proxy \<Rightarrow> unit px_result" where
  "send_framed i head message p =
     px_bind (throw_if_closed i p) (\<lambda>_ p1.
       case head of
         Inl e \<Rightarrow> PxRaise e p1
       | Inr h \<Rightarrow>
           (case ws_send (h @ message) p1 of (p2, Some e) \<Rightarrow> PxRaise e p2 | (p2, None) \<Rightarrow> PxDone () p2))"

definition px_send :: "nat \<Rightarrow> bytes \<Rightarrow> proxy \<Rightarrow> unit px_result" where
  "px_send i message p =
     send_framed i
       (struct_pack Little msg_format [proxy_protocol_value MSG, the (px_handle (px_connection p i))]) message p"

definition px_send_to :: "nat \<Rightarrow> bytes \<Rightarrow> int \<Rightarrow> int \<Rightarrow> int \<Rightarrow> proxy \<Rightarrow> unit px_result" where
  "px_send_to i message x y port p =
     send_framed i
       (struct_pack Little msg_to_format
          [proxy_protocol_value MSG_TO, the (px_handle (px_connection p i)), x, y, port]) message p"

text \<open>
  \<open>__get\<close>: the next message without the eight bytes of its head; the notice of a lost websocket is
  subscripted all the same. \<open>None\<close> is \<open>queue.Empty\<close>.
\<close>

definition px_get :: "nat \<Rightarrow> proxy \<Rightarrow> bytes px_result option" where
  "px_get i p =
     (case px_msgs (px_connection p i) of
        [] \<Rightarrow> None
      | item # items \<Rightarrow>
          let p' = update_connection i (\<lambda>c. c\<lparr>px_msgs := items\<rparr>) p
          in Some (case item of None \<Rightarrow> PxRaise PyTypeError p' | Some frame \<Rightarrow> PxDone (drop MSG_SIZE frame) p'))"

definition take_current :: "nat \<Rightarrow> proxy \<Rightarrow> proxy" where
  "take_current i = update_connection i (\<lambda>c. c\<lparr>px_current_msg := None\<rparr>)"

text \<open>A time of zero does not wait; without a time the waiting ends with the connection only.\<close>

definition px_receive :: "nat \<Rightarrow> int option \<Rightarrow> ws_event list \<Rightarrow> proxy \<Rightarrow> bytes px_result" where
  "px_receive i timeout waiting p =
     (case px_current_msg (px_connection p i) of
        Some msg \<Rightarrow> PxDone msg (take_current i p)
      | None \<Rightarrow>
          let p1 = (if timeout = Some 0 then p else receiver_run waiting p)
          in case px_get i p1 of
               Some r \<Rightarrow> r
             | None \<Rightarrow>
                 px_bind (throw_if_closed i p1) (\<lambda>_ p2.
                   if timeout = None then PxWait p2 else PxRaise SpinnmanTimeout p2))"

definition px_is_ready_to_receive :: "nat \<Rightarrow> int \<Rightarrow> ws_event list \<Rightarrow> proxy \<Rightarrow> bool px_result" where
  "px_is_ready_to_receive i timeout waiting p =
     (let c = px_connection p i
      in if px_current_msg c \<noteq> None \<or> px_msgs c \<noteq> [] then PxDone True p
         else let p1 = (if timeout = 0 then p else receiver_run waiting p)
              in case px_get i p1 of
                   None \<Rightarrow> PxDone False p1
                 | Some r \<Rightarrow>
                     px_bind r (\<lambda>msg p2.
                       PxDone True (update_connection i (\<lambda>c. c\<lparr>px_current_msg := Some msg\<rparr>) p2)))"

subsection \<open>Opening\<close>

definition new_connection :: "proxy \<Rightarrow> nat \<times> proxy" where
  "new_connection p =
     (length (px_connections p),
      p\<lparr>px_connections := px_connections p @
         [\<lparr>px_attached = True, px_handle = None, px_msgs = [], px_call_queue = [], px_current_msg = None,
           px_addr = None, px_port = None\<rparr>]\<rparr>)"

definition opened :: "nat \<Rightarrow> int \<Rightarrow> proxy \<Rightarrow> proxy" where
  "opened i handle p =
     update_receiver (listen handle i) (update_connection i (\<lambda>c. c\<lparr>px_handle := Some handle\<rparr>) p)"

text \<open>\<open>_ProxiedBidirectionalConnection\<close>: bound to a port of a board. The connection made is the result.\<close>

definition open_bidirectional ::
  "int \<Rightarrow> int \<Rightarrow> int \<Rightarrow> ws_event list \<Rightarrow> ws_event list \<Rightarrow> proxy \<Rightarrow> nat px_result" where
  "open_bidirectional x y port sending waiting p =
     (case new_connection p of
        (i, p0) \<Rightarrow>
          px_bind (px_call i OPEN open_req open_close_res [x, y, port] sending waiting p0) (\<lambda>vs p1.
            case vs of [handle] \<Rightarrow> PxDone i (opened i handle p1) | _ \<Rightarrow> PxRaise PyValueError p1))"

text \<open>
  \<open>_ProxiedUnboundConnection\<close>: the address and the port that the service bound are stored while the channel
  is opened, and the constructor sets both to \<open>None\<close> after that.
\<close>

definition open_unbound :: "ws_event list \<Rightarrow> ws_event list \<Rightarrow> proxy \<Rightarrow> nat px_result" where
  "open_unbound sending waiting p =
     (case new_connection p of
        (i, p0) \<Rightarrow>
          px_bind (px_call i OPEN_UNBOUND open_listen_req open_listen_res [] sending waiting p0) (\<lambda>vs p1.
            case vs of
              [handle, ip1, ip2, ip3, ip4, port] \<Rightarrow>
                let p2 = update_connection i (\<lambda>c. c\<lparr>px_port := Some port, px_addr := Some [ip1, ip2, ip3, ip4]\<rparr>) p1;
                    p3 = opened i handle p2
                in PxDone i (update_connection i (\<lambda>c. c\<lparr>px_addr := None, px_port := None\<rparr>) p3)
            | _ \<Rightarrow> PxRaise PyValueError p1))"

definition local_ip_address :: "nat \<Rightarrow> proxy \<Rightarrow> int list" where
  "local_ip_address i p =
     (case (if is_connected i p then px_addr (px_connection p i) else None) of
        None \<Rightarrow> [0, 0, 0, 0]
      | Some a \<Rightarrow> a)"

definition local_port :: "nat \<Rightarrow> proxy \<Rightarrow> int" where
  "local_port i p =
     (case (if is_connected i p then px_port (px_connection p i) else None) of
        None \<Rightarrow> 0
      | Some a \<Rightarrow> a)"

text \<open>An unbound connection cannot send without an address.\<close>

definition unbound_send :: "nat \<Rightarrow> proxy \<Rightarrow> unit px_result" where
  "unbound_send i p = px_bind (throw_if_closed i p) (\<lambda>_ p1. PxRaise PyOSError p1)"

text \<open>The address of a board is looked up in the connections of the job, turned round.\<close>

definition invert_connections :: "((int \<times> int) \<times> 'ip) list \<Rightarrow> ('ip \<times> (int \<times> int)) list" where
  "invert_connections conns = fold (\<lambda>(xy, ip). AList.update ip xy) conns []"

definition unbound_send_to ::
  "('ip \<times> (int \<times> int)) list \<Rightarrow> nat \<Rightarrow> bytes \<Rightarrow> 'ip \<Rightarrow> int \<Rightarrow> proxy \<Rightarrow> unit px_result" where
  "unbound_send_to conns i data ip port p =
     (case map_of conns ip of
        None \<Rightarrow> PxRaise PyKeyError p
      | Some (x, y) \<Rightarrow> px_send_to i data x y port p)"

end
