(* ===== verification/ProxyProps.thy ===== *)
theory ProxyProps
  imports Proxy
begin

text \<open>
  The proxy as its connections see it: each receives the messages of its channel, all of them, once and in
  order, whatever the other connections do; a call is answered by the reply to it; and what goes wrong when
  the websocket fails.
\<close>

lemma px_connection_update [simp]:
  "px_connection (update_connection j f p) i =
     (if i = j \<and> j < length (px_connections p) then f (px_connection p j) else px_connection p i)"
  by (cases "j < length (px_connections p)") (auto simp: px_connection_def update_connection_def list_update_beyond)

lemma update_connection_fields [simp]:
  "px_receiver (update_connection j f p) = px_receiver p"
  "ws_connected (update_connection j f p) = ws_connected p"
  "length (px_connections (update_connection j f p)) = length (px_connections p)"
  by (simp_all add: update_connection_def)

lemma update_receiver_fields [simp]:
  "px_receiver (update_receiver f p) = f (px_receiver p)"
  "px_connection (update_receiver f p) i = px_connection p i"
  "px_connections (update_receiver f p) = px_connections p"
  "ws_connected (update_receiver f p) = ws_connected p"
  by (simp_all add: update_receiver_def px_connection_def)

lemma ws_send_fields [simp]:
  "px_receiver (fst (ws_send data p)) = px_receiver p"
  "px_connection (fst (ws_send data p)) i = px_connection p i"
  "px_connections (fst (ws_send data p)) = px_connections p"
  by (simp_all add: ws_send_def px_connection_def)

subsection \<open>Sequences of steps\<close>

text \<open>
  What can happen at the proxy, connection by connection: an event at the websocket, the two halves of a
  call, a channel that is open or closed, a message sent, and the two operations that look for messages.
\<close>

datatype proxy_action =
    Arrive ws_event
  | CallSend nat proxy_protocol "fitem list" "int list"
  | CallReply nat "fitem list"
  | NewConnection
  | Opened nat int
  | Detached int
  | Send nat bytes
  | SendTo nat bytes int int int
  | Receive nat "int option" "ws_event list"
  | IsReady nat int "ws_event list"

fun px_state :: "'a px_result \<Rightarrow> proxy" where
  "px_state (PxDone x p) = p"
| "px_state (PxRaise e p) = p"
| "px_state (PxWait p) = p"

fun px_act :: "proxy_action \<Rightarrow> proxy \<Rightarrow> proxy" where
  "px_act (Arrive ev) p = receiver_run [ev] p"
| "px_act (CallSend j protocol packer args) p = px_state (call_send j protocol packer args p)"
| "px_act (CallReply j unpacker) p = px_state (call_reply j unpacker p)"
| "px_act NewConnection p = snd (new_connection p)"
| "px_act (Opened j handle) p = opened j handle p"
| "px_act (Detached handle) p =
     (case unlisten handle (px_receiver p) of Inl e \<Rightarrow> p | Inr r \<Rightarrow> p\<lparr>px_receiver := r\<rparr>)"
| "px_act (Send j message) p = px_state (px_send j message p)"
| "px_act (SendTo j message x y port) p = px_state (px_send_to j message x y port p)"
| "px_act (Receive j timeout waiting) p = px_state (px_receive j timeout waiting p)"
| "px_act (IsReady j timeout waiting) p = px_state (px_is_ready_to_receive j timeout waiting p)"

text \<open>What an action gives to its caller, if it is a receive.\<close>

fun px_received :: "nat \<Rightarrow> proxy_action \<Rightarrow> proxy \<Rightarrow> bytes list" where
  "px_received i (Receive j timeout waiting) p =
     (case px_receive j timeout waiting p of PxDone msg p' \<Rightarrow> if i = j then [msg] else [] | _ \<Rightarrow> [])"
| "px_received i a p = []"

text \<open>The frames that the thread takes off the websocket: not those behind a full call queue.\<close>

fun taken :: "ws_event list \<Rightarrow> proxy \<Rightarrow> bytes list" where
  "taken [] p = []"
| "taken (ev # evs) p =
     (case receiver_step ev p of
        None \<Rightarrow> []
      | Some p' \<Rightarrow> (case ev of Frame f \<Rightarrow> if rc_running (px_receiver p) then [f] else [] | _ \<Rightarrow> []) @ taken evs p')"

text \<open>The events of an action: none when nothing is waited for.\<close>

fun px_events :: "proxy_action \<Rightarrow> proxy \<Rightarrow> ws_event list" where
  "px_events (Arrive ev) p = [ev]"
| "px_events (Receive j timeout waiting) p =
     (if px_current_msg (px_connection p j) \<noteq> None \<or> timeout = Some 0 then [] else waiting)"
| "px_events (IsReady j timeout waiting) p =
     (if px_current_msg (px_connection p j) \<noteq> None \<or> px_msgs (px_connection p j) \<noteq> [] \<or> timeout = 0 then []
      else waiting)"
| "px_events a p = []"

fun px_run :: "nat \<Rightarrow> proxy_action list \<Rightarrow> proxy \<Rightarrow> bytes list \<times> bytes list \<times> proxy" where
  "px_run i [] p = ([], [], p)"
| "px_run i (a # as) p =
     (case px_run i as (px_act a p) of
        (received, frames, p') \<Rightarrow> (px_received i a p @ received, taken (px_events a p) p @ frames, p'))"

subsection \<open>A connection and its channel\<close>

definition pending :: "nat \<Rightarrow> proxy \<Rightarrow> bytes list" where
  "pending i p =
     (let c = px_connection p i
      in (case px_current_msg c of None \<Rightarrow> [] | Some msg \<Rightarrow> [msg]) @ map (drop MSG_SIZE \<circ> the) (px_msgs c))"

definition on_channel :: "int \<Rightarrow> bytes \<Rightarrow> bool" where
  "on_channel h frame \<longleftrightarrow> MSG_SIZE \<le> length frame \<and> frame_head frame = Some (proxy_protocol_value MSG, h)"

definition payloads :: "int \<Rightarrow> bytes list \<Rightarrow> bytes list" where
  "payloads h frames = map (drop MSG_SIZE) (filter (on_channel h) frames)"

text \<open>Connection \<open>i\<close>, and no other, listens to channel \<open>h\<close>, and to no other.\<close>

definition listening :: "nat \<Rightarrow> int \<Rightarrow> proxy \<Rightarrow> bool" where
  "listening i h p \<longleftrightarrow>
     i < length (px_connections p) \<and>
     (\<forall>g. map_of (rc_handlers (px_receiver p)) g = Some i \<longleftrightarrow> g = h) \<and>
     None \<notin> set (px_msgs (px_connection p i))"

text \<open>
  Steps that leave the channel alone: it is not opened again nor closed, the connection does not open another
  channel, and \<open>recv_data\<close> does not raise.
\<close>

fun leaves_alone :: "nat \<Rightarrow> int \<Rightarrow> proxy_action \<Rightarrow> bool" where
  "leaves_alone i h (Arrive ev) = (ev \<noteq> RecvRaises)"
| "leaves_alone i h (Opened j handle) = (j \<noteq> i \<and> handle \<noteq> h)"
| "leaves_alone i h (Detached handle) = (handle \<noteq> h)"
| "leaves_alone i h (Receive j timeout waiting) = (RecvRaises \<notin> set waiting)"
| "leaves_alone i h (IsReady j timeout waiting) = (RecvRaises \<notin> set waiting)"
| "leaves_alone i h a = True"

text \<open>What a step does for the connection: \<open>new\<close> is what it adds to the messages that wait.\<close>

definition adds :: "nat \<Rightarrow> int \<Rightarrow> bytes list \<Rightarrow> proxy \<Rightarrow> proxy \<Rightarrow> bool" where
  "adds i h new p p' \<longleftrightarrow> listening i h p' \<and> pending i p' = pending i p @ new"

lemma adds_refl: "listening i h p \<Longrightarrow> adds i h [] p p"
  by (simp add: adds_def)

lemma adds_trans: "adds i h a p q \<Longrightarrow> adds i h b q r \<Longrightarrow> adds i h (a @ b) p r"
  by (simp add: adds_def)

text \<open>A state with the same handlers and the same messages is as good.\<close>

lemma adds_same:
  assumes "listening i h p" and "length (px_connections p) \<le> length (px_connections p')"
    and "rc_handlers (px_receiver p') = rc_handlers (px_receiver p)"
    and "px_msgs (px_connection p' i) = px_msgs (px_connection p i)"
    and "px_current_msg (px_connection p' i) = px_current_msg (px_connection p i)"
  shows "adds i h [] p p'"
  using assms by (simp add: adds_def listening_def pending_def Let_def)

lemma frame_head_total: "MSG_SIZE \<le> length frame \<Longrightarrow> frame_head frame \<noteq> None"
  by (cases "struct_unpack_from Little msg_format frame 0")
    (auto simp: frame_head_def MSG_SIZE_def struct_unpack_from_def unpack_from_def layout as_int_def)

lemma payloads_simps [simp]:
  "payloads h [] = []"
  "payloads h (xs @ ys) = payloads h xs @ payloads h ys"
  by (simp_all add: payloads_def)

lemma payloads_one: "payloads h [f] = (if on_channel h f then [drop MSG_SIZE f] else [])"
  by (simp add: payloads_def)

lemma dispatch_message_adds:
  assumes "listening i h p"
  shows "adds i h (if g = h then [drop MSG_SIZE frame] else []) p (dispatch_message g frame p)"
proof (cases "map_of (rc_handlers (px_receiver p)) g")
  case None
  then have "g \<noteq> h" using assms unfolding listening_def by (metis option.distinct(1))
  then show ?thesis using None adds_refl [OF assms] by (simp add: dispatch_message_def)
next
  case (Some j)
  then have "j = i \<longleftrightarrow> g = h" using assms unfolding listening_def by (metis option.inject)
  then show ?thesis
    using assms Some by (auto simp: dispatch_message_def put_msg_def adds_def listening_def pending_def Let_def)
qed

lemma put_return_adds:
  "listening i h p \<Longrightarrow> put_return j item p = Some p' \<Longrightarrow> adds i h [] p p'"
  by (auto simp: put_return_def intro!: adds_same split: if_splits)

lemma dispatch_return_adds:
  "listening i h p \<Longrightarrow> dispatch_return c msg p = Some p' \<Longrightarrow> adds i h [] p p'"
  by (auto simp: dispatch_return_def put_return_def intro!: adds_same split: option.splits if_splits)

lemma dispatch_frame_adds:
  assumes "listening i h p" and "MSG_SIZE \<le> length frame" and "dispatch_frame frame p = Some p'"
  shows "adds i h (payloads h [frame]) p p'"
proof -
  obtain code num where head: "frame_head frame = Some (code, num)"
    using frame_head_total [OF assms(2)] by auto
  show ?thesis
  proof (cases "code = proxy_protocol_value MSG")
    case True
    then have "p' = dispatch_message num frame p" using assms(3) head by (simp add: dispatch_frame_def)
    then show ?thesis
      using dispatch_message_adds [OF assms(1), of num frame] True head assms(2)
      by (auto simp: payloads_one on_channel_def)
  next
    case False
    then have "dispatch_return num frame p = Some p'" using assms(3) head by (simp add: dispatch_frame_def)
    then show ?thesis
      using dispatch_return_adds [OF assms(1)] False head by (simp add: payloads_one on_channel_def)
  qed
qed


lemma receiver_step_adds:
  assumes "listening i h p" and "ev \<noteq> RecvRaises" and "receiver_step ev p = Some p'"
  shows "adds i h (payloads h (taken [ev] p)) p p'"
proof (cases ev)
  case (Frame frame)
  let ?p = "update_receiver (\<lambda>r. r\<lparr>rc_frame := Some frame\<rparr>) p"
  have l: "listening i h ?p" "pending i ?p = pending i p"
    using assms(1) by (simp_all add: listening_def pending_def)
  show ?thesis
  proof (cases "rc_running (px_receiver p)")
    case True
    then have t: "taken [ev] p = [frame]" using assms(3) Frame by simp
    show ?thesis
    proof (cases "length frame < MSG_SIZE")
      case True
      then have "p' = ?p" using assms(3) Frame \<open>rc_running (px_receiver p)\<close> by (simp add: receiver_step_def Let_def)
      then show ?thesis using t l True by (simp add: adds_def payloads_one on_channel_def)
    next
      case False
      then have "dispatch_frame frame ?p = Some p'"
        using assms(3) Frame \<open>rc_running (px_receiver p)\<close> by (simp add: receiver_step_def Let_def)
      from dispatch_frame_adds [OF l(1) _ this] show ?thesis using t False l(2) by (simp add: adds_def)
    qed
  next
    case False
    then show ?thesis using assms Frame by (simp add: receiver_step_def Let_def adds_refl)
  qed
next
  case Disconnects
  then have "p' = p\<lparr>ws_connected := False\<rparr>" using assms(3) by (simp add: receiver_step_def Let_def)
  then show ?thesis
    using assms Disconnects by (simp add: adds_def listening_def pending_def px_connection_def)
next
  case LoopTest
  then have "p' = (if ws_connected p then p else stop_receiver p)"
    using assms(3) by (simp add: receiver_step_def Let_def)
  then show ?thesis
    using assms LoopTest by (simp add: adds_def listening_def pending_def stop_receiver_def)
qed (use assms(2) in simp)

lemma receiver_run_adds:
  "listening i h p \<Longrightarrow> RecvRaises \<notin> set evs \<Longrightarrow> adds i h (payloads h (taken evs p)) p (receiver_run evs p)"
proof (induction evs arbitrary: p)
  case Nil
  then show ?case by (simp add: adds_refl)
next
  case (Cons ev evs)
  show ?case
  proof (cases "receiver_step ev p")
    case None
    then show ?thesis using Cons.prems by (simp add: adds_refl)
  next
    case (Some p')
    have s: "adds i h (payloads h (taken [ev] p)) p p'"
      using receiver_step_adds [OF Cons.prems(1) _ Some] Cons.prems(2) by auto
    then have "adds i h (payloads h (taken evs p')) p' (receiver_run evs p')"
      using Cons by (simp add: adds_def)
    from adds_trans [OF s this] show ?thesis using Some by simp
  qed
qed

subsection \<open>The operations\<close>

lemma send_framed_state:
  "px_state (send_framed j head message p) = p \<or> (\<exists>data. px_state (send_framed j head message p) = fst (ws_send data p))"
  by (auto simp: send_framed_def throw_if_closed_def px_bind_def split: sum.splits prod.splits option.splits)
    (metis fst_conv)+

lemma send_adds: "listening i h p \<Longrightarrow> adds i h [] p (px_state (send_framed j head message p))"
  using send_framed_state [of j head message p] by (auto intro: adds_same)

lemma call_send_adds: "listening i h p \<Longrightarrow> adds i h [] p (px_state (call_send j protocol packer args p))"
  by (auto simp: call_send_def expect_return_def Let_def ws_send_def px_connection_def
      intro!: adds_same split: sum.splits option.splits)

lemma call_reply_adds: "listening i h p \<Longrightarrow> adds i h [] p (px_state (call_reply j unpacker p))"
  by (auto simp: call_reply_def Let_def intro!: adds_same split: list.splits sum.splits)


lemma get_stays: "j \<noteq> i \<Longrightarrow> listening i h p \<Longrightarrow> px_get j p = Some r \<Longrightarrow> adds i h [] p (px_state r)"
  by (auto simp: px_get_def Let_def intro!: adds_same split: list.splits option.splits)

text \<open>The connection's own messages leave in order.\<close>

lemma get_own:
  assumes "listening i h p" and "px_current_msg (px_connection p i) = None" and "px_get i p = Some r"
  shows "\<exists>msg p'. r = PxDone msg p' \<and> listening i h p' \<and> pending i p = msg # pending i p' \<and>
    px_current_msg (px_connection p' i) = None"
proof -
  obtain frame items where q: "px_msgs (px_connection p i) = Some frame # items"
    using assms(1,3) by (auto simp: px_get_def listening_def split: list.splits) (metis option.exhaust)
  then have "r = PxDone (drop MSG_SIZE frame) (update_connection i (\<lambda>c. c\<lparr>px_msgs := items\<rparr>) p)"
    using assms(3) by (simp add: px_get_def Let_def)
  then show ?thesis using assms(1,2) q by (simp add: listening_def pending_def Let_def)
qed

text \<open>An action: what it hands out, and what waits afterwards, is what waited before and what arrived.\<close>

definition conserved :: "nat \<Rightarrow> int \<Rightarrow> bytes list \<Rightarrow> bytes list \<Rightarrow> proxy \<Rightarrow> proxy \<Rightarrow> bool" where
  "conserved i h got new p p' \<longleftrightarrow> listening i h p' \<and> got @ pending i p' = pending i p @ new"

lemma adds_conserved: "adds i h new p p' \<Longrightarrow> conserved i h [] new p p'"
  by (simp add: adds_def conserved_def)

lemma conserved_trans:
  "conserved i h a x p q \<Longrightarrow> conserved i h b y q r \<Longrightarrow> conserved i h (a @ b) (x @ y) p r"
  unfolding conserved_def by (metis append.assoc)

lemma current_pending:
  "px_current_msg (px_connection p i) = Some msg \<Longrightarrow>
     pending i p = msg # map (drop MSG_SIZE \<circ> the) (px_msgs (px_connection p i))"
  by (simp add: pending_def Let_def)

definition kept :: "nat \<Rightarrow> proxy \<Rightarrow> bytes option \<times> bool \<times> nat" where
  "kept j p = (px_current_msg (px_connection p j), px_attached (px_connection p j), length (px_connections p))"

lemma kept_after_run: "kept j (receiver_run evs p) = kept j p"
proof (induction evs arbitrary: p)
  case (Cons ev evs)
  have put: "kept j q' = kept j q"
    if "put_return k item q = Some q'" for k item q q'
    using that by (auto simp: put_return_def kept_def split: if_splits)
  have rec: "kept j (update_receiver f q) = kept j q" for f q
    by (simp add: kept_def)
  have ret: "kept j q' = kept j q"
    if "dispatch_return c m q = Some q'" for c m q q'
    using that by (auto simp: dispatch_return_def rec dest: put split: option.splits)
  have msg: "kept j (put_msg k item q) = kept j q" for k item q
    by (simp add: put_msg_def kept_def)
  have frame: "kept j q' = kept j q"
    if "dispatch_frame f q = Some q'" for f q q'
    using that by (auto simp: dispatch_frame_def stop_receiver_def dispatch_message_def msg rec dest: ret
        split: option.splits if_splits)
  have many: "kept j q' = kept j q"
    if "notify_returns ks q = Some q'" for ks q q'
    using that by (induction ks q rule: notify_returns.induct) (auto dest: put split: option.splits)
  have all: "kept j (fold (\<lambda>k. put_msg k item) ks q) = kept j q"
    for item ks q
    by (induction ks arbitrary: q) (simp_all add: msg)
  have "kept j p' = kept j p"
    if "receiver_step ev p = Some p'" for p'
    using that
    by (auto simp: receiver_step_def Let_def stop_receiver_def notify_lost_def rec all dest!: frame many
        split: ws_event.splits if_splits option.splits) (simp add: kept_def px_connection_def)?
  then show ?case using Cons.IH by (auto split: option.splits)
qed simp

lemma current_after_run: "px_current_msg (px_connection (receiver_run evs p) j) = px_current_msg (px_connection p j)"
  using kept_after_run [of j evs p] by (simp add: kept_def)

lemma attached_after_run: "px_attached (px_connection (receiver_run evs p) j) = px_attached (px_connection p j)"
  using kept_after_run [of j evs p] by (simp add: kept_def)

lemma length_after_run: "length (px_connections (receiver_run evs p)) = length (px_connections p)"
  using kept_after_run [of _ evs p] by (simp add: kept_def)

lemma receive_conserved:
  assumes "listening i h p" and "RecvRaises \<notin> set waiting"
  shows "conserved i h (px_received i (Receive j timeout waiting) p)
    (payloads h (taken (px_events (Receive j timeout waiting) p) p)) p (px_state (px_receive j timeout waiting p))"
proof (cases "px_current_msg (px_connection p j)")
  case (Some msg)
  show ?thesis
  proof (cases "j = i")
    case True
    then show ?thesis
      using assms Some by (auto simp: px_receive_def take_current_def conserved_def listening_def pending_def Let_def)
  next
    case False
    then show ?thesis
      using assms Some by (auto simp: px_receive_def take_current_def intro!: adds_conserved adds_same)
  qed
next
  case None
  define evs where "evs = (if timeout = Some 0 then [] else waiting)"
  define q where "q = receiver_run evs p"
  have ev: "px_events (Receive j timeout waiting) p = evs" using None by (simp add: evs_def)
  have pq: "adds i h (payloads h (taken evs p)) p q"
    unfolding q_def by (rule receiver_run_adds) (use assms in \<open>auto simp: evs_def\<close>)
  then have lq: "listening i h q" by (simp add: adds_def)
  have ran: "(if timeout = Some 0 then p else receiver_run waiting p) = q" by (simp add: q_def evs_def)
  have recv: "px_receive j timeout waiting p =
      (case px_get j q of
         Some r \<Rightarrow> r
       | None \<Rightarrow> px_bind (throw_if_closed j q) (\<lambda>_ p2. if timeout = None then PxWait p2 else PxRaise SpinnmanTimeout p2))"
    using None by (simp only: px_receive_def option.case Let_def ran)
  have cq: "px_current_msg (px_connection q j) = None" using None by (simp add: q_def current_after_run)
  show ?thesis
  proof (cases "px_get j q")
    case None
    then have "px_state (px_receive j timeout waiting p) = q \<and> px_received i (Receive j timeout waiting) p = []"
      by (simp add: recv throw_if_closed_def px_bind_def)
    then show ?thesis unfolding ev using adds_conserved [OF pq] by (metis px_received.simps(1))
  next
    case (Some r)
    then have r: "px_receive j timeout waiting p = r" by (simp add: recv)
    show ?thesis
    proof (cases "j = i")
      case True
      obtain msg p' where "r = PxDone msg p'" "listening i h p'" "pending i q = msg # pending i p'"
        using get_own [OF lq] cq Some True by blast
      then show ?thesis unfolding ev using pq True r by (simp add: conserved_def adds_def)
    next
      case False
      have "adds i h (payloads h (taken evs p)) p (px_state r)"
        using adds_trans [OF pq get_stays [OF False lq Some]] by simp
      then show ?thesis unfolding ev using False r adds_conserved by (auto split: px_result.splits)
    qed
  qed
qed


lemma is_ready_conserved:
  assumes "listening i h p" and "RecvRaises \<notin> set waiting"
  shows "conserved i h [] (payloads h (taken (px_events (IsReady j timeout waiting) p) p)) p
    (px_state (px_is_ready_to_receive j timeout waiting p))"
proof (cases "px_current_msg (px_connection p j) \<noteq> None \<or> px_msgs (px_connection p j) \<noteq> []")
  case True
  then show ?thesis
    using assms by (auto simp: px_is_ready_to_receive_def Let_def intro!: adds_conserved adds_refl)
next
  case False
  define evs where "evs = (if timeout = 0 then [] else waiting)"
  define q where "q = receiver_run evs p"
  have ev: "px_events (IsReady j timeout waiting) p = evs" using False by (simp add: evs_def)
  have pq: "adds i h (payloads h (taken evs p)) p q"
    unfolding q_def by (rule receiver_run_adds) (use assms in \<open>auto simp: evs_def\<close>)
  then have lq: "listening i h q" by (simp add: adds_def)
  have ran: "(if timeout = 0 then p else receiver_run waiting p) = q" by (simp add: q_def evs_def)
  have cq: "px_current_msg (px_connection q j) = None" using False by (simp add: q_def current_after_run)
  have ready: "px_is_ready_to_receive j timeout waiting p =
      (case px_get j q of
         None \<Rightarrow> PxDone False q
       | Some r \<Rightarrow> px_bind r (\<lambda>msg p2. PxDone True (update_connection j (\<lambda>c. c\<lparr>px_current_msg := Some msg\<rparr>) p2)))"
    using False by (simp only: px_is_ready_to_receive_def Let_def ran if_False)
  show ?thesis
  proof (cases "px_get j q")
    case None
    then show ?thesis unfolding ev ready using adds_conserved [OF pq] by simp
  next
    case (Some r)
    show ?thesis
    proof (cases "j = i")
      case True
      obtain msg p' where r: "r = PxDone msg p'" "listening i h p'" "pending i q = msg # pending i p'"
        "px_current_msg (px_connection p' i) = None"
        using get_own [OF lq] cq Some True by blast
      let ?p = "update_connection i (\<lambda>c. c\<lparr>px_current_msg := Some msg\<rparr>) p'"
      have "listening i h ?p" "pending i ?p = msg # pending i p'"
        using r(2,4) by (simp_all add: listening_def pending_def Let_def)
      then show ?thesis
        unfolding ev ready using Some True r pq by (simp add: px_bind_def conserved_def adds_def)
    next
      case False
      have "adds i h (payloads h (taken evs p)) p (px_state r)"
        using adds_trans [OF pq get_stays [OF False lq Some]] by simp
      then have "adds i h (payloads h (taken evs p)) p
          (px_state (px_bind r (\<lambda>msg p2. PxDone True (update_connection j (\<lambda>c. c\<lparr>px_current_msg := Some msg\<rparr>) p2))))"
        using False by (cases r) (auto simp: px_bind_def adds_def listening_def pending_def)
      then show ?thesis unfolding ev ready using Some adds_conserved by simp
    qed
  qed
qed

lemma act_conserved:
  assumes "listening i h p" and "leaves_alone i h a"
  shows "conserved i h (px_received i a p) (payloads h (taken (px_events a p) p)) p (px_act a p)"
proof (cases a)
  case (Arrive ev)
  have "adds i h (payloads h (taken [ev] p)) p (receiver_run [ev] p)"
    by (rule receiver_run_adds) (use assms Arrive in auto)
  from adds_conserved [OF this] Arrive show ?thesis by (simp del: receiver_run.simps taken.simps)
next
  case (Opened j handle)
  then have "j \<noteq> i" "handle \<noteq> h" using assms(2) by simp_all
  then have "listening i h (opened j handle p)" "pending i (opened j handle p) = pending i p"
    using assms(1) by (auto simp: opened_def listen_def listening_def pending_def update_conv')
  then show ?thesis using Opened by (simp add: conserved_def)
next
  case (Detached handle)
  then show ?thesis
    using assms
    by (auto simp: unlisten_def conserved_def listening_def pending_def px_connection_def delete_conv'
        split: sum.splits option.splits)
next
  case (Receive j timeout waiting)
  then show ?thesis using receive_conserved assms by simp
next
  case (IsReady j timeout waiting)
  then show ?thesis using is_ready_conserved assms by simp
next
  case NewConnection
  have "listening i h (snd (new_connection p))" "pending i (snd (new_connection p)) = pending i p"
    using assms(1) by (auto simp: new_connection_def listening_def pending_def px_connection_def nth_append)
  then show ?thesis using NewConnection by (simp add: conserved_def)
qed (use assms(1) in \<open>auto simp: px_send_def px_send_to_def intro!: adds_conserved send_adds call_send_adds call_reply_adds\<close>)

text \<open>
  C37: a connection receives exactly the messages of its channel, in the order in which the websocket gave
  them, through every interleaving of the thread with the operations of all connections (calls, sends,
  opening and closing of other channels, receives and polls with their waits), as long as \<open>recv_data\<close> does
  not raise: what it received, and what waits for it afterwards, is what waited before and the payloads
  of the frames for its channel.
\<close>
theorem proxy_channel_fifo:
  assumes "listening i h p" and "list_all (leaves_alone i h) as" and "px_run i as p = (received, frames, p')"
  shows "received @ pending i p' = pending i p @ payloads h frames"
proof -
  have "conserved i h received (payloads h frames) p p'"
    using assms
  proof (induction as arbitrary: p received frames)
    case (Cons a as)
    obtain received' frames' where r: "px_run i as (px_act a p) = (received', frames', p')"
      "received = px_received i a p @ received'" "frames = taken (px_events a p) p @ frames'"
      using Cons.prems(3) by (auto split: prod.splits)
    have a: "conserved i h (px_received i a p) (payloads h (taken (px_events a p) p)) p (px_act a p)"
      using act_conserved Cons.prems(1,2) by simp
    then have "conserved i h received' (payloads h frames') (px_act a p) p'"
      using Cons.IH [OF _ _ r(1)] Cons.prems(2) by (simp add: conserved_def)
    from conserved_trans [OF a this] show ?case by (simp add: r)
  qed (simp add: conserved_def)
  then show ?thesis by (simp add: conserved_def)
qed


subsection \<open>Calls\<close>

definition reply_to :: "int \<Rightarrow> bytes \<Rightarrow> bool" where
  "reply_to c frame \<longleftrightarrow> MSG_SIZE \<le> length frame \<and>
     (case frame_head frame of None \<Rightarrow> False | Some (code, num) \<Rightarrow> code \<noteq> proxy_protocol_value MSG \<and> num = c)"

text \<open>The one call of a connection is outstanding, or its reply waits in the queue.\<close>

definition awaits :: "nat \<Rightarrow> int \<Rightarrow> proxy \<Rightarrow> bool" where
  "awaits i c p \<longleftrightarrow>
     i < length (px_connections p) \<and>
     (\<forall>d. map_of (rc_returns (px_receiver p)) d = Some i \<longleftrightarrow> d = c) \<and> px_call_queue (px_connection p i) = []"

definition answered_by :: "nat \<Rightarrow> bytes \<Rightarrow> proxy \<Rightarrow> bool" where
  "answered_by i frame p \<longleftrightarrow>
     (\<forall>d. map_of (rc_returns (px_receiver p)) d \<noteq> Some i) \<and> px_call_queue (px_connection p i) = [Some frame]"

text \<open>What a frame does for the call.\<close>

definition after_frame :: "nat \<Rightarrow> int \<Rightarrow> bytes list \<Rightarrow> proxy \<Rightarrow> bool" where
  "after_frame i c frames p \<longleftrightarrow>
     (case find (reply_to c) frames of None \<Rightarrow> awaits i c p | Some f \<Rightarrow> answered_by i f p)"

lemma put_msg_fields [simp]:
  "px_receiver (put_msg j item p) = px_receiver p"
  "ws_connected (put_msg j item p) = ws_connected p"
  "length (px_connections (put_msg j item p)) = length (px_connections p)"
  "px_call_queue (px_connection (put_msg j item p) i) = px_call_queue (px_connection p i)"
  by (simp_all add: put_msg_def)

lemma dispatch_message_fields [simp]:
  "px_receiver (dispatch_message g m p) = px_receiver p"
  "ws_connected (dispatch_message g m p) = ws_connected p"
  "length (px_connections (dispatch_message g m p)) = length (px_connections p)"
  "px_call_queue (px_connection (dispatch_message g m p) i) = px_call_queue (px_connection p i)"
  by (simp_all add: dispatch_message_def split: option.split)

lemma dispatch_return_other:
  assumes "dispatch_return d m p = Some p'" and "map_of (rc_returns (px_receiver p)) d \<noteq> Some i"
  shows "px_call_queue (px_connection p' i) = px_call_queue (px_connection p i)"
    and "map_of (rc_returns (px_receiver p')) e = Some i \<longleftrightarrow> map_of (rc_returns (px_receiver p)) e = Some i"
    and "length (px_connections p') = length (px_connections p)" and "ws_connected p' = ws_connected p"
  using assms by (auto simp: dispatch_return_def put_return_def delete_conv' split: option.splits if_splits)

lemma dispatch_frame_other:
  assumes "dispatch_frame f p = Some p'" and "MSG_SIZE \<le> length f"
    and "\<And>d. reply_to d f \<Longrightarrow> map_of (rc_returns (px_receiver p)) d \<noteq> Some i"
  shows "px_call_queue (px_connection p' i) = px_call_queue (px_connection p i)"
    and "map_of (rc_returns (px_receiver p')) e = Some i \<longleftrightarrow> map_of (rc_returns (px_receiver p)) e = Some i"
    and "length (px_connections p') = length (px_connections p)" and "ws_connected p' = ws_connected p"
proof -
  obtain code num where h: "frame_head f = Some (code, num)" using frame_head_total [OF assms(2)] by auto
  have "px_call_queue (px_connection p' i) = px_call_queue (px_connection p i) \<and>
    (map_of (rc_returns (px_receiver p')) e = Some i \<longleftrightarrow> map_of (rc_returns (px_receiver p)) e = Some i) \<and>
    length (px_connections p') = length (px_connections p) \<and> ws_connected p' = ws_connected p"
  proof (cases "code = proxy_protocol_value MSG")
    case True
    then show ?thesis using assms(1) h by (auto simp: dispatch_frame_def)
  next
    case False
    then have "dispatch_return num f p = Some p'" using assms(1) h by (simp add: dispatch_frame_def)
    moreover have "map_of (rc_returns (px_receiver p)) num \<noteq> Some i"
      using assms(2,3) h False by (simp add: reply_to_def)
    ultimately show ?thesis using dispatch_return_other by simp
  qed
  then show "px_call_queue (px_connection p' i) = px_call_queue (px_connection p i)"
    and "map_of (rc_returns (px_receiver p')) e = Some i \<longleftrightarrow> map_of (rc_returns (px_receiver p)) e = Some i"
    and "length (px_connections p') = length (px_connections p)" and "ws_connected p' = ws_connected p" by blast+
qed

lemma reply_dispatched:
  assumes "awaits i c p" and "reply_to c f" and "dispatch_frame f p = Some p'"
  shows "answered_by i f p' \<and> ws_connected p' = ws_connected p"
proof -
  obtain code where "frame_head f = Some (code, c)" "code \<noteq> proxy_protocol_value MSG"
    using assms(2) by (auto simp: reply_to_def split: option.splits)
  then have "dispatch_return c f p = Some p'" using assms(3) by (simp add: dispatch_frame_def)
  moreover have "map_of (rc_returns (px_receiver p)) c = Some i" using assms(1) by (simp add: awaits_def)
  ultimately show ?thesis
    using assms(1) by (auto simp: dispatch_return_def put_return_def answered_by_def awaits_def delete_conv' split: if_splits)
qed

lemma dispatched_after:
  assumes "after_frame i c fs p" and "dispatch_frame f p = Some p'" and "MSG_SIZE \<le> length f"
  shows "after_frame i c (fs @ [f]) p' \<and> ws_connected p' = ws_connected p"
proof (cases "find (reply_to c) fs")
  case None
  then have a: "awaits i c p" using assms(1) by (simp add: after_frame_def)
  have n: "find (reply_to c) (fs @ [f]) = (if reply_to c f then Some f else None)"
    using None by (induction fs) (auto split: if_splits)
  show ?thesis
  proof (cases "reply_to c f")
    case True
    then show ?thesis using reply_dispatched [OF a True assms(2)] n by (simp add: after_frame_def)
  next
    case False
    have o: "reply_to d f \<Longrightarrow> map_of (rc_returns (px_receiver p)) d \<noteq> Some i" for d
      using a False by (auto simp: awaits_def)
    show ?thesis
      using dispatch_frame_other [OF assms(2,3) o] a False by (simp add: n after_frame_def awaits_def)
  qed
next
  case (Some g)
  then have a: "answered_by i g p" using assms(1) by (simp add: after_frame_def)
  have n: "find (reply_to c) (fs @ [f]) = Some g"
    using Some by (induction fs) (auto split: if_splits)
  have o: "reply_to d f \<Longrightarrow> map_of (rc_returns (px_receiver p)) d \<noteq> Some i" for d
    using a by (simp add: answered_by_def)
  show ?thesis using dispatch_frame_other [OF assms(2,3) o] a by (simp add: n after_frame_def answered_by_def)
qed

lemma find_not: "\<not> P x \<Longrightarrow> find P (xs @ [x]) = find P xs"
  by (induction xs) auto

lemma after_frame_keeps:
  "after_frame i c fs p \<Longrightarrow> px_connections q = px_connections p \<Longrightarrow>
     rc_returns (px_receiver q) = rc_returns (px_receiver p) \<Longrightarrow> after_frame i c fs q"
  by (auto simp: after_frame_def awaits_def answered_by_def px_connection_def split: option.splits)

lemma receiver_step_after:
  assumes "after_frame i c fs p" and "ev \<noteq> RecvRaises" and "receiver_step ev p = Some p'"
  shows "after_frame i c (fs @ taken [ev] p) p' \<and> (ws_connected p' \<longleftrightarrow> ws_connected p \<and> ev \<noteq> Disconnects)"
proof (cases ev)
  case (Frame f)
  let ?p = "update_receiver (\<lambda>r. r\<lparr>rc_frame := Some f\<rparr>) p"
  have a: "after_frame i c fs ?p" by (rule after_frame_keeps [OF assms(1)]) simp_all
  show ?thesis
  proof (cases "rc_running (px_receiver p)")
    case True
    then have t: "taken [ev] p = [f]" using assms(3) Frame by simp
    show ?thesis
    proof (cases "length f < MSG_SIZE")
      case True
      then have "p' = ?p" using assms(3) Frame \<open>rc_running (px_receiver p)\<close> by (simp add: receiver_step_def Let_def)
      moreover have "find (reply_to c) (fs @ [f]) = find (reply_to c) fs"
        using True by (intro find_not) (simp add: reply_to_def)
      ultimately show ?thesis using a t Frame by (simp add: after_frame_def)
    next
      case False
      then have "dispatch_frame f ?p = Some p'"
        using assms(3) Frame \<open>rc_running (px_receiver p)\<close> by (simp add: receiver_step_def Let_def)
      from dispatched_after [OF a this] show ?thesis using t False Frame by simp
    qed
  next
    case False
    then show ?thesis using assms Frame by (simp add: receiver_step_def Let_def)
  qed
next
  case Disconnects
  then have "p' = p\<lparr>ws_connected := False\<rparr>" using assms(3) by (simp add: receiver_step_def Let_def)
  then show ?thesis using assms(3) Disconnects after_frame_keeps [OF assms(1), of p'] by simp
next
  case LoopTest
  then have "p' = (if ws_connected p then p else stop_receiver p)"
    using assms(3) by (simp add: receiver_step_def Let_def)
  then show ?thesis
    using assms(3) LoopTest after_frame_keeps [OF assms(1), of p'] by (simp add: stop_receiver_def)
qed (use assms(2) in simp)

lemma receiver_run_after:
  "after_frame i c fs p \<Longrightarrow> RecvRaises \<notin> set evs \<Longrightarrow>
     after_frame i c (fs @ taken evs p) (receiver_run evs p) \<and>
     (Disconnects \<notin> set evs \<longrightarrow> ws_connected p \<longrightarrow> ws_connected (receiver_run evs p))"
proof (induction evs arbitrary: fs p)
  case (Cons ev evs)
  show ?case
  proof (cases "receiver_step ev p")
    case (Some p')
    have s: "after_frame i c (fs @ taken [ev] p) p' \<and> (ws_connected p' \<longleftrightarrow> ws_connected p \<and> ev \<noteq> Disconnects)"
      using receiver_step_after [OF Cons.prems(1) _ Some] Cons.prems(2) by auto
    have r: "RecvRaises \<notin> set evs" using Cons.prems(2) by simp
    show ?thesis using Cons.IH [OF conjunct1 [OF s] r] conjunct2 [OF s] Some by auto
  qed (use Cons.prems in simp)
qed simp


text \<open>
  C38: a call sends one frame and is answered by the first frame that carries its correlation identifier and
  is no message, whatever else the websocket brings (messages of any channel, answers to other calls,
  frames that are too short): its result, an \<open>IOError\<close> for an error reply included, is read from that frame,
  and without one the call waits for ever. The connection has no other call outstanding.
\<close>
theorem proxy_call_answered:
  assumes "i < length (px_connections p)" and "is_connected i p" and "px_call_queue (px_connection p i) = []"
    and "\<forall>d. map_of (rc_returns (px_receiver p)) d \<noteq> Some i"
    and "c = rc_correlation_id (px_receiver p)"
    and "struct_pack Little packer (proxy_protocol_value protocol # c # args) = Inr data"
    and "ws_faults p (length (ws_attempts p)) = None"
    and "p1 = px_state (call_send i protocol packer args p)"
    and "RecvRaises \<notin> set sending" and "Disconnects \<notin> set sending" and "RecvRaises \<notin> set waiting"
    and "frames = taken sending p1 @ taken waiting (receiver_run sending p1)"
  shows "ws_attempts p1 = ws_attempts p @ [data] \<and>
    (\<exists>q. px_call i protocol packer unpacker args sending waiting p =
       (case find (reply_to c) frames of
          None \<Rightarrow> PxWait q
        | Some f \<Rightarrow> (case call_result unpacker (Some f) of Inl e \<Rightarrow> PxRaise e q | Inr vs \<Rightarrow> PxDone vs q)))"
proof -
  have sent: "call_send i protocol packer args p = PxDone c p1"
    using assms(2,5-8) by (simp add: call_send_def expect_return_def ws_send_def Let_def)
  have p1: "p1 = p\<lparr>px_receiver := (px_receiver p)\<lparr>rc_correlation_id := c + 1,
      rc_returns := AList.update c i (rc_returns (px_receiver p))\<rparr>, ws_attempts := ws_attempts p @ [data]\<rparr>"
    using assms(2,5-8) by (simp add: call_send_def expect_return_def ws_send_def Let_def)
  have a: "after_frame i c [] p1"
    using assms(1,3,4) by (simp add: p1 after_frame_def awaits_def px_connection_def update_conv')
  have conn: "ws_connected p1" "px_attached (px_connection p1 i)"
    using assms(2) by (simp_all add: p1 is_connected_def px_connection_def)
  let ?p2 = "receiver_run sending p1" and ?p3 = "receiver_run waiting (receiver_run sending p1)"
  have s: "after_frame i c (taken sending p1) ?p2" "ws_connected ?p2"
    using receiver_run_after [OF a assms(9)] assms(10) conn(1) by simp_all
  have w: "after_frame i c frames ?p3"
    using receiver_run_after [OF s(1) assms(11)] by (simp add: assms(12))
  have "is_connected i ?p2" using s(2) conn(2) by (simp add: is_connected_def attached_after_run)
  then have call: "px_call i protocol packer unpacker args sending waiting p = call_reply i unpacker ?p3"
    by (simp add: px_call_def sent px_bind_def Let_def)
  have "\<exists>q. call_reply i unpacker ?p3 =
      (case find (reply_to c) frames of
         None \<Rightarrow> PxWait q
       | Some f \<Rightarrow> (case call_result unpacker (Some f) of Inl e \<Rightarrow> PxRaise e q | Inr vs \<Rightarrow> PxDone vs q))"
    using w by (auto simp: after_frame_def call_reply_def awaits_def answered_by_def Let_def
        split: option.splits sum.splits)
  then show ?thesis by (simp add: call p1)
qed

lemma length_after_call:
  "px_call i protocol packer unpacker args sending waiting p = PxDone vs q \<Longrightarrow>
     length (px_connections q) = length (px_connections p)"
  by (auto simp: px_call_def call_send_def call_reply_def expect_return_def ws_send_def px_bind_def Let_def
      length_after_run split: px_result.splits if_splits sum.splits option.splits list.splits)

subsection \<open>When the websocket fails\<close>

text \<open>
  When \<open>recv_data\<close> raises while the websocket stays connected, the thread goes on with the frame that it
  took before and dispatches it again: a message that was delivered once is delivered a second time.
\<close>
theorem proxy_error_redelivers:
  assumes "listening i h p" and "rc_running (px_receiver p)" and "\<not> rc_closed (px_receiver p)" and "ws_connected p"
    and "on_channel h frame"
  shows "pending i (receiver_run [Frame frame, RecvRaises] p) = pending i p @ [drop MSG_SIZE frame, drop MSG_SIZE frame]"
proof -
  let ?p = "update_receiver (\<lambda>r. r\<lparr>rc_frame := Some frame\<rparr>) p"
  let ?q = "dispatch_message h frame ?p"
  have len: "MSG_SIZE \<le> length frame" and head: "frame_head frame = Some (proxy_protocol_value MSG, h)"
    using assms(5) by (simp_all add: on_channel_def)
  have l: "listening i h ?p" "pending i ?p = pending i p"
    using assms(1) by (simp_all add: listening_def pending_def)
  have d: "dispatch_frame frame q = Some (dispatch_message h frame q)" for q
    by (simp add: dispatch_frame_def head)
  have "receiver_step (Frame frame) p = Some ?q"
    using assms(2) len by (simp add: receiver_step_def Let_def d)
  moreover have "receiver_step RecvRaises ?q = Some (dispatch_message h frame ?q)"
    using assms(2-4) by (simp add: receiver_step_def Let_def d)
  moreover have q: "adds i h [drop MSG_SIZE frame] ?p ?q"
    using dispatch_message_adds [OF l(1), of h frame] by simp
  moreover have "adds i h [drop MSG_SIZE frame] ?q (dispatch_message h frame ?q)"
    using dispatch_message_adds [of i h ?q h frame] q by (simp add: adds_def)
  ultimately show ?thesis using l(2) by (simp add: adds_def)
qed

text \<open>
  Whatever address and port the service binds for an unbound connection, the connection reports
  \<open>0.0.0.0\<close> and port 0: the constructor of the subclass clears what opening the channel stored.
\<close>
theorem unbound_address_lost:
  assumes "open_unbound sending waiting p = PxDone i p'"
  shows "local_ip_address i p' = [0, 0, 0, 0] \<and> local_port i p' = 0"
proof -
  obtain vs q where q: "px_call i OPEN_UNBOUND open_listen_req open_listen_res [] sending waiting (snd (new_connection p))
      = PxDone vs q" "i = length (px_connections p)"
    using assms by (auto simp: open_unbound_def new_connection_def px_bind_def Let_def split: px_result.splits list.splits)
  have "length (px_connections q) = length (px_connections p) + 1"
    using length_after_call [OF q(1)] by (simp add: new_connection_def)
  then have "px_addr (px_connection p' i) = None \<and> px_port (px_connection p' i) = None"
    using assms q by (auto simp: open_unbound_def new_connection_def px_bind_def Let_def opened_def split: list.splits)
  then show ?thesis by (simp add: local_ip_address_def local_port_def)
qed


subsection \<open>Concrete runs\<close>

definition sample_frame :: "proxy_protocol \<Rightarrow> int \<Rightarrow> bytes \<Rightarrow> bytes" where
  "sample_frame protocol num rest = le_bytes 4 (proxy_protocol_value protocol) @ le_bytes 4 num @ rest"

text \<open>Two connections, on channels 7 and 9.\<close>

definition sample_proxy :: proxy where
  "sample_proxy =
     px_state (open_bidirectional 4 8 17893 [] [Frame (sample_frame OPEN 1 [9, 0, 0, 0])]
       (px_state (open_bidirectional 0 0 17893 [] [Frame (sample_frame OPEN 0 [7, 0, 0, 0])]
         (proxy_init (\<lambda>_. None)))))"

lemma sample_proxy_facts:
  "rc_handlers (px_receiver sample_proxy) = [(7, 0), (9, 1)]" "rc_returns (px_receiver sample_proxy) = []"
  "rc_correlation_id (px_receiver sample_proxy) = 2"
  "rc_running (px_receiver sample_proxy)" "\<not> rc_closed (px_receiver sample_proxy)" "ws_connected sample_proxy"
  "length (px_connections sample_proxy) = 2" "px_msgs (px_connection sample_proxy 0) = []"
  "pending 0 sample_proxy = []" "is_connected 0 sample_proxy" "px_call_queue (px_connection sample_proxy 0) = []"
  "ws_faults sample_proxy (length (ws_attempts sample_proxy)) = None"
  by code_simp+

lemma sample_listening: "listening 0 7 sample_proxy"
  by (simp add: listening_def sample_proxy_facts)

definition sample_actions :: "proxy_action list" where
  "sample_actions =
     [Arrive (Frame (sample_frame MSG 7 [1, 2])), CallSend 1 CLOSE close_req [9],
      Arrive (Frame (sample_frame MSG 9 [8])), Receive 0 None [],
      IsReady 0 1 [Frame [0, 0], Frame (sample_frame CLOSE 2 [9, 0, 0, 0]), Frame (sample_frame MSG 7 [3])],
      CallReply 1 open_close_res, Detached 9, Arrive (Frame (sample_frame MSG 7 [4])), Receive 0 (Some 1) []]"

theorem proxy_channel_fifo_witness:
  "(case px_run 0 sample_actions sample_proxy of
      (received, frames, p') \<Rightarrow> received = [[1, 2], [3]] \<and> received @ pending 0 p' = [[1, 2], [3], [4]])"
proof -
  obtain received frames p' where run: "px_run 0 sample_actions sample_proxy = (received, frames, p')"
    by (cases "px_run 0 sample_actions sample_proxy")
  have "list_all (leaves_alone 0 7) sample_actions" by (simp add: sample_actions_def)
  note fifo = proxy_channel_fifo [OF sample_listening this run]
  have "fst (px_run 0 sample_actions sample_proxy) = [[1, 2], [3]] \<and>
      payloads 7 (fst (snd (px_run 0 sample_actions sample_proxy))) = [[1, 2], [3], [4]]" by code_simp
  then show ?thesis using fifo by (simp add: run sample_proxy_facts)
qed

theorem proxy_call_answered_witness:
  "\<exists>q. px_call 0 CLOSE close_req open_close_res [7] [LoopTest]
      [Frame (sample_frame MSG 7 [1]), Frame (sample_frame ERROR 5 []), Frame (sample_frame CLOSE 2 [7, 0, 0, 0])]
      sample_proxy = PxDone [7] q"
proof -
  let ?waiting = "[Frame (sample_frame MSG 7 [1]), Frame (sample_frame ERROR 5 []),
    Frame (sample_frame CLOSE 2 [7, 0, 0, 0])]"
  define p1 where "p1 = px_state (call_send 0 CLOSE close_req [7] sample_proxy)"
  define frames where "frames = taken [LoopTest] p1 @ taken ?waiting (receiver_run [LoopTest] p1)"
  have data: "struct_pack Little close_req (proxy_protocol_value CLOSE # 2 # [7]) =
      Inr [1, 0, 0, 0, 2, 0, 0, 0, 7, 0, 0, 0]" by code_simp
  have reply: "find (reply_to 2) frames = Some (sample_frame CLOSE 2 [7, 0, 0, 0])"
    unfolding frames_def p1_def by code_simp
  have result: "call_result open_close_res (Some (sample_frame CLOSE 2 [7, 0, 0, 0])) = Inr [7]" by code_simp
  show ?thesis
    using proxy_call_answered [OF _ sample_proxy_facts(10,11) _ refl, unfolded sample_proxy_facts(3),
        OF _ _ data sample_proxy_facts(12) p1_def _ _ _ frames_def, of open_close_res]
    by (simp add: sample_proxy_facts reply result)
qed

theorem proxy_error_redelivers_witness:
  "pending 0 (receiver_run [Frame (sample_frame MSG 7 [5]), RecvRaises] sample_proxy) = [[5], [5]]"
proof -
  have "on_channel 7 (sample_frame MSG 7 [5])" "drop MSG_SIZE (sample_frame MSG 7 [5]) = [5]" by code_simp+
  then show ?thesis
    using proxy_error_redelivers [OF sample_listening sample_proxy_facts(4-6)] by (simp add: sample_proxy_facts(9))
qed

theorem unbound_address_lost_witness:
  "(case open_unbound [] [Frame (sample_frame OPEN_UNBOUND 2 [11, 0, 0, 0, 10, 0, 0, 1, 136, 19, 0, 0])] sample_proxy of
      PxDone i p' \<Rightarrow> i = 2 \<and> local_port i p' = 0 | _ \<Rightarrow> False)"
proof -
  let ?r = "open_unbound [] [Frame (sample_frame OPEN_UNBOUND 2 [11, 0, 0, 0, 10, 0, 0, 1, 136, 19, 0, 0])] sample_proxy"
  have "(case ?r of PxDone i p' \<Rightarrow> i = 2 | _ \<Rightarrow> False)" by code_simp
  then obtain p' where "?r = PxDone 2 p'" by (cases ?r) auto
  with unbound_address_lost [OF this] show ?thesis by simp
qed

end
