(* ===== verification/Urls.thy ===== *)
theory Urls
  imports Exceptions
begin

text \<open>
  URLs (\<open>spalloc/utils.py\<close> and \<open>fix_url\<close> of \<open>spalloc/spalloc_client.py\<close>), with what they use of
  \<open>urllib.parse\<close>. Texts are ASCII; a netloc with letters outside ASCII, which \<open>urllib.parse\<close> may refuse, is
  not modelled.
\<close>

subsection \<open>Text\<close>

definition chr_code :: "char \<Rightarrow> nat" where
  "chr_code c = of_char c"

definition to_lower :: "char \<Rightarrow> char" where
  "to_lower c = (if 65 \<le> chr_code c \<and> chr_code c \<le> 90 then char_of (chr_code c + 32) else c)"

definition is_digit :: "char \<Rightarrow> bool" where
  "is_digit c \<longleftrightarrow> 48 \<le> chr_code c \<and> chr_code c \<le> 57"

definition is_alpha :: "char \<Rightarrow> bool" where
  "is_alpha c \<longleftrightarrow> 97 \<le> chr_code (to_lower c) \<and> chr_code (to_lower c) \<le> 122"

definition starts_with :: "string \<Rightarrow> string \<Rightarrow> bool" where
  "starts_with p s \<longleftrightarrow> take (length p) s = p"

definition ends_with :: "string \<Rightarrow> string \<Rightarrow> bool" where
  "ends_with p s \<longleftrightarrow> starts_with (rev p) (rev s)"

text \<open>\<open>s.partition(c)\<close>: before the first \<open>c\<close>, whether there is one, and after it.\<close>

definition partition_at :: "char \<Rightarrow> string \<Rightarrow> string \<times> bool \<times> string" where
  "partition_at c s =
     (takeWhile (\<lambda>x. x \<noteq> c) s, c \<in> set s, drop 1 (dropWhile (\<lambda>x. x \<noteq> c) s))"

text \<open>\<open>s.rpartition(c)\<close>: before the last \<open>c\<close>, whether there is one, and after it.\<close>

definition rpartition_at :: "char \<Rightarrow> string \<Rightarrow> string \<times> bool \<times> string" where
  "rpartition_at c s =
     (case partition_at c (rev s) of
        (after, found, front) \<Rightarrow> if found then (rev front, True, rev after) else ([], False, s))"

subsection \<open>\<open>urlparse\<close> and \<open>urlunparse\<close>\<close>

record url =
  u_scheme :: string
  u_netloc :: string
  u_path :: string
  u_params :: string
  u_query :: string
  u_fragment :: string

text \<open>Control characters and spaces in front, and tabs and line ends anywhere, are dropped.\<close>

definition url_strip :: "string \<Rightarrow> string" where
  "url_strip s = filter (\<lambda>c. chr_code c \<notin> {9, 10, 13}) (dropWhile (\<lambda>c. chr_code c \<le> 32) s)"

definition scheme_char :: "char \<Rightarrow> bool" where
  "scheme_char c \<longleftrightarrow> is_alpha c \<or> is_digit c \<or> c \<in> set ''+-.''"

definition split_scheme :: "string \<Rightarrow> string \<times> string" where
  "split_scheme s =
     (case partition_at CHR '':'' s of
        (scheme, found, rest) \<Rightarrow>
          if found \<and> scheme \<noteq> [] \<and> is_alpha (hd scheme) \<and> list_all scheme_char scheme
          then (map to_lower scheme, rest) else ([], s))"

definition split_netloc :: "string \<Rightarrow> string \<times> string" where
  "split_netloc s =
     (if starts_with ''//'' s
      then let r = drop 2 s in (takeWhile (\<lambda>c. c \<notin> set ''/?#'') r, dropWhile (\<lambda>c. c \<notin> set ''/?#'') r)
      else ([], s))"

definition uses_params :: "string list" where
  "uses_params = ['''', ''ftp'', ''hdl'', ''prospero'', ''http'', ''https'', ''shttp'', ''rtsp'', ''rtsps'', ''rtspu'',
     ''sip'', ''sips'', ''mms'', ''sftp'', ''tel'']"

definition uses_netloc :: "string list" where
  "uses_netloc = ['''', ''ftp'', ''http'', ''gopher'', ''nntp'', ''telnet'', ''imap'', ''wais'', ''file'', ''mms'',
     ''https'', ''shttp'', ''snews'', ''prospero'', ''rtsp'', ''rtsps'', ''rtspu'', ''rsync'', ''svn'', ''svn+ssh'',
     ''sftp'', ''nfs'', ''git'', ''git+ssh'', ''ws'', ''wss'', ''itms-services'']"

text \<open>The parameters of the last segment of a path.\<close>

definition split_params :: "string \<Rightarrow> string \<times> string" where
  "split_params path =
     (case rpartition_at CHR ''/'' path of
        (front, slash, segment) \<Rightarrow>
          (case partition_at CHR '';'' segment of
             (name, found, params) \<Rightarrow>
               (if slash then front @ ''/'' @ name else name, params)))"

definition urlparse :: "string \<Rightarrow> url res" where
  "urlparse text =
     (case split_scheme (url_strip text) of
        (scheme, s1) \<Rightarrow>
          (case split_netloc s1 of
             (netloc, s2) \<Rightarrow>
               if (CHR ''['' \<in> set netloc) \<noteq> (CHR '']'' \<in> set netloc) then Inl PyValueError
               else (case partition_at CHR ''#'' s2 of
                 (s3, _, fragment) \<Rightarrow>
                   (case partition_at CHR ''?'' s3 of
                      (path, _, query) \<Rightarrow>
                        let (path', params) = (if scheme \<in> set uses_params then split_params path else (path, []))
                        in Inr \<lparr>u_scheme = scheme, u_netloc = netloc, u_path = path', u_params = params,
                                u_query = query, u_fragment = fragment\<rparr>))))"

definition urlunparse :: "url \<Rightarrow> string" where
  "urlunparse u =
     (let path = (if u_params u \<noteq> [] then u_path u @ '';'' @ u_params u else u_path u);
          located = (if u_netloc u \<noteq> [] \<or>
                        (u_scheme u \<noteq> [] \<and> u_scheme u \<in> set uses_netloc \<and> \<not> starts_with ''//'' path)
                     then ''//'' @ u_netloc u @ (if path \<noteq> [] \<and> \<not> starts_with ''/'' path then ''/'' @ path else path)
                     else path)
      in (if u_scheme u \<noteq> [] then u_scheme u @ '':'' else []) @ located @
         (if u_query u \<noteq> [] then ''?'' @ u_query u else []) @
         (if u_fragment u \<noteq> [] then ''#'' @ u_fragment u else []))"

text \<open>User, password, host and port of a netloc.\<close>

definition u_userinfo :: "url \<Rightarrow> string option \<times> string option" where
  "u_userinfo u =
     (case rpartition_at CHR ''@'' (u_netloc u) of
        (userinfo, have_info, _) \<Rightarrow>
          if \<not> have_info then (None, None)
          else (case partition_at CHR '':'' userinfo of
                  (user, have_password, password) \<Rightarrow> (Some user, if have_password then Some password else None)))"

definition u_hostinfo :: "url \<Rightarrow> string \<times> string" where
  "u_hostinfo u =
     (case rpartition_at CHR ''@'' (u_netloc u) of
        (_, _, hostinfo) \<Rightarrow>
          (case partition_at CHR ''['' hostinfo of
             (_, have_open_br, bracketed) \<Rightarrow>
               if have_open_br then
                 (case partition_at CHR '']'' bracketed of
                    (host, _, port) \<Rightarrow> (host, snd (snd (partition_at CHR '':'' port))))
               else (case partition_at CHR '':'' hostinfo of (host, _, port) \<Rightarrow> (host, port))))"

definition u_hostname :: "url \<Rightarrow> string option" where
  "u_hostname u =
     (let host = fst (u_hostinfo u)
      in if host = [] then None
         else (case partition_at CHR ''%'' host of
                 (name, percent, zone) \<Rightarrow> Some (map to_lower name @ (if percent then ''%'' @ zone else []))))"

fun digits_value :: "nat \<Rightarrow> string \<Rightarrow> nat" where
  "digits_value n [] = n"
| "digits_value n (c # cs) = digits_value (10 * n + (chr_code c - 48)) cs"

fun nat_text :: "nat \<Rightarrow> string" where
  "nat_text n =
     (if n < 10 then [char_of (48 + n)] else nat_text (n div 10) @ [char_of (48 + n mod 10)])"

definition u_port :: "url \<Rightarrow> nat option res" where
  "u_port u =
     (let port = snd (u_hostinfo u)
      in if port = [] then Inr None
         else if \<not> list_all is_digit port then Inl PyValueError
         else if 65535 < digits_value 0 port then Inl PyValueError
         else Inr (Some (digits_value 0 port)))"

subsection \<open>The utilities\<close>

definition with_slash :: "url \<Rightarrow> url" where
  "with_slash u = (if ends_with ''/'' (u_path u) then u else u\<lparr>u_path := u_path u @ ''/''\<rparr>)"

definition clean_url :: "string \<Rightarrow> string res" where
  "clean_url text = bind_res (urlparse text) (\<lambda>u. Inr (urlunparse (with_slash u)))"

definition fix_url :: "string \<Rightarrow> string res" where
  "fix_url text =
     bind_res (urlparse text) (\<lambda>u.
       let parts = (if u_scheme u \<noteq> ''https'' then u\<lparr>u_scheme := ''https''\<rparr> else u)
       in Inr (urlunparse (with_slash parts)))"

definition parse_service_url :: "string \<Rightarrow> (string \<times> string option \<times> string option) res" where
  "parse_service_url text =
     bind_res (urlparse text) (\<lambda>pieces.
     bind_res (require PyValueError (u_hostname pieces)) (\<lambda>host.
     bind_res (u_port pieces) (\<lambda>port.
       let netloc = (case port of None \<Rightarrow> host | Some n \<Rightarrow> host @ '':'' @ nat_text n);
           url = urlunparse \<lparr>u_scheme = u_scheme pieces, u_netloc = netloc, u_path = u_path pieces,
                   u_params = [], u_query = [], u_fragment = []\<rparr>
       in Inr (url, u_userinfo pieces))))"

definition get_hostname :: "string \<Rightarrow> string res" where
  "get_hostname text = bind_res (urlparse text) (\<lambda>u. require PyValueError (u_hostname u))"

definition is_server_address :: "string \<Rightarrow> string list \<Rightarrow> bool" where
  "is_server_address address additional_schemes =
     (case urlparse address of
        Inl e \<Rightarrow> False
      | Inr u \<Rightarrow> map to_lower (u_scheme u) \<in> set ([''http'', ''https''] @ additional_schemes))"

end
