(* ===== verification/SpallocSession.thy ===== *)
theory SpallocSession
  imports Urls Proxy
begin

text \<open>
  The session with the Spalloc service (\<open>spalloc/session.py\<close>). The service is outside the program: its
  replies are a list, each a response or what \<open>requests\<close> raises instead of one, and every request is
  logged. Printing requests for debugging and logging are not kept.
\<close>

subsection \<open>Requests and responses\<close>

datatype json =
    JNull
  | JBool bool
  | JInt int
  | JStr string
  | JArr "json list"
  | JObj "(string \<times> json) list"

text \<open>
  \<open>obj["key"]\<close>, and the same for a value that the program takes to be a text or a list: another type is a
  \<open>TypeError\<close> here, where the program would go on with it.
\<close>

definition json_get :: "string \<Rightarrow> json \<Rightarrow> json res" where
  "json_get k j = (case j of JObj kvs \<Rightarrow> require PyKeyError (map_of kvs k) | _ \<Rightarrow> Inl PyTypeError)"

definition json_str :: "json \<Rightarrow> string res" where
  "json_str j = (case j of JStr s \<Rightarrow> Inr s | _ \<Rightarrow> Inl PyTypeError)"

definition json_str_at :: "string \<Rightarrow> json \<Rightarrow> string res" where
  "json_str_at k j = bind_res (json_get k j) json_str"

definition json_list_at :: "string \<Rightarrow> json \<Rightarrow> json list res" where
  "json_list_at k j = bind_res (json_get k j) (\<lambda>v. case v of JArr xs \<Rightarrow> Inr xs | _ \<Rightarrow> Inl PyTypeError)"

datatype http_method = GET | POST | PUT | DELETE

record http_request =
  rq_method :: http_method
  rq_url :: string
  rq_params :: "(string \<times> json) list"
  rq_body :: "json option"
  rq_cookies :: "(string \<times> string option) list"
  rq_headers :: "(string \<times> string option) list"
  rq_timeout :: "int option"

text \<open>A body that is not JSON is \<open>None\<close>: decoding it is an error, a \<open>ValueError\<close>.\<close>

record http_response =
  rs_status :: int
  rs_cookies :: "(string \<times> string) list"
  rs_headers :: "(string \<times> string) list"
  rs_json :: "json option"
  rs_text :: string

definition response_json :: "http_response \<Rightarrow> json res" where
  "response_json r = require PyValueError (rs_json r)"

subsection \<open>State\<close>

text \<open>A slot of the object may not be set yet, and a set one may be \<open>None\<close>.\<close>

datatype slot = Unset | Holds "string option"

record session =
  ss_login_form_url :: string
  ss_login_submit_url :: string
  ss_srv_base :: string
  ss_service_url :: string
  ss_username :: "string option"
  ss_password :: "string option"
  ss_token :: "string option"
  ss_session_id :: slot
  ss_csrf :: slot
  ss_csrf_header :: slot

text \<open>
  The session with the two handles of the job on it that change: whether a keepalive task was started, and
  the websocket of its proxy with its thread.
\<close>

record http =
  h_session :: session
  h_keepalive_handle :: bool
  h_proxy :: "proxy option"
  h_requests :: "http_request list"
  h_replies :: "http_response res list"

text \<open>An operation returns, raises, or waits for a reply that does not come.\<close>

datatype 'a hresult =
    HDone 'a http
  | HRaise exc http
  | HWait http

type_synonym 'a hm = "http \<Rightarrow> 'a hresult"

definition h_return :: "'a \<Rightarrow> 'a hm" where
  "h_return x h = HDone x h"

definition h_raise :: "exc \<Rightarrow> 'a hm" where
  "h_raise e h = HRaise e h"

definition h_bind :: "'a hm \<Rightarrow> ('a \<Rightarrow> 'b hm) \<Rightarrow> 'b hm" where
  "h_bind m f h = (case m h of HDone x h' \<Rightarrow> f x h' | HRaise e h' \<Rightarrow> HRaise e h' | HWait h' \<Rightarrow> HWait h')"

definition h_res :: "'a res \<Rightarrow> 'a hm" where
  "h_res r = (case r of Inl e \<Rightarrow> h_raise e | Inr x \<Rightarrow> h_return x)"

definition h_read :: "(session \<Rightarrow> 'a res) \<Rightarrow> 'a hm" where
  "h_read f h = h_res (f (h_session h)) h"

definition h_modify :: "(session \<Rightarrow> session) \<Rightarrow> unit hm" where
  "h_modify f h = HDone () (h\<lparr>h_session := f (h_session h)\<rparr>)"

definition h_request :: "http_request \<Rightarrow> http_response hm" where
  "h_request req h =
     (let h1 = h\<lparr>h_requests := h_requests h @ [req]\<rparr>
      in case h_replies h of
           [] \<Rightarrow> HWait h1
         | r # rs \<Rightarrow> h_res r (h1\<lparr>h_replies := rs\<rparr>))"

definition slot_value :: "slot \<Rightarrow> string option res" where
  "slot_value s = (case s of Unset \<Rightarrow> Inl PyAttributeError | Holds v \<Rightarrow> Inr v)"

definition slot_key :: "slot \<Rightarrow> string res" where
  "slot_key s = bind_res (slot_value s) (require PyTypeError)"

definition SESSION_COOKIE :: string where "SESSION_COOKIE = ''JSESSIONID''"

subsection \<open>\<open>Session.__init__\<close>\<close>

text \<open>Of the headers of stored credentials, every one that is not the authorisation is the CSRF token.\<close>

definition store_header :: "string \<times> string \<Rightarrow> session \<Rightarrow> session" where
  "store_header kv s =
     (if fst kv = ''Authorization'' then s
      else s\<lparr>ss_csrf_header := Holds (Some (fst kv)), ss_csrf := Holds (Some (snd kv))\<rparr>)"

definition session_init ::
  "string \<Rightarrow> string option \<Rightarrow> string option \<Rightarrow> string option \<Rightarrow>
     ((string \<times> string) list \<times> (string \<times> string) list) option \<Rightarrow> session res" where
  "session_init service_url username password token session_credentials =
     bind_res (clean_url service_url) (\<lambda>url.
       let s = \<lparr>ss_login_form_url = url @ ''system/login.html'', ss_login_submit_url = url @ ''system/perform_login'',
                ss_srv_base = url @ ''srv/spalloc/'', ss_service_url = url, ss_username = username,
                ss_password = password, ss_token = token, ss_session_id = Unset, ss_csrf = Unset,
                ss_csrf_header = Unset\<rparr>
       in Inr (case session_credentials of
            None \<Rightarrow> s
          | Some (cookies, headers) \<Rightarrow>
              fold store_header headers
                (case map_of cookies SESSION_COOKIE of
                   None \<Rightarrow> s
                 | Some v \<Rightarrow> s\<lparr>ss_session_id := Holds (Some v)\<rparr>)))"

text \<open>\<open>_credentials\<close>: the cookies and the headers of a request that changes something.\<close>

definition set_key :: "'a \<Rightarrow> 'b \<Rightarrow> ('a \<times> 'b) list \<Rightarrow> ('a \<times> 'b) list" where
  "set_key = AList.update"

definition bearer :: "string \<Rightarrow> string" where
  "bearer token = ''Bearer '' @ token"

definition has_token :: "session \<Rightarrow> string option" where
  "has_token s = (case ss_token s of Some t \<Rightarrow> if t = [] then None else Some t | None \<Rightarrow> None)"

definition credentials :: "session \<Rightarrow> ((string \<times> string option) list \<times> (string \<times> string option) list) res" where
  "credentials s =
     bind_res (slot_value (ss_session_id s)) (\<lambda>session_id.
     bind_res (slot_key (ss_csrf_header s)) (\<lambda>csrf_header.
     bind_res (slot_value (ss_csrf s)) (\<lambda>csrf.
       Inr ([(SESSION_COOKIE, session_id)],
            (case has_token s of
               None \<Rightarrow> [(csrf_header, csrf)]
             | Some t \<Rightarrow> set_key ''Authorization'' (Some (bearer t)) [(csrf_header, csrf)])))))"

subsection \<open>The four methods\<close>

definition handle_error_or_return :: "http_response \<Rightarrow> http_response res" where
  "handle_error_or_return r = (if 200 \<le> rs_status r \<and> rs_status r < 400 then Inr r else Inl PyValueError)"

text \<open>
  \<open>_may_renew\<close>: the loop around a method, with \<open>renew\<close> the method of that name and \<open>renew_count\<close> its local
  variable. A reply that sets the session cookie gives the session a new identifier.
\<close>

definition store_cookie :: "http_response \<Rightarrow> unit hm" where
  "store_cookie r =
     (case map_of (rs_cookies r) SESSION_COOKIE of
        None \<Rightarrow> h_return ()
      | Some v \<Rightarrow> h_modify (\<lambda>s. s\<lparr>ss_session_id := Holds (Some v)\<rparr>))"

definition renew_turn :: "http_response hm \<Rightarrow> http_response hm" where
  "renew_turn call = h_bind call (\<lambda>r. h_bind (store_cookie r) (\<lambda>_. h_return r))"

partial_function (option) may_renew_loop ::
  "unit hm \<Rightarrow> http_response hm \<Rightarrow> nat \<Rightarrow> http \<Rightarrow> http_response hresult option" where
  "may_renew_loop renew call renew_count h =
     (case renew_turn call h of
        HDone r h1 \<Rightarrow>
          if rs_status r \<noteq> 401 \<or> renew_count = 0 then Some (HDone r h1)
          else (case renew h1 of
                  HDone u h2 \<Rightarrow> may_renew_loop renew call (renew_count + 1) h2
                | HRaise e h2 \<Rightarrow> Some (HRaise e h2)
                | HWait h2 \<Rightarrow> Some (HWait h2))
      | HRaise e h1 \<Rightarrow> Some (HRaise e h1)
      | HWait h1 \<Rightarrow> Some (HWait h1))"

text \<open>
  The count is 0 when the loop is entered, so that its test is met in the first turn: \<open>renew\<close> is not called,
  and one turn is all there is, whatever \<open>renew\<close> does. The methods are given by that turn.
\<close>

lemma may_renew_first_turn: "may_renew_loop renew call 0 h = Some (renew_turn call h)"
  by (subst may_renew_loop.simps) (simp split: hresult.split)

definition http_get :: "string \<Rightarrow> int option \<Rightarrow> (string \<times> json) list \<Rightarrow> http_response hm" where
  "http_get url timeout kwargs =
     renew_turn
       (h_bind (h_read (\<lambda>s. slot_value (ss_session_id s))) (\<lambda>session_id.
        h_bind (h_request \<lparr>rq_method = GET, rq_url = url, rq_params = kwargs, rq_body = None,
                  rq_cookies = [(SESSION_COOKIE, session_id)], rq_headers = [], rq_timeout = timeout\<rparr>) (\<lambda>r.
          h_res (handle_error_or_return r))))"

definition with_credentials ::
  "http_method \<Rightarrow> string \<Rightarrow> int option \<Rightarrow> (string \<times> json) list \<Rightarrow> json option \<Rightarrow> (string \<times> string option) list \<Rightarrow>
     http_response hm" where
  "with_credentials method url timeout kwargs body added =
     renew_turn
       (h_bind (h_read credentials) (\<lambda>(cookies, headers).
        h_bind (h_request \<lparr>rq_method = method, rq_url = url, rq_params = kwargs, rq_body = body,
                  rq_cookies = cookies, rq_headers = fold (\<lambda>(k, v). set_key k v) added headers,
                  rq_timeout = timeout\<rparr>) (\<lambda>r.
          h_res (handle_error_or_return r))))"

definition http_post :: "string \<Rightarrow> json \<Rightarrow> int option \<Rightarrow> (string \<times> json) list \<Rightarrow> http_response hm" where
  "http_post url json_dict timeout kwargs = with_credentials POST url timeout kwargs (Some json_dict) []"

text \<open>\<open>put\<close> with a text.\<close>

definition http_put :: "string \<Rightarrow> string \<Rightarrow> int option \<Rightarrow> (string \<times> json) list \<Rightarrow> http_response hm" where
  "http_put url data timeout kwargs =
     with_credentials PUT url timeout kwargs (Some (JStr data))
       [(''Content-Type'', Some ''text/plain; charset=UTF-8'')]"

definition http_delete :: "string \<Rightarrow> int option \<Rightarrow> (string \<times> json) list \<Rightarrow> http_response hm" where
  "http_delete url timeout kwargs = with_credentials DELETE url timeout kwargs None []"

subsection \<open>\<open>renew\<close>\<close>

text \<open>
  The search for the CSRF token of the form: \<open>(.*)\<close> takes as much of a line as it can, and the first
  place in the text that matches is the one found.
\<close>

definition CSRF_BEFORE :: string where
  "CSRF_BEFORE = ''<input type='' @ [CHR 0x22] @ ''hidden'' @ [CHR 0x22] @ '' name='' @ [CHR 0x22] @ ''_csrf'' @
     [CHR 0x22] @ '' value='' @ [CHR 0x22]"

definition CSRF_AFTER :: string where
  "CSRF_AFTER = [CHR 0x22] @ '' />''"

fun csrf_greedy :: "string \<Rightarrow> nat \<Rightarrow> string option" where
  "csrf_greedy line 0 = (if starts_with CSRF_AFTER line then Some [] else None)"
| "csrf_greedy line (Suc n) =
     (if starts_with CSRF_AFTER (drop (Suc n) line) then Some (take (Suc n) line) else csrf_greedy line n)"

definition csrf_value :: "string \<Rightarrow> string option" where
  "csrf_value text = (let line = takeWhile (\<lambda>c. c \<noteq> CHR 0x0A) text in csrf_greedy line (length line))"

fun csrf_search :: "string \<Rightarrow> string option" where
  "csrf_search text =
     (case (if starts_with CSRF_BEFORE text then csrf_value (drop (length CSRF_BEFORE) text) else None) of
        Some v \<Rightarrow> Some v
      | None \<Rightarrow> (case text of [] \<Rightarrow> None | c # cs \<Rightarrow> csrf_search cs))"

declare csrf_search.simps [simp del]

definition plain_request :: "http_method \<Rightarrow> string \<Rightarrow> json option \<Rightarrow> (string \<times> string option) list \<Rightarrow>
    (string \<times> string option) list \<Rightarrow> http_request" where
  "plain_request method url body cookies headers =
     \<lparr>rq_method = method, rq_url = url, rq_params = [], rq_body = body, rq_cookies = cookies,
      rq_headers = headers, rq_timeout = Some 10\<rparr>"

definition cookie_of :: "http_response \<Rightarrow> string res" where
  "cookie_of r = require PyKeyError (map_of (rs_cookies r) SESSION_COOKIE)"

definition set_session_id :: "string \<Rightarrow> unit hm" where
  "set_session_id v = h_modify (\<lambda>s. s\<lparr>ss_session_id := Holds (Some v)\<rparr>)"

text \<open>
  The message of a failed login: \<open>'message' in json_error\<close> is a membership test for a list or a dictionary,
  a search for a text, and a \<open>TypeError\<close> for anything else; looking it up works for a dictionary only.
\<close>

definition login_error :: "http_response \<Rightarrow> exc" where
  "login_error r =
     (case rs_json r of
        None \<Rightarrow> SpallocError
      | Some (JObj kvs) \<Rightarrow> SpallocError
      | Some (JArr xs) \<Rightarrow> if JStr ''message'' \<in> set xs then PyTypeError else SpallocError
      | Some (JStr s) \<Rightarrow>
          if \<exists>n \<in> set [0..<length s]. starts_with ''message'' (drop n s) then PyTypeError else SpallocError
      | Some _ \<Rightarrow> PyTypeError)"

definition renew_with_token :: "string \<Rightarrow> unit hm" where
  "renew_with_token token =
     h_bind (h_read (\<lambda>s. Inr (ss_login_form_url s))) (\<lambda>url.
     h_bind (h_request (plain_request GET url None [] [(''Authorization'', Some (bearer token))])) (\<lambda>r.
       if rs_status r < 400 then h_bind (h_res (cookie_of r)) set_session_id else h_raise SpallocError))"

definition opt_json :: "string option \<Rightarrow> json" where
  "opt_json s = (case s of None \<Rightarrow> JNull | Some t \<Rightarrow> JStr t)"

definition renew_with_password :: "unit hm" where
  "renew_with_password =
     h_bind (h_read Inr) (\<lambda>s.
     h_bind (h_request (plain_request GET (ss_login_form_url s) None [] [])) (\<lambda>r.
       case csrf_search (rs_text r) of
         None \<Rightarrow> h_raise SpallocError
       | Some csrf \<Rightarrow>
           h_bind (h_res (cookie_of r)) (\<lambda>session.
           h_bind (h_request (plain_request POST (ss_login_submit_url s)
             (Some (JObj [(''_csrf'', JStr csrf), (''username'', opt_json (ss_username s)),
                (''password'', opt_json (ss_password s)), (''submit'', JStr ''submit'')]))
             [(SESSION_COOKIE, Some session)] [])) (\<lambda>r2.
             case map_of (rs_cookies r2) SESSION_COOKIE of
               Some v \<Rightarrow> set_session_id v
             | None \<Rightarrow> h_raise (login_error r2)))))"

definition json_without :: "string list \<Rightarrow> json \<Rightarrow> json" where
  "json_without ks j = (case j of JObj kvs \<Rightarrow> JObj (filter (\<lambda>(k, v). k \<notin> set ks) kvs) | _ \<Rightarrow> j)"

definition renew :: "json hm" where
  "renew =
     h_bind (h_read (\<lambda>s. Inr (has_token s))) (\<lambda>token.
     h_bind (case token of Some t \<Rightarrow> renew_with_token t | None \<Rightarrow> renew_with_password) (\<lambda>_.
     h_bind (h_read (\<lambda>s. Inr (ss_srv_base s))) (\<lambda>base.
     h_bind (http_get base (Some 10) []) (\<lambda>r.
     h_bind (h_res (response_json r)) (\<lambda>obj.
     h_bind (h_res (json_str_at ''csrf-header'' obj)) (\<lambda>header.
     h_bind (h_modify (\<lambda>s. s\<lparr>ss_csrf_header := Holds (Some header)\<rparr>)) (\<lambda>_.
     h_bind (h_res (json_str_at ''csrf-token'' obj)) (\<lambda>csrf.
     h_bind (h_modify (\<lambda>s. s\<lparr>ss_csrf := Holds (Some csrf)\<rparr>)) (\<lambda>_.
       h_return (json_without [''csrf-header'', ''csrf-token''] obj))))))))))"

text \<open>
  \<open>websocket\<close>: the headers and the cookie with which the connection is asked for; a session identifier that
  is \<open>None\<close> cannot be put into the text.
\<close>

definition websocket_args :: "(string \<times> string option) list \<Rightarrow> string option \<Rightarrow> session \<Rightarrow>
    ((string \<times> string option) list \<times> string) res" where
  "websocket_args header cookie s =
     bind_res (slot_key (ss_csrf_header s)) (\<lambda>csrf_header.
     bind_res (slot_value (ss_csrf s)) (\<lambda>csrf.
     bind_res (slot_key (ss_session_id s)) (\<lambda>session_id.
       Inr (set_key csrf_header csrf header,
            (case cookie of None \<Rightarrow> [] | Some c \<Rightarrow> c @ '';'') @ SESSION_COOKIE @ ''='' @ session_id))))"

definition purge :: "session \<Rightarrow> session" where
  "purge s = s\<lparr>ss_username := None, ss_password := None, ss_session_id := Holds None, ss_csrf := Holds None\<rparr>"

end
