(* ===== verification/SpallocJob.thy ===== *)
theory SpallocJob
  imports SpallocSession Utilities
begin

text \<open>
  The client of the Spalloc service, its machines and its jobs (\<open>spalloc/spalloc_client.py\<close>,
  \<open>spalloc/spalloc_state.py\<close>). What the other end of the websocket does is given by \<open>connect\<close>, the library
  call that opens it, and by the events of each call over it.
\<close>

subsection \<open>Values of the service\<close>

datatype spalloc_state = UNKNOWN | QUEUED | POWER | READY | DESTROYED

fun spalloc_state_value :: "spalloc_state \<Rightarrow> int" where
  "spalloc_state_value UNKNOWN = 0"
| "spalloc_state_value QUEUED = 1"
| "spalloc_state_value POWER = 2"
| "spalloc_state_value READY = 3"
| "spalloc_state_value DESTROYED = 4"

definition spalloc_state_members :: "spalloc_state list" where
  "spalloc_state_members = [UNKNOWN, QUEUED, POWER, READY, DESTROYED]"

interpretation spalloc_state: py_enum spalloc_state_members spalloc_state_value
proof
  fix x show "x \<in> set spalloc_state_members" by (cases x) (simp_all add: spalloc_state_members_def)
qed (simp add: spalloc_state_members_def)

text \<open>Members of an \<open>IntEnum\<close> are integers: they compare by value.\<close>

instantiation spalloc_state :: linorder
begin

definition less_eq_spalloc_state :: "spalloc_state \<Rightarrow> spalloc_state \<Rightarrow> bool" where
  "x \<le> y \<longleftrightarrow> spalloc_state_value x \<le> spalloc_state_value y"

definition less_spalloc_state :: "spalloc_state \<Rightarrow> spalloc_state \<Rightarrow> bool" where
  "x < y \<longleftrightarrow> spalloc_state_value x < spalloc_state_value y"

instance
  by standard (auto simp: less_eq_spalloc_state_def less_spalloc_state_def spalloc_state.val_antisym)

end

text \<open>\<open>SpallocState[name]\<close>\<close>

definition spalloc_states :: "(string \<times> spalloc_state) list" where
  "spalloc_states = [(''UNKNOWN'', UNKNOWN), (''QUEUED'', QUEUED), (''POWER'', POWER), (''READY'', READY),
     (''DESTROYED'', DESTROYED)]"

definition spalloc_state_named :: "string \<Rightarrow> spalloc_state res" where
  "spalloc_state_named name = require PyKeyError (map_of spalloc_states name)"

definition json_int :: "json \<Rightarrow> int res" where
  "json_int j = (case j of JInt n \<Rightarrow> Inr n | _ \<Rightarrow> Inl PyTypeError)"

definition json_int_at :: "string \<Rightarrow> json \<Rightarrow> int res" where
  "json_int_at k j = bind_res (json_get k j) json_int"

fun map_res :: "('a \<Rightarrow> 'b res) \<Rightarrow> 'a list \<Rightarrow> 'b list res" where
  "map_res f [] = Inr []"
| "map_res f (x # xs) = bind_res (f x) (\<lambda>y. bind_res (map_res f xs) (\<lambda>ys. Inr (y # ys)))"

definition int_text :: "int \<Rightarrow> string" where
  "int_text n = (if n < 0 then ''-'' @ nat_text (nat (- n)) else nat_text (nat n))"

definition get_json :: "string \<Rightarrow> int option \<Rightarrow> (string \<times> json) list \<Rightarrow> json hm" where
  "get_json url timeout kwargs = h_bind (http_get url timeout kwargs) (\<lambda>r. h_res (response_json r))"

subsection \<open>\<open>_SpallocMachine\<close>\<close>

record spalloc_machine =
  sm_url :: string
  sm_name :: string
  sm_tags :: "string list"
  sm_width :: int
  sm_height :: int
  sm_dead_boards :: "json list"
  sm_dead_links :: "json list"

definition spalloc_machine_init :: "json \<Rightarrow> spalloc_machine res" where
  "spalloc_machine_init data =
     bind_res (bind_res (json_str_at ''uri'' data) clean_url) (\<lambda>url.
     bind_res (json_str_at ''name'' data) (\<lambda>name.
     bind_res (bind_res (json_list_at ''tags'' data) (map_res json_str)) (\<lambda>tags.
     bind_res (json_int_at ''width'' data) (\<lambda>width.
     bind_res (json_int_at ''height'' data) (\<lambda>height.
     bind_res (json_list_at ''dead-boards'' data) (\<lambda>dead_boards.
     bind_res (json_list_at ''dead-links'' data) (\<lambda>dead_links.
       Inr \<lparr>sm_url = url, sm_name = name, sm_tags = remdups tags, sm_width = width, sm_height = height,
            sm_dead_boards = dead_boards, sm_dead_links = dead_links\<rparr>)))))))"

definition sm_area :: "spalloc_machine \<Rightarrow> int \<times> int" where
  "sm_area m = (sm_width m, sm_height m)"

subsection \<open>\<open>_SpallocJob\<close>: URLs and credentials\<close>

record job =
  j_url :: string
  j_machine_url :: string
  j_chip_url :: string
  j_keepalive_url :: string

definition job_init :: "string \<Rightarrow> job res" where
  "job_init job_handle =
     bind_res (clean_url job_handle) (\<lambda>url.
       Inr \<lparr>j_url = url, j_machine_url = url @ ''machine'', j_chip_url = url @ ''chip'',
            j_keepalive_url = url @ ''keepalive''\<rparr>)"

text \<open>The rows for a database: a table and a key, and the value. The authorisation header is left out.\<close>

type_synonym db_config = "((string \<times> string) \<times> string option) list"

definition get_session_credentials_for_db :: "job \<Rightarrow> session \<Rightarrow> db_config res" where
  "get_session_credentials_for_db j s =
     bind_res (credentials s) (\<lambda>(cookies, headers).
       let headers' = AList.delete ''Authorization'' headers
       in Inr (fold (\<lambda>(k, v). set_key (''HEADER'', k) v) headers'
            (fold (\<lambda>(k, v). set_key (''COOKIE'', k) v) cookies
              [((''SPALLOC'', ''service uri''), Some (ss_service_url s)), ((''SPALLOC'', ''job uri''), Some (j_url j))])))"

subsection \<open>\<open>_SpallocJob\<close>: state and boards\<close>

definition state_of :: "json \<Rightarrow> spalloc_state res" where
  "state_of obj = bind_res (json_str_at ''state'' obj) spalloc_state_named"

definition get_state :: "bool \<Rightarrow> job \<Rightarrow> spalloc_state hm" where
  "get_state wait_for_change j =
     h_bind (get_json (j_url j) (if wait_for_change then None else Some 10) [(''wait'', JBool wait_for_change)])
       (\<lambda>obj. h_res (state_of obj))"

definition poll_state :: "int option \<Rightarrow> job \<Rightarrow> spalloc_state hm" where
  "poll_state timeout j =
     h_bind (get_json (j_url j) timeout [(''wait'', JStr ''true'')]) (\<lambda>obj. h_res (state_of obj))"

partial_function (option) wait_for_state_change ::
  "spalloc_state \<Rightarrow> int option \<Rightarrow> job \<Rightarrow> http \<Rightarrow> spalloc_state hresult option" where
  "wait_for_state_change old_state timeout j h =
     (if old_state = DESTROYED then Some (HDone old_state h)
      else case poll_state timeout j h of
             HDone s h1 \<Rightarrow>
               if s \<noteq> old_state \<or> s = DESTROYED then Some (HDone s h1)
               else wait_for_state_change old_state timeout j h1
           | HRaise e h1 \<Rightarrow> Some (HRaise e h1)
           | HWait h1 \<Rightarrow> Some (HWait h1))"

declare wait_for_state_change.simps [code]

partial_function (option) ready_loop ::
  "int option \<Rightarrow> int option \<Rightarrow> job \<Rightarrow> spalloc_state \<Rightarrow> int \<Rightarrow> http \<Rightarrow> unit hresult option" where
  "ready_loop timeout n_retries j state retries h =
     (if state \<noteq> READY \<and> (case n_retries of None \<Rightarrow> True | Some n \<Rightarrow> retries < n) then
        (case wait_for_state_change state timeout j h of
           None \<Rightarrow> None
         | Some (HDone s h1) \<Rightarrow>
             if s = DESTROYED then Some (HRaise SpallocError h1)
             else ready_loop timeout n_retries j s (retries + 1) h1
         | Some (HRaise e h1) \<Rightarrow> Some (HRaise e h1)
         | Some (HWait h1) \<Rightarrow> Some (HWait h1))
      else Some (HDone () h))"

declare ready_loop.simps [code]

definition wait_until_ready :: "int option \<Rightarrow> int option \<Rightarrow> job \<Rightarrow> http \<Rightarrow> unit hresult option" where
  "wait_until_ready timeout n_retries j h =
     (case get_state False j h of
        HDone s h1 \<Rightarrow> ready_loop timeout n_retries j s 0 h1
      | HRaise e h1 \<Rightarrow> Some (HRaise e h1)
      | HWait h1 \<Rightarrow> Some (HWait h1))"

text \<open>\<open>((x, y), host)\<close>; a list of another shape cannot be taken apart, which is a \<open>ValueError\<close>.\<close>

definition connection_of :: "json \<Rightarrow> ((int \<times> int) \<times> string) res" where
  "connection_of c =
     (case c of
        JArr [JArr [x, y], host] \<Rightarrow>
          bind_res (json_int x) (\<lambda>x'. bind_res (json_int y) (\<lambda>y'. bind_res (json_str host) (\<lambda>h. Inr ((x', y'), h))))
      | JArr [JArr _, _] \<Rightarrow> Inl PyValueError
      | JArr [_, _] \<Rightarrow> Inl PyTypeError
      | JArr _ \<Rightarrow> Inl PyValueError
      | _ \<Rightarrow> Inl PyTypeError)"

fun root_host_of :: "json list \<Rightarrow> string option res" where
  "root_host_of [] = Inr None"
| "root_host_of (c # cs) =
     bind_res (connection_of c) (\<lambda>((x, y), host). if x = 0 \<and> y = 0 then Inr (Some host) else root_host_of cs)"

definition get_root_host :: "job \<Rightarrow> string option hm" where
  "get_root_host j =
     h_bind (http_get (j_machine_url j) (Some 10) []) (\<lambda>r.
       if rs_status r = 204 then h_return None
       else h_res (bind_res (response_json r) (\<lambda>obj. bind_res (json_list_at ''connections'' obj) root_host_of)))"

definition get_connections :: "job \<Rightarrow> ((int \<times> int) \<times> string) list hm" where
  "get_connections j =
     h_bind (http_get (j_machine_url j) (Some 10) []) (\<lambda>r.
       if rs_status r = 204 then h_return []
       else h_res (bind_res (response_json r) (\<lambda>obj. bind_res (json_list_at ''connections'' obj) (\<lambda>cs.
              bind_res (map_res connection_of cs) (\<lambda>conns. Inr (fold (\<lambda>(xy, host). set_key xy host) conns []))))))"

definition where_is_machine :: "int \<Rightarrow> int \<Rightarrow> job \<Rightarrow> json list option hm" where
  "where_is_machine x y j =
     h_bind (http_get (j_chip_url j) (Some 10) [(''x'', JInt x), (''y'', JInt y)]) (\<lambda>r.
       if rs_status r = 204 then h_return None
       else h_res (bind_res (response_json r) (\<lambda>obj.
              bind_res (json_list_at ''physical-board-coordinates'' obj) (\<lambda>c. Inr (Some c)))))"

subsection \<open>\<open>_SpallocJob\<close>: keeping alive and destroying\<close>

definition job_keepalive :: "job \<Rightarrow> http_response hm" where
  "job_keepalive j = http_put (j_keepalive_url j) ''alive'' (Some 10) []"

text \<open>
  \<open>_spalloc_keepalive\<close>, the task of another process: a request, then a wait for the queue, which is empty
  still when the interval is over, holds the message to stop, or is broken. Its requests, and whether it
  ended.
\<close>

datatype term_queue = QueueEmpty | QueueItem | QueueBroken

definition keepalive_request ::
  "string \<Rightarrow> (string \<times> string option) list \<Rightarrow> (string \<times> string option) list \<Rightarrow> http_request" where
  "keepalive_request url cookies headers =
     plain_request PUT url (Some (JStr ''alive'')) cookies
       (set_key ''Content-Type'' (Some ''text/plain; charset=UTF-8'') headers)"

fun keepalive_task ::
  "string \<Rightarrow> (string \<times> string option) list \<Rightarrow> (string \<times> string option) list \<Rightarrow> term_queue list \<Rightarrow>
     http_request list \<times> bool" where
  "keepalive_task url cookies headers [] = ([keepalive_request url cookies headers], False)"
| "keepalive_task url cookies headers (q # qs) =
     (case q of
        QueueEmpty \<Rightarrow>
          (case keepalive_task url cookies headers qs of
             (rs, done) \<Rightarrow> (keepalive_request url cookies headers # rs, done))
      | _ \<Rightarrow> ([keepalive_request url cookies headers], True))"

text \<open>Starting the task: its arguments. The handle is not cleared when the task ends.\<close>

definition launch_keepalive_task :: "job \<Rightarrow> (string \<times> (string \<times> string option) list \<times> (string \<times> string option) list) hm" where
  "launch_keepalive_task j =
     (\<lambda>h. if h_keepalive_handle h then h_raise SpallocError h
          else h_bind (h_read credentials) (\<lambda>(cookies, headers) h1.
            HDone (j_keepalive_url j, cookies, headers) (h1\<lparr>h_keepalive_handle := True\<rparr>)) h)"

definition set_keepalive_handle :: "unit hm" where
  "set_keepalive_handle =
     (\<lambda>h. if h_keepalive_handle h then h_raise SpallocError h else HDone () (h\<lparr>h_keepalive_handle := True\<rparr>))"

definition close_handles :: "http \<Rightarrow> http" where
  "close_handles h =
     h\<lparr>h_keepalive_handle := False,
       h_proxy := map_option (\<lambda>p. (receiver_close p)\<lparr>ws_connected := False\<rparr>) (h_proxy h)\<rparr>"

definition destroy :: "string \<Rightarrow> job \<Rightarrow> http_response hm" where
  "destroy reason j = (\<lambda>h. http_delete (j_url j) (Some 10) [(''reason'', JStr reason)] (close_handles h))"

subsection \<open>\<open>_SpallocJob\<close>: the proxy\<close>

definition proxy_url :: "job \<Rightarrow> string option hm" where
  "proxy_url j =
     h_bind (http_get (j_url j) (Some 10) []) (\<lambda>r.
       if rs_status r = 204 then h_return None
       else h_res (bind_res (response_json r) (\<lambda>obj.
              case json_str_at ''proxy-ref'' obj of
                Inl e \<Rightarrow> if e = PyKeyError then Inr None else Inl e
              | Inr url \<Rightarrow> Inr (Some url))))"

type_synonym ws_connect = "string option \<Rightarrow> string \<Rightarrow> (string \<times> string option) list \<times> string \<Rightarrow> proxy res"

text \<open>The URL is asked for twice: once for the test, and once more for the connection.\<close>

definition init_proxy :: "ws_connect \<Rightarrow> job \<Rightarrow> unit hm" where
  "init_proxy connect j =
     (\<lambda>h. if (case h_proxy h of None \<Rightarrow> True | Some p \<Rightarrow> \<not> ws_connected p) then
            h_bind (proxy_url j) (\<lambda>url.
              if url = None then h_raise PyValueError
              else h_bind (proxy_url j) (\<lambda>url2.
                   h_bind (h_res (get_hostname (j_url j))) (\<lambda>origin.
                   h_bind (h_read (websocket_args [] None)) (\<lambda>args.
                   h_bind (h_res (connect url2 origin args)) (\<lambda>p h1. HDone () (h1\<lparr>h_proxy := Some p\<rparr>)))))) h
          else HDone () h)"

definition over_proxy :: "(proxy \<Rightarrow> 'a px_result) \<Rightarrow> 'a hm" where
  "over_proxy f h =
     (case h_proxy h of
        None \<Rightarrow> HRaise PyAssertionError h
      | Some p \<Rightarrow>
          (case f p of
             PxDone x p' \<Rightarrow> HDone x (h\<lparr>h_proxy := Some p'\<rparr>)
           | PxRaise e p' \<Rightarrow> HRaise e (h\<lparr>h_proxy := Some p'\<rparr>)
           | PxWait p' \<Rightarrow> HWait (h\<lparr>h_proxy := Some p'\<rparr>)))"

definition connect_to_board ::
  "ws_connect \<Rightarrow> int \<Rightarrow> int \<Rightarrow> int \<Rightarrow> ws_event list \<Rightarrow> ws_event list \<Rightarrow> job \<Rightarrow> nat hm" where
  "connect_to_board connect x y port sending waiting j =
     h_bind (init_proxy connect j) (\<lambda>_. over_proxy (open_bidirectional x y port sending waiting))"

definition connect_for_booting :: "ws_connect \<Rightarrow> ws_event list \<Rightarrow> ws_event list \<Rightarrow> job \<Rightarrow> nat hm" where
  "connect_for_booting connect sending waiting j =
     h_bind (init_proxy connect j) (\<lambda>_.
       over_proxy (open_bidirectional 0 0 UDP_BOOT_CONNECTION_DEFAULT_PORT sending waiting))"

definition open_eieio_connection ::
  "ws_connect \<Rightarrow> int \<Rightarrow> int \<Rightarrow> ws_event list \<Rightarrow> ws_event list \<Rightarrow> job \<Rightarrow> nat hm" where
  "open_eieio_connection connect x y sending waiting j =
     h_bind (init_proxy connect j) (\<lambda>_. over_proxy (open_bidirectional x y SCP_SCAMP_PORT sending waiting))"

text \<open>A listener, for EIEIO messages or plain ones: the connection with the boards by their addresses.\<close>

definition open_listener_connection ::
  "ws_connect \<Rightarrow> ws_event list \<Rightarrow> ws_event list \<Rightarrow> job \<Rightarrow> (nat \<times> (string \<times> (int \<times> int)) list) hm" where
  "open_listener_connection connect sending waiting j =
     h_bind (init_proxy connect j) (\<lambda>_.
     h_bind (get_connections j) (\<lambda>conns.
     h_bind (over_proxy (open_unbound sending waiting)) (\<lambda>i.
       h_return (i, invert_connections conns))))"

text \<open>The connections of the transceiver that \<open>create_transceiver\<close> makes; \<open>net\<close> gives the events of each.\<close>

fun connect_boards ::
  "ws_connect \<Rightarrow> (nat \<Rightarrow> ws_event list \<times> ws_event list) \<Rightarrow> (int \<times> int) list \<Rightarrow> job \<Rightarrow> nat list hm" where
  "connect_boards connect net [] j =
     h_bind (connect_for_booting connect (fst (net 0)) (snd (net 0)) j) (\<lambda>i. h_return [i])"
| "connect_boards connect net ((x, y) # xys) j =
     h_bind (connect_to_board connect x y SCP_SCAMP_PORT (fst (net 0)) (snd (net 0)) j) (\<lambda>i.
     h_bind (connect_boards connect (\<lambda>n. net (Suc n)) xys j) (\<lambda>is. h_return (i # is)))"

definition create_transceiver ::
  "ws_connect \<Rightarrow> (nat \<Rightarrow> ws_event list \<times> ws_event list) \<Rightarrow> job \<Rightarrow> nat list hm" where
  "create_transceiver connect net j =
     h_bind (get_state False j) (\<lambda>s.
       if s \<noteq> READY then h_raise SpallocError
       else h_bind (get_connections j) (\<lambda>conns. connect_boards connect net (map fst conns) j))"

subsection \<open>\<open>SpallocClient\<close>\<close>

record spalloc_client =
  sc_open :: bool
  sc_version :: "int \<times> int \<times> int"
  sc_machines_url :: string
  sc_jobs_url :: string
  sc_group :: "string option"
  sc_collab :: "string option"
  sc_nmpi_job :: "int option"
  sc_nmpi_user :: "int option"

definition client_start ::
  "string \<Rightarrow> string option \<Rightarrow> string option \<Rightarrow> string option \<Rightarrow> session res" where
  "client_start service_url username password bearer_token =
     bind_res (if username = None \<and> password = None then parse_service_url service_url
               else Inr (service_url, username, password)) (\<lambda>(url, user, pass).
       session_init url user pass bearer_token None)"

definition client_init ::
  "string option \<Rightarrow> string option \<Rightarrow> int option \<Rightarrow> int option \<Rightarrow> spalloc_client hm" where
  "client_init group_name collab nmpi_job nmpi_user =
     h_bind renew (\<lambda>obj.
     h_bind (h_res (json_get ''version'' obj)) (\<lambda>v.
     h_bind (h_res (json_int_at ''major-version'' v)) (\<lambda>major.
     h_bind (h_res (json_int_at ''minor-version'' v)) (\<lambda>minor.
     h_bind (h_res (json_int_at ''revision'' v)) (\<lambda>revision.
     h_bind (h_res (bind_res (json_str_at ''machines-ref'' obj) fix_url)) (\<lambda>machines_url.
     h_bind (h_res (bind_res (json_str_at ''jobs-ref'' obj) fix_url)) (\<lambda>jobs_url.
       h_return \<lparr>sc_open = True, sc_version = (major, minor, revision), sc_machines_url = machines_url,
         sc_jobs_url = jobs_url, sc_group = group_name, sc_collab = collab, sc_nmpi_job = nmpi_job,
         sc_nmpi_user = nmpi_user\<rparr>)))))))"

definition open_job_from_database ::
  "string \<Rightarrow> string \<Rightarrow> (string \<times> string) list \<Rightarrow> (string \<times> string) list \<Rightarrow> (session \<times> job) res" where
  "open_job_from_database service_url job_url cookies headers =
     bind_res (session_init service_url None None None (Some (cookies, headers))) (\<lambda>s.
     bind_res (job_init job_url) (\<lambda>j. Inr (s, j)))"

definition named_machine :: "json \<Rightarrow> (string \<times> spalloc_machine) res" where
  "named_machine m =
     bind_res (json_str_at ''name'' m) (\<lambda>name. bind_res (spalloc_machine_init m) (\<lambda>sm. Inr (name, sm)))"

definition list_machines :: "spalloc_client \<Rightarrow> (string \<times> spalloc_machine) list hm" where
  "list_machines c =
     (if \<not> sc_open c then h_raise PyAssertionError
      else h_bind (get_json (sc_machines_url c) (Some 10) []) (\<lambda>obj.
             h_res (bind_res (json_list_at ''machines'' obj) (\<lambda>ms.
                    bind_res (map_res named_machine ms) (\<lambda>kvs. Inr (fold (\<lambda>(k, v). set_key k v) kvs []))))))"

definition job_of :: "json \<Rightarrow> job res" where
  "job_of u = bind_res (json_str u) (\<lambda>url. bind_res (fix_url url) job_init)"

text \<open>The pages of the list of jobs, followed to the end.\<close>

partial_function (option) job_pages :: "json \<Rightarrow> job list \<Rightarrow> http \<Rightarrow> job list hresult option" where
  "job_pages obj found h =
     (case json_list_at ''jobs'' obj of
        Inl e \<Rightarrow> Some (HRaise e h)
      | Inr [] \<Rightarrow> Some (HDone found h)
      | Inr (u # us) \<Rightarrow>
          (case map_res job_of (u # us) of
             Inl e \<Rightarrow> Some (HRaise e h)
           | Inr js \<Rightarrow>
               (case json_str_at ''next'' obj of
                  Inl e \<Rightarrow> Some (if e = PyKeyError then HDone (found @ js) h else HRaise e h)
                | Inr url \<Rightarrow>
                    (case get_json url (Some 10) [] h of
                       HDone obj' h1 \<Rightarrow> job_pages obj' (found @ js) h1
                     | HRaise e h1 \<Rightarrow> Some (HRaise e h1)
                     | HWait h1 \<Rightarrow> Some (HWait h1)))))"

declare job_pages.simps [code]

definition list_jobs :: "spalloc_client \<Rightarrow> bool \<Rightarrow> http \<Rightarrow> job list hresult option" where
  "list_jobs c deleted h =
     (if \<not> sc_open c then Some (HRaise PyAssertionError h)
      else case get_json (sc_jobs_url c) (Some 10) [(''deleted'', JStr (if deleted then ''true'' else ''false''))] h of
             HDone obj h1 \<Rightarrow> job_pages obj [] h1
           | HRaise e h1 \<Rightarrow> Some (HRaise e h1)
           | HWait h1 \<Rightarrow> Some (HWait h1))"

definition location_of :: "http_response \<Rightarrow> string res" where
  "location_of r =
     require PyKeyError (map_of (map (\<lambda>(k, v). (map to_lower k, v)) (rs_headers r)) ''location'')"

definition given :: "string option \<Rightarrow> string option" where
  "given s = (case s of None \<Rightarrow> None | Some t \<Rightarrow> if t = [] then None else Some t)"

definition create_operation :: "spalloc_client \<Rightarrow> (string \<times> json) list \<Rightarrow> string option \<Rightarrow> (string \<times> json) list" where
  "create_operation c create machine_name =
     (let op1 = (case given machine_name of
                   Some name \<Rightarrow> set_key ''machine-name'' (JStr name) create
                 | None \<Rightarrow> set_key ''tags'' (JArr [JStr ''default'']) create);
          op2 = (case sc_group c of None \<Rightarrow> op1 | Some g \<Rightarrow> set_key ''group'' (JStr g) op1);
          op3 = (case sc_collab c of None \<Rightarrow> op2 | Some v \<Rightarrow> set_key ''nmpi-collab'' (JStr v) op2)
      in case sc_nmpi_job c of
           None \<Rightarrow> op3
         | Some n \<Rightarrow>
             let op4 = set_key ''nmpi-job-id'' (JInt n) op3
             in (case sc_nmpi_user c of None \<Rightarrow> op4 | Some u \<Rightarrow> set_key ''owner'' (JInt u) op4))"

definition client_create :: "spalloc_client \<Rightarrow> (string \<times> json) list \<Rightarrow> string option \<Rightarrow> job hm" where
  "client_create c create machine_name =
     (if \<not> sc_open c then h_raise PyAssertionError
      else h_bind (http_post (sc_jobs_url c) (JObj (create_operation c create machine_name)) (Some 30) []) (\<lambda>r.
             h_res (bind_res (location_of r) (\<lambda>url. bind_res (fix_url url) job_init))))"

definition keepalive_interval :: "int \<Rightarrow> json" where
  "keepalive_interval n = JStr (''PT'' @ int_text n @ ''S'')"

definition dimensions :: "int \<Rightarrow> int \<Rightarrow> json" where
  "dimensions width height = JObj [(''width'', JInt width), (''height'', JInt height)]"

definition create_job :: "spalloc_client \<Rightarrow> int \<Rightarrow> string option \<Rightarrow> int \<Rightarrow> job hm" where
  "create_job c num_boards machine_name keepalive =
     client_create c [(''num-boards'', JInt num_boards), (''keepalive-interval'', keepalive_interval keepalive)]
       machine_name"

definition create_job_rect :: "spalloc_client \<Rightarrow> int \<Rightarrow> int \<Rightarrow> string option \<Rightarrow> int \<Rightarrow> job hm" where
  "create_job_rect c width height machine_name keepalive =
     client_create c [(''dimensions'', dimensions width height), (''keepalive-interval'', keepalive_interval keepalive)]
       machine_name"

text \<open>The board asked for: by its triad, its physical place or its address, the first that is given.\<close>

definition board_asked ::
  "(int \<times> int \<times> int) option \<Rightarrow> (int \<times> int \<times> int) option \<Rightarrow> string option \<Rightarrow> json res" where
  "board_asked triad physical ip_address =
     (case triad of
        Some (x, y, z) \<Rightarrow> Inr (JObj [(''x'', JInt x), (''y'', JInt y), (''z'', JInt z)])
      | None \<Rightarrow>
          (case physical of
             Some (c, f, b) \<Rightarrow> Inr (JObj [(''cabinet'', JInt c), (''frame'', JInt f), (''board'', JInt b)])
           | None \<Rightarrow>
               (case given ip_address of
                  Some a \<Rightarrow> Inr (JObj [(''address'', JStr a)])
                | None \<Rightarrow> Inl PyKeyError)))"

definition create_job_board ::
  "spalloc_client \<Rightarrow> (int \<times> int \<times> int) option \<Rightarrow> (int \<times> int \<times> int) option \<Rightarrow> string option \<Rightarrow> string option \<Rightarrow>
     int \<Rightarrow> job hm" where
  "create_job_board c triad physical ip_address machine_name keepalive =
     h_bind (h_res (board_asked triad physical ip_address)) (\<lambda>board.
       client_create c [(''board'', board), (''keepalive-interval'', keepalive_interval keepalive)] machine_name)"

definition create_job_rect_at_board ::
  "spalloc_client \<Rightarrow> int \<Rightarrow> int \<Rightarrow> (int \<times> int \<times> int) option \<Rightarrow> (int \<times> int \<times> int) option \<Rightarrow> string option \<Rightarrow>
     string option \<Rightarrow> int \<Rightarrow> int \<Rightarrow> job hm" where
  "create_job_rect_at_board c width height triad physical ip_address machine_name keepalive max_dead_boards =
     h_bind (h_res (board_asked triad physical ip_address)) (\<lambda>board.
       client_create c
         [(''dimensions'', dimensions width height), (''board'', board),
          (''keepalive-interval'', keepalive_interval keepalive), (''max-dead-boards'', JInt max_dead_boards)]
         machine_name)"

definition client_close :: "spalloc_client \<Rightarrow> http \<Rightarrow> spalloc_client \<times> http" where
  "client_close c h =
     (c\<lparr>sc_open := False\<rparr>, if sc_open c then h\<lparr>h_session := purge (h_session h)\<rparr> else h)"

end
