(* ===== verification/SpallocProps.thy ===== *)
theory SpallocProps
  imports SpallocJob
begin

text \<open>
  Jobs of the Spalloc service: waiting for a job to be ready ends with the first state that decides it, and the
  credentials that are stored for other programs never hold the authorisation of the user.
\<close>

subsection \<open>Asking for the state of a job\<close>

text \<open>A reply that holds a state.\<close>

definition answers :: "http_response \<Rightarrow> spalloc_state \<Rightarrow> bool" where
  "answers r s \<longleftrightarrow> 200 \<le> rs_status r \<and> rs_status r < 400 \<and> (\<exists>obj. rs_json r = Some obj \<and> state_of obj = Inr s)"

definition tells :: "http_response res \<Rightarrow> spalloc_state \<Rightarrow> bool" where
  "tells r s \<longleftrightarrow> (\<exists>x. r = Inr x \<and> answers x s)"

definition told :: "http \<Rightarrow> spalloc_state list \<Rightarrow> bool" where
  "told h ss \<longleftrightarrow> ss_session_id (h_session h) \<noteq> Unset \<and>
     list_all2 tells (h_replies h) ss"

lemma get_json_told:
  assumes "told h (s # ss)"
  shows "\<exists>h' obj. get_json url timeout kwargs h = HDone obj h' \<and> state_of obj = Inr s \<and> told h' ss"
proof -
  obtain v where v: "ss_session_id (h_session h) = Holds v" using assms by (cases "ss_session_id (h_session h)") (auto simp: told_def)
  obtain x rs obj where r: "h_replies h = Inr x # rs" "200 \<le> rs_status x" "rs_status x < 400" "rs_json x = Some obj"
    "state_of obj = Inr s"
    "list_all2 tells rs ss"
    using assms by (auto simp: told_def tells_def answers_def list_all2_Cons2)
  show ?thesis
    using r v
    by (auto simp: get_json_def http_get_def renew_turn_def h_bind_def h_read_def h_res_def h_return_def
        h_request_def slot_value_def handle_error_or_return_def store_cookie_def response_json_def h_modify_def
        told_def Let_def split: option.split)
qed

lemma get_json_waits:
  assumes "told h []"
  shows "\<exists>h'. get_json url timeout kwargs h = HWait h' \<and> told h' []"
proof -
  obtain v where v: "ss_session_id (h_session h) = Holds v" using assms by (cases "ss_session_id (h_session h)") (auto simp: told_def)
  then show ?thesis
    using assms
    by (auto simp: get_json_def http_get_def renew_turn_def h_bind_def h_read_def h_res_def h_return_def
        h_request_def slot_value_def told_def Let_def)
qed

lemma poll_told: "told h (s # ss) \<Longrightarrow> \<exists>h'. poll_state timeout j h = HDone s h' \<and> told h' ss"
  using get_json_told [of h s ss "j_url j" timeout "[(''wait'', JStr ''true'')]"]
  by (auto simp: poll_state_def h_bind_def h_res_def h_return_def)

lemma poll_waits: "told h [] \<Longrightarrow> \<exists>h'. poll_state timeout j h = HWait h' \<and> told h' []"
  using get_json_waits [of h "j_url j" timeout "[(''wait'', JStr ''true'')]"]
  by (auto simp: poll_state_def h_bind_def)

text \<open>The same states over and over are not a change.\<close>

lemma wait_for_state_change_told:
  "told h ss \<Longrightarrow> old \<noteq> DESTROYED \<Longrightarrow>
     \<exists>h'. wait_for_state_change old timeout j h =
       Some (case dropWhile (\<lambda>s. s = old) ss of [] \<Rightarrow> HWait h' | s # _ \<Rightarrow> HDone s h') \<and>
     told h' (tl (dropWhile (\<lambda>s. s = old) ss))"
proof (induction ss arbitrary: h)
  case Nil
  then obtain h' where "poll_state timeout j h = HWait h'" "told h' []" using poll_waits by blast
  then show ?case using Nil.prems(2) by (subst wait_for_state_change.simps) auto
next
  case (Cons s ss)
  obtain h1 where h1: "poll_state timeout j h = HDone s h1" "told h1 ss" using poll_told [OF Cons.prems(1)] by blast
  show ?case
  proof (cases "s = old")
    case True
    then show ?thesis
      using Cons.IH [OF h1(2) Cons.prems(2)] h1(1) Cons.prems(2) by (subst wait_for_state_change.simps) auto
  next
    case False
    then show ?thesis using h1 Cons.prems(2) by (subst wait_for_state_change.simps) auto
  qed
qed

subsection \<open>Waiting for a job\<close>

definition decides :: "spalloc_state \<Rightarrow> bool" where
  "decides s \<longleftrightarrow> s = READY \<or> s = DESTROYED"

text \<open>What is left of the states after the first that decides.\<close>

definition undecided :: "spalloc_state list \<Rightarrow> spalloc_state list" where
  "undecided ss = tl (dropWhile (\<lambda>s. \<not> decides s) ss)"

definition ready_outcome :: "spalloc_state list \<Rightarrow> http \<Rightarrow> unit hresult" where
  "ready_outcome ss h =
     (case find decides ss of
        None \<Rightarrow> HWait h
      | Some s \<Rightarrow> if s = READY then HDone () h else HRaise SpallocError h)"

text \<open>In the order of the states, a job is decided from \<open>READY\<close> on.\<close>

lemma decides_order: "decides s \<longleftrightarrow> READY \<le> s"
  by (cases s) (simp_all add: decides_def less_eq_spalloc_state_def)

lemma find_dropWhile: "find P (dropWhile (\<lambda>s. s = old) ss) = find P ss" if "\<not> P old"
  using that by (induction ss) auto

lemma undecided_dropWhile:
  "\<not> decides old \<Longrightarrow> undecided (dropWhile (\<lambda>s. s = old) ss) = undecided ss"
  by (induction ss) (auto simp: undecided_def)

lemma ready_loop_told:
  "told h ss \<Longrightarrow> state \<noteq> DESTROYED \<Longrightarrow>
     \<exists>h'. ready_loop timeout None j state retries h = Some (ready_outcome (state # ss) h') \<and>
       told h' (undecided (state # ss))"
proof (induction "length ss" arbitrary: ss state retries h rule: less_induct)
  case less
  show ?case
  proof (cases "state = READY")
    case True
    then show ?thesis
      using less.prems by (subst ready_loop.simps) (auto simp: ready_outcome_def decides_def undecided_def)
  next
    case False
    then have nd: "\<not> decides state" using less.prems(2) by (simp add: decides_def)
    obtain h1 where h1: "wait_for_state_change state timeout j h =
        Some (case dropWhile (\<lambda>s. s = state) ss of [] \<Rightarrow> HWait h1 | s # _ \<Rightarrow> HDone s h1)"
      "told h1 (tl (dropWhile (\<lambda>s. s = state) ss))"
      using wait_for_state_change_told [OF less.prems] by blast
    have out: "ready_outcome (state # ss) g = ready_outcome (dropWhile (\<lambda>s. s = state) ss) g"
      "undecided (state # ss) = undecided (dropWhile (\<lambda>s. s = state) ss)" for g
      using nd find_dropWhile [of decides, OF nd] undecided_dropWhile [OF nd]
      by (simp_all add: ready_outcome_def undecided_def)
    show ?thesis
    proof (cases "dropWhile (\<lambda>s. s = state) ss")
      case Nil
      have "ready_loop timeout None j state retries h = Some (HWait h1)"
        using False h1(1) Nil by (subst ready_loop.simps) simp
      then show ?thesis using h1(2) unfolding out Nil by (simp add: ready_outcome_def undecided_def exI [of _ h1])
    next
      case (Cons s rest)
      have len: "length rest < length ss"
        using length_dropWhile_le [of "\<lambda>s. s = state" ss] Cons by simp
      show ?thesis
      proof (cases "s = DESTROYED")
        case True
        then have "ready_loop timeout None j state retries h = Some (HRaise SpallocError h1)"
          using False h1(1) Cons by (subst ready_loop.simps) simp
        then show ?thesis
          using h1(2) True unfolding out Cons by (simp add: ready_outcome_def undecided_def decides_def exI [of _ h1])
      next
        case notd: False
        have "ready_loop timeout None j state retries h = ready_loop timeout None j s (retries + 1) h1"
          using False h1(1) Cons notd by (subst ready_loop.simps) simp
        then show ?thesis
          using less.hyps [OF len _ notd, of h1 "retries + 1"] h1(2) Cons by (simp add: out)
      qed
    qed
  qed
qed

text \<open>
  C39: \<open>wait_until_ready\<close> without a limit follows the states that the service tells, however often each is
  repeated, to the first that decides: it returns when that is READY, raises a \<open>SpallocException\<close> when it is
  DESTROYED, keeps waiting when there is none, and asks for no state after it.
\<close>
theorem wait_until_ready_decides:
  assumes "told h ss"
  shows "\<exists>h'. wait_until_ready timeout None j h = Some (ready_outcome ss h') \<and> told h' (undecided ss)"
proof (cases ss)
  case Nil
  then obtain h' where "get_state False j h = HWait h'" "told h' []"
    using get_json_waits [of h "j_url j" "Some 10" "[(''wait'', JBool False)]"] assms
    by (auto simp: get_state_def h_bind_def)
  then show ?thesis using Nil by (auto simp: wait_until_ready_def ready_outcome_def undecided_def)
next
  case (Cons s rest)
  then obtain h1 where h1: "get_state False j h = HDone s h1" "told h1 rest"
    using get_json_told [of h s rest "j_url j" "Some 10" "[(''wait'', JBool False)]"] assms
    by (auto simp: get_state_def h_bind_def h_res_def h_return_def)
  show ?thesis
  proof (cases "s = DESTROYED")
    case True
    have "wait_for_state_change DESTROYED timeout j h1 = Some (HDone DESTROYED h1)"
      by (subst wait_for_state_change.simps) simp
    then have "ready_loop timeout None j DESTROYED 0 h1 = Some (HRaise SpallocError h1)"
      by (subst ready_loop.simps) simp
    then show ?thesis
      using h1 Cons True by (auto simp: wait_until_ready_def ready_outcome_def undecided_def decides_def)
  next
    case False
    then show ?thesis using ready_loop_told [OF h1(2) False] h1(1) Cons by (simp add: wait_until_ready_def)
  qed
qed


subsection \<open>Credentials\<close>

text \<open>The rows of one table of a database, as the dictionary that another program makes of them.\<close>

definition db_table :: "string \<Rightarrow> db_config \<Rightarrow> (string \<times> string) list" where
  "db_table name config = [(k, v). ((t, k), Some v) \<leftarrow> config, t = name]"

lemma credentials_cases:
  assumes "credentials s = Inr (cookies, headers)"
  obtains session_id csrf_header csrf where
    "ss_session_id s = Holds session_id" "ss_csrf_header s = Holds (Some csrf_header)" "ss_csrf s = Holds csrf"
    "cookies = [(SESSION_COOKIE, session_id)]"
    "headers = (case has_token s of
       None \<Rightarrow> [(csrf_header, csrf)]
     | Some t \<Rightarrow> set_key ''Authorization'' (Some (bearer t)) [(csrf_header, csrf)])"
  using assms by (auto simp: credentials_def slot_key_def slot_value_def split: slot.splits)

lemma config_rows:
  assumes "ss_session_id s = Holds session_id" and "ss_csrf_header s = Holds (Some csrf_header)"
    and "ss_csrf s = Holds csrf" and "csrf_header \<noteq> ''Authorization''"
  shows "get_session_credentials_for_db j s =
    Inr [((''SPALLOC'', ''service uri''), Some (ss_service_url s)), ((''SPALLOC'', ''job uri''), Some (j_url j)),
         ((''COOKIE'', SESSION_COOKIE), session_id), ((''HEADER'', csrf_header), csrf)]"
  using assms
  by (simp add: get_session_credentials_for_db_def credentials_def slot_key_def slot_value_def set_key_def
      split: option.split)

text \<open>
  What \<open>get_session_credentials_for_db\<close> stores is the service, the job, the session cookie and the CSRF
  token, and nothing else: whatever token the user authorised with is not in it.
\<close>
theorem credentials_for_db_safe:
  assumes "get_session_credentials_for_db j s = Inr config" and "ss_csrf_header s \<noteq> Holds (Some ''Authorization'')"
  shows "(''HEADER'', ''Authorization'') \<notin> fst ` set config \<and>
    (\<forall>(k, v) \<in> set config. v \<in> {Some (ss_service_url s), Some (j_url j)} \<or>
       Holds v = ss_session_id s \<or> Holds v = ss_csrf s)"
proof -
  obtain cookies headers where "credentials s = Inr (cookies, headers)"
    using assms(1) by (auto simp: get_session_credentials_for_db_def)
  then obtain session_id csrf_header csrf where c: "ss_session_id s = Holds session_id"
    "ss_csrf_header s = Holds (Some csrf_header)" "ss_csrf s = Holds csrf"
    by (rule credentials_cases)
  have h: "csrf_header \<noteq> ''Authorization''" using assms(2) c(2) by simp
  show ?thesis using config_rows [OF c h, of j] assms(1) c h by auto
qed

text \<open>
  C40: a job that is opened from the stored credentials acts with the same session: its session has the same
  cookies and the same headers but for the authorisation, and the URL of the service when that is clean.
\<close>
theorem credentials_roundtrip:
  assumes "credentials s = Inr ([(SESSION_COOKIE, Some session_id)], headers)"
    and "ss_csrf_header s = Holds (Some csrf_header)" and "ss_csrf s = Holds (Some csrf)"
    and "csrf_header \<noteq> ''Authorization''"
    and "get_session_credentials_for_db j s = Inr config"
    and "clean_url (ss_service_url s) = Inr (ss_service_url s)" and "clean_url (j_url j) = Inr (j_url j)"
  shows "\<exists>s' j'. open_job_from_database (ss_service_url s) (j_url j) (db_table ''COOKIE'' config)
      (db_table ''HEADER'' config) = Inr (s', j') \<and> j_url j' = j_url j \<and>
      credentials s' = Inr ([(SESSION_COOKIE, Some session_id)], AList.delete ''Authorization'' headers) \<and>
      ss_service_url s' = ss_service_url s"
proof -
  obtain v k c where v: "ss_session_id s = Holds v" "ss_csrf_header s = Holds (Some k)" "ss_csrf s = Holds c"
    "[(SESSION_COOKIE, Some session_id)] = [(SESSION_COOKIE, v)]"
    "headers = (case has_token s of
       None \<Rightarrow> [(k, c)] | Some t \<Rightarrow> set_key ''Authorization'' (Some (bearer t)) [(k, c)])"
    by (rule credentials_cases [OF assms(1)])
  have k: "k = csrf_header" "c = Some csrf" using v(2,3) assms(2,3) by simp_all
  have id: "ss_session_id s = Holds (Some session_id)" using v(1,4) by simp
  have tables: "db_table ''COOKIE'' config = [(SESSION_COOKIE, session_id)]" "db_table ''HEADER'' config = [(csrf_header, csrf)]"
    using config_rows [OF id assms(2-4), of j] assms(5) by (simp_all add: db_table_def)
  have "AList.delete ''Authorization'' headers = [(csrf_header, Some csrf)]"
    using v(5) assms(4) by (simp add: k set_key_def split: option.splits)
  then show ?thesis
    using assms(4,6,7)
    by (simp add: open_job_from_database_def session_init_def job_init_def tables store_header_def credentials_def
        slot_value_def slot_key_def has_token_def Let_def)
qed

text \<open>
  Purging a session does not clear its token, so that it can be renewed with it; and a job whose keepalive task
  has ended cannot start another, since only destroying the job clears the handle.
\<close>

lemma purge_keeps_token: "has_token (purge s) = has_token s"
  by (simp add: purge_def has_token_def)

lemma second_keepalive_refused:
  "launch_keepalive_task j h = HDone args h1 \<Longrightarrow> launch_keepalive_task j h1 = HRaise SpallocError h1"
  by (auto simp: launch_keepalive_task_def h_bind_def h_read_def h_res_def h_return_def h_raise_def
      split: if_splits hresult.splits sum.splits)

subsection \<open>Concrete runs\<close>

definition state_reply :: "string \<Rightarrow> http_response res" where
  "state_reply name = Inr \<lparr>rs_status = 200, rs_cookies = [], rs_headers = [],
     rs_json = Some (JObj [(''state'', JStr name)]), rs_text = []\<rparr>"

definition sample_session :: session where
  "sample_session = \<lparr>ss_login_form_url = [], ss_login_submit_url = [], ss_srv_base = [],
     ss_service_url = ''https://h/s/'', ss_username = None, ss_password = None, ss_token = Some ''secret'',
     ss_session_id = Holds (Some ''abc''), ss_csrf = Holds (Some ''xyz''), ss_csrf_header = Holds (Some ''X-CSRF'')\<rparr>"

definition sample_job :: job where
  "sample_job = \<lparr>j_url = ''https://h/s/jobs/3/'', j_machine_url = [], j_chip_url = [], j_keepalive_url = []\<rparr>"

definition sample_http :: http where
  "sample_http = \<lparr>h_session = sample_session, h_keepalive_handle = False, h_proxy = None, h_requests = [],
     h_replies = map state_reply [''QUEUED'', ''QUEUED'', ''POWER'', ''READY'', ''DESTROYED'']\<rparr>"

theorem wait_until_ready_decides_witness:
  "\<exists>h'. wait_until_ready None None sample_job sample_http = Some (HDone () h') \<and> length (h_replies h') = 1"
proof -
  have named: "map_of spalloc_states n = Some s \<Longrightarrow> tells (state_reply n) s" for n s
    by (simp add: tells_def answers_def state_reply_def state_of_def json_str_at_def json_get_def json_str_def
        spalloc_state_named_def)
  have "told sample_http [QUEUED, QUEUED, POWER, READY, DESTROYED]"
    by (simp add: told_def sample_http_def sample_session_def named spalloc_states_def)
  from wait_until_ready_decides [OF this, of None sample_job] obtain h' where
    "wait_until_ready None None sample_job sample_http = Some (HDone () h')" "told h' [DESTROYED]"
    by (auto simp: ready_outcome_def undecided_def decides_def)
  then show ?thesis by (auto simp: told_def list_all2_lengthD)
qed

lemma sample_config:
  "get_session_credentials_for_db sample_job sample_session =
     Inr [((''SPALLOC'', ''service uri''), Some ''https://h/s/''), ((''SPALLOC'', ''job uri''), Some ''https://h/s/jobs/3/''),
          ((''COOKIE'', SESSION_COOKIE), Some ''abc''), ((''HEADER'', ''X-CSRF''), Some ''xyz'')]"
  by code_simp

theorem credentials_for_db_safe_witness:
  "(''HEADER'', ''Authorization'') \<notin> fst ` set (projr (get_session_credentials_for_db sample_job sample_session))"
proof -
  have "ss_csrf_header sample_session \<noteq> Holds (Some ''Authorization'')" by (simp add: sample_session_def)
  from credentials_for_db_safe [OF sample_config this] show ?thesis unfolding sample_config by simp
qed

theorem credentials_roundtrip_witness:
  "\<exists>s' j'. open_job_from_database ''https://h/s/'' ''https://h/s/jobs/3/'' [(SESSION_COOKIE, ''abc'')] [(''X-CSRF'', ''xyz'')]
      = Inr (s', j') \<and> credentials s' = Inr ([(SESSION_COOKIE, Some ''abc'')], [(''X-CSRF'', Some ''xyz'')])"
proof -
  have c: "credentials sample_session = Inr ([(SESSION_COOKIE, Some ''abc'')],
      [(''X-CSRF'', Some ''xyz''), (''Authorization'', Some ''Bearer secret'')])" by code_simp
  have u: "clean_url (ss_service_url sample_session) = Inr (ss_service_url sample_session)"
    "clean_url (j_url sample_job) = Inr (j_url sample_job)" by code_simp+
  have "ss_csrf_header sample_session = Holds (Some ''X-CSRF'')" "ss_csrf sample_session = Holds (Some ''xyz'')"
    by (simp_all add: sample_session_def)
  from credentials_roundtrip [OF c this _ sample_config u] show ?thesis
    by (auto simp: db_table_def sample_session_def sample_job_def)
qed

end
