(* ===== verification/MachineDetailsProps.thy ===== *)
theory MachineDetailsProps
  imports MachineDetails
begin

text \<open>
  The machine that is made of what its chips reported: what was ignored is not in it, cores that are in use
  were idle, and its links lead both ways as they did before anything was taken out.
\<close>

subsection \<open>What the passes keep\<close>

text \<open>\<open>info_of\<close> is the dictionary of the chips; \<open>placed\<close> is what a summary tells of its own place.\<close>

abbreviation info_of :: "machine_state \<Rightarrow> xy \<Rightarrow> chip_summary_info option" where
  "info_of s \<equiv> map_of (gm_chip_info s)"

definition placed :: "machine_version \<Rightarrow> xy \<Rightarrow> chip_summary_info \<Rightarrow> bool" where
  "placed v k i \<longleftrightarrow> k = (csi_x i, csi_y i) \<and> distinct (csi_working_links i) \<and>
     (\<forall>l\<in>set (csi_working_links i). 0 \<le> l \<and> l < 6 \<and>
        mv_xy_over_link v (mv_xy_over_link v k l) ((l + 3) mod 6) = k)"

definition machine_placed :: "machine_version \<Rightarrow> machine_state \<Rightarrow> bool" where
  "machine_placed v s \<longleftrightarrow> distinct (map fst (gm_chip_info s)) \<and> list_all (\<lambda>(k, i). placed v k i) (gm_chip_info s)"

definition leads_back :: "machine_version \<Rightarrow> machine_state \<Rightarrow> xy \<Rightarrow> int \<Rightarrow> bool" where
  "leads_back v s k l =
     (case info_of s (mv_xy_over_link v k l) of
        None \<Rightarrow> True | Some j \<Rightarrow> (l + 3) mod 6 \<in> set (csi_working_links j))"

definition links_symmetric :: "machine_version \<Rightarrow> machine_state \<Rightarrow> bool" where
  "links_symmetric v s \<longleftrightarrow>
     list_all (\<lambda>(k, i). list_all (leads_back v s k) (csi_working_links i)) (gm_chip_info s)"

definition machine_ok :: "machine_version \<Rightarrow> machine_state \<Rightarrow> bool" where
  "machine_ok v s \<longleftrightarrow> machine_placed v s \<and> links_symmetric v s"

lemma machine_placedD:
  assumes "machine_placed v s" "info_of s k = Some i"
  shows "placed v k i"
  using assms by (auto simp: machine_placed_def list_all_iff dest: map_of_SomeD)

lemma machine_placed_iff:
  "machine_placed v s \<longleftrightarrow> distinct (map fst (gm_chip_info s)) \<and> (\<forall>k i. info_of s k = Some i \<longrightarrow> placed v k i)"
  by (auto simp: machine_placed_def list_all_iff dest: map_of_SomeD)

lemma links_symmetric_iff:
  assumes "distinct (map fst (gm_chip_info s))"
  shows "links_symmetric v s \<longleftrightarrow>
    (\<forall>k i l. info_of s k = Some i \<longrightarrow> l \<in> set (csi_working_links i) \<longrightarrow> leads_back v s k l)"
  using assms by (auto simp: links_symmetric_def list_all_iff dest: map_of_SomeD)

lemma other_link: "0 \<le> (l::int) \<Longrightarrow> l < 6 \<Longrightarrow> ((l + 3) mod 6 + 3) mod 6 = l"
  by presburger

text \<open>Passes only take chips and links out, and the map of addresses stays once it is there.\<close>

definition pruned :: "machine_state \<Rightarrow> machine_state \<Rightarrow> bool" where
  "pruned s s' \<longleftrightarrow>
     (\<forall>k i'. info_of s' k = Some i' \<longrightarrow> (\<exists>i. info_of s k = Some i \<and>
        set (csi_working_links i') \<subseteq> set (csi_working_links i) \<and>
        i' = i\<lparr>csi_working_links := csi_working_links i'\<rparr>)) \<and>
     (\<forall>t. gm_ethernets s = Some t \<longrightarrow> gm_ethernets s' = Some t) \<and>
     (\<forall>k. gm_ignore_cores_map s k \<subseteq> gm_ignore_cores_map s' k) \<and>
     gm_physical_to_virtual_map s' = gm_physical_to_virtual_map s"

lemma pruned_refl [simp]: "pruned s s"
  by (simp add: pruned_def)

lemma pruned_info:
  "pruned s s' \<Longrightarrow> info_of s' k = Some i' \<Longrightarrow>
     \<exists>i. info_of s k = Some i \<and> set (csi_working_links i') \<subseteq> set (csi_working_links i) \<and>
       i' = i\<lparr>csi_working_links := csi_working_links i'\<rparr>"
  unfolding pruned_def by blast

lemma pruned_trans [trans]:
  assumes "pruned s t" "pruned t u"
  shows "pruned s u"
proof -
  have "\<exists>i. info_of s k = Some i \<and> set (csi_working_links i') \<subseteq> set (csi_working_links i) \<and>
      i' = i\<lparr>csi_working_links := csi_working_links i'\<rparr>" if u: "info_of u k = Some i'" for k i'
  proof -
    obtain j where j: "info_of t k = Some j" "set (csi_working_links i') \<subseteq> set (csi_working_links j)"
        "i' = j\<lparr>csi_working_links := csi_working_links i'\<rparr>"
      using pruned_info [OF assms(2) u] by blast
    obtain i where i: "info_of s k = Some i" "set (csi_working_links j) \<subseteq> set (csi_working_links i)"
        "j = i\<lparr>csi_working_links := csi_working_links j\<rparr>"
      using pruned_info [OF assms(1) j(1)] by blast
    have "i' = i\<lparr>csi_working_links := csi_working_links i'\<rparr>"
      by (subst j(3), subst i(3)) simp
    then show ?thesis using i(1,2) j(2) by blast
  qed
  moreover have "\<And>k. gm_ignore_cores_map s k \<subseteq> gm_ignore_cores_map u k"
    using assms by (meson pruned_def order_trans)
  ultimately show ?thesis using assms unfolding pruned_def by metis
qed

lemma pruned_gone: "pruned s s' \<Longrightarrow> info_of s k = None \<Longrightarrow> info_of s' k = None"
  using pruned_info [of s s' k] by (cases "info_of s' k") auto


subsection \<open>Taking a link out\<close>

lemma info_of_set_links [simp]:
  "info_of (set_links k ls s) k' =
     map_option (\<lambda>i. if k' = k then i\<lparr>csi_working_links := ls\<rparr> else i) (info_of s k')"
proof -
  have "map_of (map (\<lambda>(k', i). (k', f k' i)) xs) a = map_option (f a) (map_of xs a)"
    for f :: "xy \<Rightarrow> chip_summary_info \<Rightarrow> chip_summary_info" and xs a
    by (induction xs) auto
  from this [of "\<lambda>k' i. if k' = k then i\<lparr>csi_working_links := ls\<rparr> else i"] show ?thesis
    by (simp add: set_links_def)
qed

lemma keys_set_links [simp]: "map fst (gm_chip_info (set_links k ls s)) = map fst (gm_chip_info s)"
  by (simp add: set_links_def case_prod_beta comp_def)

lemma rest_set_links [simp]:
  "gm_ethernets (set_links k ls s) = gm_ethernets s"
  "gm_ignore_cores_map (set_links k ls s) = gm_ignore_cores_map s"
  "gm_physical_to_virtual_map (set_links k ls s) = gm_physical_to_virtual_map s"
  by (simp_all add: set_links_def)

lemma pruned_set_links:
  assumes "info_of s k = Some i" "set ls \<subseteq> set (csi_working_links i)"
  shows "pruned s (set_links k ls s)"
  using assms unfolding pruned_def by auto

lemma placed_fewer:
  "placed v k i \<Longrightarrow> distinct ls \<Longrightarrow> set ls \<subseteq> set (csi_working_links i) \<Longrightarrow> placed v k (i\<lparr>csi_working_links := ls\<rparr>)"
  by (auto simp: placed_def)

lemma machine_placed_set_links:
  assumes "machine_placed v s" "info_of s k = Some i"
  shows "machine_placed v (set_links k (remove1 l (csi_working_links i)) s)"
  using assms unfolding machine_placed_iff
  by (auto intro!: placed_fewer simp: placed_def dest: in_set_remove1 [THEN iffD1, rotated] notin_set_remove1)

lemma pruned_remove_inverse: "pruned s (remove_inverse_link v g l s)"
  by (auto simp: remove_inverse_link_def Let_def split: option.splits intro!: pruned_set_links dest: set_remove1_subset [THEN subsetD])

lemma placed_remove_inverse: "machine_placed v s \<Longrightarrow> machine_placed v (remove_inverse_link v g l s)"
  by (auto simp: remove_inverse_link_def Let_def split: option.splits intro: machine_placed_set_links)

text \<open>The links of a chip as a set, empty for a chip that is not there.\<close>

definition links_of :: "machine_state \<Rightarrow> xy \<Rightarrow> int set" where
  "links_of s k = (case info_of s k of None \<Rightarrow> {} | Some i \<Rightarrow> set (csi_working_links i))"

lemma links_of_remove_inverse:
  assumes "machine_placed v s"
  shows "links_of (remove_inverse_link v g l s) k =
     links_of s k - (if k = mv_xy_over_link v g l then {(l + 3) mod 6} else {})"
proof (cases "info_of s (mv_xy_over_link v g l)")
  case None
  then show ?thesis by (auto simp: remove_inverse_link_def links_of_def)
next
  case (Some j)
  then have "distinct (csi_working_links j)"
    using machine_placedD [OF assms] by (auto simp: placed_def)
  with Some show ?thesis
    by (auto simp: remove_inverse_link_def Let_def links_of_def set_remove1_eq split: option.splits)
qed

lemma links_of_set_links_remove1:
  assumes "machine_placed v s" "info_of s g = Some i"
  shows "links_of (set_links g (remove1 l (csi_working_links i)) s) k =
     links_of s k - (if k = g then {l} else {})"
proof -
  have "distinct (csi_working_links i)"
    using machine_placedD [OF assms] by (simp add: placed_def)
  with assms(2) show ?thesis by (auto simp: links_of_def set_remove1_eq split: option.splits)
qed

lemma dom_set_links [simp]: "dom (info_of (set_links k ls s)) = dom (info_of s)"
  by (auto simp: dom_def)

lemma dom_remove_inverse [simp]: "dom (info_of (remove_inverse_link v g l s)) = dom (info_of s)"
  by (auto simp: remove_inverse_link_def Let_def dom_def split: option.splits)

lemma links_symmetric_links_of:
  assumes "machine_placed v s"
  shows "links_symmetric v s \<longleftrightarrow>
    (\<forall>k. \<forall>l\<in>links_of s k. mv_xy_over_link v k l \<in> dom (info_of s) \<longrightarrow>
       (l + 3) mod 6 \<in> links_of s (mv_xy_over_link v k l))"
proof -
  have "distinct (map fst (gm_chip_info s))" using assms by (simp add: machine_placed_iff)
  from links_symmetric_iff [OF this] show ?thesis
    unfolding links_of_def leads_back_def dom_def by (auto split: option.splits)
qed


lemma links_of_range:
  assumes "machine_placed v s" "l \<in> links_of s k"
  shows "0 \<le> l" "l < 6" "mv_xy_over_link v (mv_xy_over_link v k l) ((l + 3) mod 6) = k" "k \<in> dom (info_of s)"
  using assms machine_placedD [OF assms(1)]
  by (auto simp: links_of_def placed_def dom_def split: option.splits)

text \<open>
  Taking out a link with the one that leads back, or links back to a chip that is gone, leaves the links
  symmetric: the removed pairs are \<open>(g, l)\<close> and \<open>(over g l, l + 3)\<close>, and nothing else leads along them.
\<close>
lemma symmetric_remove_pair:
  assumes ok: "machine_ok v s" and placed: "machine_placed v s'" and dom: "dom (info_of s') = dom (info_of s)"
    and links: "\<And>k. links_of s' k =
        links_of s k - (if k = g then {l} else {}) - (if k = mv_xy_over_link v g l then {(l + 3) mod 6} else {})"
    and l: "0 \<le> l" "l < 6" "mv_xy_over_link v (mv_xy_over_link v g l) ((l + 3) mod 6) = g"
  shows "machine_ok v s'"
proof -
  have p: "machine_placed v s" and sym: "links_symmetric v s" using ok by (auto simp: machine_ok_def)
  have "(m + 3) mod 6 \<in> links_of s' (mv_xy_over_link v k m)"
    if m: "m \<in> links_of s' k" "mv_xy_over_link v k m \<in> dom (info_of s')" for k m
  proof -
    have m': "m \<in> links_of s k" using m(1) links by blast
    note r = links_of_range [OF p m']
    have leads: "(m + 3) mod 6 \<in> links_of s (mv_xy_over_link v k m)"
      using sym m' m(2) dom links_symmetric_links_of [OF p] by blast
    have "\<not> (mv_xy_over_link v k m = g \<and> (m + 3) mod 6 = l)"
    proof
      assume a: "mv_xy_over_link v k m = g \<and> (m + 3) mod 6 = l"
      then have "k = mv_xy_over_link v g l" "m = (l + 3) mod 6" using r other_link [of m] by auto
      then show False using m(1) links by auto
    qed
    moreover have "\<not> (mv_xy_over_link v k m = mv_xy_over_link v g l \<and> (m + 3) mod 6 = (l + 3) mod 6)"
    proof
      assume a: "mv_xy_over_link v k m = mv_xy_over_link v g l \<and> (m + 3) mod 6 = (l + 3) mod 6"
      then have "m = l" using r l other_link by metis
      moreover from a have "k = g" using r l by metis
      ultimately show False using m(1) links by auto
    qed
    ultimately show ?thesis using leads links by auto
  qed
  then show ?thesis using placed links_symmetric_links_of [OF placed] by (auto simp: machine_ok_def)
qed

lemma ok_remove_link:
  assumes ok: "machine_ok v s" and i: "info_of s g = Some i" and l: "l \<in> set (csi_working_links i)"
  shows "machine_ok v (remove_inverse_link v g l (set_links g (remove1 l (csi_working_links i)) s))"
proof (rule symmetric_remove_pair [OF ok, of _ g l])
  have p: "machine_placed v s" using ok by (simp add: machine_ok_def)
  have p1: "machine_placed v (set_links g (remove1 l (csi_working_links i)) s)"
    by (rule machine_placed_set_links [OF p i])
  then show "machine_placed v (remove_inverse_link v g l (set_links g (remove1 l (csi_working_links i)) s))"
    by (rule placed_remove_inverse)
  show "links_of (remove_inverse_link v g l (set_links g (remove1 l (csi_working_links i)) s)) k =
        links_of s k - (if k = g then {l} else {}) - (if k = mv_xy_over_link v g l then {(l + 3) mod 6} else {})" for k
    by (simp only: links_of_remove_inverse [OF p1] links_of_set_links_remove1 [OF p i])
  have "l \<in> links_of s g" using i l by (simp add: links_of_def)
  from links_of_range [OF p this]
  show "0 \<le> l" "l < 6" "mv_xy_over_link v (mv_xy_over_link v g l) ((l + 3) mod 6) = g" by auto
qed simp

lemma ok_remove_inverse:
  assumes ok: "machine_ok v s" and g: "info_of s g = None"
    and l: "0 \<le> l" "l < 6" "mv_xy_over_link v (mv_xy_over_link v g l) ((l + 3) mod 6) = g"
  shows "machine_ok v (remove_inverse_link v g l s)"
proof (rule symmetric_remove_pair [OF ok _ _ _ l])
  have p: "machine_placed v s" using ok by (simp add: machine_ok_def)
  then show "machine_placed v (remove_inverse_link v g l s)" by (rule placed_remove_inverse)
  have "links_of s g = {}" using g by (simp add: links_of_def)
  then show "links_of (remove_inverse_link v g l s) k =
        links_of s k - (if k = g then {l} else {}) - (if k = mv_xy_over_link v g l then {(l + 3) mod 6} else {})" for k
    using links_of_remove_inverse [OF p] by auto
qed auto

lemma ok_remove_inverses:
  assumes "machine_ok v s" "info_of s g = None"
    "\<forall>l\<in>set ls. 0 \<le> l \<and> l < 6 \<and> mv_xy_over_link v (mv_xy_over_link v g l) ((l + 3) mod 6) = g"
  shows "machine_ok v (fold (remove_inverse_link v g) ls s) \<and> info_of (fold (remove_inverse_link v g) ls s) g = None \<and>
     pruned s (fold (remove_inverse_link v g) ls s)"
  using assms
proof (induction ls arbitrary: s)
  case (Cons l ls)
  let ?s = "remove_inverse_link v g l s"
  have "machine_ok v ?s" using Cons.prems by (intro ok_remove_inverse) auto
  moreover have "info_of ?s g = None" using pruned_gone [OF pruned_remove_inverse] Cons.prems(2) .
  ultimately show ?case using Cons.IH [of ?s] Cons.prems(3) pruned_trans [OF pruned_remove_inverse [of s v g l]] by auto
qed simp

lemma ok_delete_chip:
  assumes ok: "machine_ok v s"
  shows "machine_ok v (s\<lparr>gm_chip_info := AList.delete g (gm_chip_info s)\<rparr>)"
    and "pruned s (s\<lparr>gm_chip_info := AList.delete g (gm_chip_info s)\<rparr>)"
proof -
  let ?s = "s\<lparr>gm_chip_info := AList.delete g (gm_chip_info s)\<rparr>"
  have p: "machine_placed v s" and sym: "links_symmetric v s" using ok by (auto simp: machine_ok_def)
  have info: "info_of ?s k = (if k = g then None else info_of s k)" for k by (simp add: delete_conv')
  then show "pruned s ?s" unfolding pruned_def by auto
  have p': "machine_placed v ?s"
    using p info by (auto simp: machine_placed_iff distinct_delete simp del: split_paired_All split: if_splits)
  have "links_of ?s k = (if k = g then {} else links_of s k)" for k
    by (simp add: links_of_def delete_conv')
  moreover have "dom (info_of ?s) = dom (info_of s) - {g}" by (simp add: delete_conv')
  ultimately show "machine_ok v ?s"
    using sym p' links_symmetric_links_of [OF p'] links_symmetric_links_of [OF p]
    by (auto simp: machine_ok_def split: if_splits)
qed


subsection \<open>The passes\<close>

text \<open>
  The chip an entry of the configuration names: with an address, the one that the map of addresses gives.
\<close>
definition ignored_at :: "machine_version \<Rightarrow> machine_state \<Rightarrow> xy \<Rightarrow> ip_address option \<Rightarrow> xy option" where
  "ignored_at v s local_xy ip =
     (case ip of
        None \<Rightarrow> Some local_xy
      | Some a \<Rightarrow> (case gm_ethernets s of
          None \<Rightarrow> None | Some t \<Rightarrow> map_option (mv_global_xy v local_xy) (map_of t a)))"

lemma ethernets_ok:
  "machine_ok v (s\<lparr>gm_ethernets := e\<rparr>) = machine_ok v s"
proof -
  have "leads_back v (s\<lparr>gm_ethernets := e\<rparr>) = leads_back v s" by (intro ext) (simp add: leads_back_def)
  then show ?thesis by (simp add: machine_ok_def machine_placed_def links_symmetric_def)
qed

lemma known_iff: "k \<in> fst ` set xs \<longleftrightarrow> map_of xs k \<noteq> None"
  by (simp add: map_of_eq_None_iff)

text \<open>Mapping an entry only fills the map of addresses.\<close>

lemma ignores_local_to_global_result:
  assumes "ignores_local_to_global v local_xy ip s = Inr (s1, r)"
  shows "\<exists>e. s1 = s\<lparr>gm_ethernets := e\<rparr> \<and> (\<forall>t. gm_ethernets s = Some t \<longrightarrow> e = Some t) \<and> (ip \<noteq> None \<longrightarrow> e \<noteq> None)"
    and "r = (case ignored_at v s1 local_xy ip of
           None \<Rightarrow> None | Some g \<Rightarrow> if info_of s1 g = None then None else Some g)"
proof -
  have same: "\<exists>e. s = s\<lparr>gm_ethernets := e\<rparr> \<and> (\<forall>t. gm_ethernets s = Some t \<longrightarrow> e = Some t)"
    by (rule exI [of _ "gm_ethernets s"]) simp
  have "(\<exists>e. s1 = s\<lparr>gm_ethernets := e\<rparr> \<and> (\<forall>t. gm_ethernets s = Some t \<longrightarrow> e = Some t) \<and> (ip \<noteq> None \<longrightarrow> e \<noteq> None)) \<and>
      r = (case ignored_at v s1 local_xy ip of
           None \<Rightarrow> None | Some g \<Rightarrow> if info_of s1 g = None then None else Some g)"
  proof (cases ip)
    case None
    then have "s1 = s" "r = (if info_of s local_xy = None then None else Some local_xy)"
      using assms by (simp_all only: ignores_local_to_global_def known_iff Let_def option.case) auto
    with None same show ?thesis by (simp add: ignored_at_def)
  next
    case (Some a)
    then show ?thesis using assms
      by (auto simp: ignores_local_to_global_def ignored_at_def ethernet_by_ipaddress_def Let_def known_iff
          split: option.splits if_splits)
  qed
  then show "\<exists>e. s1 = s\<lparr>gm_ethernets := e\<rparr> \<and> (\<forall>t. gm_ethernets s = Some t \<longrightarrow> e = Some t) \<and> (ip \<noteq> None \<longrightarrow> e \<noteq> None)"
    and "r = (case ignored_at v s1 local_xy ip of
           None \<Rightarrow> None | Some g \<Rightarrow> if info_of s1 g = None then None else Some g)" by blast+
qed

lemma pruned_ethernets:
  "\<forall>t. gm_ethernets s = Some t \<longrightarrow> e = Some t \<Longrightarrow> pruned s (s\<lparr>gm_ethernets := e\<rparr>)"
  by (simp add: pruned_def)

lemma ignores_local_to_global_keeps:
  assumes "ignores_local_to_global v local_xy ip s = Inr (s1, r)"
  shows "pruned s s1" "machine_ok v s1 = machine_ok v s" "ip \<noteq> None \<Longrightarrow> gm_ethernets s1 \<noteq> None"
proof -
  obtain e where e: "s1 = s\<lparr>gm_ethernets := e\<rparr>" "\<forall>t. gm_ethernets s = Some t \<longrightarrow> e = Some t" "ip \<noteq> None \<longrightarrow> e \<noteq> None"
    using ignores_local_to_global_result(1) [OF assms] by (elim exE conjE) (rule that)
  show "pruned s s1" unfolding e(1) by (rule pruned_ethernets [OF e(2)])
  show "machine_ok v s1 = machine_ok v s" unfolding e(1) by (rule ethernets_ok)
  assume "ip \<noteq> None"
  with e(3) show "gm_ethernets s1 \<noteq> None" unfolding e(1) by simp
qed

lemma ethernets_stay: "pruned s s' \<Longrightarrow> gm_ethernets s \<noteq> None \<Longrightarrow> gm_ethernets s' \<noteq> None"
  unfolding pruned_def by auto

lemma ignored_at_later:
  assumes "pruned s1 s'" "ip \<noteq> None \<Longrightarrow> gm_ethernets s1 \<noteq> None"
  shows "ignored_at v s' local_xy ip = ignored_at v s1 local_xy ip"
  using assms unfolding pruned_def ignored_at_def by (auto split: option.splits)

text \<open>A pass is an entry, then the passes over the others; what an entry has done stays done.\<close>

lemma preprocess_ignore_chips_done:
  assumes "preprocess_ignore_chips v ds s = Inr s'" "machine_ok v s"
  shows "machine_ok v s' \<and> pruned s s' \<and>
     (\<forall>(local_xy, ip)\<in>set ds. (ip \<noteq> None \<longrightarrow> gm_ethernets s' \<noteq> None) \<and>
        (\<forall>g. ignored_at v s' local_xy ip = Some g \<longrightarrow> info_of s' g = None))"
  using assms
proof (induction ds arbitrary: s)
  case (Cons d ds)
  obtain local_xy ip where d: "d = (local_xy, ip)" by (cases d)
  obtain s1 r where r: "ignores_local_to_global v local_xy ip s = Inr (s1, r)"
    using Cons.prems(1) d by (cases "ignores_local_to_global v local_xy ip s") (auto simp: bind_res_def)
  note keeps = ignores_local_to_global_keeps [OF r]
  define s2 where "s2 = (case r of None \<Rightarrow> s1 | Some g \<Rightarrow> (case info_of s1 g of None \<Rightarrow> s1
      | Some info \<Rightarrow> fold (remove_inverse_link v g) (csi_working_links info)
          (s1\<lparr>gm_chip_info := AList.delete g (gm_chip_info s1)\<rparr>)))"
  have ok1: "machine_ok v s1" using keeps(2) Cons.prems(2) by simp
  have s2: "machine_ok v s2 \<and> pruned s1 s2 \<and> (\<forall>g. ignored_at v s1 local_xy ip = Some g \<longrightarrow> info_of s2 g = None)"
  proof (cases "\<exists>g info. r = Some g \<and> info_of s1 g = Some info")
    case True
    then obtain g info where g: "r = Some g" "info_of s1 g = Some info" by blast
    let ?d = "s1\<lparr>gm_chip_info := AList.delete g (gm_chip_info s1)\<rparr>"
    have "placed v g info" using machine_placedD ok1 g(2) unfolding machine_ok_def by blast
    then have "\<forall>l\<in>set (csi_working_links info). 0 \<le> l \<and> l < 6 \<and>
        mv_xy_over_link v (mv_xy_over_link v g l) ((l + 3) mod 6) = g" unfolding placed_def by blast
    from ok_remove_inverses [OF ok_delete_chip(1) [OF ok1] _ this]
    have "machine_ok v s2 \<and> info_of s2 g = None \<and> pruned ?d s2"
      using g by (simp add: s2_def delete_conv')
    moreover have "pruned s1 ?d" by (rule ok_delete_chip(2) [OF ok1])
    moreover have "\<And>h. ignored_at v s1 local_xy ip = Some h \<Longrightarrow> h = g"
      using ignores_local_to_global_result(2) [OF r] g(1) by (auto split: option.splits if_splits)
    ultimately show ?thesis using pruned_trans by blast
  next
    case False
    then have "s2 = s1" by (auto simp: s2_def split: option.splits)
    moreover have "info_of s1 g = None" if "ignored_at v s1 local_xy ip = Some g" for g
    proof (rule ccontr)
      assume "info_of s1 g \<noteq> None"
      with that have "r = Some g" using ignores_local_to_global_result(2) [OF r] by simp
      with \<open>info_of s1 g \<noteq> None\<close> False show False by blast
    qed
    ultimately show ?thesis using ok1 by simp
  qed
  have "preprocess_ignore_chips v ds s2 = Inr s'" using Cons.prems(1) d r by (simp add: bind_res_def s2_def)
  from Cons.IH [OF this] s2
  have rest: "machine_ok v s'" "pruned s2 s'"
     "\<forall>(local_xy, ip)\<in>set ds. (ip \<noteq> None \<longrightarrow> gm_ethernets s' \<noteq> None) \<and>
        (\<forall>g. ignored_at v s' local_xy ip = Some g \<longrightarrow> info_of s' g = None)" by auto
  have p: "pruned s1 s'" using s2 rest(2) pruned_trans by blast
  have "info_of s' g = None" if "ignored_at v s' local_xy ip = Some g" for g
    using that s2 pruned_gone [OF rest(2)] ignored_at_later [OF p keeps(3)] by simp
  moreover have "ip \<noteq> None \<longrightarrow> gm_ethernets s' \<noteq> None"
    using keeps(3) ethernets_stay [OF p] by blast
  ultimately show ?case using rest d pruned_trans [OF keeps(1) p] by auto
qed simp


lemma links_of_pruned: "pruned s s' \<Longrightarrow> links_of s' k \<subseteq> links_of s k"
  using pruned_info [of s s' k] by (auto simp: links_of_def split: option.splits)

lemma process_ignore_links_done:
  assumes "process_ignore_links v ds s = Inr s'" "machine_ok v s"
  shows "machine_ok v s' \<and> pruned s s' \<and>
     (\<forall>(local_xy, l, ip)\<in>set ds. (ip \<noteq> None \<longrightarrow> gm_ethernets s' \<noteq> None) \<and>
        (\<forall>g. ignored_at v s' local_xy ip = Some g \<longrightarrow> l \<notin> links_of s' g))"
  using assms
proof (induction ds arbitrary: s)
  case (Cons d ds)
  obtain local_xy l ip where d: "d = (local_xy, l, ip)" by (cases d) auto
  obtain s1 r where r: "ignores_local_to_global v local_xy ip s = Inr (s1, r)"
    using Cons.prems(1) d by (cases "ignores_local_to_global v local_xy ip s") (auto simp: bind_res_def)
  note keeps = ignores_local_to_global_keeps [OF r]
  define s2 where "s2 = (case r of None \<Rightarrow> s1 | Some g \<Rightarrow> (case info_of s1 g of None \<Rightarrow> s1
      | Some info \<Rightarrow> if l \<in> set (csi_working_links info)
          then remove_inverse_link v g l (set_links g (remove1 l (csi_working_links info)) s1) else s1))"
  have ok1: "machine_ok v s1" using keeps(2) Cons.prems(2) by simp
  then have p1: "machine_placed v s1" by (simp add: machine_ok_def)
  have s2: "machine_ok v s2 \<and> pruned s1 s2 \<and> (\<forall>g. ignored_at v s1 local_xy ip = Some g \<longrightarrow> l \<notin> links_of s2 g)"
  proof (cases "\<exists>g info. r = Some g \<and> info_of s1 g = Some info \<and> l \<in> set (csi_working_links info)")
    case True
    then obtain g info where g: "r = Some g" "info_of s1 g = Some info" "l \<in> set (csi_working_links info)" by blast
    let ?d = "set_links g (remove1 l (csi_working_links info)) s1"
    have eq: "s2 = remove_inverse_link v g l ?d" using g by (simp add: s2_def)
    have "machine_ok v s2" unfolding eq by (rule ok_remove_link [OF ok1 g(2,3)])
    moreover have "pruned s1 s2"
      unfolding eq using pruned_trans [OF pruned_set_links [OF g(2) set_remove1_subset] pruned_remove_inverse] .
    moreover have "l \<notin> links_of s2 g"
      unfolding eq using links_of_pruned [OF pruned_remove_inverse [of ?d v g l], of g]
        links_of_set_links_remove1 [OF p1 g(2), of l g] by auto
    moreover have "\<And>h. ignored_at v s1 local_xy ip = Some h \<Longrightarrow> h = g"
      using ignores_local_to_global_result(2) [OF r] g(1) by (auto split: option.splits if_splits)
    ultimately show ?thesis by blast
  next
    case False
    then have "s2 = s1" by (auto simp: s2_def split: option.splits)
    moreover have "l \<notin> links_of s1 g" if "ignored_at v s1 local_xy ip = Some g" for g
    proof
      assume "l \<in> links_of s1 g"
      then obtain info where info: "info_of s1 g = Some info" "l \<in> set (csi_working_links info)"
        by (cases "info_of s1 g") (auto simp: links_of_def)
      with that have "r = Some g" using ignores_local_to_global_result(2) [OF r] by simp
      with info False show False by blast
    qed
    ultimately show ?thesis using ok1 by simp
  qed
  have "process_ignore_links v ds s2 = Inr s'" using Cons.prems(1) d r by (simp add: bind_res_def s2_def)
  from Cons.IH [OF this] s2
  have rest: "machine_ok v s'" "pruned s2 s'"
     "\<forall>(local_xy, l, ip)\<in>set ds. (ip \<noteq> None \<longrightarrow> gm_ethernets s' \<noteq> None) \<and>
        (\<forall>g. ignored_at v s' local_xy ip = Some g \<longrightarrow> l \<notin> links_of s' g)" by auto
  have p: "pruned s1 s'" using s2 rest(2) pruned_trans by blast
  have "l \<notin> links_of s' g" if "ignored_at v s' local_xy ip = Some g" for g
    using that s2 links_of_pruned [OF rest(2), of g] ignored_at_later [OF p keeps(3)] by auto
  moreover have "ip \<noteq> None \<longrightarrow> gm_ethernets s' \<noteq> None"
    using keeps(3) ethernets_stay [OF p] by blast
  ultimately show ?case using rest d pruned_trans [OF keeps(1) p] by auto
qed simp

lemma ignore_core_keeps:
  "pruned s (s\<lparr>gm_ignore_cores_map := (gm_ignore_cores_map s)(g := insert p (gm_ignore_cores_map s g))\<rparr>)"
  "machine_ok v (s\<lparr>gm_ignore_cores_map := m\<rparr>) = machine_ok v s"
proof -
  show "pruned s (s\<lparr>gm_ignore_cores_map := (gm_ignore_cores_map s)(g := insert p (gm_ignore_cores_map s g))\<rparr>)"
    by (auto simp: pruned_def)
  have "leads_back v (s\<lparr>gm_ignore_cores_map := m\<rparr>) = leads_back v s" by (intro ext) (simp add: leads_back_def)
  then show "machine_ok v (s\<lparr>gm_ignore_cores_map := m\<rparr>) = machine_ok v s"
    by (simp add: machine_ok_def machine_placed_def links_symmetric_def)
qed

lemma preprocess_ignore_cores_done:
  assumes "preprocess_ignore_cores v ds s = Inr s'" "machine_ok v s"
  shows "machine_ok v s' \<and> pruned s s' \<and> gm_chip_info s' = gm_chip_info s \<and>
     (\<forall>(local_xy, p, ip)\<in>set ds. \<forall>g vp. ignored_at v s' local_xy ip = Some g \<longrightarrow> info_of s' g \<noteq> None \<longrightarrow>
        get_virtual_p g p s' = Inr (Some vp) \<longrightarrow> vp \<in> gm_ignore_cores_map s' g)"
  using assms
proof (induction ds arbitrary: s)
  case (Cons d ds)
  obtain local_xy p ip where d: "d = (local_xy, p, ip)" by (cases d) auto
  obtain s1 r where r: "ignores_local_to_global v local_xy ip s = Inr (s1, r)"
    using Cons.prems(1) d by (cases "ignores_local_to_global v local_xy ip s") (auto simp: bind_res_def)
  note keeps = ignores_local_to_global_keeps [OF r]
  have info1: "gm_chip_info s1 = gm_chip_info s"
    using ignores_local_to_global_result(1) [OF r] by (elim exE conjE) simp
  have ok1: "machine_ok v s1" using keeps(2) Cons.prems(2) by simp
  obtain s2 where s2: "machine_ok v s2" "pruned s1 s2" "gm_chip_info s2 = gm_chip_info s1"
      "preprocess_ignore_cores v ds s2 = Inr s'"
      "\<And>g vp. r = Some g \<Longrightarrow> get_virtual_p g p s1 = Inr (Some vp) \<Longrightarrow> vp \<in> gm_ignore_cores_map s2 g"
  proof (cases r)
    case None
    then show ?thesis using that [of s1] ok1 Cons.prems(1) d r by (simp add: bind_res_def)
  next
    case (Some g)
    obtain vp where vp: "get_virtual_p g p s1 = Inr vp"
      using Cons.prems(1) d r Some by (cases "get_virtual_p g p s1") (auto simp: bind_res_def)
    show ?thesis
    proof (cases vp)
      case None
      show ?thesis
        by (rule that [of s1]) (use None ok1 Cons.prems(1) d r Some vp in \<open>auto simp: bind_res_def\<close>)
    next
      case vpS: (Some q)
      show ?thesis
        by (rule that [of "s1\<lparr>gm_ignore_cores_map := (gm_ignore_cores_map s1)(g := insert q (gm_ignore_cores_map s1 g))\<rparr>"])
          (use ok1 Cons.prems(1) d r Some vp vpS in \<open>simp_all add: bind_res_def ignore_core_keeps\<close>)
    qed
  qed
  from Cons.IH [OF s2(4,1)]
  have rest: "machine_ok v s'" "pruned s2 s'" "gm_chip_info s' = gm_chip_info s2"
     "\<forall>(local_xy, p, ip)\<in>set ds. \<forall>g vp. ignored_at v s' local_xy ip = Some g \<longrightarrow> info_of s' g \<noteq> None \<longrightarrow>
        get_virtual_p g p s' = Inr (Some vp) \<longrightarrow> vp \<in> gm_ignore_cores_map s' g" by auto
  have pr: "pruned s1 s'" using s2(2) rest(2) pruned_trans by blast
  have "vp \<in> gm_ignore_cores_map s' g"
    if h: "ignored_at v s' local_xy ip = Some g" "info_of s' g \<noteq> None" "get_virtual_p g p s' = Inr (Some vp)" for g vp
  proof -
    have "ignored_at v s1 local_xy ip = Some g" "info_of s1 g \<noteq> None"
      using h(1,2) ignored_at_later [OF pr keeps(3)] rest(3) s2(3) by auto
    then have "r = Some g" using ignores_local_to_global_result(2) [OF r] by simp
    moreover have e: "gm_physical_to_virtual_map s' = gm_physical_to_virtual_map s1"
      using pr by (simp only: pruned_def)
    have "get_virtual_p g p s1 = Inr (Some vp)" using h(3) unfolding get_virtual_p_def e .
    ultimately show ?thesis using s2(5) rest(2) unfolding pruned_def by blast
  qed
  then have "\<forall>(local_xy, p, ip)\<in>set (d # ds). \<forall>g vp. ignored_at v s' local_xy ip = Some g \<longrightarrow>
      info_of s' g \<noteq> None \<longrightarrow> get_virtual_p g p s' = Inr (Some vp) \<longrightarrow> vp \<in> gm_ignore_cores_map s' g"
    using rest(4) unfolding d by (simp del: split_paired_All)
  moreover have "gm_chip_info s' = gm_chip_info s" by (simp only: rest(3) s2(3) info1)
  ultimately show ?case using rest(1) pruned_trans [OF keeps(1) pr] by blast
qed simp


subsection \<open>The chips of the machine\<close>

text \<open>What a chip of the machine has of its summary.\<close>

definition made_from :: "machine_version \<Rightarrow> machine_state \<Rightarrow> chip_summary_info \<Rightarrow> made_chip \<Rightarrow> bool" where
  "made_from v s i c \<longleftrightarrow>
     mc_xy c = (csi_x i, csi_y i) \<and>
     set (mc_links c) = {(l, mv_xy_over_link v (mc_xy c) l) | l.
        l \<in> set (csi_working_links i) \<and> info_of s (mv_xy_over_link v (mc_xy c) l) \<noteq> None} \<and>
     gm_ignore_cores_map s (mc_xy c) \<subseteq> mc_down_cores c \<and>
     (\<forall>p. 1 \<le> p \<longrightarrow> int p < mc_n_processors c \<longrightarrow> int p \<notin> mc_down_cores c \<longrightarrow>
        p < length (csi_core_states i) \<and> csi_core_states i ! p = CPU_IDLE)"

lemma find_down_cores_result:
  assumes "find_down_cores states ps down = Inr d"
  shows "down \<subseteq> d \<and> (\<forall>p\<in>set ps. int p \<notin> d \<longrightarrow> p < length states \<and> states ! p = CPU_IDLE)"
  using assms
proof (induction ps arbitrary: down)
  case (Cons p ps)
  then show ?case by (fastforce split: if_splits)
qed simp

lemma make_chip_made:
  assumes "make_chip v s i = Inr c"
  shows "made_from v s i c"
proof -
  let ?k = "(csi_x i, csi_y i)" and ?n = "min (csi_n_cores i) (mv_max_cores_per_chip v)"
  obtain down where down: "find_down_cores (csi_core_states i) [1..<nat ?n] (gm_ignore_cores_map s ?k) = Inr down"
    and c: "mc_xy c = ?k" "mc_n_processors c = ?n" "mc_links c = make_router v s i" "mc_down_cores c = down"
    using assms by (auto simp: make_chip_def Let_def)
  have "set (make_router v s i) = {(l, mv_xy_over_link v ?k l) | l.
        l \<in> set (csi_working_links i) \<and> info_of s (mv_xy_over_link v ?k l) \<noteq> None}"
    unfolding make_router_def known_iff by auto
  with find_down_cores_result [OF down] c show ?thesis
    by (auto simp: made_from_def)
qed

lemma fill_chips_made:
  assumes "fill_chips v s infos = Inr cs"
  shows "(\<forall>c\<in>set cs. \<exists>i\<in>set infos. made_from v s i c) \<and>
     (sorted (map (\<lambda>i. (csi_x i, csi_y i)) infos) \<longrightarrow> sorted (map mc_xy cs)) \<and>
     (distinct (map (\<lambda>i. (csi_x i, csi_y i)) infos) \<longrightarrow> distinct (map mc_xy cs))"
  using assms
proof (induction infos arbitrary: cs)
  case (Cons i infos)
  let ?bad = "csi_ethernet_ip_address i \<noteq> None \<and>
      (csi_x i \<noteq> csi_nearest_ethernet_x i \<or> csi_y i \<noteq> csi_nearest_ethernet_y i)"
  show ?case
  proof (cases "?bad \<and> \<not> cfg_ignore_bad_ethernets v")
    case True
    then show ?thesis using Cons by fastforce
  next
    case False
    then have "(let i' = if ?bad then clear_ethernet_ip_address i else i
        in bind_res (make_chip v s i') (\<lambda>c. bind_res (fill_chips v s infos) (\<lambda>cs. Inr (c # cs)))) = Inr cs"
      using Cons.prems by (auto simp: Let_def)
    then obtain c cs' where c: "make_chip v s (if ?bad then clear_ethernet_ip_address i else i) = Inr c"
      and cs': "fill_chips v s infos = Inr cs'" and cs: "cs = c # cs'"
      by (auto simp: Let_def)
    have m: "made_from v s i c"
      using make_chip_made [OF c] by (auto simp: made_from_def clear_ethernet_ip_address_def split: if_splits)
    have xy: "mc_xy c = (csi_x i, csi_y i)" using m by (simp add: made_from_def)
    from Cons.IH [OF cs'] have "mc_xy ` set cs' \<subseteq> (\<lambda>i. (csi_x i, csi_y i)) ` set infos"
      by (auto simp: made_from_def)
    with Cons.IH [OF cs'] m xy show ?thesis by (auto simp: cs)
  qed
qed simp


lemma fill_machine_made:
  assumes "fill_machine v s = Inr cs" "machine_placed v s"
  shows "\<forall>c\<in>set cs. \<exists>i. info_of s (mc_xy c) = Some i \<and> made_from v s i c" "distinct (map mc_xy cs)"
    "sorted (map mc_xy cs)"
proof -
  let ?key = "\<lambda>i. (csi_x i, csi_y i)"
  let ?infos = "sort_key ?key (map snd (gm_chip_info s))"
  have keys: "map fst (gm_chip_info s) = map (\<lambda>i. (csi_x i, csi_y i)) (map snd (gm_chip_info s))"
    using assms(2) by (auto simp: machine_placed_def list_all_iff placed_def)
  have d: "distinct (map fst (gm_chip_info s))" using assms(2) by (simp add: machine_placed_def)
  have "mset (map (\<lambda>i. (csi_x i, csi_y i)) ?infos) = mset (map fst (gm_chip_info s))"
    unfolding keys by (simp only: mset_map mset_sort)
  then have "distinct (map (\<lambda>i. (csi_x i, csi_y i)) ?infos)" using d by (metis mset_eq_imp_distinct_iff)
  with fill_chips_made [of v s ?infos cs] assms(1)
  have cs: "\<forall>c\<in>set cs. \<exists>i\<in>set ?infos. made_from v s i c" "distinct (map mc_xy cs)" "sorted (map mc_xy cs)"
    by (simp_all add: fill_machine_def)
  show "sorted (map mc_xy cs)" by (rule cs(3))
  show "distinct (map mc_xy cs)" by (rule cs(2))
  show "\<forall>c\<in>set cs. \<exists>i. info_of s (mc_xy c) = Some i \<and> made_from v s i c"
  proof
    fix c assume "c \<in> set cs"
    then obtain i where i: "i \<in> set ?infos" "made_from v s i c" using cs(1) by blast
    then obtain k where k: "(k, i) \<in> set (gm_chip_info s)" by auto
    then have "info_of s k = Some i" using d by simp
    moreover have "k = mc_xy c"
      using k i(2) assms(2) by (auto simp: machine_placed_def list_all_iff placed_def made_from_def)
    ultimately show "\<exists>i. info_of s (mc_xy c) = Some i \<and> made_from v s i c" using i(2) by blast
  qed
qed

lemma ignore_and_fill_passes:
  assumes "ignore_and_fill v s = Inr (s', chips)" "machine_ok v s"
  shows "machine_ok v s'" "pruned s s'" "fill_machine v s' = Inr chips"
    "\<forall>(local_xy, ip)\<in>set (cfg_down_chips v). \<forall>g. ignored_at v s' local_xy ip = Some g \<longrightarrow> info_of s' g = None"
    "\<forall>(local_xy, l, ip)\<in>set (cfg_down_links v). \<forall>g. ignored_at v s' local_xy ip = Some g \<longrightarrow> l \<notin> links_of s' g"
    "\<forall>(local_xy, p, ip)\<in>set (cfg_down_cores v). \<forall>g vp. ignored_at v s' local_xy ip = Some g \<longrightarrow>
       info_of s' g \<noteq> None \<longrightarrow> get_virtual_p g p s' = Inr (Some vp) \<longrightarrow> vp \<in> gm_ignore_cores_map s' g"
proof -
  obtain s1 s2 where s1: "preprocess_ignore_chips v (cfg_down_chips v) s = Inr s1"
    and s2: "process_ignore_links v (cfg_down_links v) s1 = Inr s2"
    and s3: "preprocess_ignore_cores v (cfg_down_cores v) s2 = Inr s'" and fill: "fill_machine v s' = Inr chips"
    using assms(1) by (auto simp: ignore_and_fill_def)
  note one = preprocess_ignore_chips_done [OF s1 assms(2)]
  then have ok1: "machine_ok v s1" by blast
  note two = process_ignore_links_done [OF s2 ok1]
  then have ok2: "machine_ok v s2" by blast
  note three = preprocess_ignore_cores_done [OF s3 ok2]
  have p23: "pruned s2 s'" and p12: "pruned s1 s2" and p01: "pruned s s1" using one two three by blast+
  have p13: "pruned s1 s'" by (rule pruned_trans [OF p12 p23])
  show "machine_ok v s'" using three by blast
  show "pruned s s'" by (rule pruned_trans [OF p01 p13])
  show "fill_machine v s' = Inr chips" by (rule fill)
  show "\<forall>(local_xy, ip)\<in>set (cfg_down_chips v). \<forall>g. ignored_at v s' local_xy ip = Some g \<longrightarrow> info_of s' g = None"
  proof
    fix e assume e: "e \<in> set (cfg_down_chips v)"
    obtain l ip where d: "e = (l, ip)" by (cases e)
    from one have "\<forall>(local_xy, ip)\<in>set (cfg_down_chips v). (ip \<noteq> None \<longrightarrow> gm_ethernets s1 \<noteq> None) \<and>
        (\<forall>g. ignored_at v s1 local_xy ip = Some g \<longrightarrow> info_of s1 g = None)" by blast
    from bspec [OF this e] have h: "ip \<noteq> None \<Longrightarrow> gm_ethernets s1 \<noteq> None"
      "\<And>g. ignored_at v s1 l ip = Some g \<Longrightarrow> info_of s1 g = None" unfolding d prod.case by blast+
    have "info_of s' g = None" if "ignored_at v s' l ip = Some g" for g
      by (rule pruned_gone [OF p13 h(2)]) (use that ignored_at_later [OF p13 h(1)] in simp)
    then show "case e of (local_xy, ip) \<Rightarrow> \<forall>g. ignored_at v s' local_xy ip = Some g \<longrightarrow> info_of s' g = None"
      unfolding d prod.case by blast
  qed
  show "\<forall>(local_xy, l, ip)\<in>set (cfg_down_links v). \<forall>g. ignored_at v s' local_xy ip = Some g \<longrightarrow> l \<notin> links_of s' g"
  proof
    fix e assume e: "e \<in> set (cfg_down_links v)"
    obtain xy l ip where d: "e = (xy, l, ip)" by (cases e)
    from two have "\<forall>(local_xy, l, ip)\<in>set (cfg_down_links v). (ip \<noteq> None \<longrightarrow> gm_ethernets s2 \<noteq> None) \<and>
        (\<forall>g. ignored_at v s2 local_xy ip = Some g \<longrightarrow> l \<notin> links_of s2 g)" by blast
    from bspec [OF this e] have h: "ip \<noteq> None \<Longrightarrow> gm_ethernets s2 \<noteq> None"
      "\<And>g. ignored_at v s2 xy ip = Some g \<Longrightarrow> l \<notin> links_of s2 g" unfolding d prod.case by blast+
    have "l \<notin> links_of s' g" if "ignored_at v s' xy ip = Some g" for g
      using h(2) [of g] links_of_pruned [OF p23, of g] that ignored_at_later [OF p23 h(1)] by auto
    then show "case e of (local_xy, l, ip) \<Rightarrow> \<forall>g. ignored_at v s' local_xy ip = Some g \<longrightarrow> l \<notin> links_of s' g"
      unfolding d prod.case by blast
  qed
  show "\<forall>(local_xy, p, ip)\<in>set (cfg_down_cores v). \<forall>g vp. ignored_at v s' local_xy ip = Some g \<longrightarrow>
       info_of s' g \<noteq> None \<longrightarrow> get_virtual_p g p s' = Inr (Some vp) \<longrightarrow> vp \<in> gm_ignore_cores_map s' g"
    using three by blast
qed

subsection \<open>Properties\<close>

lemma chips_are_made:
  assumes "ignore_and_fill v s = Inr (s', chips)" "machine_ok v s"
  shows "\<forall>c\<in>set chips. \<exists>i. info_of s' (mc_xy c) = Some i \<and> made_from v s' i c"
proof -
  note passes = ignore_and_fill_passes [OF assms]
  have "machine_placed v s'" using passes(1) by (simp add: machine_ok_def)
  from fill_machine_made(1) [OF passes(3) this] show ?thesis .
qed

lemma ignored_chips_gone:
  assumes "ignore_and_fill v s = Inr (s', chips)" "machine_ok v s"
  shows "\<forall>(local_xy, ip)\<in>set (cfg_down_chips v). \<forall>c\<in>set chips. ignored_at v s' local_xy ip \<noteq> Some (mc_xy c)"
proof -
  note passes = ignore_and_fill_passes [OF assms] and made = chips_are_made [OF assms]
  show ?thesis
  proof (intro ballI)
    fix e assume e: "e \<in> set (cfg_down_chips v)"
    obtain l ip where d: "e = (l, ip)" by (cases e)
    from bspec [OF passes(4) e] have "\<And>g. ignored_at v s' l ip = Some g \<Longrightarrow> info_of s' g = None"
      unfolding d prod.case by blast
    moreover have "info_of s' (mc_xy c) \<noteq> None" if "c \<in> set chips" for c
      using bspec [OF made that] by (elim exE conjE) simp
    ultimately show "case e of (local_xy, ip) \<Rightarrow> \<forall>c\<in>set chips. ignored_at v s' local_xy ip \<noteq> Some (mc_xy c)"
      unfolding d prod.case by blast
  qed
qed

lemma ignored_links_gone:
  assumes "ignore_and_fill v s = Inr (s', chips)" "machine_ok v s"
  shows "\<forall>(local_xy, l, ip)\<in>set (cfg_down_links v). \<forall>c\<in>set chips.
       ignored_at v s' local_xy ip = Some (mc_xy c) \<longrightarrow> l \<notin> fst ` set (mc_links c)"
proof -
  note passes = ignore_and_fill_passes [OF assms] and made = chips_are_made [OF assms]
  have links: "fst ` set (mc_links c) \<subseteq> links_of s' (mc_xy c)" if c: "c \<in> set chips" for c
  proof -
    obtain i where i: "info_of s' (mc_xy c) = Some i" "made_from v s' i c"
      using bspec [OF made c] by (elim exE conjE) (rule that)
    have "links_of s' (mc_xy c) = set (csi_working_links i)" by (simp add: links_of_def i(1))
    with i(2) show ?thesis unfolding made_from_def by auto
  qed
  show ?thesis
  proof (intro ballI)
    fix e assume e: "e \<in> set (cfg_down_links v)"
    obtain xy l ip where d: "e = (xy, l, ip)" by (cases e)
    from bspec [OF passes(5) e] have "\<And>g. ignored_at v s' xy ip = Some g \<Longrightarrow> l \<notin> links_of s' g"
      unfolding d prod.case by blast
    with links show "case e of (local_xy, l, ip) \<Rightarrow> \<forall>c\<in>set chips.
       ignored_at v s' local_xy ip = Some (mc_xy c) \<longrightarrow> l \<notin> fst ` set (mc_links c)"
      unfolding d prod.case by blast
  qed
qed

lemma ignored_cores_down:
  assumes "ignore_and_fill v s = Inr (s', chips)" "machine_ok v s"
  shows "\<forall>(local_xy, p, ip)\<in>set (cfg_down_cores v). \<forall>c\<in>set chips. \<forall>vp.
       ignored_at v s' local_xy ip = Some (mc_xy c) \<and> get_virtual_p (mc_xy c) p s' = Inr (Some vp) \<longrightarrow>
       vp \<in> mc_down_cores c"
proof -
  note passes = ignore_and_fill_passes [OF assms] and made = chips_are_made [OF assms]
  have cores: "gm_ignore_cores_map s' (mc_xy c) \<subseteq> mc_down_cores c" "info_of s' (mc_xy c) \<noteq> None"
    if "c \<in> set chips" for c
    using bspec [OF made that] unfolding made_from_def by (elim exE conjE; simp)+
  show ?thesis
  proof (intro ballI)
    fix e assume e: "e \<in> set (cfg_down_cores v)"
    obtain xy p ip where d: "e = (xy, p, ip)" by (cases e)
    from bspec [OF passes(6) e] have "\<And>g vp. ignored_at v s' xy ip = Some g \<Longrightarrow> info_of s' g \<noteq> None \<Longrightarrow>
        get_virtual_p g p s' = Inr (Some vp) \<Longrightarrow> vp \<in> gm_ignore_cores_map s' g"
      unfolding d prod.case by blast
    with cores show "case e of (local_xy, p, ip) \<Rightarrow> \<forall>c\<in>set chips. \<forall>vp.
       ignored_at v s' local_xy ip = Some (mc_xy c) \<and> get_virtual_p (mc_xy c) p s' = Inr (Some vp) \<longrightarrow>
       vp \<in> mc_down_cores c"
      unfolding d prod.case by blast
  qed
qed

lemma other_cores_idle:
  assumes "ignore_and_fill v s = Inr (s', chips)" "machine_ok v s"
  shows "\<forall>c\<in>set chips. \<exists>i. info_of s (mc_xy c) = Some i \<and>
       (\<forall>p. 1 \<le> p \<and> int p < mc_n_processors c \<and> int p \<notin> mc_down_cores c \<longrightarrow>
          p < length (csi_core_states i) \<and> csi_core_states i ! p = CPU_IDLE)"
proof -
  note passes = ignore_and_fill_passes [OF assms] and made = chips_are_made [OF assms]
  show ?thesis
  proof
    fix c assume "c \<in> set chips"
    then obtain i' where i': "info_of s' (mc_xy c) = Some i'" "made_from v s' i' c" using made by blast
    obtain i where i: "info_of s (mc_xy c) = Some i" "i' = i\<lparr>csi_working_links := csi_working_links i'\<rparr>"
      using pruned_info [OF passes(2) i'(1)] by blast
    have "csi_core_states i' = csi_core_states i" by (subst i(2)) simp
    with i(1) i'(2) show "\<exists>i. info_of s (mc_xy c) = Some i \<and>
       (\<forall>p. 1 \<le> p \<and> int p < mc_n_processors c \<and> int p \<notin> mc_down_cores c \<longrightarrow>
          p < length (csi_core_states i) \<and> csi_core_states i ! p = CPU_IDLE)"
      by (auto simp: made_from_def)
  qed
qed

text \<open>
  C31: The configured ignores are obeyed. In a machine that is made of what the chips reported, no chip has
  the coordinates of an ignored one, no chip has a link that is ignored there, and every ignored core is among
  the down cores of its chip, where an entry with an address counts from the chip with that address and a
  physical core counts as its virtual one. A core that is not down was idle in the report of its chip.
\<close>
theorem machine_ignores_obeyed:
  assumes "ignore_and_fill v s = Inr (s', chips)" "machine_ok v s"
  shows "(\<forall>(local_xy, ip)\<in>set (cfg_down_chips v). \<forall>c\<in>set chips. ignored_at v s' local_xy ip \<noteq> Some (mc_xy c)) \<and>
    (\<forall>(local_xy, l, ip)\<in>set (cfg_down_links v). \<forall>c\<in>set chips.
       ignored_at v s' local_xy ip = Some (mc_xy c) \<longrightarrow> l \<notin> fst ` set (mc_links c)) \<and>
    (\<forall>(local_xy, p, ip)\<in>set (cfg_down_cores v). \<forall>c\<in>set chips. \<forall>vp.
       ignored_at v s' local_xy ip = Some (mc_xy c) \<and> get_virtual_p (mc_xy c) p s' = Inr (Some vp) \<longrightarrow>
       vp \<in> mc_down_cores c) \<and>
    (\<forall>c\<in>set chips. \<exists>i. info_of s (mc_xy c) = Some i \<and>
       (\<forall>p. 1 \<le> p \<and> int p < mc_n_processors c \<and> int p \<notin> mc_down_cores c \<longrightarrow>
          p < length (csi_core_states i) \<and> csi_core_states i ! p = CPU_IDLE))"
  by (intro conjI ignored_chips_gone [OF assms] ignored_links_gone [OF assms] ignored_cores_down [OF assms]
      other_cores_idle [OF assms])

text \<open>
  C30: The links of the machine that is made lead both ways. If the chips reported symmetric links (the chip
  over a link has the link that leads back), then after all chips, links and cores to ignore have been taken
  out the machine has its chips in the order of their coordinates and none twice, every link of a chip is one that it reported and leads where the geometry
  says, and if the chip over it is in the machine then that has the link back.
\<close>
theorem machine_links_both_ways:
  assumes "ignore_and_fill v s = Inr (s', chips)" "machine_ok v s"
  shows "distinct (map mc_xy chips) \<and> sorted (map mc_xy chips) \<and>
    (\<forall>c\<in>set chips. \<forall>(l, k)\<in>set (mc_links c).
       k = mv_xy_over_link v (mc_xy c) l \<and>
       (\<exists>i. info_of s (mc_xy c) = Some i \<and> l \<in> set (csi_working_links i)) \<and>
       (\<forall>d\<in>set chips. mc_xy d = k \<longrightarrow> ((l + 3) mod 6, mc_xy c) \<in> set (mc_links d)))"
proof (intro conjI ballI)
  note passes = ignore_and_fill_passes [OF assms]
  have placed: "machine_placed v s'" and sym: "links_symmetric v s'" using passes(1) by (simp_all add: machine_ok_def)
  note made = fill_machine_made [OF passes(3) placed]
  show "distinct (map mc_xy chips)" "sorted (map mc_xy chips)" by (rule made(2), rule made(3))
  fix c lk assume c: "c \<in> set chips" and lk: "lk \<in> set (mc_links c)"
  obtain l k where eq: "lk = (l, k)" by (cases lk)
  obtain i where i: "info_of s' (mc_xy c) = Some i" "made_from v s' i c" using made(1) c by blast
  have l: "l \<in> set (csi_working_links i)" "k = mv_xy_over_link v (mc_xy c) l"
    using lk i(2) unfolding eq made_from_def by auto
  have r: "0 \<le> l" "l < 6" "mv_xy_over_link v k ((l + 3) mod 6) = mc_xy c"
    using machine_placedD [OF placed i(1)] l unfolding placed_def by auto
  have "((l + 3) mod 6, mc_xy c) \<in> set (mc_links d)" if d: "d \<in> set chips" "mc_xy d = k" for d
  proof -
    obtain j where j: "info_of s' k = Some j" "made_from v s' j d" using made(1) d by blast
    have "l \<in> links_of s' (mc_xy c)" by (simp add: links_of_def i(1) l(1))
    then have "(l + 3) mod 6 \<in> links_of s' k"
      using sym domI [of "info_of s'" k j, OF j(1)] l(2) links_symmetric_links_of [OF placed] by blast
    then have "(l + 3) mod 6 \<in> set (csi_working_links j)" by (simp add: links_of_def j(1))
    then show ?thesis using j(2) r(3) i(1) d(2) unfolding made_from_def by auto
  qed
  moreover obtain i0 where "info_of s (mc_xy c) = Some i0" "set (csi_working_links i) \<subseteq> set (csi_working_links i0)"
    using pruned_info [OF passes(2) i(1)] by blast
  ultimately show "case lk of (l, k) \<Rightarrow> k = mv_xy_over_link v (mc_xy c) l \<and>
       (\<exists>i. info_of s (mc_xy c) = Some i \<and> l \<in> set (csi_working_links i)) \<and>
       (\<forall>d\<in>set chips. mc_xy d = k \<longrightarrow> ((l + 3) mod 6, mc_xy c) \<in> set (mc_links d))"
    using l by (auto simp: eq)
qed


subsection \<open>Witnesses\<close>

text \<open>
  Three chips on a plane: (0, 0) with an address and links to the two others, of which (0, 1) is ignored; so
  is the link between (0, 0) and (1, 0), named by the address, or nothing but the chip; and core 2 of (0, 0).
\<close>

fun plane_link :: "xy \<Rightarrow> int \<Rightarrow> xy" where
  "plane_link (x, y) l =
     (if l = 0 then (x + 1, y) else if l = 1 then (x + 1, y + 1) else if l = 2 then (x, y + 1)
      else if l = 3 then (x - 1, y) else if l = 4 then (x - 1, y - 1) else (x, y - 1))"

definition plane_machine :: "(xy \<times> int \<times> ip_address option) list \<Rightarrow> machine_version" where
  "plane_machine down_links = \<lparr>mv_max_cores_per_chip = 18, mv_xy_over_link = plane_link,
     mv_global_xy = (\<lambda>(x, y) (ex, ey). (x + ex, y + ey)), cfg_down_chips = [((0, 1), None)],
     cfg_down_links = down_links, cfg_down_cores = [((0, 0), 2, None)],
     cfg_ignore_bad_ethernets = False, cfg_max_sdram = Some 1000\<rparr>"

definition plane_chip :: "int \<Rightarrow> int \<Rightarrow> int list \<Rightarrow> ip_address option \<Rightarrow> xy \<times> chip_summary_info" where
  "plane_chip x y links ip = ((x, y), \<lparr>csi_x = x, csi_y = y, csi_n_cores = 4,
     csi_core_states = [CPU_RUNNING, CPU_IDLE, CPU_IDLE, CPU_RUNNING], csi_working_links = links,
     csi_is_ethernet_available = ip \<noteq> None, csi_n_free_multicast_routing_entries = 1023,
     csi_largest_free_sdram_block = 4000, csi_largest_free_sram_block = 0, csi_nearest_ethernet_x = 0,
     csi_nearest_ethernet_y = 0, csi_ethernet_ip_address = ip, csi_parent_link = None\<rparr>)"

definition plane_state :: machine_state where
  "plane_state = machine_state_init\<lparr>gm_chip_info :=
     [plane_chip 0 0 [0, 2] (Some (10, 0, 0, 1)), plane_chip 0 1 [5] None, plane_chip 1 0 [3] None]\<rparr>"

theorem machine_ignores_obeyed_witness:
  "case ignore_and_fill (plane_machine [((0, 0), 0, Some (10, 0, 0, 1))]) plane_state of
     Inl e \<Rightarrow> False
   | Inr (s', chips) \<Rightarrow> map mc_xy chips = [(0, 0), (1, 0)] \<and>
       (\<forall>c\<in>set chips. mc_xy c = (0, 0) \<longrightarrow> 0 \<notin> fst ` set (mc_links c) \<and> 2 \<in> mc_down_cores c)"
proof -
  let ?v = "plane_machine [((0, 0), 0, Some (10, 0, 0, 1))]"
  have "case ignore_and_fill ?v plane_state of Inl e \<Rightarrow> False | Inr (s', chips) \<Rightarrow> map mc_xy chips = [(0, 0), (1, 0)] \<and>
      ignored_at ?v s' (0, 0) (Some (10, 0, 0, 1)) = Some (0, 0)" by code_simp
  then obtain s' chips where run: "ignore_and_fill ?v plane_state = Inr (s', chips)"
    and xy: "map mc_xy chips = [(0, 0), (1, 0)]" and at: "ignored_at ?v s' (0, 0) (Some (10, 0, 0, 1)) = Some (0, 0)"
    by (auto split: sum.splits)
  have ok: "machine_ok ?v plane_state" by code_simp
  have down: "cfg_down_links ?v = [((0, 0), 0, Some (10, 0, 0, 1))]" "cfg_down_cores ?v = [((0, 0), 2, None)]"
    by (simp_all add: plane_machine_def)
  have direct: "ignored_at ?v s' (0, 0) None = Some (0, 0)" by (simp add: ignored_at_def)
  from machine_ignores_obeyed [OF run ok] have "\<forall>c\<in>set chips. mc_xy c = (0, 0) \<longrightarrow> 0 \<notin> fst ` set (mc_links c)"
    "\<forall>c\<in>set chips. \<forall>vp. mc_xy c = (0, 0) \<and> get_virtual_p (mc_xy c) 2 s' = Inr (Some vp) \<longrightarrow> vp \<in> mc_down_cores c"
    by (simp_all add: down at direct eq_commute [of "(0, 0)"]) blast
  then show ?thesis using run xy by (simp add: get_virtual_p_def)
qed

theorem machine_links_both_ways_witness:
  "case ignore_and_fill (plane_machine []) plane_state of
     Inl e \<Rightarrow> False
   | Inr (s', chips) \<Rightarrow> map mc_xy chips = [(0, 0), (1, 0)] \<and> (0, (1, 0)) \<in> set (mc_links (chips ! 0)) \<and>
       (3, (0, 0)) \<in> set (mc_links (chips ! 1))"
proof -
  let ?v = "plane_machine []"
  have "case ignore_and_fill ?v plane_state of Inl e \<Rightarrow> False | Inr (s', chips) \<Rightarrow> map mc_xy chips = [(0, 0), (1, 0)] \<and>
      (0, (1, 0)) \<in> set (mc_links (chips ! 0))" by code_simp
  then obtain s' chips where run: "ignore_and_fill ?v plane_state = Inr (s', chips)"
    and xy: "map mc_xy chips = [(0, 0), (1, 0)]" and l: "(0, (1, 0)) \<in> set (mc_links (chips ! 0))"
    by (auto split: sum.splits)
  have ok: "machine_ok ?v plane_state" by code_simp
  obtain c d where chips: "chips = [c, d]" and c: "mc_xy c = (0, 0)" and d: "mc_xy d = (1, 0)"
    using xy by (auto simp: map_eq_Cons_conv)
  note both = bspec [OF bspec [OF machine_links_both_ways [OF run ok, THEN conjunct2, THEN conjunct2], of c], of "(0, (1, 0))"]
  have "((0 + 3) mod 6, mc_xy c) \<in> set (mc_links d)"
    using both l by (simp add: chips d)
  then show ?thesis using run xy l chips c by simp
qed

end
