(* ===== verification/RouteReadProps.thy ===== *)
theory RouteReadProps
  imports RouteProcess MemoryProps ProcessProps
begin

text \<open>
  Phases whose requests have a callback each, and what \<open>GetMultiCastRoutesProcess\<close> finds: the entries of the
  router's table, whatever was lost, repeated or exchanged.
\<close>

subsection \<open>The reads\<close>

lemma get_routes_loop_send_each:
  "get_routes_loop rd handle coords base_address n offset =
     send_each rd (map (\<lambda>i. (read_memory coords (base_address + int (offset + 16 * i) * 16) UDP_MESSAGE_MAX_SIZE,
        handle (offset + 16 * i))) [0..<n])"
proof (induction n arbitrary: offset)
  case (Suc n)
  have "[0..<Suc n] = 0 # map Suc [0..<n]" by (simp add: upt_conv_Cons map_Suc_upt del: upt_Suc)
  then show ?case
    using Suc.IH [of "offset + 16"]
    by (intro ext) (auto simp: send_read_def and_then_def ENTRIES_PER_READ_def comp_def algebra_simps simp del: upt_Suc split: sum.splits)
qed (intro ext, simp)

subsection \<open>Rows\<close>

text \<open>What row \<open>j\<close> of the memory \<open>mem\<close> means: unused or of another application, or an entry.\<close>

definition route_row ::
  "(int \<Rightarrow> int list \<times> int list) \<Rightarrow> (int \<Rightarrow> int \<Rightarrow> int list \<Rightarrow> int list \<Rightarrow> bool \<Rightarrow> 'e res) \<Rightarrow> int option \<Rightarrow>
     bytes \<Rightarrow> nat \<Rightarrow> 'e option res" where
  "route_row route_ids make_entry wanted mem j =
     bind_res (struct_unpack_from Little ROUTE_ENTRY_PATTERN mem (16 * j)) (\<lambda>vs. case vs of
       [app_id, route, key, rmask] \<Rightarrow>
         if route \<ge> 0xFF000000 \<or> (wanted \<noteq> None \<and> wanted \<noteq> Some app_id) then Inr None
         else bind_res (make_entry key rmask (fst (route_ids route)) (snd (route_ids route)) False)
                (\<lambda>e. Inr (Some e))
     | _ \<Rightarrow> Inl PyValueError)"

definition entries_right :: "nat \<Rightarrow> (nat \<Rightarrow> 'e option res) \<Rightarrow> 'e option list \<Rightarrow> bool" where
  "entries_right n row es \<longleftrightarrow> length es = 16 * n \<and> (\<forall>j < 16 * n. es ! j = None \<or> row j = Inr (es ! j))"

lemma route_response_block:
  assumes "route_response_entries route_ids make_entry wanted (16 * k) data base ns es = (es', e)"
    and "\<And>r. r \<in> set ns \<Longrightarrow> struct_unpack_from Little ROUTE_ENTRY_PATTERN data (base + r * 16) =
           struct_unpack_from Little ROUTE_ENTRY_PATTERN mem (16 * (16 * k + r))"
    and "\<forall>r\<in>set ns. 16 * k + r < 16 * n"
    and "entries_right n (route_row route_ids make_entry wanted mem) es"
  shows "entries_right n (route_row route_ids make_entry wanted mem) es' \<and>
     (\<forall>j < 16 * n. route_row route_ids make_entry wanted mem j = Inr (es ! j) \<longrightarrow>
        route_row route_ids make_entry wanted mem j = Inr (es' ! j)) \<and>
     (e = None \<longrightarrow> (\<forall>r\<in>set ns. route_row route_ids make_entry wanted mem (16 * k + r) = Inr (es' ! (16 * k + r))))"
  using assms
proof (induction ns arbitrary: es)
  case Nil
  then show ?case by simp
next
  case (Cons r ns)
  let ?row = "route_row route_ids make_entry wanted mem"
  let ?j = "16 * k + r"
  have size: "calcsize ROUTE_ENTRY_PATTERN = 16" by (simp add: ROUTE_ENTRY_PATTERN_def)
  have j: "?j < 16 * n" "?j < length es" using Cons.prems(3,4) by (auto simp: entries_right_def)
  have unpack: "struct_unpack_from Little ROUTE_ENTRY_PATTERN data (base + r * 16) =
      struct_unpack_from Little ROUTE_ENTRY_PATTERN mem (16 * ?j)" using Cons.prems(2) by simp
  define new where "new = (case ?row ?j of Inr (Some x) \<Rightarrow> es[?j := Some x] | _ \<Rightarrow> es)"
  have step: "bind_res (struct_unpack_from Little ROUTE_ENTRY_PATTERN data (base + r * calcsize ROUTE_ENTRY_PATTERN))
      (\<lambda>vs. case vs of [app_id, route, key, rmask] \<Rightarrow>
           add_routing_entry route_ids make_entry wanted r (16 * k) app_id route key rmask es
       | _ \<Rightarrow> Inl PyValueError) = (case ?row ?j of Inl e \<Rightarrow> Inl e | Inr _ \<Rightarrow> Inr new)"
    using j unfolding new_def route_row_def add_routing_entry_def size unpack
    by (auto simp: bind_res_def add.commute case_prod_beta split: sum.splits list.splits)
  show ?case
  proof (cases "?row ?j")
    case (Inl x)
    then have "es' = es" "e = Some x" using Cons.prems(1) step by simp_all
    with Cons.prems(4) show ?thesis by simp
  next
    case (Inr x)
    have old: "length es = 16 * n" "es ! i = None \<or> ?row i = Inr (es ! i)" if "i < 16 * n" for i
      using Cons.prems(4) that j by (auto simp: entries_right_def)
    have x: "new = (case x of None \<Rightarrow> es | Some y \<Rightarrow> es[?j := Some y])" by (simp add: new_def Inr)
    have at: "?row ?j = Inr (new ! ?j)"
      using old(2) [OF j(1)] j(2) Inr by (cases x) (auto simp: x)
    have other: "new ! i = es ! i" if "i \<noteq> ?j" for i using that by (cases x) (simp_all add: x)
    have len: "length new = 16 * n" using old(1) [OF j(1)] by (cases x) (simp_all add: x)
    have new: "entries_right n ?row new" "\<And>i. i < 16 * n \<Longrightarrow> ?row i = Inr (es ! i) \<Longrightarrow> ?row i = Inr (new ! i)"
      using len old at other unfolding entries_right_def by metis+
    have rest: "route_response_entries route_ids make_entry wanted (16 * k) data base ns new = (es', e)"
      using Cons.prems(1) step Inr by simp
    have p2: "struct_unpack_from Little ROUTE_ENTRY_PATTERN data (base + r' * 16) =
        struct_unpack_from Little ROUTE_ENTRY_PATTERN mem (16 * (16 * k + r'))" if "r' \<in> set ns" for r'
      by (rule Cons.prems(2)) (use that in simp)
    have p3: "\<forall>r\<in>set ns. 16 * k + r < 16 * n" using Cons.prems(3) by simp
    note ih = Cons.IH [OF rest p2 p3 new(1)]
    show ?thesis
    proof (intro conjI)
      show "entries_right n ?row es'" using ih by blast
      show "\<forall>j<16 * n. ?row j = Inr (es ! j) \<longrightarrow> ?row j = Inr (es' ! j)" using ih new(2) by blast
      have "?row ?j = Inr (es' ! ?j)" using ih at j(1) by blast
      then show "e = None \<longrightarrow> (\<forall>r\<in>set (r # ns). ?row (16 * k + r) = Inr (es' ! (16 * k + r)))"
        using ih by auto
    qed
  qed
qed


subsection \<open>The invariant of the process\<close>

lemma struct_unpack_from_cong:
  assumes "off + calcsize fs \<le> length data" "off' + calcsize fs \<le> length data'"
    and "take (calcsize fs) (drop off data) = take (calcsize fs) (drop off' data')"
  shows "struct_unpack_from e fs data off = struct_unpack_from e fs data' off'"
  using assms by (simp add: struct_unpack_from_def unpack_from_def)

text \<open>A slice of positive length lies within the data, whatever its bounds.\<close>

lemma slice_whole:
  assumes "slice off (off + len) data = bs" "length bs = n" "0 < n"
  shows "off + n \<le> length data \<and> take n (drop off data) = bs"
proof -
  have take: "take len (drop off data) = bs" using assms(1) by (simp add: slice_def drop_take)
  then have "min (length data - off) len = n" using assms(2) by (metis length_take length_drop min.commute)
  then have n: "n \<le> len" "off + n \<le> length data" using assms(3) by (auto simp: min_def split: if_splits)
  have "take n (take len (drop off data)) = take n (drop off data)" using n(1) by (simp add: min_absorb1)
  then show ?thesis using take assms(2) n(2) by simp
qed

text \<open>A row in a right response is the row in the memory.\<close>

lemma right_row:
  assumes "length mem = 256 * n" "read_right mem sq0 s (RspData data base len)"
    and "chunk_of sq0 s = k" "k < n" "r < 16"
  shows "struct_unpack_from Little ROUTE_ENTRY_PATTERN data (base + r * 16) =
    struct_unpack_from Little ROUTE_ENTRY_PATTERN mem (16 * (16 * k + r))"
proof (rule struct_unpack_from_cong)
  have size: "calcsize ROUTE_ENTRY_PATTERN = 16" by (simp add: ROUTE_ENTRY_PATTERN_def)
  have mem: "length mem = 256 * n" and k: "k < n" and r: "r < 16" using assms by simp_all
  have "n_chunks mem = n" by (simp add: n_chunks_def mem)
  then have pay: "slice base (base + len) data = chunk k mem"
    using assms(2,3) k by (simp add: read_right_def)
  have l: "length (chunk k mem) = 256" using k by (simp add: chunk_def mem)
  have len: "base + 256 \<le> length data" and c: "take 256 (drop base data) = chunk k mem"
    using slice_whole [OF pay l] by simp_all
  show "base + r * 16 + calcsize ROUTE_ENTRY_PATTERN \<le> length data"
    "16 * (16 * k + r) + calcsize ROUTE_ENTRY_PATTERN \<le> length mem"
    using len r k by (simp_all add: size mem)
  have "take 16 (drop (base + r * 16) data) = take 16 (drop (r * 16) (take 256 (drop base data)))"
    using r by (simp add: drop_take add.commute)
  also have "\<dots> = take 16 (drop (r * 16) (chunk k mem))" by (simp only: c)
  also have "\<dots> = take 16 (drop (16 * (16 * k + r)) mem)"
    using r by (simp add: chunk_def drop_take algebra_simps)
  finally show "take (calcsize ROUTE_ENTRY_PATTERN) (drop (base + r * 16) data) =
      take (calcsize ROUTE_ENTRY_PATTERN) (drop (16 * (16 * k + r)) mem)" by (simp only: size)
qed

definition routes_inv :: "nat \<Rightarrow> (nat \<Rightarrow> 'e option res) \<Rightarrow> int \<Rightarrow> int set \<Rightarrow> 'e option list client \<Rightarrow> bool" where
  "routes_inv n row sq0 S c \<longleftrightarrow> n \<le> 65536 \<and> S \<subseteq> numbers sq0 0 n \<and> entries_right n row (cl_user c) \<and>
     (cl_errors c \<noteq> [] \<or>
      (\<forall>k < n. seq_of sq0 k \<in> S \<or>
         (\<forall>r < 16. row (16 * k + r) = Inr (cl_user c ! (16 * k + r)))))"

definition routes_right :: "nat \<Rightarrow> bytes \<Rightarrow> int \<Rightarrow> int \<Rightarrow> response \<Rightarrow> bool" where
  "routes_right n mem sq0 s r \<longleftrightarrow> n \<le> 65536 \<and> length mem = 256 * n \<and> read_right mem sq0 s r"

definition routes_cb ::
  "(int \<Rightarrow> int list \<times> int list) \<Rightarrow> (int \<Rightarrow> int \<Rightarrow> int list \<Rightarrow> int list \<Rightarrow> bool \<Rightarrow> 'e res) \<Rightarrow> int option \<Rightarrow>
     int \<Rightarrow> int \<Rightarrow> 'e option list client callback option" where
  "routes_cb route_ids make_entry wanted sq0 s =
     Some (routes_handle_response route_ids make_entry wanted (16 * chunk_of sq0 s))"

lemma number_chunk:
  assumes "s \<in> numbers sq0 0 n" "n \<le> 65536"
  shows "chunk_of sq0 s < n" "seq_of sq0 (chunk_of sq0 s) = s"
  using assms by (auto simp: numbers_def chunk_of_seq_of)

lemma routes_handle:
  assumes "routes_inv n (route_row route_ids make_entry wanted mem) sq0 S w" "s \<in> S" "routes_right n mem sq0 s r"
    and "routes_cb route_ids make_entry wanted sq0 s = Some f" "f r w = (w', e)"
  shows "entries_right n (route_row route_ids make_entry wanted mem) (cl_user w') \<and> cl_errors w' = cl_errors w \<and>
    (\<forall>j < 16 * n. route_row route_ids make_entry wanted mem j = Inr (cl_user w ! j) \<longrightarrow>
        route_row route_ids make_entry wanted mem j = Inr (cl_user w' ! j)) \<and>
    (e = None \<longrightarrow> (\<forall>i < 16. route_row route_ids make_entry wanted mem (16 * chunk_of sq0 s + i) =
        Inr (cl_user w' ! (16 * chunk_of sq0 s + i))))"
proof (cases "\<exists>data base len. r = RspData data base len")
  case True
  then obtain data base len where rsp: "r = RspData data base len" by blast
  let ?k = "chunk_of sq0 s"
  have k: "?k < n" using assms(1,2) number_chunk(1) by (auto simp: routes_inv_def)
  obtain es' where run: "route_response_entries route_ids make_entry wanted (16 * ?k) data base
      [0..<ENTRIES_PER_READ] (cl_user w) = (es', e)" and w': "w' = w\<lparr>cl_user := es'\<rparr>"
    using assms(4,5) by (auto simp: routes_cb_def routes_handle_response_def rsp split: prod.splits)
  have right: "struct_unpack_from Little ROUTE_ENTRY_PATTERN data (base + i * 16) =
      struct_unpack_from Little ROUTE_ENTRY_PATTERN mem (16 * (16 * ?k + i))"
    if "i \<in> set [0..<ENTRIES_PER_READ]" for i
    using right_row [OF _ _ refl k, of mem data base len i] assms(3) that by (simp add: routes_right_def rsp ENTRIES_PER_READ_def)
  have "\<forall>i\<in>set [0..<ENTRIES_PER_READ]. 16 * ?k + i < 16 * n"
    using k by (auto simp: ENTRIES_PER_READ_def)
  from route_response_block [OF run right this] assms(1) show ?thesis
    by (simp add: w' routes_inv_def ENTRIES_PER_READ_def)
next
  case False
  then have "w' = w" "e \<noteq> None"
    using assms(4,5) by (auto simp: routes_cb_def routes_handle_response_def split: response.splits)
  with assms(1) show ?thesis by (auto simp: routes_inv_def)
qed

interpretation routes_client: process_client rd "routes_inv n (route_row route_ids make_entry wanted mem) sq0"
  "routes_right n mem sq0" "\<lambda>s. kd" "routes_cb route_ids make_entry wanted sq0"
  for rd route_ids make_entry wanted n mem sq0 kd
proof
  fix s S req e w
  assume "s \<in> S" "routes_inv n (route_row route_ids make_entry wanted mem) sq0 S w"
  then show "routes_inv n (route_row route_ids make_entry wanted mem) sq0 (S - {s}) (receive_error req e w)"
    by (auto simp: routes_inv_def receive_error_def)
next
  fix s S r f w w'
  assume s: "s \<in> S" and J: "routes_inv n (route_row route_ids make_entry wanted mem) sq0 S w"
    and r: "routes_right n mem sq0 s r" and f: "routes_cb route_ids make_entry wanted sq0 s = Some f" "f r w = (w', None)"
  let ?row = "route_row route_ids make_entry wanted mem"
  note h = routes_handle [OF J s r f]
  have S: "S \<subseteq> numbers sq0 0 n" using J by (simp add: routes_inv_def)
  have "seq_of sq0 k \<in> S - {s} \<or> (\<forall>i < 16. ?row (16 * k + i) = Inr (cl_user w' ! (16 * k + i)))"
    if k: "k < n" and old: "seq_of sq0 k \<in> S \<or>
        (\<forall>i < 16. ?row (16 * k + i) = Inr (cl_user w ! (16 * k + i)))" for k
  proof (cases "seq_of sq0 k = s")
    case True
    then have "chunk_of sq0 s = k" using chunk_of_seq_of [of k sq0] k J by (simp add: routes_inv_def)
    then show ?thesis using h by simp
  next
    case False
    have "16 * k + i < 16 * n" if "i < 16" for i
      using that k by simp
    then show ?thesis using False old h by blast
  qed
  then show "routes_inv n ?row sq0 (S - {s}) w'" using J h S by (auto simp: routes_inv_def)
next
  fix s S r f e w w'
  assume s: "s \<in> S" and J: "routes_inv n (route_row route_ids make_entry wanted mem) sq0 S w"
    and r: "routes_right n mem sq0 s r" and f: "routes_cb route_ids make_entry wanted sq0 s = Some f" "f r w = (w', Some e)"
  let ?row = "route_row route_ids make_entry wanted mem"
  note h = routes_handle [OF J s r f]
  have "16 * k + i < 16 * n" if "i < 16" "k < n" for i k
    using that by simp
  then show "routes_inv n ?row sq0 S w'" using J h unfolding routes_inv_def by metis
next
  fix s S w
  assume "routes_cb route_ids make_entry wanted sq0 s = None"
  then show "routes_inv n (route_row route_ids make_entry wanted mem) sq0 (S - {s}) w" by (simp add: routes_cb_def)
qed

subsection \<open>Properties\<close>

text \<open>
  C20: \<open>GetMultiCastRoutesProcess\<close> finds the entries of the router's table. Let a fresh process read the first
  \<open>n\<close> blocks of 16 rows of the table at \<open>base\<close> of chip \<open>(x, y)\<close>, with any events on every connection, as long as a
  successful reply to a datagram that it has sent carries what the memory of the core named in this datagram holds at
  the address and over the length in it. If the reads are collected without an exception, slot \<open>j\<close> of the process is
  what row \<open>j\<close> of this chip's memory means: nothing for an unused row or one of another application, or the entry with
  the row's key and mask and the processors and links of its route. Lost, repeated and exchanged replies make no
  difference. With 64 blocks this is \<open>get_routes\<close>.
\<close>
theorem get_routes_correct:
  assumes "fresh pr" and "cl_user (pr_client pr) = replicate (16 * n) None" and "n \<le> 65536"
    and "0 \<le> net_next_sequence nt" "net_next_sequence nt < 65536"
    and "collect_responses rd (get_routes_loop rd (routes_handle_response route_ids make_entry wanted) (x, y, 0)
       base n 0 pr nt) = Some (Done pr' nt')"
    and "memory_answers rd mems (sent pr pr') nt"
  shows "length (cl_user (pr_client pr')) = 16 * n \<and>
    (\<forall>j < 16 * n. route_row route_ids make_entry wanted (mem_bytes (mems (x, y, 0)) base (256 * n)) j =
       Inr (cl_user (pr_client pr') ! j)) \<and>
    (n = N_READS \<longrightarrow> get_routes rd route_ids make_entry wanted x y base pr nt = Some (Done pr' nt'))"
proof -
  let ?mem = "mem_bytes (mems (x, y, 0)) base (256 * n)"
  let ?sq = "net_next_sequence nt" and ?row = "route_row route_ids make_entry wanted ?mem"
  let ?xs = "map (\<lambda>i. (read_memory (x, y, 0) (base + int (0 + 16 * i) * 16) UDP_MESSAGE_MAX_SIZE,
        routes_handle_response route_ids make_entry wanted (0 + 16 * i))) [0..<n]"
  obtain pr1 nt1 where sent: "send_each rd ?xs pr nt = Some (Done pr1 nt1)"
    and coll: "collect_responses rd (Some (Done pr1 nt1)) = Some (Done pr' nt')"
    using collect_responses_started [OF assms(6) [unfolded get_routes_loop_send_each]] by blast
  note idle = fresh_idle [OF assms(1)]
  note answered = reads_answered [OF assms(7) sent coll idle assms(4,5),
      where c = "\<lambda>k. (x, y, 0)" and a = "\<lambda>k. base + int (0 + 16 * k) * 16" and len = "\<lambda>k. UDP_MESSAGE_MAX_SIZE"]
  have chunks: "n_chunks ?mem = n" by (simp add: n_chunks_def)
  have "list_all (reply_ok rd read_kind (routes_right n ?mem ?sq)) (net_events nt i)" for i
    by (rule list.pred_mono_strong [OF answered])
      (use assms(3) chunks in \<open>auto simp: reply_ok_def routes_right_def read_right_def carries_def chunk_mem_bytes
        UDP_MESSAGE_MAX_SIZE_def Let_def mult.commute split: sum.splits response.splits simp del: read_memory.simps\<close>)
  then have h: "list_all (routes_client.honest rd n ?mem ?sq read_kind) (net_events nt i)" for i
    by (simp add: list_all_iff routes_client.honest_reply_ok)
  have "entries_right n ?row (cl_user (pr_client pr))"
    using assms(2) by (simp add: entries_right_def)
  then have "routes_inv n ?row ?sq (numbers ?sq 0 (length ?xs)) (pr_client pr)"
    using assms(3) by (auto simp: routes_inv_def numbers_def)
  moreover have "Some (snd (?xs ! i)) = routes_cb route_ids make_entry wanted ?sq (seq_of ?sq i)"
    if "i < length ?xs" for i
    using that assms(3) by (simp add: routes_cb_def chunk_of_seq_of)
  moreover have "req_response req = read_kind" if "i < length ?xs" "fst (?xs ! i) = Inr req" for i req
    using that by (auto simp: abstract_scp_request_def)
  moreover have "length ?xs \<le> 65536" using assms(3) by simp
  ultimately have J: "routes_inv n ?row ?sq {} (pr_client pr')" "cl_errors (pr_client pr') = []"
    using routes_client.each_idle_phase_ok [OF idle _ h refl assms(4,5) _ _ _ sent coll] by blast+
  have "?row j = Inr (cl_user (pr_client pr') ! j)" if "j < 16 * n" for j
  proof -
    have "j div 16 < n" "j mod 16 < 16" using that by (simp_all add: less_mult_imp_div_less mult.commute)
    then have "?row (16 * (j div 16) + j mod 16) = Inr (cl_user (pr_client pr') ! (16 * (j div 16) + j mod 16))"
      using J unfolding routes_inv_def by blast
    moreover have "16 * (j div 16) + j mod 16 = j" by simp
    ultimately show ?thesis by (simp only:)
  qed
  then show ?thesis using J(1) assms(6) by (auto simp: routes_inv_def entries_right_def get_routes_def)
qed


subsection \<open>A concrete run\<close>

text \<open>One block: an entry of application 30 and unused rows, after a timeout and a stray reply, with the right one twice.\<close>

definition sample_rows :: bytes where
  "sample_rows = [0, 0, 30, 0, 1, 0, 0, 0, 5, 0, 0, 0, 255, 255, 255, 255] @ replicate 240 255"

abbreviation sample_entry :: "int \<Rightarrow> int \<Rightarrow> int list \<Rightarrow> int list \<Rightarrow> bool \<Rightarrow> (int \<times> int \<times> int list) res" where
  "sample_entry key rmask ps ls d \<equiv> Inr (key, rmask, ps)"

definition sample_table_events :: net where
  "sample_table_events = \<lparr>net_events = (\<lambda>i. if i = 0
     then [RecvTimeout, sample_reply 3 [9, 9, 9, 9], sample_reply 0 sample_rows, sample_reply 0 sample_rows] else []), net_next_sequence = 0\<rparr>"

theorem get_routes_correct_witness:
  "\<exists>pr nt. collect_responses (read_bytestring 6) (get_routes_loop (read_bytestring 6)
       (routes_handle_response (\<lambda>r. ([r], [])) sample_entry None) (1, 2, 0) 0xE1000000 1 0
       (fresh_process (replicate 16 None)) sample_table_events) = Some (Done pr nt) \<and>
     cl_user (pr_client pr) ! 0 = Some (5, 0xFFFFFFFF, [1]) \<and> cl_user (pr_client pr) ! 1 = None"
proof -
  let ?rd = "read_bytestring 6" and ?pr = "fresh_process (replicate 16 None)" and ?nt = "sample_table_events"
  let ?run = "collect_responses ?rd (get_routes_loop ?rd (routes_handle_response (\<lambda>r. ([r], [])) sample_entry None)
      (1, 2, 0) 0xE1000000 1 0 ?pr ?nt)"
  let ?row = "route_row (\<lambda>r. ([r], [])) sample_entry None sample_rows" and ?mems = "\<lambda>c. held 0xE1000000 sample_rows"
  have "(case ?run of Some (Done pr nt) \<Rightarrow> all_answered_on [0] ?rd read_kind (whole_read (1, 2, 0) 0xE1000000 sample_rows) (sent ?pr pr) ?nt
      | _ \<Rightarrow> False)" by code_simp
  then obtain pr nt where r: "?run = Some (Done pr nt)"
    and on: "all_answered_on [0] ?rd read_kind (whole_read (1, 2, 0) 0xE1000000 sample_rows) (sent ?pr pr) ?nt"
    by (auto split: option.splits presult.splits)
  have "all_answered ?rd read_kind (whole_read (1, 2, 0) 0xE1000000 sample_rows) (sent ?pr pr) ?nt"
    by (rule all_answered_onI [OF on]) (simp add: sample_table_events_def)
  then have h: "memory_answers ?rd ?mems (sent ?pr pr) ?nt"
    unfolding memory_answers_def by (rule all_answered_weaken) (simp add: whole_read_answer)
  have z: "net_next_sequence ?nt = 0" by (simp add: sample_table_events_def)
  have u: "cl_user (pr_client ?pr) = replicate (16 * 1) None" by (simp add: fresh_process_def process_init_def)
  have "\<forall>j < 16. ?row j = Inr (cl_user (pr_client pr) ! j)"
    using get_routes_correct [OF fresh_fresh_process u _ _ _ r h] by (simp add: z sample_rows_def)
  moreover have "?row 0 = Inr (Some (5, 0xFFFFFFFF, [1]))" "?row 1 = Inr None" by code_simp+
  ultimately have "Inr (cl_user (pr_client pr) ! 0) = (Inr (Some (5, 0xFFFFFFFF, [1])) :: (int \<times> int \<times> int list) option res)"
    "Inr (cl_user (pr_client pr) ! 1) = (Inr None :: (int \<times> int \<times> int list) option res)"
    by (metis zero_less_numeral, metis one_less_numeral_iff semiring_norm(76))
  with r show ?thesis by blast
qed

end
