(* ===== verification/CpuInfoProps.thy ===== *)
theory CpuInfoProps
  imports RouteReadProps
begin

text \<open>
  What \<open>GetCPUInfoProcess\<close> and its two filters find: the block of every core that was asked for, each with its
  own coordinates, whatever was lost, repeated or exchanged.
\<close>

subsection \<open>The requests\<close>

definition cores_of :: "core_subsets \<Rightarrow> xyp list" where
  "cores_of subsets = concat (map (\<lambda>(x, y, ps). map (\<lambda>p. (x, y, p)) ps) subsets)"

definition cpu_request ::
  "(cpu_info \<Rightarrow> bool) \<Rightarrow> xyp \<Rightarrow> scp_request res \<times> cpu_infos client callback" where
  "cpu_request desired c = (case c of (x, y, p) \<Rightarrow>
     (read_memory (x, y, 0) (get_vcpu_address p) CPU_INFO_BYTES, cpu_handle_response desired x y p))"

lemma cpu_info_cores_send_each:
  "cpu_info_cores rd desired x y ps pr nt = send_each rd (map (\<lambda>p. cpu_request desired (x, y, p)) ps) pr nt"
proof (induction ps arbitrary: pr nt)
  case (Cons p ps)
  then have "cpu_info_cores rd desired x y ps = send_each rd (map (\<lambda>p. cpu_request desired (x, y, p)) ps)"
    by (intro ext)
  then show ?case
    by (simp add: cpu_request_def send_read_def send_each_Cons del: send_each.simps read_memory.simps)
qed simp

lemma cpu_info_loop_send_each:
  "cpu_info_loop rd desired subsets pr nt = send_each rd (map (cpu_request desired) (cores_of subsets)) pr nt"
proof (induction subsets arbitrary: pr nt)
  case (Cons s subsets)
  obtain x y ps where s: "s = (x, y, ps)" by (cases s)
  from Cons have "cpu_info_loop rd desired subsets = send_each rd (map (cpu_request desired) (cores_of subsets))"
    by (intro ext)
  then show ?case
    by (simp add: s cores_of_def send_each_append cpu_info_cores_send_each comp_def)
qed (simp add: cores_of_def)

subsection \<open>The invariant of the process\<close>

text \<open>What the collection holds about core \<open>c\<close> once its block \<open>bs\<close> has been read.\<close>

definition info_right :: "(cpu_info \<Rightarrow> bool) \<Rightarrow> xyp \<Rightarrow> bytes \<Rightarrow> cpu_infos \<Rightarrow> bool" where
  "info_right desired c bs infos =
     (case c of (x, y, p) \<Rightarrow>
        (case parse_cpu_info x y p bs 0 of
           Inl e \<Rightarrow> False
         | Inr info \<Rightarrow> map_of infos (x, y, p) = (if desired info then Some info else None)))"

definition cpu_inv ::
  "(cpu_info \<Rightarrow> bool) \<Rightarrow> xyp list \<Rightarrow> bytes list \<Rightarrow> int \<Rightarrow> int set \<Rightarrow> cpu_infos client \<Rightarrow> bool" where
  "cpu_inv desired cores blocks sq0 S c \<longleftrightarrow>
     distinct cores \<and> length cores \<le> 65536 \<and> length blocks = length cores \<and> (\<forall>b\<in>set blocks. length b = 128) \<and>
     S \<subseteq> numbers sq0 0 (length cores) \<and>
     fst ` set (cl_user c) \<subseteq> set cores \<and>
     (cl_errors c \<noteq> [] \<or>
      (\<forall>k < length cores. if seq_of sq0 k \<in> S then map_of (cl_user c) (cores ! k) = None
                           else info_right desired (cores ! k) (blocks ! k) (cl_user c)))"

definition cpu_right :: "bytes list \<Rightarrow> int \<Rightarrow> int \<Rightarrow> response \<Rightarrow> bool" where
  "cpu_right blocks sq0 s r \<longleftrightarrow>
     (case r of
        RspData data off len \<Rightarrow>
          chunk_of sq0 s < length blocks \<longrightarrow> slice off (off + len) data = blocks ! chunk_of sq0 s
      | _ \<Rightarrow> True)"

definition cpu_cb :: "(cpu_info \<Rightarrow> bool) \<Rightarrow> xyp list \<Rightarrow> int \<Rightarrow> int \<Rightarrow> cpu_infos client callback option" where
  "cpu_cb desired cores sq0 s = Some (snd (cpu_request desired (cores ! chunk_of sq0 s)))"

lemma parse_cpu_info_cong:
  assumes "slice off (off + len) data = bs" "length bs = 128"
  shows "parse_cpu_info x y p data off = parse_cpu_info x y p bs 0"
proof -
  have size: "calcsize VCPU_PATTERN = 128" by code_simp
  have "off + 128 \<le> length data \<and> take 128 (drop off data) = bs"
    using slice_whole [OF assms] by simp
  then have "unpack_from Little VCPU_PATTERN data off = unpack_from Little VCPU_PATTERN bs 0"
    using assms(2) size by (simp add: unpack_from_def)
  then show ?thesis by (simp add: parse_cpu_info_def)
qed

lemma cpu_info_init_core:
  "cpu_info_init x y p d = Inr info \<Longrightarrow> cpu_x info = x \<and> cpu_y info = y \<and> cpu_p info = p"
  unfolding cpu_info_init_def by (auto split: list.split_asm sval.split_asm)

lemma info_right_cong: "map_of a c = map_of b c \<Longrightarrow> info_right desired c bs a = info_right desired c bs b"
  by (cases c) (simp add: info_right_def split: sum.split)

lemma parse_cpu_info_core:
  "parse_cpu_info x y p bs off = Inr info \<Longrightarrow> cpu_x info = x \<and> cpu_y info = y \<and> cpu_p info = p"
  by (auto simp: parse_cpu_info_def dest: cpu_info_init_core)


lemma chunk_number: "s \<in> numbers sq0 0 n \<Longrightarrow> n \<le> 65536 \<Longrightarrow> chunk_of sq0 s < n \<and> seq_of sq0 (chunk_of sq0 s) = s"
  using number_chunk [of s sq0 n] by blast

text \<open>A right response stores what its block says about its core, and nothing about the others.\<close>

lemma cpu_handle:
  assumes J: "cpu_inv desired cores blocks sq0 S w" and s: "s \<in> S" and r: "cpu_right blocks sq0 s r"
    and f: "cpu_cb desired cores sq0 s = Some f" "f r w = (w', None)" and k: "k = chunk_of sq0 s"
  shows "cl_errors w' = cl_errors w \<and> fst ` set (cl_user w') \<subseteq> set cores \<and>
    (\<forall>c. c \<noteq> cores ! k \<longrightarrow> map_of (cl_user w') c = map_of (cl_user w) c) \<and>
    (map_of (cl_user w) (cores ! k) = None \<longrightarrow> info_right desired (cores ! k) (blocks ! k) (cl_user w'))"
proof -
  have kn: "k < length cores" using J s chunk_number [of s sq0 "length cores"] k by (auto simp: cpu_inv_def)
  obtain x y p where c: "cores ! k = (x, y, p)" by (cases "cores ! k") auto
  obtain data off len where rsp: "r = RspData data off len"
    using f k c by (auto simp: cpu_cb_def cpu_request_def cpu_handle_response_def with_data_def split: response.splits)
  have sl: "slice off (off + len) data = blocks ! k" "length (blocks ! k) = 128"
    using r J kn k by (simp_all add: cpu_right_def rsp cpu_inv_def)
  obtain info where info: "parse_cpu_info x y p (blocks ! k) 0 = Inr info"
    and w': "w' = w\<lparr>cl_user := if desired info then add_info info (cl_user w) else cl_user w\<rparr>"
    using f k c by (auto simp: cpu_cb_def cpu_request_def cpu_handle_response_def with_data_def rsp
        parse_cpu_info_cong [OF sl] split: sum.splits)
  have xyp: "(cpu_x info, cpu_y info, cpu_p info) = cores ! k" using parse_cpu_info_core [OF info] c by simp
  have "cores ! k \<in> set cores" using kn by simp
  then have "fst ` set (cl_user w') \<subseteq> set cores"
    using J by (auto simp: w' add_info_def xyp cpu_inv_def dom_update)
  moreover have "\<forall>c. c \<noteq> cores ! k \<longrightarrow> map_of (cl_user w') c = map_of (cl_user w) c"
    by (simp add: w' add_info_def xyp update_conv')
  moreover have "map_of (cl_user w) (cores ! k) = None \<longrightarrow> info_right desired (cores ! k) (blocks ! k) (cl_user w')"
    using xyp by (simp add: w' add_info_def info_right_def c info update_conv')
  ultimately show ?thesis by (simp add: w')
qed

lemma cpu_handle_error:
  "cpu_cb desired cores sq0 s = Some f \<Longrightarrow> f r w = (w', Some e) \<Longrightarrow> w' = w"
  by (auto simp: cpu_cb_def cpu_request_def cpu_handle_response_def with_data_def
      split: response.splits sum.splits prod.splits)

interpretation cpu_client: process_client rd "cpu_inv desired cores blocks sq0" "cpu_right blocks sq0"
  "\<lambda>s. kd" "cpu_cb desired cores sq0" for rd desired cores blocks sq0 kd
proof
  fix s S w req e
  assume "s \<in> S" "cpu_inv desired cores blocks sq0 S w"
  then show "cpu_inv desired cores blocks sq0 (S - {s}) (receive_error req e w)"
    by (auto simp: cpu_inv_def receive_error_def)
next
  fix s S w r f w'
  assume s: "s \<in> S" and J: "cpu_inv desired cores blocks sq0 S w" and r: "cpu_right blocks sq0 s r"
    and f: "cpu_cb desired cores sq0 s = Some f" "f r w = (w', None)"
  let ?k = "chunk_of sq0 s"
  note h = cpu_handle [OF J s r f refl]
  have d: "distinct cores" and n: "length cores \<le> 65536" and S: "S \<subseteq> numbers sq0 0 (length cores)"
    using J by (simp_all add: cpu_inv_def)
  have k: "?k < length cores" "seq_of sq0 ?k = s" using chunk_number [of s sq0 "length cores"] s S n by auto
  have "cl_errors w' = []  \<Longrightarrow> if seq_of sq0 j \<in> S - {s} then map_of (cl_user w') (cores ! j) = None
      else info_right desired (cores ! j) (blocks ! j) (cl_user w')" if j: "j < length cores" for j
  proof -
    assume "cl_errors w' = []"
    then have old: "if seq_of sq0 i \<in> S then map_of (cl_user w) (cores ! i) = None
        else info_right desired (cores ! i) (blocks ! i) (cl_user w)" if "i < length cores" for i
      using J h that by (simp add: cpu_inv_def)
    show ?thesis
    proof (cases "j = ?k")
      case True
      then show ?thesis using h old [OF k(1)] k(2) s by simp
    next
      case False
      then have ne: "cores ! j \<noteq> cores ! ?k" using d j k(1) by (simp add: nth_eq_iff_index_eq)
      have "seq_of sq0 j \<noteq> s"
        using False chunk_of_seq_of [of j sq0] j n by auto
      moreover have "map_of (cl_user w') (cores ! j) = map_of (cl_user w) (cores ! j)" using h ne by blast
      moreover from this have "info_right desired (cores ! j) (blocks ! j) (cl_user w') =
          info_right desired (cores ! j) (blocks ! j) (cl_user w)"
        by (rule info_right_cong)
      ultimately show ?thesis using old [OF j] by simp
    qed
  qed
  then show "cpu_inv desired cores blocks sq0 (S - {s}) w'" using J h by (auto simp: cpu_inv_def)
next
  fix s S w r f w' e
  assume "cpu_inv desired cores blocks sq0 S w" "cpu_cb desired cores sq0 s = Some f" "f r w = (w', Some e)"
  then show "cpu_inv desired cores blocks sq0 S w'" using cpu_handle_error by blast
next
  fix s S w
  assume "cpu_cb desired cores sq0 s = None"
  then show "cpu_inv desired cores blocks sq0 (S - {s}) w" by (simp add: cpu_cb_def)
qed

subsection \<open>Properties\<close>

text \<open>The block of core \<open>p\<close> of a chip, as the chip's monitor holds it.\<close>

definition vcpu_block :: "(xyp \<Rightarrow> memory) \<Rightarrow> xyp \<Rightarrow> bytes" where
  "vcpu_block mems c = (case c of (x, y, p) \<Rightarrow> mem_bytes (mems (x, y, 0)) (0xe5007000 + 128 * p) 128)"

lemma vcpu_reads:
  assumes "memory_answers rd mems (sent pr pr') nt" and "idle pr" and "0 \<le> net_next_sequence nt" "net_next_sequence nt < 65536"
    and "send_each rd (map (cpu_request desired) cores) pr nt = Some (Done pr1 nt1)"
    and "collect_responses rd (Some (Done pr1 nt1)) = Some (Done pr' nt')"
  shows "list_all (cpu_client.honest rd (map (vcpu_block mems) cores) (net_next_sequence nt) read_kind) (net_events nt i)"
proof -
  let ?core = "\<lambda>k. (fst (cores ! k), fst (snd (cores ! k)), 0)" and ?p = "\<lambda>k. snd (snd (cores ! k))"
  note answered = reads_answered [OF assms(1,5,6,2,3,4), where c = ?core
      and a = "\<lambda>k. 0xe5007000 + 128 * ?p k" and len = "\<lambda>k. 128"]
  have "list_all (reply_ok rd read_kind (cpu_right (map (vcpu_block mems) cores) (net_next_sequence nt))) (net_events nt i)"
    by (rule list.pred_mono_strong [OF answered])
      (auto simp: cpu_request_def memory_map get_vcpu_address_def reply_ok_def cpu_right_def carries_def vcpu_block_def Let_def
        simp del: read_memory.simps split: prod.split sum.splits response.splits)
  then show ?thesis by (simp add: list_all_iff cpu_client.honest_reply_ok)
qed

text \<open>
  C18: \<open>GetCPUInfoProcess\<close> and its filters find the state of every core that was asked for. Let a fresh process
  ask for up to 65536 cores, none twice, with any events on every connection, as long as a successful reply to
  a datagram that it has sent carries what the memory of the core named in this datagram holds at the address and over
  the length in it. If the process returns without raising, then the block of every core, the 128 bytes that the
  monitor of its chip holds for it, could be parsed, the collection has for each of these cores the
  information in its own block exactly when the filter wants it, and nothing about any other core.
\<close>
theorem get_cpu_info_correct:
  assumes "fresh pr" and "cl_user (pr_client pr) = []"
    and "distinct (cores_of subsets)" and "length (cores_of subsets) \<le> 65536"
    and "0 \<le> net_next_sequence nt" "net_next_sequence nt < 65536"
    and "get_cpu_info_process rd desired subsets pr nt = Some (Done pr' nt')"
    and "memory_answers rd mems (sent pr pr') nt"
  shows "list_all (\<lambda>c. info_right desired c (vcpu_block mems c) (cl_user (pr_client pr'))) (cores_of subsets) \<and>
    fst ` set (cl_user (pr_client pr')) \<subseteq> set (cores_of subsets)"
proof -
  let ?sq = "net_next_sequence nt" and ?cores = "cores_of subsets"
  let ?xs = "map (cpu_request desired) ?cores" and ?blocks = "map (vcpu_block mems) ?cores"
  obtain pr1 nt1 where sent: "send_each rd ?xs pr nt = Some (Done pr1 nt1)"
    and coll: "collect_responses rd (Some (Done pr1 nt1)) = Some (Done pr' nt')"
    using collect_responses_started [OF assms(7) [unfolded get_cpu_info_process_def cpu_info_loop_send_each]] by blast
  note idle = fresh_idle [OF assms(1)]
  have "cpu_inv desired ?cores ?blocks ?sq (numbers ?sq 0 (length ?xs)) (pr_client pr)"
    using assms(2-4) by (auto simp: cpu_inv_def vcpu_block_def) (auto simp: numbers_def)
  moreover have "Some (snd (?xs ! i)) = cpu_cb desired ?cores ?sq (seq_of ?sq i)" if "i < length ?xs" for i
    using that assms(4) by (simp add: cpu_cb_def chunk_of_seq_of)
  moreover have "req_response req = read_kind" if "i < length ?xs" "fst (?xs ! i) = Inr req" for i req
    using that by (auto simp: cpu_request_def abstract_scp_request_def split: prod.splits)
  moreover have "length ?xs \<le> 65536" using assms(4) by simp
  ultimately have "cpu_inv desired ?cores ?blocks ?sq {} (pr_client pr')" "cl_errors (pr_client pr') = []"
    using cpu_client.each_idle_phase_ok [OF idle _ vcpu_reads [OF assms(8) idle assms(5,6) sent coll] refl assms(5,6) _ _ _ sent coll]
    by blast+
  then show ?thesis by (auto simp: cpu_inv_def list_all_length)
qed


subsection \<open>A concrete run\<close>

text \<open>Core 3 of chip (1, 2), which is idle, after a timeout and a stray reply, with its block twice.\<close>

definition sample_block :: bytes where
  "sample_block = replicate 46 0 @ [15] @ replicate 81 0"

definition sample_cpu_events :: net where
  "sample_cpu_events = \<lparr>net_events = (\<lambda>i. if i = 0
     then [RecvTimeout, sample_reply 3 [9, 9], sample_reply 0 sample_block, sample_reply 0 sample_block] else []),
     net_next_sequence = 0\<rparr>"

theorem get_cpu_info_correct_witness:
  "\<exists>pr nt info. get_cpu_info_process (read_bytestring 6) (include_desired [CPU_IDLE]) [(1, 2, [3])] (fresh_process [])
       sample_cpu_events = Some (Done pr nt) \<and>
     map_of (cl_user (pr_client pr)) (1, 2, 3) = Some info \<and> cpu_state_of info = CPU_IDLE"
proof -
  let ?rd = "read_bytestring 6" and ?subsets = "[(1, 2, [3])] :: core_subsets" and ?pr = "fresh_process []"
    and ?mems = "\<lambda>c. held 0xe5007180 sample_block"
  let ?run = "get_cpu_info_process ?rd (include_desired [CPU_IDLE]) ?subsets ?pr sample_cpu_events"
  have "(case ?run of Some (Done pr nt) \<Rightarrow> all_answered_on [0] ?rd read_kind (whole_read (1, 2, 0) 0xe5007180 sample_block)
      (sent ?pr pr) sample_cpu_events | _ \<Rightarrow> False)" by code_simp
  then obtain pr nt where r: "?run = Some (Done pr nt)"
    and on: "all_answered_on [0] ?rd read_kind (whole_read (1, 2, 0) 0xe5007180 sample_block) (sent ?pr pr) sample_cpu_events"
    by (auto split: option.splits presult.splits)
  have "all_answered ?rd read_kind (whole_read (1, 2, 0) 0xe5007180 sample_block) (sent ?pr pr) sample_cpu_events"
    by (rule all_answered_onI [OF on]) (simp add: sample_cpu_events_def)
  then have h: "memory_answers ?rd ?mems (sent ?pr pr) sample_cpu_events"
    unfolding memory_answers_def by (rule all_answered_weaken) (simp add: whole_read_answer)
  have z: "net_next_sequence sample_cpu_events = 0" by (simp add: sample_cpu_events_def)
  have u: "cl_user (pr_client ?pr) = []" by (simp add: fresh_process_def process_init_def)
  have c: "cores_of ?subsets = [(1, 2, 3)]" by (simp add: cores_of_def)
  have "info_right (include_desired [CPU_IDLE]) (1, 2, 3) sample_block (cl_user (pr_client pr))"
    using get_cpu_info_correct [OF fresh_fresh_process u _ _ _ _ r h]
    by (simp add: c z vcpu_block_def sample_block_def)
  moreover have "case parse_cpu_info 1 2 3 sample_block 0 of Inl e \<Rightarrow> False | Inr i \<Rightarrow> cpu_state_of i = CPU_IDLE"
    by code_simp
  ultimately show ?thesis
    using r by (auto simp: info_right_def include_desired_def split: sum.splits)
qed

end
