(* ===== verification/UdpConnection.thy ===== *)
theory UdpConnection
  imports Connection EieioData EieioCommand
begin

text \<open>
  UDP connections as such (\<open>utilities/socket_utils.py\<close>, \<open>connections/udp_packet_connections/udp_connection.py\<close>,
  \<open>eieio_connection.py\<close>, \<open>ip_address_connection.py\<close>) and the thread that listens to one
  (\<open>connections/connection_listener.py\<close>). The system calls are outside the program: each gives a value, a
  timeout or another failure, and these outcomes are arguments. Logging is not kept.
\<close>

subsection \<open>System calls\<close>

datatype 'a syscall = SysOk 'a | SysTimeout | SysError

text \<open>The wrappers: every failure is a \<open>SpinnmanIOException\<close>, a timeout on receiving its own exception.\<close>

definition wrap_call :: "'a syscall \<Rightarrow> 'a res" where
  "wrap_call r = (case r of SysOk x \<Rightarrow> Inr x | _ \<Rightarrow> Inl SpinnmanIO)"

definition wrap_receive :: "'a syscall \<Rightarrow> 'a res" where
  "wrap_receive r = (case r of SysOk x \<Rightarrow> Inr x | SysTimeout \<Rightarrow> Inl SpinnmanTimeout | SysError \<Rightarrow> Inl SpinnmanIO)"

text \<open>The address of a socket; none at all is reported as any address.\<close>

definition get_socket_address :: "(string option \<times> int) syscall \<Rightarrow> (string \<times> int) res" where
  "get_socket_address r =
     bind_res (wrap_call r) (\<lambda>(addr, port).
       Inr (case addr of None \<Rightarrow> ''0.0.0.0'' | Some a \<Rightarrow> if a = [] then ''0.0.0.0'' else a, port))"

subsection \<open>\<open>UDPConnection\<close>\<close>

record udp_connection =
  udp_can_send :: bool
  udp_local_ip_address :: string
  udp_local_port :: int
  udp_remote_ip_address :: "string option"
  udp_remote_port :: "int option"
  udp_closed :: bool

text \<open>What the calls of the constructor give; setting the size of the buffer may fail without harm.\<close>

record udp_calls =
  call_socket :: "unit syscall"
  call_bind :: "string \<Rightarrow> int \<Rightarrow> unit syscall"
  call_resolve :: "string \<Rightarrow> string syscall"
  call_connect :: "string \<Rightarrow> int \<Rightarrow> unit syscall"
  call_closed :: bool
  call_getsockname :: "(string option \<times> int) syscall"

definition udp_connection_init ::
  "udp_calls \<Rightarrow> string option \<Rightarrow> int option \<Rightarrow> string option \<Rightarrow> int option \<Rightarrow> udp_connection res" where
  "udp_connection_init calls local_host local_port remote_host remote_port =
     bind_res (wrap_call (call_socket calls)) (\<lambda>_.
     bind_res (wrap_call (call_bind calls (case local_host of None \<Rightarrow> [] | Some h \<Rightarrow> h)
       (case local_port of None \<Rightarrow> 0 | Some p \<Rightarrow> p))) (\<lambda>_.
     bind_res (case (remote_host, remote_port) of
                 (Some h, Some p) \<Rightarrow>
                   bind_res (wrap_call (call_resolve calls h)) (\<lambda>ip.
                   bind_res (wrap_call (call_connect calls ip p)) (\<lambda>_. Inr (True, Some ip, Some p)))
               | _ \<Rightarrow> Inr (False, None, None)) (\<lambda>(can_send, ip, port).
     check (\<not> call_closed calls) SpinnmanEOF
       (bind_res (get_socket_address (call_getsockname calls)) (\<lambda>(addr, own_port).
          Inr \<lparr>udp_can_send = can_send, udp_local_ip_address = addr, udp_local_port = own_port,
               udp_remote_ip_address = ip, udp_remote_port = port, udp_closed = False\<rparr>)))))"

definition PING_COUNT :: nat where "PING_COUNT = 5"

text \<open>\<open>is_connected\<close>: a ping that works, of at most five; \<open>pings n\<close> is the status of the n-th.\<close>

definition udp_is_connected :: "(nat \<Rightarrow> int) \<Rightarrow> udp_connection \<Rightarrow> bool" where
  "udp_is_connected pings c \<longleftrightarrow> \<not> udp_closed c \<and> udp_can_send c \<and> list_ex (\<lambda>n. pings n = 0) [0..<PING_COUNT]"

definition udp_receive_from :: "'a syscall \<Rightarrow> udp_connection \<Rightarrow> 'a res" where
  "udp_receive_from r c = check (\<not> udp_closed c) SpinnmanEOF (wrap_receive r)"

text \<open>\<open>receive\<close>, and \<open>receive_with_address\<close>, which says where the message came from as well.\<close>

definition udp_receive_bytes :: "bytes syscall \<Rightarrow> udp_connection \<Rightarrow> bytes res" where
  "udp_receive_bytes = udp_receive_from"

definition udp_receive_with_address ::
  "(bytes \<times> string \<times> int) syscall \<Rightarrow> udp_connection \<Rightarrow> (bytes \<times> string \<times> int) res" where
  "udp_receive_with_address = udp_receive_from"

text \<open>
  Sending is repeated while no byte is sent: the number of bytes of each try, and whether the socket is
  closed after it. \<open>None\<close> is a socket that goes on like that.
\<close>

fun send_tries :: "(nat syscall \<times> bool) list \<Rightarrow> unit res option" where
  "send_tries [] = None"
| "send_tries ((r, closed_after) # rs) =
     (case wrap_call r of
        Inl e \<Rightarrow> Some (Inl e)
      | Inr n \<Rightarrow> if n \<noteq> 0 then Some (Inr ()) else if closed_after then Some (Inl SpinnmanEOF) else send_tries rs)"

definition udp_send :: "(nat syscall \<times> bool) list \<Rightarrow> udp_connection \<Rightarrow> unit res option" where
  "udp_send rs c =
     (if udp_closed c then Some (Inl SpinnmanEOF)
      else if \<not> udp_can_send c then Some (Inl SpinnmanIO)
      else send_tries rs)"

definition udp_send_to :: "(nat syscall \<times> bool) list \<Rightarrow> udp_connection \<Rightarrow> unit res option" where
  "udp_send_to rs c = (if udp_closed c then Some (Inl SpinnmanEOF) else send_tries rs)"

definition udp_close :: "udp_connection \<Rightarrow> udp_connection" where
  "udp_close c = c\<lparr>udp_closed := True\<rparr>"

text \<open>A closed connection is ready, so that whoever waits for it finds out.\<close>

definition udp_is_ready_to_receive :: "bool \<Rightarrow> udp_connection \<Rightarrow> bool" where
  "udp_is_ready_to_receive selected c \<longleftrightarrow> udp_closed c \<or> selected"

subsection \<open>\<open>EIEIOConnection\<close> and \<open>IPAddressesConnection\<close>\<close>

datatype eieio_message = CommandMessage eieio_command | DataMessage eieio_data_message

text \<open>The two bits above the others tell a command from data.\<close>

definition ONE_SHORT :: "fitem list" where [layout]: "ONE_SHORT = [FH]"

definition eieio_message_of :: "bytes \<Rightarrow> eieio_message res" where
  "eieio_message_of data =
     bind_res (struct_unpack_from Little ONE_SHORT data 0) (\<lambda>header.
       if hd header AND 0xC000 = 0x4000
       then bind_res (read_eieio_command_message data 0) (\<lambda>m. Inr (CommandMessage m))
       else bind_res (read_eieio_data_message data 0) (\<lambda>m. Inr (DataMessage m)))"

definition receive_eieio_message :: "bytes syscall \<Rightarrow> udp_connection \<Rightarrow> eieio_message res" where
  "receive_eieio_message r c = bind_res (udp_receive_bytes r c) eieio_message_of"

text \<open>
  Sending: \<open>sys\<close> is what the system makes of the bytes, try by try.
\<close>

definition eieio_message_bytestring :: "eieio_message \<Rightarrow> bytes res" where
  "eieio_message_bytestring m =
     (case m of CommandMessage c \<Rightarrow> command_bytestring c | DataMessage d \<Rightarrow> eieio_data_message_bytestring d)"

definition send_eieio_message ::
  "(bytes \<Rightarrow> (nat syscall \<times> bool) list) \<Rightarrow> eieio_message \<Rightarrow> udp_connection \<Rightarrow> unit res option" where
  "send_eieio_message sys m c =
     (case eieio_message_bytestring m of Inl e \<Rightarrow> Some (Inl e) | Inr bs \<Rightarrow> udp_send (sys bs) c)"

definition send_eieio_message_to ::
  "(bytes \<Rightarrow> string \<times> int \<Rightarrow> (nat syscall \<times> bool) list) \<Rightarrow> eieio_message \<Rightarrow> string \<Rightarrow> int \<Rightarrow> udp_connection \<Rightarrow>
     unit res option" where
  "send_eieio_message_to sys m ip_address port c =
     (case eieio_message_bytestring m of Inl e \<Rightarrow> Some (Inl e) | Inr bs \<Rightarrow> udp_send_to (sys bs (ip_address, port)) c)"

definition BOOTROM_SPINN_PORT :: int where "BOOTROM_SPINN_PORT = 54321"

text \<open>Any exception is suppressed: no address is the answer then.\<close>

definition receive_ip_address :: "(bytes \<times> string \<times> int) syscall \<Rightarrow> udp_connection \<Rightarrow> string option" where
  "receive_ip_address r c =
     (case udp_receive_with_address r c of
        Inl e \<Rightarrow> None
      | Inr (_, ip_address, port) \<Rightarrow> if port = BOOTROM_SPINN_PORT then Some ip_address else None)"

text \<open>
  \<open>locate_connected_machine\<close>: the handler is called once for every new address, until it says stop. The
  addresses that it was called with, and whether the search ended.
\<close>

fun locate_connected_machine :: "(string \<Rightarrow> bool) \<Rightarrow> string option list \<Rightarrow> string list \<Rightarrow> string list \<times> bool" where
  "locate_connected_machine handler [] seen_boards = ([], False)"
| "locate_connected_machine handler (None # rs) seen_boards = locate_connected_machine handler rs seen_boards"
| "locate_connected_machine handler (Some ip # rs) seen_boards =
     (if ip \<in> set seen_boards then locate_connected_machine handler rs seen_boards
      else if handler ip then ([ip], True)
      else (case locate_connected_machine handler rs (ip # seen_boards) of (ips, stopped) \<Rightarrow> (ip # ips, stopped)))"

subsection \<open>\<open>ConnectionListener\<close>\<close>

text \<open>
  Its callbacks and whether it is done. A turn of its loop finds nothing in its time, a message, or an
  exception; in between, callbacks are added and the listener is closed. A callback is its number.
\<close>

record listener =
  li_callbacks :: "nat list"
  li_done :: bool

datatype 'm listener_event =
    NothingReady
  | MessageReady 'm
  | ReceiveRaises exc
  | AddCallback nat
  | CloseListener

definition listener_init :: listener where
  "listener_init = \<lparr>li_callbacks = [], li_done = False\<rparr>"

definition add_callback :: "nat \<Rightarrow> listener \<Rightarrow> listener" where
  "add_callback cb l = l\<lparr>li_callbacks := li_callbacks l @ [cb]\<rparr>"

definition listener_close :: "listener \<Rightarrow> listener" where
  "listener_close l = l\<lparr>li_done := True\<rparr>"

text \<open>The calls handed to the pool: the callbacks in their order, each with the message.\<close>

fun listener_step :: "'m listener_event \<Rightarrow> listener \<Rightarrow> (nat \<times> 'm) list \<times> listener" where
  "listener_step (AddCallback cb) l = ([], add_callback cb l)"
| "listener_step CloseListener l = ([], listener_close l)"
| "listener_step NothingReady l = ([], l)"
| "listener_step (MessageReady m) l = (if li_done l then ([], l) else (map (\<lambda>cb. (cb, m)) (li_callbacks l), l))"
| "listener_step (ReceiveRaises e) l = ([], if e = SpinnmanEOF then l\<lparr>li_done := True\<rparr> else l)"

fun listener_run :: "'m listener_event list \<Rightarrow> listener \<Rightarrow> (nat \<times> 'm) list \<times> listener" where
  "listener_run [] l = ([], l)"
| "listener_run (ev # evs) l =
     (case listener_step ev l of (calls, l') \<Rightarrow>
        (case listener_run evs l' of (calls', l'') \<Rightarrow> (calls @ calls', l'')))"

end
