(* ===== verification/ProxyConnections.thy ===== *)
theory ProxyConnections
  imports Proxy UdpConnection Utilities
begin

text \<open>
  What the proxied connections of the Spalloc client send and understand (\<open>spalloc/spalloc_scp_connection.py\<close>,
  \<open>spalloc_boot_connection.py\<close>, \<open>spalloc_eieio_connection.py\<close>, \<open>spalloc_eieio_listener.py\<close>): the same messages as
  over a socket, with the proxy in its place; and what the classes of \<open>spalloc/spalloc_client.py\<close> that stand for
  connections make of it.
\<close>

subsection \<open>The classes of connection\<close>

text \<open>
  The operations of a \<open>Connection\<close> and a \<open>Listenable\<close>, as \<open>_ProxiedBidirectionalConnection\<close> and
  \<open>_ProxiedUnboundConnection\<close> give them; \<open>waiting\<close> is what arrives while the operation waits.
\<close>

datatype channel_operation =
    IsConnected
  | Close "ws_event list" "ws_event list"
  | Send bytes
  | Receive "int option" "ws_event list"
  | IsReadyToReceive int "ws_event list"

datatype channel_value = Truth bool | Message bytes | Nothing

definition px_value :: "('a \<Rightarrow> channel_value) \<Rightarrow> 'a px_result \<Rightarrow> channel_value px_result" where
  "px_value f r = px_bind r (\<lambda>x p. PxDone (f x) p)"

fun bidirectional :: "nat \<Rightarrow> channel_operation \<Rightarrow> proxy \<Rightarrow> channel_value px_result" where
  "bidirectional i IsConnected p = PxDone (Truth (is_connected i p)) p"
| "bidirectional i (Close sending waiting) p = px_value (\<lambda>_. Nothing) (px_close i sending waiting p)"
| "bidirectional i (Send data) p = px_value (\<lambda>_. Nothing) (px_send i data p)"
| "bidirectional i (Receive timeout waiting) p = px_value Message (px_receive i timeout waiting p)"
| "bidirectional i (IsReadyToReceive timeout waiting) p = px_value Truth (px_is_ready_to_receive i timeout waiting p)"

fun unbound :: "nat \<Rightarrow> channel_operation \<Rightarrow> proxy \<Rightarrow> channel_value px_result" where
  "unbound i IsConnected p = PxDone (Truth (is_connected i p)) p"
| "unbound i (Close sending waiting) p = px_value (\<lambda>_. Nothing) (px_close i sending waiting p)"
| "unbound i (Send data) p = px_value (\<lambda>_. Nothing) (unbound_send i p)"
| "unbound i (Receive timeout waiting) p = px_value Message (px_receive i timeout waiting p)"
| "unbound i (IsReadyToReceive timeout waiting) p = px_value Truth (px_is_ready_to_receive i timeout waiting p)"

text \<open>An unbound connection refuses to send, in every state.\<close>

lemma unbound_never_sends: "unbound i (Send data) p = PxRaise PyOSError p"
  by (simp add: px_value_def px_bind_def unbound_send_def throw_if_closed_def)

text \<open>Connections that are bound to a chip know its coordinates.\<close>

definition proxied_scamp_init ::
  "int \<Rightarrow> int \<Rightarrow> int \<Rightarrow> ws_event list \<Rightarrow> ws_event list \<Rightarrow> proxy \<Rightarrow> (nat \<times> int \<times> int) px_result" where
  "proxied_scamp_init x y port sending waiting p =
     px_bind (open_bidirectional x y port sending waiting p) (\<lambda>i p1. PxDone (i, x, y) p1)"

definition proxied_boot_init :: "ws_event list \<Rightarrow> ws_event list \<Rightarrow> proxy \<Rightarrow> nat px_result" where
  "proxied_boot_init sending waiting p = open_bidirectional 0 0 UDP_BOOT_CONNECTION_DEFAULT_PORT sending waiting p"

definition proxied_eieio_init ::
  "int \<Rightarrow> int \<Rightarrow> int \<Rightarrow> ws_event list \<Rightarrow> ws_event list \<Rightarrow> proxy \<Rightarrow> (nat \<times> int \<times> int) px_result" where
  "proxied_eieio_init x y port sending waiting p =
     px_bind (open_bidirectional x y port sending waiting p) (\<lambda>i p1. PxDone (i, x, y) p1)"

definition eieio_coords :: "nat \<times> int \<times> int \<Rightarrow> int \<times> int" where
  "eieio_coords c = snd c"

text \<open>It cannot send anywhere else.\<close>

definition eieio_send_to :: "nat \<Rightarrow> proxy \<Rightarrow> unit px_result" where
  "eieio_send_to i p = px_bind (throw_if_closed i p) (\<lambda>_ p1. PxRaise PyOSError p1)"

text \<open>A listener finds a chip by the address of its board.\<close>

definition get_chip_coords :: "('ip \<times> (int \<times> int)) list \<Rightarrow> 'ip \<Rightarrow> (int \<times> int) res" where
  "get_chip_coords conns ip_address = require PyKeyError (map_of conns ip_address)"

definition send_to_chip :: "nat \<Rightarrow> bytes \<Rightarrow> int \<Rightarrow> int \<Rightarrow> int \<Rightarrow> proxy \<Rightarrow> unit px_result" where
  "send_to_chip i message x y port p = px_send_to i message x y port p"

definition listener_send_to ::
  "('ip \<times> (int \<times> int)) list \<Rightarrow> nat \<Rightarrow> bytes \<Rightarrow> 'ip \<Rightarrow> int \<Rightarrow> proxy \<Rightarrow> unit px_result" where
  "listener_send_to conns i data ip port p =
     (case get_chip_coords conns ip of Inl e \<Rightarrow> PxRaise e p | Inr (x, y) \<Rightarrow> send_to_chip i data x y port p)"

lemma listener_sends_as_unbound: "listener_send_to conns i data ip port p = unbound_send_to conns i data ip port p"
  by (auto simp: listener_send_to_def unbound_send_to_def get_chip_coords_def send_to_chip_def require_def
      split: option.splits)

text \<open>
  The thread that pings: what it finds in each of its turns, whether the websocket is connected, whether the
  ping raises and whether the thread has been closed by then. The number of pings, and whether it has ended.
\<close>

fun ping_run :: "(bool \<times> bool \<times> bool) list \<Rightarrow> nat \<times> bool" where
  "ping_run [] = (0, False)"
| "ping_run ((connected, raises, closed) # turns) =
     (if \<not> connected then (0, True)
      else if raises \<and> closed then (1, True)
      else (case ping_run turns of (n, ended) \<Rightarrow> (Suc n, ended)))"

text \<open>Closing alone does not end it: on a websocket that stays up it pings on.\<close>

lemma ping_goes_on: "\<forall>(connected, raises, closed) \<in> set turns. connected \<and> \<not> raises \<Longrightarrow>
    ping_run turns = (length turns, False)"
  by (induction turns) auto

lemma ping_ends: "snd (ping_run (turns @ (False, raises, closed) # rest))"
  by (induction turns rule: ping_run.induct) (auto split: prod.splits)

definition px_res :: "'a res \<Rightarrow> proxy \<Rightarrow> 'a px_result" where
  "px_res r p = (case r of Inl e \<Rightarrow> PxRaise e p | Inr x \<Rightarrow> PxDone x p)"

definition px_receive_as :: "(bytes \<Rightarrow> 'a res) \<Rightarrow> nat \<Rightarrow> int option \<Rightarrow> ws_event list \<Rightarrow> proxy \<Rightarrow> 'a px_result" where
  "px_receive_as parse i timeout waiting p =
     px_bind (px_receive i timeout waiting p) (\<lambda>data p1. px_res (parse data) p1)"

subsection \<open>\<open>SpallocSCPConnection\<close> and \<open>SpallocBootConnection\<close>\<close>

definition px_receive_sdp_message :: "nat \<Rightarrow> int option \<Rightarrow> ws_event list \<Rightarrow> proxy \<Rightarrow> sdp_message px_result" where
  "px_receive_sdp_message = px_receive_as (\<lambda>data. sdp_message_from_bytestring data 2)"

definition px_send_sdp_message :: "int \<Rightarrow> int \<Rightarrow> nat \<Rightarrow> sdp_message \<Rightarrow> proxy \<Rightarrow> unit px_result" where
  "px_send_sdp_message chip_x chip_y i m p =
     (let h = (if sdp_flags (sdpm_header m) = REPLY_EXPECTED
               then update_for_send chip_x chip_y (sdpm_header m)
               else update_for_send 0 0 (sdpm_header m))
      in px_bind (px_res (sdp_message_bytestring (m\<lparr>sdpm_header := h\<rparr>)) p) (\<lambda>bs p1. px_send i (TWO_SKIP @ bs) p1))"

definition px_receive_scp_response ::
  "nat \<Rightarrow> int option \<Rightarrow> ws_event list \<Rightarrow> proxy \<Rightarrow> (scp_result \<times> int \<times> bytes \<times> nat) px_result" where
  "px_receive_scp_response = px_receive_as (\<lambda>data. receive_scp_response (Datagram data))"

definition px_get_scp_data :: "int \<Rightarrow> int \<Rightarrow> int option \<Rightarrow> int option \<Rightarrow> scp_request \<Rightarrow> scp_request \<times> bytes res" where
  "px_get_scp_data chip_x chip_y x y r =
     (let r' = stamp_request (case x of None \<Rightarrow> chip_x | Some v \<Rightarrow> v) (case y of None \<Rightarrow> chip_y | Some v \<Rightarrow> v) r
      in (r', bind_res (scp_request_bytestring r') (\<lambda>bs. Inr (TWO_SKIP @ bs))))"

definition px_send_boot_message :: "nat \<Rightarrow> bytes res \<Rightarrow> proxy \<Rightarrow> unit px_result" where
  "px_send_boot_message i message p = px_bind (px_res message p) (\<lambda>bs p1. px_send i bs p1)"

subsection \<open>\<open>SpallocEIEIOConnection\<close> and \<open>SpallocEIEIOListener\<close>\<close>

definition px_receive_eieio_message :: "nat \<Rightarrow> int option \<Rightarrow> ws_event list \<Rightarrow> proxy \<Rightarrow> eieio_message px_result" where
  "px_receive_eieio_message = px_receive_as eieio_message_of"

definition px_send_eieio_message :: "nat \<Rightarrow> eieio_message \<Rightarrow> proxy \<Rightarrow> unit px_result" where
  "px_send_eieio_message i m p = px_bind (px_res (eieio_message_bytestring m) p) (\<lambda>bs p1. px_send i bs p1)"

text \<open>A listener is not for sending: the base class does nothing.\<close>

definition spalloc_listener_send :: "bytes \<Rightarrow> proxy \<Rightarrow> unit px_result" where
  "spalloc_listener_send data p = PxDone () p"

text \<open>The SDP message around an EIEIO message for a core.\<close>

definition core_message :: "bytes \<Rightarrow> int \<Rightarrow> int \<Rightarrow> int \<Rightarrow> sdp_message" where
  "core_message data x y p =
     \<lparr>sdpm_header = \<lparr>sdp_flags = REPLY_NOT_EXPECTED, sdp_tag = Some 0, sdp_destination_port = 1,
        sdp_destination_cpu = p, sdp_destination_chip_x = x, sdp_destination_chip_y = y,
        sdp_source_port = Some 0, sdp_source_cpu = Some 0, sdp_source_chip_x = Some 0,
        sdp_source_chip_y = Some 0\<rparr>,
      sdpm_data = Some data, sdpm_offset = 0\<rparr>"

definition send_eieio_message_to_core ::
  "nat \<Rightarrow> bytes res \<Rightarrow> int \<Rightarrow> int \<Rightarrow> int \<Rightarrow> proxy \<Rightarrow> unit px_result" where
  "send_eieio_message_to_core i message x y core p =
     px_bind (px_res (bind_res message (\<lambda>data. sdp_message_bytestring (core_message data x y core))) p)
       (\<lambda>bs p1. px_send i (TWO_SKIP @ bs) p1)"

definition listener_send_to_core ::
  "('ip \<times> (int \<times> int)) list \<Rightarrow> nat \<Rightarrow> bytes res \<Rightarrow> int \<Rightarrow> int \<Rightarrow> int \<Rightarrow> 'ip \<Rightarrow> proxy \<Rightarrow> unit px_result" where
  "listener_send_to_core conns i message x y core ip_address p =
     px_bind (px_res (bind_res message (\<lambda>data. sdp_message_bytestring (core_message data x y core))) p)
       (\<lambda>bs p1. listener_send_to conns i (TWO_SKIP @ bs) ip_address SCP_SCAMP_PORT p1)"

text \<open>
  The tries of \<open>update_tag\<close>: a send and, if a response is wanted, its reception within a second; a timeout
  is tried again, up to the last try. \<open>net\<close> gives the events of the waits.
\<close>

definition NUM_UPDATE_TAG_TRIES :: nat where "NUM_UPDATE_TAG_TRIES = 3"

fun update_tag_tries ::
  "nat \<Rightarrow> (proxy \<Rightarrow> unit px_result) \<Rightarrow> bool \<Rightarrow> (bytes \<Rightarrow> response res) \<Rightarrow> nat \<Rightarrow> ws_event list list \<Rightarrow> proxy \<Rightarrow>
     unit px_result" where
  "update_tag_tries 0 send do_receive read_response i net p = PxDone () p"
| "update_tag_tries (Suc n) send do_receive read_response i net p =
     (let again = (\<lambda>e p'. if is_timeout e \<and> n \<noteq> 0
                          then update_tag_tries n send do_receive read_response i (tl net) p' else PxRaise e p')
      in case send p of
           PxRaise e p1 \<Rightarrow> again e p1
         | PxWait p1 \<Rightarrow> PxWait p1
         | PxDone _ p1 \<Rightarrow>
             if \<not> do_receive then PxDone () p1
             else (case px_receive_as read_response i (Some 1) (case net of [] \<Rightarrow> [] | evs # _ \<Rightarrow> evs) p1 of
                     PxDone r p2 \<Rightarrow> PxDone () p2
                   | PxRaise e p2 \<Rightarrow> again e p2
                   | PxWait p2 \<Rightarrow> PxWait p2))"

definition update_tag_request :: "int \<Rightarrow> int \<Rightarrow> int \<Rightarrow> scp_request res" where
  "update_tag_request x y tag =
     bind_res (iptag_set x y [0, 0, 0, 0] 0 tag True True) (\<lambda>r.
       Inr (stamp_request x y (r\<lparr>req_sdp := (req_sdp r)\<lparr>sdp_flags := REPLY_EXPECTED_NO_P2P\<rparr>\<rparr>)))"

definition update_tag_with ::
  "reader \<Rightarrow> int \<Rightarrow> int \<Rightarrow> int \<Rightarrow> bool \<Rightarrow> nat \<Rightarrow> (bytes \<Rightarrow> proxy \<Rightarrow> unit px_result) \<Rightarrow> ws_event list list \<Rightarrow> proxy \<Rightarrow>
     unit px_result" where
  "update_tag_with rd x y tag do_receive i send net p =
     (case bind_res (update_tag_request x y tag) (\<lambda>r. bind_res (scp_request_bytestring r) (\<lambda>bs. Inr (r, bs))) of
        Inl e \<Rightarrow> PxRaise e p
      | Inr (r, bs) \<Rightarrow>
          update_tag_tries NUM_UPDATE_TAG_TRIES (send (TWO_SKIP @ bs)) do_receive
            (\<lambda>data. rd (req_response r) data (length TWO_SKIP)) i net p)"

definition update_tag ::
  "reader \<Rightarrow> int \<Rightarrow> int \<Rightarrow> nat \<Rightarrow> int \<Rightarrow> bool \<Rightarrow> ws_event list list \<Rightarrow> proxy \<Rightarrow> unit px_result" where
  "update_tag rd x y i tag do_receive net p = update_tag_with rd x y tag do_receive i (px_send i) net p"

definition listener_update_tag ::
  "reader \<Rightarrow> nat \<Rightarrow> int \<Rightarrow> int \<Rightarrow> int \<Rightarrow> bool \<Rightarrow> ws_event list list \<Rightarrow> proxy \<Rightarrow> unit px_result" where
  "listener_update_tag rd i x y tag do_receive net p =
     update_tag_with rd x y tag do_receive i (\<lambda>data. send_to_chip i data x y SCP_SCAMP_PORT) net p"

definition update_tag_by_ip ::
  "reader \<Rightarrow> ('ip \<times> (int \<times> int)) list \<Rightarrow> nat \<Rightarrow> 'ip \<Rightarrow> int \<Rightarrow> ws_event list list \<Rightarrow> proxy \<Rightarrow> unit px_result" where
  "update_tag_by_ip rd conns i ip_address tag net p =
     (case get_chip_coords conns ip_address of
        Inl e \<Rightarrow> PxRaise e p
      | Inr (x, y) \<Rightarrow> listener_update_tag rd i x y tag True net p)"

end
