(* ===== verification/DataView.thy ===== *)
theory DataView
  imports Utilities TransceiverBoot VirtualTransceiver
begin

text \<open>
  The data that the program keeps for its caller (\<open>data/spinnman_data_view.py\<close>,
  \<open>data/spinnman_data_writer.py\<close>), and the choice of a transceiver (\<open>transceiver/transceiver_factory.py\<close>,
  \<open>version3transceiver.py\<close>, \<open>version5transceiver.py\<close>). The data of the machine library is not part of it; a
  transceiver is a value \<open>'t\<close>, and \<open>selector_of\<close> gives its selector.
\<close>

subsection \<open>\<open>_SpiNNManDataModel\<close>\<close>

record 't data_model =
  dm_app_id :: "int option"
  dm_app_id_tracker :: "app_id_tracker option"
  dm_scamp_connection_selector :: "selector option"
  dm_transceiver :: "'t option"

text \<open>What a hard reset leaves, with the transceiver closed; an exception of its closing is ignored.\<close>

definition dm_hard_reset :: "'t data_model \<Rightarrow> 't data_model" where
  "dm_hard_reset d =
     \<lparr>dm_app_id = None, dm_app_id_tracker = None, dm_scamp_connection_selector = None, dm_transceiver = None\<rparr>"

definition dm_soft_reset :: "'t data_model \<Rightarrow> 't data_model" where
  "dm_soft_reset d = d"

definition dm_init :: "'t data_model" where
  "dm_init = \<lparr>dm_app_id = None, dm_app_id_tracker = None, dm_scamp_connection_selector = None, dm_transceiver = None\<rparr>"

subsection \<open>\<open>SpiNNManDataView\<close>\<close>

definition has_transceiver :: "'t data_model \<Rightarrow> bool" where
  "has_transceiver d \<longleftrightarrow> dm_transceiver d \<noteq> None"

definition get_transceiver :: "'t data_model \<Rightarrow> 't res" where
  "get_transceiver d = require PyException (dm_transceiver d)"

definition dv_get_new_id :: "(int set \<Rightarrow> int) \<Rightarrow> 't data_model \<Rightarrow> (int \<times> 't data_model) res" where
  "dv_get_new_id pick d =
     (let t = (case dm_app_id_tracker d of
                 None \<Rightarrow> app_id_tracker_init None MIN_APP_ID MAX_APP_ID
               | Some t \<Rightarrow> t)
      in bind_res (get_new_id pick t) (\<lambda>(i, t'). Inr (i, d\<lparr>dm_app_id_tracker := Some t'\<rparr>)))"

definition dv_get_app_id :: "(int set \<Rightarrow> int) \<Rightarrow> 't data_model \<Rightarrow> (int \<times> 't data_model) res" where
  "dv_get_app_id pick d =
     (case dm_app_id d of
        Some i \<Rightarrow> Inr (i, d)
      | None \<Rightarrow> bind_res (dv_get_new_id pick d) (\<lambda>(i, d'). Inr (i, d'\<lparr>dm_app_id := Some i\<rparr>)))"

definition dv_free_id :: "int \<Rightarrow> 't data_model \<Rightarrow> 't data_model res" where
  "dv_free_id app_id d =
     (case dm_app_id_tracker d of
        None \<Rightarrow> Inr d
      | Some t \<Rightarrow> bind_res (free_id app_id t) (\<lambda>t'. Inr (d\<lparr>dm_app_id_tracker := Some t'\<rparr>)))"

definition dv_get_scamp_connection_selector :: "('t \<Rightarrow> selector) \<Rightarrow> 't data_model \<Rightarrow> (selector \<times> 't data_model) res" where
  "dv_get_scamp_connection_selector selector_of d =
     (case dm_scamp_connection_selector d of
        Some sel \<Rightarrow> Inr (sel, d)
      | None \<Rightarrow>
          bind_res (get_transceiver d) (\<lambda>t.
            Inr (selector_of t, d\<lparr>dm_scamp_connection_selector := Some (selector_of t)\<rparr>)))"

text \<open>\<open>read_memory\<close> turns an \<open>AttributeError\<close> of the transceiver into the exception of a missing one.\<close>

definition dv_read_memory :: "('t \<Rightarrow> 'a res) \<Rightarrow> 't data_model \<Rightarrow> 'a res" where
  "dv_read_memory read d =
     (case bind_res (get_transceiver d) read of
        Inl PyAttributeError \<Rightarrow> Inl PyException
      | r \<Rightarrow> r)"

definition dv_write_memory :: "('t \<Rightarrow> 'a res) \<Rightarrow> 't data_model \<Rightarrow> 'a res" where
  "dv_write_memory write d = bind_res (get_transceiver d) write"

definition set_transceiver :: "'t option \<Rightarrow> 't data_model \<Rightarrow> 't data_model res" where
  "set_transceiver transceiver d =
     (case transceiver of
        None \<Rightarrow> Inl PyTypeError
      | Some t \<Rightarrow>
          if dm_transceiver d \<noteq> None then Inl PyNotImplementedError
          else Inr (d\<lparr>dm_transceiver := Some t\<rparr>))"

subsection \<open>The factory\<close>

text \<open>The classes of board that the machine library knows; every other version has no transceiver.\<close>

datatype board_class = Version3 | Version5 | OtherVersion

datatype transceiver_class =
    Version3Transceiver
  | ExtendedVersion3Transceiver
  | Version5Transceiver
  | ExtendedVersion5Transceiver
  | Virtual5Transceiver

definition transceiver_class_of :: "board_class \<Rightarrow> bool \<Rightarrow> bool \<Rightarrow> transceiver_class res" where
  "transceiver_class_of version virtual extended =
     (case version of
        Version3 \<Rightarrow>
          if virtual then Inl PyNotImplementedError
          else if extended then Inr ExtendedVersion3Transceiver else Inr Version3Transceiver
      | Version5 \<Rightarrow>
          if virtual then Inr Virtual5Transceiver
          else if extended then Inr ExtendedVersion5Transceiver else Inr Version5Transceiver
      | OtherVersion \<Rightarrow> Inl PyNotImplementedError)"

definition boot_led_0_value :: "transceiver_class \<Rightarrow> int" where
  "boot_led_0_value c =
     (case c of
        Version3Transceiver \<Rightarrow> 0x502
      | ExtendedVersion3Transceiver \<Rightarrow> 0x502
      | _ \<Rightarrow> 1)"

text \<open>
  The connections that \<open>create_transceiver_from_hostname\<close> opens, in their order, each with the host it is
  for; the BMP comes first, if its place is given or can be worked out, and \<open>work_out\<close> works it out.
\<close>

definition LOCAL_HOST :: string where "LOCAL_HOST = ''127.0.0.1''"

datatype 'b wanted = WantBmp 'b | WantScamp "string option" | WantBoot "string option"

definition bmp_wanted ::
  "(string \<Rightarrow> 'b res) \<Rightarrow> board_class \<Rightarrow> string option \<Rightarrow> 'b option \<Rightarrow> bool \<Rightarrow> 'b option res" where
  "bmp_wanted work_out version hostname bmp_connection_data auto_detect_bmp =
     (if version = Version5 \<and> auto_detect_bmp \<and> bmp_connection_data = None then
        (case hostname of
           None \<Rightarrow> Inl PyValueError
         | Some h \<Rightarrow> bind_res (work_out h) (\<lambda>b. Inr (Some b)))
      else Inr bmp_connection_data)"

definition create_transceiver_from_hostname ::
  "(string \<Rightarrow> 'b res) \<Rightarrow> board_class \<Rightarrow> string option \<Rightarrow> 'b option \<Rightarrow> bool \<Rightarrow> bool \<Rightarrow> bool \<Rightarrow>
     ('b wanted list \<times> transceiver_class \<times> bool) res" where
  "create_transceiver_from_hostname work_out version hostname bmp_connection_data auto_detect_bmp power_cycle extended =
     bind_res (bmp_wanted work_out version hostname bmp_connection_data auto_detect_bmp) (\<lambda>bmp.
       let connections = (case bmp of None \<Rightarrow> [] | Some b \<Rightarrow> [WantBmp b]) @ [WantScamp hostname, WantBoot hostname];
           virtual = (hostname = Some LOCAL_HOST)
       in bind_res (transceiver_class_of version virtual extended) (\<lambda>c.
            Inr (connections, c, \<not> virtual \<and> power_cycle)))"

text \<open>The constructor of the class: its base, then the check of the board's number.\<close>

definition numbered_init ::
  "int \<Rightarrow> env \<Rightarrow> (connection_kind \<times> scp_connection) list \<Rightarrow> bool \<Rightarrow> net \<Rightarrow> unit tres option res" where
  "numbered_init number en connections power_cycle nt =
     bind_res (transceiver_init en connections power_cycle nt) (\<lambda>r.
       Inr (case r of
              Some (TxDone () t nt') \<Rightarrow>
                Some (if env_board_version en = number then TxDone () t nt' else TxRaise PyAssertionError t nt')
            | _ \<Rightarrow> r))"

subsection \<open>The place of the BMP\<close>

text \<open>
  \<open>work_out_bmp_from_machine_details\<close>: the address of the host with one subtracted from its last part, which
  is read and written in decimal; an address without dots is that part itself.
\<close>

record bmp_connection_data =
  bmp_ip_address :: "int list"
  bmp_boards :: "int list"
  bmp_port_num :: "int option"

definition work_out_bmp_from_machine_details :: "int list \<Rightarrow> bmp_connection_data" where
  "work_out_bmp_from_machine_details ip_bits =
     \<lparr>bmp_ip_address = butlast ip_bits @ [last ip_bits - 1], bmp_boards = [0], bmp_port_num = Some SCP_SCAMP_PORT\<rparr>"

end
