(* ===== verification/HeapProps.thy ===== *)
theory HeapProps
  imports RouteReadProps
begin

text \<open>
  What \<open>GetHeapProcess\<close> finds: the linked list of blocks in the memory of the chip, one block per phase, whatever
  was lost, repeated or exchanged in each of them.
\<close>

subsection \<open>The list of blocks in memory\<close>

definition word_at :: "memory \<Rightarrow> int \<Rightarrow> int" where
  "word_at mem a = le_val (mem_bytes mem a 4)"

text \<open>The list ends with address zero, or with a block that has no next one; such a block is not listed.\<close>

fun heap_path :: "memory \<Rightarrow> int \<Rightarrow> heap_element list \<Rightarrow> bool" where
  "heap_path mem a [] \<longleftrightarrow> a = 0 \<or> word_at mem a = 0"
| "heap_path mem a (b # bs) \<longleftrightarrow>
     a \<noteq> 0 \<and> word_at mem a \<noteq> 0 \<and> b = heap_element_init a (word_at mem a) (word_at mem (a + 4)) \<and>
     heap_path mem (word_at mem a) bs"

lemma carries_reads:
  assumes "carries mem a n (RspData data off len)" and "0 < n"
  shows "off + n \<le> length data" and "take n (drop off data) = mem_bytes mem a n"
  using slice_whole [OF assms(1) [unfolded carries_def response.case] length_mem_bytes assms(2)] by simp_all

lemma word_is_read:
  "carries mem a 4 (RspData data off len) \<Longrightarrow> struct_unpack_from Little [FI] data off = Inr [word_at mem a]"
  using carries_reads [of mem a 4 data off len]
  by (simp add: struct_unpack_from_def unpack_from_def as_int_def order_bytes_def word_at_def)

lemma second_word:
  "drop 4 (mem_bytes mem a 8) = mem_bytes mem (a + 4) 4"
  "drop (Suc (Suc (Suc (Suc 0)))) (mem_bytes mem a 8) = mem_bytes mem (a + 4) 4"
  using drop_mem_bytes [of 4 mem a 8] by (simp_all add: numeral_eq_Suc)

lemma read_second_word:
  assumes "carries mem a 8 (RspData data off len)"
  shows "struct_unpack_from Little [Fx, Fx, Fx, Fx, FI] data off = Inr [word_at mem (a + 4)]"
  using carries_reads [OF assms] second_word
  by (simp add: struct_unpack_from_def unpack_from_def as_int_def order_bytes_def word_at_def)

lemma read_two_words:
  assumes "carries mem a 8 (RspData data off len)"
  shows "struct_unpack_from Little [FI, FI] data off = Inr [word_at mem a, word_at mem (a + 4)]"
  using carries_reads [OF assms] second_word(1) take_mem_bytes [of 4 8 mem a]
  by (simp add: struct_unpack_from_def unpack_from_def as_int_def order_bytes_def word_at_def)

lemmas heap_callbacks =
  read_heap_address_response_def read_heap_pointer_def read_next_block_def with_data_def

interpretation heap_address: single_client rd read_heap_address_response "\<lambda>h. h = h0"
  "\<lambda>h. h = h0\<lparr>hs_heap_address := word_at mem a\<rparr>" "carries mem a 4" kd sq0
  for rd h0 mem a kd sq0
  by unfold_locales (auto simp: heap_callbacks word_is_read split: response.splits sum.splits)

interpretation heap_pointer: single_client rd read_heap_pointer "\<lambda>h. h = h0"
  "\<lambda>h. h = h0\<lparr>hs_next_block_address := word_at mem (a + 4)\<rparr>" "carries mem a 8" kd sq0
  for rd h0 mem a kd sq0
  by unfold_locales (auto simp: heap_callbacks read_second_word split: response.splits sum.splits)

definition after_block :: "memory \<Rightarrow> int \<Rightarrow> heap_state \<Rightarrow> heap_state" where
  "after_block mem a h =
     h\<lparr>hs_next_block_address := word_at mem a,
       hs_blocks := (if word_at mem a \<noteq> 0
         then hs_blocks h @ [heap_element_init a (word_at mem a) (word_at mem (a + 4))] else hs_blocks h)\<rparr>"

interpretation heap_block: single_client rd "read_next_block a" "\<lambda>h. h = h0" "\<lambda>h. h = after_block mem a h0"
  "carries mem a 8" kd sq0
  for rd h0 mem a kd sq0
  by unfold_locales
    (auto simp: heap_callbacks read_two_words after_block_def split: response.splits sum.splits list.splits)

subsection \<open>The phases\<close>

text \<open>What a read has sent, whether it was the pointer, the heap or a block.\<close>

lemma read_address_sends:
  assumes "read_address rd coords a n f pr nt = Some r" and "process_stores UNIV pr"
  shows "process_sends UNIV pr (end_state r)"
proof (cases "read_memory coords a n")
  case (Inl e)
  then have "r = Fails e pr nt"
    using assms(1) by (simp add: read_address_def send_read_def collect_responses_def del: read_memory.simps)
  then show ?thesis using process_sends_refl [OF assms(2)] by simp
next
  case (Inr req)
  then have c: "collect_responses rd (proc_send_request rd req (Some f) pr nt) = Some r"
    using assms(1) by (simp add: read_address_def send_read_def del: read_memory.simps)
  obtain r1 where r1: "proc_send_request rd req (Some f) pr nt = Some r1"
    using c by (auto simp: collect_responses_def split: option.splits)
  have w: "process_sends UNIV pr (end_state r1)" using proc_send_request_sends [OF r1 assms(2)] by simp
  show ?thesis
  proof (cases r1)
    case (Done pr1 nt1)
    then have "process_sends UNIV pr1 (end_state r)"
      using collect_responses_sends [of rd pr1 nt1 r] c r1 w process_sends_stores [OF w] by simp
    then show ?thesis using w Done process_sends_trans by simp blast
  qed (use c r1 w in \<open>auto simp: collect_responses_def\<close>)
qed

lemma read_address_consumes:
  assumes "read_address rd coords a n f pr nt = Some (Done pr' nt')"
  shows "events_within nt' nt"
proof -
  obtain req where "collect_responses rd (proc_send_request rd req (Some f) pr nt) = Some (Done pr' nt')"
    using assms by (cases "read_memory coords a n")
      (auto simp: read_address_def send_read_def collect_responses_def simp del: read_memory.simps)
  then obtain pr1 nt1 where "proc_send_request rd req (Some f) pr nt = Some (Done pr1 nt1)"
    and "collect_responses rd (Some (Done pr1 nt1)) = Some (Done pr' nt')"
    using collect_responses_started by blast
  then show ?thesis
    using proc_send_request_consumes collect_responses_consumes events_within_trans by blast
qed

text \<open>A read that returns has the memory at the address that it asked for.\<close>

lemma read_returns:
  assumes "idle pr" and "0 \<le> net_next_sequence nt" "net_next_sequence nt < 65536"
    and "memory_answers rd mems (sent pr pr') nt"
    and "single_client f (\<lambda>h. h = cl_user (pr_client pr)) (\<lambda>h. h = h') (carries (mems (x, y, 0)) a (nat n))"
    and "read_address rd (x, y, 0) a n f pr nt = Some (Done pr' nt')"
  shows "cl_user (pr_client pr') = h' \<and> idle pr' \<and> 0 \<le> net_next_sequence nt' \<and> net_next_sequence nt' < 65536"
proof -
  let ?Q = "carries (mems (x, y, 0)) a (nat n)" and ?sq = "net_next_sequence nt"
  obtain req where req: "read_memory (x, y, 0) a n = Inr req"
    using assms(6) by (cases "read_memory (x, y, 0) a n")
      (auto simp: read_address_def send_read_def collect_responses_def simp del: read_memory.simps)
  then have run: "collect_responses rd (proc_send_request rd req (Some f) pr nt) = Some (Done pr' nt')"
    using assms(6) by (simp add: read_address_def send_read_def del: read_memory.simps)
  obtain pr1 nt1 where one: "proc_send_request rd req (Some f) pr nt = Some (Done pr1 nt1)"
    and coll: "collect_responses rd (Some (Done pr1 nt1)) = Some (Done pr' nt')"
    using collect_responses_started [OF run] by blast
  have p: "process_stores UNIV pr" by (rule idle_stores [OF assms(1)])
  have w: "process_sends UNIV pr pr1" and "\<exists>bs \<in> set (sent pr pr1). wire ?sq req bs"
    using proc_send_request_sends [OF one p] by simp_all
  then obtain bs where bs: "bs \<in> set (sent pr pr1)" "wire ?sq req bs" by blast
  have w': "process_sends UNIV pr1 pr'" using collect_responses_sends [OF coll process_sends_stores [OF w]] by simp
  have in_sent: "bs \<in> set (sent pr pr')" using sent_mono [OF process_sends_refl [OF p] w w'] bs(1) by blast
  have right: "?Q r" if "read_answer mems bs r" for r using read_answered [OF req _ _ bs(2) that] by simp
  have h: "list_all (reply_ok rd read_kind (single_right ?Q ?sq)) (net_events nt i)" for i
    using answered_number [OF assms(4) [unfolded memory_answers_def] in_sent wire_fields(1) [OF bs(2)] right]
    by (simp add: single_right_def [abs_def])
  from single_client.single_idle_phase [OF assms(5,1) refl h refl assms(2,3) read_request_kind [OF req] run]
  show ?thesis by (simp add: MAX_SEQUENCE_def)
qed

lemma heap_loop_sends:
  assumes "heap_loop rd coords pr nt = Some r" and "process_stores UNIV pr"
  shows "process_sends UNIV pr (end_state r)"
proof -
  have "process_stores UNIV pr \<longrightarrow> process_sends UNIV pr (end_state r)"
  proof (rule heap_loop.raw_induct [where P = "\<lambda>rd coords pr nt r. process_stores UNIV pr \<longrightarrow> process_sends UNIV pr (end_state r)", OF _ assms(1)], intro impI)
    fix loop rd coords pr nt r
    assume ih: "\<And>rd coords (pr :: heap_state process) nt r. loop rd coords pr nt = Some r \<Longrightarrow>
        process_stores UNIV pr \<longrightarrow> process_sends UNIV pr (end_state r)"
      and run: "(let address = hs_next_block_address (cl_user (pr_client pr))
        in if address = 0 then Some (Done pr nt)
           else case read_address rd coords address 8 (read_next_block address) pr nt of
                  None \<Rightarrow> None
                | Some (Done pr' nt') \<Rightarrow> loop rd coords pr' nt'
                | Some (Fails e pr' nt') \<Rightarrow> Some (Fails e pr' nt')
                | Some (Blocks pr') \<Rightarrow> Some (Blocks pr')) = Some r"
      and p: "process_stores UNIV pr"
    let ?a = "hs_next_block_address (cl_user (pr_client pr))"
    show "process_sends UNIV pr (end_state r)"
    proof (cases "?a = 0")
      case True
      then show ?thesis using run process_sends_refl [OF p] by auto
    next
      case False
      then obtain r1 where r1: "read_address rd coords ?a 8 (read_next_block ?a) pr nt = Some r1"
        using run by (auto simp: Let_def split: option.splits)
      note w = read_address_sends [OF r1 p]
      show ?thesis
      proof (cases r1)
        case (Done pr1 nt1)
        then have "process_sends UNIV pr1 (end_state r)" using ih run False r1 w process_sends_stores [OF w] by simp
        then show ?thesis using w Done process_sends_trans by simp blast
      qed (use run False r1 w in \<open>auto simp: Let_def\<close>)
    qed
  qed
  then show ?thesis using assms(2) by blast
qed

text \<open>The first read of a run and what follows it: each has its own part of what was sent.\<close>

lemma answers_split:
  assumes "memory_answers rd mems (sent pr pr') nt" and "process_stores UNIV pr"
    and "read_address rd coords a n f pr nt = Some (Done pr1 nt1)" and "process_sends UNIV pr1 pr'"
  shows "memory_answers rd mems (sent pr pr1) nt" and "memory_answers rd mems (sent pr1 pr') nt1"
proof -
  have w: "process_sends UNIV pr pr1" using read_address_sends [OF assms(3,2)] by simp
  have stores: "process_stores UNIV pr'" using assms(4) by (rule process_sends_stores)
  show "memory_answers rd mems (sent pr pr1) nt"
    by (rule memory_answers_within [OF assms(1) process_sends_refl [OF assms(2)] w assms(4)]) simp
  show "memory_answers rd mems (sent pr1 pr') nt1"
    by (rule memory_answers_within [OF assms(1) w assms(4) process_sends_refl [OF stores] read_address_consumes [OF assms(3)]])
qed

text \<open>A read of a block, and the rest of the run.\<close>

lemma block_read:
  assumes "idle pr" and "0 \<le> net_next_sequence nt" "net_next_sequence nt < 65536"
    and "memory_answers rd mems (sent pr pr') nt"
    and rd: "read_address rd (x, y, 0) a 8 (read_next_block a) pr nt = Some (Done pr1 nt1)"
    and rest: "heap_loop rd (x, y, 0) pr1 nt1 = Some (Done pr' nt')"
  shows "cl_user (pr_client pr1) = after_block (mems (x, y, 0)) a (cl_user (pr_client pr)) \<and> idle pr1 \<and>
    0 \<le> net_next_sequence nt1 \<and> net_next_sequence nt1 < 65536 \<and> memory_answers rd mems (sent pr1 pr') nt1"
proof -
  have p: "process_stores UNIV pr" by (rule idle_stores [OF assms(1)])
  have "process_stores UNIV pr1" using read_address_sends [OF rd p] by (auto dest: process_sends_stores)
  from heap_loop_sends [OF rest this] have w: "process_sends UNIV pr1 pr'" by simp
  note h = answers_split [OF assms(4) p rd w]
  have s: "single_client (read_next_block a) (\<lambda>h. h = cl_user (pr_client pr))
      (\<lambda>h. h = after_block (mems (x, y, 0)) a (cl_user (pr_client pr))) (carries (mems (x, y, 0)) a (nat 8))"
    using heap_block.single_client_axioms by simp
  show ?thesis using read_returns [OF assms(1-3) h(1) s rd] h(2) by simp
qed

lemma heap_loop_blocks:
  assumes "heap_path (mems (x, y, 0)) a blocks" and "idle pr" and "0 \<le> net_next_sequence nt" "net_next_sequence nt < 65536"
    and "memory_answers rd mems (sent pr pr') nt" and "hs_next_block_address (cl_user (pr_client pr)) = a"
    and "heap_loop rd (x, y, 0) pr nt = Some (Done pr' nt')"
  shows "hs_blocks (cl_user (pr_client pr')) = hs_blocks (cl_user (pr_client pr)) @ blocks"
  using assms
proof (induction blocks arbitrary: a pr nt)
  case Nil
  show ?case
  proof (cases "a = 0")
    case True
    then show ?thesis using Nil.prems by (simp add: heap_loop.simps)
  next
    case False
    then obtain pr1 nt1 where rd: "read_address rd (x, y, 0) a 8 (read_next_block a) pr nt = Some (Done pr1 nt1)"
      and rest: "heap_loop rd (x, y, 0) pr1 nt1 = Some (Done pr' nt')"
      using Nil.prems(6,7) by (subst (asm) heap_loop.simps) (auto simp: Let_def split: option.splits presult.splits)
    have next_step: "cl_user (pr_client pr1) = after_block (mems (x, y, 0)) a (cl_user (pr_client pr)) \<and> idle pr1 \<and>
        0 \<le> net_next_sequence nt1 \<and> net_next_sequence nt1 < 65536 \<and> memory_answers rd mems (sent pr1 pr') nt1"
      by (rule block_read [OF Nil.prems(2-5) rd rest])
    with rest False Nil.prems(1) show ?thesis by (simp add: after_block_def heap_loop.simps)
  qed
next
  case (Cons b bs)
  let ?mem = "mems (x, y, 0)"
  have a: "a \<noteq> 0" "word_at ?mem a \<noteq> 0" "b = heap_element_init a (word_at ?mem a) (word_at ?mem (a + 4))"
    "heap_path ?mem (word_at ?mem a) bs" using Cons.prems(1) by simp_all
  obtain pr1 nt1 where rd: "read_address rd (x, y, 0) a 8 (read_next_block a) pr nt = Some (Done pr1 nt1)"
    and rest: "heap_loop rd (x, y, 0) pr1 nt1 = Some (Done pr' nt')"
    using Cons.prems(6,7) a(1)
    by (subst (asm) heap_loop.simps) (auto simp: Let_def split: option.splits presult.splits)
  have "cl_user (pr_client pr1) = after_block ?mem a (cl_user (pr_client pr)) \<and> idle pr1 \<and>
        0 \<le> net_next_sequence nt1 \<and> net_next_sequence nt1 < 65536 \<and> memory_answers rd mems (sent pr1 pr') nt1"
    by (rule block_read [OF Cons.prems(2-5) rd rest])
  then show ?case
    using Cons.IH [OF a(4) _ _ _ _ _ rest] a(2,3) by (simp add: after_block_def)
qed

subsection \<open>Properties\<close>

text \<open>
  C19: \<open>GetHeapProcess\<close> finds the blocks of the heap. Let the memory of a chip hold at the pointer, a word among the
  system variables, the address of a heap, and in the heap's second word the address of a list of blocks, \<open>blocks\<close>.
  Let a fresh process read it with any events on every connection, as long as a successful reply to a datagram that
  it has sent carries what the memory of the core named in this datagram holds at the address and over the length
  in it. If the process returns without raising, it has found exactly \<open>blocks\<close>, in their order, with the
  sizes and owners their headers state.
\<close>
theorem get_heap_correct:
  assumes "fresh pr" and "cl_user (pr_client pr) = heap_state_init" and "data_type_value (sv_data_type pointer) = 4"
    and "0 \<le> net_next_sequence nt" "net_next_sequence nt < 65536"
    and "get_heap rd (x, y) pointer pr nt = Some (Done pr' nt')"
    and "memory_answers rd mems (sent pr pr') nt"
    and "mem = mems (x, y, 0)"
    and "heap_path mem (word_at mem (word_at mem (0xf5007f00 + sv_offset pointer) + 4)) blocks"
  shows "hs_blocks (cl_user (pr_client pr')) = blocks"
proof -
  let ?base = "0xf5007f00 + sv_offset pointer"
  let ?heap = "word_at mem ?base" and ?coords = "(x, y, 0)"
  have base: "SYSTEM_VARIABLE_BASE_ADDRESS = 0xf5007f00" by (simp add: SYSTEM_VARIABLE_BASE_ADDRESS_def)
  obtain pr1 nt1 where r1: "read_address rd ?coords ?base 4 read_heap_address_response pr nt = Some (Done pr1 nt1)"
    and rest1: "and_then (read_address rd ?coords (hs_heap_address (cl_user (pr_client pr1))) 8
      read_heap_pointer pr1 nt1) (heap_loop rd ?coords) = Some (Done pr' nt')"
    using assms(6) unfolding get_heap_def Let_def and_then_assoc base assms(3)
    by (auto simp: and_then_def split: option.splits presult.splits)
  obtain pr2 nt2 where r2: "read_address rd ?coords (hs_heap_address (cl_user (pr_client pr1))) 8 read_heap_pointer pr1 nt1
        = Some (Done pr2 nt2)"
    and rest2: "heap_loop rd ?coords pr2 nt2 = Some (Done pr' nt')"
    using rest1 by (auto simp: and_then_def split: option.splits presult.splits)
  have p: "process_stores UNIV pr" by (rule idle_stores [OF fresh_idle [OF assms(1)]])
  have p1: "process_stores UNIV pr1" using read_address_sends [OF r1 p] by (auto dest: process_sends_stores)
  have p2: "process_sends UNIV pr1 pr2" using read_address_sends [OF r2 p1] by simp
  have p3: "process_sends UNIV pr2 pr'" using heap_loop_sends [OF rest2 process_sends_stores [OF p2]] by simp
  note h1 = answers_split [OF assms(7) p r1 process_sends_trans [OF p2 p3]]
  note h2 = answers_split [OF h1(2) p1 r2 p3]
  have one: "cl_user (pr_client pr1) = heap_state_init\<lparr>hs_heap_address := ?heap\<rparr> \<and> idle pr1 \<and>
      0 \<le> net_next_sequence nt1 \<and> net_next_sequence nt1 < 65536"
    by (rule read_returns [OF fresh_idle [OF assms(1)] assms(4,5) h1(1) _ r1])
      (use heap_address.single_client_axioms in \<open>simp add: assms(2,8)\<close>)
  have "cl_user (pr_client pr2) = heap_state_init
        \<lparr>hs_heap_address := ?heap, hs_next_block_address := word_at mem (?heap + 4)\<rparr> \<and> idle pr2 \<and>
      0 \<le> net_next_sequence nt2 \<and> net_next_sequence nt2 < 65536"
    by (rule read_returns [OF _ _ _ h2(1) _ r2]) (use one heap_pointer.single_client_axioms in \<open>simp_all add: assms(8)\<close>)
  then show ?thesis
    using heap_loop_blocks [OF assms(9) [unfolded assms(8)] _ _ _ h2(2) _ rest2]
    by (simp add: assms(8) heap_state_init_def)
qed

subsection \<open>A concrete run\<close>

text \<open>A heap at \<open>0x60000000\<close> with a free block at \<open>0x60000010\<close> and the block that ends the list.\<close>

definition sample_heap :: memory where
  "sample_heap a =
     (case map_of [(SYSTEM_VARIABLE_BASE_ADDRESS + sv_offset HEAP_ADDRESS + 3, 0x60), (0x60000004, 0x10), (0x60000007, 0x60),
        (0x60000010, 0x30), (0x60000013, 0x60)] a of Some b \<Rightarrow> b | None \<Rightarrow> 0)"

definition heap_replies :: "bytes list" where
  "heap_replies =
     [[0, 0, 0, 0x60], [0, 0, 0, 0, 0x10, 0, 0, 0x60], [0x30, 0, 0, 0x60, 0, 0, 0, 0], [0, 0, 0, 0, 0, 0, 0, 0]]"

text \<open>Every reply arrives twice, after a timeout.\<close>

definition heap_events :: "recv list" where
  "heap_events = RecvTimeout #
     concat (map (\<lambda>(i, p). [sample_reply (int i) p, sample_reply (int i) p]) (enumerate 0 heap_replies))"

definition heap_net :: net where
  "heap_net = \<lparr>net_events = (\<lambda>i. if i = 0 then heap_events else []), net_next_sequence = 0\<rparr>"

theorem get_heap_correct_witness:
  "\<exists>pr nt. get_heap (read_bytestring 6) (1, 2) HEAP_ADDRESS (fresh_process heap_state_init) heap_net
       = Some (Done pr nt) \<and>
     map heap_element_size (hs_blocks (cl_user (pr_client pr))) = [24]"
proof -
  let ?rd = "read_bytestring 6" and ?pr = "fresh_process heap_state_init" and ?nt = heap_net
    and ?mems = "\<lambda>c. sample_heap" and ?base = "0xf5007f00 + sv_offset HEAP_ADDRESS"
    and ?blocks = "[heap_element_init 0x60000010 0x60000030 0]"
  have "(case get_heap ?rd (1, 2) HEAP_ADDRESS ?pr ?nt of Some (Done pr nt) \<Rightarrow>
      all_answered_on [0] ?rd read_kind (read_answer ?mems) (sent ?pr pr) ?nt | _ \<Rightarrow> False)" by code_simp
  then obtain pr nt where r: "get_heap ?rd (1, 2) HEAP_ADDRESS ?pr ?nt = Some (Done pr nt)"
    and on: "all_answered_on [0] ?rd read_kind (read_answer ?mems) (sent ?pr pr) ?nt"
    by (auto split: option.splits presult.splits)
  have h: "memory_answers ?rd ?mems (sent ?pr pr) ?nt"
    unfolding memory_answers_def by (rule all_answered_onI [OF on]) (simp add: heap_net_def)
  have p: "heap_path sample_heap (word_at sample_heap (word_at sample_heap ?base + 4)) ?blocks" by code_simp
  have t: "data_type_value (sv_data_type HEAP_ADDRESS) = 4" by code_simp
  have z: "net_next_sequence ?nt = 0" and u: "cl_user (pr_client ?pr) = heap_state_init"
    by (simp_all add: heap_net_def fresh_process_def process_init_def)
  have "hs_blocks (cl_user (pr_client pr)) = ?blocks"
    by (rule get_heap_correct [OF fresh_fresh_process u t _ _ r h refl p]) (simp_all add: z)
  then show ?thesis using r by (simp add: heap_element_size_def heap_element_init_def Let_def)
qed

end
