(* ===== verification/TokenBucket.thy ===== *)
theory TokenBucket
  imports Complex_Main Prelude
begin

text \<open>
  The token bucket (\<open>connections/token_bucket.py\<close>), which limits a rate: what is consumed is refilled
  as time passes, up to a capacity. Its floats are rational numbers here: rounding is not modelled. Time is a world of
  the current time and the number of steps made so far. Step \<open>i\<close> (a reading of the clock or a sleep, with
  whatever the program did since the last step) takes \<open>lag i\<close> longer than it has to.
\<close>

datatype bucket_error = PyZeroDivision | NegativeSleep

type_synonym world = "rat \<times> nat"
type_synonym lag = "nat \<Rightarrow> rat"

definition time_time :: "lag \<Rightarrow> world \<Rightarrow> world" where
  "time_time lag w = (fst w + lag (snd w), Suc (snd w))"

definition time_sleep :: "lag \<Rightarrow> rat \<Rightarrow> world \<Rightarrow> world" where
  "time_sleep lag delay w = (fst w + delay + lag (snd w), Suc (snd w))"

record token_bucket =
  tb_capacity :: rat
  tb_tokens :: rat
  tb_fill_rate :: rat
  tb_timestamp :: rat

definition token_bucket_init :: "rat \<Rightarrow> rat \<Rightarrow> rat \<Rightarrow> token_bucket" where
  "token_bucket_init tokens fill_rate now =
     \<lparr> tb_capacity = tokens, tb_tokens = tokens, tb_fill_rate = fill_rate, tb_timestamp = now \<rparr>"

text \<open>The property \<open>tokens\<close>: a full bucket does not look at the clock.\<close>

definition refill :: "lag \<Rightarrow> token_bucket \<Rightarrow> world \<Rightarrow> token_bucket \<times> world" where
  "refill lag b w =
     (if tb_tokens b < tb_capacity b then
        let w' = time_time lag w;
            delta = tb_fill_rate b * (fst w' - tb_timestamp b)
        in (b \<lparr> tb_tokens := min (tb_capacity b) (tb_tokens b + delta), tb_timestamp := fst w' \<rparr>, w')
      else (b, w))"

text \<open>The loop of \<open>consume\<close>, which need not end: \<open>None\<close> is the call that never returns.\<close>

partial_function (option) wait_for ::
    "lag \<Rightarrow> rat \<Rightarrow> token_bucket \<Rightarrow> world \<Rightarrow> ((bucket_error + unit) \<times> token_bucket \<times> world) option" where
  "wait_for lag n b w =
     (let b' = fst (refill lag b w); w' = snd (refill lag b w) in
      if tb_tokens b' < n then
        if tb_fill_rate b' = 0 then Some (Inl PyZeroDivision, b', w')
        else if (n - tb_tokens b') / tb_fill_rate b' < 0 then Some (Inl NegativeSleep, b', w')
        else wait_for lag n b' (time_sleep lag ((n - tb_tokens b') / tb_fill_rate b') w')
      else Some (Inr (), b', w'))"

definition take_tokens :: "lag \<Rightarrow> rat \<Rightarrow> token_bucket \<Rightarrow> world \<Rightarrow> bool \<times> token_bucket \<times> world" where
  "take_tokens lag n b w =
     (let b' = fst (refill lag b w); w' = snd (refill lag b w) in
      if n \<le> tb_tokens b' then (True, b' \<lparr> tb_tokens := tb_tokens b' - n \<rparr>, w') else (False, b', w'))"

definition consume ::
    "lag \<Rightarrow> rat \<Rightarrow> bool \<Rightarrow> token_bucket \<Rightarrow> world \<Rightarrow> ((bucket_error + bool) \<times> token_bucket \<times> world) option" where
  "consume lag n block b w =
     (case (if block then wait_for lag n b w else Some (Inr (), b, w)) of
        None \<Rightarrow> None
      | Some (Inl e, b', w') \<Rightarrow> Some (Inl e, b', w')
      | Some (Inr _, b', w') \<Rightarrow>
          (case take_tokens lag n b' w' of (ok, b'', w'') \<Rightarrow> Some (Inr ok, b'', w'')))"

text \<open>A client that consumes again and again, and what it was granted in all.\<close>

fun consume_all ::
    "lag \<Rightarrow> (rat \<times> bool) list \<Rightarrow> rat \<Rightarrow> token_bucket \<Rightarrow> world \<Rightarrow> (rat \<times> token_bucket \<times> world) option" where
  "consume_all lag [] granted b w = Some (granted, b, w)"
| "consume_all lag ((n, block) # calls) granted b w =
     (case consume lag n block b w of
        None \<Rightarrow> None
      | Some (r, b', w') \<Rightarrow>
          consume_all lag calls (granted + (if r = Inr True then n else 0)) b' w')"

subsection \<open>The bucket never overflows, and never goes below nothing\<close>

definition bucket_ok :: "token_bucket \<Rightarrow> world \<Rightarrow> bool" where
  "bucket_ok b w \<longleftrightarrow>
     0 \<le> tb_tokens b \<and> tb_tokens b \<le> tb_capacity b \<and> 0 \<le> tb_fill_rate b \<and> tb_timestamp b \<le> fst w"

text \<open>What the bucket holds beyond what time has brought since \<open>t\<close>: only this can be consumed.\<close>

definition credit :: "token_bucket \<Rightarrow> rat" where
  "credit b = tb_tokens b - tb_fill_rate b * tb_timestamp b"

definition later :: "token_bucket \<times> world \<Rightarrow> token_bucket \<times> world \<Rightarrow> bool" where
  "later s s' \<longleftrightarrow>
     bucket_ok (fst s') (snd s') \<and> fst (snd s) \<le> fst (snd s')
       \<and> tb_capacity (fst s') = tb_capacity (fst s) \<and> tb_fill_rate (fst s') = tb_fill_rate (fst s)"

lemma later_trans: "later s s' \<Longrightarrow> later s' s'' \<Longrightarrow> later s s''"
  by (auto simp: later_def)

lemma refill_keeps:
  assumes "bucket_ok b w" and "\<forall>i. 0 \<le> lag i"
  shows "later (b, w) (refill lag b w)" and "credit (fst (refill lag b w)) \<le> credit b"
proof -
  have "0 \<le> lag (snd w)" using assms(2) by blast
  moreover from this assms(1) have "0 \<le> tb_fill_rate b * (fst w + lag (snd w) - tb_timestamp b)"
    by (auto simp: bucket_ok_def intro!: mult_nonneg_nonneg)
  ultimately show "later (b, w) (refill lag b w)" and "credit (fst (refill lag b w)) \<le> credit b"
    using assms(1)
    by (auto simp: later_def bucket_ok_def refill_def time_time_def credit_def Let_def algebra_simps min_def)
qed

lemma sleep_later:
  assumes "bucket_ok b w" and "0 \<le> delay" and "\<forall>i. 0 \<le> lag i"
  shows "later (b, w) (b, time_sleep lag delay w)"
  using assms(1,2) assms(3) [THEN spec, of "snd w"] by (auto simp: later_def bucket_ok_def time_sleep_def)

lemma wait_for_keeps:
  assumes "wait_for lag n b w = Some (r, b', w')" and "bucket_ok b w" and "\<forall>i. 0 \<le> lag i"
  shows "later (b, w) (b', w') \<and> credit b' \<le> credit b"
proof -
  have "bucket_ok b w \<longrightarrow> later (b, w) (snd y) \<and> credit (fst (snd y)) \<le> credit b"
    if "wait_for lag n b w = Some y" for y
  proof (rule wait_for.raw_induct [where
        P = "\<lambda>lag' n b w y. lag' = lag \<longrightarrow> bucket_ok b w \<longrightarrow>
               later (b, w) (snd y) \<and> credit (fst (snd y)) \<le> credit b", OF _ that, THEN mp, OF _ refl])
    fix wf :: "lag \<Rightarrow> rat \<Rightarrow> token_bucket \<Rightarrow> world \<Rightarrow> ((bucket_error + unit) \<times> token_bucket \<times> world) option"
      and lag' n b w y
    assume IH: "\<And>lag' n b w y. wf lag' n b w = Some y \<Longrightarrow> lag' = lag \<longrightarrow> bucket_ok b w \<longrightarrow>
                  later (b, w) (snd y) \<and> credit (fst (snd y)) \<le> credit b"
      and step: "(let b' = fst (refill lag' b w); w' = snd (refill lag' b w) in
          if tb_tokens b' < n then
            if tb_fill_rate b' = 0 then Some (Inl PyZeroDivision, b', w')
            else if (n - tb_tokens b') / tb_fill_rate b' < 0 then Some (Inl NegativeSleep, b', w')
            else wf lag' n b' (time_sleep lag' ((n - tb_tokens b') / tb_fill_rate b') w')
          else Some (Inr (), b', w')) = Some y"
    show "lag' = lag \<longrightarrow> bucket_ok b w \<longrightarrow> later (b, w) (snd y) \<and> credit (fst (snd y)) \<le> credit b"
    proof (intro impI)
      assume lag': "lag' = lag" and ok: "bucket_ok b w"
      obtain b1 w1 where r: "refill lag b w = (b1, w1)" by (cases "refill lag b w")
      have l1: "later (b, w) (b1, w1)" "credit b1 \<le> credit b"
        using refill_keeps [OF ok assms(3)] by (simp_all add: r)
      then have ok1: "bucket_ok b1 w1" by (simp add: later_def)
      let ?d = "(n - tb_tokens b1) / tb_fill_rate b1"
      consider "snd y = (b1, w1)"
        | "wf lag n b1 (time_sleep lag ?d w1) = Some y" "0 \<le> ?d"
        using step by (auto simp: lag' r Let_def split: if_splits)
      then show "later (b, w) (snd y) \<and> credit (fst (snd y)) \<le> credit b"
      proof cases
        case 2
        have s: "later (b1, w1) (b1, time_sleep lag ?d w1)" by (rule sleep_later [OF ok1 2(2) assms(3)])
        then have "bucket_ok b1 (time_sleep lag ?d w1)" by (simp add: later_def)
        with IH [OF 2(1)] have "later (b1, time_sleep lag ?d w1) (snd y)" "credit (fst (snd y)) \<le> credit b1"
          by blast+
        with s l1 show ?thesis by (meson later_trans order_trans)
      qed (use l1 in simp)
    qed
  qed
  with assms(1,2) show ?thesis by fastforce
qed

lemma take_tokens_keeps:
  assumes "take_tokens lag n b w = (ok, b', w')" and "bucket_ok b w" and "\<forall>i. 0 \<le> lag i" and "0 \<le> n"
  shows "later (b, w) (b', w') \<and> credit b' + (if ok then n else 0) \<le> credit b"
proof -
  obtain b1 w1 where r: "refill lag b w = (b1, w1)" by (cases "refill lag b w")
  have "later (b, w) (b1, w1)" "credit b1 \<le> credit b"
    using refill_keeps [OF assms(2,3)] by (simp_all add: r)
  then show ?thesis
    using assms(1,4) by (auto simp: take_tokens_def r Let_def later_def bucket_ok_def credit_def split: if_splits)
qed

lemma consume_keeps:
  assumes "consume lag n block b w = Some (r, b', w')" and "bucket_ok b w" and "\<forall>i. 0 \<le> lag i" and "0 \<le> n"
  shows "later (b, w) (b', w') \<and> credit b' + (if r = Inr True then n else 0) \<le> credit b"
proof -
  let ?first = "if block then wait_for lag n b w else Some (Inr (), b, w)"
  obtain r1 b1 w1 where first: "?first = Some (r1, b1, w1)"
    using assms(1) by (cases ?first) (auto simp: consume_def)
  have l1: "later (b, w) (b1, w1) \<and> credit b1 \<le> credit b"
    using first wait_for_keeps [OF _ assms(2,3)] assms(2) by (auto simp: later_def split: if_splits)
  show ?thesis
  proof (cases r1)
    case (Inl e)
    with assms(1) l1 show ?thesis unfolding consume_def first by auto
  next
    case (Inr u)
    obtain ok b2 w2 where t: "take_tokens lag n b1 w1 = (ok, b2, w2)" by (cases "take_tokens lag n b1 w1")
    with assms(1) have out: "r = Inr ok" "b' = b2" "w' = w2" unfolding consume_def first Inr by auto
    have "bucket_ok b1 w1" using l1 by (simp add: later_def)
    from take_tokens_keeps [OF t this assms(3,4)] l1 show ?thesis
      unfolding out by (auto intro: later_trans)
  qed
qed

lemma consume_all_keeps:
  assumes "consume_all lag calls g b w = Some (g', b', w')" and "bucket_ok b w" and "\<forall>i. 0 \<le> lag i"
    and "\<forall>(n, block) \<in> set calls. 0 \<le> n"
  shows "later (b, w) (b', w') \<and> credit b' + g' \<le> credit b + g"
  using assms
proof (induction calls arbitrary: g b w)
  case Nil
  then show ?case by (simp add: later_def)
next
  case (Cons c calls)
  obtain n block where c: "c = (n, block)" by fastforce
  obtain r b1 w1 where first: "consume lag n block b w = Some (r, b1, w1)"
    using Cons.prems(1) by (cases "consume lag n block b w") (auto simp: c)
  have l1: "later (b, w) (b1, w1) \<and> credit b1 + (if r = Inr True then n else 0) \<le> credit b"
    using consume_keeps [OF first Cons.prems(2,3)] Cons.prems(4) by (simp add: c)
  moreover have "later (b1, w1) (b', w') \<and> credit b' + g' \<le> credit b1 + (g + (if r = Inr True then n else 0))"
    using Cons.IH [of "g + (if r = Inr True then n else 0)" b1 w1] Cons.prems l1 first
    by (simp add: c later_def)
  ultimately show ?case by (auto intro: later_trans)
qed

text \<open>
  C35: A token bucket holds a rate from its creation on: through any sequence of calls of \<open>consume\<close>,
  blocking or not, whatever time they take, what is granted in all is at most the capacity and what the fill rate has
  brought since the bucket was made; and the bucket is never below nothing nor above its capacity.
\<close>
theorem token_bucket_bounds:
  assumes "consume_all lag calls 0 (token_bucket_init tokens fill_rate (fst w)) w = Some (granted, b, w')"
    and "0 \<le> tokens" and "0 \<le> fill_rate" and "\<forall>i. 0 \<le> lag i" and "\<forall>(n, block) \<in> set calls. 0 \<le> n"
  shows "granted \<le> tokens + fill_rate * (fst w' - fst w) \<and> 0 \<le> tb_tokens b \<and> tb_tokens b \<le> tokens"
proof -
  let ?b = "token_bucket_init tokens fill_rate (fst w)"
  have "bucket_ok ?b w" using assms(2,3) by (simp add: bucket_ok_def token_bucket_init_def)
  from consume_all_keeps [OF assms(1) this assms(4,5)]
  have l: "later (?b, w) (b, w')" and c: "credit b + granted \<le> credit ?b" by simp_all
  then have f: "tb_fill_rate b = fill_rate" and t: "tb_timestamp b \<le> fst w'"
    by (simp_all add: later_def bucket_ok_def token_bucket_init_def)
  have "fill_rate * tb_timestamp b \<le> fill_rate * fst w'" using t assms(3) by (rule mult_left_mono)
  moreover have "0 \<le> tb_tokens b" "tb_tokens b \<le> tokens"
    using l by (simp_all add: later_def bucket_ok_def token_bucket_init_def)
  ultimately show ?thesis
    using c by (simp add: credit_def f token_bucket_init_def algebra_simps)
qed

lemma token_bucket_bounds_witness:
  "case consume_all (\<lambda>_. 1) [(8, True), (5, True), (9, False)] 0 (token_bucket_init 10 2 0) (0, 0) of
     Some (granted, b, w') \<Rightarrow> granted = 13 \<and> granted \<le> 10 + 2 * fst w'
   | None \<Rightarrow> False"
proof -
  let ?run = "consume_all (\<lambda>_. 1) [(8, True), (5, True), (9, False)] 0
                (token_bucket_init 10 2 (fst (0 :: rat, 0 :: nat))) (0, 0)"
  obtain b w' where run: "?run = Some (13, b, w')"
    by (simp add: consume_def wait_for.simps take_tokens_def refill_def token_bucket_init_def Let_def
        time_time_def time_sleep_def)
  from token_bucket_bounds [OF this] run show ?thesis by simp
qed

subsection \<open>Waiting\<close>

text \<open>A refill after the sleep that the deficit asks for finds enough tokens.\<close>

lemma refill_after_sleep:
  assumes "bucket_ok b w" and "tb_timestamp b = fst w" and "0 < tb_fill_rate b"
    and "n \<le> tb_capacity b" and "\<forall>i. 0 \<le> lag i"
  shows "n \<le> tb_tokens (fst (refill lag b (time_sleep lag ((n - tb_tokens b) / tb_fill_rate b) w)))"
proof -
  have "0 \<le> tb_fill_rate b * (lag (snd w) + lag (Suc (snd w)))"
    using assms(3,5) by simp
  moreover have "tb_fill_rate b * ((n - tb_tokens b) / tb_fill_rate b) = n - tb_tokens b"
    using assms(3) by simp
  ultimately have "n \<le> tb_tokens b + tb_fill_rate b *
      (fst (time_time lag (time_sleep lag ((n - tb_tokens b) / tb_fill_rate b) w)) - tb_timestamp b)"
    using assms(2) by (simp add: time_time_def time_sleep_def distrib_left)
  then show ?thesis using assms(1,4) by (auto simp: refill_def Let_def bucket_ok_def)
qed

text \<open>A second look never finds less.\<close>

lemma refill_enough:
  assumes "bucket_ok b w" and "n \<le> tb_tokens b" and "\<forall>i. 0 \<le> lag i"
  shows "n \<le> tb_tokens (fst (refill lag b w))"
proof -
  have "0 \<le> tb_fill_rate b * (fst w + lag (snd w) - tb_timestamp b)"
    using assms(1) assms(3) [THEN spec, of "snd w"] by (auto simp: bucket_ok_def intro!: mult_nonneg_nonneg)
  then show ?thesis using assms(1,2) by (auto simp: refill_def time_time_def Let_def bucket_ok_def)
qed

lemma refill_stamp:
  "tb_tokens b < tb_capacity b \<Longrightarrow> tb_timestamp (fst (refill lag b w)) = fst (snd (refill lag b w))"
  by (simp add: refill_def Let_def)

lemma refill_steps: "snd (snd (refill lag b w)) \<le> Suc (snd w)"
  by (simp add: refill_def time_time_def Let_def)

lemma wait_for_enough:
  "refill lag b w = (b', w') \<Longrightarrow> n \<le> tb_tokens b' \<Longrightarrow> wait_for lag n b w = Some (Inr (), b', w')"
  by (subst wait_for.simps) (simp add: Let_def)

lemma wait_for_sleeps:
  assumes "refill lag b w = (b', w')" and "tb_tokens b' < n" and "0 < tb_fill_rate b'"
  shows "wait_for lag n b w = wait_for lag n b' (time_sleep lag ((n - tb_tokens b') / tb_fill_rate b') w')"
proof -
  have "\<not> (n - tb_tokens b') / tb_fill_rate b' < 0" "tb_fill_rate b' \<noteq> 0"
    using assms(2,3) by (simp_all add: divide_less_0_iff)
  with assms show ?thesis by (subst wait_for.simps) (simp only: fst_conv snd_conv Let_def if_True if_False)
qed

lemma wait_for_returns:
  assumes "bucket_ok b w" and "0 < tb_fill_rate b" and "n \<le> tb_capacity b" and "\<forall>i. 0 \<le> lag i"
  shows "\<exists>b' w'. wait_for lag n b w = Some (Inr (), b', w') \<and> n \<le> tb_tokens b' \<and> snd w' \<le> snd w + 3"
proof -
  obtain b1 w1 where r1: "refill lag b w = (b1, w1)" by (cases "refill lag b w")
  have l1: "later (b, w) (b1, w1)" using refill_keeps(1) [OF assms(1,4)] by (simp add: r1)
  have s1: "snd w1 \<le> Suc (snd w)" using refill_steps [of lag b w] by (simp add: r1)
  show ?thesis
  proof (cases "n \<le> tb_tokens b1")
    case True
    with s1 show ?thesis using wait_for_enough [OF r1] by simp
  next
    case False
    define w2 where "w2 = time_sleep lag ((n - tb_tokens b1) / tb_fill_rate b1) w1"
    have stamp: "tb_timestamp b1 = fst w1"
    proof (cases "tb_tokens b < tb_capacity b")
      case True
      then show ?thesis using refill_stamp [of b lag w] by (simp add: r1)
    next
      case False
      then have "b1 = b" using r1 by (simp add: refill_def)
      with False \<open>\<not> n \<le> tb_tokens b1\<close> assms(3) have False by (simp add: not_le not_less)
      then show ?thesis by simp
    qed
    have b1: "bucket_ok b1 w1" "0 < tb_fill_rate b1" "n \<le> tb_capacity b1"
      using l1 assms(2,3) by (simp_all add: later_def)
    obtain b3 w3 where r3: "refill lag b1 w2 = (b3, w3)" by (cases "refill lag b1 w2")
    have "n \<le> tb_tokens b3"
      using refill_after_sleep [OF b1(1) stamp b1(2,3) assms(4)] by (simp add: r3 w2_def [symmetric])
    moreover from this have "wait_for lag n b w = Some (Inr (), b3, w3)"
      using wait_for_sleeps [OF r1 _ b1(2)] wait_for_enough [OF r3] False by (simp add: w2_def)
    moreover have "snd w3 \<le> snd w + 3"
      using refill_steps [of lag b1 w2, unfolded r3] s1 by (simp add: w2_def time_sleep_def)
    ultimately show ?thesis by blast
  qed
qed

lemma wait_for_too_much:
  assumes "bucket_ok b w" and "0 < tb_fill_rate b" and "tb_capacity b < n" and "\<forall>i. 0 \<le> lag i"
  shows "wait_for lag n b w = None"
proof (rule ccontr)
  assume "wait_for lag n b w \<noteq> None"
  then obtain y where "wait_for lag n b w = Some y" by blast
  then have "lag = lag \<longrightarrow> bucket_ok b w \<longrightarrow> 0 < tb_fill_rate b \<longrightarrow> tb_capacity b < n \<longrightarrow> False"
  proof (rule wait_for.raw_induct [where
        P = "\<lambda>lag' n b w y. lag' = lag \<longrightarrow> bucket_ok b w \<longrightarrow> 0 < tb_fill_rate b \<longrightarrow> tb_capacity b < n \<longrightarrow> False",
        rotated])
    fix wf :: "lag \<Rightarrow> rat \<Rightarrow> token_bucket \<Rightarrow> world \<Rightarrow> ((bucket_error + unit) \<times> token_bucket \<times> world) option"
      and lag' n b w y
    assume IH: "\<And>lag' n b w y. wf lag' n b w = Some y \<Longrightarrow> lag' = lag \<longrightarrow> bucket_ok b w \<longrightarrow>
                  0 < tb_fill_rate b \<longrightarrow> tb_capacity b < n \<longrightarrow> False"
      and step: "(let b' = fst (refill lag' b w); w' = snd (refill lag' b w) in
          if tb_tokens b' < n then
            if tb_fill_rate b' = 0 then Some (Inl PyZeroDivision, b', w')
            else if (n - tb_tokens b') / tb_fill_rate b' < 0 then Some (Inl NegativeSleep, b', w')
            else wf lag' n b' (time_sleep lag' ((n - tb_tokens b') / tb_fill_rate b') w')
          else Some (Inr (), b', w')) = Some y"
    show "lag' = lag \<longrightarrow> bucket_ok b w \<longrightarrow> 0 < tb_fill_rate b \<longrightarrow> tb_capacity b < n \<longrightarrow> False"
    proof (intro impI)
      assume lag': "lag' = lag" and ok: "bucket_ok b w" "0 < tb_fill_rate b" "tb_capacity b < n"
      obtain b1 w1 where r: "refill lag b w = (b1, w1)" by (cases "refill lag b w")
      have l1: "later (b, w) (b1, w1)" using refill_keeps(1) [OF ok(1) assms(4)] by (simp add: r)
      then have b1: "bucket_ok b1 w1" "0 < tb_fill_rate b1" "tb_capacity b1 < n" "tb_tokens b1 < n"
        using ok by (auto simp: later_def bucket_ok_def)
      then have d: "0 \<le> (n - tb_tokens b1) / tb_fill_rate b1" by simp
      with step b1(2,4) have "wf lag n b1 (time_sleep lag ((n - tb_tokens b1) / tb_fill_rate b1) w1) = Some y"
        by (simp add: lag' r Let_def)
      moreover have "bucket_ok b1 (time_sleep lag ((n - tb_tokens b1) / tb_fill_rate b1) w1)"
        using sleep_later [OF b1(1) d assms(4)] by (simp add: later_def)
      ultimately show False using IH b1(2,3) by blast
    qed
  qed
  with assms(1-3) show False by blast
qed

text \<open>
  C36: A blocking \<open>consume\<close> of what fits in the bucket is granted, after at most one sleep (four steps of the
  world: two looks, the sleep between them and the last look); of more than the bucket can hold it never returns, since
  nothing compares the request with the capacity.
\<close>
theorem consume_waits:
  assumes "bucket_ok b w" and "0 < tb_fill_rate b" and "\<forall>i. 0 \<le> lag i"
  shows "(n \<le> tb_capacity b \<longrightarrow>
            (\<exists>b' w'. consume lag n True b w = Some (Inr True, b', w') \<and> snd w' \<le> snd w + 4))
         \<and> (consume lag n True b w = None \<longleftrightarrow> tb_capacity b < n)"
proof -
  have granted: "\<exists>b' w'. consume lag n True b w = Some (Inr True, b', w') \<and> snd w' \<le> snd w + 4"
    if "n \<le> tb_capacity b"
  proof -
    obtain b1 w1 where wt: "wait_for lag n b w = Some (Inr (), b1, w1)" and n: "n \<le> tb_tokens b1"
      and s: "snd w1 \<le> snd w + 3"
      using wait_for_returns [OF assms(1,2) \<open>n \<le> tb_capacity b\<close> assms(3)] by blast
    have "bucket_ok b1 w1" using wait_for_keeps [OF wt assms(1,3)] by (simp add: later_def)
    from refill_enough [OF this n assms(3)] refill_steps [of lag b1 w1] s show ?thesis
      by (simp add: consume_def wt take_tokens_def Let_def)
  qed
  moreover have "consume lag n True b w = None" if "tb_capacity b < n"
    using wait_for_too_much [OF assms(1,2) that assms(3)] by (simp add: consume_def)
  ultimately show ?thesis by fastforce
qed

lemma consume_waits_witness:
  "(\<exists>b' w'. consume (\<lambda>_. 0) 7 True (token_bucket_init 10 2 0) (0, 0) = Some (Inr True, b', w'))
   \<and> consume (\<lambda>_. 0) 11 True (token_bucket_init 10 2 0) (0, 0) = None"
proof -
  have ok: "bucket_ok (token_bucket_init 10 2 0) (0, 0)" "0 < tb_fill_rate (token_bucket_init 10 2 0)"
    by (simp_all add: bucket_ok_def token_bucket_init_def)
  show ?thesis
    using consume_waits [OF ok, of "\<lambda>_. 0" 7] consume_waits [OF ok, of "\<lambda>_. 0" 11]
    by (auto simp: token_bucket_init_def)
qed

text \<open>
  A bucket that is full does not move its timestamp, so that what time brings while it is full is not lost:
  after an idle time of at least \<open>capacity / fill_rate\<close> two capacities are granted without any time between.
\<close>
lemma two_capacities_at_once:
  assumes "0 < c" and "0 < r" and "c / r \<le> fst w"
  shows "\<exists>b. consume_all (\<lambda>_. 0) [(c, False), (c, False)] 0 (token_bucket_init c r 0) w
               = Some (2 * c, b, (fst w, Suc (snd w)))"
proof -
  have "c \<le> r * fst w" using assms(2,3) by (simp add: field_simps)
  then show ?thesis
    using assms(1)
    by (auto simp: consume_def take_tokens_def refill_def token_bucket_init_def Let_def time_time_def)
qed

end
