(* ===== verification/ExecuteLocks.thy ===== *)
theory ExecuteLocks
  imports Prelude
begin

text \<open>
  The locks around the loading of executables: \<open>__flood_execute_lock\<close> (\<open>transceiver/base_transceiver.py\<close>), under which
  a binary is flooded to all chips, and \<open>_chip_execute_lock\<close> (\<open>extended/extended_transceiver.py\<close>), under which one is
  started on a chip. Threads are numbers and run one step at a time, in any order. A step is what a thread does between
  two points where it may have to wait: a \<open>with\<close> block on the condition that does not wait inside is one
  step, which needs the condition to be free; a flood keeps the condition for as long as it runs.
\<close>

text \<open>The key \<open>[x, y]\<close> of the dictionary of locks.\<close>

datatype chip_at = Chip int int

datatype place =
    Outside
  | AtChip chip_at          \<comment> \<open>has looked the lock of the chip up\<close>
  | HasChip chip_at         \<comment> \<open>has acquired it\<close>
  | InChip chip_at          \<comment> \<open>is counted, and runs the body of the context\<close>
  | FloodWaiting            \<comment> \<open>waits for the condition to be notified\<close>
  | FloodNotified           \<comment> \<open>has been notified, and has yet to look at the count\<close>
  | InFlood                 \<comment> \<open>runs the body of the context\<close>

record locks =
  lk_holder :: "nat option"
  lk_count :: int
  lk_chip :: "chip_at \<Rightarrow> nat option"
  lk_place :: "nat \<Rightarrow> place"

definition locks_init :: locks where
  "locks_init = \<lparr>lk_holder = None, lk_count = 0, lk_chip = (\<lambda>_. None), lk_place = (\<lambda>_. Outside)\<rparr>"

definition goes :: "nat \<Rightarrow> place \<Rightarrow> locks \<Rightarrow> locks" where
  "goes t pl s = s\<lparr>lk_place := (lk_place s)(t := pl)\<rparr>"

definition notify_all :: "locks \<Rightarrow> locks" where
  "notify_all s = s\<lparr>lk_place := (\<lambda>t. if lk_place s t = FloodWaiting then FloodNotified else lk_place s t)\<rparr>"

subsection \<open>The steps of \<open>_chip_execute_lock\<close>\<close>

definition acquire_chip :: "nat \<Rightarrow> chip_at \<Rightarrow> locks \<Rightarrow> locks" where
  "acquire_chip t c s = goes t (HasChip c) (s\<lparr>lk_chip := (lk_chip s)(c := Some t)\<rparr>)"

definition count_chip :: "nat \<Rightarrow> chip_at \<Rightarrow> locks \<Rightarrow> locks" where
  "count_chip t c s = goes t (InChip c) (s\<lparr>lk_count := lk_count s + 1\<rparr>)"

definition leave_chip :: "nat \<Rightarrow> chip_at \<Rightarrow> locks \<Rightarrow> locks" where
  "leave_chip t c s =
     notify_all (goes t Outside (s\<lparr>lk_chip := (lk_chip s)(c := None), lk_count := lk_count s - 1\<rparr>))"

subsection \<open>The steps of \<open>__flood_execute_lock\<close>\<close>

text \<open>\<open>wait_for\<close>: with the condition held, the predicate decides between going in and waiting, which lets it go.\<close>

definition wait_for_none :: "nat \<Rightarrow> locks \<Rightarrow> locks" where
  "wait_for_none t s =
     (if lk_count s < 1 then goes t InFlood (s\<lparr>lk_holder := Some t\<rparr>) else goes t FloodWaiting s)"

definition leave_flood :: "nat \<Rightarrow> locks \<Rightarrow> locks" where
  "leave_flood t s = goes t Outside (s\<lparr>lk_holder := None\<rparr>)"

inductive lock_step :: "nat \<Rightarrow> locks \<Rightarrow> locks \<Rightarrow> bool" where
  look_up: "lk_holder s = None \<Longrightarrow> lk_place s t = Outside \<Longrightarrow> lock_step t s (goes t (AtChip c) s)"
| acquire: "lk_place s t = AtChip c \<Longrightarrow> lk_chip s c = None \<Longrightarrow> lock_step t s (acquire_chip t c s)"
| counted: "lk_holder s = None \<Longrightarrow> lk_place s t = HasChip c \<Longrightarrow> lock_step t s (count_chip t c s)"
| left_chip: "lk_holder s = None \<Longrightarrow> lk_place s t = InChip c \<Longrightarrow> lock_step t s (leave_chip t c s)"
| flood: "lk_holder s = None \<Longrightarrow> lk_place s t = Outside \<or> lk_place s t = FloodNotified \<Longrightarrow>
            lock_step t s (wait_for_none t s)"
| left_flood: "lk_place s t = InFlood \<Longrightarrow> lock_step t s (leave_flood t s)"

inductive reachable :: "locks \<Rightarrow> bool" where
  initially: "reachable locks_init"
| step: "reachable s \<Longrightarrow> lock_step t s s' \<Longrightarrow> reachable s'"

subsection \<open>The invariant\<close>

definition in_chip :: "locks \<Rightarrow> nat set" where
  "in_chip s = {t. \<exists>c. lk_place s t = InChip c}"

text \<open>
  The condition is held by the flood that runs; the lock of a chip by the one thread that has acquired it; the
  count is the number of threads that run on a chip, none of them beside a flood; and a flood only waits while
  something runs that will notify it.
\<close>

definition lock_inv :: "locks \<Rightarrow> bool" where
  "lock_inv s \<longleftrightarrow>
     (\<forall>t. lk_place s t = InFlood \<longleftrightarrow> lk_holder s = Some t) \<and>
     (\<forall>t c. lk_chip s c = Some t \<longleftrightarrow> lk_place s t = HasChip c \<or> lk_place s t = InChip c) \<and>
     finite (in_chip s) \<and> lk_count s = int (card (in_chip s)) \<and>
     (lk_holder s \<noteq> None \<longrightarrow> in_chip s = {}) \<and>
     ((\<exists>t. lk_place s t = FloodWaiting) \<longrightarrow> in_chip s \<noteq> {})"

lemma lock_invI:
  assumes "\<And>t. lk_place s t = InFlood \<longleftrightarrow> lk_holder s = Some t"
    and "\<And>t c. lk_chip s c = Some t \<longleftrightarrow> lk_place s t = HasChip c \<or> lk_place s t = InChip c"
    and "finite (in_chip s)" and "lk_count s = int (card (in_chip s))"
    and "lk_holder s \<noteq> None \<Longrightarrow> in_chip s = {}"
    and "\<And>t. lk_place s t = FloodWaiting \<Longrightarrow> in_chip s \<noteq> {}"
  shows "lock_inv s"
  using assms unfolding lock_inv_def by blast

lemma lock_invD:
  assumes "lock_inv s"
  shows "lk_place s t = InFlood \<longleftrightarrow> lk_holder s = Some t"
    and "lk_chip s c = Some t \<longleftrightarrow> lk_place s t = HasChip c \<or> lk_place s t = InChip c"
    and "finite (in_chip s)" and "lk_count s = int (card (in_chip s))"
    and "lk_holder s \<noteq> None \<Longrightarrow> in_chip s = {}"
    and "lk_place s t = FloodWaiting \<Longrightarrow> in_chip s \<noteq> {}"
  using assms unfolding lock_inv_def by blast+

lemma in_chip_goes:
  "in_chip (goes t pl s) = (if \<exists>c. pl = InChip c then insert t (in_chip s) else in_chip s - {t})"
  by (auto simp: in_chip_def goes_def)

lemma in_chip_notify [simp]: "in_chip (notify_all s) = in_chip s"
  by (auto simp: in_chip_def notify_all_def)

lemma in_chip_updates [simp]:
  "in_chip (s\<lparr>lk_holder := h\<rparr>) = in_chip s" "in_chip (s\<lparr>lk_count := n\<rparr>) = in_chip s"
  "in_chip (s\<lparr>lk_chip := f\<rparr>) = in_chip s" "in_chip (s\<lparr>lk_chip := f, lk_count := n\<rparr>) = in_chip s"
  by (simp_all add: in_chip_def)

lemma not_in_chip: "\<forall>c. lk_place s t \<noteq> InChip c \<Longrightarrow> in_chip s - {t} = in_chip s"
  by (auto simp: in_chip_def)

lemma lock_step_inv:
  assumes "lock_step t s s'" and inv: "lock_inv s"
  shows "lock_inv s'"
  using assms(1)
proof (cases rule: lock_step.cases)
  case (look_up c)
  then have "in_chip s' = in_chip s" by (simp add: in_chip_goes not_in_chip)
  with look_up lock_invD [OF inv] lock_invD(1) [OF inv, of t] show ?thesis by (intro lock_invI) (auto simp: goes_def split: if_splits)
next
  case (acquire c)
  then have "in_chip s' = in_chip s" by (simp add: acquire_chip_def in_chip_goes not_in_chip)
  moreover have "lk_place s u \<noteq> HasChip c" "lk_place s u \<noteq> InChip c" for u
    using lock_invD(2) [OF inv, of c u] acquire by auto
  ultimately show ?thesis
    using acquire lock_invD [OF inv] lock_invD(1) [OF inv, of t] by (intro lock_invI) (auto simp: acquire_chip_def goes_def split: if_splits)
next
  case (counted c)
  then have "in_chip s' = insert t (in_chip s)" by (simp add: count_chip_def in_chip_goes)
  moreover have "t \<notin> in_chip s" using counted by (simp add: in_chip_def)
  ultimately have "lk_count s' = int (card (in_chip s'))" "finite (in_chip s')" "in_chip s' \<noteq> {}"
    using counted lock_invD(3,4) [OF inv] by (simp_all add: count_chip_def goes_def)
  with counted lock_invD [OF inv] lock_invD(1) [OF inv, of t] show ?thesis
    by (intro lock_invI) (auto simp: count_chip_def goes_def split: if_splits)
next
  case (left_chip c)
  then have out: "in_chip s' = in_chip s - {t}" by (simp add: leave_chip_def in_chip_goes)
  have inside: "t \<in> in_chip s" using left_chip by (auto simp: in_chip_def)
  have own: "u = t" if "lk_place s u = HasChip c \<or> lk_place s u = InChip c" for u
    using lock_invD(2) [OF inv, of c u] lock_invD(2) [OF inv, of c t] that left_chip by auto
  have "lk_count s' = lk_count s - 1" using left_chip by (simp add: leave_chip_def goes_def notify_all_def)
  then have "lk_count s' = int (card (in_chip s'))"
    unfolding out using card.remove [OF lock_invD(3) [OF inv] inside] lock_invD(4) [OF inv] by simp
  moreover have "lk_chip s' d = Some u \<longleftrightarrow> lk_place s' u = HasChip d \<or> lk_place s' u = InChip d" for u d
    using left_chip own lock_invD(2) [OF inv, of d u] by (auto simp: leave_chip_def goes_def notify_all_def)
  moreover have "lk_place s' u \<noteq> FloodWaiting" for u
    using left_chip by (simp add: leave_chip_def goes_def notify_all_def)
  moreover have "lk_place s' u = InFlood \<longleftrightarrow> lk_holder s' = Some u" for u
    using left_chip lock_invD(1) [OF inv, of u] by (auto simp: leave_chip_def goes_def notify_all_def)
  moreover have "lk_holder s' = None"
    using left_chip by (simp add: leave_chip_def goes_def notify_all_def)
  ultimately show ?thesis using out lock_invD(3) [OF inv] by (intro lock_invI) auto
next
  case flood
  then have "t \<notin> in_chip s" by (auto simp: in_chip_def)
  then have same: "in_chip s' = in_chip s" using flood by (simp add: wait_for_none_def in_chip_goes)
  show ?thesis
  proof (cases "lk_count s < 1")
    case True
    then have "in_chip s = {}" using lock_invD(3,4) [OF inv] by simp
    with True same flood lock_invD [OF inv] show ?thesis
      by (intro lock_invI) (auto simp: wait_for_none_def goes_def split: if_splits)
  next
    case False
    then have "in_chip s \<noteq> {}" using lock_invD(4) [OF inv] by auto
    with False same flood lock_invD [OF inv] show ?thesis
      by (intro lock_invI) (auto simp: wait_for_none_def goes_def split: if_splits)
  qed
next
  case left_flood
  then have same: "in_chip s' = in_chip s" by (simp add: leave_flood_def in_chip_goes not_in_chip)
  have "lk_holder s = Some t" using left_flood lock_invD(1) [OF inv] by simp
  then have "lk_place s u \<noteq> InFlood" if "u \<noteq> t" for u using lock_invD(1) [OF inv, of u] that by simp
  then have "lk_place s' u \<noteq> InFlood" "lk_holder s' = None" for u
    using left_flood by (auto simp: leave_flood_def goes_def)
  moreover have "lk_chip s' c = Some u \<longleftrightarrow> lk_place s' u = HasChip c \<or> lk_place s' u = InChip c" for u c
    using left_flood lock_invD(2) [OF inv, of c u] by (auto simp: leave_flood_def goes_def)
  moreover have "lk_count s' = lk_count s" using left_flood by (simp add: leave_flood_def goes_def)
  moreover have "lk_place s' u = FloodWaiting \<Longrightarrow> in_chip s' \<noteq> {}" for u
    using left_flood lock_invD(6) [OF inv, of u] unfolding same
    by (auto simp: leave_flood_def goes_def split: if_splits)
  ultimately show ?thesis
    using lock_invD(3,4) [OF inv] unfolding same [symmetric] by (intro lock_invI) auto
qed

lemma reachable_inv: "reachable s \<Longrightarrow> lock_inv s"
proof (induction rule: reachable.induct)
  case initially
  show ?case by (intro lock_invI) (auto simp: locks_init_def in_chip_def)
qed (rule lock_step_inv)

text \<open>Whoever is not outside, some such thread can go on.\<close>

lemma can_go_on: "lock_step u s s' \<Longrightarrow> lk_place s u \<noteq> Outside \<Longrightarrow> \<exists>u s'. lk_place s u \<noteq> Outside \<and> lock_step u s s'"
  by blast

lemma lock_progress:
  assumes inv: "lock_inv s" and t: "lk_place s t \<noteq> Outside"
  shows "\<exists>u s'. lk_place s u \<noteq> Outside \<and> lock_step u s s'"
proof (cases "lk_holder s")
  case (Some u)
  then have "lk_place s u = InFlood" using lock_invD(1) [OF inv] by simp
  then show ?thesis by (intro can_go_on [OF lock_step.left_flood]) auto
next
  case None
  have chip: ?thesis if "lk_place s u = HasChip c \<or> lk_place s u = InChip c" for u c
    using that
  proof
    assume "lk_place s u = HasChip c"
    then show ?thesis by (intro can_go_on [OF lock_step.counted [OF None]]) auto
  next
    assume "lk_place s u = InChip c"
    then show ?thesis by (intro can_go_on [OF lock_step.left_chip [OF None]]) auto
  qed
  show ?thesis
  proof (cases "lk_place s t")
    case (AtChip c)
    then show ?thesis
    proof (cases "lk_chip s c")
      case None
      with AtChip show ?thesis by (intro can_go_on [OF lock_step.acquire]) auto
    next
      case (Some u)
      then show ?thesis using lock_invD(2) [OF inv, of c u] chip by blast
    qed
  next
    case FloodWaiting
    then obtain u c where "lk_place s u = InChip c" using lock_invD(6) [OF inv, of t] by (auto simp: in_chip_def)
    then show ?thesis using chip by blast
  next
    case FloodNotified
    then show ?thesis by (intro can_go_on [OF lock_step.flood [OF None]]) auto
  next
    case InFlood
    then show ?thesis using lock_invD(1) [OF inv, of t] None by simp
  qed (use t chip in auto)
qed

subsection \<open>Properties\<close>

text \<open>
  C24: Executables are loaded without disturbing each other, in every interleaving of the threads: while a
  flood runs, no other flood runs and nothing runs on any chip; on one chip at most one thread runs; and the locks never
  block all of the threads that are inside, so that in particular a flood that waits is not forgotten: whoever keeps
  it waiting can go on, and notifies it when it leaves.
\<close>
theorem execute_locks_safe:
  assumes "reachable s"
  shows "(lk_place s t = InFlood \<longrightarrow> (\<forall>u c. lk_place s u \<noteq> InChip c) \<and> (\<forall>u. lk_place s u = InFlood \<longrightarrow> u = t))
         \<and> (lk_place s t = InChip c \<and> lk_place s u = InChip c \<longrightarrow> t = u)
         \<and> (lk_place s t \<noteq> Outside \<longrightarrow> (\<exists>v s'. lk_place s v \<noteq> Outside \<and> lock_step v s s'))"
proof (intro conjI impI)
  note inv = reachable_inv [OF assms]
  assume "lk_place s t = InFlood"
  then have "lk_holder s = Some t" using lock_invD(1) [OF inv] by simp
  then show "\<forall>u c. lk_place s u \<noteq> InChip c" and "\<forall>u. lk_place s u = InFlood \<longrightarrow> u = t"
    using lock_invD(5) [OF inv] lock_invD(1) [OF inv] by (auto simp: in_chip_def)
next
  assume "lk_place s t = InChip c \<and> lk_place s u = InChip c"
  then show "t = u"
    using lock_invD(2) [OF reachable_inv [OF assms], of c t] lock_invD(2) [OF reachable_inv [OF assms], of c u]
    by simp
next
  assume "lk_place s t \<noteq> Outside"
  then show "\<exists>v s'. lk_place s v \<noteq> Outside \<and> lock_step v s s'" by (rule lock_progress [OF reachable_inv [OF assms]])
qed

text \<open>A thread runs on chip (0, 0), and a flood waits for it.\<close>

definition sample_locks :: locks where
  "sample_locks =
     (let s1 = goes 0 (AtChip (Chip 0 0)) locks_init; s2 = acquire_chip 0 (Chip 0 0) s1;
          s3 = count_chip 0 (Chip 0 0) s2 in wait_for_none 1 s3)"

lemma sample_locks_reachable: "reachable sample_locks"
  unfolding sample_locks_def Let_def
  by (intro reachable.step [OF _ lock_step.flood] reachable.step [OF _ lock_step.counted]
      reachable.step [OF _ lock_step.acquire] reachable.step [OF _ lock_step.look_up] reachable.initially)
    (simp_all add: locks_init_def goes_def acquire_chip_def count_chip_def)

lemma execute_locks_safe_witness:
  "lk_place sample_locks 1 = FloodWaiting \<and> (\<exists>v s'. lk_place sample_locks v \<noteq> Outside \<and> lock_step v sample_locks s')"
proof -
  have "lk_place sample_locks 1 = FloodWaiting"
    by (simp add: sample_locks_def Let_def locks_init_def goes_def acquire_chip_def count_chip_def wait_for_none_def)
  with execute_locks_safe [OF sample_locks_reachable, of 1] show ?thesis by simp
qed

end
