(* ===== verification/EieioRequests.thy ===== *)
theory EieioRequests
  imports EieioCommand
begin

text \<open>
  The requests and acknowledgements of the buffered output as their callers use them
  (\<open>messages/eieio/command_messages/spinnaker_request_read_data.py\<close>, \<open>host_data_read.py\<close>): the constructors, which
  take one value or a list of values, and the accessors of the value for one request.
\<close>

datatype one_or_many = One int | Many "int list"

fun as_list :: "one_or_many \<Rightarrow> int list" where
  "as_list (One v) = [v]"
| "as_list (Many vs) = vs"

text \<open>\<open>xs[i]\<close>: a negative index counts from the end.\<close>

definition py_index :: "int list \<Rightarrow> int \<Rightarrow> int res" where
  "py_index xs i =
     (if 0 \<le> i \<and> i < int (length xs) then Inr (xs ! nat i)
      else if - int (length xs) \<le> i \<and> i < 0 then Inr (xs ! nat (int (length xs) + i))
      else Inl PyIndexError)"

text \<open>The accessors only compare the index with the length.\<close>

definition request_item :: "int list \<Rightarrow> int \<Rightarrow> int res" where
  "request_item xs i = (if int (length xs) > i then py_index xs i else Inl (InvalidParameterType ''request_id''))"

subsection \<open>\<open>SpinnakerRequestReadData\<close>\<close>

definition make_request_read_data ::
  "int \<Rightarrow> int \<Rightarrow> int \<Rightarrow> one_or_many \<Rightarrow> int \<Rightarrow> int \<Rightarrow> one_or_many \<Rightarrow> one_or_many \<Rightarrow> one_or_many \<Rightarrow>
     request_read_data res" where
  "make_request_read_data x y p region_id sequence_no n_requests channel start_address space_to_be_read =
     request_read_data_init x y p (as_list region_id) sequence_no n_requests (as_list channel)
       (as_list start_address) (as_list space_to_be_read)"

definition rrd_channel_for :: "request_read_data \<Rightarrow> int \<Rightarrow> int res" where
  "rrd_channel_for r request_id = request_item (rrd_channel r) request_id"

definition rrd_region_id_for :: "request_read_data \<Rightarrow> int \<Rightarrow> int res" where
  "rrd_region_id_for r request_id = request_item (rrd_region_id r) request_id"

definition rrd_start_address_for :: "request_read_data \<Rightarrow> int \<Rightarrow> int res" where
  "rrd_start_address_for r request_id = request_item (rrd_start_address r) request_id"

definition rrd_space_to_be_read_for :: "request_read_data \<Rightarrow> int \<Rightarrow> int res" where
  "rrd_space_to_be_read_for r request_id = request_item (rrd_space_to_be_read r) request_id"

subsection \<open>\<open>HostDataRead\<close>\<close>

definition make_host_data_read ::
  "int \<Rightarrow> int \<Rightarrow> one_or_many \<Rightarrow> one_or_many \<Rightarrow> one_or_many \<Rightarrow> host_data_read res" where
  "make_host_data_read n_requests sequence_no channel region_id space_read =
     host_data_read_init n_requests sequence_no (as_list channel) (as_list region_id) (as_list space_read)"

definition hd_channel_for :: "host_data_read \<Rightarrow> int \<Rightarrow> int res" where
  "hd_channel_for r ack_id = request_item (hd_channel r) ack_id"

definition hd_region_id_for :: "host_data_read \<Rightarrow> int \<Rightarrow> int res" where
  "hd_region_id_for r ack_id = request_item (hd_region_id r) ack_id"

definition hd_space_read_for :: "host_data_read \<Rightarrow> int \<Rightarrow> int res" where
  "hd_space_read_for r ack_id = request_item (hd_space_read r) ack_id"

subsection \<open>What the accessors return\<close>

text \<open>The serialiser counts from 0: what it reads is what the accessors return.\<close>

lemma request_item_nat: "request_item xs (int i) = list_item xs i"
  by (simp add: request_item_def list_item_def py_index_def)

text \<open>
  The exception that is raised depends on the side of the range: a negative number is not refused but counts from
  the end, and only when it is too small raises the \<open>IndexError\<close> that the documentation names.
\<close>

lemma request_item_cases:
  "request_item xs i =
     (if i \<ge> int (length xs) then Inl (InvalidParameterType ''request_id'')
      else if i \<ge> 0 then Inr (xs ! nat i)
      else if i \<ge> - int (length xs) then Inr (xs ! (length xs - nat (- i)))
      else Inl PyIndexError)"
  by (auto simp: request_item_def py_index_def nat_diff_distrib intro!: arg_cong [where f = "(!) xs"])

text \<open>A message that was made has one value of each kind for each of its requests, and no more.\<close>

lemma made_requests:
  assumes "make_request_read_data x y p region_id sequence_no n channel start_address space = Inr r"
  shows "(\<exists>v. rrd_channel_for r i = Inr v) \<longleftrightarrow> - n \<le> i \<and> i < n"
    and "(\<exists>v. rrd_region_id_for r i = Inr v) \<longleftrightarrow> - n \<le> i \<and> i < n"
    and "(\<exists>v. rrd_start_address_for r i = Inr v) \<longleftrightarrow> - n \<le> i \<and> i < n"
    and "(\<exists>v. rrd_space_to_be_read_for r i = Inr v) \<longleftrightarrow> - n \<le> i \<and> i < n"
  using assms
  by (auto simp: make_request_read_data_def request_read_data_init_def rrd_channel_for_def rrd_region_id_for_def
      rrd_start_address_for_def rrd_space_to_be_read_for_def request_item_cases split: if_splits)

lemma made_acks:
  assumes "make_host_data_read n sequence_no channel region_id space_read = Inr r"
  shows "(\<exists>v. hd_channel_for r i = Inr v) \<longleftrightarrow> - n \<le> i \<and> i < n"
    and "(\<exists>v. hd_region_id_for r i = Inr v) \<longleftrightarrow> - n \<le> i \<and> i < n"
    and "(\<exists>v. hd_space_read_for r i = Inr v) \<longleftrightarrow> - n \<le> i \<and> i < n"
  using assms
  by (auto simp: make_host_data_read_def host_data_read_init_def hd_channel_for_def hd_region_id_for_def
      hd_space_read_for_def request_item_cases split: if_splits)

text \<open>Values that are not in a list make a message of exactly one request.\<close>

lemma single_values:
  "(\<exists>r. make_request_read_data x y p (One g) sequence_no n (One c) (One a) (One s) = Inr r) \<longleftrightarrow> n = 1"
  "(\<exists>r. make_host_data_read n sequence_no (One c) (One g) (One s) = Inr r) \<longleftrightarrow> n = 1"
  by (auto simp: make_request_read_data_def request_read_data_init_def make_host_data_read_def host_data_read_init_def)

end
