(* ===== verification/PacketConnections.thy ===== *)
theory PacketConnections
  imports UdpConnection DataView EieioDataProps EieioCommandProps
begin

text \<open>
  The kinds of UDP connection (\<open>connections/udp_packet_connections\<close>): what their constructors make of a socket,
  reception with the sender's address, and how an EIEIO connection tells commands from data.
\<close>

subsection \<open>Constructors\<close>

definition sdp_connection_init ::
  "udp_calls \<Rightarrow> int option \<Rightarrow> int option \<Rightarrow> string option \<Rightarrow> int option \<Rightarrow> string option \<Rightarrow> int option \<Rightarrow>
     (sdp_connection \<times> udp_connection) res" where
  "sdp_connection_init calls chip_x chip_y local_host local_port remote_host remote_port =
     bind_res (udp_connection_init calls local_host local_port remote_host remote_port) (\<lambda>u.
       Inr (\<lparr>sdpc_chip_x = chip_x, sdpc_chip_y = chip_y\<rparr>, u))"

text \<open>A SCAMP connection is to the SCP port, and to the default chip, unless told otherwise.\<close>

definition scamp_connection_init ::
  "udp_calls \<Rightarrow> int \<Rightarrow> int \<Rightarrow> string option \<Rightarrow> int option \<Rightarrow> string option \<Rightarrow> int option \<Rightarrow>
     (sdp_connection \<times> udp_connection) res" where
  "scamp_connection_init calls chip_x chip_y local_host local_port remote_host remote_port =
     sdp_connection_init calls (Some chip_x) (Some chip_y) local_host local_port remote_host
       (Some (case remote_port of None \<Rightarrow> SCP_SCAMP_PORT | Some p \<Rightarrow> p))"

text \<open>A BMP connection also keeps its boards; \<open>text_of\<close> writes the address.\<close>

definition bmp_connection_init ::
  "udp_calls \<Rightarrow> (int list \<Rightarrow> string) \<Rightarrow> bmp_connection_data \<Rightarrow> (int list \<times> udp_connection) res" where
  "bmp_connection_init calls text_of connection_data =
     (let port = (case bmp_port_num connection_data of None \<Rightarrow> SCP_SCAMP_PORT | Some p \<Rightarrow> p)
      in bind_res (udp_connection_init calls None None (Some (text_of (bmp_ip_address connection_data))) (Some port))
           (\<lambda>u. Inr (bmp_boards connection_data, u)))"

definition boot_connection_init :: "udp_calls \<Rightarrow> string option \<Rightarrow> udp_connection res" where
  "boot_connection_init calls remote_host =
     udp_connection_init calls None None remote_host (Some UDP_BOOT_CONNECTION_DEFAULT_PORT)"

definition ip_addresses_connection_init :: "udp_calls \<Rightarrow> string option \<Rightarrow> int \<Rightarrow> udp_connection res" where
  "ip_addresses_connection_init calls local_host local_port =
     udp_connection_init calls local_host (Some local_port) None None"

definition receive_scp_response_with_address ::
  "(bytes \<times> string \<times> int) syscall \<Rightarrow> udp_connection \<Rightarrow> (scp_result \<times> int \<times> bytes \<times> nat \<times> string \<times> int) res" where
  "receive_scp_response_with_address r c =
     bind_res (udp_receive_with_address r c) (\<lambda>(data, addr, port).
     bind_res (receive_scp_response (Datagram data)) (\<lambda>(result, sequence, data', offset).
       Inr (result, sequence, data', offset, addr, port)))"

text \<open>Which of them can send: those that know a host at the other end.\<close>

lemma udp_init_can_send:
  "udp_connection_init calls lh lp rh rp = Inr u \<Longrightarrow>
     udp_can_send u = (rh \<noteq> None \<and> rp \<noteq> None) \<and> udp_remote_port u = (if rh = None then None else rp) \<and> \<not> udp_closed u"
  by (cases rh; cases rp) (auto simp: udp_connection_init_def split: option.splits prod.splits)

lemma connections_send:
  "scamp_connection_init calls x y lh lp rh rp = Inr (c, u) \<Longrightarrow> udp_can_send u = (rh \<noteq> None)"
  "bmp_connection_init calls text_of data = Inr (bs, v) \<Longrightarrow> udp_can_send v"
  "boot_connection_init calls rh = Inr b \<Longrightarrow> udp_can_send b = (rh \<noteq> None)"
  "ip_addresses_connection_init calls lh port = Inr i \<Longrightarrow> \<not> udp_can_send i"
  by (auto simp: scamp_connection_init_def sdp_connection_init_def bmp_connection_init_def boot_connection_init_def
      ip_addresses_connection_init_def Let_def dest: udp_init_can_send)

subsection \<open>Commands and data on one connection\<close>

text \<open>The two bits above the others of the first word, as they leave the two serialisers.\<close>

lemma first_word:
  assumes "length a = 2"
  shows "struct_unpack_from Little ONE_SHORT (a @ rest) 0 = Inr [le_val a]"
  using assms by (simp add: layout struct_unpack_from_def unpack_from_def as_int_def order_bytes_def)

lemma data_word:
  assumes "eieio_header_wf h" and "struct_pack Little [FB, FB] [edh_count h, eieio_flags h] = Inr a"
  shows "le_val a AND 0xC000 \<noteq> 0x4000"
proof
  have t: "0 \<le> edh_tag h" "edh_tag h \<le> 3" and c: "0 \<le> edh_count h" "edh_count h < 2 ^ 8"
    using assms(1) by (simp_all add: eieio_header_wf_def)
  note fl = eieio_flags_fields [OF t]
  have "le_val a = push_bit 8 (eieio_flags h) OR edh_count h"
  proof -
    have "le_val a = edh_count h + 256 * eieio_flags h"
      using assms(2) c fl(1,2)
      by (auto simp: struct_pack_def order_bytes_def uint_word_of_int take_bit_eq_mod)
    also have "\<dots> = push_bit 8 (eieio_flags h) + take_bit 8 (edh_count h)"
      using c by (simp add: push_bit_eq_mult take_bit_int_eq_self)
    also have "\<dots> = push_bit 8 (eieio_flags h) OR take_bit 8 (edh_count h)"
      by (rule disjunctive_add) (auto simp: bit_push_bit_iff bit_take_bit_iff)
    finally show ?thesis using c by (simp add: take_bit_int_eq_self)
  qed
  then have high: "bit (le_val a) (8 + n) = bit (eieio_flags h) n" for n
    using c bit_bounded [of "edh_count h" 8 "8 + n"] by (auto simp: bit_or_iff bit_push_bit_iff)
  assume "le_val a AND 0xC000 = 0x4000"
  then have "bit (le_val a AND 0xC000) 14 = bit (0x4000 :: int) 14" "bit (le_val a AND 0xC000) 15 = bit (0x4000 :: int) 15"
    by simp_all
  then have "bit (eieio_flags h) 6" "\<not> bit (eieio_flags h) 7"
    using high [of 6] high [of 7] by (simp_all add: bit_and_iff)
  moreover have "bit (eieio_flags h) n = odd (drop_bit n (eieio_flags h) AND 1)" for n
    by (simp add: bit_iff_odd_drop_bit and_one_eq)
  ultimately show False using fl(3,4) by (simp split: if_splits)
qed

text \<open>
  What is sent on an EIEIO connection is taken for what it is at the other end: the bytes of a command by the
  parser of commands, the bytes of data by the parser of data.
\<close>

lemma data_dispatched:
  assumes "eieio_header_wf (edm_header m)" and "eieio_message_bytestring (DataMessage m) = Inr bs"
  shows "eieio_message_of bs = bind_res (read_eieio_data_message bs 0) (\<lambda>m'. Inr (DataMessage m'))"
proof -
  obtain a b where a: "struct_pack Little [FB, FB] [edh_count (edm_header m), eieio_flags (edm_header m)] = Inr a"
    and bs: "bs = a @ b @ edm_elements m"
    using assms(2) by (auto simp: eieio_message_bytestring_def eieio_data_message_bytestring_def
        eieio_header_bytestring_split)
  have "length a = 2" using a by (auto dest!: length_struct_pack)
  from first_word [OF this] data_word [OF assms(1) a] show ?thesis by (simp add: eieio_message_of_def bs)
qed

lemma command_dispatched:
  assumes "command_header_wf (command_number c)" and "eieio_message_bytestring (CommandMessage c) = Inr bs"
  shows "eieio_message_of bs = bind_res (read_eieio_command_message bs 0) (\<lambda>c'. Inr (CommandMessage c'))"
proof -
  obtain a b where a: "struct_pack Little [FH] [16384 OR command_number c] = Inr a" and bs: "bs = a @ b"
    using assms(2) by (auto simp: eieio_message_bytestring_def command_bytestring_def command_header_bytestring_def
        push_bit_eq_mult)
  note cf = command_header_fields [OF assms(1)]
  have "length a = 2" using a by (auto dest!: length_struct_pack)
  moreover have "le_val a = 16384 OR command_number c"
    using a cf(1,2) by (auto simp: struct_pack_def order_bytes_def le_val_le_bytes split: if_splits)
  moreover have "(16384 OR command_number c) AND 0xC000 = 0x4000"
  proof (rule bit_eqI)
    fix n
    have "bit (command_number c) n \<Longrightarrow> n < 14"
      using assms(1) bit_bounded [of "command_number c" 14 n] by (simp add: command_header_wf_def)
    moreover have "bit (0xC000 :: int) n \<longleftrightarrow> n = 14 \<or> n = 15"
    proof -
      have "(0xC000 :: int) = 2 ^ 14 OR 2 ^ 15" by simp
      then show ?thesis by (simp only: bit_or_iff bit_exp_iff) simp
    qed
    moreover have "bit (0x4000 :: int) n \<longleftrightarrow> n = 14"
    proof -
      have "(0x4000 :: int) = 2 ^ 14" by simp
      then show ?thesis by (simp only: bit_exp_iff) simp
    qed
    ultimately show "bit ((16384 OR command_number c) AND 0xC000) n = bit (0x4000 :: int) n"
      by (auto simp: bit_or_iff bit_and_iff)
  qed
  ultimately show ?thesis using first_word [of a b] by (simp add: eieio_message_of_def bs)
qed

text \<open>So the commands that are read back as they were written come through a connection.\<close>

lemma command_through:
  assumes "command_wf c" and "command_header_wf (command_number c)"
    and "eieio_message_bytestring (CommandMessage c) = Inr bs"
  shows "eieio_message_of bs = Inr (CommandMessage c)"
proof -
  have "\<forall>pre post. read_eieio_command_message (pre @ bs @ post) (length pre) = Inr c"
    using eieio_command_trip [OF assms(1)] assms(3) by (auto simp: eieio_message_bytestring_def)
  from spec [OF spec [OF this, of "[]"], of "[]"] show ?thesis
    using command_dispatched [OF assms(2,3)] by simp
qed

end
