(* ===== verification/Scripts.thy ===== *)
theory Scripts
  imports DataView TransceiverOps
begin

text \<open>
  The command line script that shows what runs (\<open>get_cores_in_run_state.py\<close>), its choice of a board
  (\<open>board_test_configuration.py\<close>) and the report on the structure of a machine (\<open>utilities/reports.py\<close>). What is
  printed is a list of lines; what the ping of a host finds and what the machine library says are arguments.
\<close>

subsection \<open>What runs\<close>

datatype line =
    CountLine int int             \<comment> \<open>running and finished\<close>
  | SizeLine int int
  | ChipsLine "xy list"
  | RunCoreLine xyp
  | FinishedCoreLine xyp
  | WatchdogCoreLine xyp

text \<open>Statements that print.\<close>

type_synonym 'a out = "transceiver \<Rightarrow> net \<Rightarrow> line list \<times> 'a tres option"

definition out_tx :: "'a tx \<Rightarrow> 'a out" where
  "out_tx m t nt = ([], m t nt)"

definition out_print :: "line \<Rightarrow> unit out" where
  "out_print l t nt = ([l], Some (TxDone () t nt))"

definition out_bind :: "'a out \<Rightarrow> ('a \<Rightarrow> 'b out) \<Rightarrow> 'b out" where
  "out_bind m f t nt =
     (case m t nt of
        (ls, None) \<Rightarrow> (ls, None)
      | (ls, Some (TxDone x t' nt')) \<Rightarrow> (case f x t' nt' of (ls', r) \<Rightarrow> (ls @ ls', r))
      | (ls, Some (TxRaise e t' nt')) \<Rightarrow> (ls, Some (TxRaise e t' nt'))
      | (ls, Some (TxBlock t')) \<Rightarrow> (ls, Some (TxBlock t')))"

definition IGNORED_IDS :: "int set" where "IGNORED_IDS = {0, 16}"

text \<open>
  \<open>for (x, y, p), _ in cores\<close>: the collection is iterated over its keys, so every turn has three
  coordinates to unpack into two targets, a \<open>ValueError\<close>.
\<close>

definition unpack_key :: "xyp \<Rightarrow> (xyp \<times> unit) res" where
  "unpack_key key = Inl PyValueError"

fun print_cores :: "(xyp \<Rightarrow> line option) \<Rightarrow> xyp list \<Rightarrow> unit out" where
  "print_cores line_of [] = out_tx (tx_return ())"
| "print_cores line_of (key # keys) =
     out_bind (out_tx (tx_res (unpack_key key))) (\<lambda>(core, _).
     out_bind (case line_of core of None \<Rightarrow> out_tx (tx_return ()) | Some l \<Rightarrow> out_print l) (\<lambda>_.
       print_cores line_of keys))"

text \<open>\<open>extent\<close> and \<open>placable\<close> are what the machine library says of the machine that was made.\<close>

definition get_cores_in_run_state ::
  "env \<Rightarrow> machine_version \<Rightarrow> (made_chip list \<Rightarrow> int \<times> int) \<Rightarrow> (made_chip \<Rightarrow> int list) \<Rightarrow> int \<Rightarrow> bool \<Rightarrow> unit out" where
  "get_cores_in_run_state en v extent placable app_id print_all_chips =
     out_bind (out_tx (get_core_state_count en app_id CPU_FINISHED None)) (\<lambda>count_finished.
     out_bind (out_tx (get_core_state_count en app_id CPU_RUNNING None)) (\<lambda>count_run.
     out_bind (out_print (CountLine count_run count_finished)) (\<lambda>_.
     out_bind (out_tx (tx_get_machine_details en v)) (\<lambda>machine.
     out_bind (out_print (SizeLine (fst (extent machine)) (snd (extent machine)))) (\<lambda>_.
     out_bind (if print_all_chips then out_print (ChipsLine (map mc_xy machine)) else out_tx (tx_return ())) (\<lambda>_.
     let all_cores = map (\<lambda>c. (fst (mc_xy c), snd (mc_xy c), placable c)) machine
     in out_bind (out_tx (get_cpu_infos en (Some all_cores) (Some [CPU_FINISHED, CPU_RUNNING, CPU_WATCHDOG]) True))
          (\<lambda>cpu_infos.
            let cores = (\<lambda>state. map fst (infos_for_state cpu_infos state))
            in out_bind (print_cores (\<lambda>(x, y, p). if p \<in> IGNORED_IDS then None else Some (RunCoreLine (x, y, p)))
                           (cores CPU_RUNNING)) (\<lambda>_.
               out_bind (print_cores (Some \<circ> FinishedCoreLine) (cores CPU_FINISHED)) (\<lambda>_.
                 print_cores (Some \<circ> WatchdogCoreLine) (cores CPU_WATCHDOG))))))))))"

text \<open>So the script names no core: the first one that it would name ends it.\<close>

lemma print_cores_fails:
  "keys \<noteq> [] \<Longrightarrow> print_cores line_of keys t nt = ([], Some (TxRaise PyValueError t nt))"
  by (cases keys) (simp_all add: out_bind_def out_tx_def tx_res_def unpack_key_def tx_raise_def)

subsection \<open>The choice of a board\<close>

record board_choice =
  bc_remotehost :: string
  bc_version :: int
  bc_auto_detect_bmp :: "bool option"

text \<open>\<open>set_up_remote_board\<close>: the first board that answers a ping, or a virtual one of the version asked for.\<close>

definition set_up_remote_board :: "(string \<Rightarrow> bool) \<Rightarrow> int option \<Rightarrow> board_choice res" where
  "set_up_remote_board host_is_reachable version =
     (if host_is_reachable ''192.168.240.253'' then
        Inr \<lparr>bc_remotehost = ''192.168.240.253'', bc_version = 3, bc_auto_detect_bmp = Some False\<rparr>
      else if host_is_reachable ''spinn-4.cs.man.ac.uk'' then
        Inr \<lparr>bc_remotehost = ''spinn-4.cs.man.ac.uk'', bc_version = 5, bc_auto_detect_bmp = None\<rparr>
      else if host_is_reachable ''192.168.240.1'' then
        Inr \<lparr>bc_remotehost = ''192.168.240.1'', bc_version = 5, bc_auto_detect_bmp = None\<rparr>
      else (case version of
              Some v \<Rightarrow> Inr \<lparr>bc_remotehost = LOCAL_HOST, bc_version = v, bc_auto_detect_bmp = None\<rparr>
            | None \<Rightarrow> Inl PyException))"

text \<open>
  \<open>_make_transceiver\<close>: with a host, the version is guessed from its address if it is not given. \<open>class_of\<close> is
  the class of board that the machine library has for the version in the configuration.
\<close>

definition make_transceiver ::
  "(string \<Rightarrow> 'b res) \<Rightarrow> (int \<Rightarrow> board_class) \<Rightarrow> (string \<Rightarrow> bool) \<Rightarrow> string option \<Rightarrow> int option \<Rightarrow> 'b option \<Rightarrow>
     ('b wanted list \<times> transceiver_class \<times> bool) res" where
  "make_transceiver work_out class_of host_is_reachable host version bmp_names =
     (case host of
        None \<Rightarrow>
          bind_res (set_up_remote_board host_is_reachable None) (\<lambda>c.
            create_transceiver_from_hostname work_out (class_of (bc_version c)) (Some (bc_remotehost c)) None
              (bc_auto_detect_bmp c = Some True) False False)
      | Some h \<Rightarrow>
          let v = (case version of Some v \<Rightarrow> v | None \<Rightarrow> if h = ''192.168.240.253'' then 3 else 5)
          in create_transceiver_from_hostname work_out (class_of v) (Some h) bmp_names False False False)"

text \<open>The script never looks for a BMP by itself, and never starts the machine anew.\<close>

lemma create_quiet:
  assumes "create_transceiver_from_hostname work_out version h bmp False False extended = Inr (connections, c, power_cycle)"
  shows "\<not> power_cycle \<and> (bmp = None \<longrightarrow> (\<forall>b. WantBmp b \<notin> set connections))"
proof -
  have "bmp_wanted work_out version h bmp False = Inr bmp" by (simp add: bmp_wanted_def)
  with assms show ?thesis by (cases bmp) (auto simp: create_transceiver_from_hostname_def Let_def)
qed

lemma set_up_quiet: "set_up_remote_board reachable version = Inr c \<Longrightarrow> bc_auto_detect_bmp c \<noteq> Some True"
  unfolding set_up_remote_board_def by (auto split: if_split_asm option.split_asm)

lemma make_transceiver_quiet:
  assumes "make_transceiver work_out class_of reachable host version bmp_names = Inr (connections, c, power_cycle)"
  shows "\<not> power_cycle \<and> (bmp_names = None \<longrightarrow> (\<forall>b. WantBmp b \<notin> set connections))"
proof (cases host)
  case None
  then obtain b where b: "set_up_remote_board reachable None = Inr b"
    and made: "create_transceiver_from_hostname work_out (class_of (bc_version b)) (Some (bc_remotehost b)) None
      (bc_auto_detect_bmp b = Some True) False False = Inr (connections, c, power_cycle)"
    using assms by (auto simp: make_transceiver_def)
  have "(bc_auto_detect_bmp b = Some True) = False" using set_up_quiet [OF b] by simp
  from create_quiet [OF made [unfolded this]] show ?thesis by simp
next
  case (Some h)
  define v where "v = class_of (case version of Some v \<Rightarrow> v | None \<Rightarrow> if h = ''192.168.240.253'' then 3 else 5)"
  have "create_transceiver_from_hostname work_out v (Some h) bmp_names False False False
      = Inr (connections, c, power_cycle)"
    using assms Some by (simp only: make_transceiver_def Let_def option.case v_def)
  from create_quiet [OF this] show ?thesis .
qed

subsection \<open>The report\<close>

text \<open>A chip as the report shows it; the texts are those of the machine library.\<close>

record reported_chip =
  rc_x :: int
  rc_y :: int
  rc_neighbours :: string
  rc_links :: "string list"

abbreviation tab :: string where "tab \<equiv> [CHR 0x09]"
abbreviation nl :: string where "nl \<equiv> [CHR 0x0A]"

definition write_header :: "string \<Rightarrow> int \<Rightarrow> int \<Rightarrow> string \<Rightarrow> string" where
  "write_header timestamp width height connections =
     tab @ tab @ ''Target SpiNNaker Machine Structure'' @ nl @
     tab @ tab @ ''=================================='' @ nl @
     nl @ ''Generated: '' @ timestamp @ '' for target machine '' @ [CHR 0x27] @ connections @ [CHR 0x27] @ nl @ nl @
     ''Machine dimensions (in chips) x : '' @ show_int width @ ''  y : '' @ show_int height @ nl @ nl @
     tab @ tab @ ''Machine router information'' @ nl @
     tab @ tab @ ''=========================='' @ nl"

definition write_chip_router_report :: "reported_chip \<Rightarrow> string" where
  "write_chip_router_report c =
     nl @ ''Information for chip '' @ show_int (rc_x c) @ '':'' @ show_int (rc_y c) @ nl @
     ''Neighbouring chips'' @ nl @ rc_neighbours c @ nl @
     ''Router list of links for this chip are: '' @ nl @
     concat (map (\<lambda>link. tab @ link @ nl) (rc_links c)) @
     tab @ tab @ ''=========================='' @ nl"

text \<open>The text of the file; one that cannot be opened raises.\<close>

definition generate_machine_report ::
  "bool \<Rightarrow> string \<Rightarrow> int \<Rightarrow> int \<Rightarrow> reported_chip list \<Rightarrow> string \<Rightarrow> string res" where
  "generate_machine_report opens timestamp width height chips connections =
     check opens PyOSError
       (Inr (write_header timestamp width height connections @ concat (map write_chip_router_report chips)))"

end
