(* ===== verification/MockTransceiver.thy ===== *)
theory MockTransceiver
  imports Transceiver
begin

text \<open>
  The transceiver that tests use in the place of a machine (\<open>transceiver/mockable_transceiver.py\<close>): it keeps what
  was written, does nothing for the other operations that change a machine, and raises where a test would need a
  value. An operation is a constructor; the arguments that its body does not look at are left out.
\<close>

type_synonym written_memory = "(int \<times> int \<times> int \<times> write_data \<times> int option \<times> nat \<times> int) list"

datatype mock_operation =
    MockSendSdpMessage
  | MockDiscoverScampConnections
  | MockAddScampConnections
  | MockGetMachineDetails
  | MockGetConnections
  | MockGetCpuInfos
  | MockGetClockDrift
  | MockReadUser
  | MockAddCpuInformationFromCore
  | MockGetRegionBaseAddress
  | MockGetIobuf
  | MockGetCoreStateCount
  | MockExecuteFlood
  | MockReadFpgaRegister
  | MockWriteFpgaRegister
  | MockReadBmpVersion
  | MockWriteMemory int int int write_data "int option" nat int
  | MockWriteUser
  | MockReadMemory
  | MockReadWord
  | MockStopApplication
  | MockWaitForCoresToBeInState
  | MockSendSignal
  | MockSetIpTag
  | MockSetReverseIpTag
  | MockClearIpTag
  | MockGetTags
  | MockMallocSdram
  | MockLoadMulticastRoutes
  | MockLoadFixedRoute
  | MockReadFixedRoute
  | MockGetMulticastRoutes
  | MockClearMulticastRoutes
  | MockGetRouterDiagnostics
  | MockGetScampConnectionSelector
  | MockSetRouterDiagnosticFilter
  | MockClearRouterDiagnosticCounters
  | MockClose
  | MockControlSync
  | MockUpdateProvenanceAndExit
  | MockSendChipUpdateProvenanceAndExit
  | MockBmpSelector
  | MockScampConnectionSelector

datatype mock_value = MockNothing | MockSizes int int | MockMachine machine

definition mock_init :: written_memory where "mock_init = []"

text \<open>\<open>machine\<close> is the one of the data view.\<close>

fun mock_call :: "machine \<Rightarrow> mock_operation \<Rightarrow> written_memory \<Rightarrow> mock_value res \<times> written_memory" where
  "mock_call machine MockSendSdpMessage written = (Inr MockNothing, written)"
| "mock_call machine MockDiscoverScampConnections written = (Inl PyNotImplementedError, written)"
| "mock_call machine MockAddScampConnections written = (Inr MockNothing, written)"
| "mock_call machine MockGetMachineDetails written = (Inr (MockMachine machine), written)"
| "mock_call machine MockGetConnections written = (Inl PyNotImplementedError, written)"
| "mock_call machine MockGetCpuInfos written = (Inl PyNotImplementedError, written)"
| "mock_call machine MockGetClockDrift written = (Inl PyNotImplementedError, written)"
| "mock_call machine MockReadUser written = (Inl PyNotImplementedError, written)"
| "mock_call machine MockAddCpuInformationFromCore written = (Inl PyNotImplementedError, written)"
| "mock_call machine MockGetRegionBaseAddress written = (Inl PyNotImplementedError, written)"
| "mock_call machine MockGetIobuf written = (Inl PyNotImplementedError, written)"
| "mock_call machine MockGetCoreStateCount written = (Inl PyNotImplementedError, written)"
| "mock_call machine MockExecuteFlood written = (Inr MockNothing, written)"
| "mock_call machine MockReadFpgaRegister written = (Inl PyNotImplementedError, written)"
| "mock_call machine MockWriteFpgaRegister written = (Inr MockNothing, written)"
| "mock_call machine MockReadBmpVersion written = (Inl PyNotImplementedError, written)"
| "mock_call machine (MockWriteMemory x y base_address data n_bytes offset cpu) written =
     (Inr (MockSizes (- 1) (- 1)), written @ [(x, y, base_address, data, n_bytes, offset, cpu)])"
| "mock_call machine MockWriteUser written = (Inr MockNothing, written)"
| "mock_call machine MockReadMemory written = (Inl PyNotImplementedError, written)"
| "mock_call machine MockReadWord written = (Inl PyNotImplementedError, written)"
| "mock_call machine MockStopApplication written = (Inr MockNothing, written)"
| "mock_call machine MockWaitForCoresToBeInState written = (Inr MockNothing, written)"
| "mock_call machine MockSendSignal written = (Inr MockNothing, written)"
| "mock_call machine MockSetIpTag written = (Inr MockNothing, written)"
| "mock_call machine MockSetReverseIpTag written = (Inr MockNothing, written)"
| "mock_call machine MockClearIpTag written = (Inr MockNothing, written)"
| "mock_call machine MockGetTags written = (Inl PyNotImplementedError, written)"
| "mock_call machine MockMallocSdram written = (Inl PyNotImplementedError, written)"
| "mock_call machine MockLoadMulticastRoutes written = (Inr MockNothing, written)"
| "mock_call machine MockLoadFixedRoute written = (Inr MockNothing, written)"
| "mock_call machine MockReadFixedRoute written = (Inl PyNotImplementedError, written)"
| "mock_call machine MockGetMulticastRoutes written = (Inl PyNotImplementedError, written)"
| "mock_call machine MockClearMulticastRoutes written = (Inr MockNothing, written)"
| "mock_call machine MockGetRouterDiagnostics written = (Inl PyNotImplementedError, written)"
| "mock_call machine MockGetScampConnectionSelector written = (Inl PyNotImplementedError, written)"
| "mock_call machine MockSetRouterDiagnosticFilter written = (Inr MockNothing, written)"
| "mock_call machine MockClearRouterDiagnosticCounters written = (Inr MockNothing, written)"
| "mock_call machine MockClose written = (Inr MockNothing, written)"
| "mock_call machine MockControlSync written = (Inr MockNothing, written)"
| "mock_call machine MockUpdateProvenanceAndExit written = (Inr MockNothing, written)"
| "mock_call machine MockSendChipUpdateProvenanceAndExit written = (Inr MockNothing, written)"
| "mock_call machine MockBmpSelector written = (Inl PyNotImplementedError, written)"
| "mock_call machine MockScampConnectionSelector written = (Inl PyNotImplementedError, written)"

fun mock_calls :: "machine \<Rightarrow> mock_operation list \<Rightarrow> written_memory \<Rightarrow> written_memory" where
  "mock_calls machine [] written = written"
| "mock_calls machine (op # ops) written = mock_calls machine ops (snd (mock_call machine op written))"

text \<open>Whatever is called, the record holds the writes, in their order, and nothing else.\<close>

definition write_of :: "mock_operation \<Rightarrow> written_memory" where
  "write_of op =
     (case op of
        MockWriteMemory x y base_address data n_bytes offset cpu \<Rightarrow> [(x, y, base_address, data, n_bytes, offset, cpu)]
      | _ \<Rightarrow> [])"

lemma mock_call_records: "snd (mock_call machine op written) = written @ write_of op"
  by (cases op) (simp_all add: write_of_def)

lemma mock_calls_record: "mock_calls machine ops written = written @ concat (map write_of ops)"
  by (induction ops arbitrary: written) (simp_all add: mock_call_records)

end
