(* ===== verification/Spec2Isabelle.thy ===== *)
theory Spec2Isabelle
  imports WriteProps EieioCommandProps MachineDataProps BootProps UtilityProps
    RouteProps ExecutableTargetsProps TransceiverProps CopyRunProps ProxyProps SpallocProps
    MachineDetailsProps CpuInfoProps ProxyConnections AdcInfo DataView ExtendedTransceiver
    HeapProps TokenBucket ExecuteLocks EieioRequests PacketConnections Scripts MockTransceiver
begin

text \<open>
  SpiNNMan talks to a SpiNNaker machine: it boots the boards, asks what chips and cores there are, reads and
  writes their memory, loads applications, routes and tags and controls what runs. This library models the
  package \<open>src/spinnman\<close> (paths below are relative to it) as executable definitions and proves what its parts
  promise. It stands on \<open>Main\<close>, the library theories and, for the rational numbers, \<open>Complex_Main\<close>.

  \<^bold>\<open>How the program is put together.\<close> A \<open>Transceiver\<close> holds connections and offers the operations. Each
  operation runs a process (\<open>processes\<close>), which makes requests (\<open>messages/scp\<close>), lets a connection selector
  choose a connection for each and hands it to the pipeline of that connection
  (\<open>connections/scp_request_pipeline.py\<close>). The pipeline numbers the request, keeps a window of them open,
  repeats what is not answered and gives each response to the callback of its request, which works on the
  state of the process. Below it a connection turns messages into bytes. Beside this stand the EIEIO messages
  that running applications exchange with the host, the boot messages, and the client of the Spalloc service,
  which lends machines and carries the connections to their boards over one websocket (\<open>spalloc\<close>).

  \<^bold>\<open>How the code appears here.\<close> An integer of Python is an \<open>int\<close>; a byte is a word of eight
  bits; sequence numbers and fields wrap around or fail to pack where the code's do. A class is a record, an
  enumeration a datatype, a dictionary a map or, where its order is seen, an association list. A method that may raise returns \<open>exc + 'a\<close> (\<open>Inl\<close> the exception). Objects that
  change are passed and returned, and the state is returned with an exception too. What is outside the program
  is an argument: the datagrams, timeouts and failures a socket still has to offer are a list, the success of
  the n-th send is an oracle, and the machine library, the clock and the replies of a service are functions or
  lists. Every send is logged, so that theorems can speak of what was sent.

  \<^bold>\<open>The theories, from the bottom up.\<close>

  \<^item> Foundations: \<open>Prelude\<close> (bytes, bit fields, the locale \<open>py_enum\<close>), \<open>Exceptions\<close> (\<open>exceptions.py\<close>, the result
    type), \<open>Enums\<close> (every integer enumeration), \<open>PyStruct\<close> (Python's \<open>struct\<close>, with the laws
    \<open>unpack_pack\<close> and \<open>pack_unpack\<close>), \<open>Codec\<close> (the contract of a printer and a parser).
  \<^item> Messages: \<open>SDP\<close>, \<open>SCP\<close>, \<open>Requests\<close>, \<open>Responses\<close>, \<open>ChipInfo\<close> (\<open>messages/sdp\<close>, \<open>messages/scp\<close>,
    \<open>model/version_info.py\<close>, \<open>model/chip_summary_info.py\<close>); \<open>EieioData\<close> and \<open>EieioCommand\<close> with their
    \<open>Props\<close>, \<open>EieioRequests\<close> (constructors with single values, accessors by request; \<open>messages/eieio\<close>); \<open>SystemVariables\<close>, \<open>Boot\<close>, \<open>BootProps\<close> (\<open>messages/spinnaker_boot\<close>).
  \<^item> Connections: \<open>Connection\<close> (SCAMP, BMP and SDP connections), \<open>UdpConnection\<close> (sockets and the listener
    thread), \<open>PacketConnections\<close> (the constructors, and EIEIO messages from one socket to the handlers of another),
    \<open>TokenBucket\<close> (the limit on a rate, with the clock as an argument).
  \<^item> The pipeline: \<open>Pipeline\<close> is the code, \<open>PipelineInv\<close> the relation \<open>evolves\<close> between its states and the
    invariant, \<open>PipelineProps\<close> the results, \<open>PipelineClient\<close> the contract with the callbacks.
  \<^item> Processes: \<open>Process\<close> (\<open>abstract_multi_connection_process.py\<close> and the selectors), \<open>Phases\<close> and
    \<open>ProcessClient\<close> (the contract for several pipelines), \<open>Wire\<close> (the datagrams that a process sends, as a machine
    reads them), \<open>Answers\<close> (replies that answer the datagrams sent, and the memory of a machine), \<open>Consumed\<close> (the
    events that a process takes), \<open>MemoryProcess\<close>, \<open>MachineProcess\<close>, \<open>RouteProcess\<close>,
    \<open>IobufProcess\<close>, \<open>CopyRun\<close>, \<open>MachineDetails\<close> (one process or a group of them each), with \<open>MemoryProps\<close>,
    \<open>WriteProps\<close>, \<open>ProcessProps\<close>, \<open>RouteProps\<close>, \<open>CopyRunProps\<close>, \<open>MachineDetailsProps\<close>,
    \<open>RouteReadProps\<close> (phases whose requests have a callback each), \<open>CpuInfoProps\<close> and \<open>HeapProps\<close>.
  \<^item> Data: \<open>MachineData\<close> and \<open>MachineDataProps\<close>, \<open>CpuInfo\<close>, \<open>ExecutableTargets\<close> and
    \<open>ExecutableTargetsProps\<close> (\<open>model\<close>), \<open>Utilities\<close> and \<open>UtilityProps\<close> (\<open>utilities\<close>).
  \<^item> The transceiver: \<open>Transceiver\<close> (state and memory), \<open>TransceiverBoot\<close> (finding, powering and booting a
    machine), \<open>TransceiverOps\<close> (applications, tags, routes), \<open>VirtualTransceiver\<close>, \<open>ExtendedTransceiver\<close>,
    \<open>ExecuteLocks\<close> (the two locks around loading), \<open>MockTransceiver\<close>,
    \<open>AdcInfo\<close> (a board's readings), \<open>DataView\<close> (the registry and the factory), \<open>Scripts\<close> (what runs, the
    choice of a board, the machine report); \<open>TransceiverInv\<close> is the logic of its statements,
    \<open>Heard\<close> what they send and take from the sockets, \<open>TransceiverProps\<close> the results.
  \<^item> Spalloc: \<open>Urls\<close>, \<open>SpallocSession\<close> (log-in, cookies, requests), \<open>SpallocJob\<close> (machines and jobs), \<open>Proxy\<close>
    (channels, calls and the receiver thread), \<open>ProxyConnections\<close>; \<open>ProxyProps\<close> and \<open>SpallocProps\<close>.

  \<^bold>\<open>What is shown.\<close>

  \<^item> Wire formats are read back as they were written, byte for byte (SDP headers and messages, EIEIO
    packets and commands, diagnostic filters), and the formats that are not read back are shown with what comes
    out instead.
  \<^item> The pipeline, for every list of events and every outcome of the sends: its six dictionaries have the same
    keys, a request is sent at most once more than its retries, the window is never exceeded, \<open>finish\<close> returns
    with nothing outstanding and every request is completed once. The two ways in which it does not return
    are theorems of their own.
  \<^item> Processes: the machine is known by what it answers to the datagrams that were really sent. A read that
    returns without an exception returns the memory of the core and the addresses of the call, whatever was lost,
    repeated or exchanged; a count adds what every chip of the call answers, once; the routing table and the states of
    cores are those in the memory of the chips; the heap is the linked list that is in the memory, in its order;
    writes are the plain program that cuts the data in runs of 256 bytes.
  \<^item> The machine that is made of what its chips report obeys the configured ignores, and its links lead both
    ways through every removal.
  \<^item> The copy run reaches exactly the chips that hang on the boot chip, each once, in at most as many rounds as
    the machine has chips; it has sent to each of them the datagram that starts its copy, and no other.
  \<^item> The transceiver: what its creation has established when it returns, the version of SCAMP in a reply that
    came to its own request among it, and what every sequence of operations keeps. Threads that load on chips and threads that flood exclude one another as the locks mean them to, and none
    waits without something that will notify it. \<open>AppIdTracker\<close> and \<open>ExecutableTargets\<close> refine an allocator and a partial map;
    the allocator's range leaves out the largest identifier that the documentation of the tracker promises.
  \<^item> The token bucket grants at most its capacity and its rate times the time, and a blocking call for what fits
    waits once.
  \<^item> The proxy: each connection receives the messages of its channel, all of them, once and in order, in every
    interleaving of the receiver with the connections; a call gets the reply to it. Waiting for a job ends
    with the first state that decides; the stored credentials never hold the authorisation.

  \<^bold>\<open>The interfaces\<close> are locales. \<open>py_enum\<close> is interpreted for every enumeration. \<open>codec\<close>, \<open>fixed_codec\<close> and
  \<open>codec_pair\<close> give a packet its round trip from those of its parts. \<open>connection_selector\<close> is what a
  process asks of the three selectors. \<open>process_client\<close> is what the pipelines ask of the callbacks of a process
  (an invariant kept while a set of sequence numbers is outstanding), \<open>single_client\<close> its case for requests that
  go out one at a time, with an invariant of their own between them;
  it extends \<open>pipeline_client\<close>, the same contract for one pipeline, and both are interpreted on the callbacks of
  the processes. \<open>pool_free\<close> is a property of a transceiver that only its sockets could not break;
  \<open>id_allocator\<close> is the abstract allocator of identifiers.
  \<open>user_register\<close>, \<open>spalloc_state\<close> and \<open>proxy_protocol\<close> are instances of \<open>linorder\<close>, by their values: they are the
  enumerations whose order the code uses.

  \<^bold>\<open>Loops.\<close> Loops over data are structural recursions, or functions with a measure. Loops that the
  outside can keep going are \<open>partial_function (option)\<close>, with \<open>None\<close> for a loop that does not end: \<open>drain\<close> and
  \<open>finish\<close> of the pipeline, \<open>find_scamp_loop\<close>, \<open>wait_loop\<close>, \<open>heap_loop\<close>, the rounds of the IOBUF process and of
  the copy run, \<open>write_from_reader_loop\<close>, \<open>wait_for\<close> of the token bucket, the loops of a job and \<open>may_renew_loop\<close>. A loop over the events of
  a connection ends with \<open>Waiting\<close> where it would block once they are used up. That a loop returns is always a
  theorem of its own: \<open>finish_completes_each_once\<close>, \<open>copy_run_rounds\<close>, \<open>wait_until_ready_decides\<close>,
  \<open>consume_waits\<close>. There is no
  fuel; the bound that \<open>copy_rounds_in\<close> counts is proved to be the number of chips.

  \<^bold>\<open>Not modelled.\<close> Delays and stopwatches outside the token bucket, which only change when things happen; locks,
  except where the interleaving of threads is the subject (\<open>Proxy\<close>, \<open>ExecuteLocks\<close>); rounding of floats in
  the token bucket; logging, progress bars and \<open>__str__\<close> methods, which are text for people; the abstract
  interfaces (\<open>transceiver/transceiver.py\<close>, \<open>spalloc/spalloc_job.py\<close> and the abstract connections), which
  have no behaviour; the messages and operands that exceptions carry, apart from those a handler reads; the
  loading of configuration files and the parsing of the script's arguments; netlocs of URLs outside
  ASCII. The machine library (\<open>spinn_machine\<close>), \<open>requests\<close> and the websocket package are not part of
  the program: what it uses of them is an argument.
\<close>

end
